(* ===== verification/Kontext_Prelude.thy ===== *)
theory Kontext_Prelude
  imports Complex_Main "HOL-Library.Char_ord" "HOL-Library.List_Lexorder" "HOL-Library.AList"
begin

text \<open>
  What every component of the development shares: the Go values the source works with
  (byte strings, bounded integers, ordered association lists for maps), the functions of the
  \<^verbatim>\<open>strings\<close>, \<^verbatim>\<open>strconv\<close> and \<^verbatim>\<open>fmt\<close> packages the source calls, and the
  simplification rules about them.

  A Go string is a sequence of bytes, so it is a \<^typ>\<open>char list\<close>.  An \<^verbatim>\<open>error\<close> is the text
  it prints, except where the source inspects the error's type.  Case mapping and quoting of
  bytes outside ASCII, and the digest of SHA-256, are fields of the record \<open>golib\<close>, a parameter
  of the definitions that use them.
\<close>

named_theorems go_strings "evaluation of the string functions"
named_theorems bounds_intro "facts that keep an integer inside its width"

type_synonym 'a go_result = "string + 'a"
type_synonym 'v go_map = "(string \<times> 'v) list"

subsection \<open>Integers of a fixed width\<close>

definition wrap32 :: "int \<Rightarrow> int" where
  "wrap32 x = (x + 2 ^ 31) mod 2 ^ 32 - 2 ^ 31"

definition wrap64 :: "int \<Rightarrow> int" where
  "wrap64 x = (x + 2 ^ 63) mod 2 ^ 64 - 2 ^ 63"

abbreviation max_int32 :: int where "max_int32 \<equiv> 2147483647"
abbreviation max_int64 :: int where "max_int64 \<equiv> 9223372036854775807"
abbreviation min_int64 :: int where "min_int64 \<equiv> - 9223372036854775808"

definition int32_ok :: "int \<Rightarrow> bool" where
  "int32_ok x \<longleftrightarrow> - 2147483648 \<le> x \<and> x \<le> max_int32"

definition int64_ok :: "int \<Rightarrow> bool" where
  "int64_ok x \<longleftrightarrow> min_int64 \<le> x \<and> x \<le> max_int64"

subsection \<open>Strings\<close>

definition has_prefix :: "string \<Rightarrow> string \<Rightarrow> bool" where
  "has_prefix s p \<longleftrightarrow> take (length p) s = p"

definition has_suffix :: "string \<Rightarrow> string \<Rightarrow> bool" where
  "has_suffix s p \<longleftrightarrow> length p \<le> length s \<and> drop (length s - length p) s = p"

definition trim_prefix :: "string \<Rightarrow> string \<Rightarrow> string" where
  "trim_prefix s p = (if has_prefix s p then drop (length p) s else s)"

definition trim_suffix :: "string \<Rightarrow> string \<Rightarrow> string" where
  "trim_suffix s p = (if has_suffix s p then take (length s - length p) s else s)"

definition trim_right_char :: "char \<Rightarrow> string \<Rightarrow> string" where
  "trim_right_char c s = rev (dropWhile (\<lambda>x. x = c) (rev s))"

definition trim_char :: "char \<Rightarrow> string \<Rightarrow> string" where
  "trim_char c s = trim_right_char c (dropWhile (\<lambda>x. x = c) s)"

text \<open>
  The encodings of the code points for which \<^verbatim>\<open>unicode.IsSpace\<close> holds: six ASCII bytes, the
  two of Latin-1 and those with the Unicode property White Space.
\<close>

definition space_encodings :: "string list" where
  "space_encodings =
     [[CHR 0x09], [CHR 0x0A], [CHR 0x0B], [CHR 0x0C], [CHR 0x0D], [CHR 0x20],
      [CHR 0xC2, CHR 0x85], [CHR 0xC2, CHR 0xA0],
      [CHR 0xE1, CHR 0x9A, CHR 0x80],
      [CHR 0xE2, CHR 0x80, CHR 0x80], [CHR 0xE2, CHR 0x80, CHR 0x81],
      [CHR 0xE2, CHR 0x80, CHR 0x82], [CHR 0xE2, CHR 0x80, CHR 0x83],
      [CHR 0xE2, CHR 0x80, CHR 0x84], [CHR 0xE2, CHR 0x80, CHR 0x85],
      [CHR 0xE2, CHR 0x80, CHR 0x86], [CHR 0xE2, CHR 0x80, CHR 0x87],
      [CHR 0xE2, CHR 0x80, CHR 0x88], [CHR 0xE2, CHR 0x80, CHR 0x89],
      [CHR 0xE2, CHR 0x80, CHR 0x8A], [CHR 0xE2, CHR 0x80, CHR 0xA8],
      [CHR 0xE2, CHR 0x80, CHR 0xA9], [CHR 0xE2, CHR 0x80, CHR 0xAF],
      [CHR 0xE2, CHR 0x81, CHR 0x9F], [CHR 0xE3, CHR 0x80, CHR 0x80]]"

definition leading_space :: "string \<Rightarrow> nat" where
  "leading_space s =
     (case find (has_prefix s) space_encodings of None \<Rightarrow> 0 | Some e \<Rightarrow> length e)"

definition trailing_space :: "string \<Rightarrow> nat" where
  "trailing_space s =
     (case find (has_suffix s) space_encodings of None \<Rightarrow> 0 | Some e \<Rightarrow> length e)"

lemma leading_space_le: "leading_space s \<le> length s"
  by (auto simp: leading_space_def has_prefix_def find_Some_iff split: option.splits)
     (metis length_take min.absorb_iff2 nat_le_linear)

lemma trailing_space_le: "trailing_space s \<le> length s"
  by (auto simp: trailing_space_def has_suffix_def find_Some_iff split: option.splits)

function trim_left :: "string \<Rightarrow> string" where
  "trim_left s = (if leading_space s = 0 then s else trim_left (drop (leading_space s) s))"
  by pat_completeness auto
termination
proof (relation "measure length")
  fix s assume "leading_space s \<noteq> 0"
  then show "(drop (leading_space s) s, s) \<in> measure length"
    using leading_space_le[of s] by simp
qed simp

function trim_right :: "string \<Rightarrow> string" where
  "trim_right s =
     (if trailing_space s = 0 then s else trim_right (take (length s - trailing_space s) s))"
  by pat_completeness auto
termination
proof (relation "measure length")
  fix s assume "trailing_space s \<noteq> 0"
  then show "(take (length s - trailing_space s) s, s) \<in> measure length"
    using trailing_space_le[of s] by simp
qed simp

declare trim_left.simps [simp del] trim_right.simps [simp del]

definition trim_space :: "string \<Rightarrow> string" where
  "trim_space s = trim_right (trim_left s)"

definition ascii :: "string \<Rightarrow> bool" where
  "ascii s \<longleftrightarrow> list_all (\<lambda>c. (of_char c :: nat) < 128) s"

definition lower_char :: "char \<Rightarrow> char" where
  "lower_char c =
     (if 65 \<le> (of_char c :: nat) \<and> (of_char c :: nat) \<le> 90 then char_of (of_char c + 32 :: nat) else c)"

definition upper_char :: "char \<Rightarrow> char" where
  "upper_char c =
     (if 97 \<le> (of_char c :: nat) \<and> (of_char c :: nat) \<le> 122 then char_of (of_char c - 32 :: nat) else c)"

record golib =
  unicode_lower :: "string \<Rightarrow> string"
  unicode_upper :: "string \<Rightarrow> string"
  unicode_quote :: "string \<Rightarrow> string"
  sha256_hex :: "string \<Rightarrow> string"

definition to_lower :: "golib \<Rightarrow> string \<Rightarrow> string" where
  "to_lower L s = (if ascii s then map lower_char s else unicode_lower L s)"

definition to_upper :: "golib \<Rightarrow> string \<Rightarrow> string" where
  "to_upper L s = (if ascii s then map upper_char s else unicode_upper L s)"

definition hex_digit :: "nat \<Rightarrow> char" where
  "hex_digit n = ''0123456789abcdef'' ! (n mod 16)"

text \<open>The verb \<^verbatim>\<open>%q\<close>, that is \<^verbatim>\<open>strconv.Quote\<close>.\<close>

definition quote_char :: "char \<Rightarrow> string" where
  "quote_char c =
     (if c = CHR 0x22 then [CHR 0x5C, CHR 0x22]
      else if c = CHR 0x5C then [CHR 0x5C, CHR 0x5C]
      else if 32 \<le> (of_char c :: nat) \<and> (of_char c :: nat) < 127 then [c]
      else if c = CHR 0x07 then [CHR 0x5C, CHR ''a'']
      else if c = CHR 0x08 then [CHR 0x5C, CHR ''b'']
      else if c = CHR 0x0C then [CHR 0x5C, CHR ''f'']
      else if c = CHR 0x0A then [CHR 0x5C, CHR ''n'']
      else if c = CHR 0x0D then [CHR 0x5C, CHR ''r'']
      else if c = CHR 0x09 then [CHR 0x5C, CHR ''t'']
      else if c = CHR 0x0B then [CHR 0x5C, CHR ''v'']
      else [CHR 0x5C, CHR ''x'', hex_digit (of_char c div 16), hex_digit (of_char c)])"

definition quote :: "golib \<Rightarrow> string \<Rightarrow> string" where
  "quote L s = (if ascii s then [CHR 0x22] @ concat (map quote_char s) @ [CHR 0x22]
                else unicode_quote L s)"

fun join_strings :: "string list \<Rightarrow> string \<Rightarrow> string" where
  "join_strings [] sep = []"
| "join_strings [x] sep = x"
| "join_strings (x # y # xs) sep = x @ sep @ join_strings (y # xs) sep"

subsection \<open>Decimal integers: \<^verbatim>\<open>%d\<close> and \<^verbatim>\<open>strconv.ParseInt\<close>\<close>

definition digit_char :: "nat \<Rightarrow> char" where
  "digit_char n = char_of (48 + n)"

definition is_digit :: "char \<Rightarrow> bool" where
  "is_digit c \<longleftrightarrow> 48 \<le> (of_char c :: nat) \<and> (of_char c :: nat) \<le> 57"

definition digit_val :: "char \<Rightarrow> nat" where
  "digit_val c = of_char c - 48"

fun show_nat :: "nat \<Rightarrow> string" where
  "show_nat n = (if n < 10 then [digit_char n] else show_nat (n div 10) @ [digit_char (n mod 10)])"

declare show_nat.simps [simp del]

definition show_int :: "int \<Rightarrow> string" where
  "show_int i = (if i < 0 then ''-'' @ show_nat (nat (- i)) else show_nat (nat i))"

definition digits_val :: "string \<Rightarrow> nat" where
  "digits_val s = foldl (\<lambda>acc c. acc * 10 + digit_val c) 0 s"

definition parse_uint :: "string \<Rightarrow> nat option" where
  "parse_uint s = (if s \<noteq> [] \<and> list_all is_digit s then Some (digits_val s) else None)"

text \<open>\<^verbatim>\<open>strconv.ParseInt(s, 10, bits)\<close>: an optional sign, digits, and the range of the width.\<close>

definition parse_int :: "nat \<Rightarrow> string \<Rightarrow> int option" where
  "parse_int bits s =
     (let neg = has_prefix s ''-'';
          body = (if has_prefix s ''-'' \<or> has_prefix s ''+'' then drop 1 s else s)
      in case parse_uint body of
           None \<Rightarrow> None
         | Some n \<Rightarrow>
             if neg then (if n > 2 ^ (bits - 1) then None else Some (- int n))
             else (if n \<ge> 2 ^ (bits - 1) then None else Some (int n)))"

text \<open>\<^verbatim>\<open>net.JoinHostPort\<close>: a host with a colon is an IPv6 address and goes into brackets.\<close>

definition join_host_port :: "string \<Rightarrow> string \<Rightarrow> string" where
  "join_host_port host port =
     (if CHR '':'' \<in> set host then ''['' @ host @ '']:'' @ port else host @ '':'' @ port)"

subsection \<open>Maps\<close>

text \<open>
  A Go map with string keys is an association list without repeated keys; the source never
  depends on the order in which a map is traversed.
\<close>

definition map_put :: "string \<Rightarrow> 'v \<Rightarrow> 'v go_map \<Rightarrow> 'v go_map" where
  "map_put k v m = AList.update k v m"

definition go_map_ok :: "'v go_map \<Rightarrow> bool" where
  "go_map_ok m \<longleftrightarrow> distinct (map fst m)"

definition put_all :: "'v go_map \<Rightarrow> 'v go_map \<Rightarrow> 'v go_map" where
  "put_all new m = fold (\<lambda>(k, v) acc. map_put k v acc) new m"

subsection \<open>Lemmas on the shared functions\<close>

lemma wrap32_id [simp]: "int32_ok x \<Longrightarrow> wrap32 x = x"
  by (auto simp: wrap32_def int32_ok_def)

lemma wrap64_id [simp]: "int64_ok x \<Longrightarrow> wrap64 x = x"
  by (auto simp: wrap64_def int64_ok_def)

lemma wrap32_ok [bounds_intro]: "int32_ok (wrap32 x)"
  unfolding wrap32_def int32_ok_def by (simp; presburger)

lemma wrap64_ok [bounds_intro]: "int64_ok (wrap64 x)"
  unfolding wrap64_def int64_ok_def by (simp; presburger)

lemma has_prefix_append [simp]: "has_prefix (p @ s) p"
  by (simp add: has_prefix_def)

lemma has_prefix_conv: "has_prefix s p \<longleftrightarrow> (\<exists>t. s = p @ t)"
  by (metis append_take_drop_id has_prefix_append has_prefix_def)

lemma has_prefix_Nil [simp]: "has_prefix s []"
  by (simp add: has_prefix_def)

lemma has_prefix_Cons [simp]:
  "has_prefix [] (c # p) = False"
  "has_prefix (d # s) (c # p) \<longleftrightarrow> d = c \<and> has_prefix s p"
  by (auto simp: has_prefix_def)

lemma trim_prefix_append [simp]: "trim_prefix (p @ s) p = s"
  by (simp add: trim_prefix_def)

lemma is_digit_digit_char [simp]: "n < 10 \<Longrightarrow> is_digit (digit_char n)"
  by (simp add: is_digit_def digit_char_def)

lemma digit_val_digit_char [simp]: "n < 10 \<Longrightarrow> digit_val (digit_char n) = n"
  by (simp add: digit_val_def digit_char_def)

lemma show_nat_nonempty [simp]: "show_nat n \<noteq> []"
  by (subst show_nat.simps) simp

lemma show_nat_digits: "list_all is_digit (show_nat n)"
proof (induction n rule: show_nat.induct)
  case (1 n)
  then show ?case by (subst show_nat.simps) auto
qed

lemma digits_val_snoc: "digits_val (s @ [c]) = digits_val s * 10 + digit_val c"
  by (simp add: digits_val_def)

lemma digits_val_show_nat [simp]: "digits_val (show_nat n) = n"
proof (induction n rule: show_nat.induct)
  case (1 n)
  show ?case
  proof (cases "n < 10")
    case True
    then show ?thesis by (subst show_nat.simps) (simp add: digits_val_def)
  next
    case False
    with 1 have "digits_val (show_nat (n div 10)) = n div 10" by simp
    with False show ?thesis by (subst show_nat.simps) (simp add: digits_val_snoc)
  qed
qed

lemma parse_uint_show_nat [simp]: "parse_uint (show_nat n) = Some n"
  by (simp add: parse_uint_def show_nat_digits)

lemma show_nat_no_sign: "\<not> has_prefix (show_nat n) ''-'' \<and> \<not> has_prefix (show_nat n) ''+''"
proof -
  obtain c cs where cs: "show_nat n = c # cs" by (meson show_nat_nonempty neq_Nil_conv)
  with show_nat_digits[of n] have "is_digit c" by simp
  then have "c \<noteq> CHR ''-'' \<and> c \<noteq> CHR ''+''" by (auto simp: is_digit_def)
  with cs show ?thesis by simp
qed

lemma show_nat_inject [simp]: "show_nat m = show_nat n \<longleftrightarrow> m = n"
  by (metis digits_val_show_nat)

lemma show_int_inject [simp]: "show_int i = show_int j \<longleftrightarrow> i = j"
proof
  assume eq: "show_int i = show_int j"
  show "i = j"
  proof (cases "i < 0"; cases "j < 0")
    assume "i < 0" "j < 0" with eq show ?thesis by (simp add: show_int_def)
  next
    assume "i < 0" "\<not> j < 0"
    with eq show ?thesis using show_nat_no_sign[of "nat j"] by (metis has_prefix_append show_int_def)
  next
    assume "\<not> i < 0" "j < 0"
    with eq show ?thesis using show_nat_no_sign[of "nat i"] by (metis has_prefix_append show_int_def)
  next
    assume "\<not> i < 0" "\<not> j < 0" with eq show ?thesis by (simp add: show_int_def)
  qed
qed simp

text \<open>Printing and parsing agree on every integer of the width.\<close>

lemma parse_int_show_int:
  assumes "- (2 ^ (b - 1)) \<le> i" "i < 2 ^ (b - 1)"
  shows "parse_int b (show_int i) = Some i"
proof (cases "i < 0")
  case True
  have "nat (- i) \<le> 2 ^ (b - 1)" using assms(1) by (simp add: nat_le_iff)
  with True show ?thesis by (simp add: parse_int_def show_int_def)
next
  case False
  have "nat i < 2 ^ (b - 1)" using assms(2) False by (simp add: nat_less_iff)
  with False show ?thesis using show_nat_no_sign[of "nat i"]
    by (simp add: parse_int_def show_int_def)
qed

lemma parse_int_range:
  "parse_int b s = Some i \<Longrightarrow> - (2 ^ (b - 1)) \<le> i \<and> i < 2 ^ (b - 1)"
proof -
  assume "parse_int b s = Some i"
  then consider n where "n \<le> 2 ^ (b - 1)" "i = - int n" | n where "n < 2 ^ (b - 1)" "i = int n"
    by (auto simp: parse_int_def Let_def not_le not_less split: option.splits if_splits)
  then show ?thesis
  proof cases
    case (1 n)
    then have "int n \<le> 2 ^ (b - 1)" by (metis of_nat_le_iff of_nat_numeral of_nat_power)
    moreover have "(0::int) < 2 ^ (b - 1)" by simp
    ultimately show ?thesis using 1 by linarith
  next
    case (2 n)
    then have "int n < 2 ^ (b - 1)" by (metis of_nat_less_iff of_nat_numeral of_nat_power)
    moreover have "(0::int) < 2 ^ (b - 1)" by simp
    ultimately show ?thesis using 2 by linarith
  qed
qed

lemma map_of_map_put [simp]: "map_of (map_put k v m) = (map_of m)(k \<mapsto> v)"
  by (simp add: map_put_def update_conv')

lemma go_map_ok_put [intro]: "go_map_ok m \<Longrightarrow> go_map_ok (map_put k v m)"
  by (simp add: go_map_ok_def map_put_def distinct_update)

lemma put_all_Nil [simp]: "put_all [] m = m"
  by (simp add: put_all_def)

lemma put_all_Cons [simp]: "put_all ((k, v) # new) m = put_all new (map_put k v m)"
  by (simp add: put_all_def)

lemma map_of_put_all:
  "go_map_ok new \<Longrightarrow> map_of (put_all new m) = map_of m ++ map_of new"
proof (induction new arbitrary: m)
  case (Cons kv new)
  then have "fst kv \<notin> dom (map_of new)" by (auto simp: go_map_ok_def dom_map_of_conv_image_fst)
  with Cons show ?case by (cases kv) (auto simp: go_map_ok_def map_add_def fun_eq_iff split: option.splits)
qed simp

lemma trim_right_char_last: "trim_right_char c s = [] \<or> last (trim_right_char c s) \<noteq> c"
  by (metis (mono_tags, lifting) hd_dropWhile last_rev rev_is_Nil_conv trim_right_char_def)

lemma length_trim_right_char: "length (trim_right_char c s) \<le> length s"
  by (simp add: trim_right_char_def) (metis length_dropWhile_le length_rev)

lemma set_trim_right_char: "set (trim_right_char c s) \<subseteq> set s"
  by (auto simp: trim_right_char_def dest: set_dropWhileD)

lemma trim_space_fixed:
  assumes "trim_space b = b"
  shows "leading_space b = 0" "trailing_space b = 0"
proof -
  have left: "length (trim_left s) \<le> length s" for s
    by (induction s rule: trim_left.induct) (subst trim_left.simps, auto intro: le_trans)
  have right: "length (trim_right s) \<le> length s" for s
    by (induction s rule: trim_right.induct) (subst trim_right.simps, auto intro: le_trans)
  have "length b \<le> length (trim_left b)" using assms right [of "trim_left b"] by (simp add: trim_space_def)
  then show l: "leading_space b = 0"
  proof (rule contrapos_pp)
    assume n: "leading_space b \<noteq> 0"
    then have "trim_left b = trim_left (drop (leading_space b) b)" by (subst trim_left.simps) simp
    moreover have "length (drop (leading_space b) b) < length b" using n leading_space_le [of b] by simp
    ultimately show "\<not> length b \<le> length (trim_left b)"
      using left [of "drop (leading_space b) b"] by simp
  qed
  then have "trim_right b = b" using assms by (simp add: trim_space_def trim_left.simps [of b])
  then show "trailing_space b = 0"
  proof (rule contrapos_pp)
    assume n: "trailing_space b \<noteq> 0"
    then have "trim_right b = trim_right (take (length b - trailing_space b) b)" by (subst trim_right.simps) simp
    moreover have "length (take (length b - trailing_space b) b) < length b"
      using n trailing_space_le [of b] by simp
    ultimately show "trim_right b \<noteq> b" using right [of "take (length b - trailing_space b) b"] by auto
  qed
qed

lemma has_suffix_rev: "has_suffix s p \<longleftrightarrow> has_prefix (rev s) (rev p)"
  by (auto simp: has_suffix_def has_prefix_def take_rev)
     (metis append_Nil2 append_eq_append_conv2 diff_is_0_eq' drop0 length_drop length_take nat_le_linear same_append_eq take_all_iff)

lemma trailing_space_append:
  assumes "trailing_space b = 0" "c \<in> set b" "\<And>e. e \<in> set space_encodings \<Longrightarrow> c \<notin> set e"
  shows "trailing_space (q @ b) = 0"
proof -
  have ne: "e \<noteq> []" if "e \<in> set space_encodings" for e
    using that by (auto simp: space_encodings_def)
  have "find (has_suffix b) space_encodings = None"
  proof (cases "find (has_suffix b) space_encodings")
    case (Some e)
    then have "e \<in> set space_encodings" by (auto simp: find_Some_iff)
    with Some assms(1) ne show ?thesis by (simp add: trailing_space_def)
  qed
  then have none: "\<not> has_suffix b e" if "e \<in> set space_encodings" for e
    using that by (simp add: find_None_iff)
  have "\<not> has_suffix (q @ b) e" if e: "e \<in> set space_encodings" for e
  proof
    assume suf: "has_suffix (q @ b) e"
    show False
    proof (cases "length e \<le> length b")
      case True
      then have "has_suffix b e" using suf by (auto simp: has_suffix_def)
      with none [OF e] show False ..
    next
      case False
      then have "drop (length q + length b - length e) q @ b = e" using suf by (auto simp: has_suffix_def)
      then have "set b \<subseteq> set e" by (metis Un_upper2 set_append)
      with assms(2,3) e show False by blast
    qed
  qed
  then have "find (has_suffix (q @ b)) space_encodings = None" by (simp add: find_None_iff)
  then show ?thesis by (simp add: trailing_space_def)
qed

lemma trim_right_newline: "trim_right (s @ [CHR 0x0A]) = trim_right s"
proof -
  have "trailing_space (s @ [CHR 0x0A]) = 1"
    by (simp add: trailing_space_def space_encodings_def has_suffix_rev)
  then show ?thesis by (subst trim_right.simps) simp
qed

lemma trim_left_space: "trim_left (CHR '' '' # s) = trim_left s"
proof -
  have "leading_space (CHR '' '' # s) = 1"
    by (simp add: leading_space_def space_encodings_def)
  then show ?thesis by (subst trim_left.simps) simp
qed

subsection \<open>Results that may be errors\<close>

definition go_bind :: "'a go_result \<Rightarrow> ('a \<Rightarrow> 'b go_result) \<Rightarrow> 'b go_result" where
  "go_bind r f = (case r of Inl e \<Rightarrow> Inl e | Inr x \<Rightarrow> f x)"

lemma go_bind_Inr: "go_bind r f = Inr y \<longleftrightarrow> (\<exists>x. r = Inr x \<and> f x = Inr y)"
  by (simp add: go_bind_def split: sum.split)

lemma go_bind_simps [simp]: "go_bind (Inl e) f = Inl e" "go_bind (Inr x) f = f x"
  by (simp_all add: go_bind_def)

subsection \<open>Splitting a string\<close>

text \<open>\<^verbatim>\<open>strings.Split\<close> at a separator of one byte.\<close>

fun split_at_char :: "char \<Rightarrow> string \<Rightarrow> string list" where
  "split_at_char sep [] = [[]]"
| "split_at_char sep (c # cs) =
     (if c = sep then [] # split_at_char sep cs
      else case split_at_char sep cs of [] \<Rightarrow> [[c]] | w # ws \<Rightarrow> (c # w) # ws)"

lemma split_at_char_nonempty [simp]: "split_at_char c s \<noteq> []"
  by (induction s) (auto split: list.splits)

lemma split_at_char_append:
  "split_at_char c (s @ t) = butlast (split_at_char c s) @ (last (split_at_char c s) @ hd (split_at_char c t)) # tl (split_at_char c t)"
proof (induction s)
  case Nil
  then show ?case by simp
next
  case (Cons a s)
  obtain w ws where "split_at_char c s = w # ws" by (meson neq_Nil_conv split_at_char_nonempty)
  with Cons show ?case by (cases ws) auto
qed

lemma split_at_char_none: "c \<notin> set s \<Longrightarrow> split_at_char c s = [s]"
  by (induction s) auto

lemma split_at_char_first:
  "c \<in> set s \<Longrightarrow> split_at_char c s = takeWhile (\<lambda>x. x \<noteq> c) s # split_at_char c (drop (length (takeWhile (\<lambda>x. x \<noteq> c) s) + 1) s)"
  by (induction s) auto

lemma last_split_newline:
  assumes "s = [] \<or> last s = c"
  shows "last (split_at_char c s) = []"
proof (cases s rule: rev_cases)
  case (snoc t a)
  with assms show ?thesis by (simp add: split_at_char_append)
qed simp

lemma split_around_line:
  assumes "before = [] \<or> last before = c" "c \<notin> set l"
  shows "split_at_char c (before @ (l @ [c]) @ after) = butlast (split_at_char c before) @ l # split_at_char c after"
proof -
  have "split_at_char c (l @ [c]) = [l, []]" using assms(2) by (simp add: split_at_char_append [of c l] split_at_char_none)
  then have "split_at_char c ((l @ [c]) @ after) = l # split_at_char c after" by (simp only: split_at_char_append [of c "l @ [c]"]) simp
  then show ?thesis using last_split_newline [OF assms(1)] by (simp only: split_at_char_append [of c before]) simp
qed

end
