(* ===== verification/Go_Time.thy ===== *)
theory Go_Time
  imports Kontext_Prelude "HOL-Library.Monad_Syntax"
begin

text \<open>
  Instants, durations and the RFC 3339 text form, as the \<^verbatim>\<open>time\<close> package has them.

  An instant is its distance in nanoseconds from the zero \<^verbatim>\<open>time.Time\<close> (1 January of year 1,
  UTC), so \<^verbatim>\<open>IsZero\<close> is equality with 0.  A location only affects how a time is printed and the
  source prints times in UTC, so locations are not part of an instant.  A
  \<^verbatim>\<open>time.Duration\<close> is a signed 64-bit count of nanoseconds: \<^verbatim>\<open>Sub\<close> saturates and
  multiplication wraps.  The calendar is the proleptic Gregorian one.  The round trip of
  \<open>format_rfc3339\<close> and \<open>parse_rfc3339\<close> is proved at the end.
\<close>

type_synonym time = int
type_synonym duration = int

abbreviation nanosecond :: duration where "nanosecond \<equiv> 1"
abbreviation second :: duration where "second \<equiv> 1000000000"
abbreviation minute :: duration where "minute \<equiv> 60000000000"

definition clamp64 :: "int \<Rightarrow> int" where
  "clamp64 x = max min_int64 (min max_int64 x)"

definition time_sub :: "time \<Rightarrow> time \<Rightarrow> duration" where
  "time_sub t u = clamp64 (t - u)"

definition time_add :: "time \<Rightarrow> duration \<Rightarrow> time" where
  "time_add t d = t + d"

definition seconds_duration :: "int \<Rightarrow> duration" where
  "seconds_duration n = wrap64 (n * second)"

definition unix_seconds :: "time \<Rightarrow> int" where
  "unix_seconds t = t div second - 62135596800"

text \<open>\<^verbatim>\<open>time.ParseDuration\<close> and \<^verbatim>\<open>Duration.String\<close>, parameters of the code that uses them.\<close>

record duration_lib =
  parse_duration :: "string \<Rightarrow> duration go_result"
  show_duration :: "duration \<Rightarrow> string"

subsection \<open>The calendar\<close>

definition leap_year :: "int \<Rightarrow> bool" where
  "leap_year y \<longleftrightarrow> y mod 4 = 0 \<and> (y mod 100 \<noteq> 0 \<or> y mod 400 = 0)"

text \<open>Days before a month in a year that is not a leap year, and the length of a month.\<close>

definition month_start :: "int \<Rightarrow> int" where
  "month_start m = [0, 31, 59, 90, 120, 151, 181, 212, 243, 273, 304, 334] ! nat (m - 1)"

definition days_before :: "bool \<Rightarrow> int \<Rightarrow> int" where
  "days_before leap m = month_start m + (if leap \<and> 2 < m then 1 else 0)"

definition days_in :: "int \<Rightarrow> int \<Rightarrow> int" where
  "days_in m y =
     (if m = 2 then (if leap_year y then 29 else 28)
      else if m = 4 \<or> m = 6 \<or> m = 9 \<or> m = 11 then 30 else 31)"

definition days_of_date :: "int \<Rightarrow> int \<Rightarrow> int \<Rightarrow> int" where
  "days_of_date y m d =
     365 * (y - 1) + (y - 1) div 4 - (y - 1) div 100 + (y - 1) div 400 +
     days_before (leap_year y) m + (d - 1)"

definition year_of_days :: "int \<Rightarrow> int \<times> int" where
  "year_of_days n =
     (let n400 = n div 146097; r400 = n mod 146097;
          n100 = min 3 (r400 div 36524); r100 = r400 - 36524 * n100;
          n4 = r100 div 1461; r4 = r100 mod 1461;
          n1 = min 3 (r4 div 365); r1 = r4 - 365 * n1
      in (400 * n400 + 100 * n100 + 4 * n4 + n1 + 1, r1))"

definition month_of_yday :: "bool \<Rightarrow> int \<Rightarrow> int" where
  "month_of_yday leap r = last (filter (\<lambda>m. days_before leap m \<le> r) [1, 2, 3, 4, 5, 6, 7, 8, 9, 10, 11, 12])"

definition date_of_days :: "int \<Rightarrow> int \<times> int \<times> int" where
  "date_of_days n =
     (let (y, r) = year_of_days n; m = month_of_yday (leap_year y) r
      in (y, m, r - days_before (leap_year y) m + 1))"

subsection \<open>Printing in UTC\<close>

definition pad_int :: "int \<Rightarrow> nat \<Rightarrow> string" where
  "pad_int x w =
     (let ds = show_nat (nat \<bar>x\<bar>)
      in (if x < 0 then ''-'' else []) @ replicate (w - length ds) (CHR ''0'') @ ds)"

definition format_rfc3339 :: "time \<Rightarrow> string" where
  "format_rfc3339 t =
     (let secs = t div second; (y, m, d) = date_of_days (secs div 86400); s = secs mod 86400
      in pad_int y 4 @ ''-'' @ pad_int m 2 @ ''-'' @ pad_int d 2 @ ''T'' @
         pad_int (s div 3600) 2 @ '':'' @ pad_int (s mod 3600 div 60) 2 @ '':'' @
         pad_int (s mod 60) 2 @ ''Z'')"

subsection \<open>Parsing\<close>

definition two_digits :: "string \<Rightarrow> (int \<times> string) option" where
  "two_digits s =
     (case s of
        a # b # rest \<Rightarrow> if is_digit a \<and> is_digit b
                       then Some (int (digit_val a * 10 + digit_val b), rest) else None
      | _ \<Rightarrow> None)"

text \<open>The hour is the one field the layout lets shrink to a single digit.\<close>

definition hour_digits :: "string \<Rightarrow> (int \<times> string) option" where
  "hour_digits s =
     (case s of
        [] \<Rightarrow> None
      | a # rest \<Rightarrow>
          if \<not> is_digit a then None
          else (case rest of
                  b # rest' \<Rightarrow> if is_digit b then Some (int (digit_val a * 10 + digit_val b), rest')
                              else Some (int (digit_val a), rest)
                | [] \<Rightarrow> Some (int (digit_val a), rest)))"

definition four_digits :: "string \<Rightarrow> (int \<times> string) option" where
  "four_digits s =
     (if 4 \<le> length s \<and> list_all is_digit (take 4 s)
      then Some (int (digits_val (take 4 s)), drop 4 s) else None)"

definition skip_char :: "char \<Rightarrow> string \<Rightarrow> string option" where
  "skip_char c s = (case s of [] \<Rightarrow> None | d # rest \<Rightarrow> if d = c then Some rest else None)"

definition fraction :: "string \<Rightarrow> int \<times> string" where
  "fraction s =
     (case s of
        p # d # rest \<Rightarrow>
          if (p = CHR ''.'' \<or> p = CHR '','') \<and> is_digit d
          then (let ds = takeWhile is_digit (d # rest); kept = take 9 ds
                in (int (digits_val kept) * 10 ^ (9 - length kept), dropWhile is_digit (d # rest)))
          else (0, s)
      | _ \<Rightarrow> (0, s))"

definition zone_offset :: "string \<Rightarrow> (int \<times> string) option" where
  "zone_offset s =
     (case s of
        [] \<Rightarrow> None
      | c # rest \<Rightarrow>
          if c = CHR ''Z'' then Some (0, rest)
          else (case two_digits rest of
                  None \<Rightarrow> None
                | Some (hh, r1) \<Rightarrow>
                    (case skip_char (CHR '':'') r1 of
                       None \<Rightarrow> None
                     | Some r2 \<Rightarrow>
                         (case two_digits r2 of
                            None \<Rightarrow> None
                          | Some (mm, r3) \<Rightarrow>
                              if hh > 24 \<or> mm > 60 then None
                              else if c = CHR ''+'' then Some ((hh * 60 + mm) * 60, r3)
                              else if c = CHR ''-'' then Some (- ((hh * 60 + mm) * 60), r3)
                              else None))))"

definition parse_date :: "string \<Rightarrow> ((int \<times> int \<times> int) \<times> string) option" where
  "parse_date s = do {
     (y, s1) \<leftarrow> four_digits s; s2 \<leftarrow> skip_char (CHR ''-'') s1;
     (m, s3) \<leftarrow> two_digits s2; s4 \<leftarrow> skip_char (CHR ''-'') s3;
     (d, s5) \<leftarrow> two_digits s4;
     if 1 \<le> m \<and> m \<le> 12 then Some ((y, m, d), s5) else None }"

definition parse_clock :: "string \<Rightarrow> ((int \<times> int \<times> int) \<times> string) option" where
  "parse_clock s = do {
     (h, s1) \<leftarrow> hour_digits s; s2 \<leftarrow> skip_char (CHR '':'') s1;
     (n, s3) \<leftarrow> two_digits s2; s4 \<leftarrow> skip_char (CHR '':'') s3;
     (c, s5) \<leftarrow> two_digits s4;
     if h < 24 \<and> n < 60 \<and> c < 60 then Some ((h, n, c), s5) else None }"

definition parse_rfc3339 :: "string \<Rightarrow> time option" where
  "parse_rfc3339 s = do {
     ((y, m, d), s1) \<leftarrow> parse_date s; s2 \<leftarrow> skip_char (CHR ''T'') s1;
     ((h, n, c), s3) \<leftarrow> parse_clock s2;
     (frac, s4) \<leftarrow> Some (fraction s3);
     (off, s5) \<leftarrow> zone_offset s4;
     if s5 = [] \<and> 1 \<le> d \<and> d \<le> days_in m y
     then Some ((days_of_date y m d * 86400 + h * 3600 + n * 60 + c - off) * second + frac)
     else None }"

text \<open>Whole seconds of a year with four digits: what the text form can represent.\<close>

definition rfc3339_printable :: "time \<Rightarrow> bool" where
  "rfc3339_printable t \<longleftrightarrow> t mod second = 0 \<and>
     (case date_of_days (t div second div 86400) of (y, _, _) \<Rightarrow> 0 \<le> y \<and> y < 10000)"

subsection \<open>Arithmetic of instants\<close>

lemma time_sub_small: "int64_ok (t - u) \<Longrightarrow> time_sub t u = t - u"
  by (simp add: time_sub_def clamp64_def int64_ok_def)

lemma time_sub_ok [bounds_intro]: "int64_ok (time_sub t u)"
  by (simp add: time_sub_def clamp64_def int64_ok_def)

lemma time_sub_nonpos: "time_sub t u \<le> 0 \<longleftrightarrow> t \<le> u"
  by (auto simp: time_sub_def clamp64_def)

lemma seconds_duration_int32:
  "0 \<le> n \<Longrightarrow> n \<le> max_int32 \<Longrightarrow> seconds_duration n = n * second"
  by (simp add: seconds_duration_def int64_ok_def)

subsection \<open>Days and dates\<close>

lemma year_of_days_spec:
  assumes "year_of_days n = (y, r)"
  shows "365 * (y - 1) + (y - 1) div 4 - (y - 1) div 100 + (y - 1) div 400 + r = n"
    and "0 \<le> r" and "r < (if leap_year y then 366 else 365)"
proof -
  define a r400 where "a = n div 146097" and "r400 = n mod 146097"
  define b r100 where "b = min 3 (r400 div 36524)" and "r100 = r400 - 36524 * b"
  define c r4 where "c = r100 div 1461" and "r4 = r100 mod 1461"
  define e where "e = min 3 (r4 div 365)"
  have y: "y = 400 * a + 100 * b + 4 * c + e + 1" and r: "r = r4 - 365 * e"
    using assms unfolding year_of_days_def Let_def a_def [symmetric] r400_def [symmetric]
      b_def [symmetric] r100_def [symmetric] c_def [symmetric] r4_def [symmetric] e_def [symmetric]
    by simp_all
  have n: "n = 146097 * a + r400" "0 \<le> r400" "r400 < 146097"
    by (simp_all add: a_def r400_def)
  have b: "0 \<le> b" "b \<le> 3" "0 \<le> r100" "r100 \<le> 36524" "b < 3 \<Longrightarrow> r100 < 36524"
    using n unfolding b_def r100_def by (auto simp: min_def split: if_splits)
  have r4: "r100 = 1461 * c + r4" "0 \<le> r4" "r4 < 1461" by (simp_all add: c_def r4_def)
  have c: "0 \<le> c" "c \<le> 24" using b r4 by linarith+
  have e: "0 \<le> e" "e \<le> 3" "0 \<le> r" "r \<le> 365" "e < 3 \<Longrightarrow> r < 365"
    using r4 unfolding e_def r by (auto simp: min_def split: if_splits)
  have d4: "(y - 1) div 4 = 100 * a + 25 * b + c" using e by (simp add: y)
  have d100: "(y - 1) div 100 = 4 * a + b" using e c by (simp add: y)
  have d400: "(y - 1) div 400 = a" using e c b by (simp add: y)
  show "365 * (y - 1) + (y - 1) div 4 - (y - 1) div 100 + (y - 1) div 400 + r = n"
    unfolding d4 d100 d400 using y r n r4 r100_def by simp
  show "0 \<le> r" by (rule e)
  have "leap_year y" if "r = 365"
  proof -
    have "e = 3" using e that by linarith
    moreover have "c < 24 \<or> b = 3" 
    proof (rule ccontr)
      assume "\<not> ?thesis"
      then have "c = 24" "b < 3" using c b by linarith+
      then have "r4 < 36524 - 1461 * 24" using b r4 by linarith
      then show False using r that \<open>e = 3\<close> by simp
    qed
    moreover have "(4 * c + 4 + 100 * (4 * a + b)) mod 100 \<noteq> 0" if "c < 24"
    proof -
      have "(4 * c + 4 + 100 * (4 * a + b)) mod 100 = (4 * c + 4) mod 100" by (rule mod_mult_self2)
      then show ?thesis using that c by simp
    qed
    moreover have "c = 24 \<Longrightarrow> b = 3 \<Longrightarrow> (400 * a + 100 * b + 4 * c + 4) mod 400 = 0" by simp
    moreover have "(4 * (100 * a + 25 * b + c + 1)) mod 4 = 0" by simp
    ultimately show ?thesis using c unfolding leap_year_def y
      by (cases "c < 24") (auto simp: algebra_simps)
  qed
  then have "r \<noteq> 365 \<or> leap_year y" by blast
  then show "r < (if leap_year y then 366 else 365)" using e(4) by auto
qed

definition yday_ok :: "bool \<Rightarrow> int \<Rightarrow> bool" where
  "yday_ok leap r \<longleftrightarrow>
     (let m = month_of_yday leap r; d = r - days_before leap m + 1
      in 1 \<le> m \<and> m \<le> 12 \<and> 1 \<le> d \<and>
         d \<le> (if m = 2 then (if leap then 29 else 28)
              else if m = 4 \<or> m = 6 \<or> m = 9 \<or> m = 11 then 30 else 31))"

lemma yday_ok_all: "list_all (yday_ok True) [0..365] \<and> list_all (yday_ok False) [0..364]"
  by code_simp

lemma month_of_yday_spec:
  assumes "0 \<le> r" "r < (if leap_year y then 366 else 365)"
  defines "m \<equiv> month_of_yday (leap_year y) r"
  shows "1 \<le> m" "m \<le> 12" "days_before (leap_year y) m \<le> r"
    "r - days_before (leap_year y) m + 1 \<le> days_in m y"
proof -
  have "yday_ok (leap_year y) r"
    using yday_ok_all assms(1,2) by (cases "leap_year y") (auto simp: list_all_iff)
  then show "1 \<le> m" "m \<le> 12" "days_before (leap_year y) m \<le> r"
    "r - days_before (leap_year y) m + 1 \<le> days_in m y"
    by (auto simp: yday_ok_def Let_def m_def days_in_def)
qed

lemma date_of_days_spec:
  assumes "date_of_days n = (y, m, d)"
  shows "days_of_date y m d = n" "1 \<le> m" "m \<le> 12" "1 \<le> d" "d \<le> days_in m y"
proof -
  obtain r where yr: "year_of_days n = (y, r)" and m: "m = month_of_yday (leap_year y) r"
    and d: "d = r - days_before (leap_year y) m + 1"
    using assms by (auto simp: date_of_days_def Let_def split: prod.splits)
  note Y = year_of_days_spec[OF yr]
  note M = month_of_yday_spec[OF Y(2,3)]
  show "days_of_date y m d = n" using Y(1) d by (simp add: days_of_date_def)
  show "1 \<le> m" "m \<le> 12" "1 \<le> d" "d \<le> days_in m y" using M by (simp_all add: m d)
qed

lemma digit_char_0: "digit_char 0 = CHR ''0''"
  by code_simp

lemma pad_int_2:
  assumes "0 \<le> x" "x < 100"
  shows "pad_int x 2 = [digit_char (nat x div 10), digit_char (nat x mod 10)]"
proof (cases "x < 10")
  case True
  then have "nat x < 10" "nat \<bar>x\<bar> = nat x" using assms by auto
  then show ?thesis using assms by (simp add: pad_int_def show_nat.simps digit_char_0)
next
  case False
  then have "\<not> nat x < 10" "nat x div 10 < 10" "nat \<bar>x\<bar> = nat x" using assms by auto
  then show ?thesis using assms
    by (simp add: pad_int_def show_nat.simps [of "nat x"] show_nat.simps [of "nat x div 10"])
qed

lemma show_nat_4:
  assumes "n < 10000"
  shows "replicate (4 - length (show_nat n)) (CHR ''0'') @ show_nat n =
    [digit_char (n div 1000), digit_char (n div 100 mod 10), digit_char (n div 10 mod 10), digit_char (n mod 10)]"
proof -
  have z: "replicate 3 (CHR ''0'') = ''000''" "replicate 2 (CHR ''0'') = ''00''" "digit_char 0 = CHR ''0''"
    by (simp_all add: numeral_eq_Suc digit_char_0)
  consider "n < 10" | "10 \<le> n" "n < 100" | "100 \<le> n" "n < 1000" | "1000 \<le> n" by linarith
  then show ?thesis
  proof cases
    case 1 then show ?thesis by (simp add: show_nat.simps z)
  next
    case 2
    then have "n div 10 < 10" by auto
    with 2 show ?thesis
      by (simp add: show_nat.simps [of n] show_nat.simps [of "n div 10"] z)
  next
    case 3
    then have "n div 10 div 10 < 10" "\<not> n div 10 < 10" by auto
    with 3 show ?thesis
      by (simp add: show_nat.simps [of n] show_nat.simps [of "n div 10"] 
          show_nat.simps [of "n div 10 div 10"] z) (simp add: div_mult2_eq [symmetric])
  next
    case 4
    then have "n div 10 div 10 div 10 < 10" "\<not> n div 10 div 10 < 10" "\<not> n div 10 < 10" using assms by auto
    with 4 show ?thesis
      by (simp add: show_nat.simps [of n] show_nat.simps [of "n div 10"] 
          show_nat.simps [of "n div 10 div 10"] show_nat.simps [of "n div 10 div 10 div 10"] z)
         (simp add: div_mult2_eq [symmetric])
  qed
qed

lemma two_digits_pad: 
  assumes "0 \<le> x" "x < 100"
  shows "two_digits (pad_int x 2 @ s) = Some (x, s)" "hour_digits (pad_int x 2 @ s) = Some (x, s)"
proof -
  have "nat x div 10 < 10" "nat x mod 10 < 10" using assms by auto
  moreover have "int (nat x div 10 * 10 + nat x mod 10) = x"
    using assms by (simp add: div_mult_mod_eq [of "nat x" 10] del: of_nat_add)
  ultimately show "two_digits (pad_int x 2 @ s) = Some (x, s)" "hour_digits (pad_int x 2 @ s) = Some (x, s)"
    unfolding pad_int_2 [OF assms] by (simp_all add: two_digits_def hour_digits_def del: of_nat_add)
qed

lemma four_digits_pad: 
  assumes "0 \<le> y" "y < 10000"
  shows "four_digits (pad_int y 4 @ s) = Some (y, s)"
proof -
  let ?n = "nat y"
  have n: "?n < 10000" using assms by simp
  have p: "pad_int y 4 = [digit_char (?n div 1000), digit_char (?n div 100 mod 10),
      digit_char (?n div 10 mod 10), digit_char (?n mod 10)]"
    using show_nat_4 [OF n] assms by (simp add: pad_int_def Let_def)
  have "?n div 1000 < 10" using n by auto
  moreover have "((?n div 1000 * 10 + ?n div 100 mod 10) * 10 + ?n div 10 mod 10) * 10 + ?n mod 10 = ?n"
  proof -
    have "?n div 1000 = ?n div 100 div 10" "?n div 100 = ?n div 10 div 10"
      by (simp_all add: div_mult2_eq [symmetric])
    then show ?thesis by (metis div_mult_mod_eq)
  qed
  ultimately show ?thesis unfolding p using assms
    by (simp add: four_digits_def digits_val_def)
qed

lemma skip_char_Cons [simp]: "skip_char c (c # s) = Some s"
  by (simp add: skip_char_def)

text \<open>Every whole second of a year with four digits survives printing and parsing.\<close>

lemma parse_format_rfc3339:
  assumes "rfc3339_printable t"
  shows "parse_rfc3339 (format_rfc3339 t) = Some t"
proof -
  define secs s where "secs = t div second" and "s = secs mod 86400"
  obtain y m d where ymd: "date_of_days (secs div 86400) = (y, m, d)" by (cases "date_of_days (secs div 86400)")
  note D = date_of_days_spec [OF ymd]
  have y: "0 \<le> y" "y < 10000" and t: "t = secs * second"
    using assms ymd by (auto simp: rfc3339_printable_def secs_def)
  have m: "0 \<le> m" "m < 100" and d: "0 \<le> d" "d < 100"
    using D(2-5) by (auto simp: days_in_def split: if_splits)
  have s: "0 \<le> s" "s < 86400" by (simp_all add: s_def)
  define hh nn cc where hnc: "hh = s div 3600" "nn = s mod 3600 div 60" "cc = s mod 60"
  have h: "0 \<le> hh" "hh < 24" "hh < 100" and n: "0 \<le> nn" "nn < 60" "nn < 100" and c: "0 \<le> cc" "cc < 60" "cc < 100"
    unfolding hnc using s by auto
  have fmt: "format_rfc3339 t = pad_int y 4 @ CHR ''-'' # pad_int m 2 @ CHR ''-'' # pad_int d 2 @ CHR ''T'' #
     pad_int hh 2 @ CHR '':'' # pad_int nn 2 @ CHR '':'' # pad_int cc 2 @ ''Z''"
    by (simp add: format_rfc3339_def secs_def [symmetric] s_def [symmetric] ymd hnc)
  have clock: "hh * 3600 + nn * 60 + cc = s"
  proof -
    have "cc = s mod 3600 mod 60" unfolding hnc by (simp add: mod_mod_cancel)
    then show ?thesis unfolding hnc by (metis add.assoc div_mult_mod_eq)
  qed
  have "parse_rfc3339 (format_rfc3339 t) = Some ((days_of_date y m d * 86400 + hh * 3600 + nn * 60 + cc) * second)"
    unfolding fmt using D(2-5) h(2) n(2) c(2)
    by (simp add: parse_rfc3339_def parse_date_def parse_clock_def four_digits_pad [OF y]
        two_digits_pad(1) [OF m] two_digits_pad(1) [OF d] two_digits_pad(2) [OF h(1,3)]
        two_digits_pad(1) [OF n(1,3)] two_digits_pad(1) [OF c(1,3)] fraction_def zone_offset_def)
  also have "\<dots> = Some ((secs div 86400 * 86400 + s) * second)"
    using clock D(1) by (simp add: add.assoc)
  also have "\<dots> = Some t"
    unfolding t s_def by (simp only: div_mult_mod_eq)
  finally show ?thesis .
qed

lemma format_rfc3339_inject:
  assumes "rfc3339_printable t" "rfc3339_printable u"
  shows "format_rfc3339 t = format_rfc3339 u \<longleftrightarrow> t = u"
  by (metis assms option.inject parse_format_rfc3339)

end
