(* ===== verification/Go_Json.thy ===== *)
theory Go_Json
  imports Go_Time
begin

text \<open>
  UTF-8 and the text of a JSON string, as \<^verbatim>\<open>unicode/utf8\<close> and \<^verbatim>\<open>encoding/json\<close> treat
  them.  \<open>json_string\<close> is \<^verbatim>\<open>json.Marshal\<close> of a string, with the HTML escapes and the replacement
  of bytes that are not UTF-8.
\<close>

definition byte_in :: "nat \<Rightarrow> nat \<Rightarrow> char \<Rightarrow> bool" where
  "byte_in lo hi c \<longleftrightarrow> lo \<le> (of_char c :: nat) \<and> (of_char c :: nat) \<le> hi"

abbreviation continuation :: "char \<Rightarrow> bool" where
  "continuation \<equiv> byte_in 128 191"

text \<open>The number of bytes of the well-formed sequence at the front of a string, 0 if there is none.\<close>

definition rune_len :: "string \<Rightarrow> nat" where
  "rune_len s =
     (case s of
        [] \<Rightarrow> 0
      | a # rest \<Rightarrow>
          if byte_in 0 127 a then 1
          else if byte_in 194 223 a then
            (case rest of b # _ \<Rightarrow> if continuation b then 2 else 0 | _ \<Rightarrow> 0)
          else if byte_in 224 239 a then
            (case rest of
               b # c # _ \<Rightarrow>
                 if byte_in (if of_char a = (224::nat) then 160 else 128)
                      (if of_char a = (237::nat) then 159 else 191) b \<and> continuation c then 3 else 0
             | _ \<Rightarrow> 0)
          else if byte_in 240 244 a then
            (case rest of
               b # c # d # _ \<Rightarrow>
                 if byte_in (if of_char a = (240::nat) then 144 else 128)
                      (if of_char a = (244::nat) then 143 else 191) b \<and> continuation c \<and> continuation d
                 then 4 else 0
             | _ \<Rightarrow> 0)
          else 0)"

lemma rune_len_le: "rune_len s \<le> length s"
  by (auto simp: rune_len_def split: list.splits)

function utf8_valid :: "string \<Rightarrow> bool" where
  "utf8_valid s =
     (if s = [] then True else if rune_len s = 0 then False else utf8_valid (drop (rune_len s) s))"
  by pat_completeness auto
termination
proof (relation "measure length")
  fix s :: string assume "s \<noteq> []" "rune_len s \<noteq> 0"
  then show "(drop (rune_len s) s, s) \<in> measure length" using rune_len_le [of s] by simp
qed simp

declare utf8_valid.simps [simp del]

definition json_escape_byte :: "char \<Rightarrow> string" where
  "json_escape_byte c =
     (if c = CHR 0x22 \<or> c = CHR 0x5C then [CHR 0x5C, c]
      else if c = CHR 0x08 then [CHR 0x5C, CHR ''b'']
      else if c = CHR 0x0C then [CHR 0x5C, CHR ''f'']
      else if c = CHR 0x0A then [CHR 0x5C, CHR ''n'']
      else if c = CHR 0x0D then [CHR 0x5C, CHR ''r'']
      else if c = CHR 0x09 then [CHR 0x5C, CHR ''t'']
      else if (of_char c :: nat) < 32 \<or> c = CHR ''<'' \<or> c = CHR ''>'' \<or> c = CHR ''&''
      then [CHR 0x5C, CHR ''u'', CHR ''0'', CHR ''0'', hex_digit (of_char c div 16), hex_digit (of_char c)]
      else [c])"

text \<open>One step: the text for the front of the string and the number of bytes it stands for.\<close>

definition json_escape_front :: "string \<Rightarrow> string \<times> nat" where
  "json_escape_front s =
     (if rune_len s = 0 then ([CHR 0x5C] @ ''ufffd'', 1)
      else if rune_len s = 1 then (json_escape_byte (hd s), 1)
      else if take 3 s = [CHR 0xE2, CHR 0x80, CHR 0xA8] then ([CHR 0x5C] @ ''u2028'', 3)
      else if take 3 s = [CHR 0xE2, CHR 0x80, CHR 0xA9] then ([CHR 0x5C] @ ''u2029'', 3)
      else (take (rune_len s) s, rune_len s))"

lemma json_escape_front_pos: "0 < snd (json_escape_front s)"
  by (simp add: json_escape_front_def)

function json_escape :: "string \<Rightarrow> string" where
  "json_escape s =
     (if s = [] then [] else fst (json_escape_front s) @ json_escape (drop (snd (json_escape_front s)) s))"
  by pat_completeness auto
termination
proof (relation "measure length")
  fix s :: string assume "s \<noteq> []"
  then show "(drop (snd (json_escape_front s)) s, s) \<in> measure length"
    using json_escape_front_pos [of s] by simp
qed simp

declare json_escape.simps [simp del]

definition json_string :: "string \<Rightarrow> string" where
  "json_string s = [CHR 0x22] @ json_escape s @ [CHR 0x22]"

text \<open>
  Values given to \<^verbatim>\<open>json.Marshal\<close>. The text of a \<^verbatim>\<open>json.RawMessage\<close> is the parameter \<open>raw\<close>, which fails
  on text that is not JSON; a nil one is \<^verbatim>\<open>null\<close>.
\<close>

datatype json =
    JNull
  | JBool bool
  | JInt int
  | JStr string
  | JRaw string
  | JList "json list"
  | JObj "(string \<times> json) list"

fun print_json :: "(string \<Rightarrow> string go_result) \<Rightarrow> json \<Rightarrow> string go_result"
  and print_elements :: "(string \<Rightarrow> string go_result) \<Rightarrow> json list \<Rightarrow> string list go_result"
  and print_members :: "(string \<Rightarrow> string go_result) \<Rightarrow> (string \<times> json) list \<Rightarrow> string list go_result" where
  "print_json raw JNull = Inr ''null''"
| "print_json raw (JBool b) = Inr (if b then ''true'' else ''false'')"
| "print_json raw (JInt n) = Inr (show_int n)"
| "print_json raw (JStr s) = Inr (json_string s)"
| "print_json raw (JRaw r) = (if r = [] then Inr ''null'' else raw r)"
| "print_json raw (JList xs) = go_bind (print_elements raw xs) (\<lambda>ts. Inr (''['' @ join_strings ts '','' @ '']''))"
| "print_json raw (JObj ms) = go_bind (print_members raw ms) (\<lambda>ts. Inr (''{'' @ join_strings ts '','' @ ''}''))"
| "print_elements raw [] = Inr []"
| "print_elements raw (x # xs) =
     go_bind (print_json raw x) (\<lambda>t. go_bind (print_elements raw xs) (\<lambda>ts. Inr (t # ts)))"
| "print_members raw [] = Inr []"
| "print_members raw ((k, x) # ms) =
     go_bind (print_json raw x) (\<lambda>t. go_bind (print_members raw ms) (\<lambda>ts. Inr ((json_string k @ '':'' @ t) # ts)))"

text \<open>A decoder that has read one value of a stream: what a second decode finds.\<close>

datatype trailing = EOF | TrailingValue | TrailingError string

subsection \<open>Lemmas\<close>

lemma utf8_valid_Nil [simp]: "utf8_valid []"
  by (subst utf8_valid.simps) simp

lemma json_escape_Nil [simp]: "json_escape [] = []"
  by (subst json_escape.simps) simp

lemma json_string_nonempty [simp]: "json_string s \<noteq> []"
  by (simp add: json_string_def)

text \<open>A well-formed sequence is recognised from its own bytes: what follows it does not matter.\<close>

lemma rune_len_shape:
  obtains "rune_len s = 0" | a r where "s = a # r" "rune_len s = 1"
  | a b r where "s = a # b # r" "rune_len s = 2"
  | a b c r where "s = a # b # c # r" "rune_len s = 3"
  | a b c d r where "s = a # b # c # d # r" "rune_len s = 4"
proof (cases s)
  case Nil
  then have "rune_len s = 0" by (simp add: rune_len_def)
  then show ?thesis by (rule that(1))
next
  case (Cons a r)
  have le: "rune_len s \<le> length s" by (rule rune_len_le)
  have "rune_len s \<in> {0, 1, 2, 3, 4}"
    by (simp add: rune_len_def split: list.split)
  then consider "rune_len s = 0" | "rune_len s = 1" | "rune_len s = 2" | "rune_len s = 3" | "rune_len s = 4"
    by auto
  then show ?thesis
  proof cases
    case 1 then show ?thesis by (rule that(1))
  next
    case 2 then show ?thesis using that(2) Cons by blast
  next
    case 3
    with le Cons obtain b r' where "r = b # r'" by (cases r) auto
    with 3 show ?thesis using that(3) Cons by blast
  next
    case 4
    with le Cons obtain b c r' where "r = b # c # r'" by (cases r; cases "tl r") auto
    with 4 show ?thesis using that(4) Cons by blast
  next
    case 5
    with le Cons obtain b c d r' where "r = b # c # d # r'" by (cases r; cases "tl r"; cases "tl (tl r)") auto
    with 5 show ?thesis using that(5) Cons by blast
  qed
qed

lemma rune_len_prefix:
  assumes "0 < rune_len s"
  shows "rune_len (take (rune_len s) s @ t) = rune_len s"
  using rune_len_shape [of s]
proof cases
  case 1 with assms show ?thesis by simp
next
  case (2 a r) then show ?thesis by (simp add: rune_len_def split: if_splits list.splits)
next
  case (3 a b r) then show ?thesis by (simp add: rune_len_def numeral_2_eq_2 split: if_splits list.splits)
next
  case (4 a b c r) then show ?thesis by (simp add: rune_len_def numeral_3_eq_3 split: if_splits list.splits)
next
  case (5 a b c d r)
  then have "take (rune_len s) s = [a, b, c, d]" by simp
  with 5 show ?thesis by (simp add: rune_len_def split: if_splits list.splits)
qed

lemma rune_len_take:
  assumes "0 < rune_len s" "rune_len s \<le> k"
  shows "rune_len (take k s) = rune_len s"
proof -
  have "take k s = take (rune_len s) s @ drop (rune_len s) (take k s)"
    using assms by (metis append_take_drop_id min.absorb1 take_take)
  then show ?thesis using rune_len_prefix [OF assms(1)] by metis
qed

end
