(* ===== verification/Result_Envelope.thy ===== *)
theory Result_Envelope
  imports Go_Json
begin

text \<open>
  The result contract of \<^verbatim>\<open>pkg/result/v1alpha1\<close> shared by runtimes, reporter and control plane:
  the envelope and its validation (\<^verbatim>\<open>types.go\<close>), decoding of a termination message with the
  legacy wire formats (\<^verbatim>\<open>parse.go\<close>), compaction into a byte budget (\<^verbatim>\<open>compact.go\<close>) and the
  stdout line (\<^verbatim>\<open>stream.go\<close>).

  Encoding of strings is \<open>json_string\<close>; the reflection-driven codec of \<^verbatim>\<open>encoding/json\<close> for the
  structs is the record \<open>json_codec\<close>, a parameter, and \<open>codec_ok\<close> names what the code relies on.
  Where the source iterates over a map to find an error the model takes the first one in the
  order of the list.
\<close>

abbreviation ResultAPIVersion :: string where "ResultAPIVersion \<equiv> ''kontext.dev/result/v1alpha1''"
abbreviation DefaultMediaType :: string where "DefaultMediaType \<equiv> ''text/plain''"
abbreviation MaxTerminationMessageBytes :: int where "MaxTerminationMessageBytes \<equiv> 4096"
abbreviation OutcomeSucceeded :: string where "OutcomeSucceeded \<equiv> ''Succeeded''"
abbreviation OutcomeFailed :: string where "OutcomeFailed \<equiv> ''Failed''"
abbreviation EnvelopeLinePrefix :: string where "EnvelopeLinePrefix \<equiv> ''KONTEXT_RESULT:''"
abbreviation TruncatedOutputMediaType :: string where
  "TruncatedOutputMediaType \<equiv> ''application/vnd.kontext.truncated+json''"

record result_output =
  ro_media_type :: string
  ro_value :: string

record result_usage =
  ru_input_tokens :: "int option"
  ru_output_tokens :: "int option"
  ru_total_tokens :: "int option"
  ru_reasoning_tokens :: "int option"
  ru_dollars :: "rat option"

record timing =
  ti_started_at :: "time option"
  ti_completed_at :: "time option"
  ti_duration_millis :: "int option"
  ti_provider_latency :: "int option"

record execution_info =
  ex_provider :: string
  ex_model :: string
  ex_request_id :: string
  ex_turns :: "int option"
  ex_tool_calls :: "int option"

record error_info =
  ei_code :: string
  ei_message :: string
  ei_retryable :: "bool option"

record artifact =
  af_name :: string
  af_uri :: string
  af_media_type :: string
  af_digest :: string

record truncation =
  tr_original_bytes :: int
  tr_output_truncated :: bool
  tr_artifacts_truncated :: bool
  tr_extensions_truncated :: bool

record envelope =
  en_api_version :: string
  en_outcome :: string
  en_output :: "result_output option"
  en_usage :: "result_usage option"
  en_timing :: "timing option"
  en_execution :: "execution_info option"
  en_error :: "error_info option"
  en_artifacts :: "artifact list"
  en_extensions :: "string go_map"
  en_truncation :: "truncation option"

definition empty_envelope :: envelope where
  "empty_envelope = \<lparr>en_api_version = [], en_outcome = [], en_output = None, en_usage = None,
     en_timing = None, en_execution = None, en_error = None, en_artifacts = [], en_extensions = [],
     en_truncation = None\<rparr>"

record legacy_payload =
  lp_result :: string
  lp_tokens_used :: "int option"
  lp_dollars_used :: "rat option"
  lp_error :: string

record json_codec =
  jc_valid :: "string \<Rightarrow> bool"
  jc_compact :: "string \<Rightarrow> string go_result"
  jc_unmarshal_string :: "string \<Rightarrow> string go_result"
  jc_unmarshal_fields :: "string \<Rightarrow> string list go_result"
  jc_unmarshal_legacy :: "string \<Rightarrow> legacy_payload go_result"
  jc_unmarshal_envelope :: "string \<Rightarrow> envelope go_result"
  jc_marshal_envelope :: "envelope \<Rightarrow> string go_result"

subsection \<open>Validation\<close>

definition negative :: "int option \<Rightarrow> bool" where
  "negative v = (case v of None \<Rightarrow> False | Some n \<Rightarrow> n < 0)"

definition validateUsage :: "result_usage \<Rightarrow> string option" where
  "validateUsage u =
     (if negative (ru_input_tokens u) then Some ''result usage inputTokens cannot be negative''
      else if negative (ru_output_tokens u) then Some ''result usage outputTokens cannot be negative''
      else if negative (ru_total_tokens u) then Some ''result usage totalTokens cannot be negative''
      else if negative (ru_reasoning_tokens u) then Some ''result usage reasoningTokens cannot be negative''
      else case (ru_output_tokens u, ru_reasoning_tokens u) of
        (Some out, Some reasoning) \<Rightarrow>
          if reasoning > out
          then Some (''result usage reasoningTokens '' @ show_int reasoning @ '' exceeds outputTokens '' @ show_int out)
          else if (case ru_dollars u of None \<Rightarrow> False | Some d \<Rightarrow> d < 0)
          then Some ''result usage dollars cannot be negative'' else None
      | _ \<Rightarrow>
          if (case ru_dollars u of None \<Rightarrow> False | Some d \<Rightarrow> d < 0)
          then Some ''result usage dollars cannot be negative'' else None)"

definition validateOutput :: "json_codec \<Rightarrow> result_output option \<Rightarrow> string option" where
  "validateOutput J out =
     (case out of
        None \<Rightarrow> None
      | Some x \<Rightarrow>
          if trim_space (ro_media_type x) = [] then Some ''result output mediaType is required''
          else if trim_space (ro_value x) = [] \<or> \<not> jc_valid J (ro_value x)
          then Some ''result output value must be valid JSON'' else None)"

definition validateTiming :: "timing option \<Rightarrow> string option" where
  "validateTiming t =
     (case t of
        None \<Rightarrow> None
      | Some x \<Rightarrow>
          if negative (ti_duration_millis x) then Some ''result timing durationMillis cannot be negative''
          else if negative (ti_provider_latency x)
          then Some ''result timing providerLatencyMillis cannot be negative''
          else case (ti_started_at x, ti_completed_at x) of
                 (Some a, Some b) \<Rightarrow> if b < a then Some ''result timing completedAt cannot precede startedAt'' else None
               | _ \<Rightarrow> None)"

definition validateExecution :: "execution_info option \<Rightarrow> string option" where
  "validateExecution e =
     (case e of
        None \<Rightarrow> None
      | Some x \<Rightarrow>
          if negative (ex_turns x) then Some ''result execution turns cannot be negative''
          else if negative (ex_tool_calls x) then Some ''result execution toolCalls cannot be negative''
          else None)"

fun validateArtifacts :: "nat \<Rightarrow> artifact list \<Rightarrow> string option" where
  "validateArtifacts i [] = None"
| "validateArtifacts i (a # as) =
     (if trim_space (af_name a) = [] \<or> trim_space (af_uri a) = []
      then Some (''result artifact '' @ show_nat i @ '' requires name and uri'')
      else validateArtifacts (Suc i) as)"

fun validateExtensions :: "golib \<Rightarrow> json_codec \<Rightarrow> string go_map \<Rightarrow> string option" where
  "validateExtensions L J [] = None"
| "validateExtensions L J ((name, v) # rest) =
     (if CHR ''/'' \<notin> set name then Some (''result extension '' @ quote L name @ '' must use a namespaced key'')
      else if \<not> jc_valid J v then Some (''result extension '' @ quote L name @ '' must contain valid JSON'')
      else validateExtensions L J rest)"

text \<open>The first error of a sequence of checks.\<close>

definition first_error :: "string option list \<Rightarrow> string option" where
  "first_error es = (case filter (\<lambda>e. e \<noteq> None) es of [] \<Rightarrow> None | e # _ \<Rightarrow> e)"

definition Validate :: "golib \<Rightarrow> json_codec \<Rightarrow> envelope \<Rightarrow> string option" where
  "Validate L J e =
     first_error
       [(if en_api_version e \<noteq> ResultAPIVersion
         then Some (''unsupported result apiVersion '' @ quote L (en_api_version e)) else None),
        (if en_outcome e = OutcomeSucceeded \<or> en_outcome e = OutcomeFailed then None
         else Some (''unsupported result outcome '' @ quote L (en_outcome e))),
        validateOutput J (en_output e),
        (case en_error e of None \<Rightarrow> None
         | Some x \<Rightarrow> if trim_space (ei_message x) = [] then Some ''result error message is required'' else None),
        (if en_outcome e = OutcomeFailed \<and> en_error e = None
         then Some ''failed result requires error details'' else None),
        (if en_outcome e = OutcomeSucceeded \<and> en_error e \<noteq> None
         then Some ''succeeded result cannot contain terminal error details'' else None),
        (case en_usage e of None \<Rightarrow> None | Some u \<Rightarrow> validateUsage u),
        validateTiming (en_timing e),
        validateExecution (en_execution e),
        validateArtifacts 0 (en_artifacts e),
        validateExtensions L J (en_extensions e)]"

subsection \<open>Decoding a termination message\<close>

definition successfulEnvelope :: envelope where
  "successfulEnvelope = empty_envelope\<lparr>en_api_version := ResultAPIVersion, en_outcome := OutcomeSucceeded\<rparr>"

definition outputFromText :: "string \<Rightarrow> result_output option" where
  "outputFromText v =
     (if v = [] then None else Some \<lparr>ro_media_type = DefaultMediaType, ro_value = json_string v\<rparr>)"

definition usageFromLegacy :: "legacy_payload \<Rightarrow> result_usage option" where
  "usageFromLegacy p =
     (if lp_tokens_used p = None \<and> lp_dollars_used p = None then None
      else Some \<lparr>ru_input_tokens = None, ru_output_tokens = None, ru_total_tokens = lp_tokens_used p,
        ru_reasoning_tokens = None, ru_dollars = lp_dollars_used p\<rparr>)"

text \<open>
  \<^verbatim>\<open>strings.EqualFold\<close> against an ASCII key: besides the two cases of a letter, the long s and
  the Kelvin sign fold to \<^verbatim>\<open>s\<close> and \<^verbatim>\<open>k\<close>.
\<close>

fun fold_key :: "string \<Rightarrow> string" where
  "fold_key [] = []"
| "fold_key (a # s) =
     (if a = CHR 0xC5 \<and> has_prefix s [CHR 0xBF] then CHR ''s'' # fold_key (drop 1 s)
      else if a = CHR 0xE2 \<and> has_prefix s [CHR 0x84, CHR 0xAA] then CHR ''k'' # fold_key (drop 2 s)
      else lower_char a # fold_key s)"

definition equal_fold :: "string \<Rightarrow> string \<Rightarrow> bool" where
  "equal_fold name key \<longleftrightarrow> fold_key name = map lower_char key"

definition hasLegacyField :: "string list \<Rightarrow> bool" where
  "hasLegacyField names \<longleftrightarrow>
     list_ex (\<lambda>f. list_ex (equal_fold f) [''result'', ''tokensUsed'', ''dollarsUsed'', ''error'']) names"

definition Parse :: "golib \<Rightarrow> json_codec \<Rightarrow> string \<Rightarrow> (envelope \<times> bool) go_result" where
  "Parse L J raw =
     (let message = trim_space raw in
      if message = [] then Inr (successfulEnvelope, False)
      else if \<not> has_prefix message ''{'' then
        Inr (successfulEnvelope\<lparr>en_output := outputFromText message\<rparr>, True)
      else case jc_unmarshal_fields J message of
        Inl err \<Rightarrow> Inl (''decode termination payload: '' @ err)
      | Inr names \<Rightarrow>
          if ''apiVersion'' \<in> set names then
            (case jc_unmarshal_envelope J message of
               Inl err \<Rightarrow> Inl (''decode result envelope: '' @ err)
             | Inr e \<Rightarrow>
                 (case Validate L J e of
                    Some err \<Rightarrow> Inl (''validate result envelope: '' @ err)
                  | None \<Rightarrow> Inr (e, False)))
          else if \<not> hasLegacyField names then
            Inl ''decode termination payload: unrecognized JSON object''
          else
            (case jc_unmarshal_legacy J message of
               Inl err \<Rightarrow> Inl (''decode legacy termination payload: '' @ err)
             | Inr legacy \<Rightarrow>
                 Inr (successfulEnvelope\<lparr>en_output := outputFromText (lp_result legacy),
                        en_usage := usageFromLegacy legacy,
                        en_error := (if lp_error legacy \<noteq> []
                          then Some \<lparr>ei_code = [], ei_message = lp_error legacy, ei_retryable = None\<rparr>
                          else None)\<rparr>, True)))"

datatype parse_error = VersionedEnvelopeRequired | ParseFailed string

definition ParseVersioned :: "golib \<Rightarrow> json_codec \<Rightarrow> string \<Rightarrow> parse_error + envelope" where
  "ParseVersioned L J message =
     (case Parse L J message of
        Inl err \<Rightarrow> Inl (ParseFailed err)
      | Inr (e, legacy) \<Rightarrow>
          if legacy \<or> trim_space message = [] then Inl VersionedEnvelopeRequired else Inr e)"

definition PlainText :: "golib \<Rightarrow> json_codec \<Rightarrow> result_output option \<Rightarrow> string" where
  "PlainText L J out =
     (case out of
        None \<Rightarrow> []
      | Some x \<Rightarrow>
          if trim_space (ro_value x) = [] then []
          else (let compacted = (case jc_compact J (ro_value x) of Inl _ \<Rightarrow> [] | Inr c \<Rightarrow> c) in
                if has_prefix (to_lower L (ro_media_type x)) ''text/''
                then (case jc_unmarshal_string J (ro_value x) of Inr text \<Rightarrow> text | Inl _ \<Rightarrow> compacted)
                else compacted))"

subsection \<open>Compaction\<close>

definition truncatedOutputJSON :: string where
  "truncatedOutputJSON = [CHR ''{'', CHR 0x22] @ ''truncated'' @ [CHR 0x22, CHR '':''] @ ''true}''"

definition TruncatedOutput :: result_output where
  "TruncatedOutput = \<lparr>ro_media_type = TruncatedOutputMediaType, ro_value = truncatedOutputJSON\<rparr>"

definition marshalWithin :: "json_codec \<Rightarrow> envelope \<Rightarrow> int \<Rightarrow> string option" where
  "marshalWithin J e maxBytes =
     (case jc_marshal_envelope J e of
        Inl _ \<Rightarrow> None
      | Inr encoded \<Rightarrow> if int (length encoded) \<le> maxBytes then Some encoded else None)"

definition cloneEnvelope :: "json_codec \<Rightarrow> envelope \<Rightarrow> envelope go_result" where
  "cloneEnvelope J e =
     (case jc_marshal_envelope J e of
        Inl err \<Rightarrow> Inl (''marshal result envelope for compaction: '' @ err)
      | Inr encoded \<Rightarrow>
          (case jc_unmarshal_envelope J encoded of
             Inl err \<Rightarrow> Inl (''clone result envelope for compaction: '' @ err)
           | Inr clone \<Rightarrow> Inr clone))"

definition mark :: "(truncation \<Rightarrow> truncation) \<Rightarrow> envelope \<Rightarrow> envelope" where
  "mark f e = e\<lparr>en_truncation := map_option f (en_truncation e)\<rparr>"

definition drop_extensions :: "envelope \<Rightarrow> envelope" where
  "drop_extensions e = mark (\<lambda>t. t\<lparr>tr_extensions_truncated := True\<rparr>) (e\<lparr>en_extensions := []\<rparr>)"

definition drop_artifacts :: "envelope \<Rightarrow> envelope" where
  "drop_artifacts e = mark (\<lambda>t. t\<lparr>tr_artifacts_truncated := True\<rparr>) (e\<lparr>en_artifacts := []\<rparr>)"

definition truncate_output :: "envelope \<Rightarrow> envelope" where
  "truncate_output e = mark (\<lambda>t. t\<lparr>tr_output_truncated := True\<rparr>) (e\<lparr>en_output := Some TruncatedOutput\<rparr>)"

abbreviation truncated_error :: string where
  "truncated_error \<equiv> ''result error details truncated''"

definition strip_details :: "envelope \<Rightarrow> envelope" where
  "strip_details e = e\<lparr>en_error := map_option (\<lambda>x. x\<lparr>ei_code := [], ei_message := truncated_error\<rparr>) (en_error e),
     en_execution := None, en_timing := None\<rparr>"

definition minimal_envelope :: "envelope \<Rightarrow> envelope" where
  "minimal_envelope e = empty_envelope\<lparr>en_api_version := ResultAPIVersion, en_outcome := en_outcome e,
     en_truncation := en_truncation e,
     en_error := (if en_outcome e = OutcomeFailed
       then Some \<lparr>ei_code = [], ei_message = truncated_error, ei_retryable = None\<rparr> else None)\<rparr>"

text \<open>
  One stage of the compaction: when the stage applies, the envelope is cut and tried; otherwise it
  is passed on.  \<open>Inl\<close> carries the encoding that fitted, \<open>Inr\<close> the envelope for the next stage.
\<close>

definition stage ::
  "json_codec \<Rightarrow> int \<Rightarrow> (envelope \<Rightarrow> bool) \<Rightarrow> (envelope \<Rightarrow> envelope) \<Rightarrow> envelope \<Rightarrow> string + envelope" where
  "stage J maxBytes applies shrink e =
     (if applies e then (case marshalWithin J (shrink e) maxBytes of Some b \<Rightarrow> Inl b | None \<Rightarrow> Inr (shrink e))
      else Inr e)"

definition compact_stages :: "json_codec \<Rightarrow> int \<Rightarrow> envelope \<Rightarrow> string + envelope" where
  "compact_stages J maxBytes e0 =
     (case stage J maxBytes (\<lambda>e. en_extensions e \<noteq> []) drop_extensions e0 of Inl b \<Rightarrow> Inl b | Inr e1 \<Rightarrow>
     (case stage J maxBytes (\<lambda>e. en_artifacts e \<noteq> []) drop_artifacts e1 of Inl b \<Rightarrow> Inl b | Inr e2 \<Rightarrow>
     (case stage J maxBytes (\<lambda>e. en_output e \<noteq> None) truncate_output e2 of Inl b \<Rightarrow> Inl b | Inr e3 \<Rightarrow>
     (case stage J maxBytes (\<lambda>_. True) strip_details e3 of Inl b \<Rightarrow> Inl b | Inr e4 \<Rightarrow>
      stage J maxBytes (\<lambda>_. True) minimal_envelope e4))))"

definition Compact :: "golib \<Rightarrow> json_codec \<Rightarrow> envelope \<Rightarrow> int \<Rightarrow> string go_result" where
  "Compact L J e maxBytes =
     (if maxBytes \<le> 0 then Inl ''result envelope byte limit must be positive''
      else case Validate L J e of
        Some err \<Rightarrow> Inl err
      | None \<Rightarrow>
          (case jc_marshal_envelope J e of
             Inl err \<Rightarrow> Inl (''marshal result envelope: '' @ err)
           | Inr original \<Rightarrow>
               if int (length original) \<le> maxBytes then Inr original
               else (case cloneEnvelope J e of
                       Inl err \<Rightarrow> Inl err
                     | Inr clone \<Rightarrow>
                         (case compact_stages J maxBytes
                                 (clone\<lparr>en_truncation := Some \<lparr>tr_original_bytes = int (length original),
                                    tr_output_truncated = False, tr_artifacts_truncated = False,
                                    tr_extensions_truncated = False\<rparr>\<rparr>) of
                            Inl b \<Rightarrow> Inr b
                          | Inr _ \<Rightarrow> Inl (''result envelope cannot fit within '' @ show_int maxBytes @ '' bytes'')))))"

subsection \<open>The stdout line\<close>

definition WriteEnvelopeLine :: "golib \<Rightarrow> json_codec \<Rightarrow> envelope \<Rightarrow> string go_result" where
  "WriteEnvelopeLine L J e =
     (case Compact L J e MaxTerminationMessageBytes of
        Inl err \<Rightarrow> Inl err
      | Inr payload \<Rightarrow> Inr (EnvelopeLinePrefix @ '' '' @ payload @ [CHR 0x0A]))"

definition ExtractEnvelopePayload :: "string \<Rightarrow> string option" where
  "ExtractEnvelopePayload line =
     (let trimmed = trim_space line in
      if \<not> has_prefix trimmed EnvelopeLinePrefix then None
      else Some (trim_space (drop (length EnvelopeLinePrefix) trimmed)))"

subsection \<open>What a valid envelope is\<close>

lemma first_error_None [simp]: "first_error es = None \<longleftrightarrow> (\<forall>e \<in> set es. e = None)"
  by (induction es) (auto simp: first_error_def split: list.splits)

lemma Validate_None:
  "Validate L J e = None \<longleftrightarrow>
     en_api_version e = ResultAPIVersion \<and>
     (en_outcome e = OutcomeSucceeded \<and> en_error e = None \<or>
      en_outcome e = OutcomeFailed \<and> (\<exists>x. en_error e = Some x \<and> trim_space (ei_message x) \<noteq> [])) \<and>
     validateOutput J (en_output e) = None \<and>
     (\<forall>u. en_usage e = Some u \<longrightarrow> validateUsage u = None) \<and>
     validateTiming (en_timing e) = None \<and> validateExecution (en_execution e) = None \<and>
     validateArtifacts 0 (en_artifacts e) = None \<and> validateExtensions L J (en_extensions e) = None"
  by (auto simp: Validate_def split: option.splits if_splits)

text \<open>
  What the code relies on of \<^verbatim>\<open>encoding/json\<close>: an encoded valid envelope is an object with an
  \<^verbatim>\<open>apiVersion\<close> member and no space around it, and decodes to a valid envelope with the same
  outcome, truncation record and presence of output, artifacts and extensions.
\<close>

definition same_shape :: "envelope \<Rightarrow> envelope \<Rightarrow> bool" where
  "same_shape c e \<longleftrightarrow> en_outcome c = en_outcome e \<and> en_truncation c = en_truncation e \<and>
     (en_output c = None \<longleftrightarrow> en_output e = None) \<and>
     (en_artifacts c = [] \<longleftrightarrow> en_artifacts e = []) \<and> (en_extensions c = [] \<longleftrightarrow> en_extensions e = [])"

definition codec_ok :: "golib \<Rightarrow> json_codec \<Rightarrow> bool" where
  "codec_ok L J \<longleftrightarrow> jc_valid J truncatedOutputJSON \<and>
     (\<forall>e b. jc_marshal_envelope J e = Inr b \<longrightarrow> Validate L J e = None \<longrightarrow>
        has_prefix b ''{'' \<and> trim_space b = b \<and> CHR 0x0A \<notin> set b \<and>
        (\<exists>names. jc_unmarshal_fields J b = Inr names \<and> ''apiVersion'' \<in> set names) \<and>
        (\<exists>c. jc_unmarshal_envelope J b = Inr c \<and> Validate L J c = None \<and> same_shape c e))"

lemma ParseVersioned_Parse: "ParseVersioned L J b = Inr e \<Longrightarrow> Parse L J b = Inr (e, False)"
  by (auto simp: ParseVersioned_def split: sum.splits if_splits prod.splits)

lemma ParseVersioned_marshal:
  assumes "codec_ok L J" "jc_marshal_envelope J e = Inr b" "Validate L J e = None"
  shows "\<exists>c. ParseVersioned L J b = Inr c \<and> Validate L J c = None \<and> same_shape c e"
proof -
  from assms obtain names c where b: "has_prefix b ''{''" "trim_space b = b" "jc_unmarshal_fields J b = Inr names"
    "''apiVersion'' \<in> set names" "jc_unmarshal_envelope J b = Inr c" "Validate L J c = None" "same_shape c e"
    unfolding codec_ok_def by blast
  then have "b \<noteq> []" by auto
  with b show ?thesis by (simp add: ParseVersioned_def Parse_def)
qed

subsection \<open>Compaction keeps the outcome and records every loss\<close>

lemma marshalWithin_Some:
  "marshalWithin J e m = Some b \<longleftrightarrow> jc_marshal_envelope J e = Inr b \<and> int (length b) \<le> m"
  by (auto simp: marshalWithin_def split: sum.splits if_splits)

definition loss_marked :: "int \<Rightarrow> envelope \<Rightarrow> envelope \<Rightarrow> bool" where
  "loss_marked n c e \<longleftrightarrow> en_outcome e = en_outcome c \<and>
     (\<exists>t. en_truncation e = Some t \<and> tr_original_bytes t = n \<and>
        (tr_output_truncated t \<or> en_output e = en_output c) \<and>
        (tr_artifacts_truncated t \<or> en_artifacts e = en_artifacts c) \<and>
        (tr_extensions_truncated t \<or> en_extensions e = en_extensions c))"

text \<open>
  The other parts have no mark of their own. They are given up only when nothing else is left to drop, and then the error,
  if there was one, keeps only a fixed text.
\<close>

definition details_last :: "envelope \<Rightarrow> envelope \<Rightarrow> bool" where
  "details_last c e \<longleftrightarrow>
     en_error e = en_error c \<and> en_usage e = en_usage c \<and> en_execution e = en_execution c \<and> en_timing e = en_timing c \<or>
     en_extensions e = [] \<and> en_artifacts e = [] \<and> (\<forall>x. en_output e = Some x \<longrightarrow> x = TruncatedOutput) \<and>
     (\<forall>x. en_error e = Some x \<longrightarrow> ei_message x = truncated_error)"

text \<open>
  The result of a stage: an encoding within the budget of an envelope with \<open>W\<close>, or an envelope with
  \<open>P\<close> for the next stage.
\<close>

definition stage_ok ::
  "json_codec \<Rightarrow> int \<Rightarrow> (envelope \<Rightarrow> bool) \<Rightarrow> (envelope \<Rightarrow> bool) \<Rightarrow> string + envelope \<Rightarrow> bool" where
  "stage_ok J m W P r =
     (case r of Inl b \<Rightarrow> \<exists>e'. W e' \<and> jc_marshal_envelope J e' = Inr b \<and> int (length b) \<le> m | Inr e \<Rightarrow> P e)"

lemma stage_ok_stage:
  assumes "P e" "\<And>e. P e \<Longrightarrow> Q (shrink e)" "\<And>e. P e \<Longrightarrow> \<not> applies e \<Longrightarrow> Q e" "\<And>e. Q e \<Longrightarrow> W e"
  shows "stage_ok J m W Q (stage J m applies shrink e)"
  using assms by (auto simp: stage_ok_def stage_def marshalWithin_Some split: option.splits)

lemma stage_ok_then:
  assumes "stage_ok J m W P r" "\<And>e. P e \<Longrightarrow> stage_ok J m W Q (f e)"
  shows "stage_ok J m W Q (case r of Inl b \<Rightarrow> Inl b | Inr e \<Rightarrow> f e)"
  using assms by (cases r) (auto simp: stage_ok_def)

lemma truncated_output_ok:
  "jc_valid J truncatedOutputJSON \<Longrightarrow> validateOutput J (Some TruncatedOutput) = None"
proof -
  have "trim_space truncatedOutputJSON \<noteq> []" "trim_space TruncatedOutputMediaType \<noteq> []" by code_simp+
  then show "jc_valid J truncatedOutputJSON \<Longrightarrow> ?thesis"
    by (simp add: validateOutput_def TruncatedOutput_def)
qed

lemma trim_truncated_error: "trim_space truncated_error \<noteq> []"
  by code_simp

text \<open>The invariant between the stages, with what each stage has already removed.\<close>

definition cut_inv :: "golib \<Rightarrow> json_codec \<Rightarrow> int \<Rightarrow> envelope \<Rightarrow> nat \<Rightarrow> envelope \<Rightarrow> bool" where
  "cut_inv L J n c k e \<longleftrightarrow> loss_marked n c e \<and> details_last c e \<and> Validate L J e = None \<and>
     (1 \<le> k \<longrightarrow> en_extensions e = []) \<and> (2 \<le> k \<longrightarrow> en_artifacts e = []) \<and>
     (3 \<le> k \<longrightarrow> (\<forall>x. en_output e = Some x \<longrightarrow> x = TruncatedOutput \<and> (\<exists>t. en_truncation e = Some t \<and> tr_output_truncated t)))"

lemma details_last_dropped:
  "details_last c e \<Longrightarrow> details_last c (drop_extensions e)" "details_last c e \<Longrightarrow> details_last c (drop_artifacts e)"
  "details_last c e \<Longrightarrow> details_last c (truncate_output e)"
  by (auto simp: details_last_def drop_extensions_def drop_artifacts_def truncate_output_def mark_def)

lemma details_last_stripped:
  "en_extensions e = [] \<Longrightarrow> en_artifacts e = [] \<Longrightarrow> \<forall>x. en_output e = Some x \<longrightarrow> x = TruncatedOutput \<Longrightarrow> details_last c (strip_details e)"
  by (auto simp: details_last_def strip_details_def)

lemma details_last_minimal: "details_last c (minimal_envelope e)"
  by (simp add: details_last_def minimal_envelope_def empty_envelope_def)

lemma cut_inv_drop_extensions:
  "cut_inv L J n c 0 e \<Longrightarrow> cut_inv L J n c 1 (drop_extensions e)"
  using details_last_dropped(1) [of c e]
  by (auto simp: cut_inv_def loss_marked_def drop_extensions_def mark_def Validate_None)

lemma cut_inv_drop_artifacts:
  "cut_inv L J n c 1 e \<Longrightarrow> cut_inv L J n c 2 (drop_artifacts e)"
  using details_last_dropped(2) [of c e]
  by (auto simp: cut_inv_def loss_marked_def drop_artifacts_def mark_def Validate_None)

lemma cut_inv_truncate_output:
  "jc_valid J truncatedOutputJSON \<Longrightarrow> cut_inv L J n c 2 e \<Longrightarrow> cut_inv L J n c 3 (truncate_output e)"
  using details_last_dropped(3) [of c e]
  by (auto simp: cut_inv_def loss_marked_def truncate_output_def mark_def Validate_None truncated_output_ok)

lemma strip_details_valid: "Validate L J e = None \<Longrightarrow> Validate L J (strip_details e) = None"
  by (auto simp: strip_details_def Validate_None validateTiming_def validateExecution_def trim_truncated_error)

lemma minimal_envelope_valid: "Validate L J e = None \<Longrightarrow> Validate L J (minimal_envelope e) = None"
  by (auto simp: minimal_envelope_def empty_envelope_def Validate_None validateTiming_def validateExecution_def
      validateOutput_def trim_truncated_error)

lemma loss_marked_still:
  assumes "loss_marked n c e" "en_outcome e' = en_outcome e" "en_truncation e' = en_truncation e"
    and "en_extensions e' = en_extensions e" "en_artifacts e' = en_artifacts e"
    and "en_output e' = en_output e \<or> (\<exists>t. en_truncation e = Some t \<and> tr_output_truncated t)"
  shows "loss_marked n c e'"
  using assms unfolding loss_marked_def by auto

lemma cut_inv_strip_details: "cut_inv L J n c 3 e \<Longrightarrow> cut_inv L J n c 3 (strip_details e)"
proof -
  assume I: "cut_inv L J n c 3 e"
  then have "loss_marked n c (strip_details e)"
    by - (rule loss_marked_still [of n c e], simp_all add: cut_inv_def strip_details_def)
  moreover have "details_last c (strip_details e)"
    using I by (intro details_last_stripped) (simp_all add: cut_inv_def)
  ultimately show ?thesis using I strip_details_valid [of L J e] by (simp add: cut_inv_def) (simp add: strip_details_def)
qed

lemma cut_inv_minimal: "cut_inv L J n c 3 e \<Longrightarrow> cut_inv L J n c 0 (minimal_envelope e)"
proof -
  assume I: "cut_inv L J n c 3 e"
  then have "loss_marked n c (minimal_envelope e)"
    by - (rule loss_marked_still [of n c e], auto simp: cut_inv_def minimal_envelope_def empty_envelope_def)
  with I minimal_envelope_valid [of L J e] details_last_minimal show ?thesis by (simp add: cut_inv_def)
qed

lemma cut_inv_weaken: "cut_inv L J n c 3 e \<Longrightarrow> cut_inv L J n c 0 e" "cut_inv L J n c 2 e \<Longrightarrow> cut_inv L J n c 0 e"
    "cut_inv L J n c 1 e \<Longrightarrow> cut_inv L J n c 0 e"
  by (auto simp: cut_inv_def)

lemma cut_inv_skip:
  "cut_inv L J n c 0 e \<Longrightarrow> en_extensions e = [] \<Longrightarrow> cut_inv L J n c 1 e"
  "cut_inv L J n c 1 e \<Longrightarrow> en_artifacts e = [] \<Longrightarrow> cut_inv L J n c 2 e"
  "cut_inv L J n c 2 e \<Longrightarrow> en_output e = None \<Longrightarrow> cut_inv L J n c 3 e"
  by (auto simp: cut_inv_def)

lemma compact_stages_inv:
  assumes "jc_valid J truncatedOutputJSON" "cut_inv L J n c 0 e"
  shows "stage_ok J m (cut_inv L J n c 0) (cut_inv L J n c 0) (compact_stages J m e)"
proof -
  let ?I = "cut_inv L J n c"
  have 1: "stage_ok J m (?I 0) (?I 1) (stage J m (\<lambda>e. en_extensions e \<noteq> []) drop_extensions e)"
    using assms(2) by (rule stage_ok_stage)
      (use cut_inv_drop_extensions cut_inv_skip(1) cut_inv_weaken(3) in blast)+
  have 2: "?I 1 e \<Longrightarrow> stage_ok J m (?I 0) (?I 2) (stage J m (\<lambda>e. en_artifacts e \<noteq> []) drop_artifacts e)" for e
    by (erule stage_ok_stage) (use cut_inv_drop_artifacts cut_inv_skip(2) cut_inv_weaken(2) in blast)+
  have 3: "?I 2 e \<Longrightarrow> stage_ok J m (?I 0) (?I 3) (stage J m (\<lambda>e. en_output e \<noteq> None) truncate_output e)" for e
    by (erule stage_ok_stage)
      (use cut_inv_truncate_output [OF assms(1)] cut_inv_skip(3) cut_inv_weaken(1) in blast)+
  have 4: "?I 3 e \<Longrightarrow> stage_ok J m (?I 0) (?I 3) (stage J m (\<lambda>_. True) strip_details e)" for e
    by (erule stage_ok_stage) (use cut_inv_strip_details cut_inv_weaken(1) in blast)+
  have 5: "?I 3 e \<Longrightarrow> stage_ok J m (?I 0) (?I 0) (stage J m (\<lambda>_. True) minimal_envelope e)" for e
    by (erule stage_ok_stage) (use cut_inv_minimal in blast)+
  show ?thesis unfolding compact_stages_def
    by (rule stage_ok_then [OF 1], rule stage_ok_then [OF 2], assumption, rule stage_ok_then [OF 3],
        assumption, rule stage_ok_then [OF 4], assumption, rule 5)
qed

text \<open>Whatever stage it came from, the result of a compaction encodes a valid envelope within the limit.\<close>

lemma Compact_encodes:
  assumes "codec_ok L J" "Compact L J e m = Inr b"
  shows "int (length b) \<le> m \<and>
    (\<exists>e'. jc_marshal_envelope J e' = Inr b \<and> Validate L J e' = None \<and> en_outcome e' = en_outcome e \<and>
       (\<forall>orig. jc_marshal_envelope J e = Inr orig \<longrightarrow> int (length orig) > m \<longrightarrow>
          (\<exists>clone. jc_unmarshal_envelope J orig = Inr clone \<and> loss_marked (int (length orig)) clone e' \<and> details_last clone e')))"
proof -
  from assms(2) obtain orig where orig: "jc_marshal_envelope J e = Inr orig" and valid: "Validate L J e = None"
    by (auto simp: Compact_def split: if_splits option.splits sum.splits)
  show ?thesis
  proof (cases "int (length orig) \<le> m")
    case True
    then have "b = orig" using assms(2) orig valid by (auto simp: Compact_def split: if_splits)
    then show ?thesis using True orig valid by auto
  next
    case False
    let ?t = "\<lparr>tr_original_bytes = int (length orig), tr_output_truncated = False,
       tr_artifacts_truncated = False, tr_extensions_truncated = False\<rparr>"
    from assms(1) orig valid obtain clone where clone: "jc_unmarshal_envelope J orig = Inr clone"
      "Validate L J clone = None" "same_shape clone e" unfolding codec_ok_def by blast
    then have "compact_stages J m (clone\<lparr>en_truncation := Some ?t\<rparr>) = Inl b"
      using assms(2) orig valid False
      by (auto simp: Compact_def cloneEnvelope_def split: if_splits sum.splits)
    moreover have "cut_inv L J (int (length orig)) clone 0 (clone\<lparr>en_truncation := Some ?t\<rparr>)"
      using clone(2) by (simp add: cut_inv_def loss_marked_def details_last_def Validate_None)
    ultimately obtain e' where e': "cut_inv L J (int (length orig)) clone 0 e'"
      "jc_marshal_envelope J e' = Inr b" "int (length b) \<le> m"
      using compact_stages_inv [of J L "int (length orig)" clone _ m] assms(1)
      by (fastforce simp: stage_ok_def codec_ok_def)
    then show ?thesis using clone orig by (auto simp: cut_inv_def loss_marked_def same_shape_def)
  qed
qed

text \<open>
  C15. Compaction is safe: whenever \<^verbatim>\<open>Compact\<close> returns bytes, they fit the byte limit and a consumer
  that parses them strictly gets a valid envelope with the outcome of the original.  If the original
  encoding did not fit, the bytes encode an envelope whose truncation record holds the original size
  and in which output, artifacts and extensions are unchanged unless that record flags them, and
  the consumer sees that record.
\<close>

theorem Compact_fits_and_parses:
  assumes "codec_ok L J" "Compact L J e m = Inr b"
  shows "int (length b) \<le> m \<and>
    (\<exists>c. ParseVersioned L J b = Inr c \<and> Validate L J c = None \<and> en_outcome c = en_outcome e \<and>
       (\<forall>orig. jc_marshal_envelope J e = Inr orig \<longrightarrow> int (length orig) > m \<longrightarrow>
          (\<exists>clone e'. jc_unmarshal_envelope J orig = Inr clone \<and> jc_marshal_envelope J e' = Inr b \<and>
             loss_marked (int (length orig)) clone e' \<and> details_last clone e' \<and> en_truncation c = en_truncation e')))"
proof -
  from Compact_encodes [OF assms] obtain e' where e': "jc_marshal_envelope J e' = Inr b" "Validate L J e' = None" "int (length b) \<le> m"
      "en_outcome e' = en_outcome e"
    and loss: "\<forall>orig. jc_marshal_envelope J e = Inr orig \<longrightarrow> int (length orig) > m \<longrightarrow>
          (\<exists>clone. jc_unmarshal_envelope J orig = Inr clone \<and> loss_marked (int (length orig)) clone e' \<and> details_last clone e')" by blast
  from ParseVersioned_marshal [OF assms(1) e'(1,2)] obtain c where c: "ParseVersioned L J b = Inr c" "Validate L J c = None"
    "same_shape c e'" by blast
  then have "en_outcome c = en_outcome e" "en_truncation c = en_truncation e'" using e'(4) by (simp_all add: same_shape_def)
  with c(1,2) e' loss show ?thesis by blast
qed

definition demo_envelope :: envelope where
  "demo_envelope = successfulEnvelope\<lparr>en_output := Some \<lparr>ro_media_type = DefaultMediaType, ro_value = ''1''\<rparr>\<rparr>"

definition demo_cut :: envelope where
  "demo_cut = truncate_output (demo_envelope\<lparr>en_truncation := Some \<lparr>tr_original_bytes = 12,
     tr_output_truncated = False, tr_artifacts_truncated = False, tr_extensions_truncated = False\<rparr>\<rparr>)"

text \<open>A codec that knows two envelopes, so that both branches of the compaction can be run.\<close>

definition demo_codec :: json_codec where
  "demo_codec = \<lparr>jc_valid = (\<lambda>_. True), jc_compact = Inr, jc_unmarshal_string = Inr,
     jc_unmarshal_fields = (\<lambda>_. Inr [''apiVersion'']),
     jc_unmarshal_legacy = (\<lambda>_. Inl ''legacy''),
     jc_unmarshal_envelope = (\<lambda>b. if b = ''{0123456789}'' then Inr demo_envelope
        else if b = ''{cut}'' then Inr demo_cut else Inl ''unknown''),
     jc_marshal_envelope = (\<lambda>e. if e = demo_envelope then Inr ''{0123456789}''
        else if e = demo_cut then Inr ''{cut}'' else Inl ''unknown'')\<rparr>"

definition demo_lib :: golib where
  "demo_lib = \<lparr>unicode_lower = id, unicode_upper = id, unicode_quote = id, sha256_hex = id\<rparr>"

lemma demo_codec_ok: "codec_ok demo_lib demo_codec"
proof -
  have "Validate demo_lib demo_codec demo_envelope = None" "Validate demo_lib demo_codec demo_cut = None"
    "trim_space ''{0123456789}'' = ''{0123456789}''" "trim_space ''{cut}'' = ''{cut}''"
    by code_simp+
  then show ?thesis
    by (auto simp: codec_ok_def demo_codec_def same_shape_def split: if_splits)
qed

theorem Compact_fits_and_parses_witness:
  "codec_ok demo_lib demo_codec \<and> Compact demo_lib demo_codec demo_envelope 8 = Inr ''{cut}'' \<and>
   (\<exists>c. ParseVersioned demo_lib demo_codec ''{cut}'' = Inr c \<and> en_outcome c = OutcomeSucceeded)"
proof -
  have c: "Compact demo_lib demo_codec demo_envelope 8 = Inr ''{cut}''" by code_simp
  have "en_outcome demo_envelope = OutcomeSucceeded"
    by (simp add: demo_envelope_def successfulEnvelope_def)
  with c Compact_fits_and_parses [OF demo_codec_ok c] demo_codec_ok show ?thesis by auto
qed

subsection \<open>The producer and the consumer of the stdout line agree\<close>

lemma Compact_payload:
  assumes "codec_ok L J" "Compact L J e m = Inr b"
  shows "has_prefix b ''{'' \<and> trim_space b = b \<and> CHR 0x0A \<notin> set b"
  using Compact_encodes [OF assms] assms(1) unfolding codec_ok_def by blast

lemma Compact_parses:
  assumes "codec_ok L J" "Compact L J e m = Inr b"
  shows "int (length b) \<le> m \<and> (\<exists>c. ParseVersioned L J b = Inr c \<and> Validate L J c = None \<and> en_outcome c = en_outcome e)"
  using Compact_encodes [OF assms] ParseVersioned_marshal [OF assms(1)] unfolding same_shape_def by metis

lemma envelope_line:
  assumes "has_prefix b ''{''" "trim_space b = b"
  shows "trailing_space (EnvelopeLinePrefix @ '' '' @ b) = 0"
    and "ExtractEnvelopePayload (EnvelopeLinePrefix @ '' '' @ b) = Some b"
    and "ExtractEnvelopePayload (EnvelopeLinePrefix @ '' '' @ b @ [CHR 0x0A]) = Some b"
proof -
  from assms have fixed: "leading_space b = 0" "trailing_space b = 0" by (simp_all add: trim_space_fixed)
  from assms obtain b' where b': "b = CHR ''{'' # b'" by (cases b) auto
  have tail: "trailing_space (q @ b) = 0" for q
    by (rule trailing_space_append [OF fixed(2), of "CHR ''{''"]) (auto simp: b' space_encodings_def)
  from tail [of "EnvelopeLinePrefix @ '' ''"] show t: "trailing_space (EnvelopeLinePrefix @ '' '' @ b) = 0" by simp
  have left: "trim_left (EnvelopeLinePrefix @ x) = EnvelopeLinePrefix @ x" for x
    by (subst trim_left.simps) (simp add: leading_space_def space_encodings_def)
  have right: "trim_right (EnvelopeLinePrefix @ '' '' @ b) = EnvelopeLinePrefix @ '' '' @ b"
    by (subst trim_right.simps) (simp only: t, simp)
  have "trim_space (EnvelopeLinePrefix @ '' '' @ b) = EnvelopeLinePrefix @ '' '' @ b"
    unfolding trim_space_def left right ..
  moreover have "trim_space (EnvelopeLinePrefix @ '' '' @ b @ [CHR 0x0A]) = EnvelopeLinePrefix @ '' '' @ b"
    unfolding trim_space_def left using trim_right_newline [of "EnvelopeLinePrefix @ '' '' @ b"] right by simp
  moreover have "trim_space ('' '' @ b) = b"
    using fixed by (simp add: trim_space_def trim_left_space trim_left.simps [of b] trim_right.simps [of b])
  ultimately show "ExtractEnvelopePayload (EnvelopeLinePrefix @ '' '' @ b) = Some b"
    "ExtractEnvelopePayload (EnvelopeLinePrefix @ '' '' @ b @ [CHR 0x0A]) = Some b"
    by (simp_all add: ExtractEnvelopePayload_def has_prefix_def)
qed

text \<open>
  C23. Producer and consumer of the stdout line agree: what \<^verbatim>\<open>WriteEnvelopeLine\<close> writes is exactly one
  line, and \<^verbatim>\<open>ExtractEnvelopePayload\<close> on that line returns the compacted envelope, byte for byte.
\<close>

theorem WriteEnvelopeLine_extract:
  assumes "codec_ok L J" "WriteEnvelopeLine L J e = Inr line"
  shows "\<exists>payload. Compact L J e MaxTerminationMessageBytes = Inr payload \<and> CHR 0x0A \<notin> set payload \<and>
    line = EnvelopeLinePrefix @ '' '' @ payload @ [CHR 0x0A] \<and> ExtractEnvelopePayload line = Some payload"
proof -
  from assms(2) obtain b where b: "Compact L J e MaxTerminationMessageBytes = Inr b"
    and line: "line = EnvelopeLinePrefix @ '' '' @ b @ [CHR 0x0A]"
    by (auto simp: WriteEnvelopeLine_def split: sum.splits)
  from Compact_payload [OF assms(1) b] have "has_prefix b ''{''" "trim_space b = b" "CHR 0x0A \<notin> set b" by simp_all
  with b line envelope_line(3) show ?thesis by blast
qed

theorem WriteEnvelopeLine_extract_witness:
  "codec_ok demo_lib demo_codec \<and>
   WriteEnvelopeLine demo_lib demo_codec demo_envelope = Inr (''KONTEXT_RESULT: {0123456789}'' @ [CHR 0x0A]) \<and>
   ExtractEnvelopePayload (''KONTEXT_RESULT: {0123456789}'' @ [CHR 0x0A]) = Some ''{0123456789}''"
proof -
  have w: "WriteEnvelopeLine demo_lib demo_codec demo_envelope = Inr (''KONTEXT_RESULT: {0123456789}'' @ [CHR 0x0A])"
    by code_simp
  from WriteEnvelopeLine_extract [OF demo_codec_ok w] demo_codec_ok w show ?thesis by auto
qed

end
