(* ===== verification/Api_Types.thy ===== *)
theory Api_Types
  imports Go_Time
begin

text \<open>
  The custom resources of \<^verbatim>\<open>api/v1alpha1\<close> and the parts of the Kubernetes objects the
  controllers read and write.  A pointer field is an \<^typ>\<open>'a option\<close>; a slice or map whose
  being nil the source can observe is an option of a list.  Reference structs with a single
  \<^verbatim>\<open>Name\<close> field (\<^verbatim>\<open>AgentRef\<close>, \<^verbatim>\<open>SecretRef\<close>, \<^verbatim>\<open>ConfigMapRef\<close>) are that
  name.  Enumerated strings stay strings, since the code has a branch for unknown ones.
\<close>

subsection \<open>Object metadata\<close>

record type_meta =
  tm_kind :: string
  tm_api_version :: string

record owner_ref =
  or_api_version :: string
  or_kind :: string
  or_name :: string
  or_uid :: string
  or_controller :: bool

record object_meta =
  m_name :: string
  m_namespace :: string
  m_uid :: string
  m_labels :: "string go_map"
  m_annotations :: "string go_map"
  m_finalizers :: "string list"
  m_owner_refs :: "owner_ref list"
  m_generation :: int
  m_creation :: time
  m_deletion :: "time option"

definition empty_meta :: object_meta where
  "empty_meta = \<lparr>m_name = [], m_namespace = [], m_uid = [], m_labels = [], m_annotations = [],
     m_finalizers = [], m_owner_refs = [], m_generation = 0, m_creation = 0, m_deletion = None\<rparr>"

record condition =
  c_type :: string
  c_status :: string
  c_reason :: string
  c_message :: string
  c_generation :: int
  c_transition :: time

subsection \<open>The Agent resource\<close>

abbreviation AgentModeTask :: string where "AgentModeTask \<equiv> ''Task''"
abbreviation AgentModeService :: string where "AgentModeService \<equiv> ''Service''"
abbreviation AgentModeScheduled :: string where "AgentModeScheduled \<equiv> ''Scheduled''"
abbreviation ConcurrencyPolicyAllow :: string where "ConcurrencyPolicyAllow \<equiv> ''Allow''"
abbreviation ConcurrencyPolicyForbid :: string where "ConcurrencyPolicyForbid \<equiv> ''Forbid''"
abbreviation ResultSourceStdout :: string where "ResultSourceStdout \<equiv> ''Stdout''"
abbreviation ResultFormatLastLine :: string where "ResultFormatLastLine \<equiv> ''LastLine''"
abbreviation ResultFormatKontextEnvelope :: string where
  "ResultFormatKontextEnvelope \<equiv> ''KontextEnvelope''"

record schedule_spec =
  ss_expression :: string
  ss_time_zone :: string
  ss_concurrency_policy :: string
  ss_starting_deadline_seconds :: "int option"
  ss_suspend :: bool
  ss_successful_runs_history_limit :: "int option"
  ss_failed_runs_history_limit :: "int option"

record runtime_result_spec =
  rr_source :: string
  rr_format :: string

record seccomp_profile =
  sc_type :: string
  sc_localhost_profile :: string

record runtime_security_context =
  rsc_allow_privilege_escalation :: "bool option"
  rsc_read_only_root_filesystem :: "bool option"
  rsc_run_as_non_root :: "bool option"
  rsc_capabilities_drop :: "string list option"
  rsc_seccomp_profile :: "seccomp_profile option"

record runtime_spec =
  rt_image :: string
  rt_command :: "string list option"
  rt_args :: "string list option"
  rt_result :: "runtime_result_spec option"
  rt_delivery_port :: "int option"
  rt_security_context :: "runtime_security_context option"

definition empty_runtime :: runtime_spec where
  "empty_runtime = \<lparr>rt_image = [], rt_command = None, rt_args = None, rt_result = None,
     rt_delivery_port = None, rt_security_context = None\<rparr>"

record budget_spec =
  b_tokens :: "int option"
  b_wallclock :: string
  b_dollars :: "rat option"

record secret_key_selector =
  sk_name :: string
  sk_key :: string

record env_var =
  ev_name :: string
  ev_value :: "string option"
  ev_value_from :: "secret_key_selector option"

record backoff_spec =
  bo_initial_seconds :: int
  bo_max_seconds :: int

record agent_spec =
  sp_mode :: string
  sp_runtime :: runtime_spec
  sp_goal :: string
  sp_goal_template :: string
  sp_provider :: string
  sp_model :: string
  sp_tools :: "string list option"
  sp_budget :: "budget_spec option"
  sp_secret_ref :: "string option"
  sp_knowledge_config_map_ref :: "string option"
  sp_service_account_name :: string
  sp_env :: "env_var list option"
  sp_schedule :: "schedule_spec option"
  sp_backoff :: "backoff_spec option"

record agent_status =
  as_conditions :: "condition list"
  as_current_run_name :: string
  as_last_run_name :: string
  as_runs_created :: int
  as_restarts :: int
  as_last_schedule_time :: "time option"
  as_next_schedule_time :: "time option"
  as_observed_generation :: int

definition empty_agent_status :: agent_status where
  "empty_agent_status = \<lparr>as_conditions = [], as_current_run_name = [], as_last_run_name = [],
     as_runs_created = 0, as_restarts = 0, as_last_schedule_time = None,
     as_next_schedule_time = None, as_observed_generation = 0\<rparr>"

record agent =
  ag_meta :: object_meta
  ag_spec :: agent_spec
  ag_status :: agent_status

subsection \<open>The AgentRun resource\<close>

abbreviation AgentRunPhasePending :: string where "AgentRunPhasePending \<equiv> ''Pending''"
abbreviation AgentRunPhaseRunning :: string where "AgentRunPhaseRunning \<equiv> ''Running''"
abbreviation AgentRunPhaseSucceeded :: string where "AgentRunPhaseSucceeded \<equiv> ''Succeeded''"
abbreviation AgentRunPhaseFailed :: string where "AgentRunPhaseFailed \<equiv> ''Failed''"
abbreviation AgentRunPhaseBudgetExceeded :: string where
  "AgentRunPhaseBudgetExceeded \<equiv> ''BudgetExceeded''"

definition is_terminal :: "string \<Rightarrow> bool" where
  "is_terminal p \<longleftrightarrow>
     p = AgentRunPhaseSucceeded \<or> p = AgentRunPhaseFailed \<or> p = AgentRunPhaseBudgetExceeded"

record agent_run_spec =
  rp_agent_ref :: "string option"
  rp_parameters :: "string go_map option"
  rp_delivery_port :: "int option"
  rp_goal :: string
  rp_provider :: string
  rp_model :: string
  rp_tools :: "string list option"
  rp_budget :: "budget_spec option"
  rp_secret_ref :: "string option"
  rp_knowledge_config_map_ref :: "string option"
  rp_service_account_name :: string
  rp_runtime :: runtime_spec
  rp_env :: "env_var list option"

record output_status =
  os_media_type :: string
  os_value :: string

record usage_status =
  us_tokens :: "int option"
  us_input_tokens :: "int option"
  us_output_tokens :: "int option"
  us_dollars :: "rat option"

record agent_run_status =
  rs_phase :: string
  rs_pod_name :: string
  rs_result :: string
  rs_output :: "output_status option"
  rs_usage :: "usage_status option"
  rs_start_time :: "time option"
  rs_completion_time :: "time option"
  rs_message :: string
  rs_conditions :: "condition list"

definition empty_run_status :: agent_run_status where
  "empty_run_status = \<lparr>rs_phase = [], rs_pod_name = [], rs_result = [], rs_output = None,
     rs_usage = None, rs_start_time = None, rs_completion_time = None, rs_message = [],
     rs_conditions = []\<rparr>"

record agent_run =
  ar_type_meta :: type_meta
  ar_meta :: object_meta
  ar_spec :: agent_run_spec
  ar_status :: agent_run_status

subsection \<open>Pods and Secrets\<close>

record k8s_security_context =
  ks_run_as_user :: "int option"
  ks_run_as_non_root :: "bool option"
  ks_allow_privilege_escalation :: "bool option"
  ks_read_only_root_filesystem :: "bool option"
  ks_capabilities_drop :: "string list option"
  ks_seccomp :: "(string \<times> string option) option"

record k8s_env_var =
  ke_name :: string
  ke_value :: string
  ke_secret_key_ref :: "secret_key_selector option"

record volume_mount =
  vm_name :: string
  vm_mount_path :: string
  vm_sub_path :: string
  vm_read_only :: bool

datatype volume_source = ConfigMapSource string | EmptyDirSource

record volume =
  vol_name :: string
  vol_source :: volume_source

record container =
  ct_name :: string
  ct_image :: string
  ct_image_pull_policy :: string
  ct_command :: "string list"
  ct_args :: "string list"
  ct_env :: "k8s_env_var list"
  ct_volume_mounts :: "volume_mount list"
  ct_security_context :: "k8s_security_context option"
  ct_requests :: "string go_map"
  ct_limits :: "string go_map"

record pod_spec =
  ps_restart_policy :: string
  ps_init_containers :: "container list"
  ps_containers :: "container list"
  ps_volumes :: "volume list"
  ps_service_account_name :: string

record container_state =
  st_waiting :: "(string \<times> string) option"
  st_running :: "time option"
  st_terminated :: "(int \<times> string) option"

record container_status =
  cs_name :: string
  cs_ready :: bool
  cs_state :: container_state

record pod_status =
  pst_phase :: string
  pst_pod_ip :: string
  pst_conditions :: "(string \<times> string) list"
  pst_container_statuses :: "container_status list"

record pod =
  pod_meta :: object_meta
  pod_spec_of :: pod_spec
  pod_status_of :: pod_status

record secret =
  sec_meta :: object_meta
  sec_immutable :: bool
  sec_type :: string
  sec_data :: "string go_map"

subsection \<open>Shorthands\<close>

abbreviation agent_name :: "agent \<Rightarrow> string" where "agent_name a \<equiv> m_name (ag_meta a)"
abbreviation agent_namespace :: "agent \<Rightarrow> string" where
  "agent_namespace a \<equiv> m_namespace (ag_meta a)"
abbreviation run_name :: "agent_run \<Rightarrow> string" where "run_name r \<equiv> m_name (ar_meta r)"
abbreviation run_namespace :: "agent_run \<Rightarrow> string" where
  "run_namespace r \<equiv> m_namespace (ar_meta r)"
abbreviation run_phase :: "agent_run \<Rightarrow> string" where "run_phase r \<equiv> rs_phase (ar_status r)"

definition slice :: "'a list option \<Rightarrow> 'a list" where
  "slice xs = (case xs of None \<Rightarrow> [] | Some ys \<Rightarrow> ys)"

lemma slice_simps [simp]: "slice None = []" "slice (Some xs) = xs"
  by (simp_all add: slice_def)

lemma is_terminal_simps [simp]:
  "is_terminal AgentRunPhaseSucceeded" "is_terminal AgentRunPhaseFailed"
  "is_terminal AgentRunPhaseBudgetExceeded" "\<not> is_terminal AgentRunPhasePending"
  "\<not> is_terminal AgentRunPhaseRunning" "\<not> is_terminal []"
  by (simp_all add: is_terminal_def)

subsection \<open>Sample objects for the witnesses\<close>

definition sample_meta :: "string \<Rightarrow> string \<Rightarrow> object_meta" where
  "sample_meta n uid = empty_meta\<lparr>m_name := n, m_namespace := ''default'', m_uid := uid, m_generation := 1\<rparr>"

definition sample_runtime :: runtime_spec where
  "sample_runtime = empty_runtime\<lparr>rt_image := ''kontext/echo'', rt_command := Some [''/echo'']\<rparr>"

definition sample_agent_spec :: "string \<Rightarrow> agent_spec" where
  "sample_agent_spec mode = \<lparr>sp_mode = mode, sp_runtime = sample_runtime, sp_goal = ''review'',
     sp_goal_template = [], sp_provider = '' Echo '', sp_model = ''m1'', sp_tools = None, sp_budget = None,
     sp_secret_ref = None, sp_knowledge_config_map_ref = None, sp_service_account_name = [],
     sp_env = None, sp_schedule = None, sp_backoff = None\<rparr>"

definition sample_agent :: "string \<Rightarrow> agent" where
  "sample_agent mode = \<lparr>ag_meta = sample_meta ''docs'' ''uid-agent'', ag_spec = sample_agent_spec mode,
     ag_status = empty_agent_status\<rparr>"

definition sample_run_spec :: agent_run_spec where
  "sample_run_spec = \<lparr>rp_agent_ref = Some ''docs'', rp_parameters = None, rp_delivery_port = None,
     rp_goal = ''review'', rp_provider = ''anthropic'', rp_model = ''m1'', rp_tools = None, rp_budget = None,
     rp_secret_ref = None, rp_knowledge_config_map_ref = None, rp_service_account_name = [],
     rp_runtime = sample_runtime,
     rp_env = Some [\<lparr>ev_name = ''LOG_LEVEL'', ev_value = Some ''debug'', ev_value_from = None\<rparr>]\<rparr>"

definition sample_run :: agent_run where
  "sample_run = \<lparr>ar_type_meta = \<lparr>tm_kind = ''AgentRun'', tm_api_version = ''kontext.dev/v1alpha1''\<rparr>,
     ar_meta = sample_meta ''docs-1'' ''uid-run'', ar_spec = sample_run_spec, ar_status = empty_run_status\<rparr>"

lemmas sample_defs = sample_meta_def sample_runtime_def sample_agent_spec_def sample_agent_def
  sample_run_spec_def sample_run_def empty_meta_def empty_runtime_def empty_agent_status_def
  empty_run_status_def

end
