(* ===== verification/Runtime_Policy.thy ===== *)
theory Runtime_Policy
  imports Api_Types
begin

text \<open>
  Provider policy of \<^verbatim>\<open>internal/runtimepolicy/provider.go\<close>: canonical provider names, which
  providers need credentials, and how credentials reach the runtime Pod.
\<close>

record credential_spec =
  cr_env_var_name :: string
  cr_secret_key :: string

record provider_definition =
  pd_keyless :: bool
  pd_default_secret_name :: string
  pd_credentials :: "credential_spec list"

definition DefaultProvider :: string where
  "DefaultProvider = ''anthropic''"

definition credential :: "string \<Rightarrow> credential_spec" where
  "credential n = \<lparr>cr_env_var_name = n, cr_secret_key = n\<rparr>"

definition keyed :: "string \<Rightarrow> string list \<Rightarrow> provider_definition" where
  "keyed secret names = \<lparr>pd_keyless = False, pd_default_secret_name = secret,
     pd_credentials = map credential names\<rparr>"

definition keyless_provider :: provider_definition where
  "keyless_provider = \<lparr>pd_keyless = True, pd_default_secret_name = [], pd_credentials = []\<rparr>"

definition providerDefinitions :: "provider_definition go_map" where
  "providerDefinitions =
     [(''anthropic'', keyed ''kontext-anthropic'' [''ANTHROPIC_API_KEY'']),
      (''openai'', keyed ''kontext-openai'' [''OPENAI_API_KEY'']),
      (''openai-compatible'', keyed ''kontext-openai'' [''OPENAI_API_KEY'']),
      (''google'', keyed ''kontext-google'' [''GOOGLE_API_KEY'']),
      (''gemini'', keyed ''kontext-google'' [''GOOGLE_API_KEY'']),
      (''azure'', keyed ''kontext-azure-openai'' [''AZURE_OPENAI_API_KEY'', ''AZURE_OPENAI_ENDPOINT'']),
      (''azure-openai'', keyed ''kontext-azure-openai'' [''AZURE_OPENAI_API_KEY'', ''AZURE_OPENAI_ENDPOINT'']),
      (''mistral'', keyed ''kontext-mistral'' [''MISTRAL_API_KEY'']),
      (''groq'', keyed ''kontext-groq'' [''GROQ_API_KEY'']),
      (''cohere'', keyed ''kontext-cohere'' [''COHERE_API_KEY'']),
      (''bedrock'', keyed ''kontext-bedrock'' [''AWS_ACCESS_KEY_ID'', ''AWS_SECRET_ACCESS_KEY'']),
      (''fake'', keyless_provider),
      (''replay'', keyless_provider),
      (''echo'', keyless_provider),
      (''deterministic'', keyless_provider)]"

definition NormalizeProvider :: "golib \<Rightarrow> string \<Rightarrow> string" where
  "NormalizeProvider L provider =
     (let p = to_lower L (trim_space provider) in if p = [] then DefaultProvider else p)"

definition NeedsAPIKey :: "golib \<Rightarrow> string \<Rightarrow> bool" where
  "NeedsAPIKey L provider =
     (case map_of providerDefinitions (NormalizeProvider L provider) of
        None \<Rightarrow> True
      | Some def \<Rightarrow> \<not> pd_keyless def)"

definition Credentials :: "golib \<Rightarrow> string \<Rightarrow> credential_spec list" where
  "Credentials L provider =
     (let normalized = NormalizeProvider L provider in
      case map_of providerDefinitions normalized of
        None \<Rightarrow>
          [credential (to_upper L (map (\<lambda>c. if c = CHR ''-'' then CHR ''_'' else c) normalized) @ ''_API_KEY'')]
      | Some def \<Rightarrow> if pd_keyless def then [] else pd_credentials def)"

definition SecretName :: "golib \<Rightarrow> string \<Rightarrow> string option \<Rightarrow> string" where
  "SecretName L provider secretRef =
     (case secretRef of
        Some n \<Rightarrow> if n \<noteq> [] then n
                  else (case map_of providerDefinitions (NormalizeProvider L provider) of
                          Some def \<Rightarrow> pd_default_secret_name def
                        | None \<Rightarrow> ''kontext-'' @ NormalizeProvider L provider)
      | None \<Rightarrow> (case map_of providerDefinitions (NormalizeProvider L provider) of
                   Some def \<Rightarrow> pd_default_secret_name def
                 | None \<Rightarrow> ''kontext-'' @ NormalizeProvider L provider))"

subsection \<open>Lemmas\<close>

lemma NormalizeProvider_nonempty: "NormalizeProvider L p \<noteq> []"
  by (auto simp: NormalizeProvider_def Let_def DefaultProvider_def)

text \<open>A provider needs an API key exactly when it has credentials to wire.\<close>

lemma NeedsAPIKey_iff_Credentials: "NeedsAPIKey L p \<longleftrightarrow> Credentials L p \<noteq> []"
proof -
  have "\<And>n d. map_of providerDefinitions n = Some d \<Longrightarrow> pd_keyless d \<or> pd_credentials d \<noteq> []"
    by (auto simp: providerDefinitions_def keyed_def keyless_provider_def split: if_splits)
  then show ?thesis
    by (auto simp: NeedsAPIKey_def Credentials_def Let_def split: option.splits)
qed

lemma credential_names_known:
  assumes "map_of providerDefinitions n = Some d"
  shows "distinct (map cr_env_var_name (pd_credentials d))"
    and "\<forall>c \<in> set (pd_credentials d). \<not> has_prefix (cr_env_var_name c) ''KONTEXT_''"
  using assms
  by (auto simp: providerDefinitions_def keyed_def keyless_provider_def credential_def split: if_splits)

lemma Credentials_distinct: "distinct (map cr_env_var_name (Credentials L p))"
  by (auto simp: Credentials_def Let_def credential_names_known split: option.splits)

text \<open>
  No credential variable has the name of one of the variables whose names neither end in
  \<^verbatim>\<open>_API_KEY\<close> nor are among the known provider variables.
\<close>

lemma Credentials_names:
  assumes "c \<in> set (Credentials L p)" "has_prefix x ''KONTEXT_''" "\<not> has_suffix x ''_API_KEY''"
  shows "cr_env_var_name c \<noteq> x"
proof (cases "map_of providerDefinitions (NormalizeProvider L p)")
  case None
  with assms(1) have "has_suffix (cr_env_var_name c) ''_API_KEY''"
    by (auto simp: Credentials_def Let_def credential_def has_suffix_def)
  with assms(3) show ?thesis by auto
next
  case (Some d)
  with assms(1) have "c \<in> set (pd_credentials d)"
    by (auto simp: Credentials_def Let_def split: if_splits)
  with credential_names_known(2)[OF Some] assms(2) show ?thesis by auto
qed

end
