(* ===== verification/Pod_Builder.thy ===== *)
theory Pod_Builder
  imports Runtime_Policy
begin

text \<open>
  \<^verbatim>\<open>internal/podbuilder/podbuilder.go\<close>: the Pod an AgentRun is executed in.  The definitions
  follow the file: the Pod itself, the security context, the injected reporter, the environment,
  the knowledge volume and the Pod's name.  The lemmas show that a Pod name is a DNS label of at
  most 63 bytes, that user variables can neither replace nor repeat a variable the controller
  manages, and that result capture keeps the user's command and arguments in order.

  \<^verbatim>\<open>fmt.Sprintf("%g")\<close> on the dollar budget is the parameter \<open>show_float\<close>; resource quantities
  are kept as the text they are parsed from.
\<close>

abbreviation LabelRunName :: string where "LabelRunName \<equiv> ''kontext.dev/run''"
abbreviation LabelAgentName :: string where "LabelAgentName \<equiv> ''kontext.dev/agent''"
abbreviation RuntimeContainerName :: string where "RuntimeContainerName \<equiv> ''runtime''"
abbreviation ReporterInitContainerName :: string where "ReporterInitContainerName \<equiv> ''inject-reporter''"
abbreviation ReporterVolumeName :: string where "ReporterVolumeName \<equiv> ''kontext-reporter-bin''"
abbreviation ReporterMountPath :: string where "ReporterMountPath \<equiv> ''/kontext/bin''"
abbreviation ReporterBinaryName :: string where "ReporterBinaryName \<equiv> ''kontext-reporter''"
abbreviation ReporterBinaryPath :: string where "ReporterBinaryPath \<equiv> ''/kontext/bin/kontext-reporter''"
abbreviation reporterImageBinaryPath :: string where "reporterImageBinaryPath \<equiv> ''/kontext-reporter''"
abbreviation reporterInstallFlag :: string where "reporterInstallFlag \<equiv> ''--install-to''"
abbreviation podNamePrefix :: string where "podNamePrefix \<equiv> ''run-''"
abbreviation maxPodNameLength :: nat where "maxPodNameLength \<equiv> 63"
abbreviation maxUnhashedRunNameLength :: nat where "maxUnhashedRunNameLength \<equiv> 56"
abbreviation truncatedRunNameHashChars :: nat where "truncatedRunNameHashChars \<equiv> 8"
abbreviation TokenEnvName :: string where "TokenEnvName \<equiv> ''KONTEXT_DELIVERY_TOKEN''"
abbreviation TokenSecretKey :: string where "TokenSecretKey \<equiv> ''token''"

record builder_config =
  bc_reporter_image :: string
  bc_delivery_credential_secret :: string

subsection \<open>Names\<close>

definition valid_name_char :: "char \<Rightarrow> bool" where
  "valid_name_char c \<longleftrightarrow> 97 \<le> (of_char c :: nat) \<and> (of_char c :: nat) \<le> 122 \<or> is_digit c \<or> c = CHR ''-''"

text \<open>The replacement by \<^verbatim>\<open>[^a-z0-9-]+\<close>: each maximal run of other bytes becomes one dash.\<close>

fun replace_invalid :: "bool \<Rightarrow> string \<Rightarrow> string" where
  "replace_invalid in_run [] = []"
| "replace_invalid in_run (c # cs) =
     (if valid_name_char c then c # replace_invalid False cs
      else if in_run then replace_invalid True cs
      else CHR ''-'' # replace_invalid True cs)"

definition sanitizedRunName :: "golib \<Rightarrow> string \<Rightarrow> string" where
  "sanitizedRunName L runName =
     (let safe = trim_char (CHR ''-'') (replace_invalid False (to_lower L runName))
      in if safe = [] then ''run'' else safe)"

definition PodNameForRun :: "golib \<Rightarrow> string \<Rightarrow> string" where
  "PodNameForRun L runName =
     (let safe = sanitizedRunName L runName in
      if length safe \<le> maxUnhashedRunNameLength then podNamePrefix @ safe
      else let hash = take truncatedRunNameHashChars (sha256_hex L runName);
               prefixLength = maxPodNameLength - length podNamePrefix - 1 - length hash;
               pre = trim_right_char (CHR ''-'') (take prefixLength safe)
           in podNamePrefix @ pre @ ''-'' @ hash)"

definition LegacyPodNameForRun :: "golib \<Rightarrow> string \<Rightarrow> string" where
  "LegacyPodNameForRun L runName =
     (let safe = sanitizedRunName L runName;
          cut = (if length safe > maxUnhashedRunNameLength then take maxUnhashedRunNameLength safe else safe);
          trimmed = trim_char (CHR ''-'') cut
      in podNamePrefix @ (if trimmed = [] then ''run'' else trimmed))"

subsection \<open>Environment\<close>

definition agentName :: "agent_run \<Rightarrow> string" where
  "agentName run =
     (case rp_agent_ref (ar_spec run) of
        Some n \<Rightarrow> if n \<noteq> [] then n else run_name run
      | None \<Rightarrow> run_name run)"

definition budgetTokens :: "budget_spec option \<Rightarrow> string" where
  "budgetTokens budget =
     (case budget of None \<Rightarrow> [] | Some b \<Rightarrow> (case b_tokens b of None \<Rightarrow> [] | Some n \<Rightarrow> show_int n))"

definition budgetWallclock :: "budget_spec option \<Rightarrow> string" where
  "budgetWallclock budget = (case budget of None \<Rightarrow> [] | Some b \<Rightarrow> b_wallclock b)"

definition budgetDollars :: "(rat \<Rightarrow> string) \<Rightarrow> budget_spec option \<Rightarrow> string" where
  "budgetDollars show_float budget =
     (case budget of None \<Rightarrow> [] | Some b \<Rightarrow> (case b_dollars b of None \<Rightarrow> [] | Some d \<Rightarrow> show_float d))"

definition plain_env :: "string \<Rightarrow> string \<Rightarrow> k8s_env_var" where
  "plain_env n v = \<lparr>ke_name = n, ke_value = v, ke_secret_key_ref = None\<rparr>"

definition secret_env :: "string \<Rightarrow> string \<Rightarrow> string \<Rightarrow> k8s_env_var" where
  "secret_env n secret key =
     \<lparr>ke_name = n, ke_value = [], ke_secret_key_ref = Some \<lparr>sk_name = secret, sk_key = key\<rparr>\<rparr>"

definition base_env :: "golib \<Rightarrow> (rat \<Rightarrow> string) \<Rightarrow> agent_run \<Rightarrow> k8s_env_var list" where
  "base_env L show_float run =
     (let spec = ar_spec run; budget = rp_budget spec in
      [plain_env ''KONTEXT_RUN_NAME'' (run_name run),
       plain_env ''KONTEXT_AGENT_NAME'' (agentName run),
       plain_env ''KONTEXT_GOAL'' (rp_goal spec),
       plain_env ''KONTEXT_PROVIDER'' (NormalizeProvider L (rp_provider spec)),
       plain_env ''KONTEXT_MODEL'' (rp_model spec),
       plain_env ''KONTEXT_TOOLS'' (join_strings (slice (rp_tools spec)) '',''),
       plain_env ''KONTEXT_BUDGET_TOKENS'' (budgetTokens budget),
       plain_env ''KONTEXT_BUDGET_WALLCLOCK'' (budgetWallclock budget),
       plain_env ''KONTEXT_BUDGET_DOLLARS'' (budgetDollars show_float budget)])"

definition extra_env :: "env_var \<Rightarrow> k8s_env_var" where
  "extra_env e = \<lparr>ke_name = ev_name e,
     ke_value = (case ev_value e of None \<Rightarrow> [] | Some v \<Rightarrow> v),
     ke_secret_key_ref = ev_value_from e\<rparr>"

fun add_extras ::
  "golib \<Rightarrow> string list \<Rightarrow> k8s_env_var list \<Rightarrow> env_var list \<Rightarrow> k8s_env_var list go_result" where
  "add_extras L reserved env [] = Inr env"
| "add_extras L reserved env (e # es) =
     (if ev_name e \<in> set reserved
      then Inl (''spec.env cannot override controller-managed variable '' @ quote L (ev_name e))
      else add_extras L reserved (env @ [extra_env e]) es)"

definition buildEnv :: "golib \<Rightarrow> (rat \<Rightarrow> string) \<Rightarrow> agent_run \<Rightarrow> k8s_env_var list go_result" where
  "buildEnv L show_float run =
     (let spec = ar_spec run;
          provider = NormalizeProvider L (rp_provider spec);
          env = base_env L show_float run;
          reserved = map ke_name env @ map cr_env_var_name (Credentials L provider) @ [TokenEnvName]
      in case add_extras L reserved env (slice (rp_env spec)) of
           Inl e \<Rightarrow> Inl e
         | Inr env' \<Rightarrow>
             Inr (if NeedsAPIKey L provider
                  then env' @ map (\<lambda>c. secret_env (cr_env_var_name c)
                                     (SecretName L provider (rp_secret_ref spec)) (cr_secret_key c))
                                 (Credentials L provider)
                  else env'))"

subsection \<open>Volumes, security context and reporter\<close>

definition buildKnowledgeVolumes :: "agent_run \<Rightarrow> volume list \<times> volume_mount list" where
  "buildKnowledgeVolumes run =
     (case rp_knowledge_config_map_ref (ar_spec run) of
        None \<Rightarrow> ([], [])
      | Some n \<Rightarrow>
          if n = [] then ([], [])
          else ([\<lparr>vol_name = ''kontext-knowledge'', vol_source = ConfigMapSource n\<rparr>],
                [\<lparr>vm_name = ''kontext-knowledge'', vm_mount_path = ''/kontext/knowledge'',
                  vm_sub_path = [], vm_read_only = True\<rparr>]))"

definition runtimeSecurityContext ::
  "runtime_security_context option \<Rightarrow> k8s_security_context option" where
  "runtimeSecurityContext config =
     map_option (\<lambda>c. \<lparr>ks_run_as_user = None,
       ks_run_as_non_root = rsc_run_as_non_root c,
       ks_allow_privilege_escalation = rsc_allow_privilege_escalation c,
       ks_read_only_root_filesystem = rsc_read_only_root_filesystem c,
       ks_capabilities_drop = rsc_capabilities_drop c,
       ks_seccomp = map_option (\<lambda>p. (sc_type p,
         if sc_localhost_profile p = [] then None else Some (sc_localhost_profile p)))
         (rsc_seccomp_profile c)\<rparr>) config"

definition reporterFormat :: "golib \<Rightarrow> string \<Rightarrow> string go_result" where
  "reporterFormat L format =
     (if format = ResultFormatLastLine then Inr ''last-line''
      else if format = ResultFormatKontextEnvelope then Inr ''kontext-envelope''
      else Inl (''unsupported runtime result format '' @ quote L format))"

definition reporter_init_container :: "builder_config \<Rightarrow> container" where
  "reporter_init_container config =
     \<lparr>ct_name = ReporterInitContainerName, ct_image = bc_reporter_image config,
      ct_image_pull_policy = ''IfNotPresent'',
      ct_command = [reporterImageBinaryPath],
      ct_args = [reporterInstallFlag, ReporterBinaryPath], ct_env = [],
      ct_volume_mounts = [\<lparr>vm_name = ReporterVolumeName, vm_mount_path = ReporterMountPath,
         vm_sub_path = [], vm_read_only = False\<rparr>],
      ct_security_context = Some \<lparr>ks_run_as_user = Some 0, ks_run_as_non_root = Some False,
         ks_allow_privilege_escalation = Some False, ks_read_only_root_filesystem = Some True,
         ks_capabilities_drop = Some [''ALL''], ks_seccomp = None\<rparr>,
      ct_requests = [], ct_limits = []\<rparr>"

definition injectReporter ::
  "golib \<Rightarrow> agent_run \<Rightarrow> builder_config \<Rightarrow> runtime_result_spec \<Rightarrow> container \<Rightarrow> volume list \<Rightarrow>
   (container \<times> container list \<times> volume list) go_result" where
  "injectReporter L run config res container volumes =
     (let command = slice (rt_command (rp_runtime (ar_spec run)));
          args = slice (rt_args (rp_runtime (ar_spec run))) in
      if rr_source res \<noteq> ResultSourceStdout
      then Inl (''unsupported runtime result source '' @ quote L (rr_source res))
      else if command = [] then Inl ''runtime command is required for stdout result capture''
      else if trim_space (hd command) = [] then Inl ''runtime command executable cannot be empty''
      else if trim_space (bc_reporter_image config) = [] then Inl ''reporter image is not configured''
      else case reporterFormat L (rr_format res) of
             Inl e \<Rightarrow> Inl e
           | Inr format \<Rightarrow>
               Inr (container\<lparr>
                      ct_command := [ReporterBinaryPath, ''--format'', format, ''--''] @ command @ args,
                      ct_args := [],
                      ct_volume_mounts := ct_volume_mounts container @
                        [\<lparr>vm_name = ReporterVolumeName, vm_mount_path = ReporterBinaryPath,
                          vm_sub_path = ReporterBinaryName, vm_read_only = True\<rparr>]\<rparr>,
                    [reporter_init_container config],
                    volumes @ [\<lparr>vol_name = ReporterVolumeName, vol_source = EmptyDirSource\<rparr>]))"

subsection \<open>The Pod\<close>

definition pod_labels :: "agent_run \<Rightarrow> string go_map" where
  "pod_labels run =
     (let labels = [(''app.kubernetes.io/name'', ''kontext-agentrun''),
                    (LabelRunName, run_name run),
                    (''app.kubernetes.io/component'', ''runtime'')]
      in case rp_agent_ref (ar_spec run) of
           Some n \<Rightarrow> if n \<noteq> [] then map_put LabelAgentName n labels else labels
         | None \<Rightarrow> labels)"

definition runtime_container :: "agent_run \<Rightarrow> k8s_env_var list \<Rightarrow> volume_mount list \<Rightarrow> container" where
  "runtime_container run env mounts =
     (let rt = rp_runtime (ar_spec run) in
      \<lparr>ct_name = RuntimeContainerName, ct_image = rt_image rt,
       ct_image_pull_policy = ''IfNotPresent'',
       ct_command = slice (rt_command rt), ct_args = slice (rt_args rt),
       ct_env = env, ct_volume_mounts = mounts,
       ct_security_context = runtimeSecurityContext (rt_security_context rt),
       ct_requests = [(''cpu'', ''50m''), (''memory'', ''64Mi'')],
       ct_limits = [(''cpu'', ''500m''), (''memory'', ''256Mi'')]\<rparr>)"

definition assemble_pod ::
  "golib \<Rightarrow> agent_run \<Rightarrow> container \<Rightarrow> container list \<Rightarrow> volume list \<Rightarrow> pod" where
  "assemble_pod L run container initContainers volumes =
     \<lparr>pod_meta = empty_meta\<lparr>m_name := PodNameForRun L (run_name run),
        m_namespace := run_namespace run, m_labels := pod_labels run\<rparr>,
      pod_spec_of = \<lparr>ps_restart_policy = ''Never'', ps_init_containers = initContainers,
        ps_containers = [container], ps_volumes = volumes,
        ps_service_account_name = rp_service_account_name (ar_spec run)\<rparr>,
      pod_status_of = \<lparr>pst_phase = [], pst_pod_ip = [], pst_conditions = [],
        pst_container_statuses = []\<rparr>\<rparr>"

definition BuildPodWithConfig ::
  "golib \<Rightarrow> (rat \<Rightarrow> string) \<Rightarrow> agent_run \<Rightarrow> builder_config \<Rightarrow> pod go_result" where
  "BuildPodWithConfig L show_float run config =
     (case buildEnv L show_float run of
        Inl e \<Rightarrow> Inl e
      | Inr env0 \<Rightarrow>
          (let env = (if bc_delivery_credential_secret config \<noteq> []
                      then env0 @ [secret_env TokenEnvName (bc_delivery_credential_secret config) TokenSecretKey]
                      else env0);
               (volumes, mounts) = buildKnowledgeVolumes run;
               container = runtime_container run env mounts
           in case rt_result (rp_runtime (ar_spec run)) of
                None \<Rightarrow> Inr (assemble_pod L run container [] volumes)
              | Some res \<Rightarrow>
                  (case injectReporter L run config res container volumes of
                     Inl e \<Rightarrow> Inl e
                   | Inr (container', inits, volumes') \<Rightarrow>
                       Inr (assemble_pod L run container' inits volumes'))))"


subsection \<open>Pod names are DNS labels\<close>

definition hex_char :: "char \<Rightarrow> bool" where
  "hex_char c \<longleftrightarrow> is_digit c \<or> 97 \<le> (of_char c :: nat) \<and> (of_char c :: nat) \<le> 102"

text \<open>What the code relies on of SHA-256: its hexadecimal form has 64 lower-case digits.\<close>

definition hex_digest_ok :: "golib \<Rightarrow> bool" where
  "hex_digest_ok L \<longleftrightarrow> (\<forall>s. length (sha256_hex L s) = 64 \<and> list_all hex_char (sha256_hex L s))"

definition dns_label :: "string \<Rightarrow> bool" where
  "dns_label s \<longleftrightarrow> s \<noteq> [] \<and> length s \<le> 63 \<and> list_all valid_name_char s \<and>
     hd s \<noteq> CHR ''-'' \<and> last s \<noteq> CHR ''-''"

lemma hex_char_valid: "hex_char c \<Longrightarrow> valid_name_char c \<and> c \<noteq> CHR ''-''"
  by (auto simp: hex_char_def valid_name_char_def is_digit_def)

lemma valid_name_dash [simp]: "valid_name_char (CHR ''-'')"
  by (simp add: valid_name_char_def)

lemma replace_invalid_valid: "list_all valid_name_char (replace_invalid b s)"
  by (induction b s rule: replace_invalid.induct) auto

lemma list_all_trim_char: "list_all P s \<Longrightarrow> list_all P (trim_char c s)"
  by (auto simp: list_all_iff trim_char_def dest!: subsetD [OF set_trim_right_char] set_dropWhileD)

lemma list_all_trim_right: "list_all P s \<Longrightarrow> list_all P (trim_right_char c s)"
  by (auto simp: list_all_iff dest!: subsetD [OF set_trim_right_char])

lemma last_trim_char: "trim_char c s \<noteq> [] \<Longrightarrow> last (trim_char c s) \<noteq> c"
  using trim_right_char_last [of c "dropWhile (\<lambda>x. x = c) s"] by (simp add: trim_char_def)

lemma sanitizedRunName_ok:
  "list_all valid_name_char (sanitizedRunName L n) \<and> sanitizedRunName L n \<noteq> [] \<and>
   last (sanitizedRunName L n) \<noteq> CHR ''-''"
proof (cases "trim_char (CHR ''-'') (replace_invalid False (to_lower L n)) = []")
  case True
  then show ?thesis by (simp add: sanitizedRunName_def Let_def valid_name_char_def)
next
  case False
  then show ?thesis
    by (simp add: sanitizedRunName_def Let_def last_trim_char list_all_trim_char replace_invalid_valid)
qed

lemma dns_label_prefixed:
  assumes "list_all valid_name_char s" "s \<noteq> []" "last s \<noteq> CHR ''-''" "length s \<le> 59"
  shows "dns_label (podNamePrefix @ s)"
  using assms by (auto simp: dns_label_def valid_name_char_def)

lemma pod_name_hash_part:
  fixes n :: string
  assumes "hex_digest_ok L"
  defines "h \<equiv> take truncatedRunNameHashChars (sha256_hex L n)"
  shows "length h = 8" "list_all valid_name_char h" "h \<noteq> []" "last h \<noteq> CHR ''-''"
proof -
  have len: "length (sha256_hex L n) = 64" and hex: "list_all hex_char (sha256_hex L n)"
    using assms(1) by (auto simp: hex_digest_ok_def)
  show "length h = 8" "h \<noteq> []" using len by (auto simp: h_def)
  have all: "list_all hex_char h"
    using hex by (auto simp: h_def list_all_iff dest: in_set_takeD)
  then show "list_all valid_name_char h" by (auto simp: list_all_iff dest: hex_char_valid)
  have "last h \<in> set h" using \<open>h \<noteq> []\<close> by simp
  with all show "last h \<noteq> CHR ''-''" by (auto simp: list_all_iff dest: hex_char_valid)
qed

lemma PodNameForRun_cases:
  obtains (short) "PodNameForRun L n = podNamePrefix @ sanitizedRunName L n"
      "length (sanitizedRunName L n) \<le> maxUnhashedRunNameLength"
  | (hashed) "PodNameForRun L n = podNamePrefix @
        trim_right_char (CHR ''-'') (take (58 - length (take truncatedRunNameHashChars (sha256_hex L n)))
          (sanitizedRunName L n)) @ ''-'' @ take truncatedRunNameHashChars (sha256_hex L n)"
  by (cases "length (sanitizedRunName L n) \<le> maxUnhashedRunNameLength")
     (auto simp: PodNameForRun_def Let_def)

text \<open>
  The Pod created for an AgentRun always has a valid DNS label as its name, whatever the run is
  called: 1 to 63 bytes of lower-case letters, digits and dashes that neither starts nor ends with
  a dash.  The hypothesis is the shape of a SHA-256 digest in hexadecimal.
\<close>

theorem PodNameForRun_dns_label:
  assumes "hex_digest_ok L"
  shows "dns_label (PodNameForRun L n)"
proof (cases rule: PodNameForRun_cases [of L n])
  case short
  then show ?thesis using sanitizedRunName_ok [of L n]
    by (simp only: short(1)) (rule dns_label_prefixed, auto)
next
  case hashed
  let ?h = "take truncatedRunNameHashChars (sha256_hex L n)"
  let ?p = "trim_right_char (CHR ''-'') (take (58 - length ?h) (sanitizedRunName L n))"
  note h = pod_name_hash_part [OF assms, of n]
  have "length ?p \<le> 50"
    using length_trim_right_char [of "CHR ''-''" "take (58 - length ?h) (sanitizedRunName L n)"] h(1) by simp
  moreover have "list_all valid_name_char ?p"
    using sanitizedRunName_ok [of L n] by (auto simp: list_all_iff intro!: list_all_trim_right [unfolded list_all_iff] dest: in_set_takeD)
  ultimately show ?thesis
    using h by (simp only: hashed) (rule dns_label_prefixed, auto)
qed

definition zero_digest :: golib where
  "zero_digest = \<lparr>unicode_lower = id, unicode_upper = id, unicode_quote = id,
     sha256_hex = (\<lambda>_. replicate 64 (CHR ''0''))\<rparr>"

lemma zero_digest_ok: "hex_digest_ok zero_digest"
  by (simp add: hex_digest_ok_def zero_digest_def list_all_iff hex_char_def is_digit_def)

theorem PodNameForRun_dns_label_witness:
  "hex_digest_ok zero_digest \<and> dns_label (PodNameForRun zero_digest ''My.Run_1'')"
  using PodNameForRun_dns_label [OF zero_digest_ok, of "''My.Run_1''"] zero_digest_ok by simp

subsection \<open>Variables the controller manages\<close>

lemma add_extras_Inr:
  "add_extras L reserved env es = Inr env' \<longleftrightarrow>
     env' = env @ map extra_env es \<and> (\<forall>e \<in> set es. ev_name e \<notin> set reserved)"
  by (induction L reserved env es rule: add_extras.induct) auto

lemma base_env_names:
  "map ke_name (base_env L sf run) =
     [''KONTEXT_RUN_NAME'', ''KONTEXT_AGENT_NAME'', ''KONTEXT_GOAL'', ''KONTEXT_PROVIDER'', ''KONTEXT_MODEL'',
      ''KONTEXT_TOOLS'', ''KONTEXT_BUDGET_TOKENS'', ''KONTEXT_BUDGET_WALLCLOCK'', ''KONTEXT_BUDGET_DOLLARS'']"
  by (simp add: base_env_def plain_env_def Let_def)

lemma base_env_name_shape:
  "e \<in> set (base_env L sf run) \<Longrightarrow> has_prefix (ke_name e) ''KONTEXT_'' \<and>
     \<not> has_suffix (ke_name e) ''_API_KEY'' \<and> ke_name e \<noteq> TokenEnvName"
  by (auto simp: base_env_def plain_env_def Let_def has_suffix_def)

lemma filter_unique:
  "distinct (map f xs) \<Longrightarrow> x \<in> set xs \<Longrightarrow> filter (\<lambda>y. f y = f x) xs = [x]"
  by (induction xs) (auto simp: filter_empty_conv image_iff dest: sym)

lemma filter_none: "(\<And>y. y \<in> set xs \<Longrightarrow> f y \<noteq> v) \<Longrightarrow> filter (\<lambda>y. f y = v) xs = []"
  by (auto simp: filter_empty_conv)

definition credential_env :: "golib \<Rightarrow> agent_run \<Rightarrow> k8s_env_var list" where
  "credential_env L run =
     (let provider = NormalizeProvider L (rp_provider (ar_spec run)) in
      map (\<lambda>c. secret_env (cr_env_var_name c) (SecretName L provider (rp_secret_ref (ar_spec run)))
             (cr_secret_key c)) (Credentials L provider))"

lemma buildEnv_Inr:
  assumes "buildEnv L sf run = Inr env"
  shows "env = base_env L sf run @ map extra_env (slice (rp_env (ar_spec run))) @ credential_env L run"
    and "\<And>e. e \<in> set (slice (rp_env (ar_spec run))) \<Longrightarrow>
      ev_name e \<notin> ke_name ` set (base_env L sf run @ credential_env L run) \<and> ev_name e \<noteq> TokenEnvName"
  using assms NeedsAPIKey_iff_Credentials [of L "NormalizeProvider L (rp_provider (ar_spec run))"]
  by (auto simp: buildEnv_def Let_def add_extras_Inr credential_env_def secret_env_def image_iff
      split: sum.splits if_splits)

lemma credential_env_names:
  "distinct (map ke_name (credential_env L run))"
  "c \<in> set (credential_env L run) \<Longrightarrow> e \<in> set (base_env L sf run) \<Longrightarrow> ke_name c \<noteq> ke_name e"
  "c \<in> set (credential_env L run) \<Longrightarrow> ke_name c \<noteq> TokenEnvName"
proof -
  show "distinct (map ke_name (credential_env L run))"
    using Credentials_distinct by (simp add: credential_env_def secret_env_def comp_def Let_def)
  show "c \<in> set (credential_env L run) \<Longrightarrow> e \<in> set (base_env L sf run) \<Longrightarrow> ke_name c \<noteq> ke_name e"
    using base_env_name_shape [of e L sf run]
    by (auto simp: credential_env_def secret_env_def Let_def dest: Credentials_names)
  have "has_prefix TokenEnvName ''KONTEXT_''" "\<not> has_suffix TokenEnvName ''_API_KEY''"
    by (simp_all add: has_suffix_def)
  from Credentials_names [OF _ this]
  show "c \<in> set (credential_env L run) \<Longrightarrow> ke_name c \<noteq> TokenEnvName"
    by (auto simp: credential_env_def secret_env_def Let_def)
qed

text \<open>
  C30. When the environment of a runtime Pod can be built, every variable the controller manages
  (the nine run variables and the provider's credential variables) occurs in it exactly once and
  with the controller's value, and the delivery token variable does not occur: no entry of
  \<^verbatim>\<open>spec.env\<close> can replace, repeat or inject one of them.
\<close>

theorem buildEnv_managed_variables:
  assumes "buildEnv L sf run = Inr env"
  shows "(\<forall>e \<in> set (base_env L sf run @ credential_env L run).
            filter (\<lambda>x. ke_name x = ke_name e) env = [e]) \<and>
         TokenEnvName \<notin> ke_name ` set env"
proof (rule conjI)
  let ?b = "base_env L sf run" and ?c = "credential_env L run"
  let ?x = "map extra_env (slice (rp_env (ar_spec run)))"
  note env = buildEnv_Inr [OF assms]
  have x: "ke_name x \<notin> ke_name ` set (?b @ ?c) \<and> ke_name x \<noteq> TokenEnvName" if "x \<in> set ?x" for x
    using that env(2) by (force simp: extra_env_def)
  have b: "distinct (map ke_name ?b)" by (simp add: base_env_names)
  show "\<forall>e \<in> set (?b @ ?c). filter (\<lambda>x. ke_name x = ke_name e) env = [e]"
  proof
    fix e assume e: "e \<in> set (?b @ ?c)"
    have none: "filter (\<lambda>x. ke_name x = ke_name e) ?x = []"
      using x e by (intro filter_none) force
    show "filter (\<lambda>x. ke_name x = ke_name e) env = [e]"
    proof (cases "e \<in> set ?b")
      case True
      then show ?thesis using filter_unique [OF b] credential_env_names(2) none
        by (auto simp: env(1) intro!: filter_none)
    next
      case False
      with e have "e \<in> set ?c" by simp
      then show ?thesis using filter_unique [OF credential_env_names(1), of e] none
          credential_env_names(2) by (auto simp: env(1) intro!: filter_none) metis
    qed
  qed
  show "TokenEnvName \<notin> ke_name ` set env"
    using x base_env_name_shape [of _ L sf run] credential_env_names(3) [of _ L run]
    by (auto simp: env(1) image_iff) (metis | force)+
qed

theorem buildEnv_managed_variables_witness:
  "\<exists>env. buildEnv zero_digest (\<lambda>_. []) sample_run = Inr env \<and> length env = 11 \<and>
     (\<forall>e \<in> set (base_env zero_digest (\<lambda>_. []) sample_run @ credential_env zero_digest sample_run).
        filter (\<lambda>x. ke_name x = ke_name e) env = [e])"
proof -
  have "case buildEnv zero_digest (\<lambda>_. []) sample_run of Inl _ \<Rightarrow> False | Inr env \<Rightarrow> length env = 11"
    by code_simp
  then obtain env where "buildEnv zero_digest (\<lambda>_. []) sample_run = Inr env" "length env = 11"
    by (auto split: sum.splits)
  then show ?thesis using buildEnv_managed_variables [of zero_digest "\<lambda>_. []" sample_run env] by blast
qed

subsection \<open>Result capture\<close>

lemma injectReporter_Inr:
  assumes "injectReporter L run config res c vs = Inr (c', inits, vs')"
  shows "(\<exists>fmt. reporterFormat L (rr_format res) = Inr fmt \<and>
      ct_command c' = [ReporterBinaryPath, ''--format'', fmt, ''--''] @
        slice (rt_command (rp_runtime (ar_spec run))) @ slice (rt_args (rp_runtime (ar_spec run)))) \<and>
    ct_args c' = [] \<and> ct_image c' = ct_image c \<and> ct_name c' = ct_name c \<and>
    inits = [reporter_init_container config]"
  using assms by (auto simp: injectReporter_def Let_def split: if_splits sum.splits)

lemma BuildPod_runtime_container:
  assumes "BuildPodWithConfig L sf run config = Inr pod"
  shows "\<exists>c. ps_containers (pod_spec_of pod) = [c] \<and> ct_name c = RuntimeContainerName \<and>
    ct_image c = rt_image (rp_runtime (ar_spec run)) \<and>
    (case rt_result (rp_runtime (ar_spec run)) of
       None \<Rightarrow> ct_command c = slice (rt_command (rp_runtime (ar_spec run))) \<and>
               ct_args c = slice (rt_args (rp_runtime (ar_spec run))) \<and>
               ps_init_containers (pod_spec_of pod) = []
     | Some res \<Rightarrow> (\<exists>fmt. reporterFormat L (rr_format res) = Inr fmt \<and>
               ct_command c @ ct_args c = [ReporterBinaryPath, ''--format'', fmt, ''--''] @
                 slice (rt_command (rp_runtime (ar_spec run))) @ slice (rt_args (rp_runtime (ar_spec run)))) \<and>
               ps_init_containers (pod_spec_of pod) = [reporter_init_container config])"
  using assms
  by (auto simp: BuildPodWithConfig_def Let_def assemble_pod_def runtime_container_def
      split: sum.splits option.splits prod.splits dest!: injectReporter_Inr)

text \<open>
  C29. The Pod built for a run has exactly one container, it runs the run's image, the Pod is named
  after the run and never restarted.  Without result capture the container runs the user's command
  and arguments unchanged; with it, the reporter runs first and receives the user's command line,
  command before arguments, after its own flags, and one init container installs the reporter.
\<close>

theorem BuildPodWithConfig_executes_run:
  assumes "BuildPodWithConfig L sf run config = Inr pod"
  shows "m_name (pod_meta pod) = PodNameForRun L (run_name run) \<and>
    m_namespace (pod_meta pod) = run_namespace run \<and>
    ps_restart_policy (pod_spec_of pod) = ''Never'' \<and>
    (\<exists>c. ps_containers (pod_spec_of pod) = [c] \<and> ct_name c = RuntimeContainerName \<and>
       ct_image c = rt_image (rp_runtime (ar_spec run)) \<and>
       (case rt_result (rp_runtime (ar_spec run)) of
          None \<Rightarrow> ct_command c = slice (rt_command (rp_runtime (ar_spec run))) \<and>
                  ct_args c = slice (rt_args (rp_runtime (ar_spec run))) \<and>
                  ps_init_containers (pod_spec_of pod) = []
        | Some res \<Rightarrow> (\<exists>fmt. reporterFormat L (rr_format res) = Inr fmt \<and>
                  ct_command c @ ct_args c = [ReporterBinaryPath, ''--format'', fmt, ''--''] @
                    slice (rt_command (rp_runtime (ar_spec run))) @ slice (rt_args (rp_runtime (ar_spec run)))) \<and>
                  ps_init_containers (pod_spec_of pod) = [reporter_init_container config]))"
proof -
  have "m_name (pod_meta pod) = PodNameForRun L (run_name run)"
    "m_namespace (pod_meta pod) = run_namespace run" "ps_restart_policy (pod_spec_of pod) = ''Never''"
    using assms by (auto simp: BuildPodWithConfig_def Let_def assemble_pod_def
        split: sum.splits option.splits prod.splits)
  with BuildPod_runtime_container [OF assms] show ?thesis by blast
qed

definition capture_run :: agent_run where
  "capture_run = sample_run\<lparr>ar_spec := sample_run_spec\<lparr>rp_runtime := sample_runtime\<lparr>
     rt_args := Some [''-v''],
     rt_result := Some \<lparr>rr_source = ResultSourceStdout, rr_format = ResultFormatLastLine\<rparr>\<rparr>\<rparr>\<rparr>"

theorem BuildPodWithConfig_executes_run_witness:
  "\<exists>pod. BuildPodWithConfig zero_digest (\<lambda>_. []) capture_run
       \<lparr>bc_reporter_image = ''kontext/reporter'', bc_delivery_credential_secret = []\<rparr> = Inr pod \<and>
     m_name (pod_meta pod) = ''run-docs-1'' \<and>
     map ct_command (ps_containers (pod_spec_of pod)) =
       [[ReporterBinaryPath, ''--format'', ''last-line'', ''--'', ''/echo'', ''-v'']]"
proof -
  let ?b = "BuildPodWithConfig zero_digest (\<lambda>_. []) capture_run
       \<lparr>bc_reporter_image = ''kontext/reporter'', bc_delivery_credential_secret = []\<rparr>"
  have "case ?b of Inl _ \<Rightarrow> False | Inr pod \<Rightarrow> map ct_command (ps_containers (pod_spec_of pod)) =
       [[ReporterBinaryPath, ''--format'', ''last-line'', ''--'', ''/echo'', ''-v'']]"
    by code_simp
  then obtain pod where pod: "?b = Inr pod" "map ct_command (ps_containers (pod_spec_of pod)) =
       [[ReporterBinaryPath, ''--format'', ''last-line'', ''--'', ''/echo'', ''-v'']]"
    by (auto split: sum.splits)
  moreover have "PodNameForRun zero_digest (run_name capture_run) = ''run-docs-1''" by code_simp
  ultimately show ?thesis using BuildPodWithConfig_executes_run [OF pod(1)] by auto
qed

end
