(* ===== verification/Pod_Status.thy ===== *)
theory Pod_Status
  imports Result_Envelope Pod_Builder
begin

text \<open>
  \<^verbatim>\<open>internal/status/pod.go\<close>: what a Pod's status says about its AgentRun, and the projection of a
  result envelope into the status fields of the run.
\<close>

record pod_observation =
  po_phase :: string
  po_message :: string
  po_result :: string
  po_output :: "output_status option"
  po_usage :: "usage_status option"
  po_started_at :: "time option"

definition mk_observation :: "string \<Rightarrow> string \<Rightarrow> pod_observation" where
  "mk_observation phase msg = \<lparr>po_phase = phase, po_message = msg, po_result = [], po_output = None,
     po_usage = None, po_started_at = None\<rparr>"

definition outputStatus :: "envelope \<Rightarrow> output_status option" where
  "outputStatus e = map_option (\<lambda>out. \<lparr>os_media_type = ro_media_type out, os_value = ro_value out\<rparr>) (en_output e)"

definition usageStatus :: "envelope \<Rightarrow> usage_status option" where
  "usageStatus e = map_option (\<lambda>u. \<lparr>us_tokens = ru_total_tokens u, us_input_tokens = ru_input_tokens u,
     us_output_tokens = ru_output_tokens u, us_dollars = ru_dollars u\<rparr>) (en_usage e)"

definition ObserveResultEnvelope :: "golib \<Rightarrow> json_codec \<Rightarrow> envelope \<Rightarrow> pod_observation" where
  "ObserveResultEnvelope L J e =
     (let ob = \<lparr>po_phase = AgentRunPhaseSucceeded, po_message = ''Agent run completed successfully.'',
        po_result = PlainText L J (en_output e), po_output = outputStatus e, po_usage = usageStatus e,
        po_started_at = None\<rparr> in
      if en_outcome e = OutcomeFailed then
        ob\<lparr>po_phase := AgentRunPhaseFailed,
           po_message := ''Agent runtime reported a failed outcome.'' @
             (case en_error e of None \<Rightarrow> [] | Some x \<Rightarrow> '' '' @ ei_message x)\<rparr>
      else ob)"

definition observationFromTermination ::
  "golib \<Rightarrow> json_codec \<Rightarrow> int \<times> string \<Rightarrow> pod_observation" where
  "observationFromTermination L J terminated =
     (let (exit_code, raw) = terminated;
          message = trim_space raw;
          parsed = Parse L J message;
          e = (case parsed of Inl _ \<Rightarrow> empty_envelope | Inr (e, _) \<Rightarrow> e);
          parseErr = (case parsed of Inl err \<Rightarrow> Some (''parse termination payload: '' @ err) | Inr _ \<Rightarrow> None)
      in if exit_code = 0 then
           (case parseErr of
              Some err \<Rightarrow> mk_observation AgentRunPhaseFailed
                (''Agent run exited 0 but the termination payload was malformed: '' @ err)
            | None \<Rightarrow> ObserveResultEnvelope L J e)
         else
           \<lparr>po_phase = AgentRunPhaseFailed,
            po_message = ''Agent run exited with code '' @ show_int exit_code @ ''.'' @
              (case en_error e of None \<Rightarrow> [] | Some x \<Rightarrow> '' '' @ ei_message x) @
              (case parseErr of None \<Rightarrow> [] | Some err \<Rightarrow> '' (malformed termination payload: '' @ err @ '')''),
            po_result = (if parseErr = None then PlainText L J (en_output e) else trim_space raw),
            po_output = outputStatus e, po_usage = usageStatus e, po_started_at = None\<rparr>)"

definition runtimeContainerStatus :: "pod \<Rightarrow> container_status option" where
  "runtimeContainerStatus p =
     find (\<lambda>c. cs_name c = RuntimeContainerName) (pst_container_statuses (pod_status_of p))"

abbreviation PodPending :: string where "PodPending \<equiv> ''Pending''"
abbreviation PodRunning :: string where "PodRunning \<equiv> ''Running''"
abbreviation PodSucceeded :: string where "PodSucceeded \<equiv> ''Succeeded''"
abbreviation PodFailed :: string where "PodFailed \<equiv> ''Failed''"

text \<open>The branch on the state of the runtime container; \<^term>\<open>None\<close> falls through to the Pod phase.\<close>

definition observe_container ::
  "golib \<Rightarrow> json_codec \<Rightarrow> container_state \<Rightarrow> pod_observation option" where
  "observe_container L J st =
     (case st_running st of
        Some startedAt \<Rightarrow>
          Some ((mk_observation AgentRunPhaseRunning ''Agent run pod is streaming thoughts.'')
                  \<lparr>po_started_at := Some startedAt\<rparr>)
      | None \<Rightarrow>
          (case st_terminated st of
             Some t \<Rightarrow> Some (observationFromTermination L J t)
           | None \<Rightarrow>
               (case st_waiting st of
                  Some (reason, detail) \<Rightarrow>
                    if reason \<noteq> [] then
                      Some (mk_observation AgentRunPhasePending
                        (''Waiting: '' @ reason @ (if detail \<noteq> [] then '' ('' @ detail @ '')'' else [])))
                    else None
                | None \<Rightarrow> None)))"

definition ObservePod :: "golib \<Rightarrow> json_codec \<Rightarrow> pod \<Rightarrow> pod_observation" where
  "ObservePod L J p =
     (let phase = pst_phase (pod_status_of p) in
      if phase = PodPending then
        mk_observation AgentRunPhasePending ''Agent run pod is waiting to start.''
      else case (case runtimeContainerStatus p of None \<Rightarrow> None | Some c \<Rightarrow> observe_container L J (cs_state c)) of
        Some ob \<Rightarrow> ob
      | None \<Rightarrow>
          if phase = PodRunning then
            mk_observation AgentRunPhaseRunning ''Agent run pod is streaming thoughts.''
          else if phase = PodSucceeded then
            mk_observation AgentRunPhaseSucceeded ''Agent run pod completed.''
          else if phase = PodFailed then
            mk_observation AgentRunPhaseFailed ''Agent run pod failed.''
          else mk_observation AgentRunPhasePending ''Agent run pod status is not available yet.'')"

subsection \<open>What the observation means\<close>

lemma observation_simps [simp]:
  "po_phase (mk_observation ph m) = ph" "po_started_at (mk_observation ph m) = None"
  "po_result (mk_observation ph m) = []" "po_output (mk_observation ph m) = None"
  "po_usage (mk_observation ph m) = None"
  by (simp_all add: mk_observation_def)

lemma ObserveResultEnvelope_phase:
  "po_phase (ObserveResultEnvelope L J e) =
     (if en_outcome e = OutcomeFailed then AgentRunPhaseFailed else AgentRunPhaseSucceeded)"
  by (simp add: ObserveResultEnvelope_def)

lemma Parse_trim: "trim_space (trim_space s) = trim_space s \<Longrightarrow> Parse L J (trim_space s) = Parse L J s"
  by (simp add: Parse_def)

lemma Parse_outcome:
  "Parse L J s = Inr (e, legacy) \<Longrightarrow> en_outcome e = OutcomeSucceeded \<or> en_outcome e = OutcomeFailed"
  by (auto simp: Parse_def successfulEnvelope_def Let_def Validate_None
      split: if_splits sum.splits option.splits)

lemma observationFromTermination_phase:
  "po_phase (observationFromTermination L J (code, raw)) =
     (if code = 0 \<and> (\<exists>e legacy. Parse L J (trim_space raw) = Inr (e, legacy) \<and> en_outcome e = OutcomeSucceeded)
      then AgentRunPhaseSucceeded else AgentRunPhaseFailed)"
  by (auto simp: observationFromTermination_def Let_def ObserveResultEnvelope_phase
      split: sum.splits option.splits dest: Parse_outcome)

lemma observe_container_phase:
  "observe_container L J st = Some ob \<Longrightarrow>
     po_phase ob = AgentRunPhaseRunning \<and> st_running st \<noteq> None \<or>
     po_phase ob = AgentRunPhasePending \<and> st_running st = None \<and> st_terminated st = None \<or>
     st_running st = None \<and> (\<exists>t. st_terminated st = Some t \<and> ob = observationFromTermination L J t)"
  by (auto simp: observe_container_def split: option.splits if_splits prod.splits)

text \<open>
  The observation is the verdict on the run.  A reference definition: the runtime container, found
  by name, decides when it says something; otherwise the Pod phase does; a Pending Pod is never
  looked into.
\<close>

definition container_verdict :: "golib \<Rightarrow> json_codec \<Rightarrow> pod \<Rightarrow> bool option" where
  "container_verdict L J p =
     (case runtimeContainerStatus p of
        None \<Rightarrow> None
      | Some c \<Rightarrow>
          if st_running (cs_state c) \<noteq> None then None
          else map_option (\<lambda>(code, raw). code = 0 \<and>
                 (case Parse L J (trim_space raw) of Inl _ \<Rightarrow> False | Inr (e, _) \<Rightarrow> en_outcome e = OutcomeSucceeded))
                 (st_terminated (cs_state c)))"

definition container_live :: "pod \<Rightarrow> bool" where
  "container_live p =
     (case runtimeContainerStatus p of
        None \<Rightarrow> False
      | Some c \<Rightarrow> st_running (cs_state c) \<noteq> None \<or>
          st_terminated (cs_state c) = None \<and>
            (case st_waiting (cs_state c) of None \<Rightarrow> False | Some (reason, _) \<Rightarrow> reason \<noteq> []))"

lemma observe_container_terminal:
  assumes "observe_container L J st = Some ob"
  shows "is_terminal (po_phase ob) \<longleftrightarrow> st_running st = None \<and> st_terminated st \<noteq> None"
  using assms
  by (auto simp: observe_container_def observationFromTermination_phase split: option.splits if_splits prod.splits)

text \<open>
  C19. The terminal verdict of \<^verbatim>\<open>ObservePod\<close>: a run is observed Succeeded exactly when its Pod is past
  Pending and either the runtime container exited 0 with a payload that decodes to a succeeded
  envelope, or no runtime container state is decisive and the Pod phase is Succeeded; it is observed
  Failed exactly when the corresponding verdict is negative; a malformed payload never succeeds; and no
  other terminal phase is ever observed.
\<close>

theorem ObservePod_verdict:
  fixes p :: pod
  defines "phase \<equiv> pst_phase (pod_status_of p)"
  shows "(po_phase (ObservePod L J p) = AgentRunPhaseSucceeded \<longleftrightarrow>
       phase \<noteq> PodPending \<and>
       (container_verdict L J p = Some True \<or>
        container_verdict L J p = None \<and> \<not> container_live p \<and> phase = PodSucceeded)) \<and>
     (po_phase (ObservePod L J p) = AgentRunPhaseFailed \<longleftrightarrow>
       phase \<noteq> PodPending \<and>
       (container_verdict L J p = Some False \<or>
        container_verdict L J p = None \<and> \<not> container_live p \<and> phase = PodFailed)) \<and>
     po_phase (ObservePod L J p) \<noteq> AgentRunPhaseBudgetExceeded"
proof (cases "runtimeContainerStatus p")
  case None
  then show ?thesis by (simp add: ObservePod_def Let_def container_verdict_def container_live_def phase_def)
next
  case (Some c)
  show ?thesis
  proof (cases "st_running (cs_state c)")
    case (Some t)
    with \<open>runtimeContainerStatus p = Some c\<close> show ?thesis
      by (simp add: ObservePod_def Let_def container_verdict_def container_live_def observe_container_def phase_def)
  next
    case None
    note running = None
    show ?thesis
    proof (cases "st_terminated (cs_state c)")
      case None
      with running \<open>runtimeContainerStatus p = Some c\<close> show ?thesis
        by (auto simp: ObservePod_def Let_def container_verdict_def container_live_def observe_container_def phase_def
            split: option.splits)
    next
      case (Some t)
      with running \<open>runtimeContainerStatus p = Some c\<close> show ?thesis
        by (cases t) (auto simp: ObservePod_def Let_def container_verdict_def container_live_def observe_container_def
            phase_def observationFromTermination_phase split: sum.splits)
    qed
  qed
qed

text \<open>
  A result of the run (text, structured output or usage) is reported only together with a
  terminal phase, and a start time only while the runtime container is running.
\<close>

theorem ObservePod_result_only_terminal:
  "(po_result (ObservePod L J p) \<noteq> [] \<or> po_output (ObservePod L J p) \<noteq> None \<or> po_usage (ObservePod L J p) \<noteq> None
      \<longrightarrow> po_phase (ObservePod L J p) \<in> {AgentRunPhaseSucceeded, AgentRunPhaseFailed}) \<and>
   (\<forall>t. po_started_at (ObservePod L J p) = Some t \<longrightarrow>
      po_phase (ObservePod L J p) = AgentRunPhaseRunning \<and>
      (\<exists>c. runtimeContainerStatus p = Some c \<and> st_running (cs_state c) = Some t))"
proof -
  have ended: "po_phase (observationFromTermination L J t) \<in> {AgentRunPhaseSucceeded, AgentRunPhaseFailed} \<and>
      po_started_at (observationFromTermination L J t) = None" for t
    by (cases t) (auto simp: observationFromTermination_phase,
        auto simp: observationFromTermination_def Let_def ObserveResultEnvelope_def split: option.splits)
  show ?thesis using ended
    by (auto simp: ObservePod_def Let_def observe_container_def split: option.splits if_splits prod.splits)
qed

definition sample_pod :: "string \<Rightarrow> container_state \<Rightarrow> pod" where
  "sample_pod phase st = \<lparr>pod_meta = sample_meta ''docs-1-pod'' ''uid-pod'',
     pod_spec_of = \<lparr>ps_restart_policy = ''Never'', ps_init_containers = [], ps_containers = [],
       ps_volumes = [], ps_service_account_name = []\<rparr>,
     pod_status_of = \<lparr>pst_phase = phase, pst_pod_ip = ''10.0.0.7'', pst_conditions = [],
       pst_container_statuses = [\<lparr>cs_name = RuntimeContainerName, cs_ready = True, cs_state = st\<rparr>]\<rparr>\<rparr>"

definition exited_state :: "int \<Rightarrow> string \<Rightarrow> container_state" where
  "exited_state code msg = \<lparr>st_waiting = None, st_running = None, st_terminated = Some (code, msg)\<rparr>"

definition running_state :: "time \<Rightarrow> container_state" where
  "running_state t = \<lparr>st_waiting = None, st_running = Some t, st_terminated = None\<rparr>"

theorem ObservePod_result_only_terminal_witness:
  "po_started_at (ObservePod demo_lib demo_codec (sample_pod PodRunning (running_state 5))) = Some 5 \<and>
   po_phase (ObservePod demo_lib demo_codec (sample_pod PodRunning (running_state 5))) = AgentRunPhaseRunning"
proof -
  have "po_started_at (ObservePod demo_lib demo_codec (sample_pod PodRunning (running_state 5))) = Some 5"
    by (simp add: ObservePod_def runtimeContainerStatus_def observe_container_def sample_pod_def running_state_def)
  with ObservePod_result_only_terminal [of demo_lib demo_codec "sample_pod PodRunning (running_state 5)"]
  show ?thesis by blast
qed

end
