(* ===== verification/Kube_Lib.thy ===== *)
theory Kube_Lib
  imports Api_Types
begin

text \<open>
  The stateless helpers of the Kubernetes libraries the controllers call
  (\<^verbatim>\<open>metav1.IsControlledBy\<close>, \<^verbatim>\<open>metav1.GetControllerOf\<close>, \<^verbatim>\<open>controllerutil.SetControllerReference\<close>,
  \<^verbatim>\<open>meta.SetStatusCondition\<close>) as a record of functions, with their documented behaviour as
  the locale \<open>kube_contract\<close>, and the functions of \<^verbatim>\<open>internal/conditions\<close> and
  \<^verbatim>\<open>internal/controller/status.go\<close> over them.
\<close>

text \<open>
  The errors of the API as the source tells them apart (\<^verbatim>\<open>apierrors.IsNotFound\<close>,
  \<^verbatim>\<open>IsAlreadyExists\<close>, \<^verbatim>\<open>IsConflict\<close>).
\<close>

datatype api_error = NotFound | AlreadyExists | Conflict | ApiError string

record kube_lib =
  is_controlled_by :: "object_meta \<Rightarrow> object_meta \<Rightarrow> bool"
  set_controller_reference :: "string \<Rightarrow> object_meta \<Rightarrow> object_meta \<Rightarrow> string + object_meta"
  get_controller_of :: "object_meta \<Rightarrow> owner_ref option"
  set_status_condition :: "condition list \<Rightarrow> condition \<Rightarrow> condition list"
  api_error_text :: "api_error \<Rightarrow> string"

abbreviation GroupVersion :: string where "GroupVersion \<equiv> ''kontext.dev/v1alpha1''"

definition find_condition :: "condition list \<Rightarrow> string \<Rightarrow> condition option" where
  "find_condition cs t = find (\<lambda>c. c_type c = t) cs"

abbreviation cond_Ready :: string where "cond_Ready \<equiv> ''Ready''"
abbreviation cond_Progressing :: string where "cond_Progressing \<equiv> ''Progressing''"
abbreviation cond_Complete :: string where "cond_Complete \<equiv> ''Complete''"
abbreviation ConditionTrue :: string where "ConditionTrue \<equiv> ''True''"
abbreviation ConditionFalse :: string where "ConditionFalse \<equiv> ''False''"

definition mk_condition :: "string \<Rightarrow> string \<Rightarrow> string \<Rightarrow> string \<Rightarrow> condition" where
  "mk_condition t st reason msg = \<lparr>c_type = t, c_status = st, c_reason = reason, c_message = msg,
     c_generation = 0, c_transition = 0\<rparr>"

definition InvalidMode :: "golib \<Rightarrow> string \<Rightarrow> condition list" where
  "InvalidMode L mode =
     [mk_condition cond_Ready ConditionFalse ''InvalidMode''
        (''Unknown agent mode '' @ quote L mode @ ''.'')]"

definition ForAgentRunPhase :: "string \<Rightarrow> condition list" where
  "ForAgentRunPhase phase =
     (if is_terminal phase then
        [mk_condition cond_Complete ConditionTrue phase ''Agent run finished.'',
         mk_condition cond_Progressing ConditionFalse phase ''Agent run is no longer active.'']
      else if phase = AgentRunPhaseRunning then
        [mk_condition cond_Complete ConditionFalse ''Running'' ''Agent run is active.'',
         mk_condition cond_Progressing ConditionTrue ''Running'' ''Agent run pod is executing.'']
      else
        [mk_condition cond_Complete ConditionFalse phase ''Agent run has not completed.'',
         mk_condition cond_Progressing ConditionTrue phase ''Agent run is starting.''])"

definition setStatusConditions ::
  "kube_lib \<Rightarrow> condition list \<Rightarrow> int \<Rightarrow> condition list \<Rightarrow> condition list" where
  "setStatusConditions K existing generation updates =
     foldl (\<lambda>cs u. set_status_condition K cs (u\<lparr>c_generation := generation\<rparr>)) existing updates"

subsection \<open>The documented contract of the helpers\<close>

locale kube_contract =
  fixes K :: kube_lib
  assumes set_condition_same:
    "\<exists>t. find_condition (set_status_condition K cs c) (c_type c) = Some (c\<lparr>c_transition := t\<rparr>)"
    and set_condition_other:
    "t \<noteq> c_type c \<Longrightarrow> find_condition (set_status_condition K cs c) t = find_condition cs t"
    and owner_frame:
    "set_controller_reference K kind owner m = Inr m' \<Longrightarrow> \<exists>refs. m' = m\<lparr>m_owner_refs := refs\<rparr>"
    and owner_controls:
    "set_controller_reference K kind owner m = Inr m' \<Longrightarrow> is_controlled_by K m' owner"
    and controlled_refs:
    "m_owner_refs m = m_owner_refs m' \<Longrightarrow> is_controlled_by K m owner = is_controlled_by K m' owner"
    and controlled_uid:
    "is_controlled_by K m owner \<longleftrightarrow> (\<exists>r. get_controller_of K m = Some r \<and> or_uid r = m_uid owner)"
    and owner_reference:
    "m_owner_refs m = [] \<Longrightarrow> set_controller_reference K kind owner m = Inr m' \<Longrightarrow>
     get_controller_of K m' = Some \<lparr>or_api_version = GroupVersion, or_kind = kind, or_name = m_name owner,
       or_uid = m_uid owner, or_controller = True\<rparr>"
    and owner_fresh:
    "m_owner_refs m = [] \<Longrightarrow> m_namespace m = m_namespace owner \<Longrightarrow>
     \<exists>m'. set_controller_reference K kind owner m = Inr m'"
begin

text \<open>
  After an update of two conditions of different types, each has the status, reason and message
  of its update and every other condition is unchanged.
\<close>

lemma setStatusConditions_two:
  assumes "c_type a \<noteq> c_type b"
  shows "\<exists>t. find_condition (setStatusConditions K cs g [a, b]) (c_type a) =
           Some (a\<lparr>c_generation := g, c_transition := t\<rparr>)"
    and "\<exists>t. find_condition (setStatusConditions K cs g [a, b]) (c_type b) =
           Some (b\<lparr>c_generation := g, c_transition := t\<rparr>)"
    and "u \<noteq> c_type a \<Longrightarrow> u \<noteq> c_type b \<Longrightarrow>
         find_condition (setStatusConditions K cs g [a, b]) u = find_condition cs u"
proof -
  let ?a = "a\<lparr>c_generation := g\<rparr>" and ?b = "b\<lparr>c_generation := g\<rparr>"
  let ?one = "set_status_condition K cs ?a"
  have eq: "setStatusConditions K cs g [a, b] = set_status_condition K ?one ?b"
    by (simp add: setStatusConditions_def)
  show "\<exists>t. find_condition (setStatusConditions K cs g [a, b]) (c_type a) =
      Some (a\<lparr>c_generation := g, c_transition := t\<rparr>)"
    unfolding eq using assms set_condition_other[of "c_type a" ?b ?one] set_condition_same[of cs ?a]
    by simp
  show "\<exists>t. find_condition (setStatusConditions K cs g [a, b]) (c_type b) =
      Some (b\<lparr>c_generation := g, c_transition := t\<rparr>)"
    unfolding eq using set_condition_same[of ?one ?b] by simp
  show "u \<noteq> c_type a \<Longrightarrow> u \<noteq> c_type b \<Longrightarrow>
      find_condition (setStatusConditions K cs g [a, b]) u = find_condition cs u"
    unfolding eq using set_condition_other[of u ?b ?one] set_condition_other[of u ?a cs] by simp
qed

end

subsection \<open>An instance of the contract\<close>

text \<open>The documented behaviour written as functions; the contract is provable for them.\<close>

definition doc_is_controlled_by :: "object_meta \<Rightarrow> object_meta \<Rightarrow> bool" where
  "doc_is_controlled_by m owner =
     (case find or_controller (m_owner_refs m) of None \<Rightarrow> False | Some r \<Rightarrow> or_uid r = m_uid owner)"

definition doc_set_controller_reference ::
  "string \<Rightarrow> object_meta \<Rightarrow> object_meta \<Rightarrow> string + object_meta" where
  "doc_set_controller_reference kind owner m =
     (if m_namespace m \<noteq> m_namespace owner then Inl ''cross-namespace owner references are disallowed''
      else case find or_controller (m_owner_refs m) of
        Some r \<Rightarrow> if or_uid r = m_uid owner then Inr m
                  else Inl ''object is already owned by another controller''
      | None \<Rightarrow> Inr (m\<lparr>m_owner_refs := m_owner_refs m @
          [\<lparr>or_api_version = GroupVersion, or_kind = kind, or_name = m_name owner,
            or_uid = m_uid owner, or_controller = True\<rparr>]\<rparr>))"

fun doc_set_status_condition :: "condition list \<Rightarrow> condition \<Rightarrow> condition list" where
  "doc_set_status_condition [] c = [c]"
| "doc_set_status_condition (x # xs) c =
     (if c_type x = c_type c
      then c\<lparr>c_transition := (if c_status x = c_status c then c_transition x else c_transition c)\<rparr> # xs
      else x # doc_set_status_condition xs c)"

definition doc_kube :: kube_lib where
  "doc_kube = \<lparr>is_controlled_by = doc_is_controlled_by,
     set_controller_reference = doc_set_controller_reference,
     get_controller_of = (\<lambda>m. find or_controller (m_owner_refs m)),
     set_status_condition = doc_set_status_condition,
     api_error_text = (\<lambda>e. case e of NotFound \<Rightarrow> ''not found'' | AlreadyExists \<Rightarrow> ''already exists''
       | Conflict \<Rightarrow> ''conflict'' | ApiError text \<Rightarrow> text)\<rparr>"

lemma doc_set_condition_same:
  "\<exists>t. find_condition (doc_set_status_condition cs c) (c_type c) = Some (c\<lparr>c_transition := t\<rparr>)"
proof (induction cs)
  case Nil
  show ?case by (auto simp: find_condition_def intro: exI [of _ "c_transition c"])
next
  case (Cons x xs)
  then show ?case by (auto simp: find_condition_def intro: exI [of _ "c_transition c"])
qed

lemma doc_set_condition_other:
  "t \<noteq> c_type c \<Longrightarrow> find_condition (doc_set_status_condition cs c) t = find_condition cs t"
  by (induction cs) (auto simp: find_condition_def)

lemma find_append_None: "find P xs = None \<Longrightarrow> find P (xs @ ys) = find P ys"
  by (induction xs) (auto split: if_splits)

lemma doc_owner_controls:
  "doc_set_controller_reference kind owner m = Inr m' \<Longrightarrow> doc_is_controlled_by m' owner"
  by (auto simp: doc_set_controller_reference_def doc_is_controlled_by_def find_append_None
      split: option.splits if_splits)

interpretation doc: kube_contract doc_kube
proof
  show "\<exists>t. find_condition (set_status_condition doc_kube cs c) (c_type c) = Some (c\<lparr>c_transition := t\<rparr>)"
    for cs c by (simp add: doc_kube_def doc_set_condition_same)
  show "t \<noteq> c_type c \<Longrightarrow> find_condition (set_status_condition doc_kube cs c) t = find_condition cs t"
    for t c cs by (simp add: doc_kube_def doc_set_condition_other)
  show "set_controller_reference doc_kube kind owner m = Inr m' \<Longrightarrow>
      \<exists>refs. m' = m\<lparr>m_owner_refs := refs\<rparr>" for kind owner m m'
    by (auto simp: doc_kube_def doc_set_controller_reference_def split: if_splits option.splits)
       (metis object_meta.surjective object_meta.update_convs(7))
  show "set_controller_reference doc_kube kind owner m = Inr m' \<Longrightarrow> is_controlled_by doc_kube m' owner"
    for kind owner m m' by (simp add: doc_kube_def doc_owner_controls)
  show "m_owner_refs m = m_owner_refs m' \<Longrightarrow> is_controlled_by doc_kube m owner = is_controlled_by doc_kube m' owner"
    for m m' owner by (simp add: doc_kube_def doc_is_controlled_by_def)
  show "is_controlled_by doc_kube m owner \<longleftrightarrow>
      (\<exists>r. get_controller_of doc_kube m = Some r \<and> or_uid r = m_uid owner)" for m owner
    by (auto simp: doc_kube_def doc_is_controlled_by_def split: option.splits)
  show "m_owner_refs m = [] \<Longrightarrow> set_controller_reference doc_kube kind owner m = Inr m' \<Longrightarrow>
      get_controller_of doc_kube m' = Some \<lparr>or_api_version = GroupVersion, or_kind = kind, or_name = m_name owner,
        or_uid = m_uid owner, or_controller = True\<rparr>" for m kind owner m'
    by (auto simp: doc_kube_def doc_set_controller_reference_def split: if_splits)
  show "m_owner_refs m = [] \<Longrightarrow> m_namespace m = m_namespace owner \<Longrightarrow>
      \<exists>m'. set_controller_reference doc_kube kind owner m = Inr m'" for m owner kind
    by (simp add: doc_kube_def doc_set_controller_reference_def)
qed

end
