(* ===== verification/Run_Factory.thy ===== *)
theory Run_Factory
  imports Pod_Builder Kube_Lib
begin

text \<open>
  \<^verbatim>\<open>internal/runfactory/runfactory.go\<close>: building an AgentRun as an immutable snapshot of an Agent,
  resolving a sparse user invocation against the Agent it references, and the goal templates with
  their \<^verbatim>\<open>${name}\<close> placeholders.
\<close>

datatype resolution_error_code =
  ErrorMissingAgent | ErrorWrongMode | ErrorDeliveryDisabled | ErrorInvalidDelivery | ErrorReservedName
| ErrorInvalidTemplate | ErrorMissingParameters | ErrorUnusedParameters | ErrorConflictingFields

record resolution_error =
  re_code :: resolution_error_code
  re_agent_name :: string
  re_mode :: string
  re_names :: "string list"
  re_detail :: string

definition mk_resolution_error :: "resolution_error_code \<Rightarrow> resolution_error" where
  "mk_resolution_error code = \<lparr>re_code = code, re_agent_name = [], re_mode = [], re_names = [], re_detail = []\<rparr>"

definition invalid_template :: "string \<Rightarrow> resolution_error" where
  "invalid_template detail = (mk_resolution_error ErrorInvalidTemplate)\<lparr>re_detail := detail\<rparr>"

text \<open>An error of the factory: a resolution error, which callers inspect, or any other.\<close>

datatype factory_error = Resolution resolution_error | OtherError string

fun code_text :: "resolution_error_code \<Rightarrow> string" where
  "code_text ErrorMissingAgent = ''MissingAgent''"
| "code_text ErrorWrongMode = ''WrongMode''"
| "code_text ErrorDeliveryDisabled = ''DeliveryDisabled''"
| "code_text ErrorInvalidDelivery = ''InvalidDelivery''"
| "code_text ErrorReservedName = ''ReservedName''"
| "code_text ErrorInvalidTemplate = ''InvalidTemplate''"
| "code_text ErrorMissingParameters = ''MissingParameters''"
| "code_text ErrorUnusedParameters = ''UnusedParameters''"
| "code_text ErrorConflictingFields = ''ConflictingFields''"

definition resolution_error_Error :: "golib \<Rightarrow> resolution_error \<Rightarrow> string" where
  "resolution_error_Error L e =
     ''AgentRun resolution failed ['' @ code_text (re_code e) @ '']: '' @
     (case re_code e of
        ErrorMissingAgent \<Rightarrow> ''Agent '' @ quote L (re_agent_name e) @ '' was not found''
      | ErrorWrongMode \<Rightarrow> ''Agent '' @ quote L (re_agent_name e) @ '' has unsupported mode '' @ quote L (re_mode e)
      | ErrorDeliveryDisabled \<Rightarrow> ''Service Agent '' @ quote L (re_agent_name e) @ '' does not declare runtime.delivery''
      | ErrorInvalidDelivery \<Rightarrow> re_detail e
      | ErrorReservedName \<Rightarrow> re_detail e
      | ErrorInvalidTemplate \<Rightarrow> re_detail e
      | ErrorMissingParameters \<Rightarrow> ''missing parameters: '' @ join_strings (re_names e) '', ''
      | ErrorUnusedParameters \<Rightarrow>
          if re_names e = [] then ''static goals do not accept parameters''
          else ''unused parameters: '' @ join_strings (re_names e) '', ''
      | ErrorConflictingFields \<Rightarrow> ''invocation supplies locked fields: '' @ join_strings (re_names e) '', '')"

subsection \<open>The snapshot\<close>

definition NewForAgent ::
  "golib \<Rightarrow> kube_lib \<Rightarrow> agent \<Rightarrow> string \<Rightarrow> string \<Rightarrow> string + agent_run" where
  "NewForAgent L K ag runName goal =
     (let spec = ag_spec ag;
          m = empty_meta\<lparr>m_name := runName, m_namespace := agent_namespace ag,
                m_labels := [(LabelAgentName, agent_name ag)]\<rparr>
      in case set_controller_reference K ''Agent'' (ag_meta ag) m of
           Inl err \<Rightarrow> Inl err
         | Inr m' \<Rightarrow>
             Inr \<lparr>ar_type_meta = \<lparr>tm_kind = [], tm_api_version = []\<rparr>, ar_meta = m',
                  ar_spec = \<lparr>rp_agent_ref = Some (agent_name ag), rp_parameters = None,
                    rp_delivery_port = None, rp_goal = goal,
                    rp_provider = NormalizeProvider L (sp_provider spec), rp_model = sp_model spec,
                    rp_tools = sp_tools spec, rp_budget = sp_budget spec, rp_secret_ref = sp_secret_ref spec,
                    rp_knowledge_config_map_ref = sp_knowledge_config_map_ref spec,
                    rp_service_account_name = sp_service_account_name spec,
                    rp_runtime = sp_runtime spec, rp_env = sp_env spec\<rparr>,
                  ar_status = empty_run_status\<rparr>)"

subsection \<open>Goal templates\<close>

definition asciiLetterOrUnderscore :: "char \<Rightarrow> bool" where
  "asciiLetterOrUnderscore c \<longleftrightarrow>
     c = CHR ''_'' \<or> (c \<ge> CHR ''a'' \<and> \<not> c > CHR ''z'') \<or> (c \<ge> CHR ''A'' \<and> \<not> c > CHR ''Z'')"

definition validParameterName :: "string \<Rightarrow> bool" where
  "validParameterName name =
     (case name of
        [] \<Rightarrow> False
      | c # rest \<Rightarrow> asciiLetterOrUnderscore c \<and>
          list_all (\<lambda>x. asciiLetterOrUnderscore x \<or> \<not> (x < CHR ''0'' \<or> x > CHR ''9'')) rest)"

definition parsePlaceholder :: "golib \<Rightarrow> string \<Rightarrow> nat \<Rightarrow> resolution_error + (string \<times> nat)" where
  "parsePlaceholder L template start =
     (let nameStart = start + 2;
          rest = drop nameStart template;
          name = takeWhile (\<lambda>c. c \<noteq> CHR ''}'') rest
      in if CHR ''}'' \<notin> set rest then
           Inl (invalid_template (''unterminated placeholder at byte '' @ show_nat start))
         else if \<not> validParameterName name then
           Inl (invalid_template (''invalid placeholder '' @ quote L name @ '' at byte '' @ show_nat start))
         else Inr (name, nameStart + length name + 1))"

lemma parsePlaceholder_advances: "parsePlaceholder L t s = Inr (name, next) \<Longrightarrow> s < next"
  by (auto simp: parsePlaceholder_def Let_def split: if_splits)

abbreviation open_placeholder :: string where "open_placeholder \<equiv> [CHR ''$'', CHR ''{'']"
abbreviation escaped_placeholder :: string where "escaped_placeholder \<equiv> [CHR ''$'', CHR ''$'', CHR ''{'']"

text \<open>The scanning loop; \<open>used\<close> and \<open>missing\<close> are the key sets of the source's two maps.\<close>

function interpolate_loop ::
  "golib \<Rightarrow> string \<Rightarrow> (string \<rightharpoonup> string) \<Rightarrow> nat \<Rightarrow> string \<Rightarrow> string list \<Rightarrow> string list \<Rightarrow>
     resolution_error + (string \<times> string list \<times> string list)" where
  "interpolate_loop L template parameters index rendered used missing =
     (if index \<ge> length template then Inr (rendered, used, missing)
      else if has_prefix (drop index template) escaped_placeholder then
        (case parsePlaceholder L template (index + 1) of
           Inl e \<Rightarrow> Inl e
         | Inr (name, next) \<Rightarrow>
             interpolate_loop L template parameters next (rendered @ open_placeholder @ name @ ''}'') used missing)
      else if has_prefix (drop index template) open_placeholder then
        (case parsePlaceholder L template index of
           Inl e \<Rightarrow> Inl e
         | Inr (name, next) \<Rightarrow>
             (case parameters name of
                None \<Rightarrow> interpolate_loop L template parameters next rendered used (List.insert name missing)
              | Some v \<Rightarrow> interpolate_loop L template parameters next (rendered @ v) (List.insert name used) missing))
      else interpolate_loop L template parameters (index + 1) (rendered @ [template ! index]) used missing)"
  by pat_completeness auto
termination
  by (relation "measure (\<lambda>(_, t, _, i, _). length t - i)") (auto dest!: parsePlaceholder_advances)

declare interpolate_loop.simps [simp del]

definition interpolateGoal :: "golib \<Rightarrow> string \<Rightarrow> string go_map option \<Rightarrow> resolution_error + string" where
  "interpolateGoal L template parameters =
     (case interpolate_loop L template (map_of (slice parameters)) 0 [] [] [] of
        Inl e \<Rightarrow> Inl e
      | Inr (rendered, used, missing) \<Rightarrow>
          (let unused = remdups (filter (\<lambda>n. n \<notin> set used) (map fst (slice parameters))) in
           if missing \<noteq> [] then Inl ((mk_resolution_error ErrorMissingParameters)\<lparr>re_names := sort missing\<rparr>)
           else if unused \<noteq> [] then Inl ((mk_resolution_error ErrorUnusedParameters)\<lparr>re_names := sort unused\<rparr>)
           else Inr rendered))"

definition sortedMapKeys :: "string go_map \<Rightarrow> string list" where
  "sortedMapKeys m = sort (map fst m)"

definition resolveTaskGoal :: "golib \<Rightarrow> agent_spec \<Rightarrow> string go_map option \<Rightarrow> resolution_error + string" where
  "resolveTaskGoal L spec parameters =
     (let hasGoal = (sp_goal spec \<noteq> []); hasTemplate = (sp_goal_template spec \<noteq> []) in
      if hasGoal = hasTemplate then
        Inl (invalid_template ''Task Agent must configure exactly one of goal or goalTemplate'')
      else if hasGoal then
        (case parameters of
           Some ps \<Rightarrow> Inl ((mk_resolution_error ErrorUnusedParameters)\<lparr>re_names := sortedMapKeys ps\<rparr>)
         | None \<Rightarrow> Inr (sp_goal spec))
      else interpolateGoal L (sp_goal_template spec) parameters)"

subsection \<open>Resolving an invocation\<close>

definition lockedInvocationFields :: "agent_run_spec \<Rightarrow> string list" where
  "lockedInvocationFields spec = sort (map snd (filter fst
     [(rp_goal spec \<noteq> [], ''goal''),
      (rp_provider spec \<noteq> [], ''provider''),
      (rp_model spec \<noteq> [], ''model''),
      (rp_tools spec \<noteq> None, ''tools''),
      (rp_budget spec \<noteq> None, ''budget''),
      (rp_secret_ref spec \<noteq> None, ''secretRef''),
      (rp_knowledge_config_map_ref spec \<noteq> None, ''knowledgeConfigMapRef''),
      (rp_service_account_name spec \<noteq> [], ''serviceAccountName''),
      (rp_runtime spec \<noteq> empty_runtime, ''runtime''),
      (rp_env spec \<noteq> None, ''env''),
      (rp_delivery_port spec \<noteq> None, ''delivery'')]))"

definition isReservedServiceRunName :: "string \<Rightarrow> string \<Rightarrow> bool" where
  "isReservedServiceRunName agent run =
     (let prefix = agent @ ''-'' in
      has_prefix run prefix \<and>
      (case parse_int 32 (trim_prefix run prefix) of
         None \<Rightarrow> False
       | Some v \<Rightarrow> v \<ge> 1 \<and> run = agent @ ''-'' @ show_int v))"

definition resolve_service_goal ::
  "golib \<Rightarrow> agent \<Rightarrow> agent_run \<Rightarrow> resolution_error + (string \<times> int option)" where
  "resolve_service_goal L ag invocation =
     (case rt_delivery_port (sp_runtime (ag_spec ag)) of
        None \<Rightarrow> Inl ((mk_resolution_error ErrorDeliveryDisabled)\<lparr>re_agent_name := agent_name ag\<rparr>)
      | Some port \<Rightarrow>
          if isReservedServiceRunName (agent_name ag) (run_name invocation) then
            Inl ((mk_resolution_error ErrorReservedName)\<lparr>re_detail :=
              ''AgentRun name '' @ quote L (run_name invocation) @
              '' is reserved for standing runs of Service Agent '' @ quote L (agent_name ag)\<rparr>)
          else if port < 1 \<or> port > 65535 then
            Inl ((mk_resolution_error ErrorInvalidDelivery)\<lparr>re_detail :=
              ''Service Agent '' @ quote L (agent_name ag) @ '' has invalid runtime.delivery.port '' @ show_int port\<rparr>)
          else if sp_goal (ag_spec ag) = [] \<or> sp_goal_template (ag_spec ag) = [] then
            Inl (invalid_template ''Service Agent with runtime.delivery must configure goal and goalTemplate'')
          else (case interpolateGoal L (sp_goal_template (ag_spec ag)) (rp_parameters (ar_spec invocation)) of
                  Inl e \<Rightarrow> Inl e
                | Inr goal \<Rightarrow> Inr (goal, Some port)))"

definition resolve_goal :: "golib \<Rightarrow> agent \<Rightarrow> agent_run \<Rightarrow> resolution_error + (string \<times> int option)" where
  "resolve_goal L ag invocation =
     (if sp_mode (ag_spec ag) = AgentModeTask then
        (case resolveTaskGoal L (ag_spec ag) (rp_parameters (ar_spec invocation)) of
           Inl e \<Rightarrow> Inl e
         | Inr goal \<Rightarrow> Inr (goal, None))
      else if sp_mode (ag_spec ag) = AgentModeService then resolve_service_goal L ag invocation
      else Inl ((mk_resolution_error ErrorWrongMode)\<lparr>re_agent_name := agent_name ag, re_mode := sp_mode (ag_spec ag)\<rparr>))"

definition apply_invocation :: "agent \<Rightarrow> agent_run \<Rightarrow> int option \<Rightarrow> agent_run \<Rightarrow> agent_run" where
  "apply_invocation ag invocation delivery resolved =
     resolved\<lparr>ar_type_meta := ar_type_meta invocation,
       ar_meta := (ar_meta resolved)\<lparr>m_annotations := m_annotations (ar_meta invocation),
         m_finalizers := m_finalizers (ar_meta invocation),
         m_labels := map_put LabelAgentName (agent_name ag)
           (put_all (m_labels (ar_meta invocation)) (m_labels (ar_meta resolved)))\<rparr>,
       ar_spec := (ar_spec resolved)\<lparr>rp_parameters := rp_parameters (ar_spec invocation),
         rp_delivery_port := delivery\<rparr>\<rparr>"

definition ResolveInvocation ::
  "golib \<Rightarrow> kube_lib \<Rightarrow> agent option \<Rightarrow> agent_run option \<Rightarrow> factory_error + agent_run" where
  "ResolveInvocation L K ag invocation =
     (case invocation of
        None \<Rightarrow> Inl (Resolution (mk_resolution_error ErrorMissingAgent))
      | Some req \<Rightarrow>
          (let referenceName = (case rp_agent_ref (ar_spec req) of None \<Rightarrow> [] | Some n \<Rightarrow> n);
               missing = Inl (Resolution ((mk_resolution_error ErrorMissingAgent)\<lparr>re_agent_name := referenceName\<rparr>))
           in case ag of
                None \<Rightarrow> missing
              | Some a \<Rightarrow>
                  if referenceName = [] \<or> referenceName \<noteq> agent_name a \<or>
                     (run_namespace req \<noteq> [] \<and> run_namespace req \<noteq> agent_namespace a) then missing
                  else if lockedInvocationFields (ar_spec req) \<noteq> [] then
                    Inl (Resolution ((mk_resolution_error ErrorConflictingFields)
                           \<lparr>re_names := lockedInvocationFields (ar_spec req)\<rparr>))
                  else (case resolve_goal L a req of
                          Inl e \<Rightarrow> Inl (Resolution e)
                        | Inr (goal, delivery) \<Rightarrow>
                            (case NewForAgent L K a (run_name req) goal of
                               Inl err \<Rightarrow> Inl (OtherError err)
                             | Inr resolved \<Rightarrow> Inr (apply_invocation a req delivery resolved)))))"

definition ValidateTask :: "golib \<Rightarrow> agent option \<Rightarrow> resolution_error option" where
  "ValidateTask L ag =
     (case ag of
        None \<Rightarrow> Some (mk_resolution_error ErrorMissingAgent)
      | Some a \<Rightarrow>
          if sp_mode (ag_spec a) \<noteq> AgentModeTask then
            Some ((mk_resolution_error ErrorWrongMode)\<lparr>re_agent_name := agent_name a, re_mode := sp_mode (ag_spec a)\<rparr>)
          else (case resolveTaskGoal L (ag_spec a) None of
                  Inr _ \<Rightarrow> None
                | Inl e \<Rightarrow> if re_code e = ErrorMissingParameters then None else Some e))"

subsection \<open>What a template means\<close>

text \<open>
  A reference semantics of templates: a template is a sequence of segments, printed one after the
  other; a literal byte must not start what the scanner takes for a placeholder.
\<close>

datatype segment = Literal char | Placeholder string | Escaped string

fun unparse :: "segment list \<Rightarrow> string" where
  "unparse [] = []"
| "unparse (Literal c # rest) = c # unparse rest"
| "unparse (Placeholder n # rest) = open_placeholder @ n @ ''}'' @ unparse rest"
| "unparse (Escaped n # rest) = escaped_placeholder @ n @ ''}'' @ unparse rest"

fun segments_ok :: "segment list \<Rightarrow> bool" where
  "segments_ok [] \<longleftrightarrow> True"
| "segments_ok (Literal c # rest) \<longleftrightarrow>
     \<not> has_prefix (c # unparse rest) open_placeholder \<and> \<not> has_prefix (c # unparse rest) escaped_placeholder \<and>
     segments_ok rest"
| "segments_ok (Placeholder n # rest) \<longleftrightarrow> validParameterName n \<and> segments_ok rest"
| "segments_ok (Escaped n # rest) \<longleftrightarrow> validParameterName n \<and> segments_ok rest"

fun placeholders :: "segment list \<Rightarrow> string set" where
  "placeholders [] = {}"
| "placeholders (Placeholder n # rest) = insert n (placeholders rest)"
| "placeholders (_ # rest) = placeholders rest"

fun render :: "(string \<rightharpoonup> string) \<Rightarrow> segment list \<Rightarrow> string" where
  "render ps [] = []"
| "render ps (Literal c # rest) = c # render ps rest"
| "render ps (Placeholder n # rest) = (case ps n of None \<Rightarrow> [] | Some v \<Rightarrow> v) @ render ps rest"
| "render ps (Escaped n # rest) = open_placeholder @ n @ ''}'' @ render ps rest"

lemma finite_placeholders [simp]: "finite (placeholders segs)"
  by (induction segs rule: placeholders.induct) auto

lemma valid_name_no_brace: "validParameterName n \<Longrightarrow> CHR ''}'' \<notin> set n"
proof -
  assume n: "validParameterName n"
  have "\<not> asciiLetterOrUnderscore (CHR ''}'')" "CHR ''}'' > CHR ''9''" by code_simp+
  with n show ?thesis by (cases n) (auto simp: validParameterName_def list_all_iff)
qed

lemma parsePlaceholder_printed:
  assumes "drop start t = [x, y] @ n @ CHR ''}'' # rest" "validParameterName n"
  shows "parsePlaceholder L t start = Inr (n, start + 2 + length n + 1)"
    and "drop (start + 2 + length n + 1) t = rest"
proof -
  have "drop (start + 2) t = drop 2 (drop start t)" by (simp add: add.commute)
  then have rest: "drop (start + 2) t = n @ CHR ''}'' # rest" by (simp add: assms(1))
  moreover have "takeWhile (\<lambda>c. c \<noteq> CHR ''}'') (n @ CHR ''}'' # rest) = n"
    using valid_name_no_brace [OF assms(2)] by (subst takeWhile_append2) auto
  ultimately show "parsePlaceholder L t start = Inr (n, start + 2 + length n + 1)"
    using assms(2) by (simp add: parsePlaceholder_def)
  show "drop (start + 2 + length n + 1) t = rest"
    using arg_cong [OF rest, of "drop (length n + 1)"] by (simp add: add.commute add.left_commute)
qed

lemma parsePlaceholder_Inr:
  assumes "parsePlaceholder L t start = Inr (n, next)" "has_prefix (drop start t) [x, y]"
  shows "validParameterName n" "drop start t = [x, y] @ n @ CHR ''}'' # drop next t"
proof -
  let ?rest = "drop (start + 2) t"
  from assms(1) have n: "n = takeWhile (\<lambda>c. c \<noteq> CHR ''}'') ?rest" and brace: "CHR ''}'' \<in> set ?rest"
    and ok: "validParameterName n" and nxt: "next = start + 2 + length n + 1"
    by (auto simp: parsePlaceholder_def Let_def split: if_splits)
  from ok show "validParameterName n" .
  from brace obtain c zs where "dropWhile (\<lambda>c. c \<noteq> CHR ''}'') ?rest = c # zs"
    by (cases "dropWhile (\<lambda>c. c \<noteq> CHR ''}'') ?rest") (auto simp: dropWhile_eq_Nil_conv)
  moreover from this have "c = CHR ''}''" using hd_dropWhile [of "\<lambda>c. c \<noteq> CHR ''}''" ?rest] by simp
  ultimately have split: "?rest = n @ CHR ''}'' # zs" using takeWhile_dropWhile_id [of "\<lambda>c. c \<noteq> CHR ''}''" ?rest] n by simp
  from assms(2) obtain u where "drop start t = [x, y] @ u" by (auto simp: has_prefix_conv)
  moreover from this have "u = ?rest" by (metis add.commute append_Cons append_Nil drop0 drop_Suc_Cons drop_drop numeral_2_eq_2)
  ultimately have "drop start t = [x, y] @ ?rest" by simp
  moreover have "drop next t = zs"
  proof -
    have "drop next t = drop (length n + 1) ?rest" by (simp add: nxt add.commute add.left_commute)
    also have "\<dots> = zs" unfolding split by simp
    finally show ?thesis .
  qed
  ultimately show "drop start t = [x, y] @ n @ CHR ''}'' # drop next t" using split by simp
qed

lemma interpolate_loop_sound:
  assumes "interpolate_loop L t ps i r u m = Inr res"
  shows "\<exists>segs. segments_ok segs \<and> drop i t = unparse segs"
  using assms
proof (induction L t ps i r u m rule: interpolate_loop.induct)
  case (1 L t ps i r u m)
  note run = "1.prems" [unfolded interpolate_loop.simps [of L t ps i r u m]]
  consider (over) "i \<ge> length t"
    | (esc) "i < length t" "has_prefix (drop i t) escaped_placeholder"
    | (hole) "i < length t" "\<not> has_prefix (drop i t) escaped_placeholder" "has_prefix (drop i t) open_placeholder"
    | (lit) "i < length t" "\<not> has_prefix (drop i t) escaped_placeholder" "\<not> has_prefix (drop i t) open_placeholder"
    by linarith
  then show ?case
  proof cases
    case over
    with run show ?thesis by (intro exI [of _ "[]"]) auto
  next
    case esc
    with run obtain n nxt where p: "parsePlaceholder L t (i + 1) = Inr (n, nxt)"
      and rec: "interpolate_loop L t ps nxt (r @ open_placeholder @ n @ ''}'') u m = Inr res"
      by (auto split: sum.splits)
    from "1.IH" (1) [OF _ esc(2) p refl rec] esc(1) obtain segs where segs: "segments_ok segs"
      "drop nxt t = unparse segs" by auto
    from esc(2) obtain w where w: "drop i t = escaped_placeholder @ w" by (auto simp: has_prefix_conv)
    then have w': "drop (i + 1) t = open_placeholder @ w" by (metis Suc_eq_plus1 append_Cons drop_Suc list.sel(3) tl_drop)
    then have "has_prefix (drop (i + 1) t) open_placeholder" by simp
    note q = parsePlaceholder_Inr [OF p this]
    with segs w w' show ?thesis by (intro exI [of _ "Escaped n # segs"]) auto
  next
    case hole
    with run obtain n nxt where p: "parsePlaceholder L t i = Inr (n, nxt)" by (auto split: sum.splits)
    have "\<exists>segs. segments_ok segs \<and> drop nxt t = unparse segs"
    proof (cases "ps n")
      case None
      with run hole p "1.IH" (2) [OF _ hole(2,3) p refl None] show ?thesis by simp
    next
      case (Some v)
      with run hole p "1.IH" (3) [OF _ hole(2,3) p refl Some] show ?thesis by simp
    qed
    with parsePlaceholder_Inr [OF p hole(3)] show ?thesis
      by (metis append_Cons append_Nil segments_ok.simps(3) unparse.simps(3))
  next
    case lit
    with run "1.IH" (4) [OF _ lit(2,3)] obtain segs where segs: "segments_ok segs" "drop (i + 1) t = unparse segs"
      by auto
    have "drop i t = t ! i # unparse segs" using Cons_nth_drop_Suc [OF lit(1)] segs(2) by simp
    with segs lit show ?thesis by (intro exI [of _ "Literal (t ! i) # segs"]) auto
  qed
qed

definition template_ok :: "string \<Rightarrow> bool" where
  "template_ok t \<longleftrightarrow> (\<exists>segs. segments_ok segs \<and> t = unparse segs)"

definition loop_outcome ::
  "(string \<rightharpoonup> string) \<Rightarrow> segment list \<Rightarrow> string \<Rightarrow> string list \<Rightarrow> string list \<Rightarrow> string \<times> string list \<times> string list \<Rightarrow> bool" where
  "loop_outcome ps segs r u m res = (case res of (r', u', m') \<Rightarrow> r' = r @ render ps segs \<and>
     set u' = set u \<union> placeholders segs \<inter> dom ps \<and> set m' = set m \<union> (placeholders segs - dom ps) \<and>
     (distinct m \<longrightarrow> distinct m'))"

lemma interpolate_loop_complete:
  assumes "segments_ok segs" "drop i t = unparse segs"
  shows "\<exists>res. interpolate_loop L t ps i r u m = Inr res \<and> loop_outcome ps segs r u m res"
  using assms
proof (induction segs arbitrary: i r u m rule: segments_ok.induct)
  case 1
  then show ?case by (subst interpolate_loop.simps) (simp add: loop_outcome_def)
next
  case (2 c rest)
  then have i: "i < length t" by (metis drop_eq_Nil2 leI list.distinct(1) unparse.simps(2))
  from 2 i have "t ! i = c" "drop (i + 1) t = unparse rest"
    using Cons_nth_drop_Suc [OF i] by auto
  with 2 i "2.IH" [of "i + 1" "r @ [c]" u m] show ?case
    by (subst interpolate_loop.simps) (auto simp: loop_outcome_def)
next
  case (3 n rest)
  then have i: "i < length t" by (metis append_Cons drop_eq_Nil2 leI list.distinct(1) unparse.simps(3))
  from 3 have d: "drop i t = [CHR ''$'', CHR ''{''] @ n @ CHR ''}'' # unparse rest" by simp
  from 3 have v: "validParameterName n" "segments_ok rest" by auto
  note p = parsePlaceholder_printed [OF d v(1)]
  show ?case
  proof (cases "ps n")
    case None
    from "3.IH" [OF v(2) p(2), of r u "List.insert n m"] obtain res where
      "interpolate_loop L t ps (i + 2 + length n + 1) r u (List.insert n m) = Inr res"
      "loop_outcome ps rest r u (List.insert n m) res" by blast
    with None 3 i d p show ?thesis
      by (subst interpolate_loop.simps) (auto simp: loop_outcome_def)
  next
    case (Some v)
    from "3.IH" [OF v(2) p(2), of "r @ v" "List.insert n u" m] obtain res where
      "interpolate_loop L t ps (i + 2 + length n + 1) (r @ v) (List.insert n u) m = Inr res"
      "loop_outcome ps rest (r @ v) (List.insert n u) m res" by blast
    with Some 3 i d p show ?thesis
      by (subst interpolate_loop.simps) (auto simp: loop_outcome_def)
  qed
next
  case (4 n rest)
  then have i: "i < length t" by (metis append_Cons drop_eq_Nil2 leI list.distinct(1) unparse.simps(4))
  from 4 have d: "drop i t = escaped_placeholder @ n @ CHR ''}'' # unparse rest" by simp
  then have d': "drop (i + 1) t = [CHR ''$'', CHR ''{''] @ n @ CHR ''}'' # unparse rest"
    by (metis Suc_eq_plus1 append_Cons drop_Suc list.sel(3) tl_drop)
  from 4 have v: "validParameterName n" "segments_ok rest" by auto
  note p = parsePlaceholder_printed [OF d' v(1)]
  from "4.IH" [OF v(2) p(2), of "r @ open_placeholder @ n @ ''}''" u m] obtain res where
    "interpolate_loop L t ps (i + 1 + 2 + length n + 1) (r @ open_placeholder @ n @ ''}'') u m = Inr res"
    "loop_outcome ps rest (r @ open_placeholder @ n @ ''}'') u m res" by blast
  with 4 i d p show ?case
    by (subst interpolate_loop.simps) (auto simp: loop_outcome_def)
qed

lemma interpolate_loop_error:
  "interpolate_loop L t ps i r u m = Inl e \<Longrightarrow> re_code e = ErrorInvalidTemplate"
proof (induction L t ps i r u m rule: interpolate_loop.induct)
  case (1 L t ps i r u m)
  have bad: "re_code e = ErrorInvalidTemplate" if "parsePlaceholder L t j = Inl e" for j
    using that by (auto simp: parsePlaceholder_def Let_def invalid_template_def mk_resolution_error_def split: if_splits)
  from "1.prems" bad "1.IH" show ?case
    by (subst (asm) interpolate_loop.simps) (fastforce split: if_splits sum.splits option.splits)
qed

text \<open>
  C3. Goal interpolation against the reference semantics of templates.  On a well-formed template the
  goal is every literal byte, the parameter's value for every placeholder (values are not scanned
  again) and \<^verbatim>\<open>${name}\<close> for every escaped placeholder, provided the parameters are exactly the
  placeholders; otherwise the missing, else the unused names are reported, sorted and complete.  On
  any other template the result is an \<^verbatim>\<open>InvalidTemplate\<close> error.
\<close>

theorem interpolateGoal_spec:
  fixes ps :: "string go_map option"
  defines "given \<equiv> fst ` set (slice ps)"
  shows "(template_ok t \<longrightarrow> (\<exists>segs. segments_ok segs \<and> t = unparse segs \<and>
      interpolateGoal L t ps =
        (if placeholders segs - given \<noteq> {} then
           Inl ((mk_resolution_error ErrorMissingParameters)\<lparr>re_names := sorted_list_of_set (placeholders segs - given)\<rparr>)
         else if given - placeholders segs \<noteq> {} then
           Inl ((mk_resolution_error ErrorUnusedParameters)\<lparr>re_names := sorted_list_of_set (given - placeholders segs)\<rparr>)
         else Inr (render (map_of (slice ps)) segs)))) \<and>
    (\<not> template_ok t \<longrightarrow> (\<exists>e. interpolateGoal L t ps = Inl e \<and> re_code e = ErrorInvalidTemplate))"
proof (intro conjI impI)
  have dom: "dom (map_of (slice ps)) = given" by (simp add: given_def dom_map_of_conv_image_fst)
  assume "template_ok t"
  then obtain segs where segs: "segments_ok segs" "t = unparse segs" by (auto simp: template_ok_def)
  then obtain u m where run: "interpolate_loop L t (map_of (slice ps)) 0 [] [] [] = Inr (render (map_of (slice ps)) segs, u, m)"
    and sets: "set u = placeholders segs \<inter> given" "set m = placeholders segs - given" "distinct m"
    using interpolate_loop_complete [of segs 0 t L "map_of (slice ps)" "[]" "[]" "[]"]
    by (auto simp: loop_outcome_def dom)
  let ?unused = "remdups (filter (\<lambda>n. n \<notin> set u) (map fst (slice ps)))"
  have un: "set ?unused = given - placeholders segs" using sets(1) by (auto simp: given_def)
  have names: "sort m = sorted_list_of_set (placeholders segs - given)"
    "sort ?unused = sorted_list_of_set (given - placeholders segs)"
    using sets sorted_list_of_set_sort_remdups [of m] sorted_list_of_set_sort_remdups [of ?unused] un
    by (simp add: distinct_remdups_id, metis distinct_remdups distinct_remdups_id)
  have nonempty: "m \<noteq> [] \<longleftrightarrow> placeholders segs - given \<noteq> {}" "?unused \<noteq> [] \<longleftrightarrow> given - placeholders segs \<noteq> {}"
    using sets(2) un by (metis set_empty)+
  have "interpolateGoal L t ps =
        (if m \<noteq> [] then Inl ((mk_resolution_error ErrorMissingParameters)\<lparr>re_names := sort m\<rparr>)
         else if ?unused \<noteq> [] then Inl ((mk_resolution_error ErrorUnusedParameters)\<lparr>re_names := sort ?unused\<rparr>)
         else Inr (render (map_of (slice ps)) segs))"
    by (simp only: interpolateGoal_def run sum.case prod.case Let_def)
  then show "\<exists>segs. segments_ok segs \<and> t = unparse segs \<and> interpolateGoal L t ps =
        (if placeholders segs - given \<noteq> {} then
           Inl ((mk_resolution_error ErrorMissingParameters)\<lparr>re_names := sorted_list_of_set (placeholders segs - given)\<rparr>)
         else if given - placeholders segs \<noteq> {} then
           Inl ((mk_resolution_error ErrorUnusedParameters)\<lparr>re_names := sorted_list_of_set (given - placeholders segs)\<rparr>)
         else Inr (render (map_of (slice ps)) segs))"
    unfolding names nonempty using segs by blast
next
  assume "\<not> template_ok t"
  then have "interpolate_loop L t (map_of (slice ps)) 0 [] [] [] \<noteq> Inr res" for res
    using interpolate_loop_sound [of L t "map_of (slice ps)" 0 "[]" "[]" "[]" res] by (auto simp: template_ok_def)
  then obtain e where "interpolate_loop L t (map_of (slice ps)) 0 [] [] [] = Inl e"
    by (cases "interpolate_loop L t (map_of (slice ps)) 0 [] [] []") auto
  with interpolate_loop_error [OF this] show "\<exists>e. interpolateGoal L t ps = Inl e \<and> re_code e = ErrorInvalidTemplate"
    by (simp add: interpolateGoal_def)
qed

theorem interpolateGoal_spec_witness:
  "template_ok (''Hi '' @ open_placeholder @ ''who}'' @ escaped_placeholder @ ''x}'') \<and>
   (\<exists>segs. segments_ok segs \<and>
      interpolateGoal zero_digest (''Hi '' @ open_placeholder @ ''who}'' @ escaped_placeholder @ ''x}'') (Some [(''who'', ''Bob'')]) =
        Inr (''Hi Bob'' @ open_placeholder @ ''x}''))"
proof -
  let ?t = "''Hi '' @ open_placeholder @ ''who}'' @ escaped_placeholder @ ''x}''"
  have ok: "template_ok ?t"
    unfolding template_ok_def
    by (rule exI [of _ "map Literal ''Hi '' @ [Placeholder ''who'', Escaped ''x'']"]) code_simp
  have "interpolateGoal zero_digest ?t (Some [(''who'', ''Bob'')]) = Inr (''Hi Bob'' @ open_placeholder @ ''x}'')"
    by code_simp
  with ok interpolateGoal_spec [of ?t zero_digest "Some [(''who'', ''Bob'')]"] show ?thesis by blast
qed

subsection \<open>Reserved names, readiness and the snapshot\<close>

text \<open>
  The names a Service Agent's standing runs use are exactly the reserved ones: \<^verbatim>\<open><agent>-<n>\<close> with a
  canonical decimal \<^verbatim>\<open>n\<close> from 1 to the largest int32, so a user invocation can never take the name of
  a standing run.
\<close>

theorem isReservedServiceRunName_iff:
  "isReservedServiceRunName agent run \<longleftrightarrow>
     (\<exists>n. 1 \<le> n \<and> n \<le> max_int32 \<and> run = agent @ ''-'' @ show_int n)"
proof
  assume "isReservedServiceRunName agent run"
  then obtain v where "parse_int 32 (trim_prefix run (agent @ ''-'')) = Some v" "v \<ge> 1" "run = agent @ ''-'' @ show_int v"
    by (auto simp: isReservedServiceRunName_def Let_def split: option.splits)
  with parse_int_range [OF this(1)] show "\<exists>n. 1 \<le> n \<and> n \<le> max_int32 \<and> run = agent @ ''-'' @ show_int n" by auto
next
  assume "\<exists>n. 1 \<le> n \<and> n \<le> max_int32 \<and> run = agent @ ''-'' @ show_int n"
  then obtain n where n: "1 \<le> n" "n \<le> max_int32" "run = (agent @ ''-'') @ show_int n" by auto
  then have "trim_prefix run (agent @ ''-'') = show_int n" "has_prefix run (agent @ ''-'')"
    by (simp_all only: trim_prefix_append has_prefix_append)
  moreover have "parse_int 32 (show_int n) = Some n" using n by (intro parse_int_show_int) auto
  ultimately show "isReservedServiceRunName agent run"
    using n by (simp add: isReservedServiceRunName_def)
qed

lemma interpolateGoal_Inr_ok: "interpolateGoal L t ps = Inr g \<Longrightarrow> template_ok t"
  using interpolate_loop_sound [of L t "map_of (slice ps)" 0 "[]" "[]" "[]"]
  by (auto simp: interpolateGoal_def template_ok_def split: sum.splits)

lemma interpolateGoal_exists: "template_ok t \<Longrightarrow> \<exists>ps g. interpolateGoal L t ps = Inr g"
proof -
  assume "template_ok t"
  then obtain segs where segs: "segments_ok segs" "t = unparse segs" by (auto simp: template_ok_def)
  let ?ps = "map (\<lambda>n. (n, [])) (sorted_list_of_set (placeholders segs)) :: string go_map"
  have dom: "dom (map_of ?ps) = placeholders segs" by (simp add: dom_map_of_conv_image_fst image_image)
  obtain u m where "interpolate_loop L t (map_of ?ps) 0 [] [] [] = Inr (render (map_of ?ps) segs, u, m)"
    "set u = placeholders segs" "m = []"
    using interpolate_loop_complete [of segs 0 t L "map_of ?ps" "[]" "[]" "[]"] segs by (auto simp: loop_outcome_def dom)
  then have "interpolateGoal L t (Some ?ps) = Inr (render (map_of ?ps) segs)"
    by (auto simp: interpolateGoal_def)
  then show ?thesis by blast
qed

lemma interpolateGoal_no_parameters:
  "interpolateGoal L t None = Inl e \<Longrightarrow> re_code e = ErrorMissingParameters \<longleftrightarrow> template_ok t"
  using interpolate_loop_sound [of L t "map_of []" 0 "[]" "[]" "[]"]
    interpolate_loop_error [of L t "map_of []" 0 "[]" "[]" "[]"] interpolate_loop_complete [of _ 0 t L "map_of []" "[]" "[]" "[]"]
  by (fastforce simp: interpolateGoal_def template_ok_def mk_resolution_error_def split: sum.splits if_splits)

text \<open>
  Readiness of a Task Agent is neither too weak nor too strong: \<^verbatim>\<open>ValidateTask\<close> accepts an Agent
  exactly when it is in Task mode and some choice of parameters resolves to a goal.
\<close>

theorem ValidateTask_iff_invocable:
  "ValidateTask L (Some a) = None \<longleftrightarrow>
     sp_mode (ag_spec a) = AgentModeTask \<and> (\<exists>ps g. resolveTaskGoal L (ag_spec a) ps = Inr g)"
proof (cases "sp_mode (ag_spec a) = AgentModeTask \<and> sp_goal (ag_spec a) = [] \<and> sp_goal_template (ag_spec a) \<noteq> []")
  case True
  let ?t = "sp_goal_template (ag_spec a)"
  have "resolveTaskGoal L (ag_spec a) ps = interpolateGoal L ?t ps" for ps
    using True by (simp add: resolveTaskGoal_def)
  with True interpolateGoal_exists [of ?t L] interpolateGoal_Inr_ok [of L ?t] interpolateGoal_no_parameters [of L ?t]
  show ?thesis by (auto simp: ValidateTask_def split: sum.splits if_splits)
next
  case False
  then show ?thesis
    by (auto simp: ValidateTask_def resolveTaskGoal_def invalid_template_def mk_resolution_error_def
        split: sum.splits if_splits option.splits)
qed

definition snapshot_of :: "golib \<Rightarrow> agent \<Rightarrow> agent_run \<Rightarrow> bool" where
  "snapshot_of L a r \<longleftrightarrow>
     (let p = ar_spec r; s = ag_spec a in
      rp_agent_ref p = Some (agent_name a) \<and> rp_provider p = NormalizeProvider L (sp_provider s) \<and>
      rp_model p = sp_model s \<and> rp_tools p = sp_tools s \<and> rp_budget p = sp_budget s \<and>
      rp_secret_ref p = sp_secret_ref s \<and> rp_knowledge_config_map_ref p = sp_knowledge_config_map_ref s \<and>
      rp_service_account_name p = sp_service_account_name s \<and> rp_runtime p = sp_runtime s \<and>
      rp_env p = sp_env s \<and> run_namespace r = agent_namespace a \<and>
      map_of (m_labels (ar_meta r)) LabelAgentName = Some (agent_name a))"

lemma NewForAgent_Inr:
  assumes "kube_contract K" "NewForAgent L K a n g = Inr r"
  shows "snapshot_of L a r \<and> run_name r = n \<and> rp_goal (ar_spec r) = g \<and> rp_parameters (ar_spec r) = None \<and>
    rp_delivery_port (ar_spec r) = None \<and> m_labels (ar_meta r) = [(LabelAgentName, agent_name a)] \<and>
    m_annotations (ar_meta r) = [] \<and> is_controlled_by K (ar_meta r) (ag_meta a)"
proof -
  from assms(2) obtain m' where m': "set_controller_reference K ''Agent'' (ag_meta a)
      (empty_meta\<lparr>m_name := n, m_namespace := agent_namespace a, m_labels := [(LabelAgentName, agent_name a)]\<rparr>) = Inr m'"
    and r: "ar_meta r = m'"
    by (auto simp: NewForAgent_def Let_def split: sum.splits)
  from kube_contract.owner_frame [OF assms(1) m'] kube_contract.owner_controls [OF assms(1) m'] r assms(2)
  show ?thesis by (auto simp: NewForAgent_def Let_def snapshot_of_def empty_meta_def split: sum.splits)
qed

lemma NewForAgent_exists:
  assumes "kube_contract K"
  shows "\<exists>r. NewForAgent L K a n g = Inr r"
  using kube_contract.owner_fresh [OF assms, of "empty_meta\<lparr>m_name := n, m_namespace := agent_namespace a,
      m_labels := [(LabelAgentName, agent_name a)]\<rparr>" "ag_meta a" "''Agent''"]
  by (auto simp: NewForAgent_def Let_def empty_meta_def)

lemma lockedInvocationFields_Nil:
  "lockedInvocationFields p = [] \<longleftrightarrow>
     rp_goal p = [] \<and> rp_provider p = [] \<and> rp_model p = [] \<and> rp_tools p = None \<and> rp_budget p = None \<and>
     rp_secret_ref p = None \<and> rp_knowledge_config_map_ref p = None \<and> rp_service_account_name p = [] \<and>
     rp_runtime p = empty_runtime \<and> rp_env p = None \<and> rp_delivery_port p = None"
proof -
  have "sort xs = [] \<longleftrightarrow> xs = []" for xs :: "string list" by (metis length_0_conv length_sort)
  then show ?thesis by (auto simp: lockedInvocationFields_def)
qed

definition delivery_choice :: "agent \<Rightarrow> int option" where
  "delivery_choice a =
     (if sp_mode (ag_spec a) = AgentModeService then rt_delivery_port (sp_runtime (ag_spec a)) else None)"

lemma resolve_goal_Inr:
  assumes "resolve_goal L a req = Inr (g, d)"
  shows "d = delivery_choice a \<and> sp_mode (ag_spec a) \<in> {AgentModeTask, AgentModeService} \<and>
    (sp_mode (ag_spec a) = AgentModeService \<longrightarrow>
       \<not> isReservedServiceRunName (agent_name a) (run_name req) \<and> (\<exists>p. Some p = d \<and> 1 \<le> p \<and> p \<le> 65535))"
  using assms
  by (cases "rt_delivery_port (sp_runtime (ag_spec a))")
     (auto simp: resolve_goal_def resolve_service_goal_def delivery_choice_def not_less
      split: if_splits sum.splits option.splits)

lemma ResolveInvocation_Inr:
  assumes "kube_contract K" "ResolveInvocation L K (Some a) (Some req) = Inr r" "go_map_ok (m_labels (ar_meta req))"
  shows "lockedInvocationFields (ar_spec req) = [] \<and> rp_agent_ref (ar_spec req) = Some (agent_name a) \<and>
    snapshot_of L a r \<and> resolve_goal L a req = Inr (rp_goal (ar_spec r), rp_delivery_port (ar_spec r)) \<and>
    run_name r = run_name req \<and> rp_parameters (ar_spec r) = rp_parameters (ar_spec req) \<and>
    is_controlled_by K (ar_meta r) (ag_meta a) \<and>
    rp_delivery_port (ar_spec r) = delivery_choice a \<and>
    (\<forall>k. k \<noteq> LabelAgentName \<longrightarrow> map_of (m_labels (ar_meta r)) k = map_of (m_labels (ar_meta req)) k) \<and>
    (sp_mode (ag_spec a) = AgentModeService \<longrightarrow> \<not> isReservedServiceRunName (agent_name a) (run_name r))"
proof -
  from assms(2) obtain g d r0 where locked: "lockedInvocationFields (ar_spec req) = []"
    and ref: "rp_agent_ref (ar_spec req) = Some (agent_name a)"
    and goal: "resolve_goal L a req = Inr (g, d)" and new: "NewForAgent L K a (run_name req) g = Inr r0"
    and r: "r = apply_invocation a req d r0"
    by (auto simp: ResolveInvocation_def Let_def split: if_splits option.splits sum.splits)
  note n = NewForAgent_Inr [OF assms(1) new]
  have labels: "map_of (m_labels (ar_meta r)) =
      (map_of [(LabelAgentName, agent_name a)] ++ map_of (m_labels (ar_meta req)))(LabelAgentName \<mapsto> agent_name a)"
    using n by (simp add: r apply_invocation_def map_of_put_all [OF assms(3)])
  have "map_of (m_labels (ar_meta r)) k = map_of (m_labels (ar_meta req)) k" if "k \<noteq> LabelAgentName" for k
    using that by (simp add: labels map_add_def split: option.splits)
  moreover have "map_of (m_labels (ar_meta r)) LabelAgentName = Some (agent_name a)" by (simp add: labels)
  moreover have "is_controlled_by K (ar_meta r) (ag_meta a) = is_controlled_by K (ar_meta r0) (ag_meta a)"
    by (rule kube_contract.controlled_refs [OF assms(1)]) (simp add: r apply_invocation_def)
  ultimately show ?thesis
    using n locked ref goal resolve_goal_Inr [OF goal]
    by (auto simp: r snapshot_of_def apply_invocation_def Let_def)
qed

text \<open>
  C13. A resolved invocation is a snapshot of the Agent and nothing else: the invocation may only name the
  Agent and give parameters (every execution field it sets is refused), and then the run carries the
  Agent's execution fields, the resolved goal, the invocation's name and parameters, the Agent's
  label, a controller reference to the Agent, and a delivery target exactly for a Service Agent, whose
  standing-run names it cannot take.
\<close>

theorem ResolveInvocation_snapshot:
  assumes "kube_contract K" "ResolveInvocation L K (Some a) (Some req) = Inr r" "go_map_ok (m_labels (ar_meta req))"
  shows "lockedInvocationFields (ar_spec req) = [] \<and> rp_agent_ref (ar_spec req) = Some (agent_name a) \<and>
    snapshot_of L a r \<and> resolve_goal L a req = Inr (rp_goal (ar_spec r), rp_delivery_port (ar_spec r)) \<and>
    run_name r = run_name req \<and> rp_parameters (ar_spec r) = rp_parameters (ar_spec req) \<and>
    is_controlled_by K (ar_meta r) (ag_meta a) \<and>
    rp_delivery_port (ar_spec r) = delivery_choice a \<and>
    (\<forall>k. k \<noteq> LabelAgentName \<longrightarrow> map_of (m_labels (ar_meta r)) k = map_of (m_labels (ar_meta req)) k) \<and>
    (sp_mode (ag_spec a) = AgentModeService \<longrightarrow> \<not> isReservedServiceRunName (agent_name a) (run_name r))"
  using ResolveInvocation_Inr [OF assms] .

definition sparse_invocation :: agent_run where
  "sparse_invocation = \<lparr>ar_type_meta = \<lparr>tm_kind = ''AgentRun'', tm_api_version = GroupVersion\<rparr>,
     ar_meta = empty_meta\<lparr>m_name := ''ask-1'', m_labels := [(''team'', ''docs'')]\<rparr>,
     ar_spec = \<lparr>rp_agent_ref = Some ''docs'', rp_parameters = None, rp_delivery_port = None, rp_goal = [],
       rp_provider = [], rp_model = [], rp_tools = None, rp_budget = None, rp_secret_ref = None,
       rp_knowledge_config_map_ref = None, rp_service_account_name = [], rp_runtime = empty_runtime, rp_env = None\<rparr>,
     ar_status = empty_run_status\<rparr>"

theorem ResolveInvocation_snapshot_witness:
  "kube_contract doc_kube \<and>
   (\<exists>r. ResolveInvocation zero_digest doc_kube (Some (sample_agent AgentModeTask)) (Some sparse_invocation) = Inr r \<and>
      snapshot_of zero_digest (sample_agent AgentModeTask) r \<and> run_name r = ''ask-1'' \<and>
      map_of (m_labels (ar_meta r)) ''team'' = Some ''docs'')"
proof -
  let ?a = "sample_agent AgentModeTask"
  have goal: "resolve_goal zero_digest ?a sparse_invocation = Inr (''review'', None)"
    by (simp add: resolve_goal_def resolveTaskGoal_def sparse_invocation_def sample_defs)
  have "lockedInvocationFields (ar_spec sparse_invocation) = []"
    by (simp add: lockedInvocationFields_Nil sparse_invocation_def)
  moreover have "rp_agent_ref (ar_spec sparse_invocation) = Some (agent_name ?a)" "agent_name ?a \<noteq> []"
    "run_namespace sparse_invocation = []"
    by (simp_all add: sparse_invocation_def sample_defs)
  ultimately obtain r where r: "ResolveInvocation zero_digest doc_kube (Some ?a) (Some sparse_invocation) = Inr r"
    using goal NewForAgent_exists [OF doc.kube_contract_axioms, of zero_digest ?a "run_name sparse_invocation" "''review''"]
    by (auto simp: ResolveInvocation_def)
  have "go_map_ok (m_labels (ar_meta sparse_invocation))" by (simp add: sparse_invocation_def go_map_ok_def)
  from ResolveInvocation_snapshot [OF doc.kube_contract_axioms r this] r doc.kube_contract_axioms show ?thesis
    by (auto simp: sparse_invocation_def)
qed

end
