(* ===== verification/Admission.thy ===== *)
theory Admission
  imports Run_Factory
begin

text \<open>
  \<^verbatim>\<open>internal/admission/handler.go\<close>: the mutating webhook that turns a sparse AgentRun into a resolved
  one.  The JSON codec of the request object and the API reader are
  parameters; a response is what the webhook library is asked to build.
\<close>

datatype admission_response =
  Errored int string | Allowed string | Denied string | PatchResponseFromRaw string string

record admission_request =
  rq_namespace :: string
  rq_object_raw :: string

definition factory_error_text :: "golib \<Rightarrow> factory_error \<Rightarrow> string" where
  "factory_error_text L e = (case e of Resolution r \<Rightarrow> resolution_error_Error L r | OtherError s \<Rightarrow> s)"

text \<open>What the handler makes of the decoded object before it looks up the Agent.\<close>

definition normalize_invocation :: "admission_request \<Rightarrow> agent_run \<Rightarrow> agent_run" where
  "normalize_invocation request invocation =
     (let namespace = (if rq_namespace request = [] then run_namespace invocation else rq_namespace request) in
      invocation\<lparr>ar_meta := (ar_meta invocation)\<lparr>m_namespace := namespace\<rparr>,
        ar_spec := (ar_spec invocation)\<lparr>rp_parameters :=
          (if slice (rp_parameters (ar_spec invocation)) = [] then None
           else rp_parameters (ar_spec invocation))\<rparr>\<rparr>)"

definition Handle ::
  "golib \<Rightarrow> kube_lib \<Rightarrow> (string \<Rightarrow> agent_run go_result) \<Rightarrow> (agent_run \<Rightarrow> string go_result) \<Rightarrow>
   (string \<Rightarrow> string \<Rightarrow> api_error + agent) \<Rightarrow> admission_request \<Rightarrow> admission_response" where
  "Handle L K unmarshal marshal get_agent request =
     (case unmarshal (rq_object_raw request) of
        Inl err \<Rightarrow> Errored 400 err
      | Inr decoded \<Rightarrow>
          (let referenceName = (case rp_agent_ref (ar_spec decoded) of None \<Rightarrow> [] | Some n \<Rightarrow> n) in
           if referenceName = [] then Allowed ''AgentRun does not reference an Agent''
           else
             (let invocation = normalize_invocation request decoded in
              case get_agent (run_namespace invocation) referenceName of
                Inl NotFound \<Rightarrow>
                  Denied (resolution_error_Error L
                    ((mk_resolution_error ErrorMissingAgent)\<lparr>re_agent_name := referenceName\<rparr>))
              | Inl err \<Rightarrow> Errored 500 (api_error_text K err)
              | Inr a \<Rightarrow>
                  (case ResolveInvocation L K (Some a) (Some invocation) of
                     Inl err \<Rightarrow> Denied (factory_error_text L err)
                   | Inr resolved \<Rightarrow>
                       (case marshal resolved of
                          Inl err \<Rightarrow> Errored 500 err
                        | Inr mutated \<Rightarrow> PatchResponseFromRaw (rq_object_raw request) mutated)))))"

text \<open>
  C14. Admission never lets an unresolved invocation through: an object that references an Agent is
  admitted only as a patch of the request's object into a run resolved from that Agent of the request's
  namespace (so a snapshot of it); every other answer refuses it, and an object without a reference is
  admitted unchanged.
\<close>

theorem Handle_admits_only_resolved:
  assumes "kube_contract K"
    and "\<And>ns n a. get_agent ns n = Inr a \<Longrightarrow> agent_name a = n \<and> agent_namespace a = ns"
    and "unmarshal (rq_object_raw request) = Inr decoded" "go_map_ok (m_labels (ar_meta decoded))"
  shows "(case Handle L K unmarshal marshal get_agent request of
            Allowed _ \<Rightarrow> slice (rp_agent_ref (ar_spec decoded)) = []
          | PatchResponseFromRaw raw mutated \<Rightarrow> raw = rq_object_raw request \<and>
              (\<exists>a r. get_agent (run_namespace r) (agent_name a) = Inr a \<and> rp_agent_ref (ar_spec decoded) = Some (agent_name a) \<and>
                 run_namespace r = (if rq_namespace request = [] then run_namespace decoded else rq_namespace request) \<and>
                 marshal r = Inr mutated \<and> snapshot_of L a r \<and> run_name r = run_name decoded \<and>
                 is_controlled_by K (ar_meta r) (ag_meta a))
          | _ \<Rightarrow> slice (rp_agent_ref (ar_spec decoded)) \<noteq> [])"
proof (cases "slice (rp_agent_ref (ar_spec decoded)) = []")
  case True
  then show ?thesis using assms(3) by (auto simp: Handle_def slice_def split: option.splits)
next
  case False
  then obtain ref where ref: "rp_agent_ref (ar_spec decoded) = Some ref" "ref \<noteq> []" by (auto simp: slice_def split: option.splits)
  let ?q = "normalize_invocation request decoded"
  show ?thesis
  proof (cases "get_agent (run_namespace ?q) ref")
    case (Inl err)
    then show ?thesis using assms(3) ref by (cases err) (simp_all add: Handle_def)
  next
    case (Inr a)
    note found = Inr and key = assms(2) [OF Inr]
    show ?thesis
    proof (cases "ResolveInvocation L K (Some a) (Some ?q)")
      case (Inl err)
      then show ?thesis using assms(3) ref found by (simp add: Handle_def)
    next
      case (Inr r)
      have "go_map_ok (m_labels (ar_meta ?q))" using assms(4) by (simp add: normalize_invocation_def Let_def)
      note res = ResolveInvocation_Inr [OF assms(1) Inr this]
      have "run_namespace r = run_namespace ?q" using res key by (simp add: snapshot_of_def Let_def)
      moreover have "run_namespace ?q = (if rq_namespace request = [] then run_namespace decoded else rq_namespace request)"
        "run_name ?q = run_name decoded"
        by (simp_all add: normalize_invocation_def Let_def)
      ultimately show ?thesis using assms(3) ref found Inr res key
        by (auto simp: Handle_def split: sum.splits intro!: exI [of _ a] exI [of _ r])
    qed
  qed
qed

definition sample_request :: admission_request where
  "sample_request = \<lparr>rq_namespace = ''default'', rq_object_raw = ''{}''\<rparr>"

definition sample_reader :: "string \<Rightarrow> string \<Rightarrow> api_error + agent" where
  "sample_reader ns n = (if ns = ''default'' \<and> n = ''docs'' then Inr (sample_agent AgentModeTask) else Inl NotFound)"

theorem Handle_admits_only_resolved_witness:
  "Handle zero_digest doc_kube (\<lambda>_. Inr sparse_invocation) (\<lambda>r. Inr (rp_goal (ar_spec r))) sample_reader sample_request =
     PatchResponseFromRaw ''{}'' ''review'' \<and>
   (\<exists>a r. rp_goal (ar_spec r) = ''review'' \<and> snapshot_of zero_digest a r \<and> run_name r = ''ask-1'' \<and>
      is_controlled_by doc_kube (ar_meta r) (ag_meta a))"
proof -
  let ?h = "Handle zero_digest doc_kube (\<lambda>_. Inr sparse_invocation) (\<lambda>r. Inr (rp_goal (ar_spec r))) sample_reader sample_request"
  have h: "?h = PatchResponseFromRaw ''{}'' ''review''" by code_simp
  have reader: "agent_name a = n \<and> agent_namespace a = ns" if "sample_reader ns n = Inr a" for ns n a
    using that by (auto simp: sample_reader_def sample_defs split: if_splits)
  have "go_map_ok (m_labels (ar_meta sparse_invocation))" by (simp add: sparse_invocation_def go_map_ok_def)
  from Handle_admits_only_resolved [where K = doc_kube and get_agent = sample_reader and unmarshal = "\<lambda>_. Inr sparse_invocation"
      and request = sample_request and L = zero_digest and marshal = "\<lambda>r. Inr (rp_goal (ar_spec r))",
      OF doc.kube_contract_axioms reader refl this] h
  show ?thesis by (auto simp: sparse_invocation_def)
qed

end
