(* ===== verification/Kube_Io.thy ===== *)
theory Kube_Io
  imports Kube_Lib
begin

text \<open>
  The effects of the controllers.  A reconcile function reads and writes through the Kubernetes client
  (\<^verbatim>\<open>client.Client\<close>, served from a cache, and \<^verbatim>\<open>APIReader\<close>, live), reads the clock and the random
  source and does HTTP requests.  All of these are fields of the record \<open>server\<close> over a state of any
  type, a parameter of every definition: it may serve stale caches, fail any call and change between two
  calls.  An operation returns its result or an error, the list of calls it made with their answers, and
  the new state of the server.

  \<open>holds m Q\<close> says that \<open>Q\<close> is true of the result and the calls of \<open>m\<close> whatever the server does; its
  rules decompose a function the way it is composed.
\<close>

datatype cerror = ApiErr api_error | ConfigurationError string | PlainError string

record http_request =
  hr_host :: string
  hr_url_host :: string
  hr_path :: string
  hr_challenge :: string
  hr_body :: string
  hr_deadline :: time

record http_response =
  rp_status_code :: int
  rp_content_type :: string
  rp_signature :: string
  rp_body :: string
  rp_read_error :: "string option"

datatype event =
  GotRun bool string string "api_error + agent_run"
| GotAgent bool string string "api_error + agent"
| GotPod bool string string "api_error + pod"
| GotSecret string string "api_error + secret"
| ListedRuns string string "api_error + agent_run list"
| CreatedRun agent_run "api_error option"
| CreatedPod pod "api_error option"
| CreatedSecret secret "api_error option"
| DeletedRun agent_run "api_error option"
| DeletedPod pod "api_error option"
| PatchedAgent agent agent_status "api_error + agent"
| PatchedRun agent_run agent_run_status "api_error + agent_run"
| ReadClock time
| ReadRandom nat "string go_result"
| DidHttp http_request "string + http_response"

record 's server =
  sv_get_run :: "bool \<Rightarrow> string \<Rightarrow> string \<Rightarrow> 's \<Rightarrow> (api_error + agent_run) \<times> 's"
  sv_get_agent :: "bool \<Rightarrow> string \<Rightarrow> string \<Rightarrow> 's \<Rightarrow> (api_error + agent) \<times> 's"
  sv_get_pod :: "bool \<Rightarrow> string \<Rightarrow> string \<Rightarrow> 's \<Rightarrow> (api_error + pod) \<times> 's"
  sv_get_secret :: "string \<Rightarrow> string \<Rightarrow> 's \<Rightarrow> (api_error + secret) \<times> 's"
  sv_list_runs :: "string \<Rightarrow> string \<Rightarrow> 's \<Rightarrow> (api_error + agent_run list) \<times> 's"
  sv_create_run :: "agent_run \<Rightarrow> 's \<Rightarrow> api_error option \<times> 's"
  sv_create_pod :: "pod \<Rightarrow> 's \<Rightarrow> api_error option \<times> 's"
  sv_create_secret :: "secret \<Rightarrow> 's \<Rightarrow> api_error option \<times> 's"
  sv_delete_run :: "agent_run \<Rightarrow> 's \<Rightarrow> api_error option \<times> 's"
  sv_delete_pod :: "pod \<Rightarrow> 's \<Rightarrow> api_error option \<times> 's"
  sv_patch_agent :: "agent \<Rightarrow> agent_status \<Rightarrow> 's \<Rightarrow> (api_error + agent) \<times> 's"
  sv_patch_run :: "agent_run \<Rightarrow> agent_run_status \<Rightarrow> 's \<Rightarrow> (api_error + agent_run) \<times> 's"
  sv_now :: "'s \<Rightarrow> time \<times> 's"
  sv_rand :: "nat \<Rightarrow> 's \<Rightarrow> string go_result \<times> 's"
  sv_http :: "http_request \<Rightarrow> 's \<Rightarrow> (string + http_response) \<times> 's"

text \<open>An operation over calls of any type \<open>'e\<close>; those of the controllers are the \<open>event\<close>s above.\<close>

type_synonym ('e, 's, 'a) calls = "'s \<Rightarrow> (cerror + 'a) \<times> 'e list \<times> 's"

type_synonym ('s, 'a) io = "(event, 's, 'a) calls"

definition io_return :: "'a \<Rightarrow> ('e, 's, 'a) calls" where
  "io_return x s = (Inr x, [], s)"

definition io_fail :: "cerror \<Rightarrow> ('e, 's, 'a) calls" where
  "io_fail e s = (Inl e, [], s)"

definition io_bind :: "('e, 's, 'a) calls \<Rightarrow> ('a \<Rightarrow> ('e, 's, 'b) calls) \<Rightarrow> ('e, 's, 'b) calls" where
  "io_bind m f s =
     (case m s of
        (Inl e, t, s') \<Rightarrow> (Inl e, t, s')
      | (Inr x, t, s') \<Rightarrow> (case f x s' of (r, t', s'') \<Rightarrow> (r, t @ t', s'')))"

text \<open>Running an operation for its result, an error included, as \<^verbatim>\<open>if err := ...; err != nil\<close> does.\<close>

definition io_try :: "('e, 's, 'a) calls \<Rightarrow> ('e, 's, cerror + 'a) calls" where
  "io_try m s = (case m s of (r, t, s') \<Rightarrow> (Inr r, t, s'))"

definition io_call :: "('s \<Rightarrow> 'r \<times> 's) \<Rightarrow> ('r \<Rightarrow> 'e) \<Rightarrow> ('e, 's, 'r) calls" where
  "io_call f ev s = (case f s of (r, s') \<Rightarrow> (Inr r, [ev r], s'))"

text \<open>A call that leaves no trace, such as reading a clock.\<close>

definition io_read :: "('s \<Rightarrow> 'a \<times> 's) \<Rightarrow> ('e, 's, 'a) calls" where
  "io_read op s = (case op s of (x, s1) \<Rightarrow> (Inr x, [], s1))"

text \<open>The client's calls, each with the error still to be inspected.\<close>

definition Get_run :: "'s server \<Rightarrow> bool \<Rightarrow> string \<Rightarrow> string \<Rightarrow> ('s, api_error + agent_run) io" where
  "Get_run S live ns n = io_call (sv_get_run S live ns n) (GotRun live ns n)"

definition Get_agent :: "'s server \<Rightarrow> bool \<Rightarrow> string \<Rightarrow> string \<Rightarrow> ('s, api_error + agent) io" where
  "Get_agent S live ns n = io_call (sv_get_agent S live ns n) (GotAgent live ns n)"

definition Get_pod :: "'s server \<Rightarrow> bool \<Rightarrow> string \<Rightarrow> string \<Rightarrow> ('s, api_error + pod) io" where
  "Get_pod S live ns n = io_call (sv_get_pod S live ns n) (GotPod live ns n)"

definition Get_secret :: "'s server \<Rightarrow> string \<Rightarrow> string \<Rightarrow> ('s, api_error + secret) io" where
  "Get_secret S ns n = io_call (sv_get_secret S ns n) (GotSecret ns n)"

definition List_runs :: "'s server \<Rightarrow> string \<Rightarrow> string \<Rightarrow> ('s, api_error + agent_run list) io" where
  "List_runs S ns uid = io_call (sv_list_runs S ns uid) (ListedRuns ns uid)"

definition Create_run :: "'s server \<Rightarrow> agent_run \<Rightarrow> ('s, api_error option) io" where
  "Create_run S r = io_call (sv_create_run S r) (CreatedRun r)"

definition Create_pod :: "'s server \<Rightarrow> pod \<Rightarrow> ('s, api_error option) io" where
  "Create_pod S p = io_call (sv_create_pod S p) (CreatedPod p)"

definition Create_secret :: "'s server \<Rightarrow> secret \<Rightarrow> ('s, api_error option) io" where
  "Create_secret S x = io_call (sv_create_secret S x) (CreatedSecret x)"

definition Delete_run :: "'s server \<Rightarrow> agent_run \<Rightarrow> ('s, api_error option) io" where
  "Delete_run S r = io_call (sv_delete_run S r) (DeletedRun r)"

definition Delete_pod :: "'s server \<Rightarrow> pod \<Rightarrow> ('s, api_error option) io" where
  "Delete_pod S p = io_call (sv_delete_pod S p) (DeletedPod p)"

definition now :: "'s server \<Rightarrow> ('s, time) io" where
  "now S = io_call (sv_now S) ReadClock"

definition rand_Read :: "'s server \<Rightarrow> nat \<Rightarrow> ('s, string go_result) io" where
  "rand_Read S n = io_call (sv_rand S n) (ReadRandom n)"

definition Do_http :: "'s server \<Rightarrow> http_request \<Rightarrow> ('s, string + http_response) io" where
  "Do_http S q = io_call (sv_http S q) (DidHttp q)"

definition api_result :: "api_error + 'a \<Rightarrow> ('e, 's, 'a) calls" where
  "api_result r = (case r of Inl e \<Rightarrow> io_fail (ApiErr e) | Inr x \<Rightarrow> io_return x)"

text \<open>
  \<^verbatim>\<open>patchStatus\<close>: a merge patch of the object's status against a copy taken before the mutation; on
  success the object is the server's answer.
\<close>

definition patch_agent_status :: "'s server \<Rightarrow> agent \<Rightarrow> agent_status \<Rightarrow> ('s, agent) io" where
  "patch_agent_status S a next = io_bind (io_call (sv_patch_agent S a next) (PatchedAgent a next)) api_result"

definition patch_run_status :: "'s server \<Rightarrow> agent_run \<Rightarrow> agent_run_status \<Rightarrow> ('s, agent_run) io" where
  "patch_run_status S r next = io_bind (io_call (sv_patch_run S r next) (PatchedRun r next)) api_result"

definition cerror_text :: "kube_lib \<Rightarrow> cerror \<Rightarrow> string" where
  "cerror_text K e = (case e of ApiErr a \<Rightarrow> api_error_text K a | ConfigurationError m \<Rightarrow> m | PlainError m \<Rightarrow> m)"

text \<open>The answer of a reconcile: requeue at once, after a delay, or not at all.\<close>

datatype ctrl_result = Done | Requeue | RequeueAfter duration

subsection \<open>Reasoning about all servers\<close>

definition holds :: "('e, 's, 'a) calls \<Rightarrow> (cerror + 'a \<Rightarrow> 'e list \<Rightarrow> bool) \<Rightarrow> bool" where
  "holds m Q \<longleftrightarrow> (\<forall>s r t s'. m s = (r, t, s') \<longrightarrow> Q r t)"

named_theorems io_rules "decomposition rules of holds"

lemma holdsD: "holds m Q \<Longrightarrow> m s = (r, t, s') \<Longrightarrow> Q r t"
  unfolding holds_def by blast

lemma holds_mono: "holds m Q \<Longrightarrow> (\<And>r t. Q r t \<Longrightarrow> R r t) \<Longrightarrow> holds m R"
  by (simp add: holds_def)

lemma holds_conj: "holds m Q \<Longrightarrow> holds m R \<Longrightarrow> holds m (\<lambda>r t. Q r t \<and> R r t)"
  by (simp add: holds_def)

lemma holds_return [io_rules, intro]: "Q (Inr x) [] \<Longrightarrow> holds (io_return x) Q"
  by (simp add: holds_def io_return_def)

lemma holds_fail [io_rules, intro]: "Q (Inl e) [] \<Longrightarrow> holds (io_fail e) Q"
  by (simp add: holds_def io_fail_def)

lemma holds_bind [io_rules]:
  assumes "holds m (\<lambda>r t. case r of Inl e \<Rightarrow> Q (Inl e) t | Inr x \<Rightarrow> holds (f x) (\<lambda>r' t'. Q r' (t @ t')))"
  shows "holds (io_bind m f) Q"
  unfolding holds_def
proof (intro allI impI)
  fix s r t s' assume run: "io_bind m f s = (r, t, s')"
  obtain r1 t1 s1 where m: "m s = (r1, t1, s1)" by (cases "m s")
  note q = holdsD [OF assms m]
  show "Q r t"
  proof (cases r1)
    case (Inl e)
    with run m q show ?thesis by (simp add: io_bind_def)
  next
    case (Inr x)
    obtain r2 t2 s2 where "f x s1 = (r2, t2, s2)" by (cases "f x s1")
    with run m q Inr show ?thesis by (auto simp: io_bind_def dest: holdsD)
  qed
qed

lemma holds_try [io_rules]: "holds m (\<lambda>r t. Q (Inr r) t) \<Longrightarrow> holds (io_try m) Q"
  by (auto simp: holds_def io_try_def split: prod.splits)

lemma holds_call [io_rules]: "(\<And>r. Q (Inr r) [ev r]) \<Longrightarrow> holds (io_call f ev) Q"
  by (auto simp: holds_def io_call_def split: prod.splits)

lemma holds_read [io_rules]: "(\<And>x. Q (Inr x) []) \<Longrightarrow> holds (io_read op) Q"
  by (auto simp: holds_def io_read_def split: prod.splits)

lemma holds_if [io_rules]: "(b \<Longrightarrow> holds m Q) \<Longrightarrow> (\<not> b \<Longrightarrow> holds n Q) \<Longrightarrow> holds (if b then m else n) Q"
  by simp

lemma holds_sum [io_rules]:
  "(\<And>e. x = Inl e \<Longrightarrow> holds (f e) Q) \<Longrightarrow> (\<And>y. x = Inr y \<Longrightarrow> holds (g y) Q) \<Longrightarrow>
   holds (case x of Inl e \<Rightarrow> f e | Inr y \<Rightarrow> g y) Q"
  by (cases x) auto

lemma holds_option [io_rules]:
  "(x = None \<Longrightarrow> holds m Q) \<Longrightarrow> (\<And>y. x = Some y \<Longrightarrow> holds (g y) Q) \<Longrightarrow>
   holds (case x of None \<Rightarrow> m | Some y \<Rightarrow> g y) Q"
  by (cases x) auto

lemma holds_prod [io_rules]: "(\<And>a b. x = (a, b) \<Longrightarrow> holds (f a b) Q) \<Longrightarrow> holds (case x of (a, b) \<Rightarrow> f a b) Q"
  by (cases x) auto

lemma holds_let [io_rules]: "(\<And>v. v = x \<Longrightarrow> holds (f v) Q) \<Longrightarrow> holds (let v = x in f v) Q"
  by (simp add: Let_def)

lemmas io_calls = Get_run_def Get_agent_def Get_pod_def Get_secret_def List_runs_def Create_run_def
  Create_pod_def Create_secret_def Delete_run_def Delete_pod_def now_def rand_Read_def Do_http_def

lemma holds_api_result [io_rules]:
  "(\<And>e. r = Inl e \<Longrightarrow> Q (Inl (ApiErr e)) []) \<Longrightarrow> (\<And>x. r = Inr x \<Longrightarrow> Q (Inr x) []) \<Longrightarrow> holds (api_result r) Q"
  by (auto simp: api_result_def intro: io_rules split: sum.splits)

lemma holds_patch_run [io_rules]:
  assumes "\<And>e. Q (Inl (ApiErr e)) [PatchedRun r next (Inl e)]" "\<And>x. Q (Inr x) [PatchedRun r next (Inr x)]"
  shows "holds (patch_run_status S r next) Q"
  unfolding patch_run_status_def by (intro io_rules) (auto intro!: io_rules assms)

lemma holds_patch_agent [io_rules]:
  assumes "\<And>e. Q (Inl (ApiErr e)) [PatchedAgent a next (Inl e)]" "\<And>x. Q (Inr x) [PatchedAgent a next (Inr x)]"
  shows "holds (patch_agent_status S a next) Q"
  unfolding patch_agent_status_def by (intro io_rules) (auto intro!: io_rules assms)

subsection \<open>What an operation writes\<close>

fun is_write :: "event \<Rightarrow> bool" where
  "is_write (CreatedRun _ _) = True"
| "is_write (CreatedPod _ _) = True"
| "is_write (CreatedSecret _ _) = True"
| "is_write (DeletedRun _ _) = True"
| "is_write (DeletedPod _ _) = True"
| "is_write (PatchedAgent _ _ _) = True"
| "is_write (PatchedRun _ _ _) = True"
| "is_write (DidHttp _ _) = True"
| "is_write _ = False"

abbreviation writes :: "event list \<Rightarrow> event list" where "writes t \<equiv> filter is_write t"

text \<open>Every event of an operation satisfies a predicate, whatever the server answers.\<close>

definition emits :: "('s, 'a) io \<Rightarrow> (event \<Rightarrow> bool) \<Rightarrow> bool" where
  "emits m A \<longleftrightarrow> holds m (\<lambda>_ t. \<forall>e \<in> set t. A e)"

named_theorems emits_rules "decomposition rules of emits"

lemma emitsD: "emits m A \<Longrightarrow> m s = (r, t, s') \<Longrightarrow> e \<in> set t \<Longrightarrow> A e"
  unfolding emits_def by (blast dest: holdsD)

lemma emits_mono: "emits m A \<Longrightarrow> (\<And>e. A e \<Longrightarrow> B e) \<Longrightarrow> emits m B"
  unfolding emits_def by (blast intro: holds_mono)

lemma emits_return [emits_rules, simp]: "emits (io_return x) A"
  by (simp add: emits_def holds_return)

lemma emits_fail [emits_rules, simp]: "emits (io_fail e) A"
  by (simp add: emits_def holds_fail)

lemma emits_call [emits_rules]: "(\<And>r. A (ev r)) \<Longrightarrow> emits (io_call f ev) A"
  by (simp add: emits_def holds_call)

lemma emits_bind [emits_rules]: "emits m A \<Longrightarrow> (\<And>x. emits (f x) A) \<Longrightarrow> emits (io_bind m f) A"
  unfolding emits_def
  by (rule holds_bind, erule holds_mono) (fastforce intro: holds_mono split: sum.splits)

lemma emits_try [emits_rules]: "emits m A \<Longrightarrow> emits (io_try m) A"
  by (simp add: emits_def holds_try)

lemma emits_if [emits_rules]: "(b \<Longrightarrow> emits m A) \<Longrightarrow> (\<not> b \<Longrightarrow> emits n A) \<Longrightarrow> emits (if b then m else n) A"
  by simp

lemma emits_sum [emits_rules]:
  "(\<And>e. x = Inl e \<Longrightarrow> emits (f e) A) \<Longrightarrow> (\<And>y. x = Inr y \<Longrightarrow> emits (g y) A) \<Longrightarrow>
   emits (case x of Inl e \<Rightarrow> f e | Inr y \<Rightarrow> g y) A"
  by (cases x) auto

lemma emits_option [emits_rules]:
  "(x = None \<Longrightarrow> emits m A) \<Longrightarrow> (\<And>y. x = Some y \<Longrightarrow> emits (g y) A) \<Longrightarrow>
   emits (case x of None \<Rightarrow> m | Some y \<Rightarrow> g y) A"
  by (cases x) auto

lemma emits_prod [emits_rules]: "(\<And>a b. x = (a, b) \<Longrightarrow> emits (f a b) A) \<Longrightarrow> emits (case x of (a, b) \<Rightarrow> f a b) A"
  by (cases x) auto

lemma emits_let [emits_rules]: "(\<And>v. v = x \<Longrightarrow> emits (f v) A) \<Longrightarrow> emits (let v = x in f v) A"
  by (simp add: Let_def)

lemma emits_api_result [emits_rules, simp]: "emits (api_result r) A"
  by (simp add: api_result_def split: sum.splits)

lemma emits_patch_run [emits_rules]: "(\<And>x. A (PatchedRun r next x)) \<Longrightarrow> emits (patch_run_status S r next) A"
  by (simp add: patch_run_status_def emits_bind emits_call)

lemma emits_patch_agent [emits_rules]: "(\<And>x. A (PatchedAgent a next x)) \<Longrightarrow> emits (patch_agent_status S a next) A"
  by (simp add: patch_agent_status_def emits_bind emits_call)

lemma emits_calls [emits_rules]:
  "(\<And>x. A (GotRun live ns n x)) \<Longrightarrow> emits (Get_run S live ns n) A"
  "(\<And>x. A (GotAgent live ns n x)) \<Longrightarrow> emits (Get_agent S live ns n) A"
  "(\<And>x. A (GotPod live ns n x)) \<Longrightarrow> emits (Get_pod S live ns n) A"
  "(\<And>x. A (GotSecret ns n x)) \<Longrightarrow> emits (Get_secret S ns n) A"
  "(\<And>x. A (ListedRuns ns u x)) \<Longrightarrow> emits (List_runs S ns u) A"
  "(\<And>x. A (CreatedRun r x)) \<Longrightarrow> emits (Create_run S r) A"
  "(\<And>x. A (CreatedPod p x)) \<Longrightarrow> emits (Create_pod S p) A"
  "(\<And>x. A (CreatedSecret q x)) \<Longrightarrow> emits (Create_secret S q) A"
  "(\<And>x. A (DeletedRun r x)) \<Longrightarrow> emits (Delete_run S r) A"
  "(\<And>x. A (DeletedPod p x)) \<Longrightarrow> emits (Delete_pod S p) A"
  "(\<And>x. A (ReadClock x)) \<Longrightarrow> emits (now S) A"
  "(\<And>x. A (ReadRandom k x)) \<Longrightarrow> emits (rand_Read S k) A"
  "(\<And>x. A (DidHttp h x)) \<Longrightarrow> emits (Do_http S h) A"
  by (simp_all add: io_calls emits_call)

lemma holds_emits: "emits m A \<Longrightarrow> (\<And>r t. \<forall>e \<in> set t. A e \<Longrightarrow> Q r t) \<Longrightarrow> holds m Q"
  unfolding emits_def by (erule holds_mono) blast

fun is_creation :: "event \<Rightarrow> bool" where
  "is_creation (CreatedRun _ _) = True"
| "is_creation (CreatedPod _ _) = True"
| "is_creation (CreatedSecret _ _) = True"
| "is_creation _ = False"

fun is_deletion :: "event \<Rightarrow> bool" where
  "is_deletion (DeletedRun _ _) = True"
| "is_deletion (DeletedPod _ _) = True"
| "is_deletion _ = False"

subsection \<open>What an operation returns\<close>

text \<open>Whenever the operation returns a value, a predicate of the value and the calls made.\<close>

definition returns :: "('s, 'a) io \<Rightarrow> ('a \<Rightarrow> event list \<Rightarrow> bool) \<Rightarrow> bool" where
  "returns m P \<longleftrightarrow> holds m (\<lambda>r t. \<forall>x. r = Inr x \<longrightarrow> P x t)"

named_theorems returns_rules "decomposition rules of returns"

lemma returnsD: "returns m P \<Longrightarrow> m s = (Inr x, t, s') \<Longrightarrow> P x t"
  unfolding returns_def by (blast dest: holdsD)

lemma returns_mono: "returns m P \<Longrightarrow> (\<And>x t. P x t \<Longrightarrow> Q x t) \<Longrightarrow> returns m Q"
  unfolding returns_def by (erule holds_mono) blast

lemma returns_any: "returns m (\<lambda>_ _. True)"
  by (simp add: returns_def holds_def)

lemma returns_conj: "returns m P \<Longrightarrow> returns m Q \<Longrightarrow> returns m (\<lambda>x t. P x t \<and> Q x t)"
  by (simp add: returns_def holds_def)

lemma returns_return [returns_rules]: "P x [] \<Longrightarrow> returns (io_return x) P"
  by (simp add: returns_def holds_return)

lemma returns_fail [returns_rules, simp]: "returns (io_fail e) P"
  by (simp add: returns_def holds_fail)

lemma returns_bind:
  assumes "returns m P" "\<And>x t. P x t \<Longrightarrow> returns (f x) (\<lambda>y t'. Q y (t @ t'))"
  shows "returns (io_bind m f) Q"
  unfolding returns_def
  by (rule holds_bind, rule holds_mono [OF assms(1) [unfolded returns_def]])
     (auto split: sum.splits dest: assms(2) [unfolded returns_def])

lemma returns_call: "(\<And>r. P r [ev r]) \<Longrightarrow> returns (io_call f ev) P"
  by (simp add: returns_def holds_call)

lemma returns_bind_call [returns_rules]:
  "(\<And>r. returns (f r) (\<lambda>y t'. Q y (ev r # t'))) \<Longrightarrow> returns (io_bind (io_call g ev) f) Q"
  by (rule returns_bind [where P = "\<lambda>r t. t = [ev r]"]) (auto intro: returns_call)

lemma returns_if [returns_rules]:
  "(b \<Longrightarrow> returns m P) \<Longrightarrow> (\<not> b \<Longrightarrow> returns n P) \<Longrightarrow> returns (if b then m else n) P"
  by simp

lemma returns_sum [returns_rules]:
  "(\<And>e. x = Inl e \<Longrightarrow> returns (f e) P) \<Longrightarrow> (\<And>y. x = Inr y \<Longrightarrow> returns (g y) P) \<Longrightarrow>
   returns (case x of Inl e \<Rightarrow> f e | Inr y \<Rightarrow> g y) P"
  by (cases x) auto

lemma returns_option [returns_rules]:
  "(x = None \<Longrightarrow> returns m P) \<Longrightarrow> (\<And>y. x = Some y \<Longrightarrow> returns (g y) P) \<Longrightarrow>
   returns (case x of None \<Rightarrow> m | Some y \<Rightarrow> g y) P"
  by (cases x) auto

lemma returns_prod [returns_rules]:
  "(\<And>a b. x = (a, b) \<Longrightarrow> returns (f a b) P) \<Longrightarrow> returns (case x of (a, b) \<Rightarrow> f a b) P"
  by (cases x) auto

lemma returns_let [returns_rules]: "(\<And>v. v = x \<Longrightarrow> returns (f v) P) \<Longrightarrow> returns (let v = x in f v) P"
  by (simp add: Let_def)

lemma returns_patch_run: "(\<And>x. P x [PatchedRun r next (Inr x)]) \<Longrightarrow> returns (patch_run_status S r next) P"
  unfolding returns_def by (rule holds_patch_run) auto

lemma returns_try: "holds m P \<Longrightarrow> returns (io_try m) P"
  unfolding returns_def by (rule holds_try, erule holds_mono) simp

subsection \<open>A server for examples\<close>

text \<open>A server without objects that accepts every write; the examples change single answers of it.\<close>

definition quiet_server :: "unit server" where
  "quiet_server = \<lparr>sv_get_run = (\<lambda>_ _ _ s. (Inl NotFound, s)), sv_get_agent = (\<lambda>_ _ _ s. (Inl NotFound, s)),
     sv_get_pod = (\<lambda>_ _ _ s. (Inl NotFound, s)), sv_get_secret = (\<lambda>_ _ s. (Inl NotFound, s)),
     sv_list_runs = (\<lambda>_ _ s. (Inr [], s)), sv_create_run = (\<lambda>_ s. (None, s)), sv_create_pod = (\<lambda>_ s. (None, s)),
     sv_create_secret = (\<lambda>_ s. (None, s)), sv_delete_run = (\<lambda>_ s. (None, s)), sv_delete_pod = (\<lambda>_ s. (None, s)),
     sv_patch_agent = (\<lambda>a st s. (Inr (a\<lparr>ag_status := st\<rparr>), s)), sv_patch_run = (\<lambda>r st s. (Inr (r\<lparr>ar_status := st\<rparr>), s)),
     sv_now = (\<lambda>s. (1000 * second, s)), sv_rand = (\<lambda>n s. (Inr (replicate n (CHR ''x'')), s)),
     sv_http = (\<lambda>_ s. (Inl ''connection refused'', s))\<rparr>"

end
