(* ===== verification/Delivery_Contract.thy ===== *)
theory Delivery_Contract
  imports Run_Factory Kube_Io Go_Json
begin

text \<open>
  The warm-delivery contract of \<^verbatim>\<open>pkg/delivery/v1alpha1/types.go\<close> (requests, their validation, the
  signature of a response) and the credential of
  \<^verbatim>\<open>internal/controller/agentrun_delivery_credential.go\<close>.  HMAC-SHA256 and the JSON codec of requests
  are parameters; base64 is defined here.
\<close>

abbreviation DeliveryAPIVersion :: string where "DeliveryAPIVersion \<equiv> ''kontext.dev/delivery/v1alpha1''"
abbreviation EndpointPath :: string where "EndpointPath \<equiv> ''/kontext.dev/v1alpha1/agent-runs''"
abbreviation MaxResponseBytes :: nat where "MaxResponseBytes \<equiv> 4096"

subsection \<open>Unpadded URL-safe base64\<close>

definition b64_alphabet :: string where
  "b64_alphabet = ''ABCDEFGHIJKLMNOPQRSTUVWXYZabcdefghijklmnopqrstuvwxyz0123456789-_''"

definition b64_char :: "nat \<Rightarrow> char" where
  "b64_char n = b64_alphabet ! n"

definition b64_value :: "char \<Rightarrow> nat option" where
  "b64_value c = (let n = length (takeWhile (\<lambda>x. x \<noteq> c) b64_alphabet) in if n < 64 then Some n else None)"

abbreviation byte :: "char \<Rightarrow> nat" where "byte c \<equiv> of_char c"

fun b64_encode :: "string \<Rightarrow> string" where
  "b64_encode [] = []"
| "b64_encode [a] = [b64_char (byte a div 4), b64_char (byte a mod 4 * 16)]"
| "b64_encode [a, b] = [b64_char (byte a div 4), b64_char (byte a mod 4 * 16 + byte b div 16),
     b64_char (byte b mod 16 * 4)]"
| "b64_encode (a # b # c # rest) =
     [b64_char (byte a div 4), b64_char (byte a mod 4 * 16 + byte b div 16),
      b64_char (byte b mod 16 * 4 + byte c div 64), b64_char (byte c mod 64)] @ b64_encode rest"

fun b64_groups :: "nat list \<Rightarrow> string option" where
  "b64_groups [] = Some []"
| "b64_groups [a] = None"
| "b64_groups [a, b] = Some [char_of (a * 4 + b div 16)]"
| "b64_groups [a, b, c] = Some [char_of (a * 4 + b div 16), char_of (b mod 16 * 16 + c div 4)]"
| "b64_groups (a # b # c # d # rest) =
     map_option (\<lambda>s. char_of (a * 4 + b div 16) # char_of (b mod 16 * 16 + c div 4) # char_of (c mod 4 * 64 + d) # s)
       (b64_groups rest)"

text \<open>Line breaks are skipped, as the decoder of the standard library does.\<close>

definition b64_decode :: "string \<Rightarrow> string option" where
  "b64_decode s =
     (let values = map b64_value (filter (\<lambda>c. c \<noteq> CHR 0x0A \<and> c \<noteq> CHR 0x0D) s) in
      if None \<in> set values then None else b64_groups (map the values))"

subsection \<open>Requests\<close>

record delivery_request =
  dr_api_version :: string
  dr_run_name :: string
  dr_run_namespace :: string
  dr_run_uid :: string
  dr_target_name :: string
  dr_target_uid :: string
  dr_goal :: string

definition request_Validate :: "golib \<Rightarrow> delivery_request \<Rightarrow> string option" where
  "request_Validate L q =
     (if dr_api_version q \<noteq> DeliveryAPIVersion then Some (''unsupported delivery apiVersion '' @ quote L (dr_api_version q))
      else if dr_run_name q = [] then Some ''delivery run name is required''
      else if dr_run_namespace q = [] then Some ''delivery run namespace is required''
      else if dr_run_uid q = [] then Some ''delivery run uid is required''
      else if dr_target_name q = [] then Some ''delivery target pod name is required''
      else if dr_target_uid q = [] then Some ''delivery target pod uid is required''
      else if dr_goal q = [] then Some ''delivery goal is required''
      else None)"

text \<open>The strict decoder: the first value of the stream, and what a second decode finds.\<close>

record delivery_codec =
  dc_marshal :: "delivery_request \<Rightarrow> string go_result"
  dc_decode :: "string \<Rightarrow> (delivery_request \<times> trailing) go_result"

definition request_Parse :: "golib \<Rightarrow> delivery_codec \<Rightarrow> string \<Rightarrow> delivery_request go_result" where
  "request_Parse L D data =
     (case dc_decode D data of
        Inl err \<Rightarrow> Inl (''decode delivery request: '' @ err)
      | Inr (q, TrailingValue) \<Rightarrow> Inl ''decode delivery request: trailing JSON value''
      | Inr (q, TrailingError err) \<Rightarrow> Inl (''decode delivery request trailing data: '' @ err)
      | Inr (q, EOF) \<Rightarrow> (case request_Validate L q of Some err \<Rightarrow> Inl err | None \<Rightarrow> Inr q))"

subsection \<open>Response signatures\<close>

definition mac_message :: "string \<Rightarrow> string \<Rightarrow> string \<Rightarrow> string" where
  "mac_message challenge runUID body =
     DeliveryAPIVersion @ [CHR 0x00] @ challenge @ [CHR 0x00] @ runUID @ [CHR 0x00] @ body"

definition responseMAC :: "(string \<Rightarrow> string \<Rightarrow> string) \<Rightarrow> string \<Rightarrow> string \<Rightarrow> string \<Rightarrow> string \<Rightarrow> string" where
  "responseMAC hmac token challenge runUID body = hmac token (mac_message challenge runUID body)"

definition ResponseSignature :: "(string \<Rightarrow> string \<Rightarrow> string) \<Rightarrow> string \<Rightarrow> string \<Rightarrow> string \<Rightarrow> string \<Rightarrow> string" where
  "ResponseSignature hmac token challenge runUID body = b64_encode (responseMAC hmac token challenge runUID body)"

definition VerifyResponseSignature ::
  "(string \<Rightarrow> string \<Rightarrow> string) \<Rightarrow> string \<Rightarrow> string \<Rightarrow> string \<Rightarrow> string \<Rightarrow> string \<Rightarrow> bool" where
  "VerifyResponseSignature hmac token challenge runUID body signature =
     (case b64_decode signature of
        None \<Rightarrow> False
      | Some decoded \<Rightarrow> decoded = responseMAC hmac token challenge runUID body)"

subsection \<open>The credential of a standing run\<close>

abbreviation deliveryCredentialBytes :: nat where "deliveryCredentialBytes \<equiv> 32"
abbreviation deliverySecretNamePrefix :: string where "deliverySecretNamePrefix \<equiv> ''delivery-auth-''"

definition deliveryCredentialSecretName :: "golib \<Rightarrow> agent_run \<Rightarrow> string go_result" where
  "deliveryCredentialSecretName L run =
     (if m_uid (ar_meta run) = [] then Inl ''delivery credential requires a persisted AgentRun UID''
      else Inr (deliverySecretNamePrefix @ take 16 (sha256_hex L (m_uid (ar_meta run)))))"

definition deliveryCredentialFromSecret :: "golib \<Rightarrow> kube_lib \<Rightarrow> agent_run \<Rightarrow> secret \<Rightarrow> string go_result" where
  "deliveryCredentialFromSecret L K run sec =
     (if \<not> is_controlled_by K (sec_meta sec) (ar_meta run) then
        Inl (''delivery credential Secret '' @ m_namespace (sec_meta sec) @ ''/'' @ m_name (sec_meta sec) @
             '' is not controlled by AgentRun '' @ run_namespace run @ ''/'' @ run_name run)
      else case map_of (sec_data sec) TokenSecretKey of
        Some token \<Rightarrow>
          if token = [] then
            Inl (''delivery credential Secret '' @ m_namespace (sec_meta sec) @ ''/'' @ m_name (sec_meta sec) @
                 '' has no '' @ quote L TokenSecretKey @ '' data'')
          else Inr token
      | None \<Rightarrow>
          Inl (''delivery credential Secret '' @ m_namespace (sec_meta sec) @ ''/'' @ m_name (sec_meta sec) @
               '' has no '' @ quote L TokenSecretKey @ '' data''))"

definition go_error :: "string go_result \<Rightarrow> ('s, string) io" where
  "go_error r = (case r of Inl e \<Rightarrow> io_fail (PlainError e) | Inr x \<Rightarrow> io_return x)"

definition credential_secret :: "agent_run \<Rightarrow> string \<Rightarrow> string \<Rightarrow> secret" where
  "credential_secret run secretName token =
     \<lparr>sec_meta = empty_meta\<lparr>m_name := secretName, m_namespace := run_namespace run,
        m_labels := [(LabelRunName, run_name run)]\<rparr>,
      sec_immutable = True, sec_type = ''Opaque'', sec_data = [(TokenSecretKey, token)]\<rparr>"

definition ensureDeliveryCredential ::
  "golib \<Rightarrow> kube_lib \<Rightarrow> 's server \<Rightarrow> bool \<Rightarrow> agent_run \<Rightarrow> ('s, string) io" where
  "ensureDeliveryCredential L K S reader run =
     (if \<not> reader then
        io_fail (PlainError (''cannot ensure delivery credential for AgentRun '' @ run_namespace run @ ''/'' @ run_name run @
          '': APIReader is not configured''))
      else io_bind (go_error (deliveryCredentialSecretName L run)) (\<lambda>secretName.
        io_bind (Get_secret S (run_namespace run) secretName) (\<lambda>got.
          case got of
            Inr existing \<Rightarrow>
              io_bind (go_error (deliveryCredentialFromSecret L K run existing)) (\<lambda>_. io_return secretName)
          | Inl e \<Rightarrow>
              if e \<noteq> NotFound then io_fail (ApiErr e)
              else io_bind (rand_Read S deliveryCredentialBytes) (\<lambda>random.
                case random of
                  Inl err \<Rightarrow> io_fail (PlainError (''generate delivery credential: '' @ err))
                | Inr tokenBytes \<Rightarrow>
                    (let sec = credential_secret run secretName (b64_encode tokenBytes) in
                     case set_controller_reference K ''AgentRun'' (ar_meta run) (sec_meta sec) of
                       Inl err \<Rightarrow> io_fail (PlainError err)
                     | Inr m \<Rightarrow>
                         io_bind (Create_secret S (sec\<lparr>sec_meta := m\<rparr>)) (\<lambda>res.
                           case res of
                             None \<Rightarrow> io_return secretName
                           | Some e \<Rightarrow>
                               if e \<noteq> AlreadyExists then io_fail (ApiErr e)
                               else io_bind (Get_secret S (run_namespace run) secretName) (\<lambda>again.
                                 io_bind (api_result again) (\<lambda>existing.
                                   io_bind (go_error (deliveryCredentialFromSecret L K run existing))
                                     (\<lambda>_. io_return secretName)))))))))"

definition loadDeliveryCredential ::
  "golib \<Rightarrow> kube_lib \<Rightarrow> 's server \<Rightarrow> bool \<Rightarrow> agent_run \<Rightarrow> ('s, string) io" where
  "loadDeliveryCredential L K S reader run =
     (if \<not> reader then
        io_fail (PlainError (''cannot load delivery credential for AgentRun '' @ run_namespace run @ ''/'' @ run_name run @
          '': APIReader is not configured''))
      else io_bind (go_error (deliveryCredentialSecretName L run)) (\<lambda>secretName.
        io_bind (Get_secret S (run_namespace run) secretName) (\<lambda>got.
          io_bind (api_result got) (\<lambda>sec. go_error (deliveryCredentialFromSecret L K run sec)))))"

subsection \<open>Base64 and signatures\<close>

lemma b64_value_char: "n < 64 \<Longrightarrow> b64_value (b64_char n) = Some n"
proof -
  have "list_all (\<lambda>n. b64_value (b64_char n) = Some n) [0..<64]" by code_simp
  then show "n < 64 \<Longrightarrow> ?thesis" by (simp add: list_all_iff)
qed

lemma b64_char_plain: "n < 64 \<Longrightarrow> b64_char n \<noteq> CHR 0x0A \<and> b64_char n \<noteq> CHR 0x0D"
proof -
  have "list_all (\<lambda>n. b64_char n \<noteq> CHR 0x0A \<and> b64_char n \<noteq> CHR 0x0D) [0..<64]" by code_simp
  then show "n < 64 \<Longrightarrow> ?thesis" by (simp add: list_all_iff)
qed

text \<open>The groups of six bits a string encodes to.\<close>

fun b64_digits :: "string \<Rightarrow> nat list" where
  "b64_digits [] = []"
| "b64_digits [a] = [byte a div 4, byte a mod 4 * 16]"
| "b64_digits [a, b] = [byte a div 4, byte a mod 4 * 16 + byte b div 16, byte b mod 16 * 4]"
| "b64_digits (a # b # c # rest) =
     [byte a div 4, byte a mod 4 * 16 + byte b div 16, byte b mod 16 * 4 + byte c div 64, byte c mod 64] @ b64_digits rest"

lemma byte_div [simp]: "byte a div 4 < 64" "byte a div 16 < 16" "byte a div 64 < 4"
  using nat_of_char_less_256 [of a] by (auto simp: less_mult_imp_div_less)

lemma six_bits: "byte a mod 4 * 16 + byte b div 16 < 64" "byte a mod 4 * 16 < 64"
  "byte b mod 16 * 4 + byte c div 64 < 64" "byte b mod 16 * 4 < 64"
proof -
  have "byte a mod 4 < 4" "byte b mod 16 < 16" by simp_all
  then show "byte a mod 4 * 16 + byte b div 16 < 64" "byte a mod 4 * 16 < 64"
    "byte b mod 16 * 4 + byte c div 64 < 64" "byte b mod 16 * 4 < 64"
    using byte_div(2) [of b] byte_div(3) [of c] by linarith+
qed

lemma b64_digits_small: "n \<in> set (b64_digits s) \<Longrightarrow> n < 64"
  by (induction s rule: b64_digits.induct) (auto simp: six_bits)

lemma b64_encode_digits: "b64_encode s = map b64_char (b64_digits s)"
  by (induction s rule: b64_encode.induct) simp_all

lemma b64_groups_digits: "b64_groups (b64_digits s) = Some s"
proof (induction s rule: b64_digits.induct)
  case (2 a)
  have "byte a div 4 * 4 + byte a mod 4 * 16 div 16 = byte a" by simp
  then show ?case by simp
next
  case (3 a b)
  have "(byte a mod 4 * 16 + byte b div 16) div 16 = byte a mod 4" "(byte a mod 4 * 16 + byte b div 16) mod 16 = byte b div 16"
    using byte_div [of b] by simp_all
  then show ?case by simp
next
  case (4 a b c rest)
  have "(byte a mod 4 * 16 + byte b div 16) div 16 = byte a mod 4" "(byte a mod 4 * 16 + byte b div 16) mod 16 = byte b div 16"
    "(byte b mod 16 * 4 + byte c div 64) div 4 = byte b mod 16" "(byte b mod 16 * 4 + byte c div 64) mod 4 = byte c div 64"
    using byte_div [of b] byte_div [of c] by simp_all
  with 4 show ?case by simp
qed simp

lemma b64_decode_encode: "b64_decode (b64_encode s) = Some s"
proof -
  have "filter (\<lambda>c. c \<noteq> CHR 0x0A \<and> c \<noteq> CHR 0x0D) (b64_encode s) = b64_encode s"
    by (rule filter_True) (auto simp: b64_encode_digits dest: b64_digits_small b64_char_plain)
  moreover have "map b64_value (b64_encode s) = map Some (b64_digits s)"
    by (auto simp: b64_encode_digits dest: b64_digits_small b64_value_char)
  ultimately show ?thesis by (simp add: b64_decode_def o_def b64_groups_digits)
qed

lemma split_at_nul:
  assumes "CHR 0x00 \<notin> set a" "CHR 0x00 \<notin> set b" "a @ CHR 0x00 # x = b @ CHR 0x00 # y"
  shows "a = b \<and> x = y"
proof -
  have split: "takeWhile (\<lambda>c. c \<noteq> CHR 0x00) (w @ CHR 0x00 # z) = w" if "CHR 0x00 \<notin> set w" for w z
    using that by (subst takeWhile_append2) auto
  from split [OF assms(1), of x] split [OF assms(2), of y] assms(3) have "a = b" by simp
  with assms(3) show ?thesis by simp
qed

lemma mac_message_inject:
  assumes "CHR 0x00 \<notin> set ch" "CHR 0x00 \<notin> set ch'" "CHR 0x00 \<notin> set uid" "CHR 0x00 \<notin> set uid'"
  shows "mac_message ch uid body = mac_message ch' uid' body' \<longleftrightarrow> ch = ch' \<and> uid = uid' \<and> body = body'"
proof
  assume "mac_message ch uid body = mac_message ch' uid' body'"
  then have "ch @ CHR 0x00 # uid @ CHR 0x00 # body = ch' @ CHR 0x00 # uid' @ CHR 0x00 # body'"
    by (simp add: mac_message_def)
  with assms show "ch = ch' \<and> uid = uid' \<and> body = body'" by (metis split_at_nul)
qed simp

text \<open>
  A response signature authenticates exactly one challenge, run and body.  The signature of a response
  verifies; whatever verifies decodes to the MAC of the framed message; and for challenges and UIDs
  without a zero byte the framing is injective, so a signature accepted for two different triples would be
  a collision of the MAC under the credential.
\<close>

theorem VerifyResponseSignature_binds:
  "VerifyResponseSignature hmac token ch uid body (ResponseSignature hmac token ch uid body) \<and>
   (VerifyResponseSignature hmac token ch uid body sig \<longrightarrow> VerifyResponseSignature hmac token ch' uid' body' sig \<longrightarrow>
      CHR 0x00 \<notin> set ch \<union> set ch' \<union> set uid \<union> set uid' \<longrightarrow> (ch, uid, body) \<noteq> (ch', uid', body') \<longrightarrow>
      (\<exists>m m'. m \<noteq> m' \<and> hmac token m = hmac token m'))"
proof (intro conjI impI)
  show "VerifyResponseSignature hmac token ch uid body (ResponseSignature hmac token ch uid body)"
    by (simp add: VerifyResponseSignature_def ResponseSignature_def b64_decode_encode)
  assume "VerifyResponseSignature hmac token ch uid body sig" "VerifyResponseSignature hmac token ch' uid' body' sig"
  then have "hmac token (mac_message ch uid body) = hmac token (mac_message ch' uid' body')"
    by (auto simp: VerifyResponseSignature_def responseMAC_def split: option.splits)
  moreover assume "CHR 0x00 \<notin> set ch \<union> set ch' \<union> set uid \<union> set uid'" "(ch, uid, body) \<noteq> (ch', uid', body')"
  ultimately show "\<exists>m m'. m \<noteq> m' \<and> hmac token m = hmac token m'"
    using mac_message_inject [of ch ch' uid uid' body body'] by auto
qed

theorem VerifyResponseSignature_binds_witness:
  "\<exists>m m' :: string. m \<noteq> m' \<and> (\<lambda>_ _. ''k'') ''tok'' m = (\<lambda>_ _. ''k'') ''tok'' m'"
proof -
  have "VerifyResponseSignature (\<lambda>_ _. ''k'') ''tok'' ''a'' ''u'' ''1'' ''aw''"
    "VerifyResponseSignature (\<lambda>_ _. ''k'') ''tok'' ''b'' ''u'' ''1'' ''aw''" by code_simp+
  with VerifyResponseSignature_binds [of "\<lambda>_ _. ''k''" "''tok''" "''a''" "''u''" "''1''" "''aw''" "''b''" "''u''" "''1''"]
  show ?thesis by simp
qed

subsection \<open>A credential is owned and created once\<close>

definition credential_trace :: "golib \<Rightarrow> kube_lib \<Rightarrow> agent_run \<Rightarrow> string \<Rightarrow> event list \<Rightarrow> bool" where
  "credential_trace L K run name t \<longleftrightarrow>
     (\<exists>sec token. GotSecret (run_namespace run) name (Inr sec) \<in> set t \<and>
        is_controlled_by K (sec_meta sec) (ar_meta run) \<and> map_of (sec_data sec) TokenSecretKey = Some token \<and> token \<noteq> []) \<or>
     (\<exists>sec random. CreatedSecret sec None \<in> set t \<and> ReadRandom deliveryCredentialBytes (Inr random) \<in> set t \<and>
        GotSecret (run_namespace run) name (Inl NotFound) \<in> set t \<and>
        m_name (sec_meta sec) = name \<and> m_namespace (sec_meta sec) = run_namespace run \<and> sec_immutable sec \<and>
        is_controlled_by K (sec_meta sec) (ar_meta run) \<and> sec_data sec = [(TokenSecretKey, b64_encode random)])"

lemma deliveryCredentialFromSecret_Inr:
  "deliveryCredentialFromSecret L K run sec = Inr token \<longleftrightarrow>
     is_controlled_by K (sec_meta sec) (ar_meta run) \<and> map_of (sec_data sec) TokenSecretKey = Some token \<and> token \<noteq> []"
  by (auto simp: deliveryCredentialFromSecret_def split: option.splits if_splits)

lemma credential_secret_owned:
  assumes "kube_contract K"
    "set_controller_reference K ''AgentRun'' (ar_meta run) (sec_meta (credential_secret run name token)) = Inr m"
  shows "m_name m = name \<and> m_namespace m = run_namespace run \<and> is_controlled_by K m (ar_meta run)"
  using kube_contract.owner_frame [OF assms] kube_contract.owner_controls [OF assms]
  by (auto simp: credential_secret_def)

lemma ensureDeliveryCredential_holds:
  assumes "kube_contract K"
  shows "holds (ensureDeliveryCredential L K S reader run) (\<lambda>r t.
    (\<forall>name. r = Inr name \<longrightarrow> deliveryCredentialSecretName L run = Inr name \<and> credential_trace L K run name t))"
  unfolding ensureDeliveryCredential_def io_calls go_error_def
  by (intro io_rules)
     (auto intro!: io_rules simp: credential_trace_def deliveryCredentialFromSecret_Inr
       dest!: credential_secret_owned [OF assms], auto simp: credential_secret_def)

lemma ensureDeliveryCredential_emits:
  "emits (ensureDeliveryCredential L K S reader run) (\<lambda>e. is_write e \<longrightarrow> (\<exists>sec r. e = CreatedSecret sec r))"
  unfolding ensureDeliveryCredential_def go_error_def
  by (intro emits_rules) auto

text \<open>
  The credential of a standing run is created once and never taken from someone else: when
  \<^verbatim>\<open>ensureDeliveryCredential\<close> returns a name, it is the name derived from the run's UID, and either a Secret of
  that name controlled by the run with a non-empty token was read, or none existed and an immutable Secret
  controlled by the run was created with a token of 32 fresh random bytes.  Nothing else is written.
\<close>

theorem ensureDeliveryCredential_owned:
  assumes "kube_contract K" "ensureDeliveryCredential L K S reader run s = (r, t, s')"
  shows "(\<forall>e \<in> set t. is_write e \<longrightarrow> (\<exists>sec x. e = CreatedSecret sec x)) \<and>
    (\<forall>name. r = Inr name \<longrightarrow> deliveryCredentialSecretName L run = Inr name \<and> credential_trace L K run name t)"
  using holdsD [OF ensureDeliveryCredential_holds [OF assms(1)] assms(2)]
    emitsD [OF ensureDeliveryCredential_emits assms(2)] by blast

theorem ensureDeliveryCredential_owned_witness:
  "credential_trace zero_digest doc_kube sample_run ''delivery-auth-0000000000000000''
     (fst (snd (ensureDeliveryCredential zero_digest doc_kube quiet_server True sample_run ())))"
proof -
  obtain r t s' where run: "ensureDeliveryCredential zero_digest doc_kube quiet_server True sample_run () = (r, t, s')"
    by (cases "ensureDeliveryCredential zero_digest doc_kube quiet_server True sample_run ()")
  have "fst (ensureDeliveryCredential zero_digest doc_kube quiet_server True sample_run ()) =
      Inr ''delivery-auth-0000000000000000''"
    by code_simp
  with run have "r = Inr ''delivery-auth-0000000000000000''" by simp
  with ensureDeliveryCredential_owned [OF doc.kube_contract_axioms run] run show ?thesis by simp
qed

end
