(* ===== verification/Run_Controller.thy ===== *)
theory Run_Controller
  imports Pod_Status Delivery_Contract
begin

text \<open>
  \<^verbatim>\<open>internal/controller/agentrun_controller.go\<close>: the reconciler of Pod-backed AgentRuns.  It finds or
  creates the Pod of a run, enforces the wallclock budget and copies what the Pod shows into the run's
  status.  Parsing and printing of durations is the parameter \<open>duration_lib\<close>; the reconciler's fields are
  the record \<open>run_reconciler\<close>.
\<close>

record run_reconciler =
  rr_reader :: bool
  rr_reporter_image :: string

text \<open>The parameters every operation of the reconciler uses.\<close>

record env =
  env_lib :: golib
  env_kube :: kube_lib
  env_json :: json_codec
  env_durations :: duration_lib
  env_show_float :: "rat \<Rightarrow> string"
  env_reconciler :: run_reconciler

subsection \<open>Status transitions\<close>

definition transitionRun ::
  "env \<Rightarrow> 's server \<Rightarrow> agent_run \<Rightarrow> string \<Rightarrow> string \<Rightarrow> (agent_run_status \<Rightarrow> agent_run_status) \<Rightarrow> ('s, agent_run) io" where
  "transitionRun E S run phase message update =
     (let next = update ((ar_status run)\<lparr>rs_phase := phase, rs_message := message\<rparr>) in
      io_bind
        (if is_terminal phase then
           (if rs_completion_time next = None
            then io_bind (now S) (\<lambda>t. io_return (next\<lparr>rs_completion_time := Some t\<rparr>))
            else io_return next)
         else io_return (next\<lparr>rs_completion_time := None\<rparr>))
        (\<lambda>next. patch_run_status S run
           (next\<lparr>rs_conditions := setStatusConditions (env_kube E) (rs_conditions next) (m_generation (ar_meta run))
                  (ForAgentRunPhase phase)\<rparr>)))"

subsection \<open>Budgets\<close>

definition parseWallclockBudget :: "env \<Rightarrow> budget_spec option \<Rightarrow> duration option go_result" where
  "parseWallclockBudget E budget =
     (case budget of
        None \<Rightarrow> Inr None
      | Some b \<Rightarrow>
          if b_wallclock b = [] then Inr None
          else (case parse_duration (env_durations E) (b_wallclock b) of
                  Inl err \<Rightarrow> Inl (''invalid wallclock budget '' @ quote (env_lib E) (b_wallclock b) @ '': '' @ err)
                | Inr limit \<Rightarrow>
                    if limit \<le> 0
                    then Inl (''invalid wallclock budget '' @ quote (env_lib E) (b_wallclock b) @ '': duration must be positive'')
                    else Inr (Some limit)))"

text \<open>Deleting a Pod, where a Pod that is already gone is not an error.\<close>

definition delete_pod :: "'s server \<Rightarrow> pod \<Rightarrow> ('s, unit) io" where
  "delete_pod S p = io_bind (Delete_pod S p) (\<lambda>res.
     case res of None \<Rightarrow> io_return () | Some e \<Rightarrow> if e = NotFound then io_return () else io_fail (ApiErr e))"

definition failInvalidWallclock ::
  "env \<Rightarrow> 's server \<Rightarrow> agent_run \<Rightarrow> pod option \<Rightarrow> string \<Rightarrow> ('s, ctrl_result) io" where
  "failInvalidWallclock E S run p cause =
     io_bind (case p of None \<Rightarrow> io_return () | Some p \<Rightarrow> delete_pod S p) (\<lambda>_.
       io_bind (transitionRun E S run AgentRunPhaseFailed (''Agent run configuration is invalid: '' @ cause @ ''.'')
           (\<lambda>next. case p of None \<Rightarrow> next | Some p \<Rightarrow> next\<lparr>rs_pod_name := m_name (pod_meta p)\<rparr>))
         (\<lambda>_. io_return Done))"

definition enforceWallclock ::
  "env \<Rightarrow> 's server \<Rightarrow> agent_run \<Rightarrow> pod \<Rightarrow> duration option \<Rightarrow> ('s, ctrl_result \<times> agent_run) io" where
  "enforceWallclock E S run p limit =
     (case limit of
        None \<Rightarrow> io_return (Done, run)
      | Some bound \<Rightarrow>
          if pst_phase (pod_status_of p) \<noteq> PodRunning then io_return (Done, run)
          else
            (let observed = po_started_at (ObservePod (env_lib E) (env_json E) p);
                 startedAt = (if observed = None then rs_start_time (ar_status run) else observed)
             in case startedAt of
                  None \<Rightarrow> io_return (Done, run)
                | Some started \<Rightarrow>
                    io_bind (now S) (\<lambda>t.
                      let elapsed = time_sub t started in
                      if elapsed \<le> bound then io_return (RequeueAfter (wrap64 (wrap64 (bound - elapsed) + second)), run)
                      else io_bind (transitionRun E S run AgentRunPhaseBudgetExceeded
                               (''Wallclock budget exceeded after '' @ show_duration (env_durations E) bound @ ''.'')
                               (\<lambda>next. next\<lparr>rs_pod_name := m_name (pod_meta p), rs_start_time := Some started\<rparr>))
                             (\<lambda>run'. io_bind (delete_pod S p) (\<lambda>_. io_return (Done, run'))))))"

definition deleteBudgetExceededPod :: "env \<Rightarrow> 's server \<Rightarrow> agent_run \<Rightarrow> ('s, unit) io" where
  "deleteBudgetExceededPod E S run =
     (if \<not> rr_reader (env_reconciler E) then
        io_fail (PlainError (''cannot delete Pod for budget-exceeded AgentRun '' @ run_namespace run @ ''/'' @ run_name run @
          '': APIReader is not configured''))
      else
        (let podName = (if rs_pod_name (ar_status run) = [] then PodNameForRun (env_lib E) (run_name run)
                        else rs_pod_name (ar_status run))
         in io_bind (Get_pod S True (run_namespace run) podName) (\<lambda>got.
              case got of
                Inl e \<Rightarrow> if e = NotFound then io_return () else io_fail (ApiErr e)
              | Inr p \<Rightarrow>
                  if \<not> is_controlled_by (env_kube E) (pod_meta p) (ar_meta run) then io_return ()
                  else delete_pod S p)))"

subsection \<open>The Pod of a run\<close>

definition failPodNameCollision :: "env \<Rightarrow> 's server \<Rightarrow> agent_run \<Rightarrow> pod \<Rightarrow> ('s, ctrl_result) io" where
  "failPodNameCollision E S run p =
     io_bind (transitionRun E S run AgentRunPhaseFailed
         (''Pod name collision: Pod '' @ m_namespace (pod_meta p) @ ''/'' @ m_name (pod_meta p) @
          '' is not controlled by AgentRun '' @ run_namespace run @ ''/'' @ run_name run @ ''.'')
         (\<lambda>next. next\<lparr>rs_pod_name := m_name (pod_meta p), rs_result := [], rs_output := None, rs_usage := None,
            rs_start_time := None\<rparr>))
       (\<lambda>_. io_return Done)"

definition reconcileMissingPod :: "env \<Rightarrow> 's server \<Rightarrow> agent_run \<Rightarrow> string \<Rightarrow> ('s, ctrl_result) io" where
  "reconcileMissingPod E S run podName =
     (if rs_pod_name (ar_status run) \<noteq> [] then
        io_bind (transitionRun E S run AgentRunPhaseFailed ''Pod lost before run completed.''
          (\<lambda>next. next\<lparr>rs_pod_name := podName\<rparr>)) (\<lambda>_. io_return Done)
      else
        io_bind (case rt_delivery_port (rp_runtime (ar_spec run)) of
                   None \<Rightarrow> io_return []
                 | Some _ \<Rightarrow> ensureDeliveryCredential (env_lib E) (env_kube E) S (rr_reader (env_reconciler E)) run)
          (\<lambda>deliveryCredentialSecret.
            case BuildPodWithConfig (env_lib E) (env_show_float E) run
                   \<lparr>bc_reporter_image = rr_reporter_image (env_reconciler E),
                    bc_delivery_credential_secret = deliveryCredentialSecret\<rparr> of
              Inl err \<Rightarrow>
                io_bind (transitionRun E S run AgentRunPhaseFailed (''Agent run configuration is invalid: '' @ err @ ''.'') id)
                  (\<lambda>_. io_return Done)
            | Inr p \<Rightarrow>
                (case set_controller_reference (env_kube E) ''AgentRun'' (ar_meta run) (pod_meta p) of
                   Inl err \<Rightarrow> io_fail (PlainError err)
                 | Inr m \<Rightarrow>
                     io_bind (Create_pod S (p\<lparr>pod_meta := m\<rparr>)) (\<lambda>res.
                       if res \<noteq> None \<and> res \<noteq> Some AlreadyExists then io_fail (ApiErr (the res))
                       else io_bind (transitionRun E S run AgentRunPhasePending ''Agent run pod requested.''
                              (\<lambda>next. next\<lparr>rs_pod_name := podName\<rparr>)) (\<lambda>_. io_return Done)))))"

definition syncPodObservation :: "env \<Rightarrow> 's server \<Rightarrow> agent_run \<Rightarrow> pod \<Rightarrow> string \<Rightarrow> ('s, agent_run) io" where
  "syncPodObservation E S run p podName =
     (let observation = ObservePod (env_lib E) (env_json E) p;
          next = (ar_status run)\<lparr>rs_phase := po_phase observation, rs_pod_name := podName,
                   rs_message := po_message observation\<rparr>;
          next = (if po_output observation \<noteq> None
                  then next\<lparr>rs_output := po_output observation, rs_result := po_result observation\<rparr> else next);
          next = (if po_usage observation \<noteq> None then next\<lparr>rs_usage := po_usage observation\<rparr> else next)
      in io_bind
           (if rs_start_time next = None \<and> po_phase observation = AgentRunPhaseRunning then
              (case po_started_at observation of
                 Some t \<Rightarrow> io_return (next\<lparr>rs_start_time := Some t\<rparr>)
               | None \<Rightarrow> io_bind (now S) (\<lambda>t. io_return (next\<lparr>rs_start_time := Some t\<rparr>)))
            else io_return next) (\<lambda>next.
         io_bind
           (if is_terminal (po_phase observation) \<and> rs_completion_time next = None
            then io_bind (now S) (\<lambda>t. io_return (next\<lparr>rs_completion_time := Some t\<rparr>))
            else io_return next) (\<lambda>next.
         patch_run_status S run
           (next\<lparr>rs_conditions := setStatusConditions (env_kube E) (rs_conditions next) (m_generation (ar_meta run))
                  (ForAgentRunPhase (po_phase observation))\<rparr>))))"

text \<open>
  Which Pod belongs to the run: the one its status names, or the one with the derived name, or for a
  run without a Pod name a controlled Pod with the name earlier versions derived.  A Pod the status names
  is only missing when the live API says so.
\<close>

definition locatePod :: "env \<Rightarrow> 's server \<Rightarrow> agent_run \<Rightarrow> ('s, pod option \<times> string) io" where
  "locatePod E S run =
     (let podName = (if rs_pod_name (ar_status run) = [] then PodNameForRun (env_lib E) (run_name run)
                     else rs_pod_name (ar_status run))
      in io_bind (Get_pod S False (run_namespace run) podName) (\<lambda>got.
           case got of
             Inr p \<Rightarrow> io_return (Some p, podName)
           | Inl e \<Rightarrow>
               if e \<noteq> NotFound then io_fail (ApiErr e)
               else if rs_pod_name (ar_status run) = [] then
                 (let legacyPodName = LegacyPodNameForRun (env_lib E) (run_name run) in
                  if legacyPodName = podName then io_return (None, podName)
                  else io_bind (Get_pod S False (run_namespace run) legacyPodName) (\<lambda>legacy.
                    case legacy of
                      Inr p \<Rightarrow>
                        if is_controlled_by (env_kube E) (pod_meta p) (ar_meta run) then io_return (Some p, legacyPodName)
                        else io_return (None, podName)
                    | Inl e \<Rightarrow> if e \<noteq> NotFound then io_fail (ApiErr e) else io_return (None, podName)))
               else if \<not> rr_reader (env_reconciler E) then
                 io_fail (PlainError (''cannot verify missing Pod '' @ run_namespace run @ ''/'' @ podName @
                   '': APIReader is not configured''))
               else io_bind (Get_pod S True (run_namespace run) podName) (\<lambda>live.
                 case live of
                   Inr p \<Rightarrow> io_return (Some p, podName)
                 | Inl e \<Rightarrow> if e \<noteq> NotFound then io_fail (ApiErr e) else io_return (None, podName))))"

definition reconcile_with_pod ::
  "env \<Rightarrow> 's server \<Rightarrow> agent_run \<Rightarrow> pod option \<times> string \<Rightarrow> ('s, ctrl_result) io" where
  "reconcile_with_pod E S run located =
     (case located of (found, podName) \<Rightarrow>
        if (case found of None \<Rightarrow> False | Some p \<Rightarrow> \<not> is_controlled_by (env_kube E) (pod_meta p) (ar_meta run))
        then failPodNameCollision E S run (the found)
        else case parseWallclockBudget E (rp_budget (ar_spec run)) of
          Inl budgetErr \<Rightarrow> failInvalidWallclock E S run found budgetErr
        | Inr wallclockLimit \<Rightarrow>
            (case found of
               None \<Rightarrow> reconcileMissingPod E S run podName
             | Some p \<Rightarrow>
                 io_bind (enforceWallclock E S run p wallclockLimit) (\<lambda>(result, run').
                   if is_terminal (run_phase run') then io_return result
                   else io_bind (syncPodObservation E S run' p podName) (\<lambda>_. io_return result))))"

definition reconcilePodBacked :: "env \<Rightarrow> 's server \<Rightarrow> agent_run \<Rightarrow> ('s, ctrl_result) io" where
  "reconcilePodBacked E S run =
     (if is_terminal (run_phase run) then
        (if run_phase run = AgentRunPhaseBudgetExceeded
         then io_bind (deleteBudgetExceededPod E S run) (\<lambda>_. io_return Done)
         else io_return Done)
      else io_bind (locatePod E S run) (reconcile_with_pod E S run))"

subsection \<open>What the operations write\<close>

lemma transitionRun_emits:
  "emits (transitionRun E S run phase msg update) (\<lambda>e. (\<exists>t. e = ReadClock t) \<or> (\<exists>st x. e = PatchedRun run st x))"
  unfolding transitionRun_def by (intro emits_rules) auto

lemma syncPodObservation_emits:
  "emits (syncPodObservation E S run p n) (\<lambda>e. (\<exists>t. e = ReadClock t) \<or> (\<exists>st x. e = PatchedRun run st x))"
  unfolding syncPodObservation_def by (intro emits_rules) auto

lemma locatePod_emits: "emits (locatePod E S run) (\<lambda>e. \<exists>live ns n x. e = GotPod live ns n x)"
  unfolding locatePod_def by (intro emits_rules) auto

lemma delete_pod_emits: "emits (delete_pod S p) (\<lambda>e. \<exists>x. e = DeletedPod p x)"
  unfolding delete_pod_def by (intro emits_rules) auto

lemma ensure_emits_secret:
  "emits (ensureDeliveryCredential L K S reader run)
     (\<lambda>e. (\<forall>p x. e \<noteq> DeletedPod p x) \<and> (\<forall>r x. e \<noteq> DeletedRun r x) \<and> (\<forall>r st x. e \<noteq> PatchedRun r st x) \<and>
        (\<forall>p x. e \<noteq> CreatedPod p x) \<and> (\<forall>r x. e \<noteq> CreatedRun r x))"
  by (rule emits_mono [OF ensureDeliveryCredential_emits]) fastforce

lemmas run_emits = transitionRun_emits syncPodObservation_emits locatePod_emits delete_pod_emits ensure_emits_secret

text \<open>What may be deleted: only Pods the run controls, never an AgentRun.\<close>

definition own_deletion :: "env \<Rightarrow> agent_run \<Rightarrow> event \<Rightarrow> bool" where
  "own_deletion E run e \<longleftrightarrow>
     (\<forall>p x. e = DeletedPod p x \<longrightarrow> is_controlled_by (env_kube E) (pod_meta p) (ar_meta run)) \<and> (\<forall>r x. e \<noteq> DeletedRun r x)"

lemma reconcile_with_pod_deletions: "emits (reconcile_with_pod E S run located) (own_deletion E run)"
proof (cases located)
  case (Pair found podName)
  show ?thesis
    unfolding Pair reconcile_with_pod_def failPodNameCollision_def failInvalidWallclock_def
      reconcileMissingPod_def enforceWallclock_def
    by (intro emits_rules emits_mono [OF transitionRun_emits] emits_mono [OF syncPodObservation_emits]
          emits_mono [OF delete_pod_emits] emits_mono [OF ensure_emits_secret])
       (auto simp: own_deletion_def)
qed

lemma reconcilePodBacked_deletions: "emits (reconcilePodBacked E S run) (own_deletion E run)"
  unfolding reconcilePodBacked_def deleteBudgetExceededPod_def
  by (intro emits_rules reconcile_with_pod_deletions emits_mono [OF locatePod_emits] emits_mono [OF delete_pod_emits])
     (auto simp: own_deletion_def)

lemma terminal_emits:
  assumes "is_terminal (run_phase run)"
  shows "emits (reconcilePodBacked E S run)
    (\<lambda>e. is_write e \<longrightarrow> run_phase run = AgentRunPhaseBudgetExceeded \<and> (\<exists>p x. e = DeletedPod p x))"
  unfolding reconcilePodBacked_def deleteBudgetExceededPod_def
  using assms by (simp, intro emits_rules emits_mono [OF delete_pod_emits] impI conjI) auto

text \<open>
  C16. Terminal is final, and only a run's own Pods are deleted.  Whatever the API server answers, a
  reconcile of an AgentRun that has succeeded, failed or exceeded its budget writes nothing, except that
  after an exceeded budget it may delete the run's Pod; and every Pod any reconcile deletes is
  controlled by the run it is reconciled for, and no AgentRun is ever deleted.
\<close>

theorem reconcilePodBacked_terminal_and_own:
  assumes "reconcilePodBacked E S run s = (r, t, s')"
  shows "(\<forall>p x. DeletedPod p x \<in> set t \<longrightarrow> is_controlled_by (env_kube E) (pod_meta p) (ar_meta run)) \<and>
    (\<forall>q x. DeletedRun q x \<notin> set t) \<and>
    (is_terminal (run_phase run) \<longrightarrow>
       (\<forall>e \<in> set t. is_write e \<longrightarrow> run_phase run = AgentRunPhaseBudgetExceeded \<and> (\<exists>p x. e = DeletedPod p x)))"
proof -
  have "own_deletion E run e" if "e \<in> set t" for e
    using emitsD [OF reconcilePodBacked_deletions assms that] .
  moreover have "is_write e \<longrightarrow> run_phase run = AgentRunPhaseBudgetExceeded \<and> (\<exists>p x. e = DeletedPod p x)"
    if "is_terminal (run_phase run)" "e \<in> set t" for e
    using emitsD [OF terminal_emits [OF that(1)] assms that(2)] .
  ultimately show ?thesis unfolding own_deletion_def by blast
qed

subsection \<open>Every status that is written is consistent\<close>

definition known_phase :: "string \<Rightarrow> bool" where
  "known_phase p \<longleftrightarrow> p \<in> {AgentRunPhasePending, AgentRunPhaseRunning, AgentRunPhaseSucceeded, AgentRunPhaseFailed,
     AgentRunPhaseBudgetExceeded}"

text \<open>
  A completion time exactly with a terminal phase (as far as the base had none), and the two conditions
  agree with the phase.
\<close>

definition status_ok :: "agent_run_status \<Rightarrow> agent_run_status \<Rightarrow> bool" where
  "status_ok base st \<longleftrightarrow> known_phase (rs_phase st) \<and>
     (is_terminal (rs_phase st) \<longrightarrow> rs_completion_time st \<noteq> None) \<and>
     (rs_completion_time base = None \<longrightarrow> \<not> is_terminal (rs_phase st) \<longrightarrow> rs_completion_time st = None) \<and>
     (\<exists>c. find_condition (rs_conditions st) cond_Complete = Some c \<and>
        c_status c = (if is_terminal (rs_phase st) then ConditionTrue else ConditionFalse)) \<and>
     (\<exists>c. find_condition (rs_conditions st) cond_Progressing = Some c \<and>
        c_status c = (if is_terminal (rs_phase st) then ConditionFalse else ConditionTrue))"

definition status_event :: "event \<Rightarrow> bool" where
  "status_event e \<longleftrightarrow> (\<forall>base st x. e = PatchedRun base st x \<longrightarrow> status_ok (ar_status base) st)"

lemma phase_conditions:
  assumes "kube_contract K"
  shows "(\<exists>c. find_condition (setStatusConditions K cs g (ForAgentRunPhase ph)) cond_Complete = Some c \<and>
      c_status c = (if is_terminal ph then ConditionTrue else ConditionFalse)) \<and>
    (\<exists>c. find_condition (setStatusConditions K cs g (ForAgentRunPhase ph)) cond_Progressing = Some c \<and>
      c_status c = (if is_terminal ph then ConditionFalse else ConditionTrue))"
proof -
  obtain a b where ab: "ForAgentRunPhase ph = [a, b]" "c_type a = cond_Complete" "c_type b = cond_Progressing"
    "c_status a = (if is_terminal ph then ConditionTrue else ConditionFalse)"
    "c_status b = (if is_terminal ph then ConditionFalse else ConditionTrue)"
  proof -
    have "\<exists>a b. ForAgentRunPhase ph = [a, b] \<and> c_type a = cond_Complete \<and> c_type b = cond_Progressing \<and>
        c_status a = (if is_terminal ph then ConditionTrue else ConditionFalse) \<and>
        c_status b = (if is_terminal ph then ConditionFalse else ConditionTrue)"
      by (simp add: ForAgentRunPhase_def mk_condition_def)
    with that show thesis by blast
  qed
  then have "c_type a \<noteq> c_type b" by simp
  from kube_contract.setStatusConditions_two(1,2) [OF assms this, of cs g] ab show ?thesis by auto
qed

lemma transitionRun_status:
  assumes "kube_contract (env_kube E)" "known_phase phase" "\<And>st. rs_phase (update st) = rs_phase st"
  shows "emits (transitionRun E S run phase msg update) status_event"
proof -
  have "status_event (PatchedRun run (next\<lparr>rs_conditions :=
      setStatusConditions (env_kube E) cs g (ForAgentRunPhase phase)\<rparr>) x)"
    if "rs_phase next = phase" "is_terminal phase \<longrightarrow> rs_completion_time next \<noteq> None"
      "\<not> is_terminal phase \<longrightarrow> rs_completion_time next = None" for "next" cs g x
    using that assms(2) phase_conditions [OF assms(1), of cs g phase] by (auto simp: status_event_def status_ok_def)
  note ok = this
  show ?thesis
    unfolding transitionRun_def emits_def now_def
    by (intro holds_let holds_bind holds_if) (auto intro!: io_rules ok simp: assms(3) status_event_def [of "ReadClock _"])
qed

lemma ObservePod_known: "known_phase (po_phase (ObservePod L J p))"
proof -
  have "po_phase (observationFromTermination L J t) \<in> {AgentRunPhaseSucceeded, AgentRunPhaseFailed}" for t
    by (cases t) (simp add: observationFromTermination_phase)
  then show ?thesis
    by (auto simp: ObservePod_def Let_def observe_container_def known_phase_def split: option.splits if_splits prod.splits)
qed

lemma syncPodObservation_status:
  assumes "kube_contract (env_kube E)"
  shows "emits (syncPodObservation E S run p n) status_event"
proof -
  have ok: "status_event (PatchedRun run (next\<lparr>rs_conditions := setStatusConditions (env_kube E) cs g (ForAgentRunPhase ph)\<rparr>) x)"
    if "rs_phase next = ph" "known_phase ph" "is_terminal ph \<longrightarrow> rs_completion_time next \<noteq> None"
      "rs_completion_time (ar_status run) = None \<longrightarrow> \<not> is_terminal ph \<longrightarrow> rs_completion_time next = None" for "next" cs g x ph
    using that phase_conditions [OF assms, of cs g ph] by (auto simp: status_event_def status_ok_def)
  have known: "known_phase AgentRunPhaseRunning" by (simp add: known_phase_def)
  have clock: "status_event (ReadClock t)" for t by (simp add: status_event_def)
  show ?thesis
    unfolding syncPodObservation_def emits_def now_def
    by (intro holds_let holds_bind holds_if holds_option)
       (auto intro!: io_rules ok clock known ObservePod_known split: if_splits)
qed

lemma reconcilePodBacked_status:
  assumes K: "kube_contract (env_kube E)"
  shows "emits (reconcilePodBacked E S run) status_event"
proof -
  have other: "(\<forall>r st x. e \<noteq> PatchedRun r st x) \<Longrightarrow> status_event e" for e by (simp add: status_event_def)
  have tr: "emits (transitionRun E S run' ph msg u) status_event" if "known_phase ph" "\<And>st. rs_phase (u st) = rs_phase st"
    for S :: "'x server" and run' ph msg u
    using transitionRun_status [OF K that] .
  show ?thesis
    unfolding reconcilePodBacked_def reconcile_with_pod_def failPodNameCollision_def failInvalidWallclock_def
      reconcileMissingPod_def enforceWallclock_def deleteBudgetExceededPod_def
    by (intro emits_rules transitionRun_status [OF K] syncPodObservation_status [OF K] emits_mono [OF delete_pod_emits]
          emits_mono [OF ensure_emits_secret] emits_mono [OF locatePod_emits] other)
       (auto simp: known_phase_def split: option.splits)
qed

subsection \<open>A Pod is created at most once\<close>

definition pod_creation :: "env \<Rightarrow> agent_run \<Rightarrow> pod \<Rightarrow> bool" where
  "pod_creation E run p \<longleftrightarrow> rs_pod_name (ar_status run) = [] \<and>
     m_name (pod_meta p) = PodNameForRun (env_lib E) (run_name run) \<and> m_namespace (pod_meta p) = run_namespace run \<and>
     is_controlled_by (env_kube E) (pod_meta p) (ar_meta run) \<and>
     (\<exists>c m. BuildPodWithConfig (env_lib E) (env_show_float E) run c = Inr (p\<lparr>pod_meta := m\<rparr>))"

lemma BuildPodWithConfig_meta:
  "BuildPodWithConfig L sf run c = Inr p \<Longrightarrow>
     m_name (pod_meta p) = PodNameForRun L (run_name run) \<and> m_namespace (pod_meta p) = run_namespace run"
  by (auto simp: BuildPodWithConfig_def Let_def assemble_pod_def split: sum.splits option.splits prod.splits)

lemma built_pod_creation:
  assumes "kube_contract (env_kube E)" "BuildPodWithConfig (env_lib E) (env_show_float E) run c = Inr p"
    "set_controller_reference (env_kube E) ''AgentRun'' (ar_meta run) (pod_meta p) = Inr m" "rs_pod_name (ar_status run) = []"
  shows "pod_creation E run (p\<lparr>pod_meta := m\<rparr>)"
proof -
  have "\<exists>refs. m = (pod_meta p)\<lparr>m_owner_refs := refs\<rparr>" using kube_contract.owner_frame [OF assms(1,3)] .
  moreover have "BuildPodWithConfig (env_lib E) (env_show_float E) run c = Inr ((p\<lparr>pod_meta := m\<rparr>)\<lparr>pod_meta := pod_meta p\<rparr>)"
    using assms(2) by simp
  ultimately show ?thesis
    using assms(4) BuildPodWithConfig_meta [OF assms(2)] kube_contract.owner_controls [OF assms(1,3)]
    by (auto simp: pod_creation_def intro!: exI [of _ c] exI [of _ "pod_meta p"])
qed

fun creates_pod :: "event \<Rightarrow> bool" where
  "creates_pod (CreatedPod _ _) = True"
| "creates_pod _ = False"

definition create_trace :: "env \<Rightarrow> agent_run \<Rightarrow> event list \<Rightarrow> bool" where
  "create_trace E run t \<longleftrightarrow> filter creates_pod t = [] \<or>
     (\<exists>p x. filter creates_pod t = [CreatedPod p x] \<and> pod_creation E run p)"

lemma no_create_trace:
  assumes "emits m (\<lambda>e. \<not> creates_pod e)" "filter creates_pod t = []"
  shows "holds m (\<lambda>_ t'. create_trace E run (t @ t'))"
  using assms by (intro holds_emits [OF assms(1)]) (auto simp: create_trace_def filter_empty_conv)

lemma emits_no_create:
  "emits (transitionRun E S run ph msg u) (\<lambda>e. \<not> creates_pod e)"
  "emits (syncPodObservation E S run p n) (\<lambda>e. \<not> creates_pod e)"
  "emits (delete_pod S p) (\<lambda>e. \<not> creates_pod e)"
  "emits (ensureDeliveryCredential L K S reader run) (\<lambda>e. \<not> creates_pod e)"
  by (rule emits_mono [OF transitionRun_emits], force, rule emits_mono [OF syncPodObservation_emits], force,
      rule emits_mono [OF delete_pod_emits], force, rule emits_mono [OF ensure_emits_secret])
     (metis creates_pod.elims(2))

lemma reconcileMissingPod_create:
  assumes "kube_contract (env_kube E)"
  shows "holds (reconcileMissingPod E S run n) (\<lambda>_ t. create_trace E run t)"
  unfolding reconcileMissingPod_def
proof (intro holds_if, goal_cases)
  case 1
  show ?case
    using no_create_trace [where t = "[]" and m = "io_bind (transitionRun E S run AgentRunPhaseFailed
      ''Pod lost before run completed.'' (rs_pod_name_update (\<lambda>_. n))) (\<lambda>_. io_return Done)"]
    by (simp add: emits_bind emits_no_create)
next
  case 2
  let ?cred = "case rt_delivery_port (rp_runtime (ar_spec run)) of None \<Rightarrow> io_return []
    | Some _ \<Rightarrow> ensureDeliveryCredential (env_lib E) (env_kube E) S (rr_reader (env_reconciler E)) run"
  have cred: "emits ?cred (\<lambda>e. \<not> creates_pod e)" by (intro emits_rules emits_no_create)
  show ?case
  proof (rule holds_bind, rule holds_emits [OF cred], goal_cases)
    case (1 r t)
    then have t: "filter creates_pod t = []" by (auto simp: filter_empty_conv)
    show ?case
    proof (cases r)
      case (Inl e)
      then show ?thesis using t by (simp add: create_trace_def)
    next
      case (Inr secret)
      show ?thesis
        unfolding Inr sum.case
      proof (intro holds_sum, goal_cases)
        case (3 p m)
        have c: "pod_creation E run (p\<lparr>pod_meta := m\<rparr>)" using built_pod_creation [OF assms 3] 2 by simp
        have rest: "emits (if res \<noteq> None \<and> res \<noteq> Some AlreadyExists then io_fail (ApiErr (the res))
            else io_bind (transitionRun E S run AgentRunPhasePending ''Agent run pod requested.''
              (rs_pod_name_update (\<lambda>_. n))) (\<lambda>_. io_return Done)) (\<lambda>e. \<not> creates_pod e)" for res
          by (intro emits_rules emits_no_create)
        show ?case
          unfolding Create_pod_def
          by (rule holds_bind, rule holds_call, simp only: sum.case, rule holds_emits [OF rest])
             (use t c in \<open>auto simp: create_trace_def filter_empty_conv\<close>)
      qed (intro no_create_trace [OF _ t] emits_rules emits_no_create)+
    qed
  qed
qed

lemma reconcile_with_pod_create:
  assumes "kube_contract (env_kube E)"
  shows "holds (reconcile_with_pod E S run located) (\<lambda>_ t. create_trace E run t)"
proof (cases located)
  case (Pair found n)
  have quiet: "holds m (\<lambda>_ t. create_trace E run t)" if "emits m (\<lambda>e. \<not> creates_pod e)" for m :: "('b, 'c) io"
    using no_create_trace [OF that, of "[]"] by simp
  show ?thesis
    unfolding Pair reconcile_with_pod_def prod.case failPodNameCollision_def failInvalidWallclock_def enforceWallclock_def
    by (intro holds_if holds_sum holds_option reconcileMissingPod_create [OF assms])
       (auto intro!: quiet emits_rules emits_no_create)
qed

lemma locatePod_missing:
  "holds (locatePod E S run) (\<lambda>r t. filter creates_pod t = [] \<and>
     (\<forall>n. r = Inr (None, n) \<longrightarrow>
        (let name = (if rs_pod_name (ar_status run) = [] then PodNameForRun (env_lib E) (run_name run) else rs_pod_name (ar_status run)) in
         n = name \<and> GotPod False (run_namespace run) name (Inl NotFound) \<in> set t \<and>
         (rs_pod_name (ar_status run) \<noteq> [] \<longrightarrow> GotPod True (run_namespace run) name (Inl NotFound) \<in> set t))))"
  unfolding locatePod_def io_calls
  by (intro io_rules) (auto intro!: io_rules)

lemma reconcile_with_pod_found:
  "emits (reconcile_with_pod E S run (Some p, n)) (\<lambda>e. \<not> creates_pod e)"
  unfolding reconcile_with_pod_def prod.case option.case failPodNameCollision_def failInvalidWallclock_def enforceWallclock_def
  by (auto intro!: emits_rules emits_no_create)

lemma reconcilePodBacked_create:
  assumes "kube_contract (env_kube E)"
  shows "holds (reconcilePodBacked E S run) (\<lambda>_ t. filter creates_pod t = [] \<or> create_trace E run t \<and>
    GotPod False (run_namespace run) (PodNameForRun (env_lib E) (run_name run)) (Inl NotFound) \<in> set t)"
proof -
  have quiet: "holds (io_bind (deleteBudgetExceededPod E S run) (\<lambda>_. io_return Done)) (\<lambda>_ t. filter creates_pod t = [])"
    unfolding deleteBudgetExceededPod_def
    by (rule holds_emits [where A = "\<lambda>e. \<not> creates_pod e"]) (auto intro!: emits_rules emits_no_create simp: filter_empty_conv)
  show ?thesis
    unfolding reconcilePodBacked_def
  proof (intro holds_if holds_mono [OF quiet] disjI1, goal_cases)
    case 2
    then show ?case by (intro holds_return) simp
  next
    case 3
    show ?case
    proof (rule holds_bind, rule holds_mono [OF locatePod_missing], goal_cases)
      case (1 r t)
      then have t: "filter creates_pod t = []" by simp
      show ?case
      proof (cases r)
        case (Inl e)
        then show ?thesis using t by simp
      next
        case (Inr located)
        obtain found n where located: "located = (found, n)" by (cases located)
        show ?thesis
        proof (cases found)
          case (Some p)
          from holds_emits [OF reconcile_with_pod_found [of E S run p n]] t show ?thesis
            by (simp add: Inr located Some filter_empty_conv)
        next
          case None
          have name: "GotPod False (run_namespace run) (PodNameForRun (env_lib E) (run_name run)) (Inl NotFound) \<in> set t"
            if "rs_pod_name (ar_status run) = []" using 1 that by (simp add: Inr located None Let_def)
          have "holds (reconcile_with_pod E S run (None, n)) (\<lambda>_ t'. filter creates_pod (t @ t') = [] \<or>
              create_trace E run (t @ t') \<and>
              GotPod False (run_namespace run) (PodNameForRun (env_lib E) (run_name run)) (Inl NotFound) \<in> set (t @ t'))"
            by (rule holds_mono [OF reconcile_with_pod_create [OF assms]])
               (use t name in \<open>auto simp: create_trace_def pod_creation_def\<close>)
          then show ?thesis by (simp add: Inr located None)
        qed
      qed
    qed
  qed
qed

text \<open>
  C4. The Pod of a run is created at most once: a reconcile creates at most one Pod, only for a run whose
  status names no Pod yet (a Pod that was lost is never replaced) and only after the cache reported the
  derived name as missing; the Pod has the derived name, is built from the run and controlled by it.
\<close>

theorem reconcilePodBacked_creates_once:
  assumes "kube_contract (env_kube E)" "reconcilePodBacked E S run s = (r, t, s')" "CreatedPod p x \<in> set t"
  shows "rs_pod_name (ar_status run) = [] \<and> filter creates_pod t = [CreatedPod p x] \<and> pod_creation E run p \<and>
    GotPod False (run_namespace run) (PodNameForRun (env_lib E) (run_name run)) (Inl NotFound) \<in> set t"
proof -
  have mem: "CreatedPod p x \<in> set (filter creates_pod t)" using assms(3) by simp
  then have ne: "filter creates_pod t \<noteq> []" by (auto simp del: set_filter)
  with holdsD [OF reconcilePodBacked_create [OF assms(1)] assms(2)]
  have ct: "create_trace E run t"
    and got: "GotPod False (run_namespace run) (PodNameForRun (env_lib E) (run_name run)) (Inl NotFound) \<in> set t" by auto
  from ct ne obtain q y where "filter creates_pod t = [CreatedPod q y]" "pod_creation E run q"
    by (auto simp: create_trace_def)
  with mem got show ?thesis by (auto simp: pod_creation_def simp del: set_filter)
qed

subsection \<open>The wallclock budget\<close>

text \<open>A transition is one status patch of the run, and its answer is the result.\<close>

definition patch_outcome :: "api_error + agent_run \<Rightarrow> cerror + agent_run" where
  "patch_outcome ans = (case ans of Inl e \<Rightarrow> Inl (ApiErr e) | Inr x \<Rightarrow> Inr x)"

text \<open>Equal but for the completion time and the conditions.\<close>

definition same_fields :: "agent_run_status \<Rightarrow> agent_run_status \<Rightarrow> bool" where
  "same_fields a b \<longleftrightarrow> rs_phase a = rs_phase b \<and> rs_message a = rs_message b \<and> rs_pod_name a = rs_pod_name b \<and>
     rs_start_time a = rs_start_time b \<and> rs_result a = rs_result b \<and> rs_output a = rs_output b \<and> rs_usage a = rs_usage b"

lemma transitionRun_exact:
  "holds (transitionRun E S run ph msg u) (\<lambda>r t. \<exists>st ans. writes t = [PatchedRun run st ans] \<and>
     same_fields st (u ((ar_status run)\<lparr>rs_phase := ph, rs_message := msg\<rparr>)) \<and> r = patch_outcome ans)"
  unfolding transitionRun_def now_def
  by (intro holds_let holds_bind holds_if) (auto intro!: io_rules simp: patch_outcome_def same_fields_def)

definition started_at :: "env \<Rightarrow> agent_run \<Rightarrow> pod \<Rightarrow> time option" where
  "started_at E run p =
     (case po_started_at (ObservePod (env_lib E) (env_json E) p) of
        None \<Rightarrow> rs_start_time (ar_status run) | Some x \<Rightarrow> Some x)"

text \<open>The trace of an exceeded budget: the patch, and the deletion of the Pod once the patch succeeded.\<close>

definition budget_trace :: "agent_run \<Rightarrow> pod \<Rightarrow> time \<Rightarrow> event list \<Rightarrow> bool" where
  "budget_trace run p started t \<longleftrightarrow>
     (\<exists>st ans rest. writes t = PatchedRun run st ans # rest \<and> rs_phase st = AgentRunPhaseBudgetExceeded \<and>
        rs_start_time st = Some started \<and> rs_pod_name st = m_name (pod_meta p) \<and>
        (case ans of Inl _ \<Rightarrow> rest = [] | Inr _ \<Rightarrow> \<exists>x. rest = [DeletedPod p x]))"

lemma delete_pod_exact: "holds (delete_pod S p) (\<lambda>_ t. \<exists>x. t = [DeletedPod p x])"
  unfolding delete_pod_def Delete_pod_def by (intro io_rules) (auto intro!: io_rules)

lemma exceed_budget_trace:
  assumes "writes t = []"
  shows "holds (io_bind (transitionRun E S run AgentRunPhaseBudgetExceeded msg
      (\<lambda>next. next\<lparr>rs_pod_name := m_name (pod_meta p), rs_start_time := Some started\<rparr>))
    (\<lambda>run'. io_bind (delete_pod S p) (\<lambda>_. io_return (Done, run')))) (\<lambda>_ t'. budget_trace run p started (t @ t'))"
proof (rule holds_bind, rule holds_mono [OF transitionRun_exact], goal_cases)
  case (1 r u)
  then obtain st ans where u: "writes u = [PatchedRun run st ans]" "r = patch_outcome ans"
    "rs_phase st = AgentRunPhaseBudgetExceeded" "rs_start_time st = Some started" "rs_pod_name st = m_name (pod_meta p)"
    by (auto simp: same_fields_def)
  show ?case
  proof (cases ans)
    case (Inl e)
    then show ?thesis using u assms by (simp add: patch_outcome_def budget_trace_def)
  next
    case (Inr x)
    have "holds (io_bind (delete_pod S p) (\<lambda>_. io_return (Done, x))) (\<lambda>_ t'. budget_trace run p started (t @ u @ t'))"
      by (rule holds_bind, rule holds_mono [OF delete_pod_exact])
         (use u assms Inr in \<open>auto simp: budget_trace_def intro!: io_rules split: sum.splits\<close>)
    then show ?thesis using u Inr by (simp add: patch_outcome_def)
  qed
qed

text \<open>
  C18. The wallclock budget is enforced exactly: with a limit and a running Pod whose start is known, the
  clock decides.  At or below the limit nothing is written and the reconcile is repeated one second after
  the limit; above it the run becomes BudgetExceeded (with the start it is measured from recorded) and,
  only after that status was stored, the Pod is deleted.  In every other case the budget changes nothing.
\<close>

theorem enforceWallclock_exact:
  assumes "enforceWallclock E S run p limit s = (r, t, s')"
  shows "(case (limit, started_at E run p) of
      (Some lmt, Some started) \<Rightarrow>
        if pst_phase (pod_status_of p) = PodRunning then
          (\<exists>t0 t'. t = ReadClock t0 # t' \<and>
             (if time_sub t0 started \<le> lmt
              then t' = [] \<and> r = Inr (RequeueAfter (wrap64 (wrap64 (lmt - time_sub t0 started) + second)), run)
              else budget_trace run p started t))
        else t = [] \<and> r = Inr (Done, run)
    | _ \<Rightarrow> t = [] \<and> r = Inr (Done, run))"
proof -
  have "holds (enforceWallclock E S run p limit) (\<lambda>r t. case (limit, started_at E run p) of
      (Some lmt, Some started) \<Rightarrow>
        if pst_phase (pod_status_of p) = PodRunning then
          (\<exists>t0 t'. t = ReadClock t0 # t' \<and>
             (if time_sub t0 started \<le> lmt
              then t' = [] \<and> r = Inr (RequeueAfter (wrap64 (wrap64 (lmt - time_sub t0 started) + second)), run)
              else budget_trace run p started t))
        else t = [] \<and> r = Inr (Done, run)
    | _ \<Rightarrow> t = [] \<and> r = Inr (Done, run))"
  proof (cases "limit = None \<or> pst_phase (pod_status_of p) \<noteq> PodRunning \<or> started_at E run p = None")
    case True
    then show ?thesis
      unfolding enforceWallclock_def
      by (cases "started_at E run p")
         (auto intro!: holds_return simp: started_at_def Let_def split: option.splits)
  next
    case False
    then obtain lmt started where l: "limit = Some lmt" "started_at E run p = Some started"
      "pst_phase (pod_status_of p) = PodRunning" by auto
    have eq: "(if po_started_at (ObservePod (env_lib E) (env_json E) p) = None then rs_start_time (ar_status run)
        else po_started_at (ObservePod (env_lib E) (env_json E) p)) = Some started"
      using l(2) by (auto simp: started_at_def split: option.splits)
    show ?thesis
      unfolding enforceWallclock_def l option.case prod.case Let_def eq now_def
    proof (simp, rule holds_bind, rule holds_call, simp only: sum.case, intro holds_if, goal_cases)
      case (1 t0)
      then show ?case by (auto intro!: holds_return)
    next
      case (2 t0)
      show ?case
        by (rule holds_mono [OF exceed_budget_trace [where t = "[ReadClock t0]"]]) (use 2 in auto)
    qed
  qed
  from holdsD [OF this assms] show ?thesis .
qed

subsection \<open>Examples\<close>

definition plain_durations :: duration_lib where
  "plain_durations = \<lparr>parse_duration = (\<lambda>s. case parse_int 64 s of None \<Rightarrow> Inl ''bad'' | Some n \<Rightarrow> Inr n), show_duration = show_int\<rparr>"

definition sample_env :: env where
  "sample_env = \<lparr>env_lib = zero_digest, env_kube = doc_kube, env_json = demo_codec, env_durations = plain_durations,
     env_show_float = (\<lambda>_. ''0''), env_reconciler = \<lparr>rr_reader = True, rr_reporter_image = []\<rparr>\<rparr>"

definition owned_pod :: "pod \<Rightarrow> pod" where
  "owned_pod p = p\<lparr>pod_meta := (pod_meta p)\<lparr>m_owner_refs := [\<lparr>or_api_version = GroupVersion, or_kind = ''AgentRun'',
     or_name = ''docs-1'', or_uid = ''uid-run'', or_controller = True\<rparr>]\<rparr>\<rparr>"

definition with_status :: "string \<Rightarrow> string \<Rightarrow> agent_run" where
  "with_status phase podName = sample_run\<lparr>ar_status := empty_run_status\<lparr>rs_phase := phase, rs_pod_name := podName\<rparr>\<rparr>"

text \<open>A server that knows one Pod.\<close>

definition pod_server :: "pod \<Rightarrow> unit server" where
  "pod_server p = quiet_server\<lparr>sv_get_pod := (\<lambda>_ _ _ s. (Inr p, s))\<rparr>"

definition running_pod :: pod where
  "running_pod = sample_pod PodRunning (running_state (100 * second))"

lemma sample_env_kube: "kube_contract (env_kube sample_env)"
  using doc.kube_contract_axioms by (simp add: sample_env_def)

theorem reconcilePodBacked_terminal_and_own_witness:
  "let trace = fst (snd (reconcilePodBacked sample_env (pod_server (owned_pod running_pod))
       (with_status AgentRunPhaseBudgetExceeded ''docs-1-pod'') ()))
   in DeletedPod (owned_pod running_pod) None \<in> set trace \<and>
      is_controlled_by doc_kube (pod_meta (owned_pod running_pod)) (ar_meta (with_status AgentRunPhaseBudgetExceeded ''docs-1-pod''))"
proof -
  let ?run = "with_status AgentRunPhaseBudgetExceeded ''docs-1-pod''"
  obtain r t s' where run: "reconcilePodBacked sample_env (pod_server (owned_pod running_pod)) ?run () = (r, t, s')"
    by (cases "reconcilePodBacked sample_env (pod_server (owned_pod running_pod)) ?run ()")
  have "DeletedPod (owned_pod running_pod) None \<in> set (fst (snd
      (reconcilePodBacked sample_env (pod_server (owned_pod running_pod)) ?run ())))"
    by (simp add: reconcilePodBacked_def deleteBudgetExceededPod_def delete_pod_def io_calls io_bind_def io_call_def io_return_def
        with_status_def sample_env_def pod_server_def quiet_server_def doc_kube_def doc_is_controlled_by_def owned_pod_def sample_defs)
  then have "DeletedPod (owned_pod running_pod) None \<in> set t" using run by simp
  moreover from this have "is_controlled_by (env_kube sample_env) (pod_meta (owned_pod running_pod)) (ar_meta ?run)"
    using reconcilePodBacked_terminal_and_own [OF run] by blast
  ultimately show ?thesis using run by (simp add: sample_env_def Let_def)
qed

theorem reconcilePodBacked_creates_once_witness:
  "\<exists>p x. CreatedPod p x \<in> set (fst (snd (reconcilePodBacked sample_env quiet_server (with_status [] []) ()))) \<and>
     pod_creation sample_env (with_status [] []) p"
proof -
  let ?run = "with_status [] []"
  obtain r t s' where run: "reconcilePodBacked sample_env quiet_server ?run () = (r, t, s')"
    by (cases "reconcilePodBacked sample_env quiet_server ?run ()")
  have "list_ex creates_pod (fst (snd (reconcilePodBacked sample_env quiet_server ?run ())))"
    by code_simp
  then obtain e where "e \<in> set t" "creates_pod e" using run by (auto simp: list_ex_iff)
  then obtain p x where "CreatedPod p x \<in> set t" by - (cases e; auto)
  with reconcilePodBacked_creates_once [OF sample_env_kube run this] run show ?thesis by auto
qed

theorem enforceWallclock_exact_witness:
  "\<exists>t'. fst (snd (enforceWallclock sample_env quiet_server sample_run running_pod (Some (60 * second)) ())) =
      ReadClock (1000 * second) # t' \<and>
    budget_trace sample_run running_pod (100 * second) (ReadClock (1000 * second) # t')"
proof -
  obtain r t s' where run: "enforceWallclock sample_env quiet_server sample_run running_pod (Some (60 * second)) () = (r, t, s')"
    by (cases "enforceWallclock sample_env quiet_server sample_run running_pod (Some (60 * second)) ()")
  have start: "started_at sample_env sample_run running_pod = Some (100 * second)"
    by (simp add: started_at_def ObservePod_def runtimeContainerStatus_def observe_container_def running_pod_def
        sample_pod_def running_state_def)
  have "hd (fst (snd (enforceWallclock sample_env quiet_server sample_run running_pod (Some (60 * second)) ()))) = ReadClock (1000 * second)"
    using start by (simp add: enforceWallclock_def started_at_def io_calls io_bind_def io_call_def quiet_server_def
        running_pod_def sample_pod_def Let_def split: option.splits sum.splits prod.splits)
  with enforceWallclock_exact [OF run] start run show ?thesis
    by (auto simp: running_pod_def sample_pod_def time_sub_def clamp64_def)
qed

end
