(* ===== verification/Run_Delivery.thy ===== *)
theory Run_Delivery
  imports Run_Controller
begin

text \<open>
  \<^verbatim>\<open>internal/controller/agentrun_delivery.go\<close>: delivering an AgentRun to the standing Pod of a Service
  Agent over HTTP.  The reconcile is split where the source sends the request: \<open>delivery_begin\<close> up to the
  request, \<open>deliver\<close> the request, \<open>delivery_finish\<close> what follows it.
\<close>

abbreviation defaultDeliveryTimeout :: duration where "defaultDeliveryTimeout \<equiv> 300 * second"

record delivery_lib =
  dl_codec :: delivery_codec
  dl_hmac :: "string \<Rightarrow> string \<Rightarrow> string"
  dl_media_type :: "string \<Rightarrow> string option"
  dl_new_request_error :: "string \<Rightarrow> string \<Rightarrow> string option"

record delivery_target =
  dt_pod :: pod
  dt_credential :: string

text \<open>Why a target is not available now: reason and message.\<close>

type_synonym unavailable = "string \<times> string"

subsection \<open>Status\<close>

definition deliveryConditions :: "string \<Rightarrow> string \<Rightarrow> bool \<Rightarrow> condition list" where
  "deliveryConditions reason message progressing =
     [mk_condition cond_Complete ConditionFalse reason message,
      mk_condition cond_Progressing (if progressing then ConditionTrue else ConditionFalse) reason message]"

definition setDeliveryWaiting :: "env \<Rightarrow> 's server \<Rightarrow> agent_run \<Rightarrow> unavailable \<Rightarrow> ('s, agent_run) io" where
  "setDeliveryWaiting E S run why =
     (case why of (reason, message) \<Rightarrow>
        patch_run_status S run ((ar_status run)\<lparr>rs_phase := AgentRunPhasePending, rs_message := message,
          rs_completion_time := None,
          rs_conditions := setStatusConditions (env_kube E) (rs_conditions (ar_status run)) (m_generation (ar_meta run))
            (deliveryConditions reason message True)\<rparr>))"

definition setDeliveryRunning :: "env \<Rightarrow> 's server \<Rightarrow> agent_run \<Rightarrow> string \<Rightarrow> ('s, agent_run) io" where
  "setDeliveryRunning E S run podName =
     (let message = ''Delivering agent run to standing Service Pod '' @ podName @ ''.'' in
      io_bind (case rs_start_time (ar_status run) of
                 Some t \<Rightarrow> io_return (Some t)
               | None \<Rightarrow> io_bind (now S) (\<lambda>t. io_return (Some t))) (\<lambda>start.
        patch_run_status S run ((ar_status run)\<lparr>rs_phase := AgentRunPhaseRunning, rs_pod_name := podName,
          rs_message := message, rs_start_time := start, rs_completion_time := None,
          rs_conditions := setStatusConditions (env_kube E) (rs_conditions (ar_status run)) (m_generation (ar_meta run))
            (deliveryConditions ''Delivering'' message True)\<rparr>)))"

definition failDeliveryTimeout :: "env \<Rightarrow> 's server \<Rightarrow> agent_run \<Rightarrow> ('s, agent_run) io" where
  "failDeliveryTimeout E S run =
     transitionRun E S run AgentRunPhaseFailed
       (''Service delivery timed out after '' @ show_duration (env_durations E) defaultDeliveryTimeout @ ''.'') id"

definition exceedDeliveryBudget :: "env \<Rightarrow> 's server \<Rightarrow> agent_run \<Rightarrow> duration \<Rightarrow> ('s, agent_run) io" where
  "exceedDeliveryBudget E S run limit =
     transitionRun E S run AgentRunPhaseBudgetExceeded
       (''Wallclock budget exceeded after '' @ show_duration (env_durations E) limit @ ''.'') id"

definition deliveryBackoff :: "'s server \<Rightarrow> agent_run \<Rightarrow> ('s, duration) io" where
  "deliveryBackoff S run =
     io_bind (now S) (\<lambda>t.
       let elapsed = time_sub t (m_creation (ar_meta run)) in
       io_return (if elapsed \<ge> 120 * second then 15 * second
                  else if elapsed \<ge> 30 * second then 5 * second
                  else if elapsed \<ge> 5 * second then 2 * second
                  else second))"

definition deliveryDeadline :: "agent_run \<Rightarrow> duration option \<Rightarrow> time \<Rightarrow> time \<times> bool" where
  "deliveryDeadline run wallclockLimit t =
     (let deadline = (if m_creation (ar_meta run) = 0 then time_add t defaultDeliveryTimeout
                      else time_add (m_creation (ar_meta run)) defaultDeliveryTimeout)
      in case (wallclockLimit, rs_start_time (ar_status run)) of
           (Some limit, Some start) \<Rightarrow>
             (let wallclockDeadline = time_add start limit in
              if \<not> wallclockDeadline > deadline then (wallclockDeadline, True) else (deadline, False))
         | _ \<Rightarrow> (deadline, False))"

text \<open>
  The check the source repeats before and after the request: past the deadline the run fails or exceeds
  its budget, otherwise the rest goes on with the deadline.
\<close>

definition check_deadline ::
  "env \<Rightarrow> 's server \<Rightarrow> agent_run \<Rightarrow> duration option \<Rightarrow> (time \<Rightarrow> ('s, ctrl_result + 'a) io) \<Rightarrow> ('s, ctrl_result + 'a) io" where
  "check_deadline E S run limit k =
     io_bind (now S) (\<lambda>t.
       case deliveryDeadline run limit t of (requestDeadline, budgetDeadline) \<Rightarrow>
         if \<not> t < requestDeadline then
           io_bind (if budgetDeadline then exceedDeliveryBudget E S run (the limit) else failDeliveryTimeout E S run)
             (\<lambda>_. io_return (Inl Done))
         else k requestDeadline)"

subsection \<open>The target\<close>

definition deliveryPodReady :: "pod \<Rightarrow> bool" where
  "deliveryPodReady p \<longleftrightarrow>
     \<not> (m_deletion (pod_meta p) \<noteq> None \<or> pst_phase (pod_status_of p) \<noteq> PodRunning \<or> pst_pod_ip (pod_status_of p) = []) \<and>
     list_ex (\<lambda>(ty, st). ty = ''Ready'' \<and> st = ConditionTrue) (pst_conditions (pod_status_of p)) \<and>
     (case find (\<lambda>c. cs_name c = RuntimeContainerName) (pst_container_statuses (pod_status_of p)) of
        None \<Rightarrow> False
      | Some c \<Rightarrow> cs_ready c \<and> st_running (cs_state c) \<noteq> None)"

text \<open>Reading an object where being absent makes the target unavailable.\<close>

definition get_or ::
  "('s, api_error + 'a) io \<Rightarrow> unavailable \<Rightarrow> ('a \<Rightarrow> ('s, unavailable + 'b) io) \<Rightarrow> ('s, unavailable + 'b) io" where
  "get_or m why k = io_bind m (\<lambda>got.
     case got of
       Inl e \<Rightarrow> if e = NotFound then io_return (Inl why) else io_fail (ApiErr e)
     | Inr x \<Rightarrow> k x)"

definition standing_ready :: "env \<Rightarrow> agent \<Rightarrow> agent_run \<Rightarrow> bool" where
  "standing_ready E ag standing \<longleftrightarrow>
     \<not> (\<not> is_controlled_by (env_kube E) (ar_meta standing) (ag_meta ag) \<or> rp_delivery_port (ar_spec standing) \<noteq> None \<or>
        run_phase standing \<noteq> AgentRunPhaseRunning \<or> rs_pod_name (ar_status standing) = [])"

definition standing_pod ::
  "env \<Rightarrow> 's server \<Rightarrow> agent_run \<Rightarrow> agent \<Rightarrow> agent_run \<Rightarrow> ('s, unavailable + delivery_target) io" where
  "standing_pod E S run ag standing =
     (if \<not> standing_ready E ag standing then
        io_return (Inl (''TargetNotReady'', ''Referenced Service Agent's standing run is not ready for delivery.''))
      else if rt_delivery_port (rp_runtime (ar_spec standing)) = None \<or>
              rt_delivery_port (rp_runtime (ar_spec standing)) \<noteq> rp_delivery_port (ar_spec run) then
        io_return (Inl (''ServiceRecasting'', ''Waiting for a standing Service runtime compatible with the delivery snapshot.''))
      else get_or (Get_pod S True (run_namespace run) (rs_pod_name (ar_status standing)))
        (''ServiceRecasting'', ''Referenced Service Agent's standing Pod is being replaced.'') (\<lambda>p.
          if \<not> is_controlled_by (env_kube E) (pod_meta p) (ar_meta standing) \<or> \<not> deliveryPodReady p then
            io_return (Inl (''TargetNotReady'', ''Referenced Service Agent's standing Pod is not ready for delivery.''))
          else io_bind (io_try (loadDeliveryCredential (env_lib E) (env_kube E) S (rr_reader (env_reconciler E)) standing)) (\<lambda>loaded.
            case loaded of
              Inl e \<Rightarrow>
                if e = ApiErr NotFound then
                  io_return (Inl (''TargetNotReady'', ''Referenced Service Agent is waiting for its delivery credential.''))
                else io_fail (ConfigurationError (''Standing Service delivery credential is invalid: '' @
                       cerror_text (env_kube E) e @ ''.''))
            | Inr tok \<Rightarrow> io_return (Inr \<lparr>dt_pod = p, dt_credential = tok\<rparr>))))"

definition resolveDeliveryTarget ::
  "env \<Rightarrow> 's server \<Rightarrow> agent_run \<Rightarrow> ('s, unavailable + delivery_target) io" where
  "resolveDeliveryTarget E S run =
     (if \<not> rr_reader (env_reconciler E) then
        io_fail (PlainError (''cannot resolve delivery target for AgentRun '' @ run_namespace run @ ''/'' @ run_name run @
          '': APIReader is not configured''))
      else case rp_agent_ref (ar_spec run) of
        None \<Rightarrow> io_fail (ConfigurationError ''Agent run delivery configuration is invalid: agentRef is required.'')
      | Some agentRef \<Rightarrow>
          if agentRef = [] then
            io_fail (ConfigurationError ''Agent run delivery configuration is invalid: agentRef is required.'')
          else get_or (Get_agent S True (run_namespace run) agentRef)
            (''TargetMissing'', ''Referenced Service Agent '' @ agentRef @ '' is not available.'') (\<lambda>ag.
              if sp_mode (ag_spec ag) \<noteq> AgentModeService \<or> \<not> is_controlled_by (env_kube E) (ar_meta run) (ag_meta ag) then
                io_fail (ConfigurationError ''Agent run delivery target is not the referenced owning Service Agent.'')
              else if as_current_run_name (ag_status ag) = [] then
                io_return (Inl (''WaitingForService'', ''Referenced Service Agent does not have a standing run yet.''))
              else get_or (Get_run S True (run_namespace run) (as_current_run_name (ag_status ag)))
                (''ServiceRecasting'', ''Referenced Service Agent is replacing its standing run.'')
                (standing_pod E S run ag)))"

definition confirmDeliveryTarget ::
  "env \<Rightarrow> 's server \<Rightarrow> agent_run \<Rightarrow> delivery_target \<Rightarrow> ('s, unavailable + delivery_target) io" where
  "confirmDeliveryTarget E S run expected =
     io_bind (resolveDeliveryTarget E S run) (\<lambda>res.
       case res of
         Inl why \<Rightarrow> io_return (Inl why)
       | Inr current \<Rightarrow>
           (let c = dt_pod current; x = dt_pod expected in
            if m_uid (pod_meta x) = [] \<or> m_uid (pod_meta c) \<noteq> m_uid (pod_meta x) \<or>
               m_namespace (pod_meta c) \<noteq> m_namespace (pod_meta x) \<or> m_name (pod_meta c) \<noteq> m_name (pod_meta x) \<or>
               pst_pod_ip (pod_status_of c) \<noteq> pst_pod_ip (pod_status_of x) \<or> dt_credential current \<noteq> dt_credential expected
            then io_return (Inl (''TargetChanged'', ''Standing Service Pod identity changed during delivery.''))
            else io_return (Inr current)))"

text \<open>
  What the source does with the answer of both: a configuration error fails the run, an unavailable
  target is waited for, a target goes on.
\<close>

definition with_target ::
  "env \<Rightarrow> 's server \<Rightarrow> agent_run \<Rightarrow> ('s, unavailable + delivery_target) io \<Rightarrow>
   (delivery_target \<Rightarrow> ('s, ctrl_result + 'a) io) \<Rightarrow> ('s, ctrl_result + 'a) io" where
  "with_target E S run m k =
     io_bind (io_try m) (\<lambda>res.
       case res of
         Inl e \<Rightarrow>
           (case e of
              ConfigurationError msg \<Rightarrow>
                io_bind (transitionRun E S run AgentRunPhaseFailed msg id) (\<lambda>_. io_return (Inl Done))
            | _ \<Rightarrow> io_fail e)
       | Inr (Inl why) \<Rightarrow>
           io_bind (setDeliveryWaiting E S run why) (\<lambda>run'.
             io_bind (deliveryBackoff S run') (\<lambda>d. io_return (Inl (RequeueAfter d))))
       | Inr (Inr target) \<Rightarrow> k target)"

subsection \<open>The request\<close>

datatype delivery_outcome = Delivered envelope | DeliveryFailed bool string

definition request_for :: "agent_run \<Rightarrow> pod \<Rightarrow> delivery_request" where
  "request_for run p = \<lparr>dr_api_version = DeliveryAPIVersion, dr_run_name = run_name run, dr_run_namespace = run_namespace run,
     dr_run_uid = m_uid (ar_meta run), dr_target_name = m_name (pod_meta p), dr_target_uid = m_uid (pod_meta p),
     dr_goal = rp_goal (ar_spec run)\<rparr>"

definition judge_response ::
  "env \<Rightarrow> delivery_lib \<Rightarrow> agent_run \<Rightarrow> delivery_target \<Rightarrow> string \<Rightarrow> http_response \<Rightarrow> delivery_outcome" where
  "judge_response E D run target challenge response =
     (let body = take (MaxResponseBytes + 1) (rp_body response) in
      if rp_read_error response \<noteq> None \<and> length (rp_body response) \<le> MaxResponseBytes then
        DeliveryFailed True (''read Service delivery response: '' @ the (rp_read_error response))
      else if length body > MaxResponseBytes then
        DeliveryFailed False (''Service delivery response exceeded '' @ show_nat MaxResponseBytes @ '' bytes.'')
      else if rp_status_code response \<noteq> 200 then
        DeliveryFailed False (''Service delivery returned HTTP '' @ show_int (rp_status_code response) @ ''.'')
      else if \<not> VerifyResponseSignature (dl_hmac D) (dt_credential target) challenge (m_uid (ar_meta run)) body (rp_signature response) then
        DeliveryFailed False ''Service delivery response authentication failed.''
      else if dl_media_type D (rp_content_type response) \<noteq> Some ''application/json'' then
        DeliveryFailed False ''Service delivery response Content-Type must be application/json.''
      else case ParseVersioned (env_lib E) (env_json E) body of
        Inl VersionedEnvelopeRequired \<Rightarrow>
          DeliveryFailed False ''Service delivery response is invalid: versioned result envelope required.''
      | Inl (ParseFailed err) \<Rightarrow> DeliveryFailed False (''Service delivery response is invalid: '' @ err @ ''.'')
      | Inr e \<Rightarrow> Delivered e)"

definition deliver ::
  "env \<Rightarrow> delivery_lib \<Rightarrow> 's server \<Rightarrow> agent_run \<Rightarrow> delivery_target \<Rightarrow> time \<Rightarrow> ('s, delivery_outcome) io" where
  "deliver E D S run target deadline =
     (let p = dt_pod target in
      io_bind (rand_Read S 32) (\<lambda>random.
        case random of
          Inl err \<Rightarrow> io_return (DeliveryFailed False (''generate Service delivery challenge: '' @ err))
        | Inr challengeBytes \<Rightarrow>
            (let challenge = b64_encode challengeBytes in
             case dc_marshal (dl_codec D) (request_for run p) of
               Inl err \<Rightarrow> io_return (DeliveryFailed False (''encode Service delivery request: '' @ err))
             | Inr payload \<Rightarrow>
                 (let host = join_host_port (pst_pod_ip (pod_status_of p)) (show_int (the (rp_delivery_port (ar_spec run)))) in
                  case dl_new_request_error D host EndpointPath of
                    Some err \<Rightarrow> io_return (DeliveryFailed False (''build Service delivery request: '' @ err))
                  | None \<Rightarrow>
                      io_bind (Do_http S \<lparr>hr_host = m_name (pod_meta p), hr_url_host = host, hr_path = EndpointPath,
                                 hr_challenge = challenge, hr_body = payload, hr_deadline = deadline\<rparr>) (\<lambda>res.
                        case res of
                          Inl err \<Rightarrow> io_return (DeliveryFailed True err)
                        | Inr response \<Rightarrow> io_return (judge_response E D run target challenge response))))))"

subsection \<open>The reconcile\<close>

definition delivery_begin ::
  "env \<Rightarrow> 's server \<Rightarrow> agent_run \<Rightarrow> duration option \<Rightarrow> ('s, ctrl_result + (agent_run \<times> delivery_target \<times> time)) io" where
  "delivery_begin E S run limit =
     check_deadline E S run limit (\<lambda>_.
       with_target E S run (resolveDeliveryTarget E S run) (\<lambda>target.
         io_bind (setDeliveryRunning E S run (m_name (pod_meta (dt_pod target)))) (\<lambda>run.
           with_target E S run (confirmDeliveryTarget E S run target) (\<lambda>confirmed.
             check_deadline E S run limit (\<lambda>requestDeadline. io_return (Inr (run, confirmed, requestDeadline)))))))"

definition deliver_result :: "env \<Rightarrow> 's server \<Rightarrow> agent_run \<Rightarrow> delivery_target \<Rightarrow> envelope \<Rightarrow> ('s, agent_run) io" where
  "deliver_result E S run target e =
     (let observation = ObserveResultEnvelope (env_lib E) (env_json E) e;
          next = (ar_status run)\<lparr>rs_phase := po_phase observation, rs_message := po_message observation,
            rs_result := po_result observation, rs_output := po_output observation, rs_usage := po_usage observation,
            rs_pod_name := m_name (pod_meta (dt_pod target))\<rparr>
      in io_bind (case rs_completion_time next of
                    Some t \<Rightarrow> io_return (Some t)
                  | None \<Rightarrow> io_bind (now S) (\<lambda>t. io_return (Some t))) (\<lambda>completed.
           patch_run_status S run (next\<lparr>rs_completion_time := completed,
             rs_conditions := setStatusConditions (env_kube E) (rs_conditions next) (m_generation (ar_meta run))
               (ForAgentRunPhase (po_phase observation))\<rparr>)))"

definition finish_with ::
  "env \<Rightarrow> 's server \<Rightarrow> duration option \<Rightarrow> delivery_outcome \<Rightarrow> agent_run \<Rightarrow> delivery_target \<Rightarrow> ('s, ctrl_result + unit) io" where
  "finish_with E S limit out run target =
     (case out of
        DeliveryFailed False err \<Rightarrow>
          io_bind (transitionRun E S run AgentRunPhaseFailed err id) (\<lambda>_. io_return (Inl Done))
      | DeliveryFailed True err \<Rightarrow>
          check_deadline E S run limit (\<lambda>_.
            io_bind (setDeliveryWaiting E S run
                (''TargetUnreachable'', ''Service delivery target is unreachable: '' @ err @ ''.'')) (\<lambda>run'.
              io_bind (deliveryBackoff S run') (\<lambda>d. io_return (Inl (RequeueAfter d)))))
      | Delivered e \<Rightarrow> io_bind (deliver_result E S run target e) (\<lambda>_. io_return (Inl Done)))"

definition delivery_finish ::
  "env \<Rightarrow> 's server \<Rightarrow> agent_run \<Rightarrow> duration option \<Rightarrow> delivery_target \<Rightarrow> delivery_outcome \<Rightarrow> ('s, ctrl_result + unit) io" where
  "delivery_finish E S run limit target out =
     io_bind (Get_run S True (run_namespace run) (run_name run)) (\<lambda>got.
       case got of
         Inl e \<Rightarrow> if e = NotFound then io_return (Inl Done) else io_fail (ApiErr e)
       | Inr latest \<Rightarrow>
           if m_uid (ar_meta latest) \<noteq> m_uid (ar_meta run) \<or> is_terminal (run_phase latest) then io_return (Inl Done)
           else with_target E S latest (confirmDeliveryTarget E S latest target) (finish_with E S limit out latest))"

definition io_result :: "('s, ctrl_result + unit) io \<Rightarrow> ('s, ctrl_result) io" where
  "io_result m = io_bind m (\<lambda>r. io_return (case r of Inl x \<Rightarrow> x | Inr _ \<Rightarrow> Done))"

definition reconcileDelivery :: "env \<Rightarrow> delivery_lib \<Rightarrow> 's server \<Rightarrow> agent_run \<Rightarrow> ('s, ctrl_result) io" where
  "reconcileDelivery E D S run =
     (if is_terminal (run_phase run) then io_return Done
      else case parseWallclockBudget E (rp_budget (ar_spec run)) of
        Inl err \<Rightarrow>
          io_bind (transitionRun E S run AgentRunPhaseFailed
              (''Agent run delivery configuration is invalid: '' @ err @ ''.'') id) (\<lambda>_. io_return Done)
      | Inr limit \<Rightarrow>
          io_result (io_bind (delivery_begin E S run limit) (\<lambda>begun.
            case begun of
              Inl result \<Rightarrow> io_return (Inl result)
            | Inr (run, target, requestDeadline) \<Rightarrow>
                io_bind (deliver E D S run target requestDeadline) (delivery_finish E S run limit target))))"

definition run_Reconcile ::
  "env \<Rightarrow> delivery_lib \<Rightarrow> 's server \<Rightarrow> string \<Rightarrow> string \<Rightarrow> ('s, ctrl_result) io" where
  "run_Reconcile E D S ns n =
     io_bind (Get_run S False ns n) (\<lambda>got.
       case got of
         Inl e \<Rightarrow> if e = NotFound then io_return Done else io_fail (ApiErr e)
       | Inr run \<Rightarrow>
           if rp_delivery_port (ar_spec run) \<noteq> None then reconcileDelivery E D S run
           else reconcilePodBacked E S run)"

subsection \<open>Whom a run is delivered to\<close>

text \<open>
  A target as the live reads of a trace show it: the Pod of the standing run of the Service Agent that owns
  the run, ready, with the port of the run, and with the token of the standing run's own Secret.
\<close>

definition serving :: "pod \<Rightarrow> bool" where
  "serving p \<longleftrightarrow> m_deletion (pod_meta p) = None \<and> pst_phase (pod_status_of p) = PodRunning \<and>
     pst_pod_ip (pod_status_of p) \<noteq> [] \<and> (''Ready'', ConditionTrue) \<in> set (pst_conditions (pod_status_of p)) \<and>
     (\<exists>c \<in> set (pst_container_statuses (pod_status_of p)). cs_name c = RuntimeContainerName \<and> cs_ready c \<and>
        st_running (cs_state c) \<noteq> None)"

lemma deliveryPodReady_serving: "deliveryPodReady p \<Longrightarrow> serving p"
  by (auto simp: deliveryPodReady_def serving_def list_ex_iff find_Some_iff2 find_Some_iff split: option.splits)

definition target_seen :: "env \<Rightarrow> agent_run \<Rightarrow> event list \<Rightarrow> delivery_target \<Rightarrow> bool" where
  "target_seen E run t target \<longleftrightarrow>
     (\<exists>ref ag standing name sec. rp_agent_ref (ar_spec run) = Some ref \<and>
        GotAgent True (run_namespace run) ref (Inr ag) \<in> set t \<and> sp_mode (ag_spec ag) = AgentModeService \<and>
        is_controlled_by (env_kube E) (ar_meta run) (ag_meta ag) \<and>
        GotRun True (run_namespace run) (as_current_run_name (ag_status ag)) (Inr standing) \<in> set t \<and>
        is_controlled_by (env_kube E) (ar_meta standing) (ag_meta ag) \<and> run_phase standing = AgentRunPhaseRunning \<and>
        rp_delivery_port (ar_spec standing) = None \<and>
        rt_delivery_port (rp_runtime (ar_spec standing)) = rp_delivery_port (ar_spec run) \<and>
        GotPod True (run_namespace run) (rs_pod_name (ar_status standing)) (Inr (dt_pod target)) \<in> set t \<and>
        is_controlled_by (env_kube E) (pod_meta (dt_pod target)) (ar_meta standing) \<and> serving (dt_pod target) \<and>
        GotSecret (run_namespace standing) name (Inr sec) \<in> set t \<and>
        deliveryCredentialFromSecret (env_lib E) (env_kube E) standing sec = Inr (dt_credential target))"

lemma target_seen_mono: "target_seen E run t target \<Longrightarrow> set t \<subseteq> set t' \<Longrightarrow> target_seen E run t' target"
  unfolding target_seen_def by (meson subsetD)

lemma loadDeliveryCredential_returns:
  "returns (loadDeliveryCredential L K S reader run) (\<lambda>tok t. \<exists>name sec.
     t = [GotSecret (run_namespace run) name (Inr sec)] \<and> deliveryCredentialFromSecret L K run sec = Inr tok)"
  unfolding returns_def loadDeliveryCredential_def go_error_def io_calls
  by (intro io_rules) (auto intro!: io_rules)

lemma standing_pod_returns:
  assumes "GotAgent True (run_namespace run) ref (Inr ag) \<in> set t0" "rp_agent_ref (ar_spec run) = Some ref"
    "sp_mode (ag_spec ag) = AgentModeService" "is_controlled_by (env_kube E) (ar_meta run) (ag_meta ag)"
    "GotRun True (run_namespace run) (as_current_run_name (ag_status ag)) (Inr standing) \<in> set t0"
  shows "returns (standing_pod E S run ag standing) (\<lambda>res t. \<forall>target. res = Inr target \<longrightarrow> target_seen E run (t0 @ t) target)"
proof -
  have load: "returns (io_try (loadDeliveryCredential (env_lib E) (env_kube E) S (rr_reader (env_reconciler E)) standing))
      (\<lambda>r t. \<forall>tok. r = Inr tok \<longrightarrow> (\<exists>name sec. t = [GotSecret (run_namespace standing) name (Inr sec)] \<and>
         deliveryCredentialFromSecret (env_lib E) (env_kube E) standing sec = Inr tok))"
    using loadDeliveryCredential_returns unfolding returns_def by (rule holds_try [OF holds_mono]) simp
  show ?thesis
    unfolding standing_pod_def get_or_def Get_pod_def
    apply (intro returns_rules)
         apply simp_all
    apply (rule returns_bind [OF load])
    apply (auto intro!: returns_rules split: sum.splits)
    using assms by (fastforce simp: target_seen_def standing_ready_def dest: deliveryPodReady_serving)
qed

lemma resolveDeliveryTarget_returns:
  "returns (resolveDeliveryTarget E S run) (\<lambda>res t. \<forall>target. res = Inr target \<longrightarrow> target_seen E run t target)"
  unfolding resolveDeliveryTarget_def get_or_def io_calls
proof (intro returns_rules, simp_all, goal_cases)
  case (1 ref _ ag _ standing)
  then show ?case
    using standing_pod_returns [of run ref ag "[GotAgent True (run_namespace run) ref (Inr ag),
        GotRun True (run_namespace run) (as_current_run_name (ag_status ag)) (Inr standing)]" E standing S] by simp
qed

lemma confirmDeliveryTarget_returns:
  "returns (confirmDeliveryTarget E S run expected) (\<lambda>res t. \<forall>target. res = Inr target \<longrightarrow>
     target_seen E run t target \<and> m_uid (pod_meta (dt_pod target)) = m_uid (pod_meta (dt_pod expected)) \<and>
     m_name (pod_meta (dt_pod target)) = m_name (pod_meta (dt_pod expected)) \<and>
     dt_credential target = dt_credential expected)"
  unfolding confirmDeliveryTarget_def
  by (rule returns_bind [OF resolveDeliveryTarget_returns]) (auto simp: Let_def intro!: returns_rules split: sum.splits)

text \<open>The reads and the bookkeeping send nothing and never claim success.\<close>

fun is_http :: "event \<Rightarrow> bool" where
  "is_http (DidHttp _ _) = True"
| "is_http _ = False"

fun calm :: "event \<Rightarrow> bool" where
  "calm (DidHttp _ _) = False"
| "calm (PatchedRun _ st _) = (rs_phase st \<noteq> AgentRunPhaseSucceeded)"
| "calm _ = True"

lemma transitionRun_calm:
  assumes "phase \<noteq> AgentRunPhaseSucceeded"
  shows "emits (transitionRun E S run phase msg id) calm"
  unfolding transitionRun_def emits_def now_def
  by (intro holds_let holds_bind holds_if) (auto intro!: io_rules simp: assms)

lemma setDeliveryWaiting_calm: "emits (setDeliveryWaiting E S run why) calm"
  unfolding setDeliveryWaiting_def by (intro emits_rules) simp

lemma setDeliveryRunning_calm: "emits (setDeliveryRunning E S run n) calm"
  unfolding setDeliveryRunning_def by (intro emits_rules) simp_all

lemma deliveryBackoff_calm: "emits (deliveryBackoff S run) calm"
  unfolding deliveryBackoff_def by (intro emits_rules) simp_all

lemma resolveDeliveryTarget_reads: "emits (resolveDeliveryTarget E S run) (\<lambda>e. \<not> is_write e)"
  unfolding resolveDeliveryTarget_def standing_pod_def get_or_def loadDeliveryCredential_def go_error_def
  by (intro emits_rules) simp_all

lemma confirmDeliveryTarget_reads: "emits (confirmDeliveryTarget E S run x) (\<lambda>e. \<not> is_write e)"
  unfolding confirmDeliveryTarget_def Let_def
  by (intro emits_rules resolveDeliveryTarget_reads)

lemma reads_calm: "\<not> is_write e \<Longrightarrow> calm e"
  by (cases e) auto

lemmas delivery_calm = transitionRun_calm setDeliveryWaiting_calm setDeliveryRunning_calm deliveryBackoff_calm
  emits_mono [OF resolveDeliveryTarget_reads reads_calm] emits_mono [OF confirmDeliveryTarget_reads reads_calm]

lemma check_deadline_emits:
  assumes "\<And>d. emits (k d) A" "\<And>t. A (ReadClock t)"
    "\<And>l. emits (exceedDeliveryBudget E S run l) A" "emits (failDeliveryTimeout E S run) A"
  shows "emits (check_deadline E S run limit k) A"
  unfolding check_deadline_def by (intro emits_rules assms)

lemma timeout_calm: "emits (exceedDeliveryBudget E S run l) calm" "emits (failDeliveryTimeout E S run) calm"
  unfolding exceedDeliveryBudget_def failDeliveryTimeout_def by (simp_all add: transitionRun_calm)

lemma with_target_emits:
  assumes "emits m A" "\<And>x. emits (k x) A" "\<And>msg. emits (transitionRun E S run AgentRunPhaseFailed msg id) A"
    "\<And>why. emits (setDeliveryWaiting E S run why) A" "\<And>r. emits (deliveryBackoff S r) A"
  shows "emits (with_target E S run m k) A"
proof -
  have "emits (case e of ConfigurationError msg \<Rightarrow> io_bind (transitionRun E S run AgentRunPhaseFailed msg id) (\<lambda>_. io_return (Inl Done))
      | _ \<Rightarrow> io_fail e) A" for e
    by (cases e) (simp_all add: emits_bind assms)
  then show ?thesis
    unfolding with_target_def by (intro emits_rules assms)
qed

lemmas delivery_emits = emits_rules check_deadline_emits with_target_emits timeout_calm delivery_calm

lemma delivery_begin_calm: "emits (delivery_begin E S run limit) calm"
  unfolding delivery_begin_def by (intro delivery_emits) simp_all

text \<open>Passing the two checks: what is known when they let the rest go on.\<close>

lemma check_deadline_returns:
  assumes "\<And>t d b. deliveryDeadline run limit t = (d, b) \<Longrightarrow> t < d \<Longrightarrow>
    returns (k d) (\<lambda>r t'. \<forall>x. r = Inr x \<longrightarrow> P x (ReadClock t # t'))"
  shows "returns (check_deadline E S run limit k) (\<lambda>r t. \<forall>x. r = Inr x \<longrightarrow> P x t)"
  unfolding check_deadline_def now_def
proof (intro returns_rules, goal_cases)
  case (1 t d b)
  show ?case by (rule returns_bind [OF returns_any]) (simp add: returns_return)
next
  case (2 t d b)
  then show ?case using assms by simp
qed

lemma with_target_returns:
  assumes "returns m (\<lambda>res t. \<forall>target. res = Inr target \<longrightarrow> P target t)"
    "\<And>target t. P target t \<Longrightarrow> returns (k target) (\<lambda>r t'. \<forall>x. r = Inr x \<longrightarrow> Q x (t @ t'))"
  shows "returns (with_target E S run m k) (\<lambda>r t. \<forall>x. r = Inr x \<longrightarrow> Q x t)"
proof -
  have tried: "returns (io_try m) (\<lambda>r t. \<forall>target. r = Inr (Inr target) \<longrightarrow> P target t)"
    by (rule returns_try, rule holds_mono [OF assms(1) [unfolded returns_def]]) blast
  have err: "returns (case e of ConfigurationError msg \<Rightarrow> io_bind (transitionRun E S run AgentRunPhaseFailed msg id) (\<lambda>_. io_return (Inl Done))
      | _ \<Rightarrow> io_fail e) (\<lambda>r t'. \<forall>x. r = Inr x \<longrightarrow> Q x (t @ t'))" for e t
    by (cases e) (auto intro!: returns_bind [OF returns_any] returns_return)
  show ?thesis
    unfolding with_target_def
    by (rule returns_bind [OF tried], intro returns_rules err returns_bind [OF returns_any]) (use assms(2) in auto)
qed

text \<open>What is known when a request is about to be sent.\<close>

definition ready_to_send :: "env \<Rightarrow> agent_run \<Rightarrow> duration option \<Rightarrow> event list \<Rightarrow> agent_run \<Rightarrow> delivery_target \<Rightarrow> time \<Rightarrow> bool" where
  "ready_to_send E run limit t running target d \<longleftrightarrow>
     (\<exists>st. PatchedRun run st (Inr running) \<in> set t \<and> rs_phase st = AgentRunPhaseRunning \<and>
        rs_pod_name st = m_name (pod_meta (dt_pod target))) \<and>
     target_seen E running t target \<and>
     (\<exists>t0 b. ReadClock t0 \<in> set t \<and> deliveryDeadline running limit t0 = (d, b) \<and> t0 < d)"

lemma setDeliveryRunning_returns:
  "returns (setDeliveryRunning E S run n) (\<lambda>r t. \<exists>st. PatchedRun run st (Inr r) \<in> set t \<and>
     rs_phase st = AgentRunPhaseRunning \<and> rs_pod_name st = n)"
  unfolding setDeliveryRunning_def Let_def
  by (rule returns_bind [OF returns_any], rule returns_patch_run) auto

lemma delivery_begin_returns:
  "returns (delivery_begin E S run limit) (\<lambda>r t. \<forall>x. r = Inr x \<longrightarrow>
     (\<lambda>(running, target, d). ready_to_send E run limit t running target d) x)"
  unfolding delivery_begin_def
proof (rule check_deadline_returns, rule with_target_returns [OF resolveDeliveryTarget_returns],
    rule returns_bind [OF setDeliveryRunning_returns], rule with_target_returns [OF confirmDeliveryTarget_returns],
    rule check_deadline_returns, goal_cases)
  case (1 t d b target t1 running t2 confirmed t3 t' d' b')
  have "target_seen E running (ReadClock t # t1 @ t2 @ t3 @ [ReadClock t']) confirmed"
    by (rule target_seen_mono [of _ _ t3]) (use 1 in auto)
  moreover from 1 obtain st where "PatchedRun run st (Inr running) \<in> set t2" "rs_phase st = AgentRunPhaseRunning"
    "rs_pod_name st = m_name (pod_meta (dt_pod confirmed))" by auto
  ultimately show ?case
    using 1 by (intro returns_return) (auto simp: ready_to_send_def)
qed

subsection \<open>The request and its answer\<close>

text \<open>The one request for a run: addressed to the target, with a fresh challenge, bounded by the deadline.\<close>

definition request_sent :: "delivery_lib \<Rightarrow> agent_run \<Rightarrow> delivery_target \<Rightarrow> time \<Rightarrow> event list \<Rightarrow> http_request \<Rightarrow> bool" where
  "request_sent D run target d t q \<longleftrightarrow>
     hr_host q = m_name (pod_meta (dt_pod target)) \<and> hr_path q = EndpointPath \<and> hr_deadline q = d \<and>
     hr_url_host q = join_host_port (pst_pod_ip (pod_status_of (dt_pod target))) (show_int (the (rp_delivery_port (ar_spec run)))) \<and>
     dc_marshal (dl_codec D) (request_for run (dt_pod target)) = Inr (hr_body q) \<and>
     (\<exists>bytes. ReadRandom 32 (Inr bytes) \<in> set t \<and> hr_challenge q = b64_encode bytes)"

text \<open>An answer that is accepted: complete, small, authenticated for this challenge and run, and well-formed.\<close>

definition accepted ::
  "env \<Rightarrow> delivery_lib \<Rightarrow> agent_run \<Rightarrow> delivery_target \<Rightarrow> string \<Rightarrow> http_response \<Rightarrow> envelope \<Rightarrow> bool" where
  "accepted E D run target challenge response e \<longleftrightarrow>
     rp_read_error response = None \<and> length (rp_body response) \<le> MaxResponseBytes \<and> rp_status_code response = 200 \<and>
     VerifyResponseSignature (dl_hmac D) (dt_credential target) challenge (m_uid (ar_meta run)) (rp_body response)
       (rp_signature response) \<and>
     dl_media_type D (rp_content_type response) = Some ''application/json'' \<and>
     ParseVersioned (env_lib E) (env_json E) (rp_body response) = Inr e"

lemma judge_response_accepts:
  "judge_response E D run target challenge response = Delivered e \<longleftrightarrow> accepted E D run target challenge response e"
  by (auto simp: judge_response_def accepted_def Let_def split: if_splits sum.splits parse_error.splits)

lemma deliver_holds:
  "holds (deliver E D S run target d) (\<lambda>r t. \<exists>out. r = Inr out \<and>
     (filter is_http t = [] \<and> (\<forall>e. out \<noteq> Delivered e) \<or>
      (\<exists>q ans. filter is_http t = [DidHttp q ans] \<and> request_sent D run target d t q \<and>
         (\<forall>e. out = Delivered e \<longrightarrow> (\<exists>response. ans = Inr response \<and> accepted E D run target (hr_challenge q) response e)))))"
  unfolding deliver_def io_calls Let_def
proof (rule holds_bind, rule holds_call, simp only: sum.case, intro io_rules, simp_all, goal_cases)
  case (1 random bytes payload)
  then show ?case
    by (intro io_rules) (auto intro!: io_rules simp: request_sent_def judge_response_accepts [symmetric])
qed

text \<open>A success is only recorded on a run that was read again, live, and is still the same and not ended.\<close>

definition recorded :: "env \<Rightarrow> delivery_outcome \<Rightarrow> agent_run \<Rightarrow> event \<Rightarrow> bool" where
  "recorded E out latest ev \<longleftrightarrow> \<not> is_http ev \<and>
     (\<forall>base st x. ev = PatchedRun base st x \<longrightarrow> rs_phase st = AgentRunPhaseSucceeded \<longrightarrow>
        base = latest \<and> (\<exists>e. out = Delivered e \<and> en_outcome e \<noteq> OutcomeFailed \<and>
          rs_result st = PlainText (env_lib E) (env_json E) (en_output e) \<and> rs_output st = outputStatus e \<and>
          rs_usage st = usageStatus e))"

lemma calm_recorded: "calm ev \<Longrightarrow> recorded E out latest ev"
  by (cases ev) (auto simp: recorded_def)

lemma deliver_result_recorded: "emits (deliver_result E S latest target e) (recorded E (Delivered e) latest)"
  unfolding deliver_result_def Let_def
  by (intro emits_rules)
     (auto simp: recorded_def ObserveResultEnvelope_phase, auto simp: ObserveResultEnvelope_def split: if_splits)

lemma finish_with_recorded: "emits (finish_with E S limit out latest target) (recorded E out latest)"
proof (cases out)
  case (Delivered e)
  then show ?thesis by (simp add: finish_with_def emits_bind deliver_result_recorded)
next
  case (DeliveryFailed retry err)
  have "emits (finish_with E S limit out latest target) calm"
    unfolding finish_with_def DeliveryFailed delivery_outcome.case
    by (cases retry) (simp_all, (intro delivery_emits; simp)+)
  then show ?thesis by (rule emits_mono [OF _ calm_recorded])
qed

text \<open>The part after the request: nothing before the run was read again, then only what is recorded on it.\<close>

definition finished :: "env \<Rightarrow> agent_run \<Rightarrow> delivery_outcome \<Rightarrow> event list \<Rightarrow> bool" where
  "finished E run out t \<longleftrightarrow>
     (\<exists>got t'. t = GotRun True (run_namespace run) (run_name run) got # t' \<and>
        (t' = [] \<or>
         (\<exists>latest. got = Inr latest \<and> m_uid (ar_meta latest) = m_uid (ar_meta run) \<and> \<not> is_terminal (run_phase latest) \<and>
            (\<forall>ev \<in> set t'. recorded E out latest ev))))"

lemma delivery_finish_finished: "holds (delivery_finish E S run limit target out) (\<lambda>_ t. finished E run out t)"
  unfolding delivery_finish_def Get_run_def
proof (rule holds_bind, rule holds_call, simp only: sum.case, intro io_rules, goal_cases)
  case (4 r latest)
  have "emits (with_target E S latest (confirmDeliveryTarget E S latest target) (finish_with E S limit out latest))
      (recorded E out latest)"
    by (intro with_target_emits finish_with_recorded emits_mono [OF transitionRun_calm calm_recorded]
          emits_mono [OF setDeliveryWaiting_calm calm_recorded] emits_mono [OF deliveryBackoff_calm calm_recorded]
          emits_mono [OF confirmDeliveryTarget_reads calm_recorded [OF reads_calm]]) simp_all
  then show ?case using 4 by (intro holds_emits) (auto simp: finished_def)
qed (auto simp: finished_def)

text \<open>A whole reconcile: a calm part, and then possibly one request with its recording.\<close>

definition exchange ::
  "env \<Rightarrow> delivery_lib \<Rightarrow> agent_run \<Rightarrow> agent_run \<Rightarrow> delivery_target \<Rightarrow> event list \<Rightarrow> event list \<Rightarrow> event list \<Rightarrow> bool" where
  "exchange E D run running target before send after \<longleftrightarrow> \<not> is_terminal (run_phase run) \<and>
     (\<exists>limit d out. ready_to_send E run limit before running target d \<and> finished E running out after \<and>
        (\<forall>q ans. DidHttp q ans \<in> set send \<longrightarrow> filter is_http send = [DidHttp q ans] \<and> request_sent D running target d send q) \<and>
        (\<forall>b st x. PatchedRun b st x \<notin> set send) \<and>
        (\<forall>e. out = Delivered e \<longrightarrow> (\<exists>q response. DidHttp q (Inr response) \<in> set send \<and>
           accepted E D running target (hr_challenge q) response e)))"

definition delivery_trace :: "env \<Rightarrow> delivery_lib \<Rightarrow> agent_run \<Rightarrow> event list \<Rightarrow> bool" where
  "delivery_trace E D run t \<longleftrightarrow>
     (\<exists>before send after. t = before @ send @ after \<and> (\<forall>ev \<in> set before. calm ev) \<and>
        (send = [] \<and> after = [] \<or> (\<exists>running target. exchange E D run running target before send after)))"

lemma deliver_patches_nothing: "emits (deliver E D S run target d) (\<lambda>ev. \<forall>b st x. ev \<noteq> PatchedRun b st x)"
  unfolding deliver_def Let_def by (intro emits_rules) simp_all

lemma delivery_trace_calm: "emits m calm \<Longrightarrow> holds m (\<lambda>_ t. delivery_trace E D run t)"
proof (erule holds_emits)
  fix t assume "\<forall>ev \<in> set t. calm ev"
  then show "delivery_trace E D run t" unfolding delivery_trace_def by (metis append_Nil2)
qed

lemma only_http:
  assumes "filter is_http send = [DidHttp q ans]" "DidHttp q' ans' \<in> set send"
  shows "q' = q \<and> ans' = ans"
proof -
  have "DidHttp q' ans' \<in> set (filter is_http send)" using assms(2) by simp
  with assms(1) show ?thesis by simp
qed

lemma send_and_finish_trace:
  assumes "\<forall>ev \<in> set before. calm ev" "ready_to_send E run limit before running target d" "\<not> is_terminal (run_phase run)"
  shows "holds (io_bind (deliver E D S running target d) (delivery_finish E S running limit target))
    (\<lambda>_ t. delivery_trace E D run (before @ t))"
proof (rule holds_bind, rule holds_mono [OF holds_conj [OF deliver_holds deliver_patches_nothing [unfolded emits_def]]], goal_cases)
  case (1 r send)
  then obtain out where out: "r = Inr out"
    and sent: "filter is_http send = [] \<and> (\<forall>e. out \<noteq> Delivered e) \<or>
      (\<exists>q ans. filter is_http send = [DidHttp q ans] \<and> request_sent D running target d send q \<and>
         (\<forall>e. out = Delivered e \<longrightarrow> (\<exists>response. ans = Inr response \<and> accepted E D running target (hr_challenge q) response e)))"
    by auto
  have http: "filter is_http send = [DidHttp q ans] \<and> request_sent D running target d send q"
    if "DidHttp q ans \<in> set send" for q ans
    using sent that by (auto simp: filter_empty_conv dest: only_http)
  have answer: "\<exists>q response. DidHttp q (Inr response) \<in> set send \<and> accepted E D running target (hr_challenge q) response e"
    if e: "out = Delivered e" for e
  proof -
    from sent e obtain q response where q: "filter is_http send = [DidHttp q (Inr response)]"
      "accepted E D running target (hr_challenge q) response e" by auto
    have "DidHttp q (Inr response) \<in> set (filter is_http send)" by (simp only: q(1)) simp
    then show ?thesis using q(2) by auto
  qed
  have "exchange E D run running target before send after" if "finished E running out after" for after
    unfolding exchange_def
    by (intro conjI exI [of _ limit] exI [of _ d] exI [of _ out]) (use assms 1 that http answer in auto)
  then have "delivery_trace E D run (before @ send @ after)" if "finished E running out after" for after
    using that assms(1) unfolding delivery_trace_def by blast
  then show ?case
    using out by (auto intro: holds_mono [OF delivery_finish_finished])
qed

lemma io_result_holds: "holds m (\<lambda>_ t. P t) \<Longrightarrow> holds (io_result m) (\<lambda>_ t. P t)"
  unfolding io_result_def
  by (rule holds_bind, erule holds_mono) (auto intro!: holds_return split: sum.splits)

lemma reconcileDelivery_trace: "holds (reconcileDelivery E D S run) (\<lambda>_ t. delivery_trace E D run t)"
proof (cases "is_terminal (run_phase run)")
  case True
  then show ?thesis by (simp add: reconcileDelivery_def delivery_trace_calm)
next
  case live: False
  show ?thesis
  proof (cases "parseWallclockBudget E (rp_budget (ar_spec run))")
    case (Inl err)
    with live show ?thesis
      by (simp add: reconcileDelivery_def) (intro delivery_trace_calm delivery_emits, simp)
  next
    case (Inr limit)
    note begun = holds_conj [OF delivery_begin_returns [unfolded returns_def] delivery_begin_calm [unfolded emits_def]]
    have "holds (io_bind (delivery_begin E S run limit) (\<lambda>begun. case begun of
              Inl result \<Rightarrow> io_return (Inl result)
            | Inr (run, target, requestDeadline) \<Rightarrow>
                io_bind (deliver E D S run target requestDeadline) (delivery_finish E S run limit target)))
        (\<lambda>_ t. delivery_trace E D run t)"
    proof (rule holds_bind, rule holds_mono [OF begun], goal_cases)
      case (1 r before)
      have quiet: "delivery_trace E D run before"
        using 1 unfolding delivery_trace_def by (metis append_Nil2)
      show ?case
      proof (cases r)
        case (Inl e)
        then show ?thesis using quiet by simp
      next
        case ret: (Inr res)
        show ?thesis
        proof (cases res)
          case (Inl x)
          then show ?thesis using quiet ret by (simp add: holds_return)
        next
          case go: (Inr x)
          obtain running target d where "x = (running, target, d)" by (cases x)
          then show ?thesis
            using send_and_finish_trace [OF _ _ live, of before E limit running target d D S] 1 ret go by simp
        qed
      qed
    qed
    then have "holds (reconcileDelivery E D S run) (\<lambda>_ t. delivery_trace E D run t)"
      using live Inr by (simp add: reconcileDelivery_def io_result_holds)
    then show ?thesis .
  qed
qed

lemma calm_not_http: "calm e \<Longrightarrow> \<not> is_http e"
  by (cases e) auto

lemma finished_no_http: "finished E run out t \<Longrightarrow> filter is_http t = []"
  by (auto simp: finished_def recorded_def filter_empty_conv)

lemma finished_success:
  assumes "finished E run out t" "PatchedRun base st x \<in> set t" "rs_phase st = AgentRunPhaseSucceeded"
  shows "GotRun True (run_namespace run) (run_name run) (Inr base) \<in> set t \<and> m_uid (ar_meta base) = m_uid (ar_meta run) \<and>
    \<not> is_terminal (run_phase base) \<and>
    (\<exists>e. out = Delivered e \<and> en_outcome e \<noteq> OutcomeFailed \<and>
       rs_result st = PlainText (env_lib E) (env_json E) (en_output e) \<and> rs_output st = outputStatus e \<and> rs_usage st = usageStatus e)"
proof -
  from assms(1,2) obtain got t' latest where t: "t = GotRun True (run_namespace run) (run_name run) got # t'"
    "got = Inr latest" "m_uid (ar_meta latest) = m_uid (ar_meta run)" "\<not> is_terminal (run_phase latest)"
    and mem: "PatchedRun base st x \<in> set t'" and all: "\<forall>ev \<in> set t'. recorded E out latest ev"
    by (auto simp: finished_def)
  from all mem have "recorded E out latest (PatchedRun base st x)" by blast
  with assms(3) t show ?thesis by (auto simp: recorded_def)
qed

lemma deliveryDeadline_le:
  "deliveryDeadline run limit t = (d, b) \<Longrightarrow> m_creation (ar_meta run) \<noteq> 0 \<Longrightarrow>
     d \<le> time_add (m_creation (ar_meta run)) defaultDeliveryTimeout"
  by (auto simp: deliveryDeadline_def Let_def split: option.splits if_splits)

text \<open>
  C5. A run is sent at most once per reconcile, and only where it belongs: whatever the API server answers,
  there is at most one HTTP request; before it the run was recorded as Running on the target's Pod, and the
  target was confirmed by live reads as the ready Pod of the standing run of the Service Agent that owns the
  run, on the run's port; the request names the run and the Pod, carries a fresh challenge of 32 random
  bytes, and starts before its deadline, which is at most five minutes after the run was created.
\<close>

theorem reconcileDelivery_sends_once:
  assumes "reconcileDelivery E D S run s = (r, t, s')" "DidHttp q ans \<in> set t"
  shows "filter is_http t = [DidHttp q ans] \<and> \<not> is_terminal (run_phase run) \<and>
    (\<exists>limit before after running target. t = before @ after \<and> DidHttp q ans \<in> set after \<and>
       ready_to_send E run limit before running target (hr_deadline q) \<and>
       request_sent D running target (hr_deadline q) t q \<and>
       (m_creation (ar_meta running) \<noteq> 0 \<longrightarrow>
          hr_deadline q \<le> time_add (m_creation (ar_meta running)) defaultDeliveryTimeout))"
proof -
  obtain before send after where t: "t = before @ send @ after" and calm: "\<forall>ev \<in> set before. calm ev"
    and sent: "send = [] \<and> after = [] \<or> (\<exists>running target. exchange E D run running target before send after)"
    using holdsD [OF reconcileDelivery_trace assms(1)] unfolding delivery_trace_def by blast
  have before: "filter is_http before = []" using calm calm_not_http by (auto simp: filter_empty_conv)
  then have notin: "DidHttp q ans \<notin> set before" by (auto simp: filter_empty_conv)
  with assms(2) t sent obtain running target where x: "exchange E D run running target before send after" by auto
  then obtain limit d out where go: "ready_to_send E run limit before running target d" "finished E running out after"
    "DidHttp q ans \<in> set send \<longrightarrow> filter is_http send = [DidHttp q ans] \<and> request_sent D running target d send q"
    and live: "\<not> is_terminal (run_phase run)" unfolding exchange_def by blast
  have after: "filter is_http after = []" using finished_no_http [OF go(2)] .
  then have mem: "DidHttp q ans \<in> set send" using assms(2) t notin by (auto simp: filter_empty_conv)
  with go(3) have f: "filter is_http send = [DidHttp q ans]" and rs: "request_sent D running target d send q" by simp_all
  then have d: "d = hr_deadline q" "request_sent D running target d t q" by (auto simp: request_sent_def t)
  have "m_creation (ar_meta running) \<noteq> 0 \<longrightarrow> d \<le> time_add (m_creation (ar_meta running)) defaultDeliveryTimeout"
    using go(1) deliveryDeadline_le unfolding ready_to_send_def by blast
  moreover have "filter is_http t = [DidHttp q ans]" using t before after f by simp
  moreover have "t = before @ (send @ after)" "DidHttp q ans \<in> set (send @ after)" using t mem by simp_all
  ultimately show ?thesis using live go(1) d by blast
qed

text \<open>
  C1. A run succeeds only by an authenticated answer: when a reconcile writes the phase Succeeded, one
  request was sent to a confirmed target, and its answer had status 200, at most 4096 bytes, a signature under
  the target's credential for the challenge of that request and the UID of the run, and a valid versioned
  envelope that does not report a failure, whose result is what is written; and the run written to was read
  again live after the answer, is still the same object and had not ended.
\<close>

theorem reconcileDelivery_success_authenticated:
  assumes "reconcileDelivery E D S run s = (r, t, s')" "PatchedRun latest st x \<in> set t" "rs_phase st = AgentRunPhaseSucceeded"
  shows "\<exists>running target q response e. target_seen E running t target \<and> DidHttp q (Inr response) \<in> set t \<and>
    accepted E D running target (hr_challenge q) response e \<and>
    GotRun True (run_namespace running) (run_name running) (Inr latest) \<in> set t \<and>
    m_uid (ar_meta latest) = m_uid (ar_meta running) \<and> \<not> is_terminal (run_phase latest) \<and>
    en_outcome e \<noteq> OutcomeFailed \<and> rs_result st = PlainText (env_lib E) (env_json E) (en_output e) \<and>
    rs_output st = outputStatus e \<and> rs_usage st = usageStatus e"
proof -
  obtain before send after where t: "t = before @ send @ after" and calm: "\<forall>ev \<in> set before. calm ev"
    and sent: "send = [] \<and> after = [] \<or> (\<exists>running target. exchange E D run running target before send after)"
    using holdsD [OF reconcileDelivery_trace assms(1)] unfolding delivery_trace_def by blast
  have notin: "PatchedRun latest st x \<notin> set before" using calm assms(3) by auto
  with assms(2) t sent obtain running target where x: "exchange E D run running target before send after" by auto
  then obtain limit d out where go: "ready_to_send E run limit before running target d" "finished E running out after"
    and nopatch: "PatchedRun latest st x \<notin> set send"
    and ans: "\<forall>e. out = Delivered e \<longrightarrow> (\<exists>q response. DidHttp q (Inr response) \<in> set send \<and>
           accepted E D running target (hr_challenge q) response e)"
    unfolding exchange_def by blast
  have mem: "PatchedRun latest st x \<in> set after" using assms(2) t notin nopatch by auto
  with go(2) assms(3) obtain e where e: "out = Delivered e" "en_outcome e \<noteq> OutcomeFailed"
    "rs_result st = PlainText (env_lib E) (env_json E) (en_output e)" "rs_output st = outputStatus e" "rs_usage st = usageStatus e"
    and latest: "GotRun True (run_namespace running) (run_name running) (Inr latest) \<in> set after"
      "m_uid (ar_meta latest) = m_uid (ar_meta running)" "\<not> is_terminal (run_phase latest)"
    by (auto dest: finished_success)
  moreover have "target_seen E running t target"
    using go(1) by (auto simp: ready_to_send_def t intro: target_seen_mono)
  ultimately show ?thesis using ans t by (metis Un_iff set_append)
qed

subsection \<open>Every status that is written is consistent\<close>

lemma other_status_event: "\<forall>b st x. e \<noteq> PatchedRun b st x \<Longrightarrow> status_event e"
  by (simp add: status_event_def)

lemma delivery_condition_status:
  assumes "kube_contract K"
  shows "(\<exists>c. find_condition (setStatusConditions K cs g (deliveryConditions reason msg True)) cond_Complete = Some c \<and>
      c_status c = ConditionFalse) \<and>
    (\<exists>c. find_condition (setStatusConditions K cs g (deliveryConditions reason msg True)) cond_Progressing = Some c \<and>
      c_status c = ConditionTrue)"
  using kube_contract.setStatusConditions_two(1,2) [OF assms, of "mk_condition cond_Complete ConditionFalse reason msg"
      "mk_condition cond_Progressing ConditionTrue reason msg" cs g]
  by (auto simp: deliveryConditions_def mk_condition_def)

lemma delivery_status:
  assumes "kube_contract (env_kube E)"
  shows "emits (setDeliveryWaiting E S run why) status_event" "emits (setDeliveryRunning E S run n) status_event"
    "emits (deliver_result E S run target e) status_event"
proof -
  have live: "status_event (PatchedRun run (next\<lparr>rs_conditions :=
      setStatusConditions (env_kube E) cs g (deliveryConditions reason msg True)\<rparr>) x)"
    if "known_phase (rs_phase next)" "\<not> is_terminal (rs_phase next)" "rs_completion_time next = None" for "next" cs g x reason msg
    using that delivery_condition_status [OF assms, of cs g reason msg] by (auto simp: status_event_def status_ok_def)
  show "emits (setDeliveryWaiting E S run why) status_event"
    unfolding setDeliveryWaiting_def by (intro emits_rules) (auto intro!: live simp: known_phase_def)
  show "emits (setDeliveryRunning E S run n) status_event"
    unfolding setDeliveryRunning_def Let_def
    by (intro emits_rules) (auto intro!: live simp: known_phase_def, simp add: status_event_def)
  let ?ph = "po_phase (ObserveResultEnvelope (env_lib E) (env_json E) e)"
  have ended: "status_event (PatchedRun run (next\<lparr>rs_completion_time := Some u, rs_conditions :=
      setStatusConditions (env_kube E) cs g (ForAgentRunPhase ?ph)\<rparr>) x)"
    if "rs_phase next = ?ph" for "next" cs g x u
    using that phase_conditions [OF assms, of cs g ?ph]
    by (auto simp: status_event_def status_ok_def ObserveResultEnvelope_phase known_phase_def)
  show "emits (deliver_result E S run target e) status_event"
    unfolding deliver_result_def emits_def Let_def now_def
    by (intro io_rules) (auto intro!: io_rules ended simp: status_event_def [of "ReadClock _"])
qed

lemma reconcileDelivery_status:
  assumes K: "kube_contract (env_kube E)"
  shows "emits (reconcileDelivery E D S run) status_event"
proof -
  have tr: "emits (transitionRun E S run' ph msg id) status_event" if "known_phase ph" for run' ph msg
    by (rule transitionRun_status [OF K that]) simp
  have time: "emits (exceedDeliveryBudget E S run' l) status_event" "emits (failDeliveryTimeout E S run') status_event" for run' l
    unfolding exceedDeliveryBudget_def failDeliveryTimeout_def by (simp_all add: tr known_phase_def)
  have delay: "emits (deliveryBackoff S run') status_event" for run'
    unfolding deliveryBackoff_def by (intro emits_rules other_status_event) simp
  have quiet: "\<not> is_write e \<Longrightarrow> status_event e" for e by (cases e) (simp_all add: status_event_def)
  note rules = emits_rules check_deadline_emits with_target_emits time delay delivery_status [OF K] tr
    emits_mono [OF resolveDeliveryTarget_reads quiet] emits_mono [OF confirmDeliveryTarget_reads quiet]
    emits_mono [OF deliver_patches_nothing other_status_event] other_status_event
  have fin: "emits (finish_with E S limit out latest target) status_event" for limit out latest target
  proof (cases out)
    case (Delivered e)
    then show ?thesis by (simp add: finish_with_def emits_bind delivery_status [OF K])
  next
    case (DeliveryFailed retry err)
    then show ?thesis
      unfolding finish_with_def by (cases retry) (simp_all, (intro rules; simp add: known_phase_def)+)
  qed
  show ?thesis
    unfolding reconcileDelivery_def io_result_def delivery_begin_def delivery_finish_def
    by (intro rules fin) (simp_all add: known_phase_def)
qed

lemma terminal_status_emits:
  assumes "is_terminal (run_phase run)"
  shows "emits (reconcileDelivery E D S run) (\<lambda>e. is_write e \<longrightarrow> (\<exists>p x. e = DeletedPod p x))"
    "emits (reconcilePodBacked E S run) (\<lambda>e. is_write e \<longrightarrow> (\<exists>p x. e = DeletedPod p x))"
  by (simp add: reconcileDelivery_def assms) (rule emits_mono [OF terminal_emits [OF assms]], blast)

text \<open>
  C8. Every status the AgentRun reconciler writes is consistent, for runs with a Pod and for deliveries: the
  phase is one of the five of the API, a terminal phase comes with a completion time and (for a run that had
  none) a live phase without one, and the Complete and Progressing conditions say the same as the phase.
  A run that the cache shows as ended gets no status, no Pod, no Secret and no request any more.
\<close>

theorem run_Reconcile_status_consistent:
  assumes "kube_contract (env_kube E)" "run_Reconcile E D S ns n s = (r, t, s')"
  shows "(\<forall>base st x. PatchedRun base st x \<in> set t \<longrightarrow> status_ok (ar_status base) st) \<and>
    (\<forall>run. GotRun False ns n (Inr run) = hd t \<longrightarrow> is_terminal (run_phase run) \<longrightarrow>
       (\<forall>e \<in> set t. is_write e \<longrightarrow> (\<exists>p x. e = DeletedPod p x)))"
proof
  have "emits (run_Reconcile E D S ns n) status_event"
    unfolding run_Reconcile_def
    by (intro emits_rules reconcileDelivery_status reconcilePodBacked_status assms other_status_event) simp
  from emitsD [OF this assms(2)] show "\<forall>base st x. PatchedRun base st x \<in> set t \<longrightarrow> status_ok (ar_status base) st"
    by (auto simp: status_event_def)
  have "holds (run_Reconcile E D S ns n) (\<lambda>_ t. \<forall>run. GotRun False ns n (Inr run) = hd t \<longrightarrow> is_terminal (run_phase run) \<longrightarrow>
       (\<forall>e \<in> set t. is_write e \<longrightarrow> (\<exists>p x. e = DeletedPod p x)))"
    unfolding run_Reconcile_def Get_run_def
  proof (rule holds_bind, rule holds_call, simp only: sum.case, intro holds_sum holds_if, goal_cases)
    case (3 r run)
    show ?case
    proof (cases "is_terminal (run_phase run)")
      case True
      then show ?thesis by (intro holds_emits [OF terminal_status_emits(1)]) auto
    qed (use 3 in \<open>auto simp: holds_def\<close>)
  next
    case (4 r run)
    show ?case
    proof (cases "is_terminal (run_phase run)")
      case True
      then show ?thesis by (intro holds_emits [OF terminal_status_emits(2)]) auto
    qed (use 4 in \<open>auto simp: holds_def\<close>)
  qed auto
  from holdsD [OF this assms(2)] show "\<forall>run. GotRun False ns n (Inr run) = hd t \<longrightarrow> is_terminal (run_phase run) \<longrightarrow>
       (\<forall>e \<in> set t. is_write e \<longrightarrow> (\<exists>p x. e = DeletedPod p x))" .
qed

subsection \<open>Examples\<close>

text \<open>
  A Service Agent \<open>docs\<close> with the standing run \<open>docs-1\<close> on a ready Pod, its credential, and a runtime that answers
  every request with the body \<open>{0123456789}\<close>, signed.
\<close>

definition owned_by :: "string \<Rightarrow> string \<Rightarrow> object_meta \<Rightarrow> object_meta" where
  "owned_by kind uid m = m\<lparr>m_owner_refs := [\<lparr>or_api_version = GroupVersion, or_kind = kind, or_name = ''docs'',
     or_uid = uid, or_controller = True\<rparr>]\<rparr>"

definition inv_run :: agent_run where
  "inv_run = sample_run\<lparr>ar_meta := owned_by ''Agent'' ''uid-agent'' (sample_meta ''docs-inv'' ''uid-inv''),
     ar_spec := sample_run_spec\<lparr>rp_delivery_port := Some 8080\<rparr>\<rparr>"

definition standing_run :: agent_run where
  "standing_run = sample_run\<lparr>ar_meta := owned_by ''Agent'' ''uid-agent'' (sample_meta ''docs-1'' ''uid-run''),
     ar_spec := sample_run_spec\<lparr>rp_runtime := sample_runtime\<lparr>rt_delivery_port := Some 8080\<rparr>\<rparr>,
     ar_status := empty_run_status\<lparr>rs_phase := AgentRunPhaseRunning, rs_pod_name := ''docs-1-pod''\<rparr>\<rparr>"

definition standing_service_pod :: pod where
  "standing_service_pod = (owned_pod running_pod)\<lparr>pod_status_of := (pod_status_of running_pod)\<lparr>
     pst_conditions := [(''Ready'', ConditionTrue)]\<rparr>\<rparr>"

definition standing_secret :: secret where
  "standing_secret = \<lparr>sec_meta = owned_by ''AgentRun'' ''uid-run'' (sample_meta ''delivery-auth'' ''uid-sec''), sec_immutable = True,
     sec_type = ''Opaque'', sec_data = [(TokenSecretKey, ''tok'')]\<rparr>"

definition key_mac :: "string \<Rightarrow> string \<Rightarrow> string" where
  "key_mac key message = key @ drop (length DeliveryAPIVersion) message"

definition sample_delivery :: delivery_lib where
  "sample_delivery = \<lparr>dl_codec = \<lparr>dc_marshal = (\<lambda>q. Inr (dr_run_uid q)), dc_decode = (\<lambda>_. Inl ''not used'')\<rparr>,
     dl_hmac = key_mac, dl_media_type = Some, dl_new_request_error = (\<lambda>_ _. None)\<rparr>"

definition service_server :: "unit server" where
  "service_server = quiet_server\<lparr>sv_get_run := (\<lambda>_ _ n s. (Inr (if n = ''docs-1'' then standing_run else inv_run), s)),
     sv_get_agent := (\<lambda>_ _ _ s. (Inr ((sample_agent AgentModeService)\<lparr>ag_status :=
        empty_agent_status\<lparr>as_current_run_name := ''docs-1''\<rparr>\<rparr>), s)),
     sv_get_pod := (\<lambda>_ _ _ s. (Inr standing_service_pod, s)),
     sv_get_secret := (\<lambda>_ _ s. (Inr standing_secret, s)),
     sv_http := (\<lambda>q s. (Inr \<lparr>rp_status_code = 200, rp_content_type = ''application/json'',
        rp_signature = ResponseSignature key_mac ''tok'' (hr_challenge q) ''uid-inv'' ''{0123456789}'',
        rp_body = ''{0123456789}'', rp_read_error = None\<rparr>, s))\<rparr>"
definition svc_target :: delivery_target where
  "svc_target = \<lparr>dt_pod = standing_service_pod, dt_credential = ''tok''\<rparr>"

lemmas io_steps = io_bind_def io_call_def io_return_def io_try_def io_fail_def api_result_def go_error_def

lemmas service_defs = service_server_def quiet_server_def sample_env_def inv_run_def standing_run_def standing_service_pod_def
  standing_secret_def owned_by_def owned_pod_def running_pod_def sample_pod_def running_state_def sample_defs doc_kube_def
  doc_is_controlled_by_def sample_delivery_def

lemma svc_resolve: "\<exists>t. resolveDeliveryTarget sample_env service_server (inv_run\<lparr>ar_status := st\<rparr>) () = (Inr (Inr svc_target), t, ())"
  by (simp add: resolveDeliveryTarget_def get_or_def standing_pod_def standing_ready_def io_calls io_steps deliveryPodReady_def
     loadDeliveryCredential_def deliveryCredentialSecretName_def deliveryCredentialFromSecret_def service_defs svc_target_def)

lemma bind_run: "m s = (Inr x, t, s') \<Longrightarrow> io_bind m f s = (case f x s' of (r, t', s'') \<Rightarrow> (r, t @ t', s''))"
  by (simp add: io_bind_def)

lemma svc_confirm:
  "\<exists>t. confirmDeliveryTarget sample_env service_server (inv_run\<lparr>ar_status := st\<rparr>) svc_target () = (Inr (Inr svc_target), t, ())"
proof -
  obtain t where "resolveDeliveryTarget sample_env service_server (inv_run\<lparr>ar_status := st\<rparr>) () = (Inr (Inr svc_target), t, ())"
    using svc_resolve by blast
  moreover have "m_uid (pod_meta (dt_pod svc_target)) \<noteq> []" by (simp add: svc_target_def service_defs)
  ultimately show ?thesis by (simp add: confirmDeliveryTarget_def bind_run Let_def io_return_def)
qed

lemma svc_deadline:
  "check_deadline sample_env service_server (inv_run\<lparr>ar_status := st\<rparr>) None k () =
     (case k (1300 * second) () of (r, t, s) \<Rightarrow> (r, ReadClock (1000 * second) # t, s))"
  by (simp add: check_deadline_def io_calls io_bind_def io_call_def deliveryDeadline_def Let_def service_server_def
      quiet_server_def inv_run_def owned_by_def sample_defs time_add_def)

lemma svc_running:
  "\<exists>st' t. setDeliveryRunning sample_env service_server (inv_run\<lparr>ar_status := st\<rparr>) n () = (Inr (inv_run\<lparr>ar_status := st'\<rparr>), t, ())"
  by (cases "rs_start_time st")
     (simp_all add: setDeliveryRunning_def io_calls io_steps patch_run_status_def service_server_def quiet_server_def Let_def,
       (rule exI, rule refl)+)

lemma svc_begin:
  "\<exists>st' d t. delivery_begin sample_env service_server (inv_run\<lparr>ar_status := st\<rparr>) None () =
     (Inr (Inr (inv_run\<lparr>ar_status := st'\<rparr>, svc_target, d)), t, ())"
proof -
  obtain t1 where r: "resolveDeliveryTarget sample_env service_server (inv_run\<lparr>ar_status := st\<rparr>) () = (Inr (Inr svc_target), t1, ())"
    using svc_resolve by blast
  obtain st' t2 where s: "setDeliveryRunning sample_env service_server (inv_run\<lparr>ar_status := st\<rparr>)
      (m_name (pod_meta (dt_pod svc_target))) () = (Inr (inv_run\<lparr>ar_status := st'\<rparr>), t2, ())"
    using svc_running by blast
  obtain t3 where c: "confirmDeliveryTarget sample_env service_server (inv_run\<lparr>ar_status := st'\<rparr>) svc_target () =
      (Inr (Inr svc_target), t3, ())" using svc_confirm by blast
  show ?thesis
    by (simp add: delivery_begin_def svc_deadline with_target_def io_bind_def io_try_def r s c io_return_def)
       (rule exI, rule refl)
qed

lemma svc_accepts:
  "accepted sample_env sample_delivery (inv_run\<lparr>ar_status := st\<rparr>) svc_target challenge
     \<lparr>rp_status_code = 200, rp_content_type = ''application/json'',
        rp_signature = ResponseSignature key_mac ''tok'' challenge ''uid-inv'' ''{0123456789}'',
        rp_body = ''{0123456789}'', rp_read_error = None\<rparr> demo_envelope"
proof -
  have "ParseVersioned zero_digest demo_codec ''{0123456789}'' = Inr demo_envelope" by code_simp
  then show ?thesis
    by (simp add: accepted_def sample_env_def sample_delivery_def svc_target_def inv_run_def owned_by_def sample_defs
        VerifyResponseSignature_def ResponseSignature_def b64_decode_encode)
qed

lemma svc_deliver:
  "\<exists>q ans t. deliver sample_env sample_delivery service_server (inv_run\<lparr>ar_status := st\<rparr>) svc_target d () =
     (Inr (Delivered demo_envelope), t, ()) \<and> DidHttp q ans \<in> set t"
  by (simp add: deliver_def io_calls io_bind_def io_call_def io_return_def service_server_def quiet_server_def Let_def
      judge_response_accepts svc_accepts sample_delivery_def [THEN arg_cong, of dl_codec] sample_delivery_def [THEN arg_cong, of dl_new_request_error])

lemma svc_finish:
  "\<exists>r t b st' x. delivery_finish sample_env service_server (inv_run\<lparr>ar_status := st\<rparr>) None svc_target (Delivered demo_envelope) () =
     (r, t, ()) \<and> PatchedRun b st' x \<in> set t \<and> rs_phase st' = AgentRunPhaseSucceeded"
proof -
  obtain t where c: "confirmDeliveryTarget sample_env service_server inv_run svc_target () = (Inr (Inr svc_target), t, ())"
    using svc_confirm [of "ar_status inv_run"] by auto
  have names: "m_namespace (ar_meta inv_run) = ''default''" "m_name (ar_meta inv_run) = ''docs-inv''"
    by (simp_all add: inv_run_def owned_by_def sample_defs)
  have got: "Get_run service_server True ''default'' ''docs-inv'' () =
      (Inr (Inr inv_run), [GotRun True ''default'' ''docs-inv'' (Inr inv_run)], ())"
    by (simp add: io_calls io_call_def service_server_def)
  have live: "\<not> is_terminal (run_phase inv_run)" by (simp add: inv_run_def sample_defs)
  have "\<exists>t b st' x r. deliver_result sample_env service_server inv_run svc_target demo_envelope () = (Inr r, t, ()) \<and>
      PatchedRun b st' x \<in> set t \<and> rs_phase st' = AgentRunPhaseSucceeded"
    by (cases "rs_completion_time (ar_status inv_run)")
       (simp_all add: deliver_result_def io_calls io_steps patch_run_status_def service_server_def quiet_server_def Let_def
         ObserveResultEnvelope_phase demo_envelope_def successfulEnvelope_def)
  then obtain u b st' x r where d: "deliver_result sample_env service_server inv_run svc_target demo_envelope () = (Inr r, u, ())"
    "PatchedRun b st' x \<in> set u" "rs_phase st' = AgentRunPhaseSucceeded" by blast
  have "\<exists>r'. delivery_finish sample_env service_server (inv_run\<lparr>ar_status := st\<rparr>) None svc_target (Delivered demo_envelope) () =
      (r', GotRun True ''default'' ''docs-inv'' (Inr inv_run) # t @ u, ())"
    using live by (simp add: delivery_finish_def io_bind_def names got with_target_def io_try_def c finish_with_def d(1) io_return_def)
  moreover have "PatchedRun b st' x \<in> set (GotRun True ''default'' ''docs-inv'' (Inr inv_run) # t @ u)" using d(2) by simp
  ultimately show ?thesis using d(3) by blast
qed

lemma svc_reconcile:
  "\<exists>r t q ans b st x. reconcileDelivery sample_env sample_delivery service_server inv_run () = (r, t, ()) \<and>
     DidHttp q ans \<in> set t \<and> PatchedRun b st x \<in> set t \<and> rs_phase st = AgentRunPhaseSucceeded"
proof -
  obtain st dl t where b: "delivery_begin sample_env service_server inv_run None () =
      (Inr (Inr (inv_run\<lparr>ar_status := st\<rparr>, svc_target, dl)), t, ())"
    using svc_begin [of "ar_status inv_run"] by auto
  obtain q ans u where d: "deliver sample_env sample_delivery service_server (inv_run\<lparr>ar_status := st\<rparr>) svc_target dl () =
      (Inr (Delivered demo_envelope), u, ())" "DidHttp q ans \<in> set u" using svc_deliver by blast
  obtain r v b' st' x where f: "delivery_finish sample_env service_server (inv_run\<lparr>ar_status := st\<rparr>) None svc_target
      (Delivered demo_envelope) () = (r, v, ())" "PatchedRun b' st' x \<in> set v" "rs_phase st' = AgentRunPhaseSucceeded"
    using svc_finish by blast
  have live: "\<not> is_terminal (run_phase inv_run)" "parseWallclockBudget sample_env (rp_budget (ar_spec inv_run)) = Inr None"
    by (simp_all add: inv_run_def sample_defs parseWallclockBudget_def)
  have "\<exists>r'. reconcileDelivery sample_env sample_delivery service_server inv_run () = (r', t @ u @ v, ())"
    using live f(1)
    by (cases r) (simp_all add: reconcileDelivery_def io_result_def io_bind_def b d(1) io_return_def)
  moreover have "DidHttp q ans \<in> set (t @ u @ v)" "PatchedRun b' st' x \<in> set (t @ u @ v)" using d(2) f(2) by simp_all
  ultimately show ?thesis using f(3) by blast
qed

theorem reconcileDelivery_sends_once_witness:
  "\<exists>r t s' q ans. reconcileDelivery sample_env sample_delivery service_server inv_run () = (r, t, s') \<and>
     filter is_http t = [DidHttp q ans]"
proof -
  from svc_reconcile obtain r t q ans where run: "reconcileDelivery sample_env sample_delivery service_server inv_run () = (r, t, ())"
    "DidHttp q ans \<in> set t" by blast
  with reconcileDelivery_sends_once [OF this] show ?thesis by blast
qed

theorem reconcileDelivery_success_authenticated_witness:
  "\<exists>r t s' b st x. reconcileDelivery sample_env sample_delivery service_server inv_run () = (r, t, s') \<and>
     PatchedRun b st x \<in> set t \<and> rs_phase st = AgentRunPhaseSucceeded \<and>
     (\<exists>running target q response e. DidHttp q (Inr response) \<in> set t \<and> accepted sample_env sample_delivery running target (hr_challenge q) response e)"
proof -
  from svc_reconcile obtain r t b st x where run: "reconcileDelivery sample_env sample_delivery service_server inv_run () = (r, t, ())"
    "PatchedRun b st x \<in> set t" "rs_phase st = AgentRunPhaseSucceeded" by blast
  from reconcileDelivery_success_authenticated [OF this] obtain running target q response e
    where "DidHttp q (Inr response) \<in> set t" "accepted sample_env sample_delivery running target (hr_challenge q) response e" by blast
  with run show ?thesis by blast
qed

theorem run_Reconcile_status_consistent_witness:
  "\<exists>r t s' b st x. run_Reconcile sample_env sample_delivery service_server ''default'' ''docs-inv'' () = (r, t, s') \<and>
     PatchedRun b st x \<in> set t \<and> status_ok (ar_status b) st"
proof -
  from svc_reconcile obtain r t b st x where run: "reconcileDelivery sample_env sample_delivery service_server inv_run () = (r, t, ())"
    "PatchedRun b st x \<in> set t" by blast
  have "run_Reconcile sample_env sample_delivery service_server ''default'' ''docs-inv'' () =
      (r, GotRun False ''default'' ''docs-inv'' (Inr inv_run) # t, ())"
    using run(1) by (simp add: run_Reconcile_def Get_run_def io_bind_def io_call_def)
      (simp add: service_server_def inv_run_def)
  moreover from run_Reconcile_status_consistent [OF sample_env_kube this] run(2) have "status_ok (ar_status b) st"
    by (simp, blast)
  moreover have "PatchedRun b st x \<in> set (GotRun False ''default'' ''docs-inv'' (Inr inv_run) # t)" using run(2) by simp
  ultimately show ?thesis by blast
qed

end
