(* ===== verification/Agent_Controller.thy ===== *)
theory Agent_Controller
  imports Run_Factory Kube_Io
begin

text \<open>
  \<^verbatim>\<open>internal/controller/agent_controller.go\<close>: the reconciler of Agents in Task and Service mode, the
  observation of owned runs, the recast backoff and the status writer.  \<open>reader\<close> says whether the
  reconciler has an \<^verbatim>\<open>APIReader\<close>.
\<close>

abbreviation defaultBackoffInitial :: int where "defaultBackoffInitial \<equiv> 5"
abbreviation defaultBackoffMax :: int where "defaultBackoffMax \<equiv> 60"
abbreviation maxRunSuffix :: int where "maxRunSuffix \<equiv> max_int32"

subsection \<open>Status\<close>

fun stamp_conditions :: "'s server \<Rightarrow> condition list \<Rightarrow> ('s, condition list) io" where
  "stamp_conditions S [] = io_return []"
| "stamp_conditions S (u # us) =
     io_bind (now S) (\<lambda>t. io_bind (stamp_conditions S us) (\<lambda>us'. io_return (u\<lparr>c_transition := t\<rparr> # us')))"

definition setAgentStatus ::
  "'s server \<Rightarrow> kube_lib \<Rightarrow> agent \<Rightarrow> agent_status \<Rightarrow> condition list \<Rightarrow> ('s, unit) io" where
  "setAgentStatus S K ag next updates =
     io_bind (stamp_conditions S updates) (\<lambda>stamped.
       io_bind (patch_agent_status S ag
           (next\<lparr>as_conditions := setStatusConditions K (as_conditions (ag_status ag)) (m_generation (ag_meta ag)) stamped\<rparr>))
         (\<lambda>_. io_return ()))"

definition ownedRuns :: "'s server \<Rightarrow> agent \<Rightarrow> ('s, agent_run list) io" where
  "ownedRuns S ag =
     (if m_uid (ag_meta ag) = [] then
        io_fail (PlainError (''Agent '' @ agent_namespace ag @ ''/'' @ agent_name ag @ '' has no UID''))
      else io_bind (List_runs S (agent_namespace ag) (m_uid (ag_meta ag))) api_result)"

text \<open>The key under which an AgentRun is indexed; the list above selects one key.\<close>

definition agentRunOwnerIndex :: "kube_lib \<Rightarrow> agent_run \<Rightarrow> string list" where
  "agentRunOwnerIndex K run =
     (case get_controller_of K (ar_meta run) of
        None \<Rightarrow> []
      | Some owner \<Rightarrow>
          if or_api_version owner \<noteq> GroupVersion \<or> or_kind owner \<noteq> ''Agent'' \<or> or_uid owner = [] then []
          else [or_uid owner])"

subsection \<open>Task mode\<close>

definition newer_run :: "agent_run \<Rightarrow> agent_run option \<Rightarrow> bool" where
  "newer_run run newest =
     (case newest of
        None \<Rightarrow> True
      | Some n \<Rightarrow> m_creation (ar_meta run) > m_creation (ar_meta n) \<or>
          m_creation (ar_meta run) = m_creation (ar_meta n) \<and> run_name run > run_name n)"

fun task_scan :: "agent_run list \<Rightarrow> agent_run option \<Rightarrow> int \<Rightarrow> (agent_run option \<times> int) option" where
  "task_scan [] newest retained = Some (newest, retained)"
| "task_scan (run # rest) newest retained =
     (if retained = maxRunSuffix then None
      else task_scan rest (if newer_run run newest then Some run else newest) (retained + 1))"

text \<open>The report on the listed runs.\<close>

definition task_report :: "golib \<Rightarrow> kube_lib \<Rightarrow> 's server \<Rightarrow> agent \<Rightarrow> agent_run list \<Rightarrow> ('s, ctrl_result) io" where
  "task_report L K S ag children =
      (case task_scan children None 0 of
         None \<Rightarrow> io_fail (PlainError (''Task Agent '' @ agent_namespace ag @ ''/'' @ agent_name ag @ '' owns more than '' @
                   show_int maxRunSuffix @ '' retained AgentRuns''))
       | Some (newest, retained) \<Rightarrow>
           (let next = empty_agent_status\<lparr>as_runs_created := retained,
                  as_observed_generation := m_generation (ag_meta ag),
                  as_last_run_name := (case newest of None \<Rightarrow> [] | Some n \<Rightarrow> run_name n)\<rparr>
            in case ValidateTask L (Some ag) of
                 Some err \<Rightarrow>
                   io_bind (setAgentStatus S K ag next
                     [mk_condition cond_Ready ConditionFalse ''InvalidTemplate'' (resolution_error_Error L err),
                      mk_condition cond_Progressing ConditionFalse ''InvalidTemplate''
                        ''Task invocations are blocked until the template is valid.''])
                     (\<lambda>_. io_return Done)
               | None \<Rightarrow>
                   io_bind (setAgentStatus S K ag next
                     [mk_condition cond_Ready ConditionTrue ''TemplateReady'' ''Task template is ready for invocations.'',
                      mk_condition cond_Progressing ConditionFalse ''Idle''
                        ''Task Agents run only when an AgentRun is created.''])
                     (\<lambda>_. io_return Done)))"

definition reconcileTask :: "golib \<Rightarrow> kube_lib \<Rightarrow> 's server \<Rightarrow> agent \<Rightarrow> ('s, ctrl_result) io" where
  "reconcileTask L K S ag = io_bind (ownedRuns S ag) (task_report L K S ag)"

subsection \<open>Service mode\<close>

record observed_service_runs =
  osr_current :: "agent_run option"
  osr_previous :: "agent_run option"
  osr_max_suffix :: int

definition serviceRunSuffix :: "string \<Rightarrow> string \<Rightarrow> int option" where
  "serviceRunSuffix agent run =
     (let prefix = agent @ ''-'' in
      if \<not> has_prefix run prefix then None
      else case parse_int 32 (trim_prefix run prefix) of
             None \<Rightarrow> None
           | Some v \<Rightarrow> if v < 1 then None else if run = agent @ ''-'' @ show_int v then Some v else None)"

fun service_scan :: "string \<Rightarrow> agent_run list \<Rightarrow> observed_service_runs \<Rightarrow> int \<Rightarrow> observed_service_runs" where
  "service_scan agent [] observed previousSuffix = observed"
| "service_scan agent (run # rest) observed previousSuffix =
     (if rp_delivery_port (ar_spec run) \<noteq> None then service_scan agent rest observed previousSuffix
      else case serviceRunSuffix agent (run_name run) of
             None \<Rightarrow> service_scan agent rest observed previousSuffix
           | Some suffix \<Rightarrow>
               if suffix > osr_max_suffix observed then
                 service_scan agent rest
                   \<lparr>osr_current = Some run, osr_previous = osr_current observed, osr_max_suffix = suffix\<rparr>
                   (osr_max_suffix observed)
               else if suffix > previousSuffix then
                 service_scan agent rest (observed\<lparr>osr_previous := Some run\<rparr>) suffix
               else service_scan agent rest observed previousSuffix)"

definition observe_children :: "string \<Rightarrow> agent_run list \<Rightarrow> observed_service_runs" where
  "observe_children agent children =
     service_scan agent children \<lparr>osr_current = None, osr_previous = None, osr_max_suffix = 0\<rparr> 0"

definition observeServiceRuns :: "'s server \<Rightarrow> agent \<Rightarrow> ('s, observed_service_runs) io" where
  "observeServiceRuns S ag =
     io_bind (ownedRuns S ag) (\<lambda>children. io_return (observe_children (agent_name ag) children))"

definition service_status :: "observed_service_runs \<Rightarrow> int \<Rightarrow> agent_status" where
  "service_status runs generation =
     empty_agent_status\<lparr>as_runs_created := osr_max_suffix runs, as_observed_generation := generation,
       as_restarts := (if osr_max_suffix runs > 0 then osr_max_suffix runs - 1 else 0),
       as_current_run_name := (case osr_current runs of None \<Rightarrow> [] | Some r \<Rightarrow> run_name r),
       as_last_run_name := (case osr_previous runs of None \<Rightarrow> [] | Some r \<Rightarrow> run_name r)\<rparr>"

text \<open>The doubling loop; the first argument counts the remaining iterations.\<close>

fun backoff_loop :: "nat \<Rightarrow> duration \<Rightarrow> duration \<Rightarrow> duration" where
  "backoff_loop 0 delay maxDelay = delay"
| "backoff_loop (Suc n) delay maxDelay =
     (if delay > maxDelay - delay then maxDelay
      else if wrap64 (delay * 2) \<ge> maxDelay then maxDelay
      else backoff_loop n (wrap64 (delay * 2)) maxDelay)"

definition backoff_seconds :: "agent \<Rightarrow> int \<times> int" where
  "backoff_seconds ag =
     (case sp_backoff (ag_spec ag) of
        None \<Rightarrow> (defaultBackoffInitial, defaultBackoffMax)
      | Some b \<Rightarrow> (if bo_initial_seconds b > 0 then bo_initial_seconds b else defaultBackoffInitial,
                    if bo_max_seconds b > 0 then bo_max_seconds b else defaultBackoffMax))"

definition backoffDelay :: "agent \<Rightarrow> int \<Rightarrow> duration" where
  "backoffDelay ag restarts =
     (let (initial, maximum) = backoff_seconds ag;
          attempt = (if restarts < 1 then 1 else restarts);
          delay = seconds_duration initial;
          maxDelay = seconds_duration maximum
      in if delay \<ge> maxDelay then maxDelay else backoff_loop (nat (attempt - 1)) delay maxDelay)"

definition verifyExistingOwnedRun ::
  "kube_lib \<Rightarrow> 's server \<Rightarrow> bool \<Rightarrow> agent \<Rightarrow> string \<Rightarrow> (agent_run \<Rightarrow> bool) \<Rightarrow> ('s, (agent_run \<times> bool) option) io" where
  "verifyExistingOwnedRun K S reader ag runName accept =
     (if \<not> reader then
        io_fail (PlainError (''cannot verify existing AgentRun '' @ agent_namespace ag @ ''/'' @ runName @
          '': APIReader is not configured''))
      else io_bind (Get_run S True (agent_namespace ag) runName) (\<lambda>got.
        case got of
          Inl e \<Rightarrow> if e = NotFound then io_return None else io_fail (ApiErr e)
        | Inr existing \<Rightarrow>
            io_return (Some (existing, is_controlled_by K (ar_meta existing) (ag_meta ag) \<and> accept existing))))"

definition handleServiceRunAlreadyExists ::
  "kube_lib \<Rightarrow> 's server \<Rightarrow> bool \<Rightarrow> agent \<Rightarrow> string \<Rightarrow> ('s, ctrl_result) io" where
  "handleServiceRunAlreadyExists K S reader ag runName =
     io_bind (verifyExistingOwnedRun K S reader ag runName (\<lambda>run. rp_delivery_port (ar_spec run) = None)) (\<lambda>found.
       case found of
         None \<Rightarrow> io_return Requeue
       | Some (existing, accepted) \<Rightarrow>
           if accepted then io_return Requeue
           else io_fail (PlainError (''service run name collision: AgentRun '' @ run_namespace existing @ ''/'' @
                  run_name existing @ '' is not controlled by Agent '' @ agent_namespace ag @ ''/'' @ agent_name ag)))"

text \<open>The creation of the next standing run, after every reason not to create one has been excluded.\<close>

definition mint_service_run ::
  "golib \<Rightarrow> kube_lib \<Rightarrow> 's server \<Rightarrow> bool \<Rightarrow> agent \<Rightarrow> observed_service_runs \<Rightarrow> ('s, ctrl_result) io" where
  "mint_service_run L K S reader ag runs =
     (if osr_max_suffix runs = maxRunSuffix then
        io_fail (PlainError (''service run suffix exhausted for Agent '' @ agent_namespace ag @ ''/'' @ agent_name ag))
      else
        (let nextSuffix = osr_max_suffix runs + 1;
             runName = agent_name ag @ ''-'' @ show_int nextSuffix
         in case NewForAgent L K ag runName (sp_goal (ag_spec ag)) of
              Inl err \<Rightarrow> io_fail (PlainError err)
            | Inr run \<Rightarrow>
                io_bind (Create_run S run) (\<lambda>res.
                  case res of
                    Some e \<Rightarrow>
                      if e \<noteq> AlreadyExists then io_fail (ApiErr e)
                      else handleServiceRunAlreadyExists K S reader ag runName
                  | None \<Rightarrow>
                      io_bind (setAgentStatus S K ag
                        (empty_agent_status\<lparr>as_current_run_name := run_name run, as_runs_created := nextSuffix,
                           as_restarts := nextSuffix - 1, as_observed_generation := m_generation (ag_meta ag),
                           as_last_run_name := (case osr_current runs of None \<Rightarrow> [] | Some r \<Rightarrow> run_name r)\<rparr>)
                        [mk_condition cond_Ready ConditionFalse ''Recasting'' (''Minted service run '' @ run_name run @ ''.''),
                         mk_condition cond_Progressing ConditionTrue ''Recasting'' ''Service run is being created.''])
                        (\<lambda>_. io_return (RequeueAfter (2 * second))))))"

text \<open>The decision on the observed runs, with the guards in the order of the source.\<close>

definition service_decision ::
  "golib \<Rightarrow> kube_lib \<Rightarrow> 's server \<Rightarrow> bool \<Rightarrow> agent \<Rightarrow> observed_service_runs \<Rightarrow> ('s, ctrl_result) io" where
  "service_decision L K S reader ag runs =
     (let status = service_status runs (m_generation (ag_meta ag)) in
       if sp_goal (ag_spec ag) = [] then
         io_bind (setAgentStatus S K ag status
           [mk_condition cond_Ready ConditionFalse ''MissingGoal'' ''Service agents require spec.goal.''])
           (\<lambda>_. io_return Done)
       else case osr_current runs of
         None \<Rightarrow> mint_service_run L K S reader ag runs
       | Some current \<Rightarrow>
           if \<not> is_terminal (run_phase current) then
             io_bind (setAgentStatus S K ag status
               [mk_condition cond_Ready ConditionTrue ''RunActive'' (''Service run '' @ run_name current @ '' is active.''),
                mk_condition cond_Progressing ConditionFalse ''RunActive'' ''Live service run is active.''])
               (\<lambda>_. io_return Done)
           else case rs_completion_time (ar_status current) of
             None \<Rightarrow> mint_service_run L K S reader ag runs
           | Some completed \<Rightarrow>
               (let delay = backoffDelay ag (osr_max_suffix runs - 1) in
                io_bind (now S) (\<lambda>t.
                  let since = time_sub t completed in
                  if since < delay then
                    io_bind (setAgentStatus S K ag status []) (\<lambda>_. io_return (RequeueAfter (wrap64 (delay - since))))
                  else mint_service_run L K S reader ag runs)))"

definition reconcileService ::
  "golib \<Rightarrow> kube_lib \<Rightarrow> 's server \<Rightarrow> bool \<Rightarrow> agent \<Rightarrow> ('s, ctrl_result) io" where
  "reconcileService L K S reader ag = io_bind (observeServiceRuns S ag) (service_decision L K S reader ag)"

subsection \<open>The backoff before a recast\<close>

lemma backoff_loop_closed:
  assumes "0 < d" "d < m" "m \<le> max_int64"
  shows "backoff_loop n d m = min m (d * 2 ^ n)"
  using assms
proof (induction n arbitrary: d)
  case (Suc n)
  have big: "m \<le> d * 2 ^ Suc n" if "m \<le> d * 2"
  proof -
    have "d * 2 * 1 \<le> d * 2 * 2 ^ n" using Suc.prems by (intro mult_left_mono) auto
    with that show ?thesis by simp
  qed
  show ?case
  proof (cases "m \<le> d * 2")
    case True
    then have "backoff_loop (Suc n) d m = m"
      using Suc.prems by (auto simp: int64_ok_def)
    with big [OF True] show ?thesis by simp
  next
    case False
    then have "wrap64 (d * 2) = d * 2" using Suc.prems by (simp add: int64_ok_def)
    with False Suc.IH [of "d * 2"] Suc.prems show ?thesis by (simp add: mult.assoc)
  qed
qed simp

definition backoff_ok :: "agent \<Rightarrow> bool" where
  "backoff_ok ag \<longleftrightarrow> (case sp_backoff (ag_spec ag) of None \<Rightarrow> True
     | Some b \<Rightarrow> int32_ok (bo_initial_seconds b) \<and> int32_ok (bo_max_seconds b))"

text \<open>
  The delay before the next standing run is exponential and capped, without overflow: with an
  initial delay of \<^term>\<open>i\<close> and a maximum of \<^term>\<open>m\<close> seconds (the defaults 5 and 60 replace values that are not
  positive) the wait after the \<^term>\<open>n\<close>-th restart is the smaller of \<^term>\<open>m\<close> and \<^term>\<open>i * 2 ^ (n - 1)\<close> seconds.
\<close>

theorem backoffDelay_closed_form:
  assumes "backoff_ok ag" "backoff_seconds ag = (i, m)"
  shows "0 < i \<and> 0 < m \<and> backoffDelay ag n = min m (i * 2 ^ nat (max 1 n - 1)) * second \<and>
    0 < backoffDelay ag n \<and> backoffDelay ag n \<le> m * second"
proof -
  from assms have im: "0 < i" "i \<le> max_int32" "0 < m" "m \<le> max_int32"
    by (auto simp: backoff_ok_def backoff_seconds_def int32_ok_def split: option.splits if_splits)
  then have sec: "seconds_duration i = i * second" "seconds_duration m = m * second"
    by (simp_all add: seconds_duration_int32)
  let ?k = "nat (max 1 n - 1)"
  have k: "nat ((if n < 1 then 1 else n) - 1) = ?k" by (simp add: max_def)
  have grow: "i \<le> i * 2 ^ ?k" using im(1) by (simp add: mult_le_cancel_left1)
  have "backoffDelay ag n = min m (i * 2 ^ ?k) * second"
  proof (cases "m \<le> i")
    case True
    then have "m \<le> i * 2 ^ ?k" using grow by linarith
    with True show ?thesis by (simp add: backoffDelay_def assms(2) sec)
  next
    case False
    then have "backoffDelay ag n = backoff_loop ?k (i * second) (m * second)"
      by (simp add: backoffDelay_def assms(2) sec k)
    also have "\<dots> = min (m * second) (i * second * 2 ^ ?k)"
      using im False by (intro backoff_loop_closed) auto
    also have "\<dots> = min m (i * 2 ^ ?k) * second" by (simp add: min_mult_distrib_right mult.commute mult.left_commute)
    finally show ?thesis .
  qed
  moreover have "0 < min m (i * 2 ^ ?k)" using im by simp
  ultimately show ?thesis using im by auto
qed

theorem backoffDelay_closed_form_witness:
  "backoffDelay (sample_agent AgentModeService) 4 = 40 * second"
proof -
  have "backoff_ok (sample_agent AgentModeService)" "backoff_seconds (sample_agent AgentModeService) = (5, 60)"
    by (simp_all add: backoff_ok_def backoff_seconds_def sample_defs)
  from backoffDelay_closed_form [OF this, of 4] show ?thesis by simp
qed

subsection \<open>The standing runs of a Service Agent\<close>

lemma serviceRunSuffix_iff:
  "serviceRunSuffix agent run = Some n \<longleftrightarrow> 1 \<le> n \<and> n \<le> max_int32 \<and> run = agent @ ''-'' @ show_int n"
proof
  assume "serviceRunSuffix agent run = Some n"
  then have n: "parse_int 32 (trim_prefix run (agent @ ''-'')) = Some n" "1 \<le> n" "run = agent @ ''-'' @ show_int n"
    by (auto simp: serviceRunSuffix_def Let_def split: if_splits option.splits)
  with parse_int_range [OF n(1)] show "1 \<le> n \<and> n \<le> max_int32 \<and> run = agent @ ''-'' @ show_int n" by auto
next
  assume n: "1 \<le> n \<and> n \<le> max_int32 \<and> run = agent @ ''-'' @ show_int n"
  then have run: "run = (agent @ ''-'') @ show_int n" by simp
  have "trim_prefix run (agent @ ''-'') = show_int n" "has_prefix run (agent @ ''-'')"
    unfolding run by (simp_all only: trim_prefix_append has_prefix_append)
  moreover have "parse_int 32 (show_int n) = Some n" using n by (intro parse_int_show_int) auto
  ultimately show "serviceRunSuffix agent run = Some n"
    using n by (simp add: serviceRunSuffix_def)
qed

definition standing_suffix :: "string \<Rightarrow> agent_run \<Rightarrow> int option" where
  "standing_suffix agent r =
     (if rp_delivery_port (ar_spec r) \<noteq> None then None else serviceRunSuffix agent (run_name r))"

lemma standing_suffix_pos: "standing_suffix agent r = Some n \<Longrightarrow> 1 \<le> n \<and> n \<le> max_int32"
  by (auto simp: standing_suffix_def serviceRunSuffix_iff split: if_splits)

lemma service_scan_Cons:
  "service_scan agent (run # rest) ob p =
     (case standing_suffix agent run of
        None \<Rightarrow> service_scan agent rest ob p
      | Some n \<Rightarrow>
          if n > osr_max_suffix ob then
            service_scan agent rest \<lparr>osr_current = Some run, osr_previous = osr_current ob, osr_max_suffix = n\<rparr>
              (osr_max_suffix ob)
          else if n > p then service_scan agent rest (ob\<lparr>osr_previous := Some run\<rparr>) n
          else service_scan agent rest ob p)"
  by (simp add: standing_suffix_def split: option.splits)

declare service_scan.simps(2) [simp del]
declare service_scan_Cons [simp]

text \<open>What the scan has established after the runs \<open>seen\<close>; \<open>p\<close> is the suffix of the previous run.\<close>

definition scan_inv :: "string \<Rightarrow> agent_run set \<Rightarrow> observed_service_runs \<Rightarrow> int \<Rightarrow> bool" where
  "scan_inv agent seen ob p \<longleftrightarrow>
     0 \<le> p \<and> (p < osr_max_suffix ob \<or> p = 0 \<and> osr_max_suffix ob = 0) \<and>
     (osr_current ob = None \<longleftrightarrow> osr_max_suffix ob = 0) \<and>
     (\<forall>c. osr_current ob = Some c \<longrightarrow> c \<in> seen \<and> standing_suffix agent c = Some (osr_max_suffix ob)) \<and>
     (osr_previous ob = None \<longleftrightarrow> p = 0) \<and>
     (\<forall>c. osr_previous ob = Some c \<longrightarrow> c \<in> seen \<and> standing_suffix agent c = Some p) \<and>
     (\<forall>c \<in> seen. \<forall>n. standing_suffix agent c = Some n \<longrightarrow> n = osr_max_suffix ob \<or> n \<le> p)"

lemma service_scan_inv:
  assumes "scan_inv agent seen ob p" "distinct (map run_name runs)" "run_name ` seen \<inter> run_name ` set runs = {}"
  shows "\<exists>p'. scan_inv agent (seen \<union> set runs) (service_scan agent runs ob p) p'"
  using assms
proof (induction runs arbitrary: seen ob p)
  case Nil
  then show ?case by auto
next
  case (Cons run rest)
  have more: "seen \<union> set (run # rest) = insert run seen \<union> set rest" by auto
  have IH: "\<exists>p'. scan_inv agent (seen \<union> set (run # rest)) (service_scan agent rest ob' q) p'"
    if "scan_inv agent (insert run seen) ob' q" for ob' q
    unfolding more using Cons.prems(2,3) by (intro Cons.IH [OF that]) auto
  show ?case
  proof (cases "standing_suffix agent run")
    case None
    with Cons.prems have "scan_inv agent (insert run seen) ob p" by (auto simp: scan_inv_def)
    from IH [OF this] None show ?thesis by simp
  next
    case (Some n)
    note pos = standing_suffix_pos [OF Some]
    have fresh: "standing_suffix agent c \<noteq> Some n" if "c \<in> seen" for c
    proof
      assume "standing_suffix agent c = Some n"
      with Some have "run_name c = run_name run"
        by (auto simp: standing_suffix_def serviceRunSuffix_iff split: if_splits)
      with Cons.prems(3) that show False by (metis IntI empty_iff image_eqI list.set_intros(1))
    qed
    consider (top) "n > osr_max_suffix ob" | (mid) "\<not> n > osr_max_suffix ob" "n > p" | (low) "\<not> n > osr_max_suffix ob" "\<not> n > p"
      by linarith
    then show ?thesis
    proof cases
      case top
      with Cons.prems Some pos have "scan_inv agent (insert run seen)
          \<lparr>osr_current = Some run, osr_previous = osr_current ob, osr_max_suffix = n\<rparr> (osr_max_suffix ob)"
        by (auto simp: scan_inv_def)
      from IH [OF this] top Some show ?thesis by simp
    next
      case mid
      have "n \<noteq> osr_max_suffix ob"
      proof
        assume eq: "n = osr_max_suffix ob"
        with pos obtain c where "osr_current ob = Some c" using Cons.prems(1) by (cases "osr_current ob") (auto simp: scan_inv_def)
        with Cons.prems(1) fresh eq show False by (auto simp: scan_inv_def)
      qed
      with mid Cons.prems Some pos have "scan_inv agent (insert run seen) (ob\<lparr>osr_previous := Some run\<rparr>) n"
        by (auto simp: scan_inv_def)
      from IH [OF this] mid Some show ?thesis by simp
    next
      case low
      with Cons.prems Some have "scan_inv agent (insert run seen) ob p" by (auto simp: scan_inv_def)
      from IH [OF this] low Some show ?thesis by simp
    qed
  qed
qed

lemma observe_children_inv:
  assumes "distinct (map run_name children)"
  shows "\<exists>p. scan_inv agent (set children) (observe_children agent children) p"
proof -
  have "scan_inv agent {} \<lparr>osr_current = None, osr_previous = None, osr_max_suffix = 0\<rparr> 0"
    by (simp add: scan_inv_def)
  from service_scan_inv [OF this assms] show ?thesis by (simp add: observe_children_def)
qed

text \<open>
  The single pass over the owned runs finds the newest two standing runs, in whatever order the
  list comes: the current run is the standing run with the greatest suffix, the previous one the standing
  run with the next smaller suffix, the counters are the greatest suffix and that minus one, and runs that
  were delivered or are named differently do not count.
\<close>

theorem observe_children_newest:
  fixes agent :: string
  assumes "distinct (map run_name children)"
  defines "sufs \<equiv> {n. \<exists>c \<in> set children. standing_suffix agent c = Some n}"
    and "ob \<equiv> observe_children agent children"
  shows "(sufs = {} \<longrightarrow> osr_current ob = None \<and> osr_previous ob = None \<and> osr_max_suffix ob = 0) \<and>
    (sufs \<noteq> {} \<longrightarrow>
       osr_max_suffix ob = Max sufs \<and>
       (\<exists>c \<in> set children. osr_current ob = Some c \<and> standing_suffix agent c = Some (Max sufs)) \<and>
       (if sufs = {Max sufs} then osr_previous ob = None
        else \<exists>c \<in> set children. osr_previous ob = Some c \<and> standing_suffix agent c = Some (Max (sufs - {Max sufs})))) \<and>
    as_runs_created (service_status ob g) = osr_max_suffix ob \<and>
    as_restarts (service_status ob g) = max 0 (osr_max_suffix ob - 1)"
proof -
  obtain p where inv: "scan_inv agent (set children) ob p"
    using observe_children_inv [OF assms(1), of agent] unfolding ob_def by blast
  have fin: "finite sufs"
  proof -
    have "sufs \<subseteq> (\<lambda>c. the (standing_suffix agent c)) ` set children" by (force simp: sufs_def)
    then show ?thesis by (rule finite_subset) simp
  qed
  show ?thesis
  proof (cases "osr_current ob")
    case None
    with inv have "osr_max_suffix ob = 0" "p = 0" "osr_previous ob = None" by (auto simp: scan_inv_def)
    moreover have "sufs = {}"
      using inv \<open>osr_max_suffix ob = 0\<close> \<open>p = 0\<close> by (fastforce simp: sufs_def scan_inv_def dest: standing_suffix_pos)
    ultimately show ?thesis using None by (simp add: service_status_def empty_agent_status_def)
  next
    case (Some c)
    with inv have c: "c \<in> set children" "standing_suffix agent c = Some (osr_max_suffix ob)"
      and p: "0 \<le> p" "p < osr_max_suffix ob" by (auto simp: scan_inv_def)
    have top: "osr_max_suffix ob \<in> sufs" using c by (auto simp: sufs_def)
    have below: "n = osr_max_suffix ob \<or> n \<le> p" if "n \<in> sufs" for n using inv that by (auto simp: sufs_def scan_inv_def)
    have max: "Max sufs = osr_max_suffix ob" using fin top below p by (intro Max_eqI) fastforce+
    have prev: "if sufs = {Max sufs} then osr_previous ob = None
        else \<exists>c \<in> set children. osr_previous ob = Some c \<and> standing_suffix agent c = Some (Max (sufs - {Max sufs}))"
    proof (cases "osr_previous ob")
      case None
      with inv have "p = 0" by (auto simp: scan_inv_def)
      then have "sufs = {Max sufs}"
        using below top max by (force simp: sufs_def dest: standing_suffix_pos)
      with None show ?thesis by simp
    next
      case (Some q)
      with inv have q: "q \<in> set children" "standing_suffix agent q = Some p" by (auto simp: scan_inv_def)
      then have "p \<in> sufs - {Max sufs}" using p max by (auto simp: sufs_def)
      moreover from this have "Max (sufs - {Max sufs}) = p" using fin below max by (intro Max_eqI) auto
      ultimately show ?thesis using Some q by auto
    qed
    have "sufs \<noteq> {}" using top by blast
    moreover have "as_runs_created (service_status ob g) = osr_max_suffix ob"
      "as_restarts (service_status ob g) = max 0 (osr_max_suffix ob - 1)"
      using p by (simp_all add: service_status_def)
    ultimately show ?thesis using prev c(1) c(2) [folded max] Some max [symmetric]
      by (intro conjI impI) (assumption | blast)+
  qed
qed

theorem observe_children_newest_witness:
  "osr_max_suffix (observe_children ''docs'' [sample_run, sample_run\<lparr>ar_meta := sample_meta ''docs-7'' ''u7''\<rparr>]) = 7"
proof -
  let ?c = "[sample_run, sample_run\<lparr>ar_meta := sample_meta ''docs-7'' ''u7''\<rparr>]"
  have d: "distinct (map run_name ?c)" by (simp add: sample_defs)
  have "show_int 7 = ''7''" "show_int 1 = ''1''" by code_simp+
  then have "serviceRunSuffix ''docs'' ''docs-7'' = Some 7" "serviceRunSuffix ''docs'' ''docs-1'' = Some 1"
    by (simp_all add: serviceRunSuffix_iff)
  then have "{n. \<exists>c \<in> set ?c. standing_suffix ''docs'' c = Some n} = {1, 7}"
    by (auto simp: standing_suffix_def sample_defs)
  note sufs = this
  have "osr_max_suffix (observe_children ''docs'' ?c) = Max {n. \<exists>c \<in> set ?c. standing_suffix ''docs'' c = Some n}"
    using observe_children_newest [OF d, of "''docs''"] sufs by (metis insert_not_empty)
  then show ?thesis by (simp only: sufs) simp
qed

subsection \<open>When a standing run is created\<close>

lemma stamp_conditions_emits: "emits (stamp_conditions S us) (\<lambda>e. \<exists>t. e = ReadClock t)"
  by (induction us) (auto intro!: emits_rules)

lemma setAgentStatus_emits:
  "emits (setAgentStatus S K ag next us)
     (\<lambda>e. (\<exists>t. e = ReadClock t) \<or> (\<exists>cs x. e = PatchedAgent ag (next\<lparr>as_conditions := cs\<rparr>) x))"
  unfolding setAgentStatus_def
  by (intro emits_rules emits_mono [OF stamp_conditions_emits]) auto

lemma handle_exists_emits:
  "emits (handleServiceRunAlreadyExists K S reader ag n) (\<lambda>e. \<exists>x. e = GotRun True (agent_namespace ag) n x)"
  unfolding handleServiceRunAlreadyExists_def verifyExistingOwnedRun_def
  by (intro emits_rules) auto

lemma filter_none_of: "(\<forall>e \<in> set t. A e) \<Longrightarrow> (\<And>e. A e \<Longrightarrow> \<not> P e) \<Longrightarrow> filter P t = []"
  by (induction t) auto

text \<open>What is true of a run that is created as number \<open>n + 1\<close>.\<close>

definition minted :: "golib \<Rightarrow> kube_lib \<Rightarrow> agent \<Rightarrow> int \<Rightarrow> agent_run \<Rightarrow> bool" where
  "minted L K ag n run \<longleftrightarrow> n < maxRunSuffix \<and> run_name run = agent_name ag @ ''-'' @ show_int (n + 1) \<and>
     rp_goal (ar_spec run) = sp_goal (ag_spec ag) \<and> rp_delivery_port (ar_spec run) = None \<and> snapshot_of L ag run \<and>
     is_controlled_by K (ar_meta run) (ag_meta ag) \<and>
     (m_uid (ag_meta ag) \<noteq> [] \<longrightarrow> agentRunOwnerIndex K run = [m_uid (ag_meta ag)])"

lemma NewForAgent_index:
  assumes "kube_contract K" "NewForAgent L K a n g = Inr r" "m_uid (ag_meta a) \<noteq> []"
  shows "agentRunOwnerIndex K r = [m_uid (ag_meta a)]"
proof -
  from assms(2) obtain m' where m': "set_controller_reference K ''Agent'' (ag_meta a)
      (empty_meta\<lparr>m_name := n, m_namespace := agent_namespace a, m_labels := [(LabelAgentName, agent_name a)]\<rparr>) = Inr m'"
    and r: "ar_meta r = m'"
    by (auto simp: NewForAgent_def Let_def split: sum.splits)
  from kube_contract.owner_reference [OF assms(1) _ m'] r assms(3) show ?thesis
    by (simp add: agentRunOwnerIndex_def empty_meta_def)
qed

lemma mint_creates:
  assumes "kube_contract K" "osr_max_suffix runs \<le> maxRunSuffix"
  shows "holds (mint_service_run L K S reader ag runs)
    (\<lambda>_ t. filter is_creation t = [] \<or>
       (\<exists>run res. filter is_creation t = [CreatedRun run res] \<and> minted L K ag (osr_max_suffix runs) run))"
  unfolding mint_service_run_def
proof (intro io_rules, goal_cases)
  case 1
  then show ?case by simp
next
  case (2 v va e)
  then show ?case by simp
next
  case (3 nextSuffix runName run)
  have m: "minted L K ag (osr_max_suffix runs) run"
    using NewForAgent_Inr [OF assms(1) 3(4)] NewForAgent_index [OF assms(1) 3(4)] 3(1,2,3) assms(2)
    by (auto simp: minted_def)
  have quiet: "emits (case res of
        Some e \<Rightarrow> if e \<noteq> AlreadyExists then io_fail (ApiErr e) else handleServiceRunAlreadyExists K S reader ag n
      | None \<Rightarrow> io_bind (setAgentStatus S K ag st us) (\<lambda>_. io_return x)) (\<lambda>e. \<not> is_creation e)" for res st us x n
    by (intro emits_rules emits_mono [OF setAgentStatus_emits] emits_mono [OF handle_exists_emits]) auto
  show ?case
    unfolding Create_run_def
    by (rule holds_call, simp, rule holds_emits [OF quiet]) (use m in \<open>auto simp: filter_empty_conv\<close>)
qed

text \<open>What the scan has to say before a run may be created, given the clock readings of the trace.\<close>

definition may_mint :: "agent \<Rightarrow> observed_service_runs \<Rightarrow> event list \<Rightarrow> bool" where
  "may_mint ag ob t \<longleftrightarrow> sp_goal (ag_spec ag) \<noteq> [] \<and>
     (\<forall>current. osr_current ob = Some current \<longrightarrow> is_terminal (run_phase current) \<and>
        (\<forall>completed. rs_completion_time (ar_status current) = Some completed \<longrightarrow>
           (\<exists>t0. ReadClock t0 \<in> set t \<and> backoffDelay ag (osr_max_suffix ob - 1) \<le> time_sub t0 completed)))"

lemma service_scan_le:
  "osr_max_suffix ob \<le> maxRunSuffix \<Longrightarrow> osr_max_suffix (service_scan agent runs ob p) \<le> maxRunSuffix"
  by (induction runs arbitrary: ob p) (auto split: option.splits dest: standing_suffix_pos)

lemma observe_children_le: "osr_max_suffix (observe_children agent children) \<le> maxRunSuffix"
  by (simp add: observe_children_def service_scan_le)

definition mint_trace :: "golib \<Rightarrow> kube_lib \<Rightarrow> agent \<Rightarrow> event list \<Rightarrow> bool" where
  "mint_trace L K ag t \<longleftrightarrow> filter is_creation t = [] \<or>
     (\<exists>children run res. ListedRuns (agent_namespace ag) (m_uid (ag_meta ag)) (Inr children) \<in> set t \<and>
        filter is_creation t = [CreatedRun run res] \<and>
        minted L K ag (osr_max_suffix (observe_children (agent_name ag) children)) run \<and>
        may_mint ag (observe_children (agent_name ag) children) t)"

lemma mint_trace_none: "filter is_creation t = [] \<Longrightarrow> mint_trace L K ag t"
  by (simp add: mint_trace_def)

lemma mint_trace_created:
  assumes "mint_trace L K ag t" "CreatedRun run res \<in> set t"
  shows "\<exists>children. ListedRuns (agent_namespace ag) (m_uid (ag_meta ag)) (Inr children) \<in> set t \<and>
    filter is_creation t = [CreatedRun run res] \<and>
    minted L K ag (osr_max_suffix (observe_children (agent_name ag) children)) run \<and>
    may_mint ag (observe_children (agent_name ag) children) t"
proof -
  have "CreatedRun run res \<in> set (filter is_creation t)" using assms(2) by simp
  with assms(1) show ?thesis unfolding mint_trace_def by (elim disjE exE conjE) (auto simp del: set_filter)
qed

lemma setAgentStatus_mint_trace:
  assumes "filter is_creation t = []"
  shows "holds (io_bind (setAgentStatus S K ag st us) (\<lambda>_. io_return x)) (\<lambda>_ t'. mint_trace L K' ag (t @ t'))"
proof -
  have "emits (io_bind (setAgentStatus S K ag st us) (\<lambda>_. io_return x)) (\<lambda>e. \<not> is_creation e)"
    by (intro emits_rules emits_mono [OF setAgentStatus_emits]) auto
  from holds_emits [OF this] assms show ?thesis by (auto simp: mint_trace_def filter_empty_conv)
qed

lemma mint_service_run_mint_trace:
  assumes "kube_contract K" "filter is_creation t = []"
    and "ListedRuns (agent_namespace ag) (m_uid (ag_meta ag)) (Inr children) \<in> set t"
    and "may_mint ag (observe_children (agent_name ag) children) t"
  shows "holds (mint_service_run L K S reader ag (observe_children (agent_name ag) children))
    (\<lambda>_ t'. mint_trace L K ag (t @ t'))"
proof -
  have more: "may_mint ag (observe_children (agent_name ag) children) (t @ t')" for t'
    using assms(4) by (fastforce simp: may_mint_def)
  show ?thesis
    by (rule holds_mono [OF mint_creates [OF assms(1) observe_children_le]])
       (use assms(2,3) more in \<open>fastforce simp: mint_trace_def\<close>)
qed

lemma service_decision_mint_trace:
  assumes K: "kube_contract K" and t: "filter is_creation t = []"
    and l: "ListedRuns (agent_namespace ag) (m_uid (ag_meta ag)) (Inr children) \<in> set t"
  shows "holds (service_decision L K S reader ag (observe_children (agent_name ag) children))
    (\<lambda>_ t'. mint_trace L K ag (t @ t'))"
  unfolding service_decision_def now_def
proof (intro holds_let holds_if holds_option setAgentStatus_mint_trace [OF t] mint_service_run_mint_trace [OF K t l], goal_cases)
  case (3 status current completed delay)
  show ?case
  proof (rule holds_bind, rule holds_call, simp only: sum.case append_assoc [symmetric], intro holds_let holds_if, goal_cases)
    case (1 now since)
    then show ?case using t by (intro setAgentStatus_mint_trace) simp
  next
    case (2 now since)
    with 3 have "may_mint ag (observe_children (agent_name ag) children) (t @ [ReadClock now])"
      by (auto simp: may_mint_def)
    then show ?case using t l by (intro mint_service_run_mint_trace K) auto
  qed
qed (auto simp: may_mint_def)

lemma observeServiceRuns_holds:
  "holds (observeServiceRuns S ag) (\<lambda>r t. filter is_creation t = [] \<and>
     (\<forall>ob. r = Inr ob \<longrightarrow> (\<exists>children. ListedRuns (agent_namespace ag) (m_uid (ag_meta ag)) (Inr children) \<in> set t \<and>
        ob = observe_children (agent_name ag) children)))"
  unfolding observeServiceRuns_def ownedRuns_def
  by (intro io_rules) (auto intro!: io_rules simp: List_runs_def)

lemma reconcileService_mint_trace:
  assumes "kube_contract K"
  shows "holds (reconcileService L K S reader ag) (\<lambda>_ t. mint_trace L K ag t)"
  unfolding reconcileService_def
  by (rule holds_bind, rule holds_mono [OF observeServiceRuns_holds])
     (auto split: sum.splits intro: service_decision_mint_trace [OF assms] mint_trace_none)

text \<open>
  C7. When a Service Agent gets its next standing run, whatever the API server answers: a reconcile
  creates at most one object, and only after it listed the owned runs and found either no standing run or
  a terminal current one whose backoff has elapsed on the clock.  The new run continues the numbering
  (so no listed standing run has its name), is a snapshot of the Agent with the Agent's goal, is
  controlled by the Agent and will be found by the next listing.
\<close>

theorem reconcileService_creates_next_run:
  assumes "kube_contract K" "reconcileService L K S reader ag s = (r, t, s')" "CreatedRun run res \<in> set t"
  shows "\<exists>children. ListedRuns (agent_namespace ag) (m_uid (ag_meta ag)) (Inr children) \<in> set t \<and>
    filter is_creation t = [CreatedRun run res] \<and>
    minted L K ag (osr_max_suffix (observe_children (agent_name ag) children)) run \<and>
    may_mint ag (observe_children (agent_name ag) children) t \<and>
    (distinct (map run_name children) \<longrightarrow> (\<forall>c \<in> set children. standing_suffix (agent_name ag) c \<noteq> None \<longrightarrow> run_name c \<noteq> run_name run))"
proof -
  have "mint_trace L K ag t" using holdsD [OF reconcileService_mint_trace [OF assms(1)] assms(2)] .
  from mint_trace_created [OF this assms(3)] obtain children where
    c: "ListedRuns (agent_namespace ag) (m_uid (ag_meta ag)) (Inr children) \<in> set t"
    "filter is_creation t = [CreatedRun run res]"
    "minted L K ag (osr_max_suffix (observe_children (agent_name ag) children)) run"
    "may_mint ag (observe_children (agent_name ag) children) t" by blast
  have "run_name d \<noteq> run_name run" if d: "distinct (map run_name children)" "d \<in> set children"
    "standing_suffix (agent_name ag) d \<noteq> None" for d
  proof
    assume eq: "run_name d = run_name run"
    from d(3) obtain n where n: "standing_suffix (agent_name ag) d = Some n" by auto
    obtain p where "scan_inv (agent_name ag) (set children) (observe_children (agent_name ag) children) p"
      using observe_children_inv [OF d(1)] by blast
    with d(2) n have "n \<le> osr_max_suffix (observe_children (agent_name ag) children)" by (fastforce simp: scan_inv_def)
    moreover have "n = osr_max_suffix (observe_children (agent_name ag) children) + 1"
      using n eq c(3) by (auto simp: minted_def standing_suffix_def serviceRunSuffix_iff split: if_splits)
    ultimately show False by simp
  qed
  with c show ?thesis by blast
qed

theorem reconcileService_creates_next_run_witness:
  "\<exists>run res. CreatedRun run res \<in> set (fst (snd (reconcileService zero_digest doc_kube quiet_server True (sample_agent AgentModeService) ()))) \<and>
     run_name run = ''docs-1'' \<and> minted zero_digest doc_kube (sample_agent AgentModeService) 0 run"
proof -
  let ?ag = "sample_agent AgentModeService"
  obtain r t s' where run: "reconcileService zero_digest doc_kube quiet_server True ?ag () = (r, t, s')"
    by (cases "reconcileService zero_digest doc_kube quiet_server True ?ag ()")
  have "list_ex (\<lambda>e. case e of CreatedRun x None \<Rightarrow> run_name x = ''docs-1'' | _ \<Rightarrow> False)
      (fst (snd (reconcileService zero_digest doc_kube quiet_server True ?ag ())))"
    by code_simp
  then obtain e where "e \<in> set t" "case e of CreatedRun x None \<Rightarrow> run_name x = ''docs-1'' | _ \<Rightarrow> False"
    using run by (auto simp: list_ex_iff)
  then obtain x res where x: "CreatedRun x res \<in> set t" "run_name x = ''docs-1''"
    by - (cases e; auto split: option.splits)
  from reconcileService_creates_next_run [OF doc.kube_contract_axioms run x(1)]
  obtain n where m: "minted zero_digest doc_kube ?ag n x" by blast
  have "show_int 1 = ''1''" by code_simp
  with m x(2) have "show_int (n + 1) = show_int 1" by (simp add: minted_def sample_defs)
  then have "n = 0" by simp
  with m x run show ?thesis by auto
qed

subsection \<open>Task mode only observes\<close>

lemma task_scan_spec:
  assumes "task_scan runs newest k = Some (n, m)"
  shows "m = k + int (length runs) \<and> (n = None \<longleftrightarrow> newest = None \<and> runs = []) \<and>
    (\<forall>x. n = Some x \<longrightarrow> (newest = Some x \<or> x \<in> set runs) \<and>
       (\<forall>y. newest = Some y \<or> y \<in> set runs \<longrightarrow>
          m_creation (ar_meta y) < m_creation (ar_meta x) \<or>
          m_creation (ar_meta y) = m_creation (ar_meta x) \<and> run_name y \<le> run_name x))"
  using assms
proof (induction runs newest k rule: task_scan.induct)
  case (2 run rest newest k)
  then have rec: "task_scan rest (if newer_run run newest then Some run else newest) (k + 1) = Some (n, m)"
    and k: "k \<noteq> maxRunSuffix" by (auto split: if_splits)
  note IH = "2.IH" [OF k rec]
  show ?case
  proof (cases "newer_run run newest")
    case True
    with IH show ?thesis by (fastforce simp: newer_run_def split: option.splits)
  next
    case False
    then obtain y where "newest = Some y" "m_creation (ar_meta run) < m_creation (ar_meta y) \<or>
        m_creation (ar_meta run) = m_creation (ar_meta y) \<and> run_name run \<le> run_name y"
      by (fastforce simp: newer_run_def not_less split: option.splits)
    with IH False show ?thesis by fastforce
  qed
qed auto

lemma reconcileTask_emits:
  "emits (reconcileTask L K S ag) (\<lambda>e. \<not> is_creation e \<and> \<not> is_deletion e)"
  unfolding reconcileTask_def task_report_def ownedRuns_def
  by (intro emits_rules emits_mono [OF setAgentStatus_emits]) auto

definition task_status_ok :: "agent \<Rightarrow> agent_run list \<Rightarrow> agent_status \<Rightarrow> bool" where
  "task_status_ok ag children st \<longleftrightarrow> as_runs_created st = int (length children) \<and> as_current_run_name st = [] \<and>
     as_observed_generation st = m_generation (ag_meta ag) \<and>
     (if children = [] then as_last_run_name st = []
      else \<exists>x \<in> set children. as_last_run_name st = run_name x \<and> (\<forall>y \<in> set children.
        m_creation (ar_meta y) < m_creation (ar_meta x) \<or>
        m_creation (ar_meta y) = m_creation (ar_meta x) \<and> run_name y \<le> run_name x))"

definition task_trace :: "agent \<Rightarrow> event list \<Rightarrow> bool" where
  "task_trace ag t \<longleftrightarrow> (\<forall>a st x. PatchedAgent a st x \<in> set t \<longrightarrow>
     (\<exists>children. ListedRuns (agent_namespace ag) (m_uid (ag_meta ag)) (Inr children) \<in> set t \<and> task_status_ok ag children st))"

lemma task_trace_none: "\<forall>e \<in> set t. \<not> is_write e \<Longrightarrow> task_trace ag t"
  by (fastforce simp: task_trace_def)

lemma setAgentStatus_task_trace:
  assumes "\<forall>a st x. PatchedAgent a st x \<notin> set t" "ListedRuns (agent_namespace ag) (m_uid (ag_meta ag)) (Inr children) \<in> set t"
    "\<And>cs. task_status_ok ag children (st\<lparr>as_conditions := cs\<rparr>)"
  shows "holds (io_bind (setAgentStatus S K ag st us) (\<lambda>_. io_return x)) (\<lambda>_ t'. task_trace ag (t @ t'))"
proof -
  have "emits (io_bind (setAgentStatus S K ag st us) (\<lambda>_. io_return x))
      (\<lambda>e. \<forall>a st' x. e = PatchedAgent a st' x \<longrightarrow> (\<exists>cs. st' = st\<lparr>as_conditions := cs\<rparr>))"
    by (intro emits_rules emits_mono [OF setAgentStatus_emits]) auto
  then show ?thesis
  proof (rule holds_emits)
    fix t' :: "event list"
    assume e: "\<forall>e \<in> set t'. \<forall>a st' x. e = PatchedAgent a st' x \<longrightarrow> (\<exists>cs. st' = st\<lparr>as_conditions := cs\<rparr>)"
    show "task_trace ag (t @ t')"
      unfolding task_trace_def
    proof (intro allI impI exI [of _ children] conjI)
      show "ListedRuns (agent_namespace ag) (m_uid (ag_meta ag)) (Inr children) \<in> set (t @ t')" using assms(2) by simp
      fix a st' x assume "PatchedAgent a st' x \<in> set (t @ t')"
      with assms(1) have "PatchedAgent a st' x \<in> set t'" by simp
      from bspec [OF e this] obtain cs where "st' = st\<lparr>as_conditions := cs\<rparr>" by auto
      with assms(3) [of cs] show "task_status_ok ag children st'" by simp
    qed
  qed
qed

lemma task_scan_status:
  assumes "task_scan children None 0 = Some (newest, n)"
  shows "task_status_ok ag children (empty_agent_status\<lparr>as_runs_created := n, as_observed_generation := m_generation (ag_meta ag),
      as_last_run_name := (case newest of None \<Rightarrow> [] | Some x \<Rightarrow> run_name x), as_conditions := cs\<rparr>)"
proof (cases newest)
  case None
  with task_scan_spec [OF assms] show ?thesis by (simp add: task_status_ok_def empty_agent_status_def)
next
  case (Some x)
  with task_scan_spec [OF assms] have x: "n = int (length children)" "x \<in> set children" "\<forall>y \<in> set children.
      m_creation (ar_meta y) < m_creation (ar_meta x) \<or>
      m_creation (ar_meta y) = m_creation (ar_meta x) \<and> run_name y \<le> run_name x" by simp_all
  then have "children \<noteq> []" by auto
  with x Some show ?thesis by (auto simp: task_status_ok_def empty_agent_status_def intro!: bexI [of _ x])
qed

lemma ownedRuns_holds:
  "holds (ownedRuns S ag) (\<lambda>r t. (\<forall>e \<in> set t. \<not> is_write e) \<and>
     (\<forall>children. r = Inr children \<longrightarrow> ListedRuns (agent_namespace ag) (m_uid (ag_meta ag)) (Inr children) \<in> set t))"
  unfolding ownedRuns_def by (intro io_rules) (auto intro!: io_rules simp: List_runs_def)

lemma task_report_trace:
  assumes "\<forall>a st x. PatchedAgent a st x \<notin> set t" "ListedRuns (agent_namespace ag) (m_uid (ag_meta ag)) (Inr children) \<in> set t"
  shows "holds (task_report L K S ag children) (\<lambda>_ t'. task_trace ag (t @ t'))"
  unfolding task_report_def
proof (intro holds_option holds_prod holds_let, goal_cases)
  case 1
  then show ?case using assms(1) by (intro holds_fail) (simp add: task_trace_def)
qed (auto intro!: setAgentStatus_task_trace [OF assms] task_scan_status)

lemma reconcileTask_trace: "holds (reconcileTask L K S ag) (\<lambda>_ t. task_trace ag t)"
  unfolding reconcileTask_def
  by (rule holds_bind, rule holds_mono [OF ownedRuns_holds])
     (auto split: sum.splits intro!: task_report_trace task_trace_none)

text \<open>
  A Task Agent never runs by itself: its reconcile creates and deletes nothing whatever the server
  answers, and every status it writes counts the runs of its listing and names the newest of them
  (latest creation, then greatest name).
\<close>

theorem reconcileTask_only_reports:
  assumes "reconcileTask L K S ag s = (r, t, s')"
  shows "(\<forall>e \<in> set t. \<not> is_creation e \<and> \<not> is_deletion e) \<and>
    (\<forall>a st x. PatchedAgent a st x \<in> set t \<longrightarrow>
       (\<exists>children. ListedRuns (agent_namespace ag) (m_uid (ag_meta ag)) (Inr children) \<in> set t \<and> task_status_ok ag children st))"
  using emitsD [OF reconcileTask_emits assms] holdsD [OF reconcileTask_trace assms] by (simp add: task_trace_def)

theorem reconcileTask_only_reports_witness:
  "\<exists>a st x. PatchedAgent a st x \<in> set (fst (snd (reconcileTask zero_digest doc_kube quiet_server (sample_agent AgentModeTask) ()))) \<and>
     as_runs_created st = 0 \<and> as_last_run_name st = []"
proof -
  let ?run = "reconcileTask zero_digest doc_kube quiet_server (sample_agent AgentModeTask) ()"
  obtain r t s' where run: "?run = (r, t, s')" by (cases ?run)
  have "list_ex (\<lambda>e. case e of PatchedAgent _ _ _ \<Rightarrow> True | _ \<Rightarrow> False) (fst (snd ?run)) \<and>
      list_all (\<lambda>e. case e of ListedRuns _ _ (Inr xs) \<Rightarrow> List.null xs | _ \<Rightarrow> True) (fst (snd ?run))"
    by code_simp
  then have some: "list_ex (\<lambda>e. case e of PatchedAgent _ _ _ \<Rightarrow> True | _ \<Rightarrow> False) t"
    and none: "list_all (\<lambda>e. case e of ListedRuns _ _ (Inr xs) \<Rightarrow> List.null xs | _ \<Rightarrow> True) t"
    using run by simp_all
  from some obtain e where e: "e \<in> set t" "case e of PatchedAgent _ _ _ \<Rightarrow> True | _ \<Rightarrow> False"
    unfolding list_ex_iff by blast
  then have patched: "\<exists>a st x. PatchedAgent a st x \<in> set t" by - (cases e; auto)
  have empty: "xs = []" if "ListedRuns n u (Inr xs) \<in> set t" for n u xs
    using none that unfolding list_all_iff by (auto dest!: bspec)
  from patched obtain a st x where p: "PatchedAgent a st x \<in> set t" by blast
  with reconcileTask_only_reports [OF run] obtain children where
      c: "ListedRuns (agent_namespace (sample_agent AgentModeTask)) (m_uid (ag_meta (sample_agent AgentModeTask))) (Inr children) \<in> set t"
        "task_status_ok (sample_agent AgentModeTask) children st" by blast
  with empty have "children = []" by blast
  with c(2) p run show ?thesis by (auto simp: task_status_ok_def)
qed

end
