(* ===== verification/Scheduler.thy ===== *)
theory Scheduler
  imports Pod_Builder
begin

text \<open>
  \<^verbatim>\<open>internal/scheduler\<close> (schedule policy, the latest due slot, names of scheduled runs) and
  \<^verbatim>\<open>internal/scheduledrun\<close> (the annotations that record a run's slot and sequence).  The cron
  parser and the time zone database are the parameter \<open>cron_lib\<close>; a parsed schedule is its
  \<^verbatim>\<open>Next\<close> function.
\<close>

abbreviation DefaultTimeZone :: string where "DefaultTimeZone \<equiv> ''Etc/UTC''"
abbreviation DefaultStartingDeadlineSeconds :: int where "DefaultStartingDeadlineSeconds \<equiv> 60"
abbreviation DefaultSuccessfulRunsHistory :: int where "DefaultSuccessfulRunsHistory \<equiv> 3"
abbreviation DefaultFailedRunsHistory :: int where "DefaultFailedRunsHistory \<equiv> 1"
abbreviation maxKubernetesObjectNameLength :: int where "maxKubernetesObjectNameLength \<equiv> 63"
abbreviation truncatedAgentNameHashCharacters :: nat where "truncatedAgentNameHashCharacters \<equiv> 8"

record cron_lib =
  load_location :: "string \<Rightarrow> string option"
  parse_cron :: "string \<Rightarrow> (time \<Rightarrow> time) go_result"

record policy =
  pol_next :: "time \<Rightarrow> time"
  pol_concurrency :: string
  pol_starting_deadline :: duration
  pol_suspend :: bool
  pol_successful_limit :: int
  pol_failed_limit :: int

text \<open>The regular expression \<^verbatim>\<open>(^|[[:space:]])(CRON_TZ|TZ)=\<close>.\<close>

definition regexp_space :: "char \<Rightarrow> bool" where
  "regexp_space c \<longleftrightarrow> c \<in> {CHR 0x09, CHR 0x0A, CHR 0x0B, CHR 0x0C, CHR 0x0D, CHR 0x20}"

fun embedded_time_zone :: "bool \<Rightarrow> string \<Rightarrow> bool" where
  "embedded_time_zone boundary [] \<longleftrightarrow> False"
| "embedded_time_zone boundary (c # s) \<longleftrightarrow>
     boundary \<and> (has_prefix (c # s) ''CRON_TZ='' \<or> has_prefix (c # s) ''TZ='') \<or>
     embedded_time_zone (regexp_space c) s"

definition schedule_Parse :: "golib \<Rightarrow> cron_lib \<Rightarrow> schedule_spec option \<Rightarrow> policy go_result" where
  "schedule_Parse L C spec =
     (case spec of
        None \<Rightarrow> Inl ''spec.schedule is required''
      | Some s \<Rightarrow>
          (let expression = trim_space (ss_expression s);
               timeZoneName = (if ss_time_zone s = [] then DefaultTimeZone else ss_time_zone s);
               concurrencyPolicy = (if ss_concurrency_policy s = [] then ConcurrencyPolicyForbid else ss_concurrency_policy s);
               deadlineSeconds = (case ss_starting_deadline_seconds s of None \<Rightarrow> DefaultStartingDeadlineSeconds | Some d \<Rightarrow> d);
               successLimit = (case ss_successful_runs_history_limit s of None \<Rightarrow> DefaultSuccessfulRunsHistory | Some l \<Rightarrow> l);
               failureLimit = (case ss_failed_runs_history_limit s of None \<Rightarrow> DefaultFailedRunsHistory | Some l \<Rightarrow> l)
           in if embedded_time_zone True expression then Inl ''schedule.expression must not contain TZ or CRON_TZ''
              else case load_location C timeZoneName of
                Some err \<Rightarrow> Inl (''invalid IANA schedule.timeZone '' @ quote L timeZoneName @ '': '' @ err)
              | None \<Rightarrow>
                  (case parse_cron C (''CRON_TZ='' @ timeZoneName @ '' '' @ expression) of
                     Inl err \<Rightarrow> Inl (''invalid standard five-field schedule.expression '' @ quote L expression @ '': '' @ err)
                   | Inr nxt \<Rightarrow>
                       if concurrencyPolicy \<noteq> ConcurrencyPolicyAllow \<and> concurrencyPolicy \<noteq> ConcurrencyPolicyForbid then
                         Inl (''unsupported schedule.concurrencyPolicy '' @ quote L concurrencyPolicy)
                       else if deadlineSeconds < 0 then Inl ''schedule.startingDeadlineSeconds must not be negative''
                       else if successLimit < 0 \<or> failureLimit < 0 then Inl ''schedule history limits must not be negative''
                       else Inr \<lparr>pol_next = nxt, pol_concurrency = concurrencyPolicy,
                              pol_starting_deadline = seconds_duration deadlineSeconds, pol_suspend = ss_suspend s,
                              pol_successful_limit = successLimit, pol_failed_limit = failureLimit\<rparr>)))"

text \<open>The loop over missed slots may not end when \<^verbatim>\<open>Next\<close> does not advance, so not returning is \<^term>\<open>None\<close>.\<close>

partial_function (option) latest_due_loop ::
  "(time \<Rightarrow> time) \<Rightarrow> time \<Rightarrow> time \<Rightarrow> time \<Rightarrow> (time \<times> time) option" where
  "latest_due_loop nxt now due next =
     (if \<not> next > now then latest_due_loop nxt now next (nxt next) else Some (due, next))"

definition LatestDue :: "(time \<Rightarrow> time) \<Rightarrow> time \<Rightarrow> time \<Rightarrow> (time \<times> time) option" where
  "LatestDue nxt firstDue now =
     (if firstDue > now then Some (0, firstDue) else latest_due_loop nxt now firstDue (nxt firstDue))"

definition RunName :: "golib \<Rightarrow> string \<Rightarrow> time \<Rightarrow> string" where
  "RunName L agent slot =
     (let slotSuffix = ''-'' @ show_int (unix_seconds slot) in
      if int (length agent) + int (length slotSuffix) \<le> maxKubernetesObjectNameLength then agent @ slotSuffix
      else (let hash = take truncatedAgentNameHashCharacters (sha256_hex L agent);
                hashSuffix = ''-'' @ hash @ slotSuffix;
                prefixLength = maxKubernetesObjectNameLength - int (length hashSuffix)
            in trim_right_char (CHR ''-'') (take (nat prefixLength) agent) @ hashSuffix))"

subsection \<open>Slot metadata\<close>

abbreviation SlotAnnotationKey :: string where "SlotAnnotationKey \<equiv> ''kontext.dev/scheduled-slot''"
abbreviation SequenceAnnotationKey :: string where "SequenceAnnotationKey \<equiv> ''kontext.dev/scheduled-sequence''"

definition SetMetadata :: "object_meta \<Rightarrow> time \<Rightarrow> int \<Rightarrow> object_meta" where
  "SetMetadata m slot sequence =
     m\<lparr>m_annotations := map_put SequenceAnnotationKey (show_int sequence)
         (map_put SlotAnnotationKey (format_rfc3339 slot) (m_annotations m))\<rparr>"

definition annotation :: "object_meta \<Rightarrow> string \<Rightarrow> string" where
  "annotation m k = (case map_of (m_annotations m) k of None \<Rightarrow> [] | Some v \<Rightarrow> v)"

definition Slot :: "object_meta \<Rightarrow> time option" where
  "Slot m = parse_rfc3339 (annotation m SlotAnnotationKey)"

definition Sequence :: "object_meta \<Rightarrow> int option" where
  "Sequence m =
     (case parse_int 32 (annotation m SequenceAnnotationKey) of
        None \<Rightarrow> None
      | Some v \<Rightarrow> if v < 1 then None else Some v)"

definition RepresentsSlot :: "object_meta \<Rightarrow> time \<Rightarrow> bool" where
  "RepresentsSlot m slot = (case Slot m of None \<Rightarrow> False | Some observed \<Rightarrow> observed = slot)"

subsection \<open>The policy\<close>

lemma schedule_Parse_Inr:
  assumes "schedule_Parse L C (Some s) = Inr p"
  shows "pol_concurrency p \<in> {ConcurrencyPolicyAllow, ConcurrencyPolicyForbid}"
    and "0 \<le> pol_successful_limit p" "0 \<le> pol_failed_limit p"
    and "pol_suspend p = ss_suspend s"
    and "pol_starting_deadline p = seconds_duration
      (case ss_starting_deadline_seconds s of None \<Rightarrow> DefaultStartingDeadlineSeconds | Some d \<Rightarrow> d)"
  using assms by (auto simp: schedule_Parse_def Let_def split: option.splits sum.splits if_splits)

text \<open>
  The policy of an accepted schedule is usable: the concurrency policy is one of the two known ones,
  the history limits are not negative, and the starting deadline is the configured number of seconds
  as long as that many nanoseconds fit in an int64; from 9223372037 seconds on (which the API accepts)
  the product wraps around, so for the next 9 billion seconds' worth of values the deadline is negative
  and every slot counts as missed.
\<close>

theorem schedule_Parse_policy:
  assumes "schedule_Parse L C (Some s) = Inr p"
    and secs: "secs = (case ss_starting_deadline_seconds s of None \<Rightarrow> DefaultStartingDeadlineSeconds | Some d \<Rightarrow> d)"
  shows "pol_concurrency p \<in> {ConcurrencyPolicyAllow, ConcurrencyPolicyForbid} \<and>
    0 \<le> pol_successful_limit p \<and> 0 \<le> pol_failed_limit p \<and> 0 \<le> secs \<and>
    (secs \<le> 9223372036 \<longrightarrow> pol_starting_deadline p = secs * second) \<and>
    (9223372037 \<le> secs \<and> secs \<le> 18446744073 \<longrightarrow> pol_starting_deadline p < 0)"
proof -
  note p = schedule_Parse_Inr [OF assms(1)]
  have pos: "0 \<le> secs" using assms by (auto simp: schedule_Parse_def Let_def split: option.splits sum.splits if_splits)
  moreover have "seconds_duration secs = secs * second" if "secs \<le> 9223372036"
    unfolding seconds_duration_def using that pos by (simp add: int64_ok_def)
  moreover have "seconds_duration secs < 0" if b: "9223372037 \<le> secs" "secs \<le> 18446744073"
  proof -
    have "(secs * second + 2 ^ 63) mod 2 ^ 64 = (secs * second + 2 ^ 63 - 2 ^ 64) mod 2 ^ 64"
      using mod_add_self2 [of "secs * second + 2 ^ 63 - 2 ^ 64" "2 ^ 64"] by (simp add: add.commute)
    also have "\<dots> = secs * second + 2 ^ 63 - 2 ^ 64" using b by (intro mod_pos_pos_trivial) auto
    finally show ?thesis unfolding seconds_duration_def wrap64_def using b by simp
  qed
  ultimately show ?thesis using p secs by simp
qed

definition every_minute :: cron_lib where
  "every_minute = \<lparr>load_location = (\<lambda>_. None), parse_cron = (\<lambda>_. Inr (\<lambda>t. (t div minute + 1) * minute))\<rparr>"

definition sample_schedule :: "int option \<Rightarrow> schedule_spec" where
  "sample_schedule deadline = \<lparr>ss_expression = ''* * * * *'', ss_time_zone = [], ss_concurrency_policy = [],
     ss_starting_deadline_seconds = deadline, ss_suspend = False, ss_successful_runs_history_limit = None,
     ss_failed_runs_history_limit = Some 0\<rparr>"

lemma sample_schedule_parse:
  "0 \<le> d \<Longrightarrow> schedule_Parse zero_digest every_minute (Some (sample_schedule (Some d))) =
     Inr \<lparr>pol_next = (\<lambda>t. (t div minute + 1) * minute), pol_concurrency = ConcurrencyPolicyForbid,
       pol_starting_deadline = seconds_duration d, pol_suspend = False, pol_successful_limit = 3, pol_failed_limit = 0\<rparr>"
proof -
  have "embedded_time_zone True (trim_space ''* * * * *'') = False" by code_simp
  then show "0 \<le> d \<Longrightarrow> ?thesis" by (simp add: schedule_Parse_def sample_schedule_def every_minute_def)
qed

theorem schedule_Parse_policy_witness:
  "(\<exists>p. schedule_Parse zero_digest every_minute (Some (sample_schedule (Some 9223372037))) = Inr p \<and>
        pol_starting_deadline p < 0) \<and>
   (\<exists>p. schedule_Parse zero_digest every_minute (Some (sample_schedule (Some 30))) = Inr p \<and>
        pol_starting_deadline p = 30 * second)"
proof -
  obtain p where p: "schedule_Parse zero_digest every_minute (Some (sample_schedule (Some 9223372037))) = Inr p"
    using sample_schedule_parse [of 9223372037] by auto
  obtain q where q: "schedule_Parse zero_digest every_minute (Some (sample_schedule (Some 30))) = Inr q"
    using sample_schedule_parse [of 30] by auto
  from schedule_Parse_policy [OF p refl] schedule_Parse_policy [OF q refl] p q show ?thesis
    by (auto simp: sample_schedule_def)
qed

subsection \<open>The latest due slot\<close>

text \<open>
  The documented behaviour of a cron schedule with a set of slots: \<^verbatim>\<open>Next\<close> is the first slot after
  the given time.
\<close>

definition cron_next :: "time set \<Rightarrow> (time \<Rightarrow> time) \<Rightarrow> bool" where
  "cron_next slots nxt \<longleftrightarrow> (\<forall>t. t < nxt t \<and> nxt t \<in> slots \<and> (\<forall>s \<in> slots. t < s \<longrightarrow> nxt t \<le> s))"

lemma latest_due_loop_spec:
  assumes "cron_next slots nxt" "due \<in> slots" "due \<le> now"
  shows "\<exists>due'. latest_due_loop nxt now due (nxt due) = Some (due', nxt due') \<and> due' \<in> slots \<and>
    due \<le> due' \<and> due' \<le> now \<and> now < nxt due'"
  using assms(2,3)
proof (induction "nat (now - due)" arbitrary: due rule: less_induct)
  case less
  from assms(1) have step: "due < nxt due" "nxt due \<in> slots" by (auto simp: cron_next_def)
  show ?case
  proof (cases "nxt due > now")
    case True
    then show ?thesis using less.prems by (subst latest_due_loop.simps) auto
  next
    case False
    with step less.prems less.hyps [of "nxt due"]
    obtain due' where "latest_due_loop nxt now (nxt due) (nxt (nxt due)) = Some (due', nxt due')" "due' \<in> slots"
      "nxt due \<le> due'" "due' \<le> now" "now < nxt due'" by auto
    with False step show ?thesis by (subst latest_due_loop.simps) auto
  qed
qed

text \<open>The loop ends exactly when going from slot to slot passes the present at some point.\<close>

lemma latest_due_loop_returns:
  "(\<exists>r. latest_due_loop nxt now due next = Some r) \<longleftrightarrow> (\<exists>k. now < (nxt ^^ k) next)"
proof
  assume "\<exists>r. latest_due_loop nxt now due next = Some r"
  then obtain r where "latest_due_loop nxt now due next = Some r" by blast
  then show "\<exists>k. now < (nxt ^^ k) next"
  proof (rule latest_due_loop.raw_induct [rotated])
    fix loop :: "(time \<Rightarrow> time) \<Rightarrow> time \<Rightarrow> time \<Rightarrow> time \<Rightarrow> (time \<times> time) option" and nxt now due "next" r
    assume ih: "\<And>nxt now due next r. loop nxt now due next = Some r \<Longrightarrow> \<exists>k. now < (nxt ^^ k) next"
      and returned: "(if \<not> next > now then loop nxt now next (nxt next) else Some (due, next)) = Some r"
    show "\<exists>k. now < (nxt ^^ k) next"
    proof (cases "now < next")
      case True
      then show ?thesis by (intro exI [of _ 0]) simp
    next
      case False
      with returned have "loop nxt now next (nxt next) = Some r" by simp
      from ih [OF this] obtain k where "now < (nxt ^^ k) (nxt next)" by blast
      then show ?thesis by (intro exI [of _ "Suc k"]) (simp add: funpow_swap1)
    qed
  qed
next
  assume "\<exists>k. now < (nxt ^^ k) next"
  then obtain k where "now < (nxt ^^ k) next" by blast
  then show "\<exists>r. latest_due_loop nxt now due next = Some r"
  proof (induction k arbitrary: due "next")
    case 0
    then show ?case by (subst latest_due_loop.simps) simp
  next
    case (Suc k)
    then have "now < (nxt ^^ k) (nxt next)" by (simp add: funpow_swap1)
    from Suc.IH [OF this, of "next"] show ?case by (subst latest_due_loop.simps) auto
  qed
qed

lemma LatestDue_returns_iff: "(\<exists>r. LatestDue nxt firstDue now = Some r) \<longleftrightarrow> (\<exists>k. now < (nxt ^^ k) firstDue)"
proof (cases "now < firstDue")
  case True
  then show ?thesis by (auto simp: LatestDue_def intro: exI [of _ 0])
next
  case False
  have "(\<exists>k. now < (nxt ^^ k) firstDue) \<longleftrightarrow> (\<exists>k. now < (nxt ^^ k) (nxt firstDue))"
  proof
    assume "\<exists>k. now < (nxt ^^ k) firstDue"
    then obtain k where k: "now < (nxt ^^ k) firstDue" by blast
    with False obtain j where "k = Suc j" by (cases k) auto
    with k show "\<exists>k. now < (nxt ^^ k) (nxt firstDue)" by (auto simp: funpow_swap1)
  next
    assume "\<exists>k. now < (nxt ^^ k) (nxt firstDue)"
    then obtain k where "now < (nxt ^^ k) (nxt firstDue)" by blast
    then show "\<exists>k. now < (nxt ^^ k) firstDue" by (intro exI [of _ "Suc k"]) (simp add: funpow_swap1)
  qed
  with False latest_due_loop_returns show ?thesis by (simp add: LatestDue_def)
qed

text \<open>
  C28. When \<^verbatim>\<open>LatestDue\<close> returns, and what. For every function \<^verbatim>\<open>Next\<close> it returns exactly when going from slot to slot
  passes the present. For a schedule whose \<^verbatim>\<open>Next\<close> is the first slot after its argument it therefore returns, and
  collapses all missed slots into one: from a first due slot not after now it gives the greatest slot not after now
  and the first slot after now; from a future first slot it gives no due slot (the zero time) and that slot. A schedule
  that no date satisfies is accepted by \<^verbatim>\<open>Parse\<close> and does not advance (\<open>LatestDue_unsatisfiable\<close>).
\<close>

theorem LatestDue_spec:
  "((\<exists>r. LatestDue nxt firstDue now = Some r) \<longleftrightarrow> (\<exists>k. now < (nxt ^^ k) firstDue)) \<and>
   (cron_next slots nxt \<and> firstDue \<in> slots \<longrightarrow>
    (\<exists>due next. LatestDue nxt firstDue now = Some (due, next) \<and> now < next \<and> next \<in> slots \<and>
      (if now < firstDue then due = 0 \<and> next = firstDue
       else due \<in> slots \<and> firstDue \<le> due \<and> due \<le> now \<and> next = nxt due \<and>
         (\<forall>s \<in> slots. s \<le> now \<longrightarrow> s \<le> due) \<and> (\<forall>s \<in> slots. now < s \<longrightarrow> next \<le> s))))"
proof (intro conjI impI, rule LatestDue_returns_iff, elim conjE)
  assume cron: "cron_next slots nxt" "firstDue \<in> slots"
  show "\<exists>due next. LatestDue nxt firstDue now = Some (due, next) \<and> now < next \<and> next \<in> slots \<and>
      (if now < firstDue then due = 0 \<and> next = firstDue
       else due \<in> slots \<and> firstDue \<le> due \<and> due \<le> now \<and> next = nxt due \<and>
         (\<forall>s \<in> slots. s \<le> now \<longrightarrow> s \<le> due) \<and> (\<forall>s \<in> slots. now < s \<longrightarrow> next \<le> s))"
  proof (cases "now < firstDue")
    case True
    then show ?thesis using cron by (simp add: LatestDue_def)
  next
    case False
    then obtain due where due: "LatestDue nxt firstDue now = Some (due, nxt due)" "due \<in> slots" "firstDue \<le> due"
      "due \<le> now" "now < nxt due"
      using latest_due_loop_spec [OF cron, of now] by (auto simp: LatestDue_def)
    have "s \<le> due" if "s \<in> slots" "s \<le> now" for s
      using cron(1) that due(5) unfolding cron_next_def by (meson leI le_less_trans not_le)
    moreover have "nxt due \<le> s" if "s \<in> slots" "now < s" for s
      using cron(1) that due(4) unfolding cron_next_def by (meson le_less_trans)
    ultimately show ?thesis using False due cron(1) by (auto simp: cron_next_def)
  qed
qed

lemma minute_schedule: "cron_next {t. t mod minute = 0} (\<lambda>t. (t div minute + 1) * minute)"
proof -
  have "(t div minute + 1) * minute \<le> s" if "s mod minute = 0" "t < s" for t s :: int
  proof -
    have s: "s = s div minute * minute" using that(1) div_mult_mod_eq [of s minute] by simp
    then have "t < s div minute * minute" using that(2) by simp
    then have "t div minute < s div minute" by (simp add: div_less_iff_less_mult)
    then have "(t div minute + 1) * minute \<le> s div minute * minute" by (intro mult_right_mono) auto
    with s show ?thesis by simp
  qed
  moreover have "t < (t div minute + 1) * minute" for t :: int
    using pos_mod_bound [of minute t] div_mult_mod_eq [of t minute] by (simp add: distrib_right)
  ultimately show ?thesis by (simp add: cron_next_def)
qed

theorem LatestDue_spec_witness:
  "(120 * second :: time) \<in> {t. t mod minute = 0} \<and>
   (\<exists>due next. LatestDue (\<lambda>t. (t div minute + 1) * minute) (120 * second) (1000 * second) = Some (due, next) \<and>
      due = 960 * second \<and> next = 1020 * second)"
proof -
  have m: "(120 * second :: time) \<in> {t. t mod minute = 0}" by simp
  from LatestDue_spec [of "\<lambda>t. (t div minute + 1) * minute" "120 * second" "1000 * second" "{t. t mod minute = 0}"] minute_schedule m
  obtain due nxt where
    d: "LatestDue (\<lambda>t. (t div minute + 1) * minute) (120 * second) (1000 * second) = Some (due, nxt)"
    and "if 1000 * second < 120 * second then due = 0 \<and> nxt = 120 * second
     else due \<in> {t. t mod minute = 0} \<and> 120 * second \<le> due \<and> due \<le> 1000 * second \<and>
       nxt = (due div minute + 1) * minute \<and> (\<forall>s \<in> {t. t mod minute = 0}. s \<le> 1000 * second \<longrightarrow> s \<le> due) \<and>
       (\<forall>s \<in> {t. t mod minute = 0}. 1000 * second < s \<longrightarrow> nxt \<le> s)"
    by blast
  then have e: "due mod minute = 0" "due \<le> 1000 * second" "nxt = (due div minute + 1) * minute"
    and greatest: "\<forall>s \<in> {t. t mod minute = 0}. s \<le> 1000 * second \<longrightarrow> s \<le> due"
    by (simp_all split: if_splits)
  have "960 * second \<le> due" using greatest [THEN bspec, of "960 * second"] by simp
  moreover obtain k where k: "due = minute * k" using e(1) by (metis dvdE mod_0_imp_dvd)
  ultimately have "k = 16" using e(2) by linarith
  then have "due = 960 * second" by (simp add: k)
  with d e(3) m show ?thesis by simp
qed

text \<open>
  When \<^verbatim>\<open>Next\<close> gives up and returns the zero time for every argument, as the cron library documents for
  an expression no date satisfies, the loop does not end.
\<close>

lemma LatestDue_unsatisfiable:
  assumes "firstDue \<le> now" "0 \<le> now"
  shows "LatestDue (\<lambda>_. 0) firstDue now = None"
proof -
  have "latest_due_loop (\<lambda>_. 0) now due 0 \<noteq> Some r" for due r
  proof
    assume "latest_due_loop (\<lambda>_. 0) now due 0 = Some r"
    moreover have "nxt' = (\<lambda>_. 0) \<longrightarrow> next = 0 \<longrightarrow> 0 \<le> now' \<longrightarrow> False"
      if "latest_due_loop nxt' now' due' next = Some r'" for nxt' now' due' "next" r'
      using that by (rule latest_due_loop.raw_induct [rotated]) (auto split: if_splits)
    ultimately show False using assms(2) by blast
  qed
  then have "latest_due_loop (\<lambda>_. 0) now firstDue 0 = None" by (metis option.exhaust)
  then show ?thesis using assms(1) by (simp add: LatestDue_def)
qed

subsection \<open>Names of scheduled runs\<close>

lemma after_last_dash:
  assumes "CHR ''-'' \<notin> set d" "CHR ''-'' \<notin> set e" "x @ CHR ''-'' # d = y @ CHR ''-'' # e"
  shows "d = e"
proof -
  have "takeWhile (\<lambda>c. c \<noteq> CHR ''-'') (rev (z @ CHR ''-'' # w)) = rev w" if "CHR ''-'' \<notin> set w" for z w
  proof -
    have "takeWhile (\<lambda>c. c \<noteq> CHR ''-'') (rev w @ CHR ''-'' # rev z) = rev w"
      using that by (subst takeWhile_append2) auto
    then show ?thesis by simp
  qed
  from this [OF assms(1), of x] this [OF assms(2), of y] assms(3) show ?thesis by (metis rev_rev_ident)
qed

lemma show_nat_no_dash: "CHR ''-'' \<notin> set (show_nat n)"
  using show_nat_digits [of n] by (auto simp: list_all_iff is_digit_def)

lemma length_show_nat: "n < 10 ^ k \<Longrightarrow> 0 < k \<Longrightarrow> length (show_nat n) \<le> k"
proof (induction k arbitrary: n)
  case (Suc k)
  show ?case
  proof (cases "n < 10")
    case False
    then have "0 < k" using Suc.prems by (cases k) auto
    moreover have "n div 10 < 10 ^ k" using Suc.prems by (simp add: less_mult_imp_div_less mult.commute)
    ultimately have "length (show_nat (n div 10)) \<le> k" by (intro Suc.IH)
    with False show ?thesis by (subst show_nat.simps) simp
  qed (subst show_nat.simps, simp)
qed simp

lemma RunName_shape:
  "\<exists>x. RunName L agent slot = x @ ''-'' @ show_int (unix_seconds slot)"
  by (auto simp: RunName_def Let_def)

text \<open>
  The name of a scheduled run identifies its slot: for one Agent, two slots (of the years the
  annotation can print) get the same name only when they are the same second, and the name fits in the
  63 bytes of a label, also when the Agent's name has to be shortened to a prefix and a hash.
\<close>

theorem RunName_identifies_slot:
  assumes "hex_digest_ok L" "0 \<le> unix_seconds s" "0 \<le> unix_seconds t" "unix_seconds s < 10 ^ 12"
  shows "int (length (RunName L agent s)) \<le> maxKubernetesObjectNameLength \<and>
    (RunName L agent s = RunName L agent t \<longrightarrow> unix_seconds s = unix_seconds t)"
proof
  have "length (show_int (unix_seconds s)) \<le> 12"
    using length_show_nat [of "nat (unix_seconds s)" 12] assms(2,4) by (auto simp: show_int_def)
  moreover have "length (sha256_hex L agent) = 64" using assms(1) by (simp add: hex_digest_ok_def)
  moreover have "length (trim_right_char (CHR ''-'') (take n agent)) \<le> n" for n
    using length_trim_right_char [of "CHR ''-''" "take n agent"] by simp
  note this [of "nat (53 - int (length (show_int (unix_seconds s))))"]
  ultimately show "int (length (RunName L agent s)) \<le> maxKubernetesObjectNameLength"
    by (auto simp: RunName_def Let_def)
next
  have digits: "show_int (unix_seconds u) = show_nat (nat (unix_seconds u))" if "0 \<le> unix_seconds u" for u
    using that by (simp add: show_int_def)
  show "RunName L agent s = RunName L agent t \<longrightarrow> unix_seconds s = unix_seconds t"
  proof
    assume eq: "RunName L agent s = RunName L agent t"
    obtain x y where x: "RunName L agent s = x @ ''-'' @ show_int (unix_seconds s)"
      and y: "RunName L agent t = y @ ''-'' @ show_int (unix_seconds t)"
      using RunName_shape [of L agent s] RunName_shape [of L agent t] by blast
    then have "x @ CHR ''-'' # show_nat (nat (unix_seconds s)) = y @ CHR ''-'' # show_nat (nat (unix_seconds t))"
      using eq digits assms(2,3) by (metis append_Cons append_Nil)
    then have "show_nat (nat (unix_seconds s)) = show_nat (nat (unix_seconds t))"
      by (rule after_last_dash [OF show_nat_no_dash show_nat_no_dash])
    with assms(2,3) show "unix_seconds s = unix_seconds t" by (simp only: show_nat_inject eq_nat_nat_iff)
  qed
qed

theorem RunName_identifies_slot_witness:
  "hex_digest_ok zero_digest \<and> RunName zero_digest ''docs'' (62135596860 * second) = ''docs-60'' \<and>
   int (length (RunName zero_digest (replicate 70 (CHR ''a'')) (62135596860 * second))) \<le> maxKubernetesObjectNameLength"
proof -
  have "RunName zero_digest ''docs'' (62135596860 * second) = ''docs-60''" by code_simp
  moreover have "0 \<le> unix_seconds (62135596860 * second)" "unix_seconds (62135596860 * second) < 10 ^ 12"
    by (simp_all add: unix_seconds_def)
  ultimately show ?thesis
    using RunName_identifies_slot [OF zero_digest_ok, of "62135596860 * second" "62135596860 * second"
        "replicate 70 (CHR ''a'')"] zero_digest_ok by blast
qed

subsection \<open>The annotations survive a round trip\<close>

text \<open>
  What \<^verbatim>\<open>SetMetadata\<close> writes is what \<^verbatim>\<open>Slot\<close>, \<^verbatim>\<open>Sequence\<close> and \<^verbatim>\<open>RepresentsSlot\<close> read back, for
  every whole-second slot of a four-digit year and every positive int32, and no other annotation or
  metadata changes.
\<close>

theorem SetMetadata_roundtrip:
  assumes "rfc3339_printable slot" "1 \<le> n" "n \<le> max_int32"
  shows "Slot (SetMetadata m slot n) = Some slot \<and> Sequence (SetMetadata m slot n) = Some n \<and>
    (\<forall>other. RepresentsSlot (SetMetadata m slot n) other \<longleftrightarrow> other = slot) \<and>
    (\<forall>k. k \<noteq> SlotAnnotationKey \<longrightarrow> k \<noteq> SequenceAnnotationKey \<longrightarrow>
       map_of (m_annotations (SetMetadata m slot n)) k = map_of (m_annotations m) k) \<and>
    (SetMetadata m slot n)\<lparr>m_annotations := m_annotations m\<rparr> = m"
proof -
  have "parse_int 32 (show_int n) = Some n" using assms by (intro parse_int_show_int) auto
  with assms parse_format_rfc3339 [OF assms(1)] show ?thesis
    by (auto simp: SetMetadata_def Slot_def Sequence_def RepresentsSlot_def annotation_def)
qed

theorem SetMetadata_roundtrip_witness:
  "Slot (SetMetadata empty_meta (62135596860 * second) 3) = Some (62135596860 * second) \<and>
   Sequence (SetMetadata empty_meta (62135596860 * second) 3) = Some 3"
proof -
  have "rfc3339_printable (62135596860 * second)" by code_simp
  from SetMetadata_roundtrip [OF this, of 3] show ?thesis by simp
qed

end
