(* ===== verification/Go_Sort.thy ===== *)
theory Go_Sort
  imports Kontext_Prelude "HOL-Library.Multiset"
begin

text \<open>
  \<^verbatim>\<open>sort.Slice\<close> as insertion sort with the comparison of the caller, and the interface \<open>slice_order\<close>: what a
  comparison must satisfy and what the sorted slice then promises. The order of elements that compare equal is not
  fixed by Go; the properties of the development do not depend on it.
\<close>

fun insert_by :: "('a \<Rightarrow> 'a \<Rightarrow> bool) \<Rightarrow> 'a \<Rightarrow> 'a list \<Rightarrow> 'a list" where
  "insert_by lt x [] = [x]"
| "insert_by lt x (y # ys) = (if lt y x then y # insert_by lt x ys else x # y # ys)"

definition sort_Slice :: "('a \<Rightarrow> 'a \<Rightarrow> bool) \<Rightarrow> 'a list \<Rightarrow> 'a list" where
  "sort_Slice lt xs = foldr (insert_by lt) xs []"

lemma mset_insert_by [simp]: "mset (insert_by lt x ys) = add_mset x (mset ys)"
  by (induction ys) auto

lemma mset_sort_Slice [simp]: "mset (sort_Slice lt xs) = mset xs"
  unfolding sort_Slice_def by (induction xs) auto

lemma set_sort_Slice [simp]: "set (sort_Slice lt xs) = set xs"
  by (metis mset_sort_Slice set_mset_mset)

lemma length_sort_Slice [simp]: "length (sort_Slice lt xs) = length xs"
  by (metis mset_sort_Slice size_mset)

lemma set_insert_by [simp]: "set (insert_by lt x ys) = insert x (set ys)"
  by (metis mset_insert_by set_mset_add_mset_insert set_mset_mset)

text \<open>What \<^verbatim>\<open>sort.Slice\<close> needs of a comparison and what it then promises, as an interface.\<close>

locale slice_order =
  fixes lt :: "'a \<Rightarrow> 'a \<Rightarrow> bool"
  assumes asym: "lt a b \<Longrightarrow> \<not> lt b a"
    and trans: "\<not> lt b a \<Longrightarrow> \<not> lt c b \<Longrightarrow> \<not> lt c a"
begin

lemma insert_by_sorted: "sorted_wrt (\<lambda>a b. \<not> lt b a) ys \<Longrightarrow> sorted_wrt (\<lambda>a b. \<not> lt b a) (insert_by lt x ys)"
proof (induction ys)
  case (Cons y ys)
  show ?case
  proof (cases "lt y x")
    case True
    then show ?thesis using Cons asym by auto
  next
    case False
    then show ?thesis using Cons.prems trans by auto
  qed
qed simp

lemma sort_Slice_sorted: "sorted_wrt (\<lambda>a b. \<not> lt b a) (sort_Slice lt xs)"
  unfolding sort_Slice_def by (induction xs) (simp_all add: insert_by_sorted)

text \<open>Cutting the sorted list splits it into the least elements and the others.\<close>

lemma take_drop_order:
  assumes "c \<in> set (take n (sort_Slice lt xs))" "d \<in> set (drop n (sort_Slice lt xs))"
  shows "\<not> lt d c"
  using sort_Slice_sorted [of xs] assms
  by (metis append_take_drop_id sorted_wrt_append)

end

end
