(* ===== verification/Agent_Scheduled.thy ===== *)
theory Agent_Scheduled
  imports Agent_Controller Scheduler Go_Sort
begin

text \<open>
  \<^verbatim>\<open>internal/controller/agent_scheduled.go\<close>: the reconciler of Agents in Scheduled mode, and the dispatch on
  the mode in \<^verbatim>\<open>agent_controller.go\<close>.  \<^verbatim>\<open>LatestDue\<close> may not return (its loop ends only when the
  schedule advances), so a reconcile yields an optional result and \<^term>\<open>None\<close> stands for not returning.
  \<^verbatim>\<open>sort.Slice\<close> is insertion sort with the comparison of the source; its result is determined because the names of
  the runs in one namespace are distinct.
\<close>

subsection \<open>Observing the owned runs\<close>

record observed_scheduled_runs =
  os_items :: "agent_run list"
  os_by_slot :: "agent_run go_map"
  os_latest :: "agent_run option"
  os_latest_due :: time
  os_max_count :: int
  os_has_active :: bool

text \<open>One run of the scan, in the order of the source: activity, sequence, slot.\<close>

definition scan_run :: "agent_run \<Rightarrow> observed_scheduled_runs \<Rightarrow> observed_scheduled_runs" where
  "scan_run run ob0 =
     (let ob1 = (if \<not> is_terminal (run_phase run) then ob0\<lparr>os_has_active := True\<rparr> else ob0);
          ob2 = (case Sequence (ar_meta run) of
                   Some n \<Rightarrow> if n > os_max_count ob1 then ob1\<lparr>os_max_count := n\<rparr> else ob1
                 | None \<Rightarrow> ob1)
      in case Slot (ar_meta run) of
           None \<Rightarrow> ob2
         | Some slot \<Rightarrow>
             (let ob3 = ob2\<lparr>os_by_slot := map_put (format_rfc3339 slot) run (os_by_slot ob2)\<rparr> in
              if (case os_latest ob3 of
                    None \<Rightarrow> True
                  | Some l \<Rightarrow> slot > os_latest_due ob3 \<or> slot = os_latest_due ob3 \<and> run_name run > run_name l)
              then ob3\<lparr>os_latest := Some run, os_latest_due := slot\<rparr> else ob3))"

definition summarizeScheduledRuns :: "agent_run list \<Rightarrow> observed_scheduled_runs" where
  "summarizeScheduledRuns items =
     (let ordered = sort_Slice (\<lambda>a b. run_name a < run_name b) items
      in fold scan_run ordered \<lparr>os_items = ordered, os_by_slot = [], os_latest = None, os_latest_due = 0,
           os_max_count = 0, os_has_active = False\<rparr>)"

definition observeScheduledRuns :: "'s server \<Rightarrow> agent \<Rightarrow> ('s, observed_scheduled_runs) io" where
  "observeScheduledRuns S ag = io_bind (ownedRuns S ag) (\<lambda>children. io_return (summarizeScheduledRuns children))"

definition scheduledBaseStatus :: "agent \<Rightarrow> observed_scheduled_runs \<Rightarrow> agent_status" where
  "scheduledBaseStatus ag runs =
     (let next = empty_agent_status\<lparr>as_runs_created := as_runs_created (ag_status ag),
                   as_last_schedule_time := as_last_schedule_time (ag_status ag),
                   as_next_schedule_time := as_next_schedule_time (ag_status ag),
                   as_observed_generation := m_generation (ag_meta ag)\<rparr>;
          next = (if os_max_count runs > as_runs_created next then next\<lparr>as_runs_created := os_max_count runs\<rparr> else next)
      in case os_latest runs of
           None \<Rightarrow> next
         | Some latest \<Rightarrow>
             (let next = next\<lparr>as_last_run_name := run_name latest\<rparr> in
              if (case as_last_schedule_time next of None \<Rightarrow> True | Some t \<Rightarrow> os_latest_due runs > t)
              then next\<lparr>as_last_schedule_time := Some (os_latest_due runs)\<rparr> else next))"

definition recoverScheduledRunStatus :: "agent_status \<Rightarrow> agent_run \<Rightarrow> time \<Rightarrow> time \<Rightarrow> agent_status" where
  "recoverScheduledRunStatus next0 run slot latestRetainedSlot =
     (let next1 = (case Sequence (ar_meta run) of
                     Some n \<Rightarrow> if n > as_runs_created next0 then next0\<lparr>as_runs_created := n\<rparr> else next0
                   | None \<Rightarrow> next0);
          next2 = (if latestRetainedSlot = 0 \<or> \<not> slot < latestRetainedSlot
                   then next1\<lparr>as_last_run_name := run_name run\<rparr> else next1)
      in if (case as_last_schedule_time next2 of None \<Rightarrow> True | Some t \<Rightarrow> slot > t)
         then next2\<lparr>as_last_schedule_time := Some slot\<rparr> else next2)"

definition verifyScheduledRun ::
  "kube_lib \<Rightarrow> 's server \<Rightarrow> bool \<Rightarrow> agent \<Rightarrow> string \<Rightarrow> time \<Rightarrow> ('s, agent_run option) io" where
  "verifyScheduledRun K S reader ag runName slot =
     io_bind (verifyExistingOwnedRun K S reader ag runName (\<lambda>run. RepresentsSlot (ar_meta run) slot)) (\<lambda>found.
       case found of
         None \<Rightarrow> io_return None
       | Some (existing, accepted) \<Rightarrow>
           if \<not> accepted then
             io_fail (PlainError (''scheduled run name collision: AgentRun '' @ run_namespace existing @ ''/'' @
               run_name existing @ '' does not represent slot '' @ format_rfc3339 slot @ '' for Agent '' @
               agent_namespace ag @ ''/'' @ agent_name ag))
           else io_return (Some existing))"

subsection \<open>Pruning the history\<close>

definition scheduledRunSortTime :: "agent_run \<Rightarrow> time" where
  "scheduledRunSortTime run =
     (case Slot (ar_meta run) of
        Some slot \<Rightarrow> slot
      | None \<Rightarrow> (case rs_completion_time (ar_status run) of Some t \<Rightarrow> t | None \<Rightarrow> m_creation (ar_meta run)))"

definition newer_first :: "agent_run \<Rightarrow> agent_run \<Rightarrow> bool" where
  "newer_first a b =
     (if scheduledRunSortTime a = scheduledRunSortTime b then run_name a > run_name b
      else scheduledRunSortTime a > scheduledRunSortTime b)"

text \<open>The deletions, from the index of the limit on; the names of what was deleted are returned.\<close>

fun delete_runs :: "kube_lib \<Rightarrow> 's server \<Rightarrow> agent_run list \<Rightarrow> string list \<Rightarrow> ('s, string list) io" where
  "delete_runs K S [] deleted = io_return deleted"
| "delete_runs K S (run # rest) deleted =
     io_bind (Delete_run S run) (\<lambda>res.
       case res of
         Some e \<Rightarrow>
           if e \<noteq> NotFound then
             io_fail (PlainError (''prune completed scheduled run '' @ run_namespace run @ ''/'' @ run_name run @ '': '' @
               api_error_text K e))
           else delete_runs K S rest (run_name run # deleted)
       | None \<Rightarrow> delete_runs K S rest (run_name run # deleted))"

definition pruneScheduledGroup ::
  "kube_lib \<Rightarrow> 's server \<Rightarrow> agent_run list \<Rightarrow> int \<Rightarrow> string list \<Rightarrow> ('s, string list) io" where
  "pruneScheduledGroup K S runs limit deleted =
     delete_runs K S (drop (nat limit) (sort_Slice newer_first runs)) deleted"

definition pruneScheduledHistory ::
  "kube_lib \<Rightarrow> 's server \<Rightarrow> policy \<Rightarrow> observed_scheduled_runs \<Rightarrow> ('s, observed_scheduled_runs) io" where
  "pruneScheduledHistory K S policy runs =
     (let successful = filter (\<lambda>run. run_phase run = AgentRunPhaseSucceeded) (os_items runs);
          failed = filter (\<lambda>run. run_phase run = AgentRunPhaseFailed \<or> run_phase run = AgentRunPhaseBudgetExceeded) (os_items runs)
      in io_bind (pruneScheduledGroup K S successful (pol_successful_limit policy) []) (\<lambda>deleted.
           io_bind (pruneScheduledGroup K S failed (pol_failed_limit policy) deleted) (\<lambda>deleted.
             let retained = filter (\<lambda>run. run_name run \<notin> set deleted) (os_items runs);
                 observed = summarizeScheduledRuns retained
             in io_return (if os_max_count runs > os_max_count observed
                           then observed\<lparr>os_max_count := os_max_count runs\<rparr> else observed))))"

subsection \<open>The reconcile\<close>

definition setScheduledWaitingStatus ::
  "kube_lib \<Rightarrow> 's server \<Rightarrow> agent \<Rightarrow> agent_status \<Rightarrow> string \<Rightarrow> string \<Rightarrow> ('s, unit) io" where
  "setScheduledWaitingStatus K S ag next reason message =
     setAgentStatus S K ag next [mk_condition cond_Ready ConditionTrue reason message,
       mk_condition cond_Progressing ConditionFalse reason message]"

definition setScheduledCreatedStatus ::
  "kube_lib \<Rightarrow> 's server \<Rightarrow> agent \<Rightarrow> agent_status \<Rightarrow> string \<Rightarrow> time \<Rightarrow> ('s, unit) io" where
  "setScheduledCreatedStatus K S ag next runName slot =
     setAgentStatus S K ag next
       [mk_condition cond_Ready ConditionTrue ''RunCreated''
          (''Created scheduled run '' @ runName @ '' for slot '' @ format_rfc3339 slot @ ''.''),
        mk_condition cond_Progressing ConditionTrue ''RunCreated'' (''Scheduled run '' @ runName @ '' is progressing.'')]"

definition requeueAt :: "time \<Rightarrow> time \<Rightarrow> ctrl_result" where
  "requeueAt t next = (let delay = time_sub next t in if delay \<le> 0 then Requeue else RequeueAfter delay)"

text \<open>The creation of the run of a due slot, with the recovery when its name is taken.\<close>

definition create_slot_run ::
  "golib \<Rightarrow> kube_lib \<Rightarrow> 's server \<Rightarrow> bool \<Rightarrow> agent \<Rightarrow> time \<Rightarrow> time \<Rightarrow> time \<Rightarrow> agent_status \<Rightarrow> time \<Rightarrow> ('s, ctrl_result) io" where
  "create_slot_run L K S reader ag t due next nextStatus latestDue =
     (let runName = RunName L (agent_name ag) due in
      if as_runs_created nextStatus = maxRunSuffix then
        io_fail (PlainError (''scheduled run counter exhausted for Agent '' @ agent_namespace ag @ ''/'' @ agent_name ag))
      else
        (let sequence = as_runs_created nextStatus + 1 in
         case NewForAgent L K ag runName (sp_goal (ag_spec ag)) of
           Inl err \<Rightarrow> io_fail (PlainError err)
         | Inr run0 \<Rightarrow>
             (let run = run0\<lparr>ar_meta := SetMetadata (ar_meta run0) due sequence\<rparr> in
              io_bind (Create_run S run) (\<lambda>res.
                case res of
                  Some e \<Rightarrow>
                    if e \<noteq> AlreadyExists then io_fail (ApiErr e)
                    else io_bind (verifyScheduledRun K S reader ag runName due) (\<lambda>found.
                      case found of
                        None \<Rightarrow> io_return Requeue
                      | Some existing \<Rightarrow>
                          (let st = recoverScheduledRunStatus nextStatus existing due latestDue;
                               st = (if as_runs_created st < sequence then st\<lparr>as_runs_created := sequence\<rparr> else st)
                           in io_bind (setScheduledCreatedStatus K S ag st (run_name existing) due)
                                (\<lambda>_. io_return (requeueAt t next))))
                | None \<Rightarrow>
                    io_bind (setScheduledCreatedStatus K S ag
                        (nextStatus\<lparr>as_runs_created := sequence, as_last_run_name := run_name run,
                           as_last_schedule_time := Some due\<rparr>) (run_name run) due)
                      (\<lambda>_. io_return (requeueAt t next))))))"

text \<open>What happens to the latest due slot.\<close>

definition handle_due ::
  "golib \<Rightarrow> kube_lib \<Rightarrow> 's server \<Rightarrow> bool \<Rightarrow> agent \<Rightarrow> policy \<Rightarrow> observed_scheduled_runs \<Rightarrow> agent_status \<Rightarrow> time \<Rightarrow> time \<Rightarrow> time \<Rightarrow>
   ('s, ctrl_result) io" where
  "handle_due L K S reader ag policy runs nextStatus0 t due next =
     (let nextStatus = nextStatus0\<lparr>as_next_schedule_time := Some next\<rparr>;
          waiting = (\<lambda>reason message. io_bind (setScheduledWaitingStatus K S ag nextStatus reason message)
                       (\<lambda>_. io_return (requeueAt t next)))
      in if due = 0 then waiting ''WaitingForSchedule'' (''Next run is scheduled for '' @ format_rfc3339 next @ ''.'')
         else if time_sub t due > pol_starting_deadline policy then
           waiting ''MissedDeadline'' (''Skipped slot '' @ format_rfc3339 due @ '' because its starting deadline expired.'')
         else case map_of (os_by_slot runs) (format_rfc3339 due) of
           Some existing \<Rightarrow>
             io_bind (setScheduledCreatedStatus K S ag (recoverScheduledRunStatus nextStatus existing due (os_latest_due runs))
                 (run_name existing) due) (\<lambda>_. io_return (requeueAt t next))
         | None \<Rightarrow>
             if pol_concurrency policy = ConcurrencyPolicyForbid \<and> os_has_active runs then
               waiting ''OverlapSkipped'' (''Skipped slot '' @ format_rfc3339 due @ '' because an owned run is active.'')
             else create_slot_run L K S reader ag t due next nextStatus (os_latest_due runs))"

text \<open>The decision on the pruned runs.\<close>

definition scheduled_decision ::
  "golib \<Rightarrow> kube_lib \<Rightarrow> 's server \<Rightarrow> bool \<Rightarrow> agent \<Rightarrow> policy \<Rightarrow> time \<Rightarrow> observed_scheduled_runs \<Rightarrow> ('s, ctrl_result option) io" where
  "scheduled_decision L K S reader ag policy t runs =
     (let nextStatus = (scheduledBaseStatus ag runs)\<lparr>as_observed_generation := m_generation (ag_meta ag)\<rparr>;
          suspended = ''Scheduled run creation is suspended.''
      in case (if as_observed_generation (ag_status ag) \<noteq> m_generation (ag_meta ag) then None
               else as_next_schedule_time (ag_status ag)) of
           None \<Rightarrow>
             (let next = pol_next policy t;
                  (reason, message) =
                    (if pol_suspend policy then (''Suspended'', suspended)
                     else if as_observed_generation (ag_status ag) = 0
                     then (''ScheduleInitialized'', ''Schedule initialized; waiting for the first future slot.'')
                     else (''ScheduleUpdated'', ''Schedule generation observed; waiting for the next future slot.''))
              in io_bind (setScheduledWaitingStatus K S ag (nextStatus\<lparr>as_next_schedule_time := Some next\<rparr>) reason message)
                   (\<lambda>_. io_return (Some (if pol_suspend policy then Done else requeueAt t next))))
         | Some firstDue \<Rightarrow>
             if pol_suspend policy then
               io_bind (setScheduledWaitingStatus K S ag (nextStatus\<lparr>as_next_schedule_time := Some (pol_next policy t)\<rparr>)
                   ''Suspended'' suspended) (\<lambda>_. io_return (Some Done))
             else case LatestDue (pol_next policy) firstDue t of
               None \<Rightarrow> io_return None
             | Some (due, next) \<Rightarrow>
                 io_bind (handle_due L K S reader ag policy runs nextStatus t due next) (\<lambda>res. io_return (Some res)))"

definition reconcileScheduled ::
  "golib \<Rightarrow> kube_lib \<Rightarrow> cron_lib \<Rightarrow> 's server \<Rightarrow> bool \<Rightarrow> agent \<Rightarrow> ('s, ctrl_result option) io" where
  "reconcileScheduled L K C S reader ag =
     io_bind (now S) (\<lambda>t.
       io_bind (observeScheduledRuns S ag) (\<lambda>runs.
         case schedule_Parse L C (sp_schedule (ag_spec ag)) of
           Inl err \<Rightarrow>
             io_bind (setAgentStatus S K ag ((scheduledBaseStatus ag runs)\<lparr>as_observed_generation := m_generation (ag_meta ag)\<rparr>)
                 [mk_condition cond_Ready ConditionFalse ''InvalidSchedule'' err,
                  mk_condition cond_Progressing ConditionFalse ''InvalidSchedule''
                    ''Scheduled reconciliation is blocked by an invalid schedule.''])
               (\<lambda>_. io_return (Some Done))
         | Inr policy \<Rightarrow>
             io_bind (pruneScheduledHistory K S policy runs) (scheduled_decision L K S reader ag policy t)))"

subsection \<open>The dispatch on the mode\<close>

definition agent_Reconcile ::
  "golib \<Rightarrow> kube_lib \<Rightarrow> cron_lib \<Rightarrow> 's server \<Rightarrow> bool \<Rightarrow> string \<Rightarrow> string \<Rightarrow> ('s, ctrl_result option) io" where
  "agent_Reconcile L K C S reader ns n =
     io_bind (Get_agent S False ns n) (\<lambda>got.
       case got of
         Inl e \<Rightarrow> if e = NotFound then io_return (Some Done) else io_fail (ApiErr e)
       | Inr ag \<Rightarrow>
           (let mode = sp_mode (ag_spec ag) in
            if mode = AgentModeService then io_bind (reconcileService L K S reader ag) (\<lambda>res. io_return (Some res))
            else if mode = AgentModeScheduled then reconcileScheduled L K C S reader ag
            else if mode = AgentModeTask then io_bind (reconcileTask L K S ag) (\<lambda>res. io_return (Some res))
            else io_bind (setAgentStatus S K ag (ag_status ag) (InvalidMode L mode)) (\<lambda>_. io_return (Some Done))))"

subsection \<open>Sorting\<close>

interpretation by_name: slice_order "\<lambda>a b. run_name a < run_name b"
  by unfold_locales auto

interpretation by_age: slice_order newer_first
  by unfold_locales (auto simp: newer_first_def split: if_splits)

subsection \<open>The scan of the runs\<close>

lemma scan_run_items [simp]: "os_items (scan_run run ob) = os_items ob"
  by (auto simp: scan_run_def Let_def split: option.splits)

lemma scan_items [simp]: "os_items (fold scan_run xs ob) = os_items ob"
  by (induction xs arbitrary: ob) auto

lemma summarize_items [simp]: "set (os_items (summarizeScheduledRuns xs)) = set xs"
  by (simp add: summarizeScheduledRuns_def Let_def)

lemma scan_run_active: "os_has_active (scan_run run ob) \<longleftrightarrow> os_has_active ob \<or> \<not> is_terminal (run_phase run)"
  by (auto simp: scan_run_def Let_def split: option.splits)

lemma scan_active: "os_has_active (fold scan_run xs ob) \<longleftrightarrow> os_has_active ob \<or> (\<exists>c \<in> set xs. \<not> is_terminal (run_phase c))"
  by (induction xs arbitrary: ob) (auto simp: scan_run_active)

lemma summarize_active: "os_has_active (summarizeScheduledRuns xs) \<longleftrightarrow> (\<exists>c \<in> set xs. \<not> is_terminal (run_phase c))"
  by (simp add: summarizeScheduledRuns_def Let_def scan_active)

lemma scan_run_count:
  "os_max_count (scan_run run ob) = (case Sequence (ar_meta run) of None \<Rightarrow> os_max_count ob | Some n \<Rightarrow> max (os_max_count ob) n)"
  by (auto simp: scan_run_def Let_def split: option.splits)

lemma scan_count_mono: "os_max_count ob \<le> os_max_count (fold scan_run xs ob)"
proof (induction xs arbitrary: ob)
  case (Cons x xs)
  have "os_max_count ob \<le> os_max_count (scan_run x ob)" by (simp add: scan_run_count split: option.splits)
  with Cons.IH [of "scan_run x ob"] show ?case by simp
qed simp

lemma scan_count: "c \<in> set xs \<Longrightarrow> Sequence (ar_meta c) = Some n \<Longrightarrow> n \<le> os_max_count (fold scan_run xs ob)"
proof (induction xs arbitrary: ob)
  case (Cons x xs)
  show ?case
  proof (cases "c = x")
    case True
    then have "n \<le> os_max_count (scan_run x ob)" using Cons.prems by (simp add: scan_run_count)
    then show ?thesis using scan_count_mono [of "scan_run x ob" xs] by simp
  qed (use Cons in simp)
qed simp

lemma Sequence_le: "Sequence m = Some n \<Longrightarrow> n \<le> maxRunSuffix"
  by (auto simp: Sequence_def parse_int_def split: option.splits if_splits)

lemma scan_count_le: "os_max_count ob \<le> maxRunSuffix \<Longrightarrow> os_max_count (fold scan_run xs ob) \<le> maxRunSuffix"
proof (induction xs arbitrary: ob)
  case (Cons x xs)
  have "os_max_count (scan_run x ob) \<le> maxRunSuffix"
    using Cons.prems by (auto simp: scan_run_count split: option.splits dest: Sequence_le)
  with Cons.IH show ?case by simp
qed simp

lemma summarize_count:
  "c \<in> set xs \<Longrightarrow> Sequence (ar_meta c) = Some n \<Longrightarrow> n \<le> os_max_count (summarizeScheduledRuns xs)"
  "os_max_count (summarizeScheduledRuns xs) \<le> maxRunSuffix"
  by (auto simp: summarizeScheduledRuns_def Let_def intro!: scan_count scan_count_le)

lemma scan_run_slot:
  "map_of (os_by_slot (scan_run run ob)) k =
     (case Slot (ar_meta run) of
        Some s \<Rightarrow> if format_rfc3339 s = k then Some run else map_of (os_by_slot ob) k
      | None \<Rightarrow> map_of (os_by_slot ob) k)"
  by (auto simp: scan_run_def Let_def split: option.splits)

lemma scan_slot_None:
  "map_of (os_by_slot (fold scan_run xs ob)) k = None \<Longrightarrow>
     map_of (os_by_slot ob) k = None \<and> (\<forall>c \<in> set xs. \<forall>s. Slot (ar_meta c) = Some s \<longrightarrow> format_rfc3339 s \<noteq> k)"
proof (induction xs arbitrary: ob)
  case (Cons x xs)
  from Cons.prems have "map_of (os_by_slot (scan_run x ob)) k = None"
    "\<forall>c \<in> set xs. \<forall>s. Slot (ar_meta c) = Some s \<longrightarrow> format_rfc3339 s \<noteq> k"
    using Cons.IH [of "scan_run x ob"] by simp_all
  then show ?case by (auto simp: scan_run_slot split: option.splits if_splits)
qed simp

lemma summarize_slot_None:
  "map_of (os_by_slot (summarizeScheduledRuns xs)) k = None \<Longrightarrow> c \<in> set xs \<Longrightarrow> Slot (ar_meta c) = Some s \<Longrightarrow> format_rfc3339 s \<noteq> k"
  by (auto simp: summarizeScheduledRuns_def Let_def dest!: scan_slot_None)

subsection \<open>Pruning keeps the newest runs\<close>

lemma newer_first_total: "run_name a \<noteq> run_name b \<Longrightarrow> \<not> newer_first b a \<Longrightarrow> newer_first a b"
  by (auto simp: newer_first_def split: if_splits)

lemma delete_runs_emits: "emits (delete_runs K S ys deleted) (\<lambda>e. \<exists>d x. e = DeletedRun d x \<and> d \<in> set ys)"
  by (induction ys arbitrary: deleted) (auto intro!: emits_rules intro: emits_mono)

lemma delete_runs_returns:
  "returns (delete_runs K S ys deleted) (\<lambda>out t. set out = set deleted \<union> run_name ` set ys \<and>
     (\<forall>d \<in> set ys. \<exists>x. DeletedRun d x \<in> set t))"
proof (induction ys arbitrary: deleted)
  case (Cons y ys)
  show ?case
    unfolding delete_runs.simps Delete_run_def
    by (intro returns_rules returns_mono [OF Cons.IH]) (simp, blast)+
qed (simp add: returns_return)

text \<open>The group of a completed run, and how many of a group are kept.\<close>

definition history_group :: "agent_run \<Rightarrow> bool option" where
  "history_group run =
     (if run_phase run = AgentRunPhaseSucceeded then Some True
      else if run_phase run = AgentRunPhaseFailed \<or> run_phase run = AgentRunPhaseBudgetExceeded then Some False else None)"

definition history_limit :: "policy \<Rightarrow> bool \<Rightarrow> int" where
  "history_limit policy ok = (if ok then pol_successful_limit policy else pol_failed_limit policy)"

definition beyond_limit :: "policy \<Rightarrow> agent_run list \<Rightarrow> agent_run \<Rightarrow> bool" where
  "beyond_limit policy items d \<longleftrightarrow> d \<in> set items \<and>
     (\<exists>g. history_group d = Some g \<and>
        history_limit policy g \<le> int (card {c \<in> set items. history_group c = Some g \<and> newer_first c d}))"

lemma group_cut:
  assumes "distinct (map run_name items)" "0 \<le> history_limit policy g"
    and ys: "ys = sort_Slice newer_first (filter (\<lambda>c. history_group c = Some g) items)"
    and d: "d \<in> set (drop (nat (history_limit policy g)) ys)"
  shows "beyond_limit policy items d"
proof -
  let ?n = "nat (history_limit policy g)"
  have dist: "distinct (map run_name ys)" "set ys = {c \<in> set items. history_group c = Some g}"
  proof -
    have "distinct (map run_name (filter (\<lambda>c. history_group c = Some g) items))"
      using assms(1) by (rule distinct_map_filter)
    then show "distinct (map run_name ys)"
      unfolding ys by (metis mset_eq_imp_distinct_iff mset_map mset_sort_Slice)
  qed (simp add: ys)
  have split: "ys = take ?n ys @ drop ?n ys" by simp
  have "distinct ys" using dist(1) by (simp add: distinct_map)
  then have disj: "set (take ?n ys) \<inter> set (drop ?n ys) = {}" by (metis distinct_append split)
  have "newer_first c d" if c: "c \<in> set (take ?n ys)" for c
  proof -
    have "c \<noteq> d" using c d disj by blast
    then have "run_name c \<noteq> run_name d"
      using dist(1) c d by (metis distinct_map in_set_dropD in_set_takeD inj_onD)
    then show ?thesis
      using by_age.take_drop_order c d unfolding ys by (intro newer_first_total) blast+
  qed
  then have "set (take ?n ys) \<subseteq> {c \<in> set items. history_group c = Some g \<and> newer_first c d}"
    using dist(2) by (auto dest: in_set_takeD)
  then have "card (set (take ?n ys)) \<le> card {c \<in> set items. history_group c = Some g \<and> newer_first c d}"
    by (intro card_mono) auto
  moreover have "card (set (take ?n ys)) = ?n"
  proof -
    have "?n < length ys" using d by (metis drop_all empty_iff leI list.set(1))
    then show ?thesis using \<open>distinct ys\<close> by (simp add: distinct_card)
  qed
  moreover have "d \<in> set items" "history_group d = Some g" using d dist(2) by (auto dest: in_set_dropD)
  ultimately show ?thesis using assms(2) by (auto simp: beyond_limit_def)
qed

lemma groups:
  "filter (\<lambda>run. run_phase run = AgentRunPhaseSucceeded) items = filter (\<lambda>c. history_group c = Some True) items"
  "filter (\<lambda>run. run_phase run = AgentRunPhaseFailed \<or> run_phase run = AgentRunPhaseBudgetExceeded) items =
     filter (\<lambda>c. history_group c = Some False) items"
  by (auto intro!: filter_cong simp: history_group_def)

text \<open>What is cut off a group.\<close>

definition cut_off :: "policy \<Rightarrow> bool \<Rightarrow> agent_run list \<Rightarrow> agent_run list" where
  "cut_off policy g items =
     drop (nat (history_limit policy g)) (sort_Slice newer_first (filter (\<lambda>c. history_group c = Some g) items))"

lemma pruneScheduledHistory_cut:
  "pruneScheduledHistory K S policy runs =
     io_bind (delete_runs K S (cut_off policy True (os_items runs)) []) (\<lambda>deleted.
       io_bind (delete_runs K S (cut_off policy False (os_items runs)) deleted) (\<lambda>deleted.
         let observed = summarizeScheduledRuns (filter (\<lambda>run. run_name run \<notin> set deleted) (os_items runs))
         in io_return (observed\<lparr>os_max_count := max (os_max_count runs) (os_max_count observed)\<rparr>)))"
proof -
  have "(if os_max_count runs > os_max_count ob then ob\<lparr>os_max_count := os_max_count runs\<rparr> else ob) =
      ob\<lparr>os_max_count := max (os_max_count runs) (os_max_count ob)\<rparr>" for ob :: observed_scheduled_runs
    by (cases ob) (auto simp: max_def)
  note count = this
  show ?thesis
    unfolding pruneScheduledHistory_def groups pruneScheduledGroup_def cut_off_def history_limit_def Let_def count by simp
qed

lemma pruneScheduledHistory_emits:
  "emits (pruneScheduledHistory K S policy runs) (\<lambda>e. \<exists>d x g. e = DeletedRun d x \<and> d \<in> set (cut_off policy g (os_items runs)))"
  unfolding pruneScheduledHistory_cut Let_def
  by (intro emits_rules emits_mono [OF delete_runs_emits]) blast+

definition all_cut :: "policy \<Rightarrow> agent_run list \<Rightarrow> agent_run set" where
  "all_cut policy items = set (cut_off policy True items) \<union> set (cut_off policy False items)"

lemma pruneScheduledHistory_returns:
  "returns (pruneScheduledHistory K S policy runs) (\<lambda>ob t.
     (\<exists>observed. observed = summarizeScheduledRuns (filter (\<lambda>run. run_name run \<notin> run_name ` all_cut policy (os_items runs)) (os_items runs)) \<and>
        ob = observed\<lparr>os_max_count := max (os_max_count runs) (os_max_count observed)\<rparr>) \<and>
     (\<forall>d \<in> all_cut policy (os_items runs). \<exists>x. DeletedRun d x \<in> set t))"
  unfolding pruneScheduledHistory_cut Let_def
proof (rule returns_bind [OF delete_runs_returns], rule returns_bind [OF delete_runs_returns], rule returns_return, goal_cases)
  case (1 del1 t1 del2 t2)
  then have "set del2 = run_name ` all_cut policy (os_items runs)" by (auto simp: all_cut_def)
  moreover have "\<exists>x. DeletedRun d x \<in> set (t1 @ t2 @ [])" if "d \<in> all_cut policy (os_items runs)" for d
    using 1 that unfolding all_cut_def by (auto; meson)
  ultimately show ?case by simp
qed

lemma kept_within_limit:
  assumes "S = set items - all_cut policy items" "0 \<le> history_limit policy g"
  shows "int (card {c \<in> S. history_group c = Some g}) \<le> history_limit policy g"
proof -
  let ?ys = "sort_Slice newer_first (filter (\<lambda>c. history_group c = Some g) items)"
  have "{c \<in> S. history_group c = Some g} \<subseteq> set (take (nat (history_limit policy g)) ?ys)"
  proof
    fix c assume "c \<in> {c \<in> S. history_group c = Some g}"
    then have "c \<in> set ?ys" "c \<notin> set (drop (nat (history_limit policy g)) ?ys)"
      using assms(1) by (cases g; auto simp: all_cut_def cut_off_def)+
    then show "c \<in> set (take (nat (history_limit policy g)) ?ys)" by (metis UnE append_take_drop_id set_append)
  qed
  then have "card {c \<in> S. history_group c = Some g} \<le> length (take (nat (history_limit policy g)) ?ys)"
    by (meson List.finite_set card_length card_mono order_trans)
  then show ?thesis using assms(2) by (simp, linarith)
qed

text \<open>
  C17. Pruning deletes only old completed runs and keeps the newest: for runs with distinct names, every run
  that is deleted is a listed one that has ended, and at least as many newer runs of the same kind (succeeded,
  or failed and over budget) are listed as the history limit of the kind says.  When it returns, everything
  beyond the limits has been deleted or was gone, exactly the other listed runs are observed, and the highest
  sequence number is not forgotten.
\<close>

theorem pruneScheduledHistory_keeps_newest:
  assumes "pruneScheduledHistory K S policy runs s = (r, t, s')" "distinct (map run_name (os_items runs))"
    and "0 \<le> pol_successful_limit policy" "0 \<le> pol_failed_limit policy"
  shows "(\<forall>e \<in> set t. \<exists>d x. e = DeletedRun d x \<and> is_terminal (run_phase d) \<and> beyond_limit policy (os_items runs) d) \<and>
    (\<forall>ob. r = Inr ob \<longrightarrow> os_max_count runs \<le> os_max_count ob \<and>
       set (os_items ob) = {c \<in> set (os_items runs). \<forall>x. DeletedRun c x \<notin> set t} \<and>
       (\<forall>g. int (card {c \<in> set (os_items ob). history_group c = Some g}) \<le> history_limit policy g))"
proof (intro conjI allI impI ballI)
  have lim: "0 \<le> history_limit policy g" for g using assms(3,4) by (simp add: history_limit_def)
  have beyond: "beyond_limit policy (os_items runs) d" if "d \<in> set (cut_off policy g (os_items runs))" for d g
    using group_cut [OF assms(2) lim refl] that unfolding cut_off_def .
  have ended: "beyond_limit policy (os_items runs) d \<Longrightarrow> is_terminal (run_phase d)" for d
    by (auto simp: beyond_limit_def history_group_def split: if_splits)
  {
    fix e assume "e \<in> set t"
    from emitsD [OF pruneScheduledHistory_emits assms(1) this] obtain d x g
      where "e = DeletedRun d x" "d \<in> set (cut_off policy g (os_items runs))" by blast
    with beyond ended show "\<exists>d x. e = DeletedRun d x \<and> is_terminal (run_phase d) \<and> beyond_limit policy (os_items runs) d" by blast
  }
  fix ob assume r: "r = Inr ob"
  note ret = returnsD [OF pruneScheduledHistory_returns assms(1) [unfolded r]]
  have deleted: "(\<exists>x. DeletedRun c x \<in> set t) \<longleftrightarrow> c \<in> all_cut policy (os_items runs)" for c
  proof
    assume "\<exists>x. DeletedRun c x \<in> set t"
    then obtain x where "DeletedRun c x \<in> set t" by blast
    from emitsD [OF pruneScheduledHistory_emits assms(1) this] obtain g where "c \<in> set (cut_off policy g (os_items runs))" by blast
    then show "c \<in> all_cut policy (os_items runs)" by (cases g) (auto simp: all_cut_def)
  qed (use ret in blast)
  from ret obtain observed where
    o: "observed = summarizeScheduledRuns (filter (\<lambda>run. run_name run \<notin> run_name ` all_cut policy (os_items runs)) (os_items runs))"
      "ob = observed\<lparr>os_max_count := max (os_max_count runs) (os_max_count observed)\<rparr>" by blast
  then show "os_max_count runs \<le> os_max_count ob" by simp
  have cut: "all_cut policy (os_items runs) \<subseteq> set (os_items runs)"
    by (auto simp: all_cut_def cut_off_def dest!: in_set_dropD)
  then have name: "run_name c \<in> run_name ` all_cut policy (os_items runs) \<longleftrightarrow> c \<in> all_cut policy (os_items runs)"
    if "c \<in> set (os_items runs)" for c
    using assms(2) that by (auto simp: distinct_map dest: inj_onD)
  have items: "set (os_items ob) = set (os_items runs) - all_cut policy (os_items runs)"
    using o name by (auto simp: summarize_items)
  then show "set (os_items ob) = {c \<in> set (os_items runs). \<forall>x. DeletedRun c x \<notin> set t}" using deleted by auto
  show "int (card {c \<in> set (os_items ob). history_group c = Some g}) \<le> history_limit policy g" for g
    by (rule kept_within_limit [OF items lim])
qed

subsection \<open>When a slot gets its run\<close>

text \<open>At most one object is created, and it satisfies a predicate.\<close>

definition creates_only :: "(agent_run \<Rightarrow> bool) \<Rightarrow> event list \<Rightarrow> bool" where
  "creates_only P t \<longleftrightarrow> filter is_creation t = [] \<or> (\<exists>run res. filter is_creation t = [CreatedRun run res] \<and> P run)"

lemma creates_only_quiet: "emits m (\<lambda>e. \<not> is_creation e) \<Longrightarrow> filter is_creation t = [] \<Longrightarrow> holds m (\<lambda>_ t'. creates_only (P t') (t @ t'))"
  by (erule holds_emits) (auto simp: creates_only_def filter_empty_conv)

lemma creates_only_append: "filter is_creation t = [] \<Longrightarrow> creates_only P (t @ t') = creates_only P t'"
  by (simp add: creates_only_def)

lemma status_quiet:
  "emits (setScheduledWaitingStatus K S ag next reason message) (\<lambda>e. \<not> is_creation e)"
  "emits (setScheduledCreatedStatus K S ag next n slot) (\<lambda>e. \<not> is_creation e)"
  "emits (setAgentStatus S K ag next cs) (\<lambda>e. \<not> is_creation e)"
  unfolding setScheduledWaitingStatus_def setScheduledCreatedStatus_def
  by (rule emits_mono [OF setAgentStatus_emits], force)+

lemma verifyScheduledRun_quiet: "emits (verifyScheduledRun K S reader ag n slot) (\<lambda>e. \<not> is_creation e)"
  unfolding verifyScheduledRun_def verifyExistingOwnedRun_def by (intro emits_rules) simp_all

lemma prune_quiet: "emits (pruneScheduledHistory K S policy runs) (\<lambda>e. \<not> is_creation e)"
  by (rule emits_mono [OF pruneScheduledHistory_emits]) auto

text \<open>The run of a slot: its name, its annotations, its content and its owner.\<close>

definition slot_run :: "golib \<Rightarrow> kube_lib \<Rightarrow> agent \<Rightarrow> time \<Rightarrow> int \<Rightarrow> agent_run \<Rightarrow> bool" where
  "slot_run L K ag due n run \<longleftrightarrow> run_name run = RunName L (agent_name ag) due \<and>
     (\<exists>m. ar_meta run = SetMetadata m due n) \<and> rp_goal (ar_spec run) = sp_goal (ag_spec ag) \<and> snapshot_of L ag run \<and>
     is_controlled_by K (ar_meta run) (ag_meta ag)"

lemma NewForAgent_slot_run:
  assumes "kube_contract K" "NewForAgent L K ag (RunName L (agent_name ag) due) (sp_goal (ag_spec ag)) = Inr run0"
  shows "slot_run L K ag due n (run0\<lparr>ar_meta := SetMetadata (ar_meta run0) due n\<rparr>)"
proof -
  have "is_controlled_by K (SetMetadata (ar_meta run0) due n) (ag_meta ag) = is_controlled_by K (ar_meta run0) (ag_meta ag)"
    by (rule kube_contract.controlled_refs [OF assms(1)]) (simp add: SetMetadata_def)
  with NewForAgent_Inr [OF assms] show ?thesis
    by (auto simp: slot_run_def snapshot_of_def Let_def) (auto simp: SetMetadata_def)
qed

lemma create_slot_run_creates:
  assumes "kube_contract K"
  shows "holds (create_slot_run L K S reader ag t due next st latest)
    (\<lambda>_. creates_only (\<lambda>run. as_runs_created st \<noteq> maxRunSuffix \<and> slot_run L K ag due (as_runs_created st + 1) run))"
  unfolding create_slot_run_def Create_run_def Let_def
proof (intro holds_if holds_sum, goal_cases)
  case (3 run0)
  let ?run = "run0\<lparr>ar_meta := SetMetadata (ar_meta run0) due (as_runs_created st + 1)\<rparr>"
  have run: "slot_run L K ag due (as_runs_created st + 1) ?run" using NewForAgent_slot_run [OF assms 3(2)] .
  show ?case
    by (rule holds_bind, rule holds_call, simp only: sum.case, rule holds_emits [where A = "\<lambda>e. \<not> is_creation e"])
       (use run 3(1) in \<open>auto simp: creates_only_def filter_empty_conv intro!: emits_rules status_quiet verifyScheduledRun_quiet\<close>)
qed (auto simp: creates_only_def)

lemma handle_due_creates:
  assumes "kube_contract K"
  shows "holds (handle_due L K S reader ag policy runs st t due next)
    (\<lambda>_. creates_only (\<lambda>run. due \<noteq> 0 \<and> time_sub t due \<le> pol_starting_deadline policy \<and>
       map_of (os_by_slot runs) (format_rfc3339 due) = None \<and>
       (pol_concurrency policy = ConcurrencyPolicyForbid \<longrightarrow> \<not> os_has_active runs) \<and>
       as_runs_created st \<noteq> maxRunSuffix \<and> slot_run L K ag due (as_runs_created st + 1) run))"
proof -
  have quiet: "holds m (\<lambda>_. creates_only P)" if "emits m (\<lambda>e. \<not> is_creation e)" for m :: "('s, ctrl_result) io" and P
    using creates_only_quiet [OF that, of "[]" "\<lambda>_. P"] by simp
  show ?thesis
    unfolding handle_due_def Let_def
  proof (intro holds_if holds_option, goal_cases)
    case 4
    then show ?case
      by (intro holds_mono [OF create_slot_run_creates [OF assms]]) (auto simp: creates_only_def)
  qed (intro quiet emits_rules status_quiet)+
qed

text \<open>What has to be true before a slot gets its run.\<close>

definition may_fire :: "agent \<Rightarrow> policy \<Rightarrow> time \<Rightarrow> observed_scheduled_runs \<Rightarrow> time \<Rightarrow> bool" where
  "may_fire ag policy t runs due \<longleftrightarrow> \<not> pol_suspend policy \<and>
     as_observed_generation (ag_status ag) = m_generation (ag_meta ag) \<and>
     (\<exists>firstDue next. as_next_schedule_time (ag_status ag) = Some firstDue \<and> LatestDue (pol_next policy) firstDue t = Some (due, next)) \<and>
     due \<noteq> 0 \<and> time_sub t due \<le> pol_starting_deadline policy \<and> map_of (os_by_slot runs) (format_rfc3339 due) = None \<and>
     (pol_concurrency policy = ConcurrencyPolicyForbid \<longrightarrow> \<not> os_has_active runs)"

lemma scheduledBaseStatus_count:
  "as_runs_created (scheduledBaseStatus ag runs) = max (as_runs_created (ag_status ag)) (os_max_count runs)"
  by (auto simp: scheduledBaseStatus_def Let_def split: option.splits)

definition next_number :: "agent \<Rightarrow> observed_scheduled_runs \<Rightarrow> int" where
  "next_number ag runs = max (as_runs_created (ag_status ag)) (os_max_count runs) + 1"

lemma scheduled_decision_creates:
  assumes K: "kube_contract K"
  shows "holds (scheduled_decision L K S reader ag policy t runs)
    (\<lambda>_. creates_only (\<lambda>run. \<exists>due. may_fire ag policy t runs due \<and> next_number ag runs \<noteq> maxRunSuffix + 1 \<and>
       slot_run L K ag due (next_number ag runs) run))"
proof -
  have quiet: "holds m (\<lambda>_. creates_only P)" if "emits m (\<lambda>e. \<not> is_creation e)" for m :: "('s, ctrl_result option) io" and P
    using creates_only_quiet [OF that, of "[]" "\<lambda>_. P"] by simp
  show ?thesis
    unfolding scheduled_decision_def Let_def
  proof (intro holds_option holds_prod holds_if, goal_cases)
    case (4 firstDue x due nxt)
    show ?case
    proof (rule holds_bind, rule holds_mono [OF handle_due_creates [OF K]], goal_cases)
      case (1 r u)
      then have "creates_only (\<lambda>run. \<exists>due. may_fire ag policy t runs due \<and> next_number ag runs \<noteq> maxRunSuffix + 1 \<and>
          slot_run L K ag due (next_number ag runs) run) u"
        using 4 by (fastforce simp: creates_only_def may_fire_def next_number_def scheduledBaseStatus_count split: if_splits)
      then show ?case by (auto intro!: holds_return split: sum.splits)
    qed
  qed (intro quiet emits_rules status_quiet)+
qed

text \<open>What is observed after pruning, and what was deleted for it.\<close>

definition pruned :: "policy \<Rightarrow> observed_scheduled_runs \<Rightarrow> observed_scheduled_runs \<Rightarrow> event list \<Rightarrow> bool" where
  "pruned policy runs ob t \<longleftrightarrow>
     (\<exists>observed. observed = summarizeScheduledRuns (filter (\<lambda>run. run_name run \<notin> run_name ` all_cut policy (os_items runs)) (os_items runs)) \<and>
        ob = observed\<lparr>os_max_count := max (os_max_count runs) (os_max_count observed)\<rparr>) \<and>
     (\<forall>d \<in> all_cut policy (os_items runs). \<exists>x. DeletedRun d x \<in> set t)"

text \<open>The trace of a reconcile that creates a run.\<close>

definition fire_trace :: "golib \<Rightarrow> kube_lib \<Rightarrow> cron_lib \<Rightarrow> agent \<Rightarrow> event list \<Rightarrow> agent_run \<Rightarrow> bool" where
  "fire_trace L K C ag t run \<longleftrightarrow>
     (\<exists>t0 children policy ob due. ReadClock t0 \<in> set t \<and>
        ListedRuns (agent_namespace ag) (m_uid (ag_meta ag)) (Inr children) \<in> set t \<and>
        schedule_Parse L C (sp_schedule (ag_spec ag)) = Inr policy \<and> pruned policy (summarizeScheduledRuns children) ob t \<and>
        may_fire ag policy t0 ob due \<and> next_number ag ob \<noteq> maxRunSuffix + 1 \<and> slot_run L K ag due (next_number ag ob) run)"

lemma observeScheduledRuns_returns:
  "returns (observeScheduledRuns S ag) (\<lambda>ob t. \<exists>children.
     ListedRuns (agent_namespace ag) (m_uid (ag_meta ag)) (Inr children) \<in> set t \<and> ob = summarizeScheduledRuns children)"
  unfolding returns_def observeScheduledRuns_def ownedRuns_def List_runs_def
  by (intro io_rules) (auto intro!: io_rules)

lemma observeScheduledRuns_reads: "emits (observeScheduledRuns S ag) (\<lambda>e. \<not> is_write e)"
  unfolding observeScheduledRuns_def ownedRuns_def by (intro emits_rules) simp_all

lemma reads_create_nothing: "\<not> is_write e \<Longrightarrow> \<not> is_creation e"
  by (cases e) auto

lemma decision_fire_trace:
  assumes "kube_contract K" "filter is_creation t = []" "ReadClock t0 \<in> set t"
    "ListedRuns (agent_namespace ag) (m_uid (ag_meta ag)) (Inr children) \<in> set t"
    "schedule_Parse L C (sp_schedule (ag_spec ag)) = Inr policy" "pruned policy (summarizeScheduledRuns children) ob t"
  shows "holds (scheduled_decision L K S reader ag policy t0 ob) (\<lambda>_ t'. creates_only (fire_trace L K C ag (t @ t')) (t @ t'))"
proof (rule holds_mono [OF scheduled_decision_creates [OF assms(1)]])
  fix r t'
  have "pruned policy (summarizeScheduledRuns children) ob (t @ t')" using assms(6) by (fastforce simp: pruned_def)
  moreover have "ReadClock t0 \<in> set (t @ t')"
    "ListedRuns (agent_namespace ag) (m_uid (ag_meta ag)) (Inr children) \<in> set (t @ t')" using assms(3,4) by simp_all
  ultimately have fire: "fire_trace L K C ag (t @ t') run"
    if "may_fire ag policy t0 ob due" "next_number ag ob \<noteq> maxRunSuffix + 1" "slot_run L K ag due (next_number ag ob) run" for run due
    using assms(5) that unfolding fire_trace_def by blast
  assume "creates_only (\<lambda>run. \<exists>due. may_fire ag policy t0 ob due \<and> next_number ag ob \<noteq> maxRunSuffix + 1 \<and>
       slot_run L K ag due (next_number ag ob) run) t'"
  then show "creates_only (fire_trace L K C ag (t @ t')) (t @ t')" using assms(2) fire by (auto simp: creates_only_def)
qed

lemma prune_fire_trace:
  assumes "kube_contract K" "filter is_creation t = []" "ReadClock t0 \<in> set t"
    "ListedRuns (agent_namespace ag) (m_uid (ag_meta ag)) (Inr children) \<in> set t"
    "schedule_Parse L C (sp_schedule (ag_spec ag)) = Inr policy"
  shows "holds (io_bind (pruneScheduledHistory K S policy (summarizeScheduledRuns children)) (scheduled_decision L K S reader ag policy t0))
    (\<lambda>_ t'. creates_only (fire_trace L K C ag (t @ t')) (t @ t'))"
proof (rule holds_bind, rule holds_mono [OF holds_conj [OF pruneScheduledHistory_returns [unfolded returns_def] prune_quiet [unfolded emits_def]]], goal_cases)
  case (1 r u)
  then have u: "filter is_creation u = []" by (auto simp: filter_empty_conv)
  show ?case
  proof (cases r)
    case (Inl e)
    then show ?thesis using assms(2) u by (simp add: creates_only_def)
  next
    case (Inr ob)
    with 1 have "pruned policy (summarizeScheduledRuns children) ob u" unfolding pruned_def by blast
    then have "pruned policy (summarizeScheduledRuns children) ob (t @ u)" by (fastforce simp: pruned_def)
    with decision_fire_trace [OF assms(1), of "t @ u" t0 ag children L C policy ob S reader] assms(2-5) u show ?thesis by (simp add: Inr)
  qed
qed

lemma reconcileScheduled_fire_trace:
  assumes K: "kube_contract K"
  shows "holds (reconcileScheduled L K C S reader ag) (\<lambda>_ t. creates_only (fire_trace L K C ag t) t)"
  unfolding reconcileScheduled_def now_def
proof (rule holds_bind, rule holds_call, simp only: sum.case, rule holds_bind, rule holds_mono [OF holds_conj [OF
      observeScheduledRuns_returns [unfolded returns_def] observeScheduledRuns_reads [unfolded emits_def]]], goal_cases)
  case (1 t0 r t1)
  then have t1: "filter is_creation t1 = []" using reads_create_nothing by (auto simp: filter_empty_conv)
  show ?case
  proof (cases r)
    case (Inl e)
    then show ?thesis using t1 by (simp add: creates_only_def)
  next
    case (Inr runs)
    with 1 obtain children where c: "ListedRuns (agent_namespace ag) (m_uid (ag_meta ag)) (Inr children) \<in> set t1"
      "runs = summarizeScheduledRuns children" by auto
    show ?thesis
    proof (cases "schedule_Parse L C (sp_schedule (ag_spec ag))")
      case (Inl err)
      have "emits (io_bind (setAgentStatus S K ag st cs) (\<lambda>_. io_return (Some Done))) (\<lambda>e. \<not> is_creation e)" for st cs
        by (intro emits_rules status_quiet)
      from creates_only_quiet [OF this, where t = "ReadClock t0 # t1" and P = "\<lambda>t'. fire_trace L K C ag (ReadClock t0 # t1 @ t')"]
      show ?thesis
        using t1 \<open>r = Inr runs\<close> Inl by simp
    next
      case (Inr policy)
      from prune_fire_trace [OF K, of "ReadClock t0 # t1" t0 ag children L C policy S reader] t1 c Inr show ?thesis
        using \<open>r = Inr runs\<close> by simp
    qed
  qed
qed

lemma pruned_facts:
  assumes "pruned policy (summarizeScheduledRuns children) ob t"
  shows "\<not> os_has_active ob \<Longrightarrow> c \<in> set children \<Longrightarrow> distinct (map run_name children) \<Longrightarrow> is_terminal (run_phase c)"
    and "map_of (os_by_slot ob) (format_rfc3339 due) = None \<Longrightarrow> c \<in> set children \<Longrightarrow> distinct (map run_name children) \<Longrightarrow>
      Slot (ar_meta c) = Some s \<Longrightarrow> format_rfc3339 s = format_rfc3339 due \<Longrightarrow> \<exists>x. DeletedRun c x \<in> set t"
    and "c \<in> set children \<Longrightarrow> Sequence (ar_meta c) = Some n \<Longrightarrow> n \<le> os_max_count ob"
    and "os_max_count ob \<le> maxRunSuffix"
proof -
  let ?runs = "summarizeScheduledRuns children"
  let ?kept = "filter (\<lambda>run. run_name run \<notin> run_name ` all_cut policy (os_items ?runs)) (os_items ?runs)"
  from assms have ob: "ob = (summarizeScheduledRuns ?kept)\<lparr>os_max_count :=
      max (os_max_count ?runs) (os_max_count (summarizeScheduledRuns ?kept))\<rparr>"
    and del: "\<forall>d \<in> all_cut policy (os_items ?runs). \<exists>x. DeletedRun d x \<in> set t"
    by (auto simp: pruned_def)
  have sub: "all_cut policy (os_items ?runs) \<subseteq> set children"
    by (auto simp: all_cut_def cut_off_def dest!: in_set_dropD)
  have kept: "c \<in> set ?kept \<or> c \<in> all_cut policy (os_items ?runs)"
    if "c \<in> set children" "distinct (map run_name children)" for c
    using that sub by (auto simp: distinct_map dest: inj_onD)
  have ended: "c \<in> all_cut policy (os_items ?runs) \<Longrightarrow> is_terminal (run_phase c)" for c
    by (auto simp: all_cut_def cut_off_def history_group_def dest!: in_set_dropD split: if_splits)
  show "is_terminal (run_phase c)" if "\<not> os_has_active ob" "c \<in> set children" "distinct (map run_name children)"
    using kept [OF that(2,3)] ended that(1) ob by (auto simp: summarize_active)
  show "\<exists>x. DeletedRun c x \<in> set t"
    if "map_of (os_by_slot ob) (format_rfc3339 due) = None" "c \<in> set children" "distinct (map run_name children)"
      "Slot (ar_meta c) = Some s" "format_rfc3339 s = format_rfc3339 due"
  proof -
    have "map_of (os_by_slot (summarizeScheduledRuns ?kept)) (format_rfc3339 due) = None" using that(1) ob by simp
    then have "c \<notin> set ?kept" using summarize_slot_None that(4,5) by blast
    then show ?thesis using kept [OF that(2,3)] del by blast
  qed
  show "n \<le> os_max_count ob" if "c \<in> set children" "Sequence (ar_meta c) = Some n"
    using summarize_count(1) [OF that] ob by simp
  show "os_max_count ob \<le> maxRunSuffix" using ob summarize_count(2) by simp
qed

text \<open>
  C2. When a Scheduled Agent gets a run, whatever the API server answers: a reconcile creates at most one
  object, the run of the latest due slot, named after it, annotated with the slot and the next sequence number
  (greater than that of every listed run and than the counter of the status), a snapshot of the Agent and
  controlled by it.  That happens only when the schedule is valid, observed and not suspended, the starting
  deadline of the slot has not passed at the clock reading, no other run of the Agent is active if overlaps are
  forbidden, and every listed run of the same slot was deleted by the pruning of this reconcile.
\<close>

theorem reconcileScheduled_creates_due_slot:
  assumes "kube_contract K" "reconcileScheduled L K C S reader ag s = (r, t, s')" "CreatedRun run res \<in> set t"
  shows "filter is_creation t = [CreatedRun run res] \<and>
    (\<exists>t0 children policy firstDue due next n. ReadClock t0 \<in> set t \<and>
       ListedRuns (agent_namespace ag) (m_uid (ag_meta ag)) (Inr children) \<in> set t \<and>
       schedule_Parse L C (sp_schedule (ag_spec ag)) = Inr policy \<and> \<not> pol_suspend policy \<and>
       as_observed_generation (ag_status ag) = m_generation (ag_meta ag) \<and>
       as_next_schedule_time (ag_status ag) = Some firstDue \<and> LatestDue (pol_next policy) firstDue t0 = Some (due, next) \<and>
       time_sub t0 due \<le> pol_starting_deadline policy \<and> slot_run L K ag due n run \<and>
       as_runs_created (ag_status ag) < n \<and> (as_runs_created (ag_status ag) \<le> maxRunSuffix \<longrightarrow> n \<le> maxRunSuffix) \<and>
       (\<forall>c \<in> set children. \<forall>k. Sequence (ar_meta c) = Some k \<longrightarrow> k < n) \<and>
       (distinct (map run_name children) \<longrightarrow>
          (pol_concurrency policy = ConcurrencyPolicyForbid \<longrightarrow> (\<forall>c \<in> set children. is_terminal (run_phase c))) \<and>
          (\<forall>c \<in> set children. \<forall>slot. Slot (ar_meta c) = Some slot \<longrightarrow> format_rfc3339 slot = format_rfc3339 due \<longrightarrow>
             (\<exists>x. DeletedRun c x \<in> set t))))"
proof -
  have mem: "CreatedRun run res \<in> set (filter is_creation t)" using assms(3) by simp
  with holdsD [OF reconcileScheduled_fire_trace [OF assms(1)] assms(2)]
  have f: "filter is_creation t = [CreatedRun run res]" and fire: "fire_trace L K C ag t run"
    unfolding creates_only_def by (auto simp del: set_filter)
  from fire obtain t0 children policy ob due where
    tr: "ReadClock t0 \<in> set t" "ListedRuns (agent_namespace ag) (m_uid (ag_meta ag)) (Inr children) \<in> set t"
      "schedule_Parse L C (sp_schedule (ag_spec ag)) = Inr policy"
    and pr: "pruned policy (summarizeScheduledRuns children) ob t" and may: "may_fire ag policy t0 ob due"
    and n: "next_number ag ob \<noteq> maxRunSuffix + 1" "slot_run L K ag due (next_number ag ob) run"
    unfolding fire_trace_def by blast
  note facts = pruned_facts [OF pr]
  from may obtain firstDue nxt where d: "as_next_schedule_time (ag_status ag) = Some firstDue"
    "LatestDue (pol_next policy) firstDue t0 = Some (due, nxt)" unfolding may_fire_def by blast
  have num: "as_runs_created (ag_status ag) < next_number ag ob"
    "as_runs_created (ag_status ag) \<le> maxRunSuffix \<longrightarrow> next_number ag ob \<le> maxRunSuffix"
    using n(1) facts(4) by (auto simp: next_number_def)
  have seq: "k < next_number ag ob" if "c \<in> set children" "Sequence (ar_meta c) = Some k" for c k
    using facts(3) [OF that] by (simp add: next_number_def)
  have over: "is_terminal (run_phase c)"
    if "distinct (map run_name children)" "pol_concurrency policy = ConcurrencyPolicyForbid" "c \<in> set children" for c
    using may that facts(1) by (auto simp: may_fire_def)
  have same: "\<exists>x. DeletedRun c x \<in> set t" if "distinct (map run_name children)" "c \<in> set children"
    "Slot (ar_meta c) = Some slot" "format_rfc3339 slot = format_rfc3339 due" for c slot
    using may that facts(2) by (auto simp: may_fire_def)
  have may': "\<not> pol_suspend policy" "as_observed_generation (ag_status ag) = m_generation (ag_meta ag)"
    "time_sub t0 due \<le> pol_starting_deadline policy" using may by (auto simp: may_fire_def)
  show ?thesis
    by (intro conjI f exI [of _ t0] exI [of _ children] exI [of _ policy] exI [of _ firstDue] exI [of _ due] exI [of _ nxt]
        exI [of _ "next_number ag ob"]) 
       ((rule tr d n(2) num may')+, use seq in blast, use over same in blast)
qed

subsection \<open>The schedule always moves on\<close>

lemma LatestDue_returns:
  assumes "cron_next slots nxt" "firstDue \<in> slots"
  shows "\<exists>due next. LatestDue nxt firstDue t = Some (due, next) \<and> t < next \<and> next \<in> slots"
proof (cases "t < firstDue")
  case True
  then show ?thesis using assms(2) by (simp add: LatestDue_def)
next
  case False
  then obtain due where "latest_due_loop nxt t firstDue (nxt firstDue) = Some (due, nxt due)" "t < nxt due"
    using latest_due_loop_spec [OF assms, of t] by auto
  with False assms(1) show ?thesis by (auto simp: LatestDue_def cron_next_def)
qed

text \<open>A status that points to a later slot, for the current generation, without losing count.\<close>

definition moves_on :: "time set \<Rightarrow> agent \<Rightarrow> time \<Rightarrow> agent_status \<Rightarrow> bool" where
  "moves_on slots ag t st \<longleftrightarrow>
     (\<exists>next \<in> slots. as_next_schedule_time st = Some next \<and> t < next) \<and>
     as_observed_generation st = m_generation (ag_meta ag) \<and> as_runs_created (ag_status ag) \<le> as_runs_created st"

definition patches_move_on :: "time set \<Rightarrow> agent \<Rightarrow> time \<Rightarrow> event \<Rightarrow> bool" where
  "patches_move_on slots ag t e \<longleftrightarrow> (\<forall>a st x. e = PatchedAgent a st x \<longrightarrow> moves_on slots ag t st)"

lemma moves_on_conditions [simp]: "moves_on slots ag t (st\<lparr>as_conditions := cs\<rparr>) = moves_on slots ag t st"
  by (simp add: moves_on_def)

lemma status_moves_on:
  assumes "moves_on slots ag t st"
  shows "emits (setScheduledWaitingStatus K S ag st reason message) (patches_move_on slots ag t)"
    "emits (setScheduledCreatedStatus K S ag st n slot) (patches_move_on slots ag t)"
  unfolding setScheduledWaitingStatus_def setScheduledCreatedStatus_def
  by (rule emits_mono [OF setAgentStatus_emits], use assms in \<open>force simp: patches_move_on_def\<close>)+

lemma recover_moves_on: "moves_on slots ag t st \<Longrightarrow> moves_on slots ag t (recoverScheduledRunStatus st run slot latest)"
  by (auto simp: moves_on_def recoverScheduledRunStatus_def Let_def split: option.splits)

lemma count_moves_on:
  "moves_on slots ag t st \<Longrightarrow> as_runs_created st \<le> n \<Longrightarrow> moves_on slots ag t (st\<lparr>as_runs_created := n\<rparr>)"
  by (auto simp: moves_on_def)

lemma last_moves_on [simp]:
  "moves_on slots ag t (st\<lparr>as_last_run_name := n\<rparr>) = moves_on slots ag t st"
  "moves_on slots ag t (st\<lparr>as_last_schedule_time := u\<rparr>) = moves_on slots ag t st"
  by (simp_all add: moves_on_def)

lemma quiet_moves_on: "(\<forall>a st x. e \<noteq> PatchedAgent a st x) \<Longrightarrow> patches_move_on slots ag t e"
  by (simp add: patches_move_on_def)

lemma create_slot_run_moves_on:
  assumes "moves_on slots ag t st"
  shows "emits (create_slot_run L K S reader ag t0 due next st latest) (patches_move_on slots ag t)"
proof -
  have "emits (verifyScheduledRun K S reader ag n slot) (patches_move_on slots ag t)" for n slot
    unfolding verifyScheduledRun_def verifyExistingOwnedRun_def by (intro emits_rules) (simp add: quiet_moves_on)
  then show ?thesis
    unfolding create_slot_run_def Let_def
    by (intro emits_rules status_moves_on recover_moves_on assms)
       (use assms in \<open>auto simp: patches_move_on_def intro!: count_moves_on recover_moves_on\<close>)
qed

lemma base_moves_on:
  assumes "u \<in> slots" "t < u"
  shows "moves_on slots ag t ((scheduledBaseStatus ag runs)\<lparr>as_observed_generation := m_generation (ag_meta ag),
    as_next_schedule_time := Some u\<rparr>)"
  using assms by (auto simp: moves_on_def scheduledBaseStatus_count)

lemma handle_due_moves_on:
  assumes "u \<in> slots" "t < u"
  shows "emits (handle_due L K S reader ag policy runs ((scheduledBaseStatus ag runs)\<lparr>as_observed_generation :=
    m_generation (ag_meta ag)\<rparr>) t due u) (patches_move_on slots ag t)"
  unfolding handle_due_def Let_def
  by (intro emits_rules status_moves_on create_slot_run_moves_on recover_moves_on base_moves_on assms)

lemma scheduled_decision_moves_on:
  assumes "cron_next slots (pol_next policy)"
    and "\<And>f. as_observed_generation (ag_status ag) = m_generation (ag_meta ag) \<Longrightarrow>
      as_next_schedule_time (ag_status ag) = Some f \<Longrightarrow> f \<in> slots"
  shows "emits (scheduled_decision L K S reader ag policy t runs) (patches_move_on slots ag t)"
    and "returns (scheduled_decision L K S reader ag policy t runs) (\<lambda>res _. res \<noteq> None)"
proof -
  have nxt: "pol_next policy t \<in> slots" "t < pol_next policy t" using assms(1) by (auto simp: cron_next_def)
  have due: "u \<in> slots \<and> t < u" if "LatestDue (pol_next policy) f t = Some (d, u)"
    "(if as_observed_generation (ag_status ag) \<noteq> m_generation (ag_meta ag) then None else as_next_schedule_time (ag_status ag)) = Some f" for f d u
    using LatestDue_returns [OF assms(1), of f t] assms(2) that by (auto split: if_splits)
  show "emits (scheduled_decision L K S reader ag policy t runs) (patches_move_on slots ag t)"
    unfolding scheduled_decision_def Let_def
    by (intro emits_rules status_moves_on base_moves_on nxt handle_due_moves_on) (use due in auto)
  have some: "LatestDue (pol_next policy) f t \<noteq> None"
    if "(if as_observed_generation (ag_status ag) \<noteq> m_generation (ag_meta ag) then None else as_next_schedule_time (ag_status ag)) = Some f" for f
    using LatestDue_returns [OF assms(1), of f t] assms(2) that by (auto split: if_splits)
  show "returns (scheduled_decision L K S reader ag policy t runs) (\<lambda>res _. res \<noteq> None)"
    unfolding scheduled_decision_def Let_def
    by (intro returns_rules returns_bind [OF returns_any]) (use some in auto)
qed

lemma reconcileScheduled_moves_on:
  assumes "schedule_Parse L C (sp_schedule (ag_spec ag)) = Inr policy" "cron_next slots (pol_next policy)"
    and "\<And>f. as_observed_generation (ag_status ag) = m_generation (ag_meta ag) \<Longrightarrow>
      as_next_schedule_time (ag_status ag) = Some f \<Longrightarrow> f \<in> slots"
  shows "holds (reconcileScheduled L K C S reader ag) (\<lambda>r t. r \<noteq> Inr None \<and>
    (\<exists>t0. ReadClock t0 = hd t \<and> (\<forall>e \<in> set t. patches_move_on slots ag t0 e)))"
  unfolding reconcileScheduled_def assms(1) sum.case now_def
proof (rule holds_bind, rule holds_call, simp only: sum.case, goal_cases)
  case (1 t0)
  note rules = scheduled_decision_moves_on [OF assms(2,3)]
  let ?m = "io_bind (observeScheduledRuns S ag) (\<lambda>runs. io_bind (pruneScheduledHistory K S policy runs) (scheduled_decision L K S reader ag policy t0))"
  have "emits ?m (patches_move_on slots ag t0)"
    by (intro emits_bind rules emits_mono [OF observeScheduledRuns_reads] emits_mono [OF pruneScheduledHistory_emits])
       (auto intro!: quiet_moves_on)
  moreover have "returns ?m (\<lambda>res _. res \<noteq> None)"
    by (intro returns_bind [OF returns_any] rules)
  ultimately have "holds ?m (\<lambda>r t. (\<forall>e \<in> set t. patches_move_on slots ag t0 e) \<and> (\<forall>x. r = Inr x \<longrightarrow> x \<noteq> None))"
    unfolding emits_def returns_def by (rule holds_conj)
  then show ?case
    by (rule holds_mono) (auto simp: quiet_moves_on)
qed

text \<open>
  C6. The schedule always moves on, and the state that guarantees it is kept: for a valid schedule whose \<^verbatim>\<open>Next\<close> is
  the first slot after a time, and a status whose next slot (if it belongs to the current generation) is a
  slot, a reconcile returns, and every status it writes again has a next slot, later than the clock reading
  the reconcile started with, for the current generation; the run counter never decreases.  So no slot is handled
  again once its status has been written.
\<close>

theorem reconcileScheduled_schedule_invariant:
  assumes "schedule_Parse L C (sp_schedule (ag_spec ag)) = Inr policy" "cron_next slots (pol_next policy)"
    and "\<forall>f. as_observed_generation (ag_status ag) = m_generation (ag_meta ag) \<longrightarrow>
      as_next_schedule_time (ag_status ag) = Some f \<longrightarrow> f \<in> slots"
    and "reconcileScheduled L K C S reader ag s = (r, t, s')"
  shows "r \<noteq> Inr None \<and> (\<exists>t0. ReadClock t0 = hd t \<and>
    (\<forall>a st x. PatchedAgent a st x \<in> set t \<longrightarrow> (\<exists>next \<in> slots. as_next_schedule_time st = Some next \<and> t0 < next) \<and>
       as_observed_generation st = m_generation (ag_meta ag) \<and> as_runs_created (ag_status ag) \<le> as_runs_created st))"
proof -
  from assms(3) have inv: "\<And>f. as_observed_generation (ag_status ag) = m_generation (ag_meta ag) \<Longrightarrow>
      as_next_schedule_time (ag_status ag) = Some f \<Longrightarrow> f \<in> slots" by blast
  from holdsD [OF reconcileScheduled_moves_on [OF assms(1,2) inv] assms(4)] obtain t0 where
    t0: "r \<noteq> Inr None" "ReadClock t0 = hd t" "\<forall>e \<in> set t. patches_move_on slots ag t0 e" by blast
  have "moves_on slots ag t0 st" if "PatchedAgent a st x \<in> set t" for a st x
    using t0(3) that unfolding patches_move_on_def by blast
  with t0(1,2) show ?thesis unfolding moves_on_def by blast
qed

subsection \<open>The dispatch\<close>

text \<open>What each mode may write.\<close>

definition mode_write :: "kube_lib \<Rightarrow> agent \<Rightarrow> event \<Rightarrow> bool" where
  "mode_write K ag e \<longleftrightarrow>
     (is_write e \<longrightarrow> (\<exists>a st x. e = PatchedAgent a st x) \<or>
        (\<exists>run x. e = CreatedRun run x \<and> sp_mode (ag_spec ag) \<in> {AgentModeService, AgentModeScheduled} \<and>
           is_controlled_by K (ar_meta run) (ag_meta ag)) \<or>
        (\<exists>run x. e = DeletedRun run x \<and> sp_mode (ag_spec ag) = AgentModeScheduled \<and> is_terminal (run_phase run)))"

lemma setAgentStatus_mode: "emits (setAgentStatus S K' ag next cs) (mode_write K ag')"
  by (rule emits_mono [OF setAgentStatus_emits]) (auto simp: mode_write_def)

lemma verify_mode: "emits (verifyExistingOwnedRun K' S reader ag n acc) (mode_write K ag')"
  unfolding verifyExistingOwnedRun_def by (intro emits_rules) (simp add: mode_write_def)

lemma Task_mode: "emits (reconcileTask L K' S ag) (mode_write K ag')"
  unfolding reconcileTask_def task_report_def ownedRuns_def
  by (intro emits_rules setAgentStatus_mode) (simp add: mode_write_def)

lemma Service_mode:
  assumes "kube_contract K" "sp_mode (ag_spec ag) = AgentModeService"
  shows "emits (reconcileService L K S reader ag) (mode_write K ag)"
proof -
  have created: "mode_write K ag (CreatedRun run x)" if "NewForAgent L K ag n g = Inr run" for n g run x
    using NewForAgent_Inr [OF assms(1) that] assms(2) by (simp add: mode_write_def)
  show ?thesis
    unfolding reconcileService_def observeServiceRuns_def ownedRuns_def service_decision_def mint_service_run_def
      handleServiceRunAlreadyExists_def
    by (intro emits_rules setAgentStatus_mode verify_mode created) (simp_all add: mode_write_def)
qed

lemma Scheduled_mode:
  assumes "kube_contract K" "sp_mode (ag_spec ag) = AgentModeScheduled"
  shows "emits (reconcileScheduled L K C S reader ag) (mode_write K ag)"
proof -
  have created: "mode_write K ag (CreatedRun (run\<lparr>ar_meta := SetMetadata (ar_meta run) due n\<rparr>) x)"
    if "NewForAgent L K ag (RunName L (agent_name ag) due) (sp_goal (ag_spec ag)) = Inr run" for run due n x
    using NewForAgent_slot_run [OF assms(1) that, of n] assms(2) by (simp add: mode_write_def slot_run_def)
  have cut: "is_terminal (run_phase d)" if "d \<in> set (cut_off policy g items)" for d policy g items
    using that by (auto simp: cut_off_def history_group_def dest!: in_set_dropD split: if_splits)
  have prune: "emits (pruneScheduledHistory K S policy runs) (mode_write K ag)" for policy runs
    by (rule emits_mono [OF pruneScheduledHistory_emits]) (use cut assms(2) in \<open>auto simp: mode_write_def\<close>)
  show ?thesis
    unfolding reconcileScheduled_def observeScheduledRuns_def ownedRuns_def scheduled_decision_def handle_due_def create_slot_run_def
      verifyScheduledRun_def setScheduledWaitingStatus_def setScheduledCreatedStatus_def Let_def
    by (intro emits_rules setAgentStatus_mode verify_mode created prune) (simp_all add: mode_write_def)
qed

text \<open>
  What the Agent reconciler writes depends on the mode alone, whatever the API server answers: it patches
  Agent statuses, creates only AgentRuns controlled by the Agent and only in Service and Scheduled mode, at most
  one per reconcile, and deletes only AgentRuns that have ended and only in Scheduled mode.  It never touches a
  Pod or a Secret.
\<close>

theorem agent_Reconcile_writes:
  assumes "kube_contract K" "agent_Reconcile L K C S reader ns n s = (r, t, s')" "GotAgent False ns n (Inr ag) = hd t"
  shows "(\<forall>e \<in> set t. mode_write K ag e) \<and> length (filter is_creation t) \<le> 1"
proof -
  have one: "creates_only P u \<Longrightarrow> length (filter is_creation u) \<le> 1" for P u by (auto simp: creates_only_def)
  have none: "emits m (\<lambda>e. \<not> is_creation e) \<Longrightarrow> holds m (\<lambda>_ u. length (filter is_creation u) \<le> 1)" for m :: "('s, 'b) io"
    by (erule holds_emits) (auto simp: filter_empty_conv)
  have lift: "holds m (\<lambda>_ u. Q u) \<Longrightarrow> holds (io_bind m (\<lambda>res. io_return (Some res))) (\<lambda>_ u. Q u)" for m :: "('s, 'b) io" and Q
    by (rule holds_bind, erule holds_mono) (auto intro!: holds_return split: sum.splits)
  have service: "holds (reconcileService L K S reader a) (\<lambda>_ u. length (filter is_creation u) \<le> 1)" for a
    by (rule holds_mono [OF reconcileService_mint_trace [OF assms(1)]]) (auto simp: mint_trace_def)
  have scheduled: "holds (reconcileScheduled L K C S reader a) (\<lambda>_ u. length (filter is_creation u) \<le> 1)" for a
    by (rule holds_mono [OF reconcileScheduled_fire_trace [OF assms(1)]]) (rule one)
  have "holds (agent_Reconcile L K C S reader ns n) (\<lambda>_ u. \<forall>a. GotAgent False ns n (Inr a) = hd u \<longrightarrow>
      (\<forall>e \<in> set u. mode_write K a e) \<and> length (filter is_creation u) \<le> 1)"
    unfolding agent_Reconcile_def Get_agent_def
  proof (rule holds_bind, rule holds_call, simp only: sum.case, intro holds_sum, goal_cases)
    case (2 got a)
    have m: "mode_write K a (GotAgent False ns n got)" by (simp add: mode_write_def)
    let ?rest = "let mode = sp_mode (ag_spec a) in
            if mode = AgentModeService then io_bind (reconcileService L K S reader a) (\<lambda>res. io_return (Some res))
            else if mode = AgentModeScheduled then reconcileScheduled L K C S reader a
            else if mode = AgentModeTask then io_bind (reconcileTask L K S a) (\<lambda>res. io_return (Some res))
            else io_bind (setAgentStatus S K a (ag_status a) (InvalidMode L mode)) (\<lambda>_. io_return (Some Done))"
    have "emits ?rest (mode_write K a)"
      by (intro emits_rules Service_mode Scheduled_mode Task_mode setAgentStatus_mode assms(1)) auto
    moreover have "holds ?rest (\<lambda>_ u. length (filter is_creation u) \<le> 1)"
      by (intro holds_let holds_if lift service scheduled none emits_rules status_quiet emits_mono [OF reconcileTask_emits]) auto
    ultimately have "holds ?rest (\<lambda>_ u. (\<forall>e \<in> set u. mode_write K a e) \<and> length (filter is_creation u) \<le> 1)"
      unfolding emits_def by (rule holds_conj)
    then show ?case by (rule holds_mono) (use 2 m in auto)
  qed (auto intro!: io_rules)
  from holdsD [OF this assms(2)] assms(3) show ?thesis by blast
qed

subsection \<open>Examples\<close>

definition scheduled_agent :: agent where
  "scheduled_agent = (sample_agent AgentModeScheduled)\<lparr>ag_spec := (sample_agent_spec AgentModeScheduled)\<lparr>sp_schedule := Some (sample_schedule (Some 60))\<rparr>,
     ag_status := empty_agent_status\<lparr>as_observed_generation := 1, as_next_schedule_time := Some (960 * second)\<rparr>\<rparr>"

definition every_minute_policy :: policy where
  "every_minute_policy = \<lparr>pol_next = (\<lambda>t. (t div minute + 1) * minute), pol_concurrency = ConcurrencyPolicyForbid,
     pol_starting_deadline = 60 * second, pol_suspend = False, pol_successful_limit = 3, pol_failed_limit = 0\<rparr>"

definition slot_child :: "string \<Rightarrow> agent_run" where
  "slot_child phase = sample_run\<lparr>ar_meta := SetMetadata (sample_meta ''docs-960'' ''uid-960'') (960 * second) 1,
     ar_status := empty_run_status\<lparr>rs_phase := phase\<rparr>\<rparr>"

definition slot_server :: "agent_run list \<Rightarrow> unit server" where
  "slot_server runs = quiet_server\<lparr>sv_list_runs := (\<lambda>_ _ s. (Inr runs, s))\<rparr>"

lemma scheduled_agent_policy:
  "schedule_Parse zero_digest every_minute (sp_schedule (ag_spec scheduled_agent)) = Inr every_minute_policy"
  using sample_schedule_parse [of 60]
  by (simp add: scheduled_agent_def every_minute_policy_def seconds_duration_def int64_ok_def)

lemma scheduled_agent_due: "LatestDue (pol_next every_minute_policy) (960 * second) (1000 * second) = Some (960 * second, 1020 * second)"
  by (simp add: LatestDue_def every_minute_policy_def) (subst latest_due_loop.simps, simp)

lemma slot_child_slot: "Slot (ar_meta (slot_child phase)) = Some (960 * second)"
proof -
  have "Slot (SetMetadata (sample_meta ''docs-960'' ''uid-960'') (960 * second) 1) = Some (960 * second)" by code_simp
  then show ?thesis by (simp add: slot_child_def)
qed

lemma slot_server_reconcile:
  assumes "pruneScheduledHistory doc_kube (slot_server runs) every_minute_policy (summarizeScheduledRuns runs) () = (Inr ob, u, ())"
    "map_of (os_by_slot ob) (format_rfc3339 (960 * second)) = None" "\<not> os_has_active ob" "os_max_count ob < maxRunSuffix"
  shows "\<exists>r t run. reconcileScheduled zero_digest doc_kube every_minute (slot_server runs) True scheduled_agent () = (r, t, ()) \<and>
     CreatedRun run None \<in> set t \<and> set u \<subseteq> set t"
proof -
  have run: "\<exists>run. NewForAgent zero_digest doc_kube scheduled_agent n g = Inr run" for n g
    using NewForAgent_exists [OF doc.kube_contract_axioms] .
  have n: "as_runs_created (scheduledBaseStatus scheduled_agent ob) \<noteq> maxRunSuffix"
    using assms(4) by (simp add: scheduledBaseStatus_count scheduled_agent_def empty_agent_status_def)
  have "\<exists>r t run. handle_due zero_digest doc_kube (slot_server runs) True scheduled_agent every_minute_policy ob
      ((scheduledBaseStatus scheduled_agent ob)\<lparr>as_observed_generation := m_generation (ag_meta scheduled_agent)\<rparr>)
      (1000 * second) (960 * second) (1020 * second) () = (Inr r, t, ()) \<and> CreatedRun run None \<in> set t"
    using run [of "RunName zero_digest (agent_name scheduled_agent) (960 * second)" "sp_goal (ag_spec scheduled_agent)"] n assms(2,3)
    by (auto simp: handle_due_def create_slot_run_def Let_def Create_run_def io_bind_def io_call_def io_return_def
        setScheduledCreatedStatus_def setAgentStatus_def patch_agent_status_def api_result_def now_def slot_server_def quiet_server_def
        time_sub_def clamp64_def every_minute_policy_def)
  then obtain r t run where d: "handle_due zero_digest doc_kube (slot_server runs) True scheduled_agent every_minute_policy ob
      ((scheduledBaseStatus scheduled_agent ob)\<lparr>as_observed_generation := m_generation (ag_meta scheduled_agent)\<rparr>)
      (1000 * second) (960 * second) (1020 * second) () = (Inr r, t, ())" "CreatedRun run None \<in> set t" by blast
  have dec: "scheduled_decision zero_digest doc_kube (slot_server runs) True scheduled_agent every_minute_policy (1000 * second) ob () =
      (Inr (Some r), t, ())"
  proof -
    have "as_observed_generation (ag_status scheduled_agent) = m_generation (ag_meta scheduled_agent)"
      "as_next_schedule_time (ag_status scheduled_agent) = Some (960 * second)" "\<not> pol_suspend every_minute_policy"
      by (simp_all add: scheduled_agent_def sample_defs every_minute_policy_def)
    then show ?thesis
      using d(1) scheduled_agent_due by (simp add: scheduled_decision_def Let_def io_bind_def io_return_def)
  qed
  have obs: "observeScheduledRuns (slot_server runs) scheduled_agent () =
      (Inr (summarizeScheduledRuns runs), [ListedRuns ''default'' ''uid-agent'' (Inr runs)], ())"
    by (simp add: observeScheduledRuns_def ownedRuns_def List_runs_def io_bind_def io_call_def io_return_def api_result_def
        slot_server_def scheduled_agent_def sample_defs)
  have clock: "now (slot_server runs) () = (Inr (1000 * second), [ReadClock (1000 * second)], ())"
    by (simp add: now_def io_call_def slot_server_def quiet_server_def)
  have "reconcileScheduled zero_digest doc_kube every_minute (slot_server runs) True scheduled_agent () =
      (Inr (Some r), ReadClock (1000 * second) # ListedRuns ''default'' ''uid-agent'' (Inr runs) # u @ t, ())"
    using dec by (simp add: reconcileScheduled_def io_bind_def clock obs scheduled_agent_policy assms(1))
  then show ?thesis using d(2) by fastforce
qed

lemma idle_prune:
  "pruneScheduledHistory doc_kube (slot_server []) every_minute_policy (summarizeScheduledRuns []) () = (Inr (summarizeScheduledRuns []), [], ())"
  by (simp add: pruneScheduledHistory_def pruneScheduledGroup_def summarizeScheduledRuns_def sort_Slice_def Let_def io_bind_def io_return_def)

lemma idle_reconcile:
  "\<exists>r t run. reconcileScheduled zero_digest doc_kube every_minute (slot_server []) True scheduled_agent () = (r, t, ()) \<and>
     CreatedRun run None \<in> set t"
  using slot_server_reconcile [OF idle_prune] by (auto simp: summarizeScheduledRuns_def sort_Slice_def)

theorem reconcileScheduled_creates_due_slot_witness:
  "\<exists>r t run. reconcileScheduled zero_digest doc_kube every_minute (slot_server []) True scheduled_agent () = (r, t, ()) \<and>
     filter is_creation t = [CreatedRun run None]"
proof -
  from idle_reconcile obtain r t run where
    run: "reconcileScheduled zero_digest doc_kube every_minute (slot_server []) True scheduled_agent () = (r, t, ())"
    "CreatedRun run None \<in> set t" by blast
  from reconcileScheduled_creates_due_slot [OF doc.kube_contract_axioms run] run(1) show ?thesis by blast
qed

theorem reconcileScheduled_schedule_invariant_witness:
  "\<exists>r t s'. reconcileScheduled zero_digest doc_kube every_minute (slot_server []) True scheduled_agent () = (r, t, s') \<and> r \<noteq> Inr None"
proof -
  obtain r t s' where run: "reconcileScheduled zero_digest doc_kube every_minute (slot_server []) True scheduled_agent () = (r, t, s')"
    by (cases "reconcileScheduled zero_digest doc_kube every_minute (slot_server []) True scheduled_agent ()")
  have cron: "cron_next {t. t mod minute = 0} (pol_next every_minute_policy)"
    using minute_schedule by (simp add: every_minute_policy_def)
  have "\<forall>f. as_observed_generation (ag_status scheduled_agent) = m_generation (ag_meta scheduled_agent) \<longrightarrow>
      as_next_schedule_time (ag_status scheduled_agent) = Some f \<longrightarrow> f \<in> {t. t mod minute = 0}"
    by (simp add: scheduled_agent_def)
  from reconcileScheduled_schedule_invariant [OF scheduled_agent_policy cron this run] run show ?thesis by blast
qed

theorem agent_Reconcile_writes_witness:
  "\<exists>r t. agent_Reconcile zero_digest doc_kube every_minute ((slot_server [])\<lparr>sv_get_agent := (\<lambda>_ _ _ s. (Inr scheduled_agent, s))\<rparr>)
     True ''default'' ''docs'' () = (r, t, ()) \<and> length (filter is_creation t) \<le> 1"
proof -
  let ?S = "(slot_server [])\<lparr>sv_get_agent := (\<lambda>_ _ _ s. (Inr scheduled_agent, s))\<rparr>"
  obtain r t s' where run: "agent_Reconcile zero_digest doc_kube every_minute ?S True ''default'' ''docs'' () = (r, t, s')"
    by (cases "agent_Reconcile zero_digest doc_kube every_minute ?S True ''default'' ''docs'' ()")
  then have "GotAgent False ''default'' ''docs'' (Inr scheduled_agent) = hd t"
    by (auto simp: agent_Reconcile_def io_bind_def Get_agent_def io_call_def Let_def split: prod.splits if_splits)
  from agent_Reconcile_writes [OF doc.kube_contract_axioms run this] run show ?thesis by auto
qed

text \<open>
  With a history limit of zero, a run that ended before the status of its slot was written is pruned by the next
  reconcile, which then does not find it and creates the run of the same slot again.
\<close>

lemma failed_child_prune:
  "\<exists>ob. pruneScheduledHistory doc_kube (slot_server [slot_child AgentRunPhaseFailed]) every_minute_policy
     (summarizeScheduledRuns [slot_child AgentRunPhaseFailed]) () = (Inr ob, [DeletedRun (slot_child AgentRunPhaseFailed) None], ()) \<and>
   map_of (os_by_slot ob) (format_rfc3339 (960 * second)) = None \<and> \<not> os_has_active ob \<and> os_max_count ob < maxRunSuffix"
proof -
  let ?c = "slot_child AgentRunPhaseFailed"
  have items: "os_items (summarizeScheduledRuns [?c]) = [?c]" by (simp add: summarizeScheduledRuns_def sort_Slice_def Let_def)
  have "history_group ?c = Some False" by (simp add: history_group_def slot_child_def)
  then have cut: "cut_off every_minute_policy True [?c] = []" "cut_off every_minute_policy False [?c] = [?c]"
    by (simp_all add: cut_off_def history_limit_def every_minute_policy_def sort_Slice_def)
  have "parse_int 32 (show_int 1) = Some 1" by (intro parse_int_show_int) auto
  then have "Sequence (ar_meta ?c) = Some 1"
    by (simp add: slot_child_def SetMetadata_def Sequence_def annotation_def)
  then have "os_max_count (summarizeScheduledRuns [?c]) = 1"
    by (simp add: summarizeScheduledRuns_def sort_Slice_def Let_def scan_run_count)
  then show ?thesis
    by (simp add: pruneScheduledHistory_cut items cut Delete_run_def io_bind_def io_call_def io_return_def slot_server_def
        quiet_server_def Let_def summarizeScheduledRuns_def [of "[]"] sort_Slice_def)
qed

theorem pruneScheduledHistory_keeps_newest_witness:
  "\<exists>r t s'. pruneScheduledHistory doc_kube (slot_server [slot_child AgentRunPhaseFailed]) every_minute_policy
     (summarizeScheduledRuns [slot_child AgentRunPhaseFailed]) () = (r, t, s') \<and>
   DeletedRun (slot_child AgentRunPhaseFailed) None \<in> set t \<and>
   beyond_limit every_minute_policy (os_items (summarizeScheduledRuns [slot_child AgentRunPhaseFailed])) (slot_child AgentRunPhaseFailed)"
proof -
  let ?c = "slot_child AgentRunPhaseFailed"
  obtain ob where run: "pruneScheduledHistory doc_kube (slot_server [?c]) every_minute_policy
      (summarizeScheduledRuns [?c]) () = (Inr ob, [DeletedRun ?c None], ())"
    using failed_child_prune by blast
  have "distinct (map run_name (os_items (summarizeScheduledRuns [?c])))"
    "0 \<le> pol_successful_limit every_minute_policy" "0 \<le> pol_failed_limit every_minute_policy"
    by (simp_all add: summarizeScheduledRuns_def sort_Slice_def Let_def every_minute_policy_def)
  from pruneScheduledHistory_keeps_newest [OF run this] run show ?thesis by auto
qed

theorem scheduled_slot_runs_twice:
  "\<exists>r t run. reconcileScheduled zero_digest doc_kube every_minute (slot_server [slot_child AgentRunPhaseFailed]) True scheduled_agent () =
     (r, t, ()) \<and> DeletedRun (slot_child AgentRunPhaseFailed) None \<in> set t \<and> CreatedRun run None \<in> set t \<and>
     Slot (ar_meta (slot_child AgentRunPhaseFailed)) = Some (960 * second)"
proof -
  obtain ob where ob: "pruneScheduledHistory doc_kube (slot_server [slot_child AgentRunPhaseFailed]) every_minute_policy
     (summarizeScheduledRuns [slot_child AgentRunPhaseFailed]) () = (Inr ob, [DeletedRun (slot_child AgentRunPhaseFailed) None], ())"
    "map_of (os_by_slot ob) (format_rfc3339 (960 * second)) = None" "\<not> os_has_active ob" "os_max_count ob < maxRunSuffix"
    using failed_child_prune by blast
  from slot_server_reconcile [OF this] obtain r t run where
    "reconcileScheduled zero_digest doc_kube every_minute (slot_server [slot_child AgentRunPhaseFailed]) True scheduled_agent () = (r, t, ())"
    "CreatedRun run None \<in> set t" "set [DeletedRun (slot_child AgentRunPhaseFailed) None] \<subseteq> set t" by blast
  then show ?thesis using slot_child_slot by (metis list.set_intros(1) subsetD)
qed

end
