(* ===== verification/Runtime_Config.thy ===== *)
theory Runtime_Config
  imports Run_Factory Go_Json
begin

text \<open>
  The configuration of the reference runtime: \<^verbatim>\<open>runtimes/reference/internal/config/config.go\<close> reads the
  environment the operator gave the container, \<^verbatim>\<open>mcp.go\<close> the declaration of MCP servers. Parsing of durations,
  floating-point numbers and URLs, the file system and the JSON decoder are the parameter \<open>config_lib\<close>. A nil map
  reads as the empty one, so both are the empty association list; where the source ranges over a map and stops at
  the first error, the model follows the order of the list.
\<close>

datatype go_float = Finite rat | PosInf | NegInf | NaN

record go_url =
  url_scheme :: string
  url_host :: string
  url_has_user :: bool
  url_raw_query :: string
  url_fragment :: string

record mcp_server =
  ms_name :: string
  ms_transport :: string
  ms_command :: string
  ms_args :: "string list"
  ms_env :: "string go_map"
  ms_env_from :: "string go_map"
  ms_endpoint :: string
  ms_headers :: "string go_map"
  ms_headers_from_env :: "string go_map"
  ms_timeout :: duration
  ms_max_retries :: "int option"
  ms_sensitive_values :: "string list"
  ms_timeout_value :: string

type_synonym mcp_config = "mcp_server list"

record config_lib =
  cl_go :: golib
  cl_durations :: duration_lib
  cl_parse_float :: "string \<Rightarrow> go_float go_result"
  cl_parse_url :: "string \<Rightarrow> go_url go_result"
  cl_read_file :: "string \<Rightarrow> string go_result"
  cl_decode_mcp :: "string \<Rightarrow> (mcp_config \<times> trailing) go_result"

type_synonym getenv = "string \<Rightarrow> string"

subsection \<open>MCP servers\<close>

definition reservedMCPHTTPHeaders :: "string list" where
  "reservedMCPHTTPHeaders =
     [''accept'', ''connection'', ''content-length'', ''content-type'', ''host'', ''keep-alive'', ''last-event-id'',
      ''mcp-method'', ''mcp-name'', ''mcp-protocol-version'', ''mcp-session-id'', ''proxy-authenticate'',
      ''proxy-authorization'', ''proxy-connection'', ''te'', ''trailer'', ''transfer-encoding'', ''upgrade'']"

text \<open>\<^verbatim>\<open>^[A-Za-z_][A-Za-z0-9_]*$\<close> is the grammar of template parameter names.\<close>

abbreviation mcp_environment_name :: "string \<Rightarrow> bool" where
  "mcp_environment_name \<equiv> validParameterName"

abbreviation NUL :: char where "NUL \<equiv> CHR 0x00"

definition containsNewline :: "string \<Rightarrow> bool" where
  "containsNewline s \<longleftrightarrow> CHR 0x0D \<in> set s \<or> CHR 0x0A \<in> set s"

definition header_name_char :: "char \<Rightarrow> bool" where
  "header_name_char c \<longleftrightarrow> c \<in> set ''!#$%&*+-.^_|~'' \<or> c = CHR 0x27 \<or> c = CHR 0x60 \<or>
     \<not> (c < CHR ''0'' \<or> c > CHR ''9'') \<or> \<not> (c < CHR ''A'' \<or> c > CHR ''Z'') \<or> \<not> (c < CHR ''a'' \<or> c > CHR ''z'')"

definition validHTTPHeaderName :: "string \<Rightarrow> bool" where
  "validHTTPHeaderName s \<longleftrightarrow> s \<noteq> [] \<and> list_all header_name_char s"

definition appendSensitiveValue :: "string list \<Rightarrow> string \<Rightarrow> string list" where
  "appendSensitiveValue values v = (if v = [] \<or> v \<in> set values then values else values @ [v])"

definition mcp_error :: "golib \<Rightarrow> string \<Rightarrow> string \<Rightarrow> string" where
  "mcp_error L name rest = ''MCP server '' @ quote L name @ '': '' @ rest"

fun check_args :: "golib \<Rightarrow> string \<Rightarrow> string list \<Rightarrow> string option" where
  "check_args L name [] = None"
| "check_args L name (a # as) =
     (if NUL \<in> set a then Some (mcp_error L name ''stdio arguments must not contain NUL bytes'')
      else check_args L name as)"

fun check_env :: "golib \<Rightarrow> string \<Rightarrow> string go_map \<Rightarrow> string option" where
  "check_env L name [] = None"
| "check_env L name ((child, v) # rest) =
     (if \<not> mcp_environment_name child then
        Some (mcp_error L name (''child environment name '' @ quote L child @ '' is invalid''))
      else if NUL \<in> set v then
        Some (mcp_error L name (''child environment value for '' @ quote L child @ '' contains a NUL byte''))
      else check_env L name rest)"

fun add_env_from :: "golib \<Rightarrow> getenv \<Rightarrow> string go_map \<Rightarrow> mcp_server \<Rightarrow> mcp_server go_result" where
  "add_env_from L getenv [] server = Inr server"
| "add_env_from L getenv ((child, parent) # rest) server =
     (if \<not> mcp_environment_name child then
        Inl (mcp_error L (ms_name server) (''child environment name '' @ quote L child @ '' is invalid''))
      else if map_of (ms_env server) child \<noteq> None then
        Inl (mcp_error L (ms_name server) (''child environment name '' @ quote L child @ '' is configured by both env and envFrom''))
      else if \<not> mcp_environment_name parent then
        Inl (mcp_error L (ms_name server) (''parent environment name '' @ quote L parent @ '' is invalid''))
      else if getenv parent = [] then
        Inl (mcp_error L (ms_name server) (''referenced environment variable '' @ quote L parent @ '' is missing''))
      else if NUL \<in> set (getenv parent) then
        Inl (mcp_error L (ms_name server) (''referenced environment variable '' @ quote L parent @ '' contains a NUL byte''))
      else add_env_from L getenv rest
             (server\<lparr>ms_env := map_put child (getenv parent) (ms_env server),
                     ms_sensitive_values := appendSensitiveValue (ms_sensitive_values server) (getenv parent)\<rparr>))"

definition validateStdioServer :: "golib \<Rightarrow> getenv \<Rightarrow> mcp_server \<Rightarrow> mcp_server go_result" where
  "validateStdioServer L getenv server =
     (if \<not> has_prefix (ms_command server) ''/'' \<or> NUL \<in> set (ms_command server) then
        Inl (mcp_error L (ms_name server) ''stdio command must be an absolute path without NUL bytes'')
      else if ms_endpoint server \<noteq> [] \<or> ms_headers server \<noteq> [] \<or> ms_headers_from_env server \<noteq> [] then
        Inl (mcp_error L (ms_name server) ''HTTP fields are not valid for stdio transport'')
      else if ms_max_retries server \<noteq> None then
        Inl (mcp_error L (ms_name server) ''maxRetries is only valid for HTTP transport'')
      else case check_args L (ms_name server) (ms_args server) of
        Some e \<Rightarrow> Inl e
      | None \<Rightarrow>
          (case check_env L (ms_name server) (ms_env server) of
             Some e \<Rightarrow> Inl e
           | None \<Rightarrow> add_env_from L getenv (ms_env_from server) server))"

definition header_error :: "golib \<Rightarrow> string \<Rightarrow> string \<Rightarrow> string list \<Rightarrow> string option" where
  "header_error L name header seen =
     (if to_lower L header \<in> set reservedMCPHTTPHeaders then
        Some (mcp_error L name (''header '' @ quote L header @ '' is owned by HTTP or MCP and cannot be configured''))
      else if to_lower L header \<in> set seen then
        Some (mcp_error L name (''header '' @ quote L header @ '' is configured more than once''))
      else None)"

fun check_headers :: "golib \<Rightarrow> string \<Rightarrow> string go_map \<Rightarrow> string list \<Rightarrow> string list go_result" where
  "check_headers L name [] seen = Inr seen"
| "check_headers L name ((header, v) # rest) seen =
     (if \<not> validHTTPHeaderName header \<or> containsNewline v then
        Inl (mcp_error L name (''header '' @ quote L header @ '' has an invalid name or value''))
      else case header_error L name header seen of
        Some e \<Rightarrow> Inl e
      | None \<Rightarrow> check_headers L name rest (to_lower L header # seen))"

fun add_headers_from :: "golib \<Rightarrow> getenv \<Rightarrow> string go_map \<Rightarrow> string list \<Rightarrow> mcp_server \<Rightarrow> mcp_server go_result" where
  "add_headers_from L getenv [] seen server = Inr server"
| "add_headers_from L getenv ((header, parent) # rest) seen server =
     (if \<not> validHTTPHeaderName header then
        Inl (mcp_error L (ms_name server) (''header name '' @ quote L header @ '' is invalid''))
      else case header_error L (ms_name server) header seen of
        Some e \<Rightarrow> Inl e
      | None \<Rightarrow>
          if \<not> mcp_environment_name parent then
            Inl (mcp_error L (ms_name server) (''parent environment name '' @ quote L parent @ '' is invalid''))
          else if getenv parent = [] then
            Inl (mcp_error L (ms_name server) (''referenced environment variable '' @ quote L parent @ '' is missing''))
          else if containsNewline (getenv parent) then
            Inl (mcp_error L (ms_name server) (''referenced environment variable '' @ quote L parent @ '' contains a newline''))
          else add_headers_from L getenv rest (to_lower L header # seen)
                 (server\<lparr>ms_headers := map_put header (getenv parent) (ms_headers server),
                         ms_sensitive_values := appendSensitiveValue (ms_sensitive_values server) (getenv parent)\<rparr>))"

definition absolute_http :: "go_url \<Rightarrow> bool" where
  "absolute_http u \<longleftrightarrow> url_host u \<noteq> [] \<and> (url_scheme u = ''http'' \<or> url_scheme u = ''https'')"

definition validateHTTPServer :: "config_lib \<Rightarrow> getenv \<Rightarrow> mcp_server \<Rightarrow> mcp_server go_result" where
  "validateHTTPServer C getenv server =
     (let L = cl_go C; err = (\<lambda>rest. Inl (mcp_error L (ms_name server) rest)) in
      if ms_command server \<noteq> [] \<or> ms_args server \<noteq> [] \<or> ms_env server \<noteq> [] \<or> ms_env_from server \<noteq> [] then
        err ''stdio fields are not valid for HTTP transport''
      else case cl_parse_url C (ms_endpoint server) of
        Inl _ \<Rightarrow> err ''endpoint must be an absolute HTTP(S) URL''
      | Inr u \<Rightarrow>
          if \<not> absolute_http u then err ''endpoint must be an absolute HTTP(S) URL''
          else if url_has_user u then err ''endpoint must not contain embedded credentials''
          else if url_raw_query u \<noteq> [] then err ''endpoint must not contain a query string''
          else if url_fragment u \<noteq> [] then err ''endpoint must not contain a fragment''
          else go_bind (check_headers L (ms_name server) (ms_headers server) [])
                 (\<lambda>seen. add_headers_from L getenv (ms_headers_from_env server) seen server))"

definition validate_timeout :: "config_lib \<Rightarrow> mcp_server \<Rightarrow> mcp_server go_result" where
  "validate_timeout C server =
     (if ms_timeout_value server = [] then Inr server
      else case parse_duration (cl_durations C) (ms_timeout_value server) of
        Inl _ \<Rightarrow> Inl (mcp_error (cl_go C) (ms_name server) ''timeout must be a non-negative Go duration'')
      | Inr timeout \<Rightarrow>
          if timeout < 0 then Inl (mcp_error (cl_go C) (ms_name server) ''timeout must be a non-negative Go duration'')
          else Inr (server\<lparr>ms_timeout := timeout\<rparr>))"

definition validate_transport :: "config_lib \<Rightarrow> getenv \<Rightarrow> mcp_server \<Rightarrow> mcp_server go_result" where
  "validate_transport C getenv server =
     (if (case ms_max_retries server of None \<Rightarrow> False | Some n \<Rightarrow> n < 0) then
        Inl (mcp_error (cl_go C) (ms_name server) ''maxRetries must be non-negative'')
      else if ms_transport server = ''stdio'' then validateStdioServer (cl_go C) getenv server
      else if ms_transport server = ''http'' then validateHTTPServer C getenv server
      else Inl (mcp_error (cl_go C) (ms_name server)
             (''transport must be '' @ [CHR 0x22] @ ''stdio'' @ [CHR 0x22] @ '' or '' @ [CHR 0x22] @ ''http'' @ [CHR 0x22])))"

fun validate_servers :: "config_lib \<Rightarrow> getenv \<Rightarrow> nat \<Rightarrow> string list \<Rightarrow> mcp_server list \<Rightarrow> mcp_server list go_result" where
  "validate_servers C getenv index seen [] = Inr []"
| "validate_servers C getenv index seen (server0 # rest) =
     (let server = server0\<lparr>ms_name := trim_space (ms_name server0)\<rparr> in
      if ms_name server = [] then Inl (''MCP server '' @ show_nat index @ '': name is required'')
      else if ms_name server \<in> set seen then
        Inl (''MCP server name '' @ quote (cl_go C) (ms_name server) @ '' is duplicated'')
      else go_bind (validate_timeout C server) (\<lambda>timed.
        go_bind (validate_transport C getenv timed) (\<lambda>valid.
        go_bind (validate_servers C getenv (index + 1) (ms_name server # seen) rest) (\<lambda>others. Inr (valid # others)))))"

definition validateMCPConfig :: "config_lib \<Rightarrow> getenv \<Rightarrow> mcp_config \<Rightarrow> mcp_config go_result" where
  "validateMCPConfig C getenv servers = validate_servers C getenv 0 [] servers"

definition decode_mcp :: "config_lib \<Rightarrow> getenv \<Rightarrow> string \<Rightarrow> mcp_config go_result" where
  "decode_mcp C getenv data =
     (if trim_space data = [] then Inr []
      else case cl_decode_mcp C data of
        Inl e \<Rightarrow> Inl (''decode MCP configuration: '' @ e)
      | Inr (parsed, TrailingValue) \<Rightarrow> Inl ''decode MCP configuration: multiple JSON values are not allowed''
      | Inr (parsed, TrailingError e) \<Rightarrow> Inl (''decode MCP configuration: '' @ e)
      | Inr (parsed, EOF) \<Rightarrow> validateMCPConfig C getenv parsed)"

definition loadMCPConfig :: "config_lib \<Rightarrow> getenv \<Rightarrow> mcp_config go_result" where
  "loadMCPConfig C getenv =
     (let inline = trim_space (getenv ''KONTEXT_MCP_CONFIG'');
          filename = trim_space (getenv ''KONTEXT_MCP_CONFIG_FILE'')
      in if inline \<noteq> [] \<and> filename \<noteq> [] then
           Inl ''KONTEXT_MCP_CONFIG and KONTEXT_MCP_CONFIG_FILE are mutually exclusive''
         else if inline = [] \<and> filename = [] then Inr []
         else if filename \<noteq> [] then
           (case cl_read_file C filename of
              Inl e \<Rightarrow> Inl (''read KONTEXT_MCP_CONFIG_FILE: '' @ e)
            | Inr data \<Rightarrow> decode_mcp C getenv data)
         else decode_mcp C getenv inline)"

subsection \<open>The environment\<close>

abbreviation maxTurnsLimit :: int where "maxTurnsLimit \<equiv> 10000"
abbreviation maxToolCallsLimit :: int where "maxToolCallsLimit \<equiv> 100000"
abbreviation maxToolResultBytesLimit :: int where "maxToolResultBytesLimit \<equiv> 8388608"
abbreviation maxTotalToolOutputBytesLimit :: int where "maxTotalToolOutputBytesLimit \<equiv> 67108864"

record config =
  cf_run_name :: string
  cf_agent_name :: string
  cf_goal :: string
  cf_provider :: string
  cf_model :: string
  cf_tools :: "string list"
  cf_mcp :: mcp_config
  cf_token_budget :: "int option"
  cf_wallclock_budget :: "duration option"
  cf_dollar_budget :: "rat option"
  cf_max_turns :: "int option"
  cf_max_tool_calls :: "int option"
  cf_max_tool_result_bytes :: "int option"
  cf_max_total_tool_output_bytes :: "int option"
  cf_emit_tool_output :: bool
  cf_provider_endpoint :: string
  cf_provider_base_url :: string
  cf_anthropic_api_key :: string
  cf_openai_api_key :: string
  cf_fake_scenario :: string
  cf_fake_delay :: duration
  cf_fake_tool_name :: string
  cf_fake_tool_arguments :: string
  cf_fake_tool_sequence :: string

definition required :: "getenv \<Rightarrow> string \<Rightarrow> string go_result" where
  "required getenv name =
     (if trim_space (getenv name) = [] then Inl (name @ '' is required'') else Inr (trim_space (getenv name)))"

definition requiredOpaque :: "getenv \<Rightarrow> string \<Rightarrow> string go_result" where
  "requiredOpaque getenv name =
     (if trim_space (getenv name) = [] then Inl (name @ '' is required'') else Inr (getenv name))"

text \<open>\<^verbatim>\<open>strconv.ParseBool\<close>\<close>

definition parse_bool :: "string \<Rightarrow> bool option" where
  "parse_bool s =
     (if s \<in> set [''1'', ''t'', ''T'', ''true'', ''TRUE'', ''True''] then Some True
      else if s \<in> set [''0'', ''f'', ''F'', ''false'', ''FALSE'', ''False''] then Some False
      else None)"

definition optionalBool :: "string \<Rightarrow> string \<Rightarrow> bool go_result" where
  "optionalBool raw name =
     (let v = trim_space raw in
      if v = [] then Inr False
      else case parse_bool v of None \<Rightarrow> Inl (name @ '' must be true or false'') | Some b \<Rightarrow> Inr b)"

definition optionalPositiveInt64 :: "string \<Rightarrow> string \<Rightarrow> int option go_result" where
  "optionalPositiveInt64 raw name =
     (let v = trim_space raw in
      if v = [] then Inr None
      else case parse_int 64 v of
        None \<Rightarrow> Inl (name @ '' must be a non-negative integer'')
      | Some n \<Rightarrow>
          if n < 0 then Inl (name @ '' must be a non-negative integer'')
          else if n = 0 then Inr None else Inr (Some n))"

definition optionalLimitInt64 :: "string \<Rightarrow> string \<Rightarrow> int \<Rightarrow> int option go_result" where
  "optionalLimitInt64 raw name maximum =
     (let v = trim_space raw in
      if v = [] then Inr None
      else case parse_int 64 v of
        None \<Rightarrow> Inl (name @ '' must be a non-negative integer'')
      | Some n \<Rightarrow>
          if n < 0 then Inl (name @ '' must be a non-negative integer'')
          else if n = 0 then Inr None
          else if n > maximum then Inl (name @ '' must not exceed '' @ show_int maximum)
          else Inr (Some n))"

definition optionalPositiveDuration :: "duration_lib \<Rightarrow> string \<Rightarrow> string \<Rightarrow> duration option go_result" where
  "optionalPositiveDuration DL raw name =
     (let v = trim_space raw in
      if v = [] then Inr None
      else case parse_duration DL v of
        Inl _ \<Rightarrow> Inl (name @ '' must be a non-negative duration'')
      | Inr d \<Rightarrow>
          if d < 0 then Inl (name @ '' must be a non-negative duration'')
          else if d = 0 then Inr None else Inr (Some d))"

definition optionalNonNegativeFloat :: "config_lib \<Rightarrow> string \<Rightarrow> string \<Rightarrow> rat option go_result" where
  "optionalNonNegativeFloat C raw name =
     (let v = trim_space raw in
      if v = [] then Inr None
      else case cl_parse_float C v of
        Inr (Finite x) \<Rightarrow> if x < 0 then Inl (name @ '' must be a non-negative number'') else Inr (Some x)
      | _ \<Rightarrow> Inl (name @ '' must be a non-negative number''))"

definition optionalEndpoint :: "config_lib \<Rightarrow> string \<Rightarrow> string \<Rightarrow> string go_result" where
  "optionalEndpoint C raw name =
     (let v = trim_space raw in
      if v = [] then Inr []
      else case cl_parse_url C v of
        Inl _ \<Rightarrow> Inl (name @ '' must be an absolute HTTP(S) URL'')
      | Inr u \<Rightarrow>
          if \<not> absolute_http u then Inl (name @ '' must be an absolute HTTP(S) URL'')
          else if url_has_user u then Inl (name @ '' must not contain embedded credentials'')
          else Inr v)"

definition parseTools :: "string \<Rightarrow> string list" where
  "parseTools v = filter (\<lambda>t. t \<noteq> []) (map trim_space (split_at_char (CHR '','') v))"

definition default_name :: "string \<Rightarrow> string \<Rightarrow> string" where
  "default_name raw fallback = (if trim_space raw = [] then fallback else trim_space raw)"

text \<open>The steps of \<^verbatim>\<open>Load\<close>, in its order: what must be there, the budgets, the limits, the provider's address.\<close>

definition load_budgets :: "config_lib \<Rightarrow> getenv \<Rightarrow> (int option \<times> duration option \<times> rat option) go_result" where
  "load_budgets C getenv =
     go_bind (optionalPositiveInt64 (getenv ''KONTEXT_BUDGET_TOKENS'') ''KONTEXT_BUDGET_TOKENS'') (\<lambda>tokens.
     go_bind (optionalPositiveDuration (cl_durations C) (getenv ''KONTEXT_BUDGET_WALLCLOCK'') ''KONTEXT_BUDGET_WALLCLOCK'') (\<lambda>wallclock.
     go_bind (optionalNonNegativeFloat C (getenv ''KONTEXT_BUDGET_DOLLARS'') ''KONTEXT_BUDGET_DOLLARS'') (\<lambda>dollars.
     Inr (tokens, wallclock, dollars))))"

definition load_limits :: "getenv \<Rightarrow> (int option \<times> int option \<times> int option \<times> int option) go_result" where
  "load_limits getenv =
     go_bind (optionalLimitInt64 (getenv ''KONTEXT_MAX_TURNS'') ''KONTEXT_MAX_TURNS'' maxTurnsLimit) (\<lambda>turns.
     go_bind (optionalLimitInt64 (getenv ''KONTEXT_MAX_TOOL_CALLS'') ''KONTEXT_MAX_TOOL_CALLS'' maxToolCallsLimit) (\<lambda>calls.
     go_bind (optionalLimitInt64 (getenv ''KONTEXT_MAX_TOOL_RESULT_BYTES'') ''KONTEXT_MAX_TOOL_RESULT_BYTES'' maxToolResultBytesLimit) (\<lambda>result.
     go_bind (optionalLimitInt64 (getenv ''KONTEXT_MAX_TOTAL_TOOL_OUTPUT_BYTES'') ''KONTEXT_MAX_TOTAL_TOOL_OUTPUT_BYTES''
                maxTotalToolOutputBytesLimit) (\<lambda>total.
     Inr (turns, calls, result, total)))))"

definition load_endpoints :: "config_lib \<Rightarrow> getenv \<Rightarrow> (string \<times> string) go_result" where
  "load_endpoints C getenv =
     go_bind (optionalEndpoint C (getenv ''KONTEXT_PROVIDER_ENDPOINT'') ''KONTEXT_PROVIDER_ENDPOINT'') (\<lambda>endpoint.
     go_bind (optionalEndpoint C (getenv ''KONTEXT_PROVIDER_BASE_URL'') ''KONTEXT_PROVIDER_BASE_URL'') (\<lambda>baseURL.
     if endpoint \<noteq> [] \<and> baseURL \<noteq> [] then
       Inl ''KONTEXT_PROVIDER_ENDPOINT and KONTEXT_PROVIDER_BASE_URL are mutually exclusive''
     else Inr (endpoint, baseURL)))"

definition Load :: "config_lib \<Rightarrow> getenv \<Rightarrow> config go_result" where
  "Load C getenv =
     go_bind (required getenv ''KONTEXT_GOAL'') (\<lambda>goal.
     go_bind (required getenv ''KONTEXT_PROVIDER'') (\<lambda>provider.
     go_bind (requiredOpaque getenv ''KONTEXT_MODEL'') (\<lambda>model.
     go_bind (loadMCPConfig C getenv) (\<lambda>mcp.
     go_bind (load_budgets C getenv) (\<lambda>(tokens, wallclock, dollars).
     go_bind (load_limits getenv) (\<lambda>(turns, calls, result, total).
     go_bind (optionalBool (getenv ''KONTEXT_EMIT_TOOL_OUTPUT'') ''KONTEXT_EMIT_TOOL_OUTPUT'') (\<lambda>emit_output.
     go_bind (load_endpoints C getenv) (\<lambda>(endpoint, baseURL).
     (let runName = default_name (getenv ''KONTEXT_RUN_NAME'') ''unknown-run'';
          agent = default_name (getenv ''KONTEXT_AGENT_NAME'') runName
      in go_bind (optionalPositiveDuration (cl_durations C) (getenv ''KONTEXT_FAKE_DELAY'') ''KONTEXT_FAKE_DELAY'') (\<lambda>delay.
     Inr \<lparr>cf_run_name = runName, cf_agent_name = agent, cf_goal = goal, cf_provider = to_lower (cl_go C) provider,
          cf_model = model, cf_tools = parseTools (getenv ''KONTEXT_TOOLS''), cf_mcp = mcp, cf_token_budget = tokens,
          cf_wallclock_budget = wallclock, cf_dollar_budget = dollars, cf_max_turns = turns, cf_max_tool_calls = calls,
          cf_max_tool_result_bytes = result, cf_max_total_tool_output_bytes = total, cf_emit_tool_output = emit_output,
          cf_provider_endpoint = endpoint, cf_provider_base_url = baseURL,
          cf_anthropic_api_key = getenv ''ANTHROPIC_API_KEY'', cf_openai_api_key = getenv ''OPENAI_API_KEY'',
          cf_fake_scenario = to_lower (cl_go C) (trim_space (getenv ''KONTEXT_FAKE_SCENARIO'')),
          cf_fake_delay = (case delay of None \<Rightarrow> 0 | Some d \<Rightarrow> d),
          cf_fake_tool_name = trim_space (getenv ''KONTEXT_FAKE_TOOL_NAME''),
          cf_fake_tool_arguments = trim_space (getenv ''KONTEXT_FAKE_TOOL_ARGUMENTS''),
          cf_fake_tool_sequence = trim_space (getenv ''KONTEXT_FAKE_TOOL_SEQUENCE'')\<rparr>))))))))))"

subsection \<open>What an accepted configuration satisfies\<close>

definition limit_within :: "int \<Rightarrow> int option \<Rightarrow> bool" where
  "limit_within maximum limit \<longleftrightarrow> (case limit of None \<Rightarrow> True | Some n \<Rightarrow> 1 \<le> n \<and> n \<le> maximum)"

lemma optionalLimitInt64_within: "optionalLimitInt64 raw name maximum = Inr r \<Longrightarrow> limit_within maximum r"
  by (auto simp: optionalLimitInt64_def limit_within_def Let_def split: if_splits option.splits)

lemma parse_int64_range: "parse_int 64 v = Some n \<Longrightarrow> n \<le> max_int64"
  by (auto simp: parse_int_def Let_def split: option.splits if_splits)

lemma optionalPositiveInt64_within: "optionalPositiveInt64 raw name = Inr r \<Longrightarrow> limit_within max_int64 r"
  by (auto simp: optionalPositiveInt64_def limit_within_def Let_def dest: parse_int64_range split: if_splits option.splits)

lemma optionalEndpoint_ok:
  "optionalEndpoint C raw name = Inr v \<Longrightarrow> v = [] \<or> (\<exists>u. cl_parse_url C v = Inr u \<and> absolute_http u \<and> \<not> url_has_user u)"
  by (auto simp: optionalEndpoint_def Let_def split: if_splits sum.splits)

lemmas load_defs = load_budgets_def load_limits_def load_endpoints_def required_def requiredOpaque_def

text \<open>
  C26. A configuration the runtime accepts is bounded and complete: goal and model are not blank, every limit is
  absent or between 1 and its maximum, the token budget is absent or positive, the provider address is given at
  most once, as an absolute HTTP(S) URL without credentials. In particular no limit can be zero or negative.
\<close>

theorem Load_bounded:
  assumes "Load C getenv = Inr c"
  shows "trim_space (getenv ''KONTEXT_GOAL'') = cf_goal c \<and> cf_goal c \<noteq> [] \<and> trim_space (cf_model c) \<noteq> [] \<and>
    limit_within max_int64 (cf_token_budget c) \<and> limit_within maxTurnsLimit (cf_max_turns c) \<and>
    limit_within maxToolCallsLimit (cf_max_tool_calls c) \<and> limit_within maxToolResultBytesLimit (cf_max_tool_result_bytes c) \<and>
    limit_within maxTotalToolOutputBytesLimit (cf_max_total_tool_output_bytes c) \<and>
    (cf_provider_endpoint c = [] \<or> cf_provider_base_url c = []) \<and>
    (\<forall>v \<in> {cf_provider_endpoint c, cf_provider_base_url c}. v = [] \<or>
       (\<exists>u. cl_parse_url C v = Inr u \<and> absolute_http u \<and> \<not> url_has_user u))"
  using assms unfolding Load_def Let_def go_bind_Inr split_paired_Ex case_prod_conv load_defs
  by (auto split: if_splits dest: optionalLimitInt64_within optionalPositiveInt64_within optionalEndpoint_ok)

subsection \<open>Accepted MCP servers\<close>

lemma map_put_fresh: "map_of m k = None \<Longrightarrow> map_put k v m = m @ [(k, v)]"
  unfolding map_put_def by (induction m) (auto split: if_splits)

lemma check_args_None: "check_args L n xs = None \<longleftrightarrow> (\<forall>a \<in> set xs. NUL \<notin> set a)"
  by (induction xs) auto

lemma check_env_None:
  "check_env L n m = None \<longleftrightarrow> (\<forall>(c, v) \<in> set m. mcp_environment_name c \<and> NUL \<notin> set v)"
proof (induction m)
  case (Cons x m)
  then show ?case by (cases x) (simp split: if_split)
qed simp

lemma appendSensitiveValue_set [simp]: "set (appendSensitiveValue vs v) = set vs \<union> ({v} - {[]})"
  by (auto simp: appendSensitiveValue_def)

text \<open>The entries taken from the environment, in the order of the declaration.\<close>

definition from_env :: "getenv \<Rightarrow> string go_map \<Rightarrow> string go_map" where
  "from_env getenv m = map (\<lambda>(k, parent). (k, getenv parent)) m"

lemma add_env_from_Inr:
  assumes "add_env_from L getenv m server = Inr r"
  shows "\<exists>vs. r = server\<lparr>ms_env := ms_env server @ from_env getenv m, ms_sensitive_values := vs\<rparr> \<and>
      snd ` set (from_env getenv m) \<subseteq> set vs \<and> set (ms_sensitive_values server) \<subseteq> set vs \<and>
      (\<forall>(c, v) \<in> set (from_env getenv m). mcp_environment_name c \<and> v \<noteq> [] \<and> NUL \<notin> set v)"
  using assms
proof (induction m arbitrary: server)
  case Nil
  then show ?case by (auto simp: from_env_def intro!: exI [of _ "ms_sensitive_values server"])
next
  case (Cons x m)
  obtain c p where x: "x = (c, p)" by (cases x)
  let ?next = "server\<lparr>ms_env := map_put c (getenv p) (ms_env server),
                     ms_sensitive_values := appendSensitiveValue (ms_sensitive_values server) (getenv p)\<rparr>"
  from Cons.prems have go: "add_env_from L getenv m ?next = Inr r" and ok: "mcp_environment_name c" "getenv p \<noteq> []" "NUL \<notin> set (getenv p)"
    and fresh: "map_of (ms_env server) c = None" by (auto simp: x split: if_splits)
  from Cons.IH [OF go] ok show ?case by (auto simp: x from_env_def map_put_fresh [OF fresh])
qed

definition header_ok :: "golib \<Rightarrow> string \<times> string \<Rightarrow> bool" where
  "header_ok L h \<longleftrightarrow> validHTTPHeaderName (fst h) \<and> to_lower L (fst h) \<notin> set reservedMCPHTTPHeaders \<and> \<not> containsNewline (snd h)"

abbreviation header_keys :: "golib \<Rightarrow> string go_map \<Rightarrow> string list" where
  "header_keys L m \<equiv> map (to_lower L \<circ> fst) m"

lemma check_headers_Inr:
  assumes "check_headers L n m seen = Inr r"
  shows "r = rev (header_keys L m) @ seen \<and> list_all (header_ok L) m \<and> distinct (header_keys L m) \<and>
    set (header_keys L m) \<inter> set seen = {}"
  using assms
proof (induction m arbitrary: seen)
  case (Cons x m)
  obtain h v where x: "x = (h, v)" by (cases x)
  from Cons.prems have go: "check_headers L n m (to_lower L h # seen) = Inr r"
    and ok: "header_ok L (h, v)" "to_lower L h \<notin> set seen"
    by (auto simp: x header_ok_def header_error_def split: if_splits)
  from Cons.IH [OF go] ok show ?case by (auto simp: x)
qed simp

lemma add_headers_from_Inr:
  assumes "add_headers_from L getenv m seen server = Inr r" "set (header_keys L (ms_headers server)) \<subseteq> set seen"
  shows "\<exists>vs. r = server\<lparr>ms_headers := ms_headers server @ from_env getenv m, ms_sensitive_values := vs\<rparr> \<and>
      snd ` set (from_env getenv m) \<subseteq> set vs \<and> set (ms_sensitive_values server) \<subseteq> set vs \<and>
      list_all (header_ok L) (from_env getenv m) \<and> distinct (header_keys L m) \<and> set (header_keys L m) \<inter> set seen = {}"
  using assms
proof (induction m arbitrary: server seen)
  case Nil
  then show ?case by (auto simp: from_env_def intro!: exI [of _ "ms_sensitive_values server"])
next
  case (Cons x m)
  obtain h p where x: "x = (h, p)" by (cases x)
  let ?next = "server\<lparr>ms_headers := map_put h (getenv p) (ms_headers server),
                     ms_sensitive_values := appendSensitiveValue (ms_sensitive_values server) (getenv p)\<rparr>"
  from Cons.prems(1) have go: "add_headers_from L getenv m (to_lower L h # seen) ?next = Inr r"
    and ok: "header_ok L (h, getenv p)" "to_lower L h \<notin> set seen" "getenv p \<noteq> []"
    by (auto simp: x header_ok_def header_error_def split: if_splits)
  have "h \<notin> fst ` set (ms_headers server)" using ok(2) Cons.prems(2) by force
  then have fresh: "map_of (ms_headers server) h = None" by (simp add: map_of_eq_None_iff)
  have "set (header_keys L (ms_headers ?next)) \<subseteq> set (to_lower L h # seen)"
    using Cons.prems(2) by (auto simp: map_put_fresh [OF fresh])
  from Cons.IH [OF go this] ok show ?case by (auto simp: x from_env_def map_put_fresh [OF fresh])
qed

definition stdio_ok :: "getenv \<Rightarrow> mcp_server \<Rightarrow> bool" where
  "stdio_ok getenv s \<longleftrightarrow> has_prefix (ms_command s) ''/'' \<and> ms_endpoint s = [] \<and> ms_headers s = [] \<and> ms_headers_from_env s = [] \<and>
     (\<forall>a \<in> set (ms_command s # ms_args s). NUL \<notin> set a) \<and>
     (\<forall>(c, v) \<in> set (ms_env s). mcp_environment_name c \<and> NUL \<notin> set v) \<and>
     (\<forall>(c, parent) \<in> set (ms_env_from s). (c, getenv parent) \<in> set (ms_env s) \<and> getenv parent \<noteq> [] \<and>
        getenv parent \<in> set (ms_sensitive_values s))"

definition http_ok :: "config_lib \<Rightarrow> getenv \<Rightarrow> mcp_server \<Rightarrow> bool" where
  "http_ok C getenv s \<longleftrightarrow> ms_command s = [] \<and> ms_args s = [] \<and> ms_env s = [] \<and> ms_env_from s = [] \<and>
     (\<exists>u. cl_parse_url C (ms_endpoint s) = Inr u \<and> absolute_http u \<and> \<not> url_has_user u \<and> url_raw_query u = [] \<and> url_fragment u = []) \<and>
     list_all (header_ok (cl_go C)) (ms_headers s) \<and> distinct (header_keys (cl_go C) (ms_headers s)) \<and>
     (\<forall>(h, parent) \<in> set (ms_headers_from_env s). (h, getenv parent) \<in> set (ms_headers s) \<and>
        getenv parent \<in> set (ms_sensitive_values s))"

lemma set_from_env: "(k, parent) \<in> set m \<Longrightarrow> (k, getenv parent) \<in> set (from_env getenv m)"
  by (force simp: from_env_def)

lemma validateStdioServer_ok:
  assumes "validateStdioServer L getenv s = Inr r"
  shows "stdio_ok getenv r \<and> ms_name r = ms_name s \<and> ms_transport r = ms_transport s"
proof -
  from assms have go: "add_env_from L getenv (ms_env_from s) s = Inr r"
    and ok: "has_prefix (ms_command s) ''/''" "NUL \<notin> set (ms_command s)" "ms_endpoint s = []" "ms_headers s = []"
      "ms_headers_from_env s = []" "\<forall>a \<in> set (ms_args s). NUL \<notin> set a"
      "\<forall>(c, v) \<in> set (ms_env s). mcp_environment_name c \<and> NUL \<notin> set v"
    by (auto simp: validateStdioServer_def check_args_None check_env_None split: if_splits option.splits)
  from add_env_from_Inr [OF go] obtain vs where
      r: "r = s\<lparr>ms_env := ms_env s @ from_env getenv (ms_env_from s), ms_sensitive_values := vs\<rparr>"
    and vs: "snd ` set (from_env getenv (ms_env_from s)) \<subseteq> set vs"
    and new: "\<forall>(c, v) \<in> set (from_env getenv (ms_env_from s)). mcp_environment_name c \<and> v \<noteq> [] \<and> NUL \<notin> set v" by blast
  have "(c, getenv p) \<in> set (from_env getenv (ms_env_from s)) \<and> getenv p \<noteq> [] \<and> getenv p \<in> set vs"
    if "(c, p) \<in> set (ms_env_from s)" for c p
    using set_from_env [OF that, of getenv] new vs by force
  with ok new show ?thesis by (auto simp: r stdio_ok_def)
qed

lemma validateHTTPServer_ok:
  assumes "validateHTTPServer C getenv s = Inr r"
  shows "http_ok C getenv r \<and> ms_name r = ms_name s \<and> ms_transport r = ms_transport s"
proof -
  from assms obtain u seen where go: "add_headers_from (cl_go C) getenv (ms_headers_from_env s) seen s = Inr r"
    and seen: "check_headers (cl_go C) (ms_name s) (ms_headers s) [] = Inr seen"
    and ok: "ms_command s = []" "ms_args s = []" "ms_env s = []" "ms_env_from s = []"
      "cl_parse_url C (ms_endpoint s) = Inr u" "absolute_http u" "\<not> url_has_user u" "url_raw_query u = []" "url_fragment u = []"
    by (auto simp: validateHTTPServer_def Let_def go_bind_Inr split: if_splits sum.splits)
  from check_headers_Inr [OF seen] have h: "set (header_keys (cl_go C) (ms_headers s)) = set seen"
    "list_all (header_ok (cl_go C)) (ms_headers s)" "distinct (header_keys (cl_go C) (ms_headers s))" by auto
  from add_headers_from_Inr [OF go] h(1) obtain vs where
      r: "r = s\<lparr>ms_headers := ms_headers s @ from_env getenv (ms_headers_from_env s), ms_sensitive_values := vs\<rparr>"
    and vs: "snd ` set (from_env getenv (ms_headers_from_env s)) \<subseteq> set vs"
    and new: "list_all (header_ok (cl_go C)) (from_env getenv (ms_headers_from_env s))"
      "distinct (header_keys (cl_go C) (ms_headers_from_env s))"
      "set (header_keys (cl_go C) (ms_headers_from_env s)) \<inter> set (header_keys (cl_go C) (ms_headers s)) = {}" by auto
  have keys: "header_keys (cl_go C) (from_env getenv m) = header_keys (cl_go C) m" for m
    by (auto simp: from_env_def)
  have "(c, getenv p) \<in> set (from_env getenv (ms_headers_from_env s)) \<and> getenv p \<in> set vs"
    if "(c, p) \<in> set (ms_headers_from_env s)" for c p
    using set_from_env [OF that, of getenv] vs by force
  with ok h(2,3) new show ?thesis
    unfolding http_ok_def r by (auto simp: keys simp del: map_map)
qed

definition mcp_server_ok :: "config_lib \<Rightarrow> getenv \<Rightarrow> mcp_server \<Rightarrow> bool" where
  "mcp_server_ok C getenv s \<longleftrightarrow> ms_name s \<noteq> [] \<and>
     (ms_transport s = ''stdio'' \<and> stdio_ok getenv s \<or> ms_transport s = ''http'' \<and> http_ok C getenv s)"

lemma validate_transport_ok:
  assumes "validate_transport C getenv s = Inr r" "ms_name s \<noteq> []"
  shows "mcp_server_ok C getenv r \<and> ms_name r = ms_name s"
  using assms
  by (auto simp: validate_transport_def mcp_server_ok_def split: if_splits dest: validateStdioServer_ok validateHTTPServer_ok)

lemma validate_timeout_name: "validate_timeout C s = Inr r \<Longrightarrow> ms_name r = ms_name s"
  by (auto simp: validate_timeout_def split: if_splits sum.splits)

lemma validate_servers_ok:
  "validate_servers C getenv i seen servers = Inr r \<Longrightarrow>
     (\<forall>s \<in> set r. mcp_server_ok C getenv s) \<and> distinct (map ms_name r) \<and> set (map ms_name r) \<inter> set seen = {}"
proof (induction servers arbitrary: i seen r)
  case (Cons s servers)
  let ?s = "s\<lparr>ms_name := trim_space (ms_name s)\<rparr>"
  from Cons.prems obtain timed valid others where n: "ms_name ?s \<noteq> []" "ms_name ?s \<notin> set seen"
    and timed: "validate_timeout C ?s = Inr timed" and valid: "validate_transport C getenv timed = Inr valid"
    and others: "validate_servers C getenv (i + 1) (ms_name ?s # seen) servers = Inr others" and r: "r = valid # others"
    by (auto simp: Let_def go_bind_Inr split: if_splits)
  have "ms_name timed = ms_name ?s" by (rule validate_timeout_name [OF timed])
  with validate_transport_ok [OF valid] n have "mcp_server_ok C getenv valid" "ms_name valid = ms_name ?s" by simp_all
  with Cons.IH [OF others] n r show ?case by auto
qed simp

text \<open>
  C27. Every MCP server the runtime accepts is safe to start: names are distinct and not empty, and a server has the
  fields of exactly one transport. A stdio server runs an absolute path and no string handed to the child process
  holds a NUL byte. An HTTP server is reached at an absolute URL without credentials, query or fragment; its headers
  are well-formed, none is owned by HTTP or MCP, none is given twice in another spelling, and no value can inject a
  line break. Every value taken from the environment is there, and is listed as sensitive for redaction.
\<close>

theorem loadMCPConfig_safe:
  assumes "loadMCPConfig C getenv = Inr servers"
  shows "distinct (map ms_name servers) \<and> (\<forall>s \<in> set servers. mcp_server_ok C getenv s)"
  using assms validate_servers_ok [of C getenv 0 "[]" _ servers]
  by (auto simp: loadMCPConfig_def decode_mcp_def validateMCPConfig_def Let_def split: if_splits sum.splits trailing.splits)

subsection \<open>A concrete environment\<close>

definition token_server :: mcp_server where
  "token_server = \<lparr>ms_name = '' search '', ms_transport = ''http'', ms_command = [], ms_args = [], ms_env = [], ms_env_from = [],
     ms_endpoint = ''https://mcp.example'', ms_headers = [(''X-Team'', ''docs'')], ms_headers_from_env = [(''Authorization'', ''MCP_TOKEN'')],
     ms_timeout = 0, ms_max_retries = Some 2, ms_sensitive_values = [], ms_timeout_value = []\<rparr>"

definition plain_config_lib :: config_lib where
  "plain_config_lib = \<lparr>cl_go = zero_digest,
     cl_durations = \<lparr>parse_duration = (\<lambda>s. case parse_int 64 s of None \<Rightarrow> Inl ''bad'' | Some n \<Rightarrow> Inr n), show_duration = show_int\<rparr>,
     cl_parse_float = (\<lambda>s. case parse_int 64 s of None \<Rightarrow> Inr NaN | Some n \<Rightarrow> Inr (Finite (of_int n))),
     cl_parse_url = (\<lambda>s. Inr \<lparr>url_scheme = (if has_prefix s ''https://'' then ''https'' else []), url_host = drop 8 s,
        url_has_user = False, url_raw_query = [], url_fragment = []\<rparr>),
     cl_read_file = (\<lambda>_. Inl ''no such file''), cl_decode_mcp = (\<lambda>_. Inr ([token_server], EOF))\<rparr>"

definition plain_getenv :: getenv where
  "plain_getenv n = (case map_of [(''KONTEXT_GOAL'', '' review ''), (''KONTEXT_PROVIDER'', ''fake''), (''KONTEXT_MODEL'', ''m1''),
     (''KONTEXT_MAX_TURNS'', ''20''), (''KONTEXT_MAX_TOOL_CALLS'', ''0''), (''KONTEXT_MCP_CONFIG'', ''{}''), (''MCP_TOKEN'', ''t0'')] n of
     None \<Rightarrow> [] | Some v \<Rightarrow> v)"

lemma plain_mcp:
  "\<exists>s. loadMCPConfig plain_config_lib plain_getenv = Inr [s] \<and> ms_headers s = [(''X-Team'', ''docs''), (''Authorization'', ''t0'')]"
proof -
  let ?hs = "[(''X-Team'', ''docs''), (''Authorization'', ''t0'')]"
  have run: "case loadMCPConfig plain_config_lib plain_getenv of Inl _ \<Rightarrow> False | Inr xs \<Rightarrow> map ms_headers xs = [?hs]"
    by code_simp
  then obtain xs where xs: "loadMCPConfig plain_config_lib plain_getenv = Inr xs" by (cases "loadMCPConfig plain_config_lib plain_getenv") simp_all
  with run have "map ms_headers xs = [?hs]" by simp
  then obtain s where "xs = [s]" "ms_headers s = ?hs" by (auto simp only: map_eq_Cons_conv map_is_Nil_conv)
  with xs show ?thesis by blast
qed

theorem Load_bounded_witness:
  "\<exists>c. Load plain_config_lib plain_getenv = Inr c \<and> cf_goal c = ''review'' \<and> cf_max_turns c = Some 20 \<and>
     cf_max_tool_calls c = None \<and> limit_within maxTurnsLimit (cf_max_turns c)"
proof -
  have env: "plain_getenv ''KONTEXT_GOAL'' = '' review ''" "plain_getenv ''KONTEXT_PROVIDER'' = ''fake''"
      "plain_getenv ''KONTEXT_MODEL'' = ''m1''" "plain_getenv ''KONTEXT_MAX_TURNS'' = ''20''"
      "plain_getenv ''KONTEXT_MAX_TOOL_CALLS'' = ''0''"
      "list_all (\<lambda>n. plain_getenv n = []) [''KONTEXT_BUDGET_TOKENS'', ''KONTEXT_BUDGET_WALLCLOCK'', ''KONTEXT_BUDGET_DOLLARS'',
         ''KONTEXT_MAX_TOOL_RESULT_BYTES'', ''KONTEXT_MAX_TOTAL_TOOL_OUTPUT_BYTES'', ''KONTEXT_EMIT_TOOL_OUTPUT'',
         ''KONTEXT_PROVIDER_ENDPOINT'', ''KONTEXT_PROVIDER_BASE_URL'', ''KONTEXT_FAKE_DELAY'']"
    by (simp_all add: plain_getenv_def)
  have trims: "trim_space '' review '' = ''review''" "trim_space ''fake'' = ''fake''" "trim_space ''m1'' = ''m1''" "trim_space ''20'' = ''20''"
      "trim_space ''0'' = ''0''" "trim_space [] = []" by code_simp+
  have nums: "parse_int 64 ''20'' = Some 20" "parse_int 64 ''0'' = Some 0"
    by (simp_all add: parse_int_def parse_uint_def digits_val_def is_digit_def has_prefix_def digit_val_def)
  obtain servers where mcp: "loadMCPConfig plain_config_lib plain_getenv = Inr servers" using plain_mcp by blast
  have "\<exists>c. Load plain_config_lib plain_getenv = Inr c \<and> cf_goal c = ''review'' \<and> cf_max_turns c = Some 20 \<and> cf_max_tool_calls c = None"
    using env unfolding Load_def load_defs mcp optionalBool_def optionalPositiveInt64_def optionalPositiveDuration_def
      optionalNonNegativeFloat_def optionalEndpoint_def optionalLimitInt64_def
    by (simp add: trims nums Let_def)
  then obtain c where c: "Load plain_config_lib plain_getenv = Inr c" "cf_goal c = ''review''" "cf_max_turns c = Some 20"
      "cf_max_tool_calls c = None" by blast
  with Load_bounded [OF c(1)] show ?thesis by blast
qed

theorem loadMCPConfig_safe_witness:
  "\<exists>s. loadMCPConfig plain_config_lib plain_getenv = Inr [s] \<and> ms_headers s = [(''X-Team'', ''docs''), (''Authorization'', ''t0'')] \<and>
     mcp_server_ok plain_config_lib plain_getenv s"
proof -
  obtain s where s: "loadMCPConfig plain_config_lib plain_getenv = Inr [s]" "ms_headers s = [(''X-Team'', ''docs''), (''Authorization'', ''t0'')]"
    using plain_mcp by blast
  with loadMCPConfig_safe [OF s(1)] show ?thesis by simp
qed

end
