(* ===== verification/Reporter.thy ===== *)
theory Reporter
  imports Result_Envelope Runtime_Config
begin

text \<open>
  The reporter that wraps a foreign runtime, \<^verbatim>\<open>runtimes/reporter\<close>: its command line (\<^verbatim>\<open>config.go\<close>), the capture
  of the child's standard output (\<^verbatim>\<open>capture.go\<close>), and the result it leaves as the termination message
  (\<^verbatim>\<open>reporter.go\<close>). The child process and the flag parser are parameters: the child is the list of chunks its
  output arrives in and its exit code, or the error of supervising it.
\<close>

abbreviation CaptureFormatLastLine :: string where "CaptureFormatLastLine \<equiv> ''last-line''"
abbreviation CaptureFormatKontextEnvelope :: string where "CaptureFormatKontextEnvelope \<equiv> ''kontext-envelope''"
abbreviation defaultTerminationPath :: string where "defaultTerminationPath \<equiv> ''/dev/termination-log''"
abbreviation defaultCaptureBytes :: int where "defaultCaptureBytes \<equiv> 65536"
abbreviation newline :: char where "newline \<equiv> CHR 0x0A"

subsection \<open>Configuration\<close>

record reporter_config =
  rc_format :: string
  rc_termination_path :: string
  rc_max_capture_bytes :: int
  rc_command :: "string list"

definition replace_char :: "char \<Rightarrow> char \<Rightarrow> string \<Rightarrow> string" where
  "replace_char a b s = map (\<lambda>c. if c = a then b else c) s"

definition parseCaptureFormat :: "golib \<Rightarrow> string \<Rightarrow> string go_result" where
  "parseCaptureFormat L raw =
     (let normalized = to_lower L (replace_char (CHR ''_'') (CHR ''-'') (trim_space raw)) in
      if normalized = ''lastline'' \<or> normalized = CaptureFormatLastLine then Inr CaptureFormatLastLine
      else if normalized = ''kontextenvelope'' \<or> normalized = CaptureFormatKontextEnvelope then Inr CaptureFormatKontextEnvelope
      else Inl (''unsupported result format '' @ quote L raw))"

text \<open>
  The flag parser gets the defaults of the three flags and the arguments, and returns the values of the flags and the
  remaining arguments.
\<close>

type_synonym flag_parser = "string \<times> string \<times> int \<Rightarrow> string list \<Rightarrow> (string \<times> string \<times> int \<times> string list) go_result"

definition parseConfig :: "golib \<Rightarrow> flag_parser \<Rightarrow> string list \<Rightarrow> getenv \<Rightarrow> reporter_config go_result" where
  "parseConfig L parse args getenv =
     (let formatDefault = (if getenv ''KONTEXT_RESULT_FORMAT'' = [] then CaptureFormatLastLine else getenv ''KONTEXT_RESULT_FORMAT'');
          terminationDefault = (if getenv ''KONTEXT_TERMINATION_MESSAGE'' = [] then defaultTerminationPath
                                else getenv ''KONTEXT_TERMINATION_MESSAGE'')
      in go_bind (parse (formatDefault, terminationDefault, defaultCaptureBytes) args) (\<lambda>(formatValue, terminationPath, maxCaptureBytes, command).
         go_bind (parseCaptureFormat L formatValue) (\<lambda>format.
         if trim_space terminationPath = [] then Inl ''termination log path cannot be empty''
         else if maxCaptureBytes < MaxTerminationMessageBytes then
           Inl (''max capture bytes must be at least '' @ show_int MaxTerminationMessageBytes)
         else if command = [] then Inl ''child command is required after --''
         else Inr \<lparr>rc_format = format, rc_termination_path = terminationPath, rc_max_capture_bytes = maxCaptureBytes,
                   rc_command = command\<rparr>)))"

subsection \<open>Capture\<close>

record captured_result =
  ca_data :: string
  ca_found :: bool
  ca_truncated :: bool
  ca_original_bytes :: int

definition no_capture :: captured_result where
  "no_capture = \<lparr>ca_data = [], ca_found = False, ca_truncated = False, ca_original_bytes = 0\<rparr>"

record capture =
  cpt_format :: string
  cpt_max_bytes :: int
  cpt_current :: string
  cpt_current_total :: int
  cpt_current_truncated :: bool
  cpt_last_line :: captured_result
  cpt_candidate :: captured_result

definition newCapture :: "string \<Rightarrow> int \<Rightarrow> capture" where
  "newCapture format maxBytes = \<lparr>cpt_format = format, cpt_max_bytes = maxBytes, cpt_current = [], cpt_current_total = 0,
     cpt_current_truncated = False, cpt_last_line = no_capture, cpt_candidate = no_capture\<rparr>"

definition appendCurrent :: "capture \<Rightarrow> string \<Rightarrow> capture" where
  "appendCurrent cap0 data =
     (let cap = cap0\<lparr>cpt_current_total := cpt_current_total cap0 + int (length data)\<rparr>;
          remaining = cpt_max_bytes cap - int (length (cpt_current cap))
      in if remaining \<le> 0 then cap\<lparr>cpt_current_truncated := True\<rparr>
         else if int (length data) > remaining then
           cap\<lparr>cpt_current := cpt_current cap @ take (nat remaining) data, cpt_current_truncated := True\<rparr>
         else cap\<lparr>cpt_current := cpt_current cap @ data\<rparr>)"

definition captured_line :: "capture \<Rightarrow> string \<Rightarrow> captured_result" where
  "captured_line cap data = \<lparr>ca_data = data, ca_found = True, ca_truncated = cpt_current_truncated cap,
     ca_original_bytes = cpt_current_total cap\<rparr>"

definition completeLine :: "capture \<Rightarrow> capture" where
  "completeLine cap =
     (let line = trim_suffix (cpt_current cap) [CHR 0x0D];
          cap1 = (if trim_space line = [] then cap
                  else if cpt_format cap = CaptureFormatLastLine then cap\<lparr>cpt_last_line := captured_line cap line\<rparr>
                  else if cpt_format cap = CaptureFormatKontextEnvelope then
                    (case ExtractEnvelopePayload line of
                       None \<Rightarrow> cap
                     | Some payload \<Rightarrow> cap\<lparr>cpt_candidate := captured_line cap payload\<rparr>)
                  else cap)
      in cap1\<lparr>cpt_current := [], cpt_current_total := 0, cpt_current_truncated := False\<rparr>)"

function capture_Write :: "capture \<Rightarrow> string \<Rightarrow> capture" where
  "capture_Write cap data =
     (if data = [] then cap
      else if newline \<notin> set data then appendCurrent cap data
      else
        (let line = takeWhile (\<lambda>c. c \<noteq> newline) data
         in capture_Write (completeLine (appendCurrent cap line)) (drop (length line + 1) data)))"
  by pat_completeness auto
termination by (relation "measure (\<lambda>(_, data). length data)") auto

declare capture_Write.simps [simp del]

definition capture_Result :: "capture \<Rightarrow> captured_result" where
  "capture_Result cap0 =
     (let cap = (if cpt_current_total cap0 > 0 then completeLine cap0 else cap0) in
      if cpt_format cap = CaptureFormatLastLine then cpt_last_line cap
      else if cpt_format cap = CaptureFormatKontextEnvelope then cpt_candidate cap
      else no_capture)"

subsection \<open>The result\<close>

definition reporter_failureEnvelope :: "string \<Rightarrow> string \<Rightarrow> envelope" where
  "reporter_failureEnvelope code message = empty_envelope\<lparr>en_api_version := ResultAPIVersion, en_outcome := OutcomeFailed,
     en_error := Some \<lparr>ei_code = code, ei_message = message, ei_retryable = None\<rparr>\<rparr>"

definition envelopeFromPrefixedCandidate :: "golib \<Rightarrow> json_codec \<Rightarrow> captured_result \<Rightarrow> envelope" where
  "envelopeFromPrefixedCandidate L J captured =
     (if \<not> ca_found captured then reporter_failureEnvelope ''result_missing'' ''agent did not emit a prefixed Kontext result''
      else if ca_truncated captured then
        reporter_failureEnvelope ''result_invalid'' ''prefixed Kontext result exceeded the capture limit''
      else case ParseVersioned L J (ca_data captured) of
        Inl VersionedEnvelopeRequired \<Rightarrow>
          reporter_failureEnvelope ''result_invalid'' ''prefixed Kontext result must be a versioned envelope''
      | Inl (ParseFailed err) \<Rightarrow>
          reporter_failureEnvelope ''result_invalid'' (''invalid prefixed Kontext result: '' @ err)
      | Inr e \<Rightarrow> e)"

definition last_line_envelope :: "captured_result \<Rightarrow> envelope" where
  "last_line_envelope captured =
     (let e = empty_envelope\<lparr>en_api_version := ResultAPIVersion, en_outcome := OutcomeSucceeded\<rparr> in
      if ca_truncated captured then
        e\<lparr>en_output := Some TruncatedOutput,
          en_truncation := Some \<lparr>tr_original_bytes = ca_original_bytes captured, tr_output_truncated = True,
            tr_artifacts_truncated = False, tr_extensions_truncated = False\<rparr>\<rparr>
      else if ca_found captured then
        e\<lparr>en_output := Some \<lparr>ro_media_type = DefaultMediaType, ro_value = json_string (ca_data captured)\<rparr>\<rparr>
      else e)"

definition envelopeFromCapture :: "golib \<Rightarrow> json_codec \<Rightarrow> string \<Rightarrow> captured_result \<Rightarrow> int \<Rightarrow> envelope" where
  "envelopeFromCapture L J format captured childExitCode =
     (let e = (if format = CaptureFormatLastLine then last_line_envelope captured
               else if format = CaptureFormatKontextEnvelope then envelopeFromPrefixedCandidate L J captured
               else empty_envelope)
      in if childExitCode \<noteq> 0 \<and> en_outcome e \<noteq> OutcomeFailed then
           e\<lparr>en_outcome := OutcomeFailed,
             en_error := Some \<lparr>ei_code = ''agent_process_exit'',
               ei_message = ''agent process exited with code '' @ show_int childExitCode, ei_retryable = None\<rparr>\<rparr>
         else e)"

abbreviation reporterFailureExitCode :: int where "reporterFailureExitCode \<equiv> 125"
abbreviation childStartExitCode :: int where "childStartExitCode \<equiv> 126"

record child_error =
  ch_is_start :: bool
  ch_text :: string

type_synonym child = "child_error + string list \<times> int"

text \<open>The file written, if any, and whether writing failed.\<close>

definition writeEnvelope :: "golib \<Rightarrow> json_codec \<Rightarrow> (string \<Rightarrow> string option) \<Rightarrow> string \<Rightarrow> envelope \<Rightarrow> string option \<times> bool" where
  "writeEnvelope L J write_file path e =
     (case Compact L J e MaxTerminationMessageBytes of
        Inl _ \<Rightarrow> (None, False)
      | Inr payload \<Rightarrow> (case write_file path of Some _ \<Rightarrow> (None, False) | None \<Rightarrow> (Some payload, True)))"

definition child_capture :: "reporter_config \<Rightarrow> string list \<Rightarrow> capture" where
  "child_capture C chunks = fold (\<lambda>chunk cap. capture_Write cap chunk) chunks (newCapture (rc_format C) (rc_max_capture_bytes C))"

definition runReporter ::
  "golib \<Rightarrow> json_codec \<Rightarrow> (string \<Rightarrow> string option) \<Rightarrow> reporter_config \<Rightarrow> child \<Rightarrow> int \<times> string option" where
  "runReporter L J write_file C child =
     (case child of
        Inl err \<Rightarrow>
          (let exitCode = (if ch_is_start err then childStartExitCode else reporterFailureExitCode);
               errorCode = (if ch_is_start err then ''child_start_failed'' else ''reporter_internal'')
           in (exitCode, fst (writeEnvelope L J write_file (rc_termination_path C) (reporter_failureEnvelope errorCode (ch_text err)))))
      | Inr (chunks, exitCode) \<Rightarrow>
          (case writeEnvelope L J write_file (rc_termination_path C)
                  (envelopeFromCapture L J (rc_format C) (capture_Result (child_capture C chunks)) exitCode) of
             (file, ok) \<Rightarrow> ((if ok then exitCode else reporterFailureExitCode), file)))"

subsection \<open>The capture against the lines of the output\<close>

text \<open>What a line of output contributes, and the last line of the output that contributes anything.\<close>

definition kept :: "string \<Rightarrow> int \<Rightarrow> string \<Rightarrow> string option" where
  "kept format maxBytes line =
     (let l = trim_suffix (take (nat maxBytes) line) [CHR 0x0D] in
      if trim_space l = [] then None
      else if format = CaptureFormatLastLine then Some l
      else if format = CaptureFormatKontextEnvelope then ExtractEnvelopePayload l
      else None)"

definition last_kept :: "string \<Rightarrow> int \<Rightarrow> string list \<Rightarrow> (string \<times> string) option" where
  "last_kept format maxBytes ls =
     fold (\<lambda>l acc. case kept format maxBytes l of None \<Rightarrow> acc | Some d \<Rightarrow> Some (l, d)) ls None"

lemma last_kept_snoc:
  "last_kept format maxBytes (ls @ [l]) =
     (case kept format maxBytes l of None \<Rightarrow> last_kept format maxBytes ls | Some d \<Rightarrow> Some (l, d))"
  by (simp add: last_kept_def split: option.split)

lemma kept_empty: "kept format maxBytes [] = None"
proof -
  have "trim_space (trim_suffix [] [CHR 0x0D]) = []" by code_simp
  then show ?thesis by (simp add: kept_def)
qed

text \<open>
  The output as it arrives: each byte, and whether it is the first of a chunk. The lines of the output, each with whether
  its end was the first byte of a chunk; the unfinished last line has no end.
\<close>

fun arriving :: "bool \<Rightarrow> string \<Rightarrow> (char \<times> bool) list" where
  "arriving starts [] = []"
| "arriving starts (c # cs) = (c, starts) # arriving False cs"

fun output_lines :: "(char \<times> bool) list \<Rightarrow> string \<Rightarrow> (string \<times> bool) list" where
  "output_lines [] cur = [(cur, False)]"
| "output_lines ((c, starts) # bs) cur =
     (if c = newline then (cur, starts) # output_lines bs [] else output_lines bs (cur @ [c]))"

definition last_kept_line :: "string \<Rightarrow> int \<Rightarrow> (string \<times> bool) list \<Rightarrow> ((string \<times> bool) \<times> string) option" where
  "last_kept_line format maxBytes ls =
     fold (\<lambda>l acc. case kept format maxBytes (fst l) of None \<Rightarrow> acc | Some d \<Rightarrow> Some (l, d)) ls None"

text \<open>
  What is captured of a line: a line that is longer than the limit is truncated; a line of exactly the limit is marked
  truncated, although nothing was cut, when its end was the first byte of a chunk.
\<close>

definition line_truncated :: "int \<Rightarrow> string \<times> bool \<Rightarrow> bool" where
  "line_truncated maxBytes l \<longleftrightarrow> int (length (fst l)) > maxBytes \<or> int (length (fst l)) = maxBytes \<and> snd l"

definition capture_of :: "int \<Rightarrow> ((string \<times> bool) \<times> string) option \<Rightarrow> captured_result" where
  "capture_of maxBytes x =
     (case x of
        None \<Rightarrow> no_capture
      | Some (l, data) \<Rightarrow> \<lparr>ca_data = data, ca_found = True, ca_truncated = line_truncated maxBytes l,
                            ca_original_bytes = int (length (fst l))\<rparr>)"

lemma output_lines_nonempty [simp]: "output_lines bs cur \<noteq> []"
  by (induction bs cur rule: output_lines.induct) auto

lemma output_lines_append:
  "output_lines (bs @ bs') cur = butlast (output_lines bs cur) @ output_lines bs' (fst (last (output_lines bs cur)))"
  by (induction bs cur rule: output_lines.induct) auto

lemma output_lines_last: "snd (last (output_lines bs cur)) = False"
  by (induction bs cur rule: output_lines.induct) auto

lemma arriving_append: "arriving starts (w @ v) = arriving starts w @ arriving (starts \<and> w = []) v"
  by (induction w arbitrary: starts) auto

lemma output_lines_no_newline: "newline \<notin> set w \<Longrightarrow> output_lines (arriving starts w @ bs) cur = output_lines bs (cur @ w)"
  by (induction w arbitrary: starts cur) auto

lemma output_lines_split: "map fst (output_lines bs cur) = (cur @ hd (split_at_char newline (map fst bs))) # tl (split_at_char newline (map fst bs))"
proof (induction bs cur rule: output_lines.induct)
  case (2 c starts bs cur)
  have "\<exists>w ws. split_at_char newline (map fst bs) = w # ws" by (meson neq_Nil_conv split_at_char_nonempty)
  with 2 show ?case by (auto split: list.split)
qed simp

lemma map_fst_arriving: "map fst (arriving starts s) = s"
  by (induction s arbitrary: starts) auto

lemma output_lines_of: "map fst (output_lines (concat (map (arriving True) chunks)) []) = split_at_char newline (concat chunks)"
  by (simp add: output_lines_split map_concat comp_def map_fst_arriving split_at_char_nonempty)

lemma last_kept_line_snoc:
  "last_kept_line format maxBytes (ls @ [l]) =
     (case kept format maxBytes (fst l) of None \<Rightarrow> last_kept_line format maxBytes ls | Some d \<Rightarrow> Some (l, d))"
  by (simp add: last_kept_line_def split: option.split)

lemma last_kept_lines: "last_kept format maxBytes (map fst ls) = map_option (\<lambda>(l, d). (fst l, d)) (last_kept_line format maxBytes ls)"
proof (induction ls rule: rev_induct)
  case Nil
  then show ?case by (simp add: last_kept_def last_kept_line_def)
next
  case (snoc l ls)
  then show ?case by (simp add: last_kept_snoc last_kept_line_snoc split: option.split)
qed

definition selected :: "capture \<Rightarrow> captured_result" where
  "selected cap =
     (if cpt_format cap = CaptureFormatLastLine then cpt_last_line cap
      else if cpt_format cap = CaptureFormatKontextEnvelope then cpt_candidate cap else no_capture)"

text \<open>The capture after reading the complete lines \<open>ls\<close> and the unfinished line \<open>cur\<close>.\<close>

definition reads :: "string \<Rightarrow> int \<Rightarrow> capture \<Rightarrow> (string \<times> bool) list \<Rightarrow> string \<Rightarrow> bool" where
  "reads format maxBytes cap ls cur \<longleftrightarrow> cpt_format cap = format \<and> cpt_max_bytes cap = maxBytes \<and>
     cpt_current cap = take (nat maxBytes) cur \<and> cpt_current_total cap = int (length cur) \<and>
     (cpt_current_truncated cap \<longleftrightarrow> int (length cur) > maxBytes) \<and>
     selected cap = capture_of maxBytes (last_kept_line format maxBytes ls)"

lemma reads_new: "0 < maxBytes \<Longrightarrow> reads format maxBytes (newCapture format maxBytes) [] []"
  by (simp add: reads_def newCapture_def selected_def last_kept_line_def capture_of_def)

lemma appendCurrent_does:
  assumes "0 < maxBytes" "reads format maxBytes cap ls cur"
  shows "appendCurrent cap data = cap\<lparr>cpt_current := take (nat maxBytes) (cur @ data), cpt_current_total := int (length (cur @ data)),
    cpt_current_truncated := (int (length (cur @ data)) > maxBytes \<or> data = [] \<and> int (length cur) = maxBytes)\<rparr>"
proof (cases "int (length cur) < maxBytes")
  case True
  with assms have "cpt_current cap = cur" "nat (maxBytes - int (length cur)) = nat maxBytes - length cur" "length cur \<le> nat maxBytes"
    by (auto simp: reads_def)
  with True assms show ?thesis by (auto simp: reads_def appendCurrent_def Let_def)
next
  case False
  with assms have "int (length (cpt_current cap)) = maxBytes" by (simp add: reads_def)
  moreover from False assms(2) have "data = [] \<Longrightarrow> int (length cur) \<noteq> maxBytes \<Longrightarrow> cpt_current_truncated cap" by (auto simp: reads_def)
  moreover have "data \<noteq> [] \<Longrightarrow> int (length cur + length data) > maxBytes" using False by (cases data) auto
  ultimately show ?thesis using False assms by (auto simp: reads_def appendCurrent_def Let_def)
qed

lemma reads_append:
  assumes "0 < maxBytes" "reads format maxBytes cap ls cur" "data \<noteq> []"
  shows "reads format maxBytes (appendCurrent cap data) ls (cur @ data)"
  using appendCurrent_does [OF assms(1,2), of data] assms(2,3) by (auto simp: reads_def selected_def)

lemma line_completed:
  assumes "0 < maxBytes" "cpt_format cap = format" "cpt_max_bytes cap = maxBytes" "cpt_current cap = take (nat maxBytes) (fst l)"
    and "cpt_current_total cap = int (length (fst l))" "cpt_current_truncated cap \<longleftrightarrow> line_truncated maxBytes l"
    and "selected cap = capture_of maxBytes (last_kept_line format maxBytes ls)"
  shows "reads format maxBytes (completeLine cap) (ls @ [l]) []"
proof -
  have "captured_line cap d = capture_of maxBytes (Some (l, d))" for d
    using assms(5,6) by (simp add: captured_line_def capture_of_def)
  then show ?thesis
    using assms
    by (auto simp: reads_def completeLine_def Let_def last_kept_line_snoc kept_def selected_def split: option.splits)
qed

text \<open>
  The end of a line reaches the capture with the bytes before it in the same chunk, which may be none: then it is the
  first byte of its chunk, or the line is empty.
\<close>

lemma reads_line:
  assumes "0 < maxBytes" "reads format maxBytes cap ls cur" "starts \<or> cur = []"
  shows "reads format maxBytes (completeLine (appendCurrent cap w)) (ls @ [(cur @ w, starts \<and> w = [])]) []"
  using appendCurrent_does [OF assms(1,2), of w] assms
  by (intro line_completed) (auto simp: reads_def selected_def line_truncated_def)

lemma reads_write:
  assumes "0 < maxBytes" "reads format maxBytes cap ls cur" "starts \<or> cur = []"
  shows "reads format maxBytes (capture_Write cap data) (ls @ butlast (output_lines (arriving starts data) cur))
    (fst (last (output_lines (arriving starts data) cur)))"
  using assms(2,3)
proof (induction cap data arbitrary: ls cur starts rule: capture_Write.induct)
  case (1 cap data)
  consider "data = []" | (part) "data \<noteq> []" "newline \<notin> set data" | (line) "newline \<in> set data" by blast
  then show ?case
  proof cases
    case part
    then show ?thesis
      using reads_append [OF assms(1) 1(2), of data] output_lines_no_newline [of data starts "[]" cur] by (simp add: capture_Write.simps)
  next
    case line
    let ?w = "takeWhile (\<lambda>c. c \<noteq> newline) data" and ?rest = "drop (length (takeWhile (\<lambda>c. c \<noteq> newline) data) + 1) data"
    have w: "newline \<notin> set ?w" by (auto dest: set_takeWhileD)
    have "?w @ newline # ?rest = data" using line by (induction data) auto
    then have "arriving starts data = arriving starts ?w @ (newline, starts \<and> ?w = []) # arriving False ?rest"
      using arriving_append [of starts ?w "newline # ?rest"] by simp
    then have lines: "output_lines (arriving starts data) cur = (cur @ ?w, starts \<and> ?w = []) # output_lines (arriving False ?rest) []"
      by (simp only: output_lines_no_newline [OF w] output_lines.simps if_True simp_thms)
    from line have ne: "data \<noteq> []" "\<not> newline \<notin> set data" by auto
    from 1(1) [OF ne refl reads_line [OF assms(1) 1(2,3), of ?w], of False] ne show ?thesis
      unfolding lines by (simp add: capture_Write.simps [of cap data] Let_def)
  qed (use 1(2) in \<open>simp add: capture_Write.simps\<close>)
qed

lemma reads_chunks:
  assumes "0 < maxBytes" "reads format maxBytes cap ls cur"
  shows "reads format maxBytes (fold (\<lambda>chunk cap. capture_Write cap chunk) chunks cap)
    (ls @ butlast (output_lines (concat (map (arriving True) chunks)) cur)) (fst (last (output_lines (concat (map (arriving True) chunks)) cur)))"
  using assms(2)
proof (induction chunks arbitrary: cap ls cur)
  case (Cons chunk chunks)
  from Cons.IH [OF reads_write [OF assms(1) Cons.prems, of True chunk]] show ?case
    by (simp add: output_lines_append butlast_append)
qed simp

lemma capture_exact:
  assumes "0 < rc_max_capture_bytes C"
  shows "capture_Result (child_capture C chunks) = capture_of (rc_max_capture_bytes C)
    (last_kept_line (rc_format C) (rc_max_capture_bytes C) (output_lines (concat (map (arriving True) chunks)) []))"
proof -
  let ?f = "rc_format C" and ?m = "rc_max_capture_bytes C" and ?ls = "output_lines (concat (map (arriving True) chunks)) []"
  have r: "reads ?f ?m (child_capture C chunks) (butlast ?ls) (fst (last ?ls))"
    using reads_chunks [OF assms reads_new [OF assms], of ?f chunks] by (simp add: child_capture_def)
  have "(fst (last ?ls), False) = last ?ls" by (metis output_lines_last prod.collapse)
  then have ls: "?ls = butlast ?ls @ [(fst (last ?ls), False)]" by simp
  show ?thesis
  proof (cases "fst (last ?ls) = []")
    case True
    then have "last_kept_line ?f ?m ?ls = last_kept_line ?f ?m (butlast ?ls)"
      by (subst ls, subst last_kept_line_snoc) (simp add: kept_empty)
    with r True show ?thesis by (auto simp: reads_def capture_Result_def Let_def selected_def)
  next
    case False
    from r have "reads ?f ?m (completeLine (child_capture C chunks)) (butlast ?ls @ [(fst (last ?ls), False)]) []"
      by (intro line_completed [OF assms]) (auto simp: reads_def line_truncated_def)
    with False r show ?thesis unfolding ls [symmetric] by (auto simp: reads_def capture_Result_def Let_def selected_def)
  qed
qed

lemma capture_short_line:
  assumes "0 < rc_max_capture_bytes C"
    and "last_kept (rc_format C) (rc_max_capture_bytes C) (split_at_char newline (concat chunks)) = Some (l, d)"
    and "int (length l) < rc_max_capture_bytes C"
  shows "capture_Result (child_capture C chunks) =
    \<lparr>ca_data = d, ca_found = True, ca_truncated = False, ca_original_bytes = int (length l)\<rparr>"
proof -
  from assms(2) obtain starts where "last_kept_line (rc_format C) (rc_max_capture_bytes C)
      (output_lines (concat (map (arriving True) chunks)) []) = Some ((l, starts), d)"
    unfolding output_lines_of [symmetric] last_kept_lines by auto
  with capture_exact [OF assms(1), of chunks] assms(3) show ?thesis by (simp add: capture_of_def line_truncated_def)
qed

text \<open>
  C25. The capture is a function of the lines of the output: for every way in which the output of the child is cut into
  chunks, the result is that of the last line of the whole output that carries a result in the chosen format, cut at the
  capture limit, with the true length of the line. It is marked truncated when the line is longer than the limit, and in
  one more case, the only one in which the chunks matter: the line has exactly the length of the limit and its end was
  the first byte of a chunk.
\<close>

theorem capture_by_lines:
  assumes "0 < rc_max_capture_bytes C"
  shows "map fst (output_lines (concat (map (arriving True) chunks)) []) = split_at_char newline (concat chunks) \<and>
    capture_Result (child_capture C chunks) = capture_of (rc_max_capture_bytes C)
      (last_kept_line (rc_format C) (rc_max_capture_bytes C) (output_lines (concat (map (arriving True) chunks)) []))"
  using output_lines_of capture_exact [OF assms] by blast

definition small_reporter :: reporter_config where
  "small_reporter = \<lparr>rc_format = CaptureFormatLastLine, rc_termination_path = defaultTerminationPath,
     rc_max_capture_bytes = 4, rc_command = [''agent'']\<rparr>"

theorem capture_by_lines_witness:
  "0 < rc_max_capture_bytes small_reporter \<and>
   capture_Result (child_capture small_reporter [''ab'', ''c'' @ [newline] @ ''ans'', ''wer'' @ [newline]]) =
     \<lparr>ca_data = ''answ'', ca_found = True, ca_truncated = True, ca_original_bytes = 6\<rparr> \<and>
   capture_Result (child_capture small_reporter [''answ'', [newline]]) =
     \<lparr>ca_data = ''answ'', ca_found = True, ca_truncated = True, ca_original_bytes = 4\<rparr>"
proof -
  have m: "0 < rc_max_capture_bytes small_reporter" by (simp add: small_reporter_def)
  let ?of = "\<lambda>chunks. capture_of (rc_max_capture_bytes small_reporter) (last_kept_line (rc_format small_reporter)
    (rc_max_capture_bytes small_reporter) (output_lines (concat (map (arriving True) chunks)) []))"
  have "?of [''ab'', ''c'' @ [newline] @ ''ans'', ''wer'' @ [newline]] =
     \<lparr>ca_data = ''answ'', ca_found = True, ca_truncated = True, ca_original_bytes = 6\<rparr>"
    and "?of [''answ'', [newline]] = \<lparr>ca_data = ''answ'', ca_found = True, ca_truncated = True, ca_original_bytes = 4\<rparr>"
    by code_simp+
  with m capture_by_lines [OF m] show ?thesis by simp
qed

subsection \<open>A line of the runtime reaches the termination message\<close>

lemma last_kept_tail:
  assumes "\<forall>l \<in> set ys. kept format maxBytes l = None"
  shows "last_kept format maxBytes (xs @ ys) = last_kept format maxBytes xs"
  using assms
proof (induction ys rule: rev_induct)
  case (snoc y ys)
  then show ?case by (simp add: last_kept_snoc append_assoc [symmetric] del: append_assoc)
qed simp

lemma trailing_space_no_cr:
  assumes "trailing_space s = 0"
  shows "\<not> has_suffix s [CHR 0x0D]"
proof
  assume "has_suffix s [CHR 0x0D]"
  moreover have "[CHR 0x0D] \<in> set space_encodings" by (simp add: space_encodings_def)
  ultimately obtain e where e: "find (has_suffix s) space_encodings = Some e"
    by (metis find_None_iff option.exhaust)
  then have "e \<in> set space_encodings" by (auto simp: find_Some_iff)
  then have "e \<noteq> []" by (auto simp: space_encodings_def)
  with assms e show False by (simp add: trailing_space_def)
qed

lemma kept_envelope_line:
  assumes "has_prefix b ''{''" "trim_space b = b" "int (length (EnvelopeLinePrefix @ '' '' @ b)) \<le> maxBytes"
  shows "kept CaptureFormatKontextEnvelope maxBytes (EnvelopeLinePrefix @ '' '' @ b) = Some b"
proof -
  let ?l = "EnvelopeLinePrefix @ '' '' @ b"
  have "\<not> has_suffix ?l [CHR 0x0D]" by (rule trailing_space_no_cr) (rule envelope_line(1) [OF assms(1,2)])
  moreover have "take (nat maxBytes) ?l = ?l" using assms(3) by (intro take_all) linarith
  ultimately have l: "trim_suffix (take (nat maxBytes) ?l) [CHR 0x0D] = ?l" by (simp only: trim_suffix_def if_False)
  have ex: "ExtractEnvelopePayload ?l = Some b" by (rule envelope_line(2) [OF assms(1,2)])
  then have "trim_space ?l \<noteq> []" by (auto simp: ExtractEnvelopePayload_def Let_def split: if_splits)
  then show ?thesis unfolding kept_def Let_def l using ex by simp
qed

lemma reporter_forwards:
  assumes codec: "codec_ok L J" and line: "WriteEnvelopeLine L J e = Inr line"
    and C: "rc_format C = CaptureFormatKontextEnvelope" "4112 < rc_max_capture_bytes C"
    and out: "concat chunks = before @ line @ after" "before = [] \<or> last before = newline"
    and later: "\<forall>l \<in> set (split_at_char newline after). kept (rc_format C) (rc_max_capture_bytes C) l = None"
  shows "\<exists>c. Validate L J c = None \<and> en_outcome c = en_outcome e \<and>
    envelopeFromPrefixedCandidate L J (capture_Result (child_capture C chunks)) = c"
proof -
  from line obtain b where b: "Compact L J e MaxTerminationMessageBytes = Inr b" and l: "line = (EnvelopeLinePrefix @ '' '' @ b) @ [newline]"
    by (auto simp: WriteEnvelopeLine_def split: sum.splits)
  let ?l = "EnvelopeLinePrefix @ '' '' @ b" and ?m = "rc_max_capture_bytes C"
  note pay = Compact_payload [OF codec b]
  from Compact_parses [OF codec b] obtain c where fits: "int (length b) \<le> 4096"
    and c: "ParseVersioned L J b = Inr c" "Validate L J c = None" "en_outcome c = en_outcome e" by blast
  have len: "int (length ?l) < ?m" using fits C(2) by simp
  then have k: "kept (rc_format C) ?m ?l = Some b" unfolding C(1) using pay by (intro kept_envelope_line) simp_all
  have "newline \<notin> set ?l" using pay by simp
  from split_around_line [OF out(2) this, of after]
  have "last_kept (rc_format C) ?m (split_at_char newline (concat chunks)) =
      last_kept (rc_format C) ?m ((butlast (split_at_char newline before) @ [?l]) @ split_at_char newline after)"
    unfolding out(1) l by (simp only: append_assoc append.simps)
  also have "\<dots> = Some (?l, b)" unfolding last_kept_tail [OF later] last_kept_snoc using k by simp
  finally have m: "last_kept (rc_format C) ?m (split_at_char newline (concat chunks)) = Some (?l, b)" .
  have pos: "0 < ?m" using C(2) by simp
  from capture_short_line [OF pos m len] have "ca_found (capture_Result (child_capture C chunks)) \<and>
      ca_data (capture_Result (child_capture C chunks)) = b \<and> \<not> ca_truncated (capture_Result (child_capture C chunks))" by simp
  with c show ?thesis by (auto simp: envelopeFromPrefixedCandidate_def)
qed

lemma runReporter_file:
  assumes codec: "codec_ok L J" and run: "runReporter L J write_file C (Inr (chunks, code)) = (exit, Some file)"
  shows "exit = code \<and> int (length file) \<le> MaxTerminationMessageBytes \<and> trim_space file = file \<and>
    (\<exists>c. ParseVersioned L J file = Inr c \<and> Validate L J c = None \<and>
       en_outcome c = en_outcome (envelopeFromCapture L J (rc_format C) (capture_Result (child_capture C chunks)) code))"
proof -
  let ?e = "envelopeFromCapture L J (rc_format C) (capture_Result (child_capture C chunks)) code"
  from run have "Compact L J ?e MaxTerminationMessageBytes = Inr file" "exit = code"
    by (auto simp: runReporter_def writeEnvelope_def split: sum.splits option.splits)
  with Compact_parses [OF codec] Compact_payload [OF codec] show ?thesis by blast
qed

end
