(* ===== verification/Runtime_Api.thy ===== *)
theory Runtime_Api
  imports Result_Envelope
begin

text \<open>
  The provider-neutral vocabulary of the reference runtime, \<^verbatim>\<open>runtimeapi/types.go\<close>: messages of content blocks,
  tool calls and results, token usage, and the validation of a provider's response; and the conversation of
  \<^verbatim>\<open>conversation/state.go\<close>. Values are immutable here, so the clones of the source are the values themselves.
\<close>

abbreviation RoleUser :: string where "RoleUser \<equiv> ''user''"
abbreviation RoleAssistant :: string where "RoleAssistant \<equiv> ''assistant''"
abbreviation RoleTool :: string where "RoleTool \<equiv> ''tool''"

abbreviation ContentTypeText :: string where "ContentTypeText \<equiv> ''text''"
abbreviation ContentTypeToolCall :: string where "ContentTypeToolCall \<equiv> ''tool_call''"
abbreviation ContentTypeToolResult :: string where "ContentTypeToolResult \<equiv> ''tool_result''"

abbreviation StopReasonEndTurn :: string where "StopReasonEndTurn \<equiv> ''end_turn''"
abbreviation StopReasonMaxTokens :: string where "StopReasonMaxTokens \<equiv> ''max_tokens''"
abbreviation StopReasonStopSequence :: string where "StopReasonStopSequence \<equiv> ''stop_sequence''"
abbreviation StopReasonToolUse :: string where "StopReasonToolUse \<equiv> ''tool_use''"
abbreviation StopReasonContentFilter :: string where "StopReasonContentFilter \<equiv> ''content_filter''"
abbreviation StopReasonPauseTurn :: string where "StopReasonPauseTurn \<equiv> ''pause_turn''"
abbreviation StopReasonRefusal :: string where "StopReasonRefusal \<equiv> ''refusal''"
abbreviation StopReasonModelContextWindowExceeded :: string where
  "StopReasonModelContextWindowExceeded \<equiv> ''model_context_window_exceeded''"

record tool_definition =
  td_name :: string
  td_description :: string
  td_input_schema :: string

record tool_call =
  tc_id :: string
  tc_name :: string
  tc_arguments :: string

record tool_result =
  tlr_call_id :: string
  tlr_name :: string
  tlr_content :: string
  tlr_is_error :: bool
  tlr_error_code :: string
  tlr_truncated :: bool

record content_block =
  cb_type :: string
  cb_text :: string
  cb_tool_call :: "tool_call option"
  cb_tool_result :: "tool_result option"

record message =
  mg_role :: string
  mg_content :: "content_block list"

record usage =
  pu_input_tokens :: "int option"
  pu_output_tokens :: "int option"
  pu_total_tokens :: "int option"
  pu_reasoning_tokens :: "int option"

record completion_request =
  cq_model :: string
  cq_messages :: "message list"
  cq_max_tokens :: "int option"
  cq_tools :: "tool_definition list"

record completion_response =
  cp_message :: message
  cp_usage :: usage
  cp_stop_reason :: string
  cp_request_id :: string

subsection \<open>Errors\<close>

text \<open>An error is described by what \<^verbatim>\<open>errors.Is\<close> and \<^verbatim>\<open>errors.As\<close> find in its chain.\<close>

datatype ctx_error = CtxActive | CtxDeadlineExceeded | CtxCanceled

record provider_error =
  pe_code :: string
  pe_message :: string
  pe_retryable :: "bool option"
  pe_http_status :: "int option"
  pe_request_id :: string

record configuration_error =
  ce_provider :: string
  ce_code :: string
  ce_message :: string

record coded_error =
  cd_code :: string
  cd_message :: string

record runtime_error =
  er_text :: string
  er_deadline_exceeded :: bool
  er_canceled :: bool
  er_provider :: "provider_error option"
  er_configuration :: "configuration_error option"
  er_coded :: "coded_error option"

definition provider_error_text :: "provider_error \<Rightarrow> string" where
  "provider_error_text e = (if pe_code e = [] then pe_message e else pe_code e @ '': '' @ pe_message e)"

definition configuration_error_text :: "configuration_error \<Rightarrow> string" where
  "configuration_error_text e =
     (if ce_provider e = [] then ''provider configuration is invalid: '' @ ce_message e
      else ce_provider e @ '' provider configuration is invalid: '' @ ce_message e)"

definition coded_error_text :: "coded_error \<Rightarrow> string" where
  "coded_error_text e = (if cd_code e = [] then cd_message e else cd_code e @ '': '' @ cd_message e)"

definition plain_error :: "string \<Rightarrow> runtime_error" where
  "plain_error text = \<lparr>er_text = text, er_deadline_exceeded = False, er_canceled = False, er_provider = None,
     er_configuration = None, er_coded = None\<rparr>"

definition provider_failure :: "provider_error \<Rightarrow> runtime_error" where
  "provider_failure e = (plain_error (provider_error_text e))\<lparr>er_provider := Some e\<rparr>"

definition configuration_failure :: "configuration_error \<Rightarrow> runtime_error" where
  "configuration_failure e = (plain_error (configuration_error_text e))\<lparr>er_configuration := Some e\<rparr>"

definition coded_failure :: "coded_error \<Rightarrow> runtime_error" where
  "coded_failure e = (plain_error (coded_error_text e))\<lparr>er_coded := Some e\<rparr>"

definition coded :: "string \<Rightarrow> string \<Rightarrow> coded_error" where
  "coded code message = \<lparr>cd_code = code, cd_message = message\<rparr>"

definition ctx_failure :: "ctx_error \<Rightarrow> runtime_error" where
  "ctx_failure c =
     (if c = CtxDeadlineExceeded then (plain_error ''context deadline exceeded'')\<lparr>er_deadline_exceeded := True\<rparr>
      else (plain_error ''context canceled'')\<lparr>er_canceled := True\<rparr>)"

subsection \<open>Validation of a response\<close>

definition block_label :: "string \<Rightarrow> nat \<Rightarrow> string \<Rightarrow> string" where
  "block_label kind index rest = ''assistant '' @ kind @ '' block '' @ show_nat index @ rest"

definition block_error :: "golib \<Rightarrow> (string \<Rightarrow> bool) \<Rightarrow> nat \<Rightarrow> content_block \<Rightarrow> string option" where
  "block_error L json_valid index block =
     (if cb_type block = ContentTypeText then
        (if trim_space (cb_text block) = [] then Some (block_label ''content'' index '' has empty text'')
         else if cb_tool_call block \<noteq> None \<or> cb_tool_result block \<noteq> None then
           Some (block_label ''text'' index '' contains non-text data'')
         else None)
      else if cb_type block = ContentTypeToolCall then
        (case cb_tool_call block of
           None \<Rightarrow> Some (block_label ''tool-call'' index '' has no tool call'')
         | Some call \<Rightarrow>
             if trim_space (tc_id call) = [] then Some (block_label ''tool-call'' index '' has no id'')
             else if trim_space (tc_name call) = [] then Some (block_label ''tool-call'' index '' has no name'')
             else if tc_arguments call = [] \<or> \<not> json_valid (tc_arguments call) then
               Some (block_label ''tool-call'' index '' has invalid arguments'')
             else if cb_text block \<noteq> [] then Some (block_label ''tool-call'' index '' unexpectedly contains text'')
             else if cb_tool_result block \<noteq> None then Some (block_label ''tool-call'' index '' contains a tool result'')
             else None)
      else if cb_type block = ContentTypeToolResult then
        Some (block_label ''content'' index '' unexpectedly contains a tool result'')
      else Some (block_label ''content'' index ('' has unsupported type '' @ quote L (cb_type block))))"

fun blocks_error :: "golib \<Rightarrow> (string \<Rightarrow> bool) \<Rightarrow> nat \<Rightarrow> content_block list \<Rightarrow> string option" where
  "blocks_error L json_valid index [] = None"
| "blocks_error L json_valid index (block # rest) =
     (case block_error L json_valid index block of
        Some e \<Rightarrow> Some e
      | None \<Rightarrow> blocks_error L json_valid (index + 1) rest)"

fun negative_metric :: "(string \<times> int option) list \<Rightarrow> string option" where
  "negative_metric [] = None"
| "negative_metric ((name, v) # rest) =
     (if negative v then Some (name @ '' token usage cannot be negative'') else negative_metric rest)"

definition metric :: "int option \<Rightarrow> int" where
  "metric v = (case v of None \<Rightarrow> 0 | Some n \<Rightarrow> n)"

definition runtime_validateUsage :: "usage \<Rightarrow> string option" where
  "runtime_validateUsage u =
     (case negative_metric [(''input'', pu_input_tokens u), (''output'', pu_output_tokens u),
             (''total'', pu_total_tokens u), (''reasoning'', pu_reasoning_tokens u)] of
        Some e \<Rightarrow> Some e
      | None \<Rightarrow>
          (let measured0 = metric (pu_input_tokens u) in
           if pu_output_tokens u \<noteq> None \<and> measured0 > max_int64 - metric (pu_output_tokens u) then
             Some ''input and output token usage overflow int64''
           else
             (let measuredParts = measured0 + metric (pu_output_tokens u) in
              if pu_total_tokens u \<noteq> None \<and> measuredParts > metric (pu_total_tokens u) then
                Some (''total token usage '' @ show_int (metric (pu_total_tokens u)) @
                      '' is lower than measured input and output usage '' @ show_int measuredParts)
              else if pu_output_tokens u \<noteq> None \<and> pu_reasoning_tokens u \<noteq> None \<and>
                      metric (pu_reasoning_tokens u) > metric (pu_output_tokens u) then
                Some (''reasoning token usage '' @ show_int (metric (pu_reasoning_tokens u)) @
                      '' exceeds output token usage '' @ show_int (metric (pu_output_tokens u)))
              else None)))"

definition known_stop_reasons :: "string list" where
  "known_stop_reasons =
     [StopReasonEndTurn, StopReasonMaxTokens, StopReasonStopSequence, StopReasonToolUse, StopReasonContentFilter,
      StopReasonPauseTurn, StopReasonRefusal, StopReasonModelContextWindowExceeded]"

definition ValidateResponse :: "golib \<Rightarrow> (string \<Rightarrow> bool) \<Rightarrow> completion_response \<Rightarrow> string option" where
  "ValidateResponse L json_valid response =
     (if mg_role (cp_message response) \<noteq> RoleAssistant then
        Some (''assistant response has invalid role '' @ quote L (mg_role (cp_message response)))
      else if mg_content (cp_message response) = [] \<and> cp_stop_reason response \<noteq> StopReasonContentFilter \<and>
              cp_stop_reason response \<noteq> StopReasonRefusal then
        Some ''assistant response has no content''
      else case blocks_error L json_valid 0 (mg_content (cp_message response)) of
        Some e \<Rightarrow> Some e
      | None \<Rightarrow>
          if cp_stop_reason response \<notin> set known_stop_reasons then
            Some (''assistant response has unsupported stop reason '' @ quote L (cp_stop_reason response))
          else runtime_validateUsage (cp_usage response))"

subsection \<open>Reading a message\<close>

definition MessageText :: "message \<Rightarrow> string" where
  "MessageText m =
     join_strings
       (map cb_text (filter (\<lambda>b. cb_type b = ContentTypeText \<and> trim_space (cb_text b) \<noteq> []) (mg_content m))) [CHR 0x0A]"

definition MessageToolCalls :: "message \<Rightarrow> tool_call list" where
  "MessageToolCalls m =
     List.map_filter (\<lambda>b. if cb_type b \<noteq> ContentTypeToolCall then None else cb_tool_call b) (mg_content m)"

definition MessageToolResults :: "message \<Rightarrow> tool_result list" where
  "MessageToolResults m =
     List.map_filter (\<lambda>b. if cb_type b \<noteq> ContentTypeToolResult then None else cb_tool_result b) (mg_content m)"

subsection \<open>The conversation\<close>

type_synonym conversation = "message list"

definition text_block :: "string \<Rightarrow> content_block" where
  "text_block t = \<lparr>cb_type = ContentTypeText, cb_text = t, cb_tool_call = None, cb_tool_result = None\<rparr>"

definition conversation_New :: "string \<Rightarrow> conversation" where
  "conversation_New goal = [\<lparr>mg_role = RoleUser, mg_content = [text_block goal]\<rparr>]"

definition conversation_Append :: "conversation \<Rightarrow> message \<Rightarrow> conversation" where
  "conversation_Append c m = c @ [m]"

text \<open>The tool calls and the tool results of a conversation, in order.\<close>

definition calls_of :: "conversation \<Rightarrow> tool_call list" where
  "calls_of c = concat (map MessageToolCalls c)"

definition results_of :: "conversation \<Rightarrow> tool_result list" where
  "results_of c = concat (map MessageToolResults c)"

subsection \<open>What validation establishes\<close>

lemma blocks_error_None:
  "blocks_error L jv i bs = None \<Longrightarrow> b \<in> set bs \<Longrightarrow> \<exists>k. block_error L jv k b = None"
  by (induction bs arbitrary: i) (auto split: option.splits)

text \<open>A validated assistant message is text and complete tool calls, so its calls are those blocks.\<close>

lemma validated_block:
  assumes "ValidateResponse L jv r = None" "b \<in> set (mg_content (cp_message r))"
  shows "cb_type b = ContentTypeText \<and> cb_tool_call b = None \<and> trim_space (cb_text b) \<noteq> [] \<or>
    cb_type b = ContentTypeToolCall \<and> (\<exists>c. cb_tool_call b = Some c \<and> trim_space (tc_id c) \<noteq> [] \<and>
      trim_space (tc_name c) \<noteq> [] \<and> jv (tc_arguments c))"
proof -
  from assms(1) have "blocks_error L jv 0 (mg_content (cp_message r)) = None"
    by (auto simp: ValidateResponse_def split: if_splits option.splits)
  from blocks_error_None [OF this assms(2)] show ?thesis
    by (auto simp: block_error_def split: if_splits option.splits)
qed

lemma validated_usage:
  assumes "ValidateResponse L jv r = None"
  shows "\<not> negative (pu_input_tokens (cp_usage r)) \<and> \<not> negative (pu_output_tokens (cp_usage r)) \<and>
    \<not> negative (pu_total_tokens (cp_usage r)) \<and> \<not> negative (pu_reasoning_tokens (cp_usage r))"
proof -
  from assms have "runtime_validateUsage (cp_usage r) = None"
    by (auto simp: ValidateResponse_def split: if_splits option.splits)
  then have "negative_metric [(''input'', pu_input_tokens (cp_usage r)), (''output'', pu_output_tokens (cp_usage r)),
      (''total'', pu_total_tokens (cp_usage r)), (''reasoning'', pu_reasoning_tokens (cp_usage r))] = None"
    unfolding runtime_validateUsage_def by (simp only: split: option.splits)
  then show ?thesis by (simp split: if_splits)
qed

end
