(* ===== verification/Tool_Output.thy ===== *)
theory Tool_Output
  imports Go_Json "HOL-Library.Sublist"
begin

text \<open>
  The byte bound on tool results, \<^verbatim>\<open>internal/tooloutput/bound.go\<close>: a result that is too long or not
  UTF-8 becomes a JSON object holding the longest prefix that fits, found by a binary search over the prefix
  length.
\<close>

abbreviation emptyPartial :: string where
  \<open>emptyPartial \<equiv> ''{"partial":""}''\<close>

text \<open>The loop of \<^verbatim>\<open>TruncateUTF8\<close>: the last cut position at or below \<open>end\<close> that leaves valid UTF-8.\<close>

fun utf8_end :: "string \<Rightarrow> nat \<Rightarrow> nat" where
  "utf8_end value 0 = 0"
| "utf8_end value (Suc n) = (if utf8_valid (take (Suc n) value) then Suc n else utf8_end value n)"

definition TruncateUTF8 :: "string \<Rightarrow> int \<Rightarrow> string" where
  "TruncateUTF8 value maxBytes =
     (if maxBytes \<le> 0 then []
      else if int (length value) \<le> maxBytes \<and> utf8_valid value then value
      else
        (let end_pos = (if int (length value) > maxBytes then nat maxBytes else length value)
         in take (utf8_end value end_pos) value))"

definition partial_json :: "string \<Rightarrow> string" where
  \<open>partial_json p = ''{"partial":'' @ json_string p @ ''}''\<close>

function bound_search :: "string \<Rightarrow> int \<Rightarrow> int \<Rightarrow> int \<Rightarrow> string \<Rightarrow> string" where
  "bound_search value maxBytes low high best =
     (if low \<le> high then
        (let middle = low + (high - low) div 2;
             encoded = partial_json (TruncateUTF8 value middle)
         in if int (length encoded) \<le> maxBytes then bound_search value maxBytes (middle + 1) high encoded
            else bound_search value maxBytes low (middle - 1) best)
      else best)"
  by pat_completeness auto
termination
  by (relation "measure (\<lambda>(_, _, low, high, _). nat (high - low + 1))") (auto simp: Let_def)

declare bound_search.simps [simp del]

definition Bound :: "string \<Rightarrow> int \<Rightarrow> string \<times> bool" where
  "Bound value maxBytes =
     (if utf8_valid value \<and> int (length value) \<le> maxBytes then (value, False)
      else if maxBytes \<le> 0 then ([], True)
      else if maxBytes = 1 then (''0'', True)
      else if maxBytes < int (length emptyPartial) then (''{}'', True)
      else (bound_search value maxBytes 0 (int (length value)) emptyPartial, True))"

subsection \<open>Valid prefixes\<close>

lemma rune_len_append: "0 < rune_len a \<Longrightarrow> rune_len (a @ b) = rune_len a"
  using rune_len_prefix [of a "drop (rune_len a) a @ b"] by (simp flip: append_assoc)

lemma rune_len_pos: "utf8_valid a \<Longrightarrow> a \<noteq> [] \<Longrightarrow> 0 < rune_len a"
  by (subst (asm) utf8_valid.simps) (auto split: if_splits)

lemma utf8_valid_append: "utf8_valid a \<Longrightarrow> utf8_valid (a @ b) = utf8_valid b"
proof (induction a rule: utf8_valid.induct)
  case (1 a)
  show ?case
  proof (cases "a = []")
    case False
    have pos: "0 < rune_len a" using rune_len_pos 1(2) False .
    have "utf8_valid (drop (rune_len a) a)" using 1(2) False pos by (subst (asm) utf8_valid.simps) simp
    with 1(1) False pos have "utf8_valid (drop (rune_len a) a @ b) = utf8_valid b" by simp
    moreover have "utf8_valid (a @ b) = utf8_valid (drop (rune_len a) a @ b)"
      using False pos rune_len_le [of a] by (subst utf8_valid.simps) (simp add: rune_len_append)
    ultimately show ?thesis by simp
  qed simp
qed

lemma rune_len_ascii: "of_char c < (128::nat) \<Longrightarrow> rune_len (c # s) = 1"
  by (simp add: rune_len_def byte_in_def)

lemma utf8_valid_ascii: "\<forall>c \<in> set s. of_char c < (128::nat) \<Longrightarrow> utf8_valid s"
proof (induction s)
  case (Cons c s)
  then show ?case by (subst utf8_valid.simps) (simp add: rune_len_ascii)
qed simp

lemma rune_len_three: "2 \<le> rune_len (CHR 0xE2 # s) \<Longrightarrow> rune_len (CHR 0xE2 # s) = 3"
  by (auto simp: rune_len_def byte_in_def split: if_splits list.splits)

lemma json_escape_front_append:
  assumes "0 < rune_len a"
  shows "json_escape_front (a @ b) = json_escape_front a"
proof -
  have ne: "a \<noteq> []" using assms rune_len_le [of a] by auto
  have take3: "take 3 (a @ b) = CHR 0xE2 # r \<longleftrightarrow> take 3 a = CHR 0xE2 # r" if "rune_len a \<noteq> 1" for r
  proof (cases "hd a = CHR 0xE2")
    case True
    then have "rune_len a = 3" using rune_len_three [of "tl a"] assms that ne by (cases a) auto
    then show ?thesis using rune_len_le [of a] by simp
  next
    case False
    with ne show ?thesis by (cases a) auto
  qed
  have cut: "take (rune_len a) (a @ b) = take (rune_len a) a" and hd: "hd (a @ b) = hd a"
    using ne rune_len_le [of a] by simp_all
  show ?thesis
    unfolding json_escape_front_def rune_len_append [OF assms] cut hd using take3 by (simp del: take_append)
qed

lemma json_escape_front_len: "0 < rune_len a \<Longrightarrow> snd (json_escape_front a) = rune_len a"
  using rune_len_three [of "tl a"] by (cases a) (auto simp: json_escape_front_def)

lemma json_escape_append: "utf8_valid a \<Longrightarrow> json_escape (a @ b) = json_escape a @ json_escape b"
proof (induction a rule: utf8_valid.induct)
  case (1 a)
  show ?case
  proof (cases "a = []")
    case False
    have pos: "0 < rune_len a" using rune_len_pos 1(2) False .
    have "utf8_valid (drop (rune_len a) a)" using 1(2) False pos by (subst (asm) utf8_valid.simps) simp
    with 1(1) False pos have ih: "json_escape (drop (rune_len a) a @ b) = json_escape (drop (rune_len a) a) @ json_escape b" by simp
    have "json_escape (a @ b) = fst (json_escape_front a) @ json_escape (drop (rune_len a) a @ b)"
      using False pos rune_len_le [of a]
      by (subst json_escape.simps) (simp add: json_escape_front_append json_escape_front_len)
    moreover have "json_escape a = fst (json_escape_front a) @ json_escape (drop (rune_len a) a)"
      using False pos by (subst json_escape.simps) (simp add: json_escape_front_len)
    ultimately show ?thesis using ih by simp
  qed simp
qed

lemma rune_len_one: "rune_len s = 1 \<Longrightarrow> of_char (hd s) < (128::nat)"
  by (auto simp: rune_len_def byte_in_def split: list.splits if_splits)

lemma hex_digit_ascii: "of_char (hex_digit n) < (128::nat)"
proof -
  have "hex_digit n \<in> set ''0123456789abcdef''" unfolding hex_digit_def by (rule nth_mem) simp
  then show ?thesis by auto
qed

lemma json_escape_byte_ascii: "of_char c < (128::nat) \<Longrightarrow> utf8_valid (json_escape_byte c)"
  by (rule utf8_valid_ascii) (auto simp: json_escape_byte_def hex_digit_ascii)

lemma utf8_valid_rune: "utf8_valid (take (rune_len s) s)"
proof (cases "rune_len s = 0")
  case False
  then have "rune_len (take (rune_len s) s) = rune_len s" using rune_len_prefix [of s "[]"] by simp
  with False show ?thesis by (subst utf8_valid.simps) simp
qed simp

lemma json_escape_front_valid: "utf8_valid (fst (json_escape_front s))"
  using json_escape_byte_ascii [OF rune_len_one] utf8_valid_rune [of s]
  by (simp add: json_escape_front_def utf8_valid_ascii)

lemma json_escape_valid: "utf8_valid (json_escape s)"
proof (induction s rule: json_escape.induct)
  case (1 s)
  then show ?case
    by (cases "s = []") (simp, subst json_escape.simps, simp add: utf8_valid_append json_escape_front_valid)
qed

lemma utf8_valid_Cons: "of_char c < (128::nat) \<Longrightarrow> utf8_valid (c # s) = utf8_valid s"
  using utf8_valid_append [of "[c]" s] by (simp add: utf8_valid_ascii)

lemma partial_json_valid: "utf8_valid (partial_json p)"
  by (simp add: partial_json_def json_string_def utf8_valid_Cons utf8_valid_append json_escape_valid)

lemma partial_json_Nil: "partial_json [] = emptyPartial"
  by (simp add: partial_json_def json_string_def)

lemma partial_json_prefix:
  assumes "prefix p q" "utf8_valid p"
  shows "length (partial_json p) \<le> length (partial_json q)"
  using assms by (auto simp: prefix_def partial_json_def json_string_def json_escape_append)

subsection \<open>The longest valid prefix\<close>

lemma utf8_end_le: "utf8_end v n \<le> n"
  by (induction n) auto

lemma utf8_end_valid: "utf8_valid (take (utf8_end v n) v)"
  by (induction n) auto

lemma utf8_end_greatest: "m \<le> n \<Longrightarrow> utf8_valid (take m v) \<Longrightarrow> m \<le> utf8_end v n"
  by (induction n) (auto simp: le_Suc_eq)

lemma TruncateUTF8_eq: "TruncateUTF8 v m = take (utf8_end v (min (nat m) (length v))) v"
proof -
  have "utf8_end v (length v) = length v" if "utf8_valid v"
    using utf8_end_greatest [of "length v" "length v" v] utf8_end_le [of v "length v"] that by simp
  moreover have "(if int (length v) > m then nat m else length v) = min (nat m) (length v)" if "0 < m"
    using that by auto
  ultimately show ?thesis by (auto simp: TruncateUTF8_def min_def)
qed

lemma TruncateUTF8_valid: "utf8_valid (TruncateUTF8 v m)" and TruncateUTF8_prefix: "prefix (TruncateUTF8 v m) v"
  by (simp_all add: TruncateUTF8_eq utf8_end_valid take_is_prefix)

lemma TruncateUTF8_length: "length (TruncateUTF8 v m) \<le> nat m"
  using utf8_end_le [of v "min (nat m) (length v)"] by (simp add: TruncateUTF8_eq)

lemma TruncateUTF8_greatest:
  assumes "prefix q v" "utf8_valid q" "length q \<le> nat m"
  shows "prefix q (TruncateUTF8 v m)"
proof -
  have q: "q = take (length q) v" "length q \<le> length v" using assms(1) by (auto simp: prefix_def)
  then have "utf8_valid (take (length q) v)" using assms(2) by simp
  then have "length q \<le> utf8_end v (min (nat m) (length v))" using assms(3) q(2) by (intro utf8_end_greatest) simp_all
  then have "take (length q) (TruncateUTF8 v m) = q" using q(1) by (simp add: TruncateUTF8_eq min_absorb1)
  then show ?thesis using take_is_prefix [of "length q" "TruncateUTF8 v m"] by simp
qed

lemma TruncateUTF8_mono: "m \<le> m' \<Longrightarrow> prefix (TruncateUTF8 v m) (TruncateUTF8 v m')"
  using TruncateUTF8_length [of v m]
  by (intro TruncateUTF8_greatest TruncateUTF8_prefix TruncateUTF8_valid) linarith

subsection \<open>The search\<close>

definition fits :: "string \<Rightarrow> int \<Rightarrow> int \<Rightarrow> bool" where
  "fits v maxBytes m \<longleftrightarrow> int (length (partial_json (TruncateUTF8 v m))) \<le> maxBytes"

lemma fits_antimono: "fits v M m' \<Longrightarrow> m \<le> m' \<Longrightarrow> fits v M m"
  using partial_json_prefix [OF TruncateUTF8_mono [of m m' v] TruncateUTF8_valid] by (simp add: fits_def)

lemma bound_search_spec:
  assumes "best = partial_json (TruncateUTF8 v (low - 1))" "fits v M (low - 1)" "low - 1 \<le> high" "\<not> fits v M (high + 1) \<or> high = int (length v)"
  shows "\<exists>k. bound_search v M low high best = partial_json (TruncateUTF8 v k) \<and> fits v M k \<and>
    (\<not> fits v M (k + 1) \<or> k = int (length v))"
  using assms
proof (induction v M low high best rule: bound_search.induct)
  case (1 v M low high best)
  define m where "m = low + (high - low) div 2"
  show ?case
  proof (cases "low \<le> high")
    case True
    then have m: "low \<le> m" "m \<le> high" by (auto simp: m_def)
    have step: "bound_search v M low high best =
        (if fits v M m then bound_search v M (m + 1) high (partial_json (TruncateUTF8 v m)) else bound_search v M low (m - 1) best)"
      using True by (subst bound_search.simps) (simp add: fits_def m_def Let_def)
    show ?thesis
    proof (cases "fits v M m")
      case fit: True
      show ?thesis unfolding step if_P [OF fit]
        by (rule 1(1) [OF True m_def refl]) (use fit 1(6) m in \<open>simp_all add: fits_def\<close>)
    next
      case out: False
      show ?thesis unfolding step if_not_P [OF out]
        by (rule 1(2) [OF True m_def refl]) (use out 1(3,4) m in \<open>simp_all add: fits_def\<close>)
    qed
  next
    case False
    with 1(5) have high: "high = low - 1" by simp
    have "bound_search v M low high best = best" using False by (subst bound_search.simps) simp
    then show ?thesis using 1(3,4,6) unfolding high by (intro exI [of _ "low - 1"] conjI) (simp_all only:)
  qed
qed

lemma bound_search_result:
  assumes "14 \<le> maxBytes"
  shows "\<exists>k. bound_search v maxBytes 0 (int (length v)) emptyPartial = partial_json (TruncateUTF8 v k) \<and>
    fits v maxBytes k \<and> (\<not> fits v maxBytes (k + 1) \<or> k = int (length v))"
proof -
  have "partial_json (TruncateUTF8 v (0 - 1)) = emptyPartial" by (simp add: TruncateUTF8_def partial_json_Nil)
  with assms show ?thesis by (intro bound_search_spec) (simp_all add: fits_def)
qed

lemma Bound_length:
  assumes "Bound v maxBytes = (content, truncated)"
  shows "int (length content) \<le> max 0 maxBytes \<and> (\<not> truncated \<longrightarrow> content = v)"
  using assms bound_search_result [of maxBytes v] by (auto simp: Bound_def fits_def split: if_splits)

text \<open>
  C24. Bounding a tool result keeps the limit and loses as little as possible. The content is valid UTF-8 and no
  longer than the limit; it is the value itself, and not marked truncated, exactly when the value is valid and
  fits. Otherwise, when the limit leaves room for the envelope at all, it is the JSON object of the longest valid
  prefix whose encoding fits: every prefix of the value that is valid and fits is a prefix of the kept one.
\<close>

theorem Bound_keeps_longest_prefix:
  assumes "Bound value maxBytes = (content, truncated)"
  shows "utf8_valid content \<and> int (length content) \<le> max 0 maxBytes \<and>
    (truncated \<longleftrightarrow> \<not> (utf8_valid value \<and> int (length value) \<le> maxBytes)) \<and> (\<not> truncated \<longrightarrow> content = value) \<and>
    (truncated \<and> 14 \<le> maxBytes \<longrightarrow> (\<exists>p. content = partial_json p \<and> prefix p value \<and> utf8_valid p \<and>
       (\<forall>q. prefix q value \<and> utf8_valid q \<and> int (length (partial_json q)) \<le> maxBytes \<longrightarrow> prefix q p)))"
proof (cases "(utf8_valid value \<and> int (length value) \<le> maxBytes) \<or> maxBytes < 14")
  case True
  with assms show ?thesis by (auto simp: Bound_def utf8_valid_ascii split: if_splits)
next
  case False
  have "content = bound_search value maxBytes 0 (int (length value)) emptyPartial" and t: truncated
    using assms False by (auto simp: Bound_def split: if_splits)
  then obtain k where k: "content = partial_json (TruncateUTF8 value k)" "fits value maxBytes k"
      "\<not> fits value maxBytes (k + 1) \<or> k = int (length value)" using bound_search_result [of maxBytes "value"] False by auto
  have "prefix q (TruncateUTF8 value k)"
    if q: "prefix q value" "utf8_valid q" "int (length (partial_json q)) \<le> maxBytes" for q
  proof (rule ccontr)
    assume no: "\<not> ?thesis"
    then have long: "k < int (length q)" using TruncateUTF8_greatest [OF q(1,2), of k] by linarith
    have "TruncateUTF8 value (int (length q)) = q"
      using TruncateUTF8_greatest [OF q(1,2), of "int (length q)"] TruncateUTF8_length [of "value" "int (length q)"]
      by (auto simp: prefix_def)
    then have "fits value maxBytes (int (length q))" using q(3) by (simp add: fits_def)
    then show False using k(3) long fits_antimono [of "value" maxBytes "int (length q)" "k + 1"] prefix_length_le [OF q(1)] by auto
  qed
  with k t False show ?thesis
    using TruncateUTF8_prefix TruncateUTF8_valid partial_json_valid by (auto simp: fits_def)
qed

theorem Bound_keeps_longest_prefix_witness:
  "\<exists>p. Bound (replicate 30 (CHR 0x22)) 20 = (partial_json p, True) \<and> p = replicate 3 (CHR 0x22)"
proof -
  have b: "Bound (replicate 30 (CHR 0x22)) 20 = (partial_json (replicate 3 (CHR 0x22)), True)" by code_simp
  from Bound_keeps_longest_prefix [OF b] obtain p where "partial_json (replicate 3 (CHR 0x22)) = partial_json p" by auto
  then show ?thesis using b by simp
qed

end
