(* ===== verification/Loops.thy ===== *)
theory Loops
  imports Main
begin

text \<open>
  Loops without a bound of their own. A loop repeats a step until the step yields a result; not returning is
  \<open>None\<close>. The locale \<open>step_loop\<close> is what its clients use: partial correctness by an invariant, and that the loop
  returns when a measure decreases on the states the invariant allows.
\<close>

locale step_loop =
  fixes step :: "'x \<Rightarrow> 'r + 'x" and loop :: "'x \<Rightarrow> 'r option"
  assumes unfold: "loop x = (case step x of Inl r \<Rightarrow> Some r | Inr x' \<Rightarrow> loop x')"
    and steps: "(\<And>x r. step x = Inl r \<Longrightarrow> P x r) \<Longrightarrow> (\<And>x x' r. step x = Inr x' \<Longrightarrow> P x' r \<Longrightarrow> P x r) \<Longrightarrow>
      loop x = Some r \<Longrightarrow> P x r"
begin

lemma partial_correctness:
  assumes "loop x = Some r" "good x"
    and keeps: "\<And>x x'. good x \<Longrightarrow> step x = Inr x' \<Longrightarrow> good x'"
    and gives: "\<And>x r. good x \<Longrightarrow> step x = Inl r \<Longrightarrow> post r"
  shows "post r"
proof -
  have "good x \<longrightarrow> post r"
    by (rule steps [where P = "\<lambda>x r. good x \<longrightarrow> post r", OF _ _ assms(1)]) (use keeps gives in blast)+
  with assms(2) show ?thesis by simp
qed

lemma returns:
  assumes "good x"
    and keeps: "\<And>x x'. good x \<Longrightarrow> step x = Inr x' \<Longrightarrow> good x' \<and> (m x' :: nat) < m x"
  shows "\<exists>r. loop x = Some r"
  using assms(1)
proof (induction "m x" arbitrary: x rule: less_induct)
  case less
  show ?case
  proof (cases "step x")
    case (Inl r)
    then show ?thesis by (subst unfold) simp
  next
    case (Inr x')
    with keeps [OF less.prems Inr] less.hyps show ?thesis by (subst unfold) simp
  qed
qed

end

end
