(* ===== verification/Runtime_Engine.thy ===== *)
theory Runtime_Engine
  imports Runtime_Api Runtime_Config Tool_Output Loops
begin

text \<open>
  The engine of the reference runtime, \<^verbatim>\<open>runtimes/reference/internal/engine\<close>: limits (\<^verbatim>\<open>limits.go\<close>), the result
  envelopes (\<^verbatim>\<open>envelope.go\<close>), one provider turn and one batch of tool calls (\<^verbatim>\<open>loop.go\<close>), and the loop that
  alternates them until a final answer, a failure or a limit (\<^verbatim>\<open>engine.go\<close>).

  The provider, the tools, the clock and the context are the record \<open>engine\<close>: operations on a world of arbitrary
  type, so that every provider behaviour is covered. A step returns its value, the trace of what it did, and the
  next world. An error is described by what \<^verbatim>\<open>errors.Is\<close> and \<^verbatim>\<open>errors.As\<close> find in its chain. The loop has no
  bound of its own: \<open>run_loop\<close> is a partial function, and not returning is \<open>None\<close>.
\<close>

subsection \<open>The world of a run\<close>

datatype emission =
    EmStarted string string string string
  | EmToolsAvailable "string list"
  | EmProviderCompleted int string int
  | EmUsage int result_usage
  | EmTool tool_result int int "string option"
  | EmOutput string
  | EmError string string "bool option"

datatype rt_event =
    Emitted emission
  | Completed completion_request "runtime_error + completion_response"
  | Executed tool_call "runtime_error + tool_result"
  | ClosedTools "string option"

record 's engine =
  eg_lib :: golib
  eg_json_valid :: "string \<Rightarrow> bool"
  eg_emitter :: bool
  eg_config :: config
  eg_now :: "'s \<Rightarrow> time \<times> 's"
  eg_ctx_err :: "'s \<Rightarrow> ctx_error \<times> 's"
  eg_complete :: "completion_request \<Rightarrow> 's \<Rightarrow> (runtime_error + completion_response) \<times> 's"
  eg_definitions :: "'s \<Rightarrow> tool_definition list \<times> 's"
  eg_execute :: "tool_call \<Rightarrow> 's \<Rightarrow> (runtime_error + tool_result) \<times> 's"
  eg_close :: "'s \<Rightarrow> string option \<times> 's"

type_synonym ('s, 'a) rt = "'s \<Rightarrow> 'a \<times> rt_event list \<times> 's"

definition rt_return :: "'a \<Rightarrow> ('s, 'a) rt" where
  "rt_return x s = (x, [], s)"

definition rt_bind :: "('s, 'a) rt \<Rightarrow> ('a \<Rightarrow> ('s, 'b) rt) \<Rightarrow> ('s, 'b) rt" where
  "rt_bind m f s = (case m s of (x, t, s1) \<Rightarrow> case f x s1 of (y, t', s2) \<Rightarrow> (y, t @ t', s2))"

definition rt_read :: "('s \<Rightarrow> 'a \<times> 's) \<Rightarrow> ('s, 'a) rt" where
  "rt_read op s = (case op s of (x, s1) \<Rightarrow> (x, [], s1))"

definition rt_call :: "('a \<Rightarrow> rt_event) \<Rightarrow> ('s \<Rightarrow> 'a \<times> 's) \<Rightarrow> ('s, 'a) rt" where
  "rt_call ev op s = (case op s of (x, s1) \<Rightarrow> (x, [ev x], s1))"

definition emit :: "'s engine \<Rightarrow> emission \<Rightarrow> ('s, unit) rt" where
  "emit X e s = ((), (if eg_emitter X then [Emitted e] else []), s)"

abbreviation clock :: "'s engine \<Rightarrow> ('s, time) rt" where
  "clock X \<equiv> rt_read (eg_now X)"

subsection \<open>Limits\<close>

definition saturatingAdd :: "int \<Rightarrow> int \<Rightarrow> int" where
  "saturatingAdd left right =
     (if right > 0 \<and> left > max_int64 - right then max_int64
      else if right < 0 \<and> left < min_int64 - right then min_int64
      else left + right)"

definition addMetric :: "int option \<Rightarrow> int option \<Rightarrow> int option" where
  "addMetric acc current =
     (case current of
        None \<Rightarrow> acc
      | Some c \<Rightarrow> (case acc of None \<Rightarrow> Some c | Some t \<Rightarrow> Some (saturatingAdd t c)))"

definition addUsage :: "usage \<Rightarrow> usage \<Rightarrow> usage" where
  "addUsage acc current =
     \<lparr>pu_input_tokens = addMetric (pu_input_tokens acc) (pu_input_tokens current),
      pu_output_tokens = addMetric (pu_output_tokens acc) (pu_output_tokens current),
      pu_total_tokens = addMetric (pu_total_tokens acc) (pu_total_tokens current),
      pu_reasoning_tokens = addMetric (pu_reasoning_tokens acc) (pu_reasoning_tokens current)\<rparr>"

definition measuredTokens :: "usage \<Rightarrow> int" where
  "measuredTokens u =
     (let p0 = (case pu_input_tokens u of None \<Rightarrow> 0 | Some n \<Rightarrow> saturatingAdd 0 n);
          p1 = (case pu_output_tokens u of None \<Rightarrow> p0 | Some n \<Rightarrow> saturatingAdd p0 n)
      in case pu_total_tokens u of None \<Rightarrow> p1 | Some acc \<Rightarrow> if acc > p1 then acc else p1)"

record limits_policy =
  lm_token_budget :: "int option"
  lm_max_turns :: "int option"
  lm_max_tool_calls :: "int option"
  lm_max_tool_result_bytes :: "int option"
  lm_max_total_tool_output_bytes :: "int option"

definition newLimitsPolicy :: "config \<Rightarrow> limits_policy" where
  "newLimitsPolicy c =
     \<lparr>lm_token_budget = cf_token_budget c, lm_max_turns = cf_max_turns c, lm_max_tool_calls = cf_max_tool_calls c,
      lm_max_tool_result_bytes = cf_max_tool_result_bytes c, lm_max_total_tool_output_bytes = cf_max_total_tool_output_bytes c\<rparr>"

record loop_state =
  ls_conversation :: conversation
  ls_usage :: usage
  ls_consumed_tokens :: int
  ls_total_tool_output_bytes :: int
  ls_turns :: int
  ls_tool_calls :: int
  ls_last_request_id :: string
  ls_started_at :: time

definition no_usage :: usage where
  "no_usage = \<lparr>pu_input_tokens = None, pu_output_tokens = None, pu_total_tokens = None, pu_reasoning_tokens = None\<rparr>"

definition newLoopState :: "string \<Rightarrow> time \<Rightarrow> loop_state" where
  "newLoopState goal t =
     \<lparr>ls_conversation = conversation_New goal, ls_usage = no_usage, ls_consumed_tokens = 0, ls_total_tool_output_bytes = 0,
      ls_turns = 0, ls_tool_calls = 0, ls_last_request_id = [], ls_started_at = t\<rparr>"

definition reached :: "int option \<Rightarrow> int \<Rightarrow> bool" where
  "reached limit v \<longleftrightarrow> (case limit of None \<Rightarrow> False | Some n \<Rightarrow> v \<ge> n)"

definition batchExceeds :: "int option \<Rightarrow> int \<Rightarrow> int \<Rightarrow> bool" where
  "batchExceeds limit consumed requested =
     (case limit of None \<Rightarrow> False
      | Some n \<Rightarrow> (let remaining = wrap64 (n - consumed) in remaining < 0 \<or> requested > remaining))"

type_synonym limit_violation = "string \<times> string"

definition checkBeforeProviderTurn :: "limits_policy \<Rightarrow> loop_state \<Rightarrow> limit_violation option" where
  "checkBeforeProviderTurn lm st =
     (if reached (lm_max_turns lm) (ls_turns st)
      then Some (''turn_limit_exceeded'', ''maximum provider turns reached before final output'') else None)"

definition checkAfterResponse :: "limits_policy \<Rightarrow> loop_state \<Rightarrow> limit_violation option" where
  "checkAfterResponse lm st =
     (if (case lm_token_budget lm of None \<Rightarrow> False | Some b \<Rightarrow> ls_consumed_tokens st > b)
      then Some (''token_limit_exceeded'', ''measured provider usage exceeded the run token budget'') else None)"

definition checkBeforeToolCall :: "limits_policy \<Rightarrow> loop_state \<Rightarrow> limit_violation option" where
  "checkBeforeToolCall lm st =
     (if reached (lm_max_total_tool_output_bytes lm) (ls_total_tool_output_bytes st)
      then Some (''tool_output_limit_exceeded'', ''total tool-output limit reached before final output'') else None)"

definition checkBeforeToolBatch :: "limits_policy \<Rightarrow> loop_state \<Rightarrow> int \<Rightarrow> limit_violation option" where
  "checkBeforeToolBatch lm st requestedCalls =
     (if reached (lm_token_budget lm) (ls_consumed_tokens st) then
        Some (''token_limit_exceeded'', ''run token budget was exhausted before tool results could be returned'')
      else if reached (lm_max_turns lm) (ls_turns st) then
        Some (''turn_limit_exceeded'', ''maximum provider turns reached before tool results could be returned'')
      else if batchExceeds (lm_max_tool_calls lm) (ls_tool_calls st) requestedCalls then
        Some (''tool_call_limit_exceeded'', ''maximum tool calls reached before final output'')
      else checkBeforeToolCall lm st)"

definition remainingTokenBudget :: "limits_policy \<Rightarrow> int \<Rightarrow> int option" where
  "remainingTokenBudget lm consumed =
     (case lm_token_budget lm of
        None \<Rightarrow> None
      | Some b \<Rightarrow> (let remaining = wrap64 (b - consumed) in Some (if remaining < 1 then 1 else remaining)))"

definition tool_output_allowance :: "limits_policy \<Rightarrow> string \<Rightarrow> int \<Rightarrow> int" where
  "tool_output_allowance lm content totalBytes =
     (let m0 = int (length content);
          m1 = (case lm_max_tool_result_bytes lm of Some n \<Rightarrow> if n < m0 then n else m0 | None \<Rightarrow> m0);
          m2 = (case lm_max_total_tool_output_bytes lm of
                  None \<Rightarrow> m1
                | Some n \<Rightarrow> (let remaining = wrap64 (n - totalBytes) in if remaining < m1 then remaining else m1))
      in if m2 < 0 then 0 else m2)"

definition applyToolOutput :: "limits_policy \<Rightarrow> tool_result \<Rightarrow> int \<Rightarrow> tool_result \<times> int" where
  "applyToolOutput lm result totalBytes =
     (case Bound (tlr_content result) (tool_output_allowance lm (tlr_content result) totalBytes) of
        (content, truncated) \<Rightarrow>
          (let r = (if truncated then result\<lparr>tlr_content := content, tlr_truncated := True\<rparr> else result)
           in (r, wrap64 (totalBytes + int (length (tlr_content r))))))"

subsection \<open>Envelopes\<close>

record metadata =
  md_provider :: string
  md_model :: string
  md_request_id :: string
  md_started_at :: time
  md_completed_at :: time
  md_turns :: int
  md_tool_calls :: int

definition metadata_of :: "config \<Rightarrow> loop_state \<Rightarrow> string \<Rightarrow> time \<Rightarrow> metadata" where
  "metadata_of c st requestID t =
     \<lparr>md_provider = cf_provider c, md_model = cf_model c, md_request_id = requestID, md_started_at = ls_started_at st,
      md_completed_at = t, md_turns = ls_turns st, md_tool_calls = ls_tool_calls st\<rparr>"

definition milliseconds :: "duration \<Rightarrow> int" where
  "milliseconds d = (if d < 0 then - ((- d) div 1000000) else d div 1000000)"

definition envelopeUsage :: "usage \<Rightarrow> result_usage option" where
  "envelopeUsage u =
     (if pu_input_tokens u = None \<and> pu_output_tokens u = None \<and> pu_total_tokens u = None \<and> pu_reasoning_tokens u = None then None
      else Some \<lparr>ru_input_tokens = pu_input_tokens u, ru_output_tokens = pu_output_tokens u,
                 ru_total_tokens = pu_total_tokens u, ru_reasoning_tokens = pu_reasoning_tokens u, ru_dollars = None\<rparr>)"

definition envelope_timing :: "metadata \<Rightarrow> timing" where
  "envelope_timing m = \<lparr>ti_started_at = Some (md_started_at m), ti_completed_at = Some (md_completed_at m),
     ti_duration_millis = Some (milliseconds (time_sub (md_completed_at m) (md_started_at m))), ti_provider_latency = None\<rparr>"

definition envelope_execution :: "metadata \<Rightarrow> execution_info" where
  "envelope_execution m = \<lparr>ex_provider = md_provider m, ex_model = md_model m, ex_request_id = md_request_id m,
     ex_turns = Some (md_turns m), ex_tool_calls = Some (md_tool_calls m)\<rparr>"

definition Success :: "message \<Rightarrow> usage \<Rightarrow> metadata \<Rightarrow> envelope" where
  "Success m u md = empty_envelope\<lparr>en_api_version := ResultAPIVersion, en_outcome := OutcomeSucceeded,
     en_output := Some \<lparr>ro_media_type = DefaultMediaType, ro_value = json_string (MessageText m)\<rparr>,
     en_usage := envelopeUsage u, en_timing := Some (envelope_timing md), en_execution := Some (envelope_execution md)\<rparr>"

definition failureEnvelope :: "string \<Rightarrow> string \<Rightarrow> bool option \<Rightarrow> metadata \<Rightarrow> envelope" where
  "failureEnvelope code message retryable md = empty_envelope\<lparr>en_api_version := ResultAPIVersion, en_outcome := OutcomeFailed,
     en_timing := Some (envelope_timing md), en_execution := Some (envelope_execution md),
     en_error := Some \<lparr>ei_code = code, ei_message = message, ei_retryable = retryable\<rparr>\<rparr>"

record run_result =
  xr_envelope :: envelope
  xr_exit_code :: int

definition fail :: "'s engine \<Rightarrow> loop_state \<Rightarrow> string \<Rightarrow> string \<Rightarrow> bool option \<Rightarrow> string \<Rightarrow> ('s, run_result) rt" where
  "fail X st code message retryable requestID =
     rt_bind (emit X (EmError code message retryable)) (\<lambda>_.
     rt_bind (clock X) (\<lambda>t.
     rt_return \<lparr>xr_envelope = (failureEnvelope code message retryable (metadata_of (eg_config X) st requestID t))
                  \<lparr>en_usage := envelopeUsage (ls_usage st)\<rparr>, xr_exit_code = 1\<rparr>))"

definition failLimit :: "'s engine \<Rightarrow> loop_state \<Rightarrow> limit_violation \<Rightarrow> string \<Rightarrow> ('s, run_result) rt" where
  "failLimit X st violation requestID = fail X st (fst violation) (snd violation) (Some False) requestID"

definition normalizeError :: "'s engine \<Rightarrow> runtime_error \<Rightarrow> ('s, string \<times> string \<times> bool option \<times> string) rt" where
  "normalizeError X err =
     rt_bind (rt_read (eg_ctx_err X)) (\<lambda>ctx.
     if ctx = CtxDeadlineExceeded \<or> er_deadline_exceeded err then
       rt_return (''deadline_exceeded'', ''runtime wallclock limit exceeded'', Some True, [])
     else rt_bind (rt_read (eg_ctx_err X)) (\<lambda>ctx'.
     if ctx' = CtxCanceled \<or> er_canceled err then
       rt_return (''cancelled'', ''runtime execution was cancelled'', Some True, [])
     else case er_provider err of
       Some p \<Rightarrow> rt_return (pe_code p, pe_message p, pe_retryable p, pe_request_id p)
     | None \<Rightarrow>
         (case er_configuration err of
            Some c \<Rightarrow> rt_return ((if ce_code c = [] then ''invalid_provider_configuration'' else ce_code c),
                        configuration_error_text c, None, [])
          | None \<Rightarrow> rt_return (''provider_error'', er_text err, None, []))))"

definition fail_error :: "'s engine \<Rightarrow> loop_state \<Rightarrow> runtime_error \<Rightarrow> string option \<Rightarrow> ('s, run_result) rt" where
  "fail_error X st err requestID =
     rt_bind (normalizeError X err) (\<lambda>(code, message, retryable, rid).
       fail X st code message retryable (case requestID of None \<Rightarrow> rid | Some r \<Rightarrow> r))"

subsection \<open>One provider turn\<close>

datatype turn_outcome =
    TurnPaused
  | TurnFinal completion_response run_result
  | TurnToolBatch completion_response "tool_call list"
  | TurnFailed run_result

definition terminalStopFailure :: "golib \<Rightarrow> string \<Rightarrow> string \<times> string" where
  "terminalStopFailure L reason =
     (if reason = StopReasonMaxTokens then
        (''max_tokens_reached'', ''provider stopped before final output after reaching its token limit'')
      else if reason = StopReasonContentFilter then
        (''content_filtered'', ''provider filtered the response before final output'')
      else if reason = StopReasonRefusal then (''provider_refusal'', ''provider refused the request'')
      else if reason = StopReasonModelContextWindowExceeded then
        (''context_window_exceeded'', ''provider context window was exhausted before final output'')
      else if reason = StopReasonToolUse then
        (''invalid_provider_response'', ''provider stopped for tool use without returning a tool call'')
      else (''invalid_provider_response'', ''provider stopped without final output for reason '' @ quote L reason))"

definition turn_failed :: "('s, run_result) rt \<Rightarrow> ('s, turn_outcome) rt" where
  "turn_failed m = rt_bind m (\<lambda>r. rt_return (TurnFailed r))"

text \<open>After the response was recorded: what it asks for.\<close>

definition judge_turn :: "'s engine \<Rightarrow> loop_state \<Rightarrow> completion_response \<Rightarrow> ('s, turn_outcome) rt" where
  "judge_turn X st response =
     (let calls = MessageToolCalls (cp_message response) in
      if calls \<noteq> [] then
        (if cp_stop_reason response \<noteq> StopReasonToolUse then
           turn_failed (fail X st ''invalid_provider_response''
             (''provider returned tool calls with stop reason '' @ quote (eg_lib X) (cp_stop_reason response)) None
             (cp_request_id response))
         else rt_return (TurnToolBatch response calls))
      else if cp_stop_reason response = StopReasonPauseTurn then rt_return TurnPaused
      else if cp_stop_reason response \<noteq> StopReasonEndTurn \<and> cp_stop_reason response \<noteq> StopReasonStopSequence then
        (case terminalStopFailure (eg_lib X) (cp_stop_reason response) of (code, message) \<Rightarrow>
           turn_failed (fail X st code message None (cp_request_id response)))
      else rt_bind (clock X) (\<lambda>t.
        rt_return (TurnFinal response
          \<lparr>xr_envelope = Success (cp_message response) (ls_usage st) (metadata_of (eg_config X) st (cp_request_id response) t),
           xr_exit_code = 0\<rparr>)))"

definition emit_usage :: "'s engine \<Rightarrow> int \<Rightarrow> usage \<Rightarrow> ('s, unit) rt" where
  "emit_usage X turn u = (case envelopeUsage u of None \<Rightarrow> rt_return () | Some v \<Rightarrow> emit X (EmUsage turn v))"

definition accept_response ::
  "'s engine \<Rightarrow> limits_policy \<Rightarrow> loop_state \<Rightarrow> time \<Rightarrow> completion_response \<Rightarrow> ('s, turn_outcome \<times> loop_state) rt" where
  "accept_response X lm st requestStartedAt response =
     (let st1 = st\<lparr>ls_usage := addUsage (ls_usage st) (cp_usage response),
                   ls_consumed_tokens := saturatingAdd (ls_consumed_tokens st) (measuredTokens (cp_usage response))\<rparr>
      in rt_bind (clock X) (\<lambda>t.
         rt_bind (emit X (EmProviderCompleted (ls_turns st1) (cp_stop_reason response) (milliseconds (time_sub t requestStartedAt)))) (\<lambda>_.
         rt_bind (emit_usage X (ls_turns st1) (cp_usage response)) (\<lambda>_.
         case checkAfterResponse lm st1 of
           Some violation \<Rightarrow>
             rt_bind (turn_failed (failLimit X st1 violation (cp_request_id response))) (\<lambda>o'. rt_return (o', st1))
         | None \<Rightarrow>
             (let st2 = st1\<lparr>ls_conversation := conversation_Append (ls_conversation st1) (cp_message response)\<rparr>
              in rt_bind (judge_turn X st2 response) (\<lambda>o'. rt_return (o', st2)))))))"

definition turn_request :: "'s engine \<Rightarrow> limits_policy \<Rightarrow> tool_definition list \<Rightarrow> loop_state \<Rightarrow> completion_request" where
  "turn_request X lm definitions st =
     \<lparr>cq_model = cf_model (eg_config X), cq_messages = ls_conversation st,
      cq_max_tokens = remainingTokenBudget lm (ls_consumed_tokens st), cq_tools = definitions\<rparr>"

definition handle_answer ::
  "'s engine \<Rightarrow> limits_policy \<Rightarrow> loop_state \<Rightarrow> time \<Rightarrow> runtime_error + completion_response \<Rightarrow> ('s, turn_outcome \<times> loop_state) rt" where
  "handle_answer X lm st1 requestStartedAt answer =
     (case answer of
        Inl err \<Rightarrow> rt_bind (turn_failed (fail_error X st1 err None)) (\<lambda>o'. rt_return (o', st1))
      | Inr response \<Rightarrow>
          (let st2 = st1\<lparr>ls_last_request_id := cp_request_id response\<rparr> in
           case ValidateResponse (eg_lib X) (eg_json_valid X) response of
             Some e \<Rightarrow>
               rt_bind (turn_failed (fail X st2 ''invalid_provider_response''
                   (''provider returned an invalid response: '' @ e) None (cp_request_id response)))
                 (\<lambda>o'. rt_return (o', st2))
           | None \<Rightarrow> accept_response X lm st2 requestStartedAt response))"

definition providerTurn ::
  "'s engine \<Rightarrow> limits_policy \<Rightarrow> tool_definition list \<Rightarrow> loop_state \<Rightarrow> ('s, turn_outcome \<times> loop_state) rt" where
  "providerTurn X lm definitions st0 =
     (case checkBeforeProviderTurn lm st0 of
        Some violation \<Rightarrow>
          rt_bind (turn_failed (failLimit X st0 violation (ls_last_request_id st0))) (\<lambda>o'. rt_return (o', st0))
      | None \<Rightarrow>
          rt_bind (clock X) (\<lambda>requestStartedAt.
            let st1 = st0\<lparr>ls_turns := wrap32 (ls_turns st0 + 1)\<rparr>;
                request = turn_request X lm definitions st1
            in rt_bind (rt_call (Completed request) (eg_complete X request)) (handle_answer X lm st1 requestStartedAt)))"

subsection \<open>One batch of tool calls\<close>

definition result_block :: "tool_result \<Rightarrow> content_block" where
  "result_block r = \<lparr>cb_type = ContentTypeToolResult, cb_text = [], cb_tool_call = None, cb_tool_result = Some r\<rparr>"

definition tool_answer ::
  "'s engine \<Rightarrow> limits_policy \<Rightarrow> string \<Rightarrow> loop_state \<Rightarrow> time \<Rightarrow> runtime_error + tool_result \<Rightarrow>
   ('s, (run_result + tool_result) \<times> loop_state) rt" where
  "tool_answer X lm requestID st1 toolStartedAt answer =
     (case answer of
        Inl err \<Rightarrow> rt_bind (fail_error X st1 err (Some requestID)) (\<lambda>r. rt_return (Inl r, st1))
      | Inr result \<Rightarrow>
          (case applyToolOutput lm result (ls_total_tool_output_bytes st1) of (bounded, totalBytes) \<Rightarrow>
             (let st2 = st1\<lparr>ls_total_tool_output_bytes := totalBytes\<rparr> in
              rt_bind (clock X) (\<lambda>t.
              rt_bind (emit X (EmTool bounded (ls_tool_calls st2) (milliseconds (time_sub t toolStartedAt))
                        (if cf_emit_tool_output (eg_config X) then Some (tlr_content bounded) else None))) (\<lambda>_.
              rt_return (Inr bounded, st2))))))"

definition call_tool ::
  "'s engine \<Rightarrow> limits_policy \<Rightarrow> string \<Rightarrow> loop_state \<Rightarrow> tool_call \<Rightarrow> ('s, (run_result + tool_result) \<times> loop_state) rt" where
  "call_tool X lm requestID st call =
     (let st1 = st\<lparr>ls_tool_calls := wrap32 (ls_tool_calls st + 1)\<rparr> in
      rt_bind (clock X) (\<lambda>toolStartedAt.
      rt_bind (rt_call (Executed call) (eg_execute X call)) (tool_answer X lm requestID st1 toolStartedAt)))"

fun tool_loop ::
  "'s engine \<Rightarrow> limits_policy \<Rightarrow> string \<Rightarrow> loop_state \<Rightarrow> content_block list \<Rightarrow> tool_call list \<Rightarrow>
   ('s, (run_result + content_block list) \<times> loop_state) rt" where
  "tool_loop X lm requestID st blocks [] = rt_return (Inr blocks, st)"
| "tool_loop X lm requestID st blocks (call # calls) =
     (case checkBeforeToolCall lm st of
        Some violation \<Rightarrow> rt_bind (failLimit X st violation requestID) (\<lambda>r. rt_return (Inl r, st))
      | None \<Rightarrow>
          rt_bind (call_tool X lm requestID st call) (\<lambda>(res, st1).
            case res of
              Inl r \<Rightarrow> rt_return (Inl r, st1)
            | Inr bounded \<Rightarrow> tool_loop X lm requestID st1 (blocks @ [result_block bounded]) calls))"

definition executeToolBatch ::
  "'s engine \<Rightarrow> limits_policy \<Rightarrow> loop_state \<Rightarrow> completion_response \<Rightarrow> tool_call list \<Rightarrow> ('s, run_result option \<times> loop_state) rt" where
  "executeToolBatch X lm st response calls =
     (case checkBeforeToolBatch lm st (int (length calls)) of
        Some violation \<Rightarrow> rt_bind (failLimit X st violation (cp_request_id response)) (\<lambda>r. rt_return (Some r, st))
      | None \<Rightarrow>
          rt_bind (tool_loop X lm (cp_request_id response) st [] calls) (\<lambda>(res, st1).
            case res of
              Inl r \<Rightarrow> rt_return (Some r, st1)
            | Inr blocks \<Rightarrow>
                rt_return (None, st1\<lparr>ls_conversation :=
                  conversation_Append (ls_conversation st1) \<lparr>mg_role = RoleTool, mg_content = blocks\<rparr>\<rparr>)))"

subsection \<open>The run\<close>

definition after_close :: "'s engine \<Rightarrow> loop_state \<Rightarrow> run_result \<Rightarrow> string option \<Rightarrow> ('s, run_result) rt" where
  "after_close X st result res =
     (case res of
        None \<Rightarrow> rt_return result
      | Some err \<Rightarrow>
          (let message = TruncateUTF8 (''tool cleanup failed: '' @ err) 4096 in
           if xr_exit_code result = 0 then
             rt_bind (fail X st ''tool_cleanup_failed'' message None (ls_last_request_id st)) (\<lambda>failure.
               rt_return (failure\<lparr>xr_envelope := (xr_envelope failure)\<lparr>en_output := en_output (xr_envelope result)\<rparr>\<rparr>))
           else rt_bind (emit X (EmError ''tool_cleanup_failed'' message None)) (\<lambda>_. rt_return result)))"

definition cleanupToolExecutor :: "'s engine \<Rightarrow> loop_state \<Rightarrow> run_result \<Rightarrow> ('s, run_result) rt" where
  "cleanupToolExecutor X st result = rt_bind (rt_call ClosedTools (eg_close X)) (after_close X st result)"

definition finish_final :: "'s engine \<Rightarrow> loop_state \<Rightarrow> completion_response \<Rightarrow> run_result \<Rightarrow> ('s, run_result) rt" where
  "finish_final X st response result =
     rt_bind (cleanupToolExecutor X st result) (\<lambda>r.
       if en_output (xr_envelope r) \<noteq> None
       then rt_bind (emit X (EmOutput (MessageText (cp_message response)))) (\<lambda>_. rt_return r)
       else rt_return r)"

partial_function (option) run_loop ::
  "'s engine \<Rightarrow> limits_policy \<Rightarrow> tool_definition list \<Rightarrow> loop_state \<Rightarrow> rt_event list \<Rightarrow> 's \<Rightarrow> (run_result \<times> rt_event list \<times> 's) option" where
  "run_loop X lm definitions st t s =
     (case providerTurn X lm definitions st s of
        ((TurnPaused, st1), t1, s1) \<Rightarrow> run_loop X lm definitions st1 (t @ t1) s1
      | ((TurnFinal response result, st1), t1, s1) \<Rightarrow>
          (case finish_final X st1 response result s1 of (r, t2, s2) \<Rightarrow> Some (r, t @ t1 @ t2, s2))
      | ((TurnFailed result, st1), t1, s1) \<Rightarrow>
          (case cleanupToolExecutor X st1 result s1 of (r, t2, s2) \<Rightarrow> Some (r, t @ t1 @ t2, s2))
      | ((TurnToolBatch response calls, st1), t1, s1) \<Rightarrow>
          (case executeToolBatch X lm st1 response calls s1 of
             ((Some result, st2), t2, s2) \<Rightarrow>
               (case cleanupToolExecutor X st2 result s2 of (r, t3, s3) \<Rightarrow> Some (r, t @ t1 @ t2 @ t3, s3))
           | ((None, st2), t2, s2) \<Rightarrow> run_loop X lm definitions st2 (t @ t1 @ t2) s2))"

declare run_loop.simps [code]

definition announce_tools :: "'s engine \<Rightarrow> ('s, tool_definition list) rt" where
  "announce_tools X =
     rt_bind (rt_read (eg_definitions X)) (\<lambda>definitions.
     rt_bind (if definitions \<noteq> [] then emit X (EmToolsAvailable (map td_name definitions)) else rt_return ())
       (\<lambda>_. rt_return definitions))"

definition run :: "'s engine \<Rightarrow> limits_policy \<Rightarrow> loop_state \<Rightarrow> 's \<Rightarrow> (run_result \<times> rt_event list \<times> 's) option" where
  "run X lm st s = (case announce_tools X s of (definitions, t, s1) \<Rightarrow> run_loop X lm definitions st t s1)"

text \<open>What the resolvers of a \<^verbatim>\<open>Runner\<close> answer: an error of the provider, a missing tool resolver, an error of the
  tools with or without an executor to close, or no executor.\<close>

datatype tools_answer = ToolsReady | ToolsNil | ToolsFailed runtime_error bool

record 's runner =
  rn_engine :: "'s engine"
  rn_resolve :: "config \<Rightarrow> 's \<Rightarrow> runtime_error option \<times> 's"
  rn_resolve_tools :: "(config \<Rightarrow> 's \<Rightarrow> tools_answer \<times> 's) option"

definition returned :: "('s, run_result) rt \<Rightarrow> rt_event list \<Rightarrow> 's \<Rightarrow> (run_result \<times> rt_event list \<times> 's) option" where
  "returned m t s = (case m s of (r, t', s') \<Rightarrow> Some (r, t @ t', s'))"

definition resolve_code :: "runtime_error \<Rightarrow> string" where
  "resolve_code err =
     (case er_configuration err of
        None \<Rightarrow> ''unsupported_provider''
      | Some c \<Rightarrow> if ce_code c = [] then ''invalid_provider_configuration'' else ce_code c)"

definition tools_code :: "runtime_error \<Rightarrow> string" where
  "tools_code err = (case er_coded err of Some c \<Rightarrow> if cd_code c \<noteq> [] then cd_code c else ''invalid_tool_configuration'' | None \<Rightarrow> ''invalid_tool_configuration'')"

definition start_run :: "'s engine \<Rightarrow> ('s, loop_state) rt" where
  "start_run X =
     (let c = eg_config X in
      rt_bind (clock X) (\<lambda>t.
      rt_bind (emit X (EmStarted (cf_run_name c) (cf_agent_name c) (cf_provider c) (cf_model c))) (\<lambda>_.
      rt_return (newLoopState (cf_goal c) t))))"

definition Run :: "'s runner \<Rightarrow> 's \<Rightarrow> (run_result \<times> rt_event list \<times> 's) option" where
  "Run R s0 =
     (let X = rn_engine R; c = eg_config X; lm = newLimitsPolicy c in
      case start_run X s0 of
        (st, t, s1) \<Rightarrow>
          (case rn_resolve_tools R of
             None \<Rightarrow> returned (fail X st ''invalid_tool_configuration'' ''tool resolver is required'' None []) t s1
           | Some resolve_tools \<Rightarrow>
               (case rn_resolve R c s1 of
                  (Some err, s2) \<Rightarrow> returned (fail X st (resolve_code err) (er_text err) None []) t s2
                | (None, s2) \<Rightarrow>
                    (case resolve_tools c s2 of
                       (ToolsFailed err executor, s3) \<Rightarrow>
                         returned (rt_bind (fail X st (tools_code err) (er_text err) None []) (\<lambda>r.
                           if executor then cleanupToolExecutor X st r else rt_return r)) t s3
                     | (ToolsNil, s3) \<Rightarrow>
                         returned (fail X st ''invalid_tool_configuration'' ''tool resolver returned a nil tool executor'' None []) t s3
                     | (ToolsReady, s3) \<Rightarrow>
                         (case run X lm st s3 of
                            None \<Rightarrow> None
                          | Some (r, t', s') \<Rightarrow> Some (r, t @ t', s'))))))"

subsection \<open>The loop as repeated steps\<close>

definition iterate ::
  "'s engine \<Rightarrow> limits_policy \<Rightarrow> tool_definition list \<Rightarrow> loop_state \<Rightarrow> 's \<Rightarrow> (run_result + loop_state) \<times> rt_event list \<times> 's" where
  "iterate X lm definitions st =
     rt_bind (providerTurn X lm definitions st) (\<lambda>(o', st1).
       case o' of
         TurnPaused \<Rightarrow> rt_return (Inr st1)
       | TurnFinal response result \<Rightarrow> rt_bind (finish_final X st1 response result) (\<lambda>r. rt_return (Inl r))
       | TurnFailed result \<Rightarrow> rt_bind (cleanupToolExecutor X st1 result) (\<lambda>r. rt_return (Inl r))
       | TurnToolBatch response calls \<Rightarrow>
           rt_bind (executeToolBatch X lm st1 response calls) (\<lambda>(res, st2).
             case res of
               Some result \<Rightarrow> rt_bind (cleanupToolExecutor X st2 result) (\<lambda>r. rt_return (Inl r))
             | None \<Rightarrow> rt_return (Inr st2)))"

lemma rt_bind_eq:
  "rt_bind m f s = (y, t, s') \<longleftrightarrow>
     (\<exists>x t1 s1 t2. m s = (x, t1, s1) \<and> f x s1 = (y, t2, s') \<and> t = t1 @ t2)"
  by (auto simp: rt_bind_def split: prod.splits)

lemma rt_return_eq: "rt_return x s = (y, t, s') \<longleftrightarrow> y = x \<and> t = [] \<and> s' = s"
  by (auto simp: rt_return_def)

lemma rt_read_eq: "rt_read op s = (y, t, s') \<longleftrightarrow> op s = (y, s') \<and> t = []"
  by (auto simp: rt_read_def split: prod.splits)

lemma rt_call_eq: "rt_call ev op s = (y, t, s') \<longleftrightarrow> op s = (y, s') \<and> t = [ev y]"
  by (auto simp: rt_call_def split: prod.splits)

lemma emit_eq: "emit X e s = (u, t, s') \<longleftrightarrow> t = (if eg_emitter X then [Emitted e] else []) \<and> s' = s"
  by (auto simp: emit_def)

lemmas rt_eqs = rt_bind_eq rt_return_eq rt_read_eq rt_call_eq emit_eq

lemma run_loop_iterate:
  "run_loop X lm defs st t s =
     (case iterate X lm defs st s of
        (Inl r, t1, s1) \<Rightarrow> Some (r, t @ t1, s1)
      | (Inr st1, t1, s1) \<Rightarrow> run_loop X lm defs st1 (t @ t1) s1)"
  by (subst run_loop.simps)
     (auto simp: iterate_def rt_bind_def rt_return_def split: prod.splits turn_outcome.splits option.splits)

type_synonym 's loop_config = "loop_state \<times> rt_event list \<times> 's"

definition loop_step ::
  "'s engine \<Rightarrow> limits_policy \<Rightarrow> tool_definition list \<Rightarrow> 's loop_config \<Rightarrow> (run_result \<times> rt_event list \<times> 's) + 's loop_config" where
  "loop_step X lm defs x =
     (case x of (st, t, s) \<Rightarrow>
        (case iterate X lm defs st s of
           (Inl r, t1, s1) \<Rightarrow> Inl (r, t @ t1, s1)
         | (Inr st1, t1, s1) \<Rightarrow> Inr (st1, t @ t1, s1)))"

interpretation engine_loop: step_loop "loop_step X lm defs" "\<lambda>(st, t, s). run_loop X lm defs st t s" for X lm defs
proof (unfold_locales, goal_cases)
  case (1 x)
  obtain st t s where x: "x = (st, t, s)" by (cases x)
  show ?case unfolding x case_prod_conv loop_step_def
    by (subst run_loop_iterate) (auto split: prod.splits sum.splits)
next
  case (2 P x r)
  obtain st t s where x: "x = (st, t, s)" by (cases x)
  have "P (st, t, s) r" if "run_loop X lm defs st t s = Some r"
    using that 2(1,2)
  proof (induction X lm defs st t s r rule: run_loop.raw_induct [rotated, consumes 1])
    case (1 loop X lm defs st t s r)
    obtain res t1 s1 where it: "iterate X lm defs st s = (res, t1, s1)" by (cases "iterate X lm defs st s")
    have next_state: "P (st1, t @ t1, s1) r" if "loop X lm defs st1 (t @ t1) s1 = Some r" for st1
      by (rule 1(1) [OF that 1(3) 1(4)])
    show ?case
    proof (cases res)
      case (Inl r')
      with it 1(2) have "r = (r', t @ t1, s1)"
        by (auto simp: iterate_def rt_eqs split: prod.splits turn_outcome.splits option.splits)
      then show ?thesis using 1(3) it Inl by (simp add: loop_step_def)
    next
      case (Inr st1)
      with it 1(2) have "loop X lm defs st1 (t @ t1) s1 = Some r"
        by (auto simp: iterate_def rt_eqs split: prod.splits turn_outcome.splits option.splits)
      from next_state [OF this] show ?thesis using 1(4) it Inr by (simp add: loop_step_def)
    qed
  qed
  with 2 x show ?case by simp
qed

end
