(* ===== verification/Engine_Run.thy ===== *)
theory Engine_Run
  imports Runtime_Engine
begin

text \<open>
  Correctness of the engine of \<^verbatim>\<open>runtimes/reference/internal/engine\<close> for every provider and every tool. First
  what a turn, a tool call and a batch each do to the state and the trace; then the invariant \<open>loop_good\<close> that links the
  counters of the state with the trace; then, through the interpretation \<open>engine_loop\<close> of \<open>step_loop\<close>, that the loop
  ends under a turn limit, keeps the limits, and reports its result truthfully.
\<close>

subsection \<open>What one step does\<close>

definition quiet :: "rt_event list \<Rightarrow> bool" where
  "quiet t \<longleftrightarrow> (\<forall>e \<in> set t. \<exists>m. e = Emitted m)"

lemma quiet_simps [simp]: "quiet []" "quiet (t @ t') \<longleftrightarrow> quiet t \<and> quiet t'" "quiet (Emitted m # t) \<longleftrightarrow> quiet t"
  by (auto simp: quiet_def)

definition failed :: "run_result \<Rightarrow> bool" where
  "failed r \<longleftrightarrow> xr_exit_code r = 1 \<and> en_outcome (xr_envelope r) = OutcomeFailed \<and> en_error (xr_envelope r) \<noteq> None"

lemma emit_quiet: "emit X e s = (u, t, s') \<Longrightarrow> quiet t"
  by (auto simp: emit_eq)

lemma fail_does:
  "fail X st code msg ret rid s = (r, t, s') \<Longrightarrow> quiet t \<and> failed r \<and> en_output (xr_envelope r) = None"
  by (auto simp: fail_def rt_eqs failed_def failureEnvelope_def empty_envelope_def)

lemma failLimit_does: "failLimit X st v rid s = (r, t, s') \<Longrightarrow> quiet t \<and> failed r"
  unfolding failLimit_def by (drule fail_does) simp

lemma normalizeError_quiet: "normalizeError X err s = (x, t, s') \<Longrightarrow> t = []"
  by (auto simp: normalizeError_def rt_eqs split: if_splits option.splits)

lemma fail_error_does: "fail_error X st err rid s = (r, t, s') \<Longrightarrow> quiet t \<and> failed r"
  by (auto simp: fail_error_def rt_eqs split: prod.splits dest!: normalizeError_quiet fail_does)

lemma turn_failed_does:
  "turn_failed m s = (o', t, s') \<Longrightarrow> (\<And>r. m s = (r, t, s') \<Longrightarrow> quiet t \<and> failed r) \<Longrightarrow> quiet t \<and> (\<exists>r. o' = TurnFailed r \<and> failed r)"
  by (auto simp: turn_failed_def rt_eqs)

definition final_answer :: "completion_response \<Rightarrow> run_result \<Rightarrow> bool" where
  "final_answer response r \<longleftrightarrow> xr_exit_code r = 0 \<and> en_outcome (xr_envelope r) = OutcomeSucceeded \<and>
     en_output (xr_envelope r) = Some \<lparr>ro_media_type = DefaultMediaType, ro_value = json_string (MessageText (cp_message response))\<rparr> \<and>
     MessageToolCalls (cp_message response) = [] \<and> cp_stop_reason response \<in> {StopReasonEndTurn, StopReasonStopSequence}"

definition outcome_ok :: "completion_response \<Rightarrow> turn_outcome \<Rightarrow> bool" where
  "outcome_ok response o' \<longleftrightarrow>
     (case o' of
        TurnPaused \<Rightarrow> MessageToolCalls (cp_message response) = []
      | TurnFinal response' r \<Rightarrow> response' = response \<and> final_answer response r
      | TurnToolBatch response' calls \<Rightarrow> response' = response \<and> calls = MessageToolCalls (cp_message response)
      | TurnFailed r \<Rightarrow> failed r)"

lemma judge_turn_does: "judge_turn X st response s = (o', t, s') \<Longrightarrow> quiet t \<and> outcome_ok response o'"
  by (auto simp: judge_turn_def Let_def rt_eqs turn_failed_def outcome_ok_def final_answer_def Success_def empty_envelope_def
      split: if_splits prod.splits dest!: fail_does)

text \<open>A turn that reached the provider: one request, then only emissions.\<close>

definition turn_done :: "'s engine \<Rightarrow> limits_policy \<Rightarrow> loop_state \<Rightarrow> completion_response \<Rightarrow> turn_outcome \<Rightarrow> loop_state \<Rightarrow> bool" where
  "turn_done X lm st response o' st1 \<longleftrightarrow> ValidateResponse (eg_lib X) (eg_json_valid X) response = None \<and>
     ls_conversation st1 = ls_conversation st @ [cp_message response] \<and>
     ls_consumed_tokens st1 = saturatingAdd (ls_consumed_tokens st) (measuredTokens (cp_usage response)) \<and>
     checkAfterResponse lm st1 = None \<and> outcome_ok response o'"

definition turn_ok ::
  "'s engine \<Rightarrow> limits_policy \<Rightarrow> tool_definition list \<Rightarrow> loop_state \<Rightarrow> turn_outcome \<Rightarrow> loop_state \<Rightarrow> rt_event list \<Rightarrow> bool" where
  "turn_ok X lm defs st o' st1 t \<longleftrightarrow> ls_total_tool_output_bytes st1 = ls_total_tool_output_bytes st \<and> ls_tool_calls st1 = ls_tool_calls st \<and>
     (quiet t \<and> st1 = st \<and> (\<exists>r. o' = TurnFailed r \<and> failed r) \<or>
      \<not> reached (lm_max_turns lm) (ls_turns st) \<and> ls_turns st1 = wrap32 (ls_turns st + 1) \<and>
      (\<exists>answer t'. t = Completed (turn_request X lm defs st) answer # t' \<and> quiet t' \<and>
         ((\<exists>r. o' = TurnFailed r \<and> failed r) \<and> ls_conversation st1 = ls_conversation st \<or>
          (\<exists>response. answer = Inr response \<and> turn_done X lm st response o' st1))))"

lemma accept_response_does:
  assumes "accept_response X lm st t0 response s = ((o', st1), t, s')" "ValidateResponse (eg_lib X) (eg_json_valid X) response = None"
  shows "quiet t \<and> ls_turns st1 = ls_turns st \<and> ls_total_tool_output_bytes st1 = ls_total_tool_output_bytes st \<and>
    ls_tool_calls st1 = ls_tool_calls st \<and>
    ((\<exists>r. o' = TurnFailed r \<and> failed r) \<and> ls_conversation st1 = ls_conversation st \<or> turn_done X lm st response o' st1)"
  using assms
  by (auto simp: accept_response_def Let_def rt_eqs emit_usage_def turn_failed_def turn_done_def conversation_Append_def checkAfterResponse_def
      split: option.splits if_splits dest!: failLimit_does judge_turn_does)

lemma handle_answer_does:
  assumes "handle_answer X lm st t0 answer s = ((o', st1), t, s')"
  shows "quiet t \<and> ls_turns st1 = ls_turns st \<and> ls_total_tool_output_bytes st1 = ls_total_tool_output_bytes st \<and>
    ls_tool_calls st1 = ls_tool_calls st \<and>
    ((\<exists>r. o' = TurnFailed r \<and> failed r) \<and> ls_conversation st1 = ls_conversation st \<or>
     (\<exists>response. answer = Inr response \<and> turn_done X lm st response o' st1))"
proof (cases answer)
  case (Inl err)
  with assms show ?thesis by (auto simp: handle_answer_def rt_eqs turn_failed_def dest!: fail_error_does)
next
  case (Inr response)
  show ?thesis
  proof (cases "ValidateResponse (eg_lib X) (eg_json_valid X) response")
    case (Some e)
    with Inr assms show ?thesis by (auto simp: handle_answer_def Let_def rt_eqs turn_failed_def dest!: fail_does)
  next
    case None
    with Inr assms have "accept_response X lm (st\<lparr>ls_last_request_id := cp_request_id response\<rparr>) t0 response s = ((o', st1), t, s')"
      by (simp add: handle_answer_def)
    from accept_response_does [OF this None] Inr show ?thesis by (auto simp: turn_done_def)
  qed
qed

lemma providerTurn_does:
  assumes "providerTurn X lm defs st s = ((o', st1), t, s')"
  shows "turn_ok X lm defs st o' st1 t"
proof (cases "checkBeforeProviderTurn lm st")
  case (Some v)
  with assms show ?thesis
    by (auto simp: providerTurn_def turn_ok_def rt_eqs turn_failed_def dest!: failLimit_does)
next
  case None
  then have go: "\<not> reached (lm_max_turns lm) (ls_turns st)" by (auto simp: checkBeforeProviderTurn_def split: if_splits)
  have req: "turn_request X lm defs (st\<lparr>ls_turns := n\<rparr>) = turn_request X lm defs st" for n by (simp add: turn_request_def)
  from assms None obtain t0 answer s2 t' where t: "t = Completed (turn_request X lm defs st) answer # t'"
    and rest: "handle_answer X lm (st\<lparr>ls_turns := wrap32 (ls_turns st + 1)\<rparr>) t0 answer s2 = ((o', st1), t', s')"
    by (auto simp: providerTurn_def Let_def rt_bind_eq rt_read_eq rt_call_eq req)
  from handle_answer_does [OF rest] t go show ?thesis by (auto simp: turn_ok_def turn_done_def)
qed

definition completions :: "rt_event list \<Rightarrow> nat" where
  "completions t = length (filter (\<lambda>e. case e of Completed _ _ \<Rightarrow> True | _ \<Rightarrow> False) t)"

definition executions :: "rt_event list \<Rightarrow> nat" where
  "executions t = length (filter (\<lambda>e. case e of Executed _ _ \<Rightarrow> True | _ \<Rightarrow> False) t)"

definition closings :: "rt_event list \<Rightarrow> nat" where
  "closings t = length (filter (\<lambda>e. case e of ClosedTools _ \<Rightarrow> True | _ \<Rightarrow> False) t)"

lemmas count_defs = completions_def executions_def closings_def

lemma count_append [simp]:
  "completions (t @ t') = completions t + completions t'" "executions (t @ t') = executions t + executions t'"
  "closings (t @ t') = closings t + closings t'"
  by (simp_all add: count_defs)

lemma count_Nil [simp]: "completions [] = 0" "executions [] = 0" "closings [] = 0"
  by (simp_all add: count_defs)

lemma count_Cons [simp]:
  "completions (Completed q a # t) = Suc (completions t)" "executions (Completed q a # t) = executions t" "closings (Completed q a # t) = closings t"
  "completions (Executed c b # t) = completions t" "executions (Executed c b # t) = Suc (executions t)" "closings (Executed c b # t) = closings t"
  "completions (ClosedTools e # t) = completions t" "executions (ClosedTools e # t) = executions t" "closings (ClosedTools e # t) = Suc (closings t)"
  "completions (Emitted m # t) = completions t" "executions (Emitted m # t) = executions t" "closings (Emitted m # t) = closings t"
  by (simp_all add: count_defs)

lemma quiet_counts: "quiet t \<Longrightarrow> completions t = 0 \<and> executions t = 0 \<and> closings t = 0"
  by (auto simp: quiet_def count_defs filter_empty_conv)

lemma quiet_no_request: "quiet t \<Longrightarrow> Completed q a \<notin> set t"
  by (auto simp: quiet_def)

definition output_bytes :: "tool_result list \<Rightarrow> int" where
  "output_bytes rs = (\<Sum>r\<leftarrow>rs. int (length (tlr_content r)))"

lemma output_bytes_simps [simp]:
  "output_bytes [] = 0" "output_bytes (r # rs) = int (length (tlr_content r)) + output_bytes rs"
  "output_bytes (rs @ rs') = output_bytes rs + output_bytes rs'"
  by (simp_all add: output_bytes_def)

definition results_ok :: "limits_policy \<Rightarrow> tool_result list \<Rightarrow> bool" where
  "results_ok lm rs \<longleftrightarrow> (\<forall>k r. lm_max_tool_result_bytes lm = Some k \<longrightarrow> 0 \<le> k \<longrightarrow> r \<in> set rs \<longrightarrow> int (length (tlr_content r)) \<le> k)"

lemma results_ok_simps [simp]: "results_ok lm []" "results_ok lm (rs @ rs') \<longleftrightarrow> results_ok lm rs \<and> results_ok lm rs'"
  by (auto simp: results_ok_def)

definition total_limit :: "limits_policy \<Rightarrow> int \<Rightarrow> bool" where
  "total_limit lm n \<longleftrightarrow> lm_max_total_tool_output_bytes lm = Some n \<and> n \<le> maxTotalToolOutputBytesLimit"

lemma wrap64_small: "0 \<le> x \<Longrightarrow> x \<le> maxTotalToolOutputBytesLimit \<Longrightarrow> wrap64 x = x"
  by (rule wrap64_id) (simp add: int64_ok_def)

lemma wrap32_small: "0 \<le> x \<Longrightarrow> x \<le> 100000 \<Longrightarrow> wrap32 x = x"
  by (rule wrap32_id) (simp add: int32_ok_def)

lemma allowance_bounds:
  "0 \<le> tool_output_allowance lm content tot"
  "lm_max_tool_result_bytes lm = Some k \<Longrightarrow> 0 \<le> k \<Longrightarrow> tool_output_allowance lm content tot \<le> k"
  "total_limit lm n \<Longrightarrow> 0 \<le> tot \<Longrightarrow> tot \<le> n \<Longrightarrow> tool_output_allowance lm content tot \<le> n - tot"
  by (auto simp: tool_output_allowance_def Let_def total_limit_def wrap64_small split: option.splits)

lemma applyToolOutput_length:
  "applyToolOutput lm r tot = (b, tot') \<Longrightarrow>
     int (length (tlr_content b)) \<le> tool_output_allowance lm (tlr_content r) tot \<and> tot' = wrap64 (tot + int (length (tlr_content b)))"
  using allowance_bounds(1) [of lm "tlr_content r" tot]
  by (auto simp: applyToolOutput_def Let_def split: prod.splits if_splits dest!: Bound_length)

lemma applyToolOutput_does:
  assumes "applyToolOutput lm r tot = (b, tot')"
  shows "results_ok lm [b] \<and>
    (\<forall>n. total_limit lm n \<and> 0 \<le> tot \<and> tot \<le> n \<longrightarrow> tot' = tot + int (length (tlr_content b)) \<and> tot' \<le> n)"
proof
  show "results_ok lm [b]"
    using applyToolOutput_length [OF assms] allowance_bounds(2) [of lm _ "tlr_content r" tot] by (force simp: results_ok_def)
  show "\<forall>n. total_limit lm n \<and> 0 \<le> tot \<and> tot \<le> n \<longrightarrow> tot' = tot + int (length (tlr_content b)) \<and> tot' \<le> n"
  proof (intro allI impI)
    fix n
    assume n: "total_limit lm n \<and> 0 \<le> tot \<and> tot \<le> n"
    then have "tot + int (length (tlr_content b)) \<le> n" "n \<le> maxTotalToolOutputBytesLimit"
      using applyToolOutput_length [OF assms] allowance_bounds(3) [of lm n tot "tlr_content r"] by (auto simp: total_limit_def)
    then show "tot' = tot + int (length (tlr_content b)) \<and> tot' \<le> n"
      using applyToolOutput_length [OF assms] n by (simp add: wrap64_small)
  qed
qed

definition tool_events :: "rt_event list \<Rightarrow> bool" where
  "tool_events t \<longleftrightarrow> completions t = 0 \<and> closings t = 0"

lemma tool_events_simps [simp]:
  "tool_events []" "tool_events (t @ t') \<longleftrightarrow> tool_events t \<and> tool_events t'" "tool_events (Executed c a # t) \<longleftrightarrow> tool_events t"
  "tool_events (Emitted m # t) \<longleftrightarrow> tool_events t"
  by (auto simp: tool_events_def)

lemma quiet_tool_events: "quiet t \<Longrightarrow> tool_events t"
  by (simp add: tool_events_def quiet_counts)

definition counted :: "limits_policy \<Rightarrow> loop_state \<Rightarrow> tool_result list \<Rightarrow> loop_state \<Rightarrow> bool" where
  "counted lm st rs st1 \<longleftrightarrow> results_ok lm rs \<and>
     (\<forall>k. total_limit lm k \<and> 0 \<le> ls_total_tool_output_bytes st \<and> ls_total_tool_output_bytes st \<le> k \<longrightarrow>
        ls_total_tool_output_bytes st1 = ls_total_tool_output_bytes st + output_bytes rs \<and> ls_total_tool_output_bytes st1 \<le> k)"

lemma counted_Nil: "counted lm st [] st"
  by (simp add: counted_def)

lemma output_bytes_nonneg: "0 \<le> output_bytes rs"
  by (induction rs) simp_all

lemma counted_append: "counted lm st rs st1 \<Longrightarrow> counted lm st1 rs' st2 \<Longrightarrow> counted lm st (rs @ rs') st2"
  unfolding counted_def using output_bytes_nonneg [of rs] by fastforce

lemma tool_answer_does:
  assumes "tool_answer X lm rid st t0 answer s = ((res, st1), t, s')"
  shows "quiet t \<and> ls_turns st1 = ls_turns st \<and> ls_conversation st1 = ls_conversation st \<and>
    ls_consumed_tokens st1 = ls_consumed_tokens st \<and> ls_tool_calls st1 = ls_tool_calls st \<and>
    (case res of Inl r \<Rightarrow> failed r | Inr b \<Rightarrow> counted lm st [b] st1)"
proof (cases answer)
  case (Inl err)
  with assms show ?thesis by (auto simp: tool_answer_def rt_eqs dest!: fail_error_does)
next
  case (Inr result)
  obtain b tot where b: "applyToolOutput lm result (ls_total_tool_output_bytes st) = (b, tot)" by fastforce
  with applyToolOutput_does [OF b] Inr assms show ?thesis
    by (auto simp: tool_answer_def rt_eqs counted_def)
qed

lemma call_tool_does:
  assumes "call_tool X lm rid st call s = ((res, st1), t, s')"
  shows "tool_events t \<and> executions t = 1 \<and> ls_turns st1 = ls_turns st \<and> ls_conversation st1 = ls_conversation st \<and>
    ls_consumed_tokens st1 = ls_consumed_tokens st \<and> ls_tool_calls st1 = wrap32 (ls_tool_calls st + 1) \<and>
    (case res of Inl r \<Rightarrow> failed r | Inr b \<Rightarrow> counted lm st [b] st1)"
proof -
  from assms obtain t0 answer s2 t2 where t: "t = Executed call answer # t2"
    and rest: "tool_answer X lm rid (st\<lparr>ls_tool_calls := wrap32 (ls_tool_calls st + 1)\<rparr>) t0 answer s2 = ((res, st1), t2, s')"
    by (auto simp: call_tool_def Let_def rt_bind_eq rt_read_eq rt_call_eq)
  from tool_answer_does [OF rest] t show ?thesis
    by (auto simp: quiet_tool_events quiet_counts counted_def split: sum.splits)
qed

definition batch_ok :: "limits_policy \<Rightarrow> loop_state \<Rightarrow> content_block list \<Rightarrow> nat \<Rightarrow> run_result + content_block list \<Rightarrow> loop_state \<Rightarrow> rt_event list \<Rightarrow> bool" where
  "batch_ok lm st blocks n res st1 t \<longleftrightarrow> tool_events t \<and> executions t \<le> n \<and> ls_turns st1 = ls_turns st \<and>
     ls_conversation st1 = ls_conversation st \<and> ls_consumed_tokens st1 = ls_consumed_tokens st \<and>
     (0 \<le> ls_tool_calls st \<and> ls_tool_calls st + int n \<le> maxToolCallsLimit \<longrightarrow> ls_tool_calls st1 = ls_tool_calls st + int (executions t)) \<and>
     (case res of
        Inl r \<Rightarrow> failed r
      | Inr bs \<Rightarrow> \<exists>rs. bs = blocks @ map result_block rs \<and> counted lm st rs st1)"

lemma tool_loop_does:
  "tool_loop X lm rid st blocks calls s = ((res, st1), t, s') \<Longrightarrow> batch_ok lm st blocks (length calls) res st1 t"
proof (induction calls arbitrary: st blocks s t)
  case Nil
  then show ?case by (auto simp: batch_ok_def rt_eqs counted_Nil intro!: exI [of _ "[]"])
next
  case (Cons call calls)
  show ?case
  proof (cases "checkBeforeToolCall lm st")
    case (Some v)
    with Cons.prems show ?thesis
      by (auto simp: batch_ok_def rt_eqs quiet_tool_events quiet_counts dest!: failLimit_does)
  next
    case None
    with Cons.prems obtain out st2 t1 s2 t2 where one: "call_tool X lm rid st call s = ((out, st2), t1, s2)" and t: "t = t1 @ t2"
      and rest: "(case out of Inl r \<Rightarrow> rt_return (Inl r, st2)
            | Inr bounded \<Rightarrow> tool_loop X lm rid st2 (blocks @ [result_block bounded]) calls) s2 = ((res, st1), t2, s')"
      by (auto simp: rt_bind_eq)
    note first = call_tool_does [OF one]
    show ?thesis
    proof (cases out)
      case (Inl r)
      with rest first t show ?thesis by (auto simp: batch_ok_def rt_eqs wrap32_small)
    next
      case (Inr b)
      with rest have "tool_loop X lm rid st2 (blocks @ [result_block b]) calls s2 = ((res, st1), t2, s')" by simp
      from Cons.IH [OF this] have ih: "batch_ok lm st2 (blocks @ [result_block b]) (length calls) res st1 t2" .
      have calls: "ls_tool_calls st1 = ls_tool_calls st + int (executions t)"
        if "0 \<le> ls_tool_calls st" "ls_tool_calls st + int (length (call # calls)) \<le> maxToolCallsLimit"
        using that ih first t by (simp add: batch_ok_def wrap32_small)
      have out: "\<exists>rs. bs = blocks @ map result_block rs \<and> counted lm st rs st1" if "res = Inr bs" for bs
      proof -
        from ih that obtain rs where "bs = blocks @ map result_block (b # rs)" "counted lm st2 rs st1"
          by (auto simp: batch_ok_def)
        moreover from this(2) first Inr have "counted lm st (b # rs) st1" using counted_append [of lm st "[b]" st2 rs st1] by simp
        ultimately show ?thesis by blast
      qed
      have "case res of Inl r \<Rightarrow> failed r | Inr bs \<Rightarrow> \<exists>rs. bs = blocks @ map result_block rs \<and> counted lm st rs st1"
        using ih out by (cases res) (auto simp: batch_ok_def)
      with ih first t calls show ?thesis unfolding batch_ok_def by (simp del: of_nat_Suc)
    qed
  qed
qed

definition turn_limit :: "limits_policy \<Rightarrow> int \<Rightarrow> bool" where
  "turn_limit lm n \<longleftrightarrow> lm_max_turns lm = Some n \<and> n \<le> maxTurnsLimit"

definition call_limit :: "limits_policy \<Rightarrow> int \<Rightarrow> bool" where
  "call_limit lm n \<longleftrightarrow> lm_max_tool_calls lm = Some n \<and> n \<le> maxToolCallsLimit"

lemma executeToolBatch_does:
  assumes "executeToolBatch X lm st response calls s = ((res, st1), t, s')"
  shows "tool_events t \<and> ls_turns st1 = ls_turns st \<and> ls_consumed_tokens st1 = ls_consumed_tokens st \<and>
    (\<forall>n. call_limit lm n \<and> 0 \<le> ls_tool_calls st \<and> ls_tool_calls st \<le> n \<longrightarrow>
       ls_tool_calls st1 = ls_tool_calls st + int (executions t) \<and> ls_tool_calls st1 \<le> n) \<and>
    (case res of
       Some r \<Rightarrow> failed r
     | None \<Rightarrow> \<exists>rs. ls_conversation st1 = ls_conversation st @ [\<lparr>mg_role = RoleTool, mg_content = map result_block rs\<rparr>] \<and> counted lm st rs st1)"
proof (cases "checkBeforeToolBatch lm st (int (length calls))")
  case (Some v)
  with assms show ?thesis
    by (auto simp: executeToolBatch_def rt_eqs quiet_tool_events quiet_counts dest!: failLimit_does)
next
  case None
  have fits: "ls_tool_calls st + int (length calls) \<le> n" if "call_limit lm n" "0 \<le> ls_tool_calls st" "ls_tool_calls st \<le> n" for n
  proof -
    have "wrap64 (n - ls_tool_calls st) = n - ls_tool_calls st" using that by (intro wrap64_small) (auto simp: call_limit_def)
    with None that show ?thesis
      by (auto simp: checkBeforeToolBatch_def batchExceeds_def call_limit_def Let_def split: if_splits)
  qed
  from assms None obtain out st2 t1 s2 t2 where loop: "tool_loop X lm (cp_request_id response) st [] calls s = ((out, st2), t1, s2)"
    and rest: "(case out of Inl r \<Rightarrow> rt_return (Some r, st2)
            | Inr blocks \<Rightarrow> rt_return (None, st2\<lparr>ls_conversation :=
                  conversation_Append (ls_conversation st2) \<lparr>mg_role = RoleTool, mg_content = blocks\<rparr>\<rparr>)) s2 = ((res, st1), t2, s')"
    and t: "t = t1 @ t2" by (auto simp: executeToolBatch_def rt_bind_eq)
  from tool_loop_does [OF loop] have ok: "batch_ok lm st [] (length calls) out st2 t1" .
  have count: "ls_tool_calls st2 = ls_tool_calls st + int (executions t1) \<and> ls_tool_calls st2 \<le> n"
    if "call_limit lm n" "0 \<le> ls_tool_calls st" "ls_tool_calls st \<le> n" for n
    using ok fits [OF that] that by (auto simp: batch_ok_def call_limit_def)
  show ?thesis
    using ok rest t count by (cases out) (auto simp: batch_ok_def rt_eqs conversation_Append_def counted_def)
qed

lemma cleanup_does:
  assumes "cleanupToolExecutor X st r s = (r', t, s')"
  shows "\<exists>e t'. t = ClosedTools e # t' \<and> quiet t' \<and>
    (r' = r \<and> (e = None \<or> xr_exit_code r \<noteq> 0) \<or> failed r')"
proof -
  from assms obtain e s1 t' where t: "t = ClosedTools e # t'" and rest: "after_close X st r e s1 = (r', t', s')"
    by (auto simp: cleanupToolExecutor_def rt_bind_eq rt_call_eq)
  show ?thesis
  proof (cases e)
    case None
    with t rest show ?thesis by (auto simp: after_close_def rt_eqs)
  next
    case (Some err)
    show ?thesis
    proof (cases "xr_exit_code r = 0")
      case True
      with t rest Some show ?thesis by (auto simp: after_close_def Let_def rt_eqs failed_def dest!: fail_does)
    next
      case False
      with t rest Some show ?thesis by (auto simp: after_close_def Let_def rt_eqs)
    qed
  qed
qed

lemma finish_final_does:
  assumes "finish_final X st response r s = (r', t, s')" "xr_exit_code r = 0"
  shows "\<exists>e t'. t = ClosedTools e # t' \<and> quiet t' \<and> (r' = r \<and> e = None \<or> failed r')"
proof -
  from assms(1) obtain r1 t1 s1 t2 where c: "cleanupToolExecutor X st r s = (r1, t1, s1)" and t: "t = t1 @ t2" "quiet t2" "r' = r1"
    by (auto simp: finish_final_def rt_eqs split: if_splits)
  from cleanup_does [OF c] t assms(2) show ?thesis by auto
qed

subsection \<open>What the loop keeps\<close>

lemma results_of_append [simp]: "results_of (c @ c') = results_of c @ results_of c'"
  by (simp add: results_of_def)

lemma results_of_tool_message: "results_of [\<lparr>mg_role = x, mg_content = map result_block rs\<rparr>] = rs"
  by (induction rs) (simp_all add: results_of_def MessageToolResults_def result_block_def map_filter_simps)

lemma results_of_validated:
  assumes "ValidateResponse L jv response = None"
  shows "results_of [cp_message response] = []"
proof -
  have "cb_type b \<noteq> ContentTypeToolResult" if "b \<in> set (mg_content (cp_message response))" for b
    using validated_block [OF assms that] by auto
  then show ?thesis by (simp add: results_of_def MessageToolResults_def List.map_filter_def)
qed

lemma results_of_New [simp]: "results_of (conversation_New goal) = []"
  by (simp add: results_of_def conversation_New_def MessageToolResults_def text_block_def map_filter_simps)

fun spent :: "rt_event list \<Rightarrow> int" where
  "spent [] = 0"
| "spent (Completed q (Inr response) # t) = measuredTokens (cp_usage response) + spent t"
| "spent (_ # t) = spent t"

lemma spent_append [simp]: "spent (t @ t') = spent t + spent t'"
  by (induction t rule: spent.induct) simp_all

lemma spent_quiet: "quiet t \<Longrightarrow> spent t = 0"
  by (induction t rule: spent.induct) (auto simp: quiet_def)

lemma spent_tools: "tool_events t \<Longrightarrow> spent t = 0"
  by (induction t rule: spent.induct) (auto simp: tool_events_def)

lemma saturatingAdd_clamps:
  "int64_ok x \<Longrightarrow> int64_ok y \<Longrightarrow> saturatingAdd x y = max min_int64 (min max_int64 (x + y))"
  by (auto simp: saturatingAdd_def int64_ok_def)

lemma saturatingAdd_nonneg: "0 \<le> x \<Longrightarrow> x \<le> max_int64 \<Longrightarrow> 0 \<le> y \<Longrightarrow> saturatingAdd x y = min max_int64 (x + y)"
  by (auto simp: saturatingAdd_def)

lemma measuredTokens_nonneg:
  assumes "ValidateResponse L jv response = None"
  shows "0 \<le> measuredTokens (cp_usage response)"
  using validated_usage [OF assms]
  by (auto simp: measuredTokens_def Let_def saturatingAdd_def negative_def split: option.splits)

definition request_ok :: "limits_policy \<Rightarrow> completion_request \<Rightarrow> bool" where
  "request_ok lm q \<longleftrightarrow> results_ok lm (results_of (cq_messages q)) \<and>
     (\<forall>k. total_limit lm k \<longrightarrow> 0 \<le> k \<longrightarrow> output_bytes (results_of (cq_messages q)) \<le> k) \<and>
     (\<forall>b. lm_token_budget lm = Some b \<longrightarrow> 1 \<le> b \<longrightarrow> b \<le> max_int64 \<longrightarrow> (\<exists>m. cq_max_tokens q = Some m \<and> 1 \<le> m \<and> m \<le> b))"

definition counts_ok :: "limits_policy \<Rightarrow> loop_state \<Rightarrow> rt_event list \<Rightarrow> bool" where
  "counts_ok lm st t \<longleftrightarrow> closings t = 0 \<and>
     (\<forall>n. turn_limit lm n \<longrightarrow> 0 \<le> n \<longrightarrow> int (completions t) = ls_turns st \<and> ls_turns st \<le> n) \<and>
     (\<forall>n. call_limit lm n \<longrightarrow> 0 \<le> n \<longrightarrow> int (executions t) = ls_tool_calls st \<and> ls_tool_calls st \<le> n) \<and>
     (\<forall>q a. Completed q a \<in> set t \<longrightarrow> request_ok lm q)"

definition loop_good :: "limits_policy \<Rightarrow> loop_state \<Rightarrow> rt_event list \<Rightarrow> bool" where
  "loop_good lm st t \<longleftrightarrow> counts_ok lm st t \<and> results_ok lm (results_of (ls_conversation st)) \<and>
     (\<forall>k. total_limit lm k \<longrightarrow> 0 \<le> k \<longrightarrow> output_bytes (results_of (ls_conversation st)) = ls_total_tool_output_bytes st \<and>
        ls_total_tool_output_bytes st \<le> k) \<and>
     0 \<le> spent t \<and> ls_consumed_tokens st = min max_int64 (spent t)"

lemma turn_request_ok: "loop_good lm st t \<Longrightarrow> request_ok lm (turn_request X lm defs st)"
proof -
  assume good: "loop_good lm st t"
  have "wrap64 (b - ls_consumed_tokens st) = b - ls_consumed_tokens st" if "1 \<le> b" "b \<le> max_int64" for b
    using good that by (intro wrap64_id) (auto simp: loop_good_def int64_ok_def)
  with good show ?thesis
    by (auto simp: request_ok_def turn_request_def loop_good_def remainingTokenBudget_def Let_def)
qed

definition advances :: "limits_policy \<Rightarrow> loop_state \<Rightarrow> loop_state \<Rightarrow> bool" where
  "advances lm st st1 \<longleftrightarrow> \<not> reached (lm_max_turns lm) (ls_turns st) \<and> ls_turns st1 = wrap32 (ls_turns st + 1)"

lemma turn_counts:
  assumes good: "loop_good lm st t" and turn: "turn_ok X lm defs st o' st1 t1"
  shows "counts_ok lm st1 (t @ t1)"
proof -
  from turn consider (quiet) "quiet t1" "st1 = st"
    | (asked) answer t' where "t1 = Completed (turn_request X lm defs st) answer # t'" "quiet t'" "advances lm st st1"
        "ls_tool_calls st1 = ls_tool_calls st" by (auto simp: turn_ok_def advances_def)
  then show ?thesis
  proof cases
    case quiet
    with good show ?thesis by (auto simp: loop_good_def counts_ok_def quiet_counts quiet_no_request)
  next
    case asked
    have "int (completions (t @ t1)) = ls_turns st1 \<and> ls_turns st1 \<le> n" if "turn_limit lm n" "0 \<le> n" for n
    proof -
      from good that have "int (completions t) = ls_turns st" "ls_turns st \<le> n" by (auto simp: loop_good_def counts_ok_def)
      with asked that show ?thesis by (auto simp: advances_def reached_def turn_limit_def wrap32_small quiet_counts)
    qed
    moreover have "request_ok lm q" if "Completed q a \<in> set (t @ t1)" for q a
      using that good asked turn_request_ok [OF good, of X defs] by (auto simp: loop_good_def counts_ok_def quiet_no_request)
    moreover have "int (executions (t @ t1)) = ls_tool_calls st1 \<and> ls_tool_calls st1 \<le> n" if "call_limit lm n" "0 \<le> n" for n
      using that good asked by (auto simp: loop_good_def counts_ok_def quiet_counts)
    moreover have "closings (t @ t1) = 0"
      using good asked by (simp add: loop_good_def counts_ok_def quiet_counts)
    ultimately show ?thesis unfolding counts_ok_def by blast
  qed
qed

lemma turn_good:
  assumes good: "loop_good lm st t" and turn: "turn_ok X lm defs st o' st1 t1"
  shows "(\<exists>r. o' = TurnFailed r \<and> failed r) \<or>
    (\<exists>q response. Completed q (Inr response) \<in> set t1 \<and> ValidateResponse (eg_lib X) (eg_json_valid X) response = None \<and>
       outcome_ok response o' \<and> loop_good lm st1 (t @ t1) \<and> checkAfterResponse lm st1 = None \<and> advances lm st st1)"
proof (cases "\<exists>r. o' = TurnFailed r \<and> failed r")
  case False
  with turn obtain response t' where t1: "t1 = Completed (turn_request X lm defs st) (Inr response) # t'" "quiet t'"
    and step: "advances lm st st1" "turn_done X lm st response o' st1" "ls_total_tool_output_bytes st1 = ls_total_tool_output_bytes st"
    by (auto simp: turn_ok_def advances_def)
  then have ok: "ValidateResponse (eg_lib X) (eg_json_valid X) response = None" by (simp add: turn_done_def)
  have "0 \<le> measuredTokens (cp_usage response)" by (rule measuredTokens_nonneg [OF ok])
  moreover from good have "0 \<le> spent t" "ls_consumed_tokens st = min max_int64 (spent t)" by (simp_all add: loop_good_def)
  ultimately have "ls_consumed_tokens st1 = min max_int64 (spent (t @ t1)) \<and> 0 \<le> spent (t @ t1)"
    using step(2) t1 by (simp add: turn_done_def spent_quiet saturatingAdd_nonneg)
  with good step results_of_validated [OF ok] turn_counts [OF assms] have "loop_good lm st1 (t @ t1)"
    by (auto simp: loop_good_def turn_done_def)
  with t1 step ok show ?thesis by (auto simp: turn_done_def)
qed simp

definition answered :: "'s engine \<Rightarrow> limits_policy \<Rightarrow> rt_event list \<Rightarrow> run_result \<Rightarrow> bool" where
  "answered X lm t r \<longleftrightarrow>
     (\<exists>q response. Completed q (Inr response) \<in> set t \<and> ValidateResponse (eg_lib X) (eg_json_valid X) response = None \<and> final_answer response r) \<and>
     ClosedTools None \<in> set t \<and> (\<forall>b. lm_token_budget lm = Some b \<longrightarrow> min max_int64 (spent t) \<le> b)"

definition bounded :: "limits_policy \<Rightarrow> rt_event list \<Rightarrow> bool" where
  "bounded lm t \<longleftrightarrow>
     (\<forall>n. turn_limit lm n \<longrightarrow> 0 \<le> n \<longrightarrow> int (completions t) \<le> n) \<and> (\<forall>n. call_limit lm n \<longrightarrow> 0 \<le> n \<longrightarrow> int (executions t) \<le> n) \<and>
     (\<forall>q a. Completed q a \<in> set t \<longrightarrow> request_ok lm q)"

lemma counts_bounded: "counts_ok lm st t \<Longrightarrow> bounded lm t"
  by (auto simp: counts_ok_def bounded_def)

lemma bounded_closed: "bounded lm t \<Longrightarrow> quiet t' \<Longrightarrow> bounded lm (t @ ClosedTools e # t')"
  by (auto simp: bounded_def quiet_counts quiet_no_request)

lemma batch_counts:
  assumes "counts_ok lm st t" "executeToolBatch X lm st response calls s = ((res, st1), t1, s1)"
  shows "counts_ok lm st1 (t @ t1)"
  using assms(1) executeToolBatch_does [OF assms(2)]
  by (force simp: counts_ok_def tool_events_def completions_def filter_empty_conv)

lemma batch_good:
  assumes "loop_good lm st t" "executeToolBatch X lm st response calls s = ((None, st1), t1, s1)"
  shows "loop_good lm st1 (t @ t1)"
proof -
  from executeToolBatch_does [OF assms(2)] obtain rs where
      rs: "ls_conversation st1 = ls_conversation st @ [\<lparr>mg_role = RoleTool, mg_content = map result_block rs\<rparr>]" "counted lm st rs st1"
    and ev: "tool_events t1" "ls_consumed_tokens st1 = ls_consumed_tokens st" by auto
  have nonneg: "0 \<le> ls_total_tool_output_bytes st" if "total_limit lm k" "0 \<le> k" for k
    using assms(1) that output_bytes_nonneg [of "results_of (ls_conversation st)"] by (auto simp: loop_good_def)
  show ?thesis
    using assms(1) batch_counts [OF _ assms(2)] rs ev nonneg
    by (auto simp: loop_good_def counted_def results_of_tool_message spent_tools)
qed

definition finished :: "'s engine \<Rightarrow> limits_policy \<Rightarrow> run_result \<Rightarrow> rt_event list \<Rightarrow> bool" where
  "finished X lm r t \<longleftrightarrow> closings t = 1 \<and> bounded lm t \<and> (failed r \<or> answered X lm t r)"

lemma finished_cleanup:
  assumes "counts_ok lm st t" "failed r" "cleanupToolExecutor X st1 r s = (r', t', s')"
  shows "finished X lm r' (t @ t')"
  using cleanup_does [OF assms(3)] assms(1,2) bounded_closed [OF counts_bounded [OF assms(1)]]
  by (auto simp: finished_def failed_def counts_ok_def quiet_counts)

lemma finished_final:
  assumes good: "loop_good lm st t" and last: "Completed q (Inr response) \<in> set t" "checkAfterResponse lm st = None"
    "ValidateResponse (eg_lib X) (eg_json_valid X) response = None" "final_answer response r"
    and fin: "finish_final X st response r s = (r', t', s')"
  shows "finished X lm r' (t @ t')"
proof -
  have counts: "counts_ok lm st t" using good by (simp add: loop_good_def)
  have "xr_exit_code r = 0" using last(4) by (simp add: final_answer_def)
  from finish_final_does [OF fin this] obtain e t'' where t': "t' = ClosedTools e # t''" "quiet t''" and r': "r' = r \<and> e = None \<or> failed r'"
    by blast
  have budget: "min max_int64 (spent t) \<le> b" if "lm_token_budget lm = Some b" for b
    using good last(2) that by (auto simp: loop_good_def checkAfterResponse_def split: if_splits)
  have "answered X lm (t @ t') r'" if "r' = r" "e = None"
    using last(1,3,4) budget that t' unfolding answered_def by (auto simp: spent_quiet)
  with r' t' counts bounded_closed [OF counts_bounded [OF counts] t'(2)] show ?thesis
    by (auto simp: finished_def counts_ok_def quiet_counts)
qed

lemma iterate_good:
  assumes good: "loop_good lm st t" and it: "iterate X lm defs st s = (res, t', s')"
  shows "case res of Inl r \<Rightarrow> finished X lm r (t @ t') | Inr st' \<Rightarrow> loop_good lm st' (t @ t') \<and> advances lm st st'"
proof -
  from it obtain o' st1 t1 s1 t2 where turn: "providerTurn X lm defs st s = ((o', st1), t1, s1)" and t': "t' = t1 @ t2"
    and rest: "(case o' of
         TurnPaused \<Rightarrow> rt_return (Inr st1)
       | TurnFinal response result \<Rightarrow> rt_bind (finish_final X st1 response result) (\<lambda>r. rt_return (Inl r))
       | TurnFailed result \<Rightarrow> rt_bind (cleanupToolExecutor X st1 result) (\<lambda>r. rt_return (Inl r))
       | TurnToolBatch response calls \<Rightarrow>
           rt_bind (executeToolBatch X lm st1 response calls) (\<lambda>(res, st2).
             case res of
               Some result \<Rightarrow> rt_bind (cleanupToolExecutor X st2 result) (\<lambda>r. rt_return (Inl r))
             | None \<Rightarrow> rt_return (Inr st2))) s1 = (res, t2, s')"
    by (auto simp: iterate_def rt_bind_eq)
  note ok = providerTurn_does [OF turn]
  note counts = turn_counts [OF good ok]
  from turn_good [OF good ok] consider (failed) r where "o' = TurnFailed r" "failed r"
    | (valid) q response where "Completed q (Inr response) \<in> set (t @ t1)" "ValidateResponse (eg_lib X) (eg_json_valid X) response = None"
       "outcome_ok response o'" "loop_good lm st1 (t @ t1)" "checkAfterResponse lm st1 = None" "advances lm st st1" by auto
  then show ?thesis
  proof cases
    case failed
    with rest t' counts show ?thesis by (auto simp: rt_eqs dest: finished_cleanup)
  next
    case valid
    show ?thesis
    proof (cases o')
      case TurnPaused
      with valid rest t' show ?thesis by (auto simp: rt_eqs)
    next
      case (TurnFailed r)
      with valid rest t' counts show ?thesis by (auto simp: outcome_ok_def rt_eqs dest: finished_cleanup)
    next
      case (TurnFinal response' r)
      with valid(3) have "response' = response" "final_answer response r" by (simp_all add: outcome_ok_def)
      with TurnFinal rest t' finished_final [OF valid(4,1,5,2)] show ?thesis by (auto simp: rt_eqs)
    next
      case (TurnToolBatch response' calls)
      from rest TurnToolBatch obtain out st2 t3 s3 t4 where batch: "executeToolBatch X lm st1 response' calls s1 = ((out, st2), t3, s3)"
        and t2: "t2 = t3 @ t4"
        and after: "(case out of Some result \<Rightarrow> rt_bind (cleanupToolExecutor X st2 result) (\<lambda>r. rt_return (Inl r))
             | None \<Rightarrow> rt_return (Inr st2)) s3 = (res, t4, s')" by (auto simp: rt_bind_eq)
      have turns: "ls_turns st2 = ls_turns st1" using executeToolBatch_does [OF batch] by simp
      show ?thesis
      proof (cases out)
        case None
        with batch_good [OF valid(4)] batch after t' t2 valid(6) turns show ?thesis
          by (auto simp: rt_eqs advances_def)
      next
        case (Some r)
        with executeToolBatch_does [OF batch] have "failed r" by simp
        with Some after t' t2 finished_cleanup [OF batch_counts [OF counts batch]] show ?thesis by (auto simp: rt_eqs)
      qed
    qed
  qed
qed

lemma loop_good_start: "loop_good lm (newLoopState goal t0) t" if "quiet t"
  using that by (auto simp: loop_good_def counts_ok_def newLoopState_def quiet_counts quiet_no_request spent_quiet)

lemma run_loop_finishes:
  assumes "run_loop X lm defs st t s = Some (r, t', s')" "loop_good lm st t"
  shows "finished X lm r t'"
proof -
  have step: "case loop_step X lm defs x of Inl (r, t', _) \<Rightarrow> finished X lm r t' | Inr (st', t', _) \<Rightarrow> loop_good lm st' t'"
    if good: "case x of (st, t, _) \<Rightarrow> loop_good lm st t" for x
  proof -
    obtain st t s where x: "x = (st, t, s)" by (cases x)
    obtain res t1 s1 where it: "iterate X lm defs st s = (res, t1, s1)" by (cases "iterate X lm defs st s")
    from iterate_good [OF _ it, of t] good show ?thesis
      by (cases res) (simp_all add: x loop_step_def it)
  qed
  have keeps: "case x' of (st, t, _) \<Rightarrow> loop_good lm st t"
    if "case x of (st, t, _) \<Rightarrow> loop_good lm st t" "loop_step X lm defs x = Inr x'" for x x'
    using step [OF that(1)] that(2) by simp
  have gives: "case y of (r, t', _) \<Rightarrow> finished X lm r t'"
    if "case x of (st, t, _) \<Rightarrow> loop_good lm st t" "loop_step X lm defs x = Inl y" for x y
    using step [OF that(1)] that(2) by simp
  have "case (st, t, s) of (st, t, s) \<Rightarrow> run_loop X lm defs st t s = Some (r, t', s')" using assms(1) by simp
  then have "case (r, t', s') of (r, t', _) \<Rightarrow> finished X lm r t'"
    using engine_loop.partial_correctness [where good = "\<lambda>(st, t, _). loop_good lm st t" and post = "\<lambda>(r, t', _). finished X lm r t'"
        and x = "(st, t, s)" and r = "(r, t', s')" and X = X and lm = lm and defs = defs, OF _ _ keeps gives] assms(2) by simp
  then show ?thesis by simp
qed

lemma run_loop_returns:
  assumes n: "turn_limit lm n" "0 \<le> n" and good: "loop_good lm st t"
  shows "\<exists>res. run_loop X lm defs st t s = Some res"
proof -
  have step: "(case x' of (st', t', _) \<Rightarrow> loop_good lm st' t') \<and> nat (n - ls_turns (fst x')) < nat (n - ls_turns (fst x))"
    if good: "case x of (st, t, _) \<Rightarrow> loop_good lm st t" and next_x: "loop_step X lm defs x = Inr x'" for x x'
  proof -
    obtain st t s where x: "x = (st, t, s)" by (cases x)
    from next_x obtain st1 t1 s1 where it: "iterate X lm defs st s = (Inr st1, t1, s1)" and x': "x' = (st1, t @ t1, s1)"
      by (auto simp: loop_step_def x split: prod.splits sum.splits)
    from iterate_good [OF _ it, of t] good x have st1: "loop_good lm st1 (t @ t1)" "advances lm st st1" by simp_all
    have "0 \<le> ls_turns st" using good x n by (auto simp: loop_good_def counts_ok_def)
    with st1 n show ?thesis by (auto simp: x x' advances_def reached_def turn_limit_def wrap32_small)
  qed
  from engine_loop.returns [of "\<lambda>(st, t, _). loop_good lm st t" "(st, t, s)" X lm defs "\<lambda>x. nat (n - ls_turns (fst x))"] step good
  show ?thesis by auto
qed

subsection \<open>The whole run\<close>

lemma quiet_prefix:
  assumes "quiet t0" shows "finished X lm r t \<Longrightarrow> finished X lm r (t0 @ t)" "bounded lm t0"
  using assms by (auto simp: finished_def bounded_def answered_def quiet_counts quiet_no_request spent_quiet)

lemma announce_quiet: "announce_tools X s = (defs, t, s') \<Longrightarrow> quiet t"
  by (auto simp: announce_tools_def rt_eqs split: if_splits)

lemma start_run_does: "start_run X s = (st, t, s') \<Longrightarrow> quiet t \<and> (\<exists>t0. st = newLoopState (cf_goal (eg_config X)) t0)"
  by (auto simp: start_run_def Let_def rt_eqs)

lemma run_finishes:
  assumes "run X lm (newLoopState goal t0) s = Some (r, t, s')"
  shows "finished X lm r t"
proof -
  obtain defs t1 s1 where a: "announce_tools X s = (defs, t1, s1)" by (cases "announce_tools X s")
  with assms have "run_loop X lm defs (newLoopState goal t0) t1 s1 = Some (r, t, s')" by (simp add: run_def)
  then show ?thesis by (rule run_loop_finishes [OF _ loop_good_start [OF announce_quiet [OF a]]])
qed

lemma returned_Some: "returned m t s = Some (r, t', s') \<longleftrightarrow> (\<exists>t1. m s = (r, t1, s') \<and> t' = t @ t1)"
  by (auto simp: returned_def split: prod.splits)

text \<open>A run fails before the loop, or is the loop after what announces it.\<close>

lemma Run_split [consumes 1, case_names failed ready]:
  assumes "Run R s = Some (r, t, s')"
  obtains "failed r" "quiet t \<or> (\<exists>e t3 t4. t = t3 @ ClosedTools e # t4 \<and> quiet t3 \<and> quiet t4)"
    | t0 t1 t' s3 where "quiet t1" "t = t1 @ t'"
        "run (rn_engine R) (newLimitsPolicy (eg_config (rn_engine R))) (newLoopState (cf_goal (eg_config (rn_engine R))) t0) s3 = Some (r, t', s')"
proof -
  let ?X = "rn_engine R" and ?c = "eg_config (rn_engine R)"
  let ?split = "failed r \<and> (quiet t \<or> (\<exists>e t3 t4. t = t3 @ ClosedTools e # t4 \<and> quiet t3 \<and> quiet t4)) \<or>
    (\<exists>t0 t1 t' s3. quiet t1 \<and> t = t1 @ t' \<and> run ?X (newLimitsPolicy ?c) (newLoopState (cf_goal ?c) t0) s3 = Some (r, t', s'))"
  obtain st t1 s1 where first: "start_run ?X s = (st, t1, s1)" by (cases "start_run ?X s")
  from start_run_does [OF first] first obtain t0 where
    start: "start_run ?X s = (newLoopState (cf_goal ?c) t0, t1, s1)" and quiet: "quiet t1" by auto
  consider (none) "rn_resolve_tools R = None"
    | (provider) rt err s2 where "rn_resolve_tools R = Some rt" "rn_resolve R ?c s1 = (Some err, s2)"
    | (tools) rt s2 err e s3 where "rn_resolve_tools R = Some rt" "rn_resolve R ?c s1 = (None, s2)" "rt ?c s2 = (ToolsFailed err e, s3)"
    | (nil) rt s2 s3 where "rn_resolve_tools R = Some rt" "rn_resolve R ?c s1 = (None, s2)" "rt ?c s2 = (ToolsNil, s3)"
    | (ready) rt s2 s3 where "rn_resolve_tools R = Some rt" "rn_resolve R ?c s1 = (None, s2)" "rt ?c s2 = (ToolsReady, s3)"
    by (metis option.exhaust surj_pair tools_answer.exhaust)
  then have ?split
  proof cases
    case tools
    with assms start obtain r1 t2 t3 s4 where t: "t = t1 @ t2 @ t3"
      and f: "fail ?X (newLoopState (cf_goal ?c) t0) (tools_code err) (er_text err) None [] s3 = (r1, t2, s4)"
      and c: "(if e then cleanupToolExecutor ?X (newLoopState (cf_goal ?c) t0) r1 else rt_return r1) s4 = (r, t3, s')"
      by (auto simp: Run_def Let_def returned_Some rt_bind_eq)
    have f1: "failed r1" "quiet t2" using fail_does [OF f] by simp_all
    have "failed r \<and> (t3 = [] \<or> (\<exists>e t4. t3 = ClosedTools e # t4 \<and> quiet t4))"
      using c f1(1) by (cases e) (auto simp: rt_eqs failed_def dest!: cleanup_does)
    moreover have "quiet (t1 @ t2)" using quiet f1(2) by simp
    ultimately show ?thesis unfolding t by (metis append.assoc append_Nil2)
  next
    case ready
    with assms start quiet show ?thesis by (auto simp: Run_def Let_def split: option.splits)
  qed (use assms start quiet in \<open>auto simp: Run_def Let_def returned_Some dest!: fail_does\<close>)
  then show thesis using that by blast
qed

lemma Run_cases:
  assumes "Run R s = Some (r, t, s')"
  shows "failed r \<and> closings t \<le> 1 \<and> bounded (newLimitsPolicy (eg_config (rn_engine R))) t \<or>
    finished (rn_engine R) (newLimitsPolicy (eg_config (rn_engine R))) r t"
  using assms
proof (cases rule: Run_split)
  case failed
  then show ?thesis by (auto simp: quiet_counts bounded_def quiet_no_request)
next
  case (ready t0 t1 t' s3)
  show ?thesis using quiet_prefix(1) [OF ready(1) run_finishes [OF ready(3)]] ready(2) by simp
qed

text \<open>
  C9. A run of the reference runtime says truthfully how it ended. Exit code 0 goes with a Succeeded envelope, whose
  output is the text of a response the provider really gave: a valid one, with no tool call left unanswered, that
  stopped by itself; the tools were then closed, once and without error, and the measured tokens are within the
  budget. Every other run exits 1 with a Failed envelope that carries an error, and closes the tools at most once.
\<close>

theorem Run_verdict:
  assumes "Run R s = Some (r, t, s')"
  shows "xr_exit_code r = 1 \<and> en_outcome (xr_envelope r) = OutcomeFailed \<and> en_error (xr_envelope r) \<noteq> None \<and> closings t \<le> 1 \<or>
    xr_exit_code r = 0 \<and> en_outcome (xr_envelope r) = OutcomeSucceeded \<and> closings t = 1 \<and> ClosedTools None \<in> set t \<and>
    (\<exists>q response. Completed q (Inr response) \<in> set t \<and>
       ValidateResponse (eg_lib (rn_engine R)) (eg_json_valid (rn_engine R)) response = None \<and>
       MessageToolCalls (cp_message response) = [] \<and> cp_stop_reason response \<in> {StopReasonEndTurn, StopReasonStopSequence} \<and>
       en_output (xr_envelope r) = Some \<lparr>ro_media_type = DefaultMediaType, ro_value = json_string (MessageText (cp_message response))\<rparr>) \<and>
    (\<forall>b. cf_token_budget (eg_config (rn_engine R)) = Some b \<longrightarrow> min max_int64 (spent t) \<le> b)"
  using Run_cases [OF assms]
  by (auto simp: finished_def failed_def answered_def final_answer_def newLimitsPolicy_def)

text \<open>
  C10. The limits of an accepted configuration hold for every provider and every tool: a run asks the provider at most
  \<open>MaxTurns\<close> times and calls at most \<open>MaxToolCalls\<close> tools; in every request each tool result is at most
  \<open>MaxToolResultBytes\<close> long and all of them together at most \<open>MaxTotalToolOutputBytes\<close>; and with a token budget every
  request caps the answer at a positive number of tokens within it.
\<close>

theorem Run_within_limits:
  assumes "Run R s = Some (r, t, s')" "eg_config (rn_engine R) = c"
    and "limit_within maxTurnsLimit (cf_max_turns c)" "limit_within maxToolCallsLimit (cf_max_tool_calls c)"
    and "limit_within maxToolResultBytesLimit (cf_max_tool_result_bytes c)"
    and "limit_within maxTotalToolOutputBytesLimit (cf_max_total_tool_output_bytes c)" "limit_within max_int64 (cf_token_budget c)"
  shows "(\<forall>n. cf_max_turns c = Some n \<longrightarrow> int (completions t) \<le> n) \<and> (\<forall>n. cf_max_tool_calls c = Some n \<longrightarrow> int (executions t) \<le> n) \<and>
    (\<forall>q a. Completed q a \<in> set t \<longrightarrow>
       (\<forall>k. cf_max_tool_result_bytes c = Some k \<longrightarrow> (\<forall>x \<in> set (results_of (cq_messages q)). int (length (tlr_content x)) \<le> k)) \<and>
       (\<forall>k. cf_max_total_tool_output_bytes c = Some k \<longrightarrow> output_bytes (results_of (cq_messages q)) \<le> k) \<and>
       (\<forall>b. cf_token_budget c = Some b \<longrightarrow> (\<exists>m. cq_max_tokens q = Some m \<and> 1 \<le> m \<and> m \<le> b)))"
proof -
  from Run_cases [OF assms(1)] assms(2) have b: "bounded (newLimitsPolicy c) t" by (auto simp: finished_def)
  have req: "request_ok (newLimitsPolicy c) q" if "Completed q a \<in> set t" for q a using b that by (auto simp: bounded_def)
  show ?thesis
    using b req assms(3-7)
    by (fastforce simp: bounded_def turn_limit_def call_limit_def total_limit_def request_ok_def results_ok_def newLimitsPolicy_def limit_within_def)
qed

text \<open>
  C11. A run with a turn limit always ends: whatever the provider and the tools answer, and however often the provider
  pauses, the loop returns a result.
\<close>

theorem Run_returns:
  assumes "cf_max_turns (eg_config (rn_engine R)) = Some n" "limit_within maxTurnsLimit (cf_max_turns (eg_config (rn_engine R)))"
  shows "\<exists>r t s'. Run R s = Some (r, t, s')"
proof -
  let ?lm = "newLimitsPolicy (eg_config (rn_engine R))"
  have n: "turn_limit ?lm n" "0 \<le> n" using assms by (auto simp: turn_limit_def newLimitsPolicy_def limit_within_def)
  obtain st t1 s1 where st: "start_run (rn_engine R) s = (st, t1, s1)" by (cases "start_run (rn_engine R) s")
  then obtain t0 where st0: "st = newLoopState (cf_goal (eg_config (rn_engine R))) t0" by (auto dest: start_run_does)
  have "run (rn_engine R) ?lm st s2 \<noteq> None" for s2
  proof -
    obtain defs t2 s3 where a: "announce_tools (rn_engine R) s2 = (defs, t2, s3)" by (cases "announce_tools (rn_engine R) s2")
    with st0 run_loop_returns [OF n loop_good_start [OF announce_quiet [OF a]]] show ?thesis by (auto simp: run_def)
  qed
  then have run: "run (rn_engine R) ?lm st s2 = None \<longleftrightarrow> False" for s2 by simp
  have "Run R s \<noteq> None"
    unfolding Run_def Let_def returned_def st
    by (simp add: run split: prod.split option.split tools_answer.split)
  then show ?thesis by auto
qed

subsection \<open>A scripted run\<close>

text \<open>A provider that asks for one tool call and then answers; the tool returns ten bytes, the limit is eight.\<close>

definition script_config :: config where
  "script_config = \<lparr>cf_run_name = ''r'', cf_agent_name = ''a'', cf_goal = ''g'', cf_provider = ''fake'', cf_model = ''m'', cf_tools = [],
     cf_mcp = [], cf_token_budget = Some 100, cf_wallclock_budget = None, cf_dollar_budget = None, cf_max_turns = Some 2,
     cf_max_tool_calls = Some 1, cf_max_tool_result_bytes = Some 8, cf_max_total_tool_output_bytes = Some 16,
     cf_emit_tool_output = False, cf_provider_endpoint = [], cf_provider_base_url = [], cf_anthropic_api_key = [],
     cf_openai_api_key = [], cf_fake_scenario = [], cf_fake_delay = 0, cf_fake_tool_name = [], cf_fake_tool_arguments = [],
     cf_fake_tool_sequence = []\<rparr>"

definition script_usage :: usage where
  "script_usage = \<lparr>pu_input_tokens = Some 3, pu_output_tokens = Some 4, pu_total_tokens = None, pu_reasoning_tokens = None\<rparr>"

definition script_response :: "nat \<Rightarrow> completion_response" where
  "script_response n =
     (if n = 0 then \<lparr>cp_message = \<lparr>mg_role = RoleAssistant, mg_content = [\<lparr>cb_type = ContentTypeToolCall, cb_text = [],
          cb_tool_call = Some \<lparr>tc_id = ''c'', tc_name = ''t'', tc_arguments = ''{}''\<rparr>, cb_tool_result = None\<rparr>]\<rparr>,
        cp_usage = script_usage, cp_stop_reason = StopReasonToolUse, cp_request_id = ''q''\<rparr>
      else \<lparr>cp_message = \<lparr>mg_role = RoleAssistant, mg_content = [text_block ''ok'']\<rparr>, cp_usage = script_usage,
        cp_stop_reason = StopReasonEndTurn, cp_request_id = ''q''\<rparr>)"

definition script_engine :: "nat engine" where
  "script_engine = \<lparr>eg_lib = zero_digest, eg_json_valid = (\<lambda>s. s = ''{}''), eg_emitter = False, eg_config = script_config,
     eg_now = (\<lambda>s. (0, s)), eg_ctx_err = (\<lambda>s. (CtxActive, s)), eg_complete = (\<lambda>_ s. (Inr (script_response s), Suc s)),
     eg_definitions = (\<lambda>s. ([], s)),
     eg_execute = (\<lambda>_ s. (Inr \<lparr>tlr_call_id = ''c'', tlr_name = ''t'', tlr_content = ''0123456789'', tlr_is_error = False,
        tlr_error_code = [], tlr_truncated = False\<rparr>, s)), eg_close = (\<lambda>s. (None, s))\<rparr>"

definition script_runner :: "nat runner" where
  "script_runner = \<lparr>rn_engine = script_engine, rn_resolve = (\<lambda>_ s. (None, s)), rn_resolve_tools = Some (\<lambda>_ s. (ToolsReady, s))\<rparr>"

lemma script_run:
  "\<exists>r t s'. Run script_runner 0 = Some (r, t, s') \<and> xr_exit_code r = 0 \<and> completions t = 2 \<and> executions t = 1"
proof -
  have "case Run script_runner 0 of None \<Rightarrow> False | Some (r, t, s') \<Rightarrow> xr_exit_code r = 0 \<and> completions t = 2 \<and> executions t = 1"
    by code_simp
  then show ?thesis by (auto split: option.splits)
qed

lemma script_limits:
  "limit_within maxTurnsLimit (cf_max_turns script_config)" "limit_within maxToolCallsLimit (cf_max_tool_calls script_config)"
  "limit_within maxToolResultBytesLimit (cf_max_tool_result_bytes script_config)"
  "limit_within maxTotalToolOutputBytesLimit (cf_max_total_tool_output_bytes script_config)"
  "limit_within max_int64 (cf_token_budget script_config)" "eg_config (rn_engine script_runner) = script_config"
  by (simp_all add: limit_within_def script_config_def script_runner_def script_engine_def)

theorem Run_verdict_witness:
  "\<exists>r t s'. Run script_runner 0 = Some (r, t, s') \<and> en_outcome (xr_envelope r) = OutcomeSucceeded \<and> closings t = 1"
proof -
  obtain r t s' where r: "Run script_runner 0 = Some (r, t, s')" "xr_exit_code r = 0" using script_run by blast
  with Run_verdict [OF r(1)] show ?thesis by auto
qed

theorem Run_within_limits_witness:
  "\<exists>r t s'. Run script_runner 0 = Some (r, t, s') \<and> completions t = 2 \<and> int (completions t) \<le> 2 \<and> int (executions t) \<le> 1"
proof -
  obtain r t s' where r: "Run script_runner 0 = Some (r, t, s')" "completions t = 2" using script_run by blast
  have "cf_max_turns script_config = Some 2" "cf_max_tool_calls script_config = Some 1" by (simp_all add: script_config_def)
  with Run_within_limits [OF r(1) script_limits(6,1-5)] r show ?thesis by auto
qed

theorem Run_returns_witness: "\<exists>r t s'. Run script_runner 7 = Some (r, t, s')"
  by (rule Run_returns [where n = 2]) (simp_all add: script_limits limit_within_def, simp_all add: script_config_def)

end
