(* ===== verification/Engine_State.thy ===== *)
theory Engine_State
  imports Engine_Run
begin

text \<open>
  What the operations of an engine keep of the world, a run keeps. The locale \<open>engine_keeps\<close> is the interface: a
  predicate on the state that every operation the engine is given preserves. The proofs go through the code of the
  engine step by step, with the rules for the combinators in the collection \<open>keeps_rules\<close>.
\<close>

definition keeps :: "('s \<Rightarrow> bool) \<Rightarrow> ('s, 'a) rt \<Rightarrow> bool" where
  "keeps P m \<longleftrightarrow> (\<forall>s x t s'. m s = (x, t, s') \<longrightarrow> P s \<longrightarrow> P s')"

definition op_keeps :: "('s \<Rightarrow> bool) \<Rightarrow> ('s \<Rightarrow> 'a \<times> 's) \<Rightarrow> bool" where
  "op_keeps P op \<longleftrightarrow> (\<forall>s x s'. op s = (x, s') \<longrightarrow> P s \<longrightarrow> P s')"

named_theorems keeps_rules "that the steps of an engine keep a predicate on its state"

lemma keepsD: "keeps P m \<Longrightarrow> m s = (x, t, s') \<Longrightarrow> P s \<Longrightarrow> P s'"
  by (simp add: keeps_def)

lemma op_keepsD: "op_keeps P op \<Longrightarrow> op s = (x, s') \<Longrightarrow> P s \<Longrightarrow> P s'"
  by (simp add: op_keeps_def)

lemma keeps_combinators [keeps_rules]:
  "keeps P (rt_return x)"
  "keeps P m \<Longrightarrow> (\<And>x. keeps P (f x)) \<Longrightarrow> keeps P (rt_bind m f)"
  "op_keeps P op \<Longrightarrow> keeps P (rt_read op)"
  "op_keeps P op \<Longrightarrow> keeps P (rt_call ev op)"
  "keeps P (emit X e)"
     apply (simp add: keeps_def rt_return_def)
    apply (fastforce simp: keeps_def rt_bind_def split: prod.splits)
   apply (auto simp: keeps_def op_keeps_def rt_read_def rt_call_def emit_def split: prod.splits)
  done

lemma keeps_cases [keeps_rules]:
  "(b \<Longrightarrow> keeps P m) \<Longrightarrow> (\<not> b \<Longrightarrow> keeps P n) \<Longrightarrow> keeps P (if b then m else n)"
  "keeps P m \<Longrightarrow> (\<And>x. keeps P (f x)) \<Longrightarrow> keeps P (case v of None \<Rightarrow> m | Some x \<Rightarrow> f x)"
  "(\<And>a. keeps P (l a)) \<Longrightarrow> (\<And>b. keeps P (r b)) \<Longrightarrow> keeps P (case u of Inl a \<Rightarrow> l a | Inr b \<Rightarrow> r b)"
  "(\<And>a b. keeps P (g a b)) \<Longrightarrow> keeps P (case p of (a, b) \<Rightarrow> g a b)"
  "keeps P m \<Longrightarrow> (\<And>q r. keeps P (f' q r)) \<Longrightarrow> (\<And>q cs. keeps P (h q cs)) \<Longrightarrow> (\<And>r. keeps P (k r)) \<Longrightarrow>
     keeps P (case o' of TurnPaused \<Rightarrow> m | TurnFinal q r \<Rightarrow> f' q r | TurnToolBatch q cs \<Rightarrow> h q cs | TurnFailed r \<Rightarrow> k r)"
  by (auto split: option.splits sum.splits prod.splits turn_outcome.splits)

locale engine_keeps =
  fixes X :: "'s engine" and P :: "'s \<Rightarrow> bool"
  assumes ops: "op_keeps P (eg_now X)" "op_keeps P (eg_ctx_err X)" "op_keeps P (eg_complete X q)" "op_keeps P (eg_definitions X)"
    "op_keeps P (eg_execute X call)" "op_keeps P (eg_close X)"
begin

lemmas rules = keeps_rules ops

lemma failures [keeps_rules]: "keeps P (fail X st code msg ret rid)" "keeps P (failLimit X st v rid)" "keeps P (fail_error X st err rid')"
  unfolding failLimit_def fail_error_def fail_def normalizeError_def by (intro rules)+

lemma answers: "keeps P (handle_answer X lm st t0 answer)" "keeps P (tool_answer X lm rid st t0 answer')"
  unfolding tool_answer_def handle_answer_def accept_response_def judge_turn_def emit_usage_def turn_failed_def Let_def
  by (intro rules failures)+

lemma turn [keeps_rules]: "keeps P (providerTurn X lm defs st)"
  unfolding providerTurn_def turn_failed_def Let_def by (intro rules failures answers)

lemma tools: "keeps P (tool_loop X lm rid st blocks calls)"
proof (induction calls arbitrary: st blocks)
  case (Cons call calls)
  show ?case unfolding tool_loop.simps call_tool_def Let_def by (intro rules failures answers Cons.IH)
qed (simp only: tool_loop.simps keeps_combinators)

lemma batch [keeps_rules]: "keeps P (executeToolBatch X lm st response calls)"
  unfolding executeToolBatch_def by (intro rules failures tools)

lemma cleanup [keeps_rules]: "keeps P (cleanupToolExecutor X st r)" "keeps P (finish_final X st response r)"
  unfolding finish_final_def cleanupToolExecutor_def after_close_def Let_def by (intro rules failures)+

lemma loop_iteration: "keeps P (iterate X lm defs st)"
  unfolding iterate_def by (intro rules turn batch cleanup)

lemma run_keeps:
  assumes "run X lm st s = Some (r, t, s')" "P s"
  shows "P s'"
proof -
  obtain defs t1 s1 where a: "announce_tools X s = (defs, t1, s1)" by (cases "announce_tools X s")
  have "keeps P (announce_tools X)" unfolding announce_tools_def by (intro rules)
  from keepsD [OF this a assms(2)] have s1: "P s1" .
  let ?good = "\<lambda>(_, _, s). P s"
  have step: "case loop_step X lm defs x of Inl y \<Rightarrow> ?good y | Inr x' \<Rightarrow> ?good x'" if good: "?good x" for x
  proof -
    obtain st t s where x: "x = (st, t, s)" by (cases x)
    obtain res t1 s1 where it: "iterate X lm defs st s = (res, t1, s1)" by (cases "iterate X lm defs st s")
    from keepsD [OF loop_iteration it] good show ?thesis by (cases res) (simp_all add: x loop_step_def it)
  qed
  have "?good x'" if "?good x" "loop_step X lm defs x = Inr x'" for x x' using step [OF that(1)] that(2) by simp
  moreover have "?good y" if "?good x" "loop_step X lm defs x = Inl y" for x y using step [OF that(1)] that(2) by simp
  moreover have "case (st, t1, s1) of (st, u, s) \<Rightarrow> run_loop X lm defs st u s = Some (r, t, s')" using assms(1) a by (simp add: run_def)
  ultimately have "?good (r, t, s')"
    using engine_loop.partial_correctness [where good = ?good and post = ?good and x = "(st, t1, s1)" and r = "(r, t, s')" and X = X and lm = lm and defs = defs]
      s1 by auto
  then show ?thesis by simp
qed

lemma Run_keeps:
  assumes "Run R s = Some (r, t, s')" "rn_engine R = X" "P s"
    and "op_keeps P (rn_resolve R (eg_config X))" "\<And>rt. rn_resolve_tools R = Some rt \<Longrightarrow> op_keeps P (rt (eg_config X))"
  shows "P s'"
proof -
  obtain st t1 s1 where st: "start_run X s = (st, t1, s1)" by (cases "start_run X s")
  have "keeps P (start_run X)" unfolding start_run_def Let_def by (intro rules)
  from keepsD [OF this st assms(3)] have s1: "P s1" .
  have failing: "P s'" if "returned m t1 s2 = Some (r, t, s')" "keeps P m" "P s2" for m s2
    using that keepsD [OF that(2)] by (auto simp: returned_Some)
  show ?thesis
  proof (cases "rn_resolve_tools R")
    case None
    with assms(1,2) st failing [OF _ failures(1) s1] show ?thesis by (simp add: Run_def Let_def)
  next
    case (Some rt)
    obtain e s2 where e: "rn_resolve R (eg_config X) s1 = (e, s2)" by (cases "rn_resolve R (eg_config X) s1")
    from op_keepsD [OF assms(4) e s1] have s2: "P s2" .
    obtain a s3 where a: "rt (eg_config X) s2 = (a, s3)" by (cases "rt (eg_config X) s2")
    from op_keepsD [OF assms(5) [OF Some] a s2] have s3: "P s3" .
    show ?thesis
    proof (cases e)
      case (Some x)
      with assms(1,2) \<open>rn_resolve_tools R = Some rt\<close> st e failing [OF _ failures(1) s2] show ?thesis by (simp add: Run_def Let_def)
    next
      case None
      note R = assms(1) [unfolded Run_def Let_def assms(2) st prod.case \<open>rn_resolve_tools R = Some rt\<close> option.case e None a]
      show ?thesis
      proof (cases a)
        case ToolsReady
        with R obtain t' where "run X (newLimitsPolicy (eg_config X)) st s3 = Some (r, t', s')" by (auto split: option.splits)
        then show ?thesis by (rule run_keeps [OF _ s3])
      next
        case ToolsNil
        with R failing [OF _ failures(1) s3] show ?thesis by simp
      next
        case (ToolsFailed err executor)
        have "keeps P (rt_bind (fail X st (tools_code err) (er_text err) None [])
            (\<lambda>r. if executor then cleanupToolExecutor X st r else rt_return r))" by (intro rules failures cleanup)
        from failing [OF _ this s3] ToolsFailed R show ?thesis by simp
      qed
    qed
  qed
qed

end

end
