(* ===== verification/Provider_Http.thy ===== *)
theory Provider_Http
  imports Runtime_Api Runtime_Config
begin

text \<open>
  The HTTP side of the model providers, \<^verbatim>\<open>provider/http.go\<close> and \<^verbatim>\<open>provider/validation.go\<close>: one JSON request, the
  classification of every way it can fail, and the checks of keys and endpoints. The HTTP client and the context are
  operations on a world of arbitrary type; \<^verbatim>\<open>net/url\<close>, \<^verbatim>\<open>http.NewRequest\<close> and the JSON decoders are parameters.
\<close>

subsection \<open>Requests, responses and their headers\<close>

type_synonym http_header = "string list go_map"

text \<open>\<^verbatim>\<open>http.CanonicalHeaderKey\<close>\<close>

fun canonical_chars :: "bool \<Rightarrow> string \<Rightarrow> string" where
  "canonical_chars upper [] = []"
| "canonical_chars upper (c # cs) = (if upper then upper_char c else lower_char c) # canonical_chars (c = CHR ''-'') cs"

definition canonical_header :: "string \<Rightarrow> string" where
  "canonical_header name = (if validHTTPHeaderName name then canonical_chars True name else name)"

definition header_get :: "http_header \<Rightarrow> string \<Rightarrow> string" where
  "header_get h name = (case map_of h (canonical_header name) of Some (v # _) \<Rightarrow> v | _ \<Rightarrow> [])"

definition header_set :: "string \<Rightarrow> string \<Rightarrow> http_header \<Rightarrow> http_header" where
  "header_set name v h = map_put (canonical_header name) [v] h"

definition header_add :: "string \<Rightarrow> string \<Rightarrow> http_header \<Rightarrow> http_header" where
  "header_add name v h =
     map_put (canonical_header name) ((case map_of h (canonical_header name) of None \<Rightarrow> [] | Some vs \<Rightarrow> vs) @ [v]) h"

record http_request =
  hq_method :: string
  hq_url :: string
  hq_header :: http_header
  hq_body :: string

text \<open>The bytes of a body and the error that reading them ends with, if it does not end with \<^verbatim>\<open>io.EOF\<close>.\<close>

record http_response =
  hs_status :: int
  hs_header :: http_header
  hs_body :: string
  hs_body_error :: "string option"

record http_error =
  he_text :: string
  he_deadline_exceeded :: bool
  he_canceled :: bool
  he_net_timeout :: bool

text \<open>\<^verbatim>\<open>io.ReadAll(io.LimitReader(body, n))\<close>\<close>

definition read_limited :: "int \<Rightarrow> http_response \<Rightarrow> string go_result" where
  "read_limited n response =
     (if int (length (hs_body response)) \<ge> n then Inr (take (nat n) (hs_body response))
      else case hs_body_error response of Some e \<Rightarrow> Inl e | None \<Rightarrow> Inr (hs_body response))"

record http_lib =
  hl_config :: config_lib
  hl_url_path :: "string \<Rightarrow> string"
  hl_url_with_path :: "string \<Rightarrow> string \<Rightarrow> string"
  hl_new_request :: "string \<Rightarrow> string option"
  hl_json_valid :: "string \<Rightarrow> bool"
  hl_compact :: "string \<Rightarrow> string go_result"
  hl_unmarshal_failure :: "string \<Rightarrow> string \<times> string"

record 's http_world =
  hw_ctx_err :: "'s \<Rightarrow> ctx_error \<times> 's"
  hw_do :: "http_request \<Rightarrow> 's \<Rightarrow> (http_error + http_response) \<times> 's"

abbreviation maxProviderResponseBytes :: int where "maxProviderResponseBytes \<equiv> 4194304"

subsection \<open>Errors of a request\<close>

definition mk_provider_error :: "string \<Rightarrow> string \<Rightarrow> bool \<Rightarrow> int option \<Rightarrow> string \<Rightarrow> runtime_error" where
  "mk_provider_error code message retryable status requestID = provider_failure
     \<lparr>pe_code = code, pe_message = message, pe_retryable = Some retryable, pe_http_status = status, pe_request_id = requestID\<rparr>"

definition normalizeRequestError :: "'s http_world \<Rightarrow> http_error \<Rightarrow> 's \<Rightarrow> runtime_error \<times> 's" where
  "normalizeRequestError W err s0 =
     (case hw_ctx_err W s0 of (ctx, s1) \<Rightarrow>
        if ctx = CtxDeadlineExceeded then (ctx_failure CtxDeadlineExceeded, s1)
        else case hw_ctx_err W s1 of (ctx', s2) \<Rightarrow>
          if ctx' = CtxCanceled then (ctx_failure CtxCanceled, s2)
          else if he_deadline_exceeded err \<or> he_net_timeout err then
            (mk_provider_error ''provider_timeout'' ''provider request timed out'' True None [], s2)
          else if he_canceled err then (ctx_failure CtxCanceled, s2)
          else (mk_provider_error ''provider_network_error'' (''provider endpoint request failed: '' @ he_text err) True None [], s2))"

definition status_failure :: "int \<Rightarrow> string \<times> bool" where
  "status_failure status =
     (if status = 401 \<or> status = 403 then (''authentication_failed'', False)
      else if status = 408 \<or> status = 504 then (''provider_timeout'', True)
      else if status = 429 then (''rate_limited'', True)
      else if status \<ge> 500 then (''provider_endpoint_error'', True)
      else if status \<ge> 400 \<and> status < 500 then (''provider_request_rejected'', False)
      else (''provider_endpoint_error'', False))"

definition providerHTTPError :: "string \<Rightarrow> int \<Rightarrow> string \<Rightarrow> string \<Rightarrow> runtime_error" where
  "providerHTTPError providerName status message requestID =
     (let message' = (if trim_space message = [] then providerName @ '' endpoint returned HTTP '' @ show_int status else message)
      in mk_provider_error (fst (status_failure status)) message' (snd (status_failure status)) (Some status) requestID)"

definition invalidResponse :: "string \<Rightarrow> int \<Rightarrow> string \<Rightarrow> runtime_error" where
  "invalidResponse message status requestID =
     mk_provider_error ''invalid_provider_response'' message False (Some status) requestID"

fun first_header :: "http_header \<Rightarrow> string list \<Rightarrow> string list \<Rightarrow> string \<times> string list" where
  "first_header h tried [] = ([], tried)"
| "first_header h tried (name # names) =
     (if canonical_header name \<in> set tried then first_header h tried names
      else if trim_space (header_get h name) \<noteq> [] then (trim_space (header_get h name), tried)
      else first_header h (canonical_header name # tried) names)"

definition requestID :: "http_header \<Rightarrow> string list \<Rightarrow> string" where
  "requestID h names =
     (case first_header h [] names of (v, tried) \<Rightarrow>
        if v \<noteq> [] then v
        else (case find (\<lambda>name. canonical_header name \<notin> set tried \<and> trim_space (header_get h name) \<noteq> [])
                  [''request-id'', ''x-request-id''] of
                None \<Rightarrow> [] | Some name \<Rightarrow> trim_space (header_get h name)))"

subsection \<open>One request\<close>

definition json_request :: "string \<Rightarrow> (string \<times> string) list \<Rightarrow> string \<Rightarrow> http_request" where
  "json_request endpoint headers body =
     \<lparr>hq_method = ''POST'', hq_url = endpoint,
      hq_header = fold (\<lambda>(name, v) h. header_add name v h) headers (header_set ''Content-Type'' ''application/json'' []),
      hq_body = body\<rparr>"

definition read_response :: "http_response \<Rightarrow> runtime_error + http_response" where
  "read_response response =
     (case read_limited (maxProviderResponseBytes + 1) response of
        Inl e \<Rightarrow> Inl (mk_provider_error ''provider_response_read_failed'' (''could not read provider response: '' @ e) True None
                     (requestID (hs_header response) []))
      | Inr body \<Rightarrow>
          if int (length body) > maxProviderResponseBytes then
            Inl (mk_provider_error ''invalid_provider_response''
                   (''provider response exceeded '' @ show_int maxProviderResponseBytes @ '' bytes'') False
                   (Some (hs_status response)) (requestID (hs_header response) []))
          else Inr \<lparr>hs_status = hs_status response, hs_header = hs_header response, hs_body = body, hs_body_error = None\<rparr>)"

definition sendJSON ::
  "http_lib \<Rightarrow> 's http_world \<Rightarrow> string \<Rightarrow> (string \<times> string) list \<Rightarrow> json \<Rightarrow> 's \<Rightarrow> (runtime_error + http_response) \<times> 's" where
  "sendJSON H W endpoint headers payload s =
     (case print_json (hl_compact H) payload of
        Inl e \<Rightarrow> (Inl (plain_error (''encode provider request: '' @ e)), s)
      | Inr body \<Rightarrow>
          (case hl_new_request H endpoint of
             Some e \<Rightarrow> (Inl (configuration_failure \<lparr>ce_provider = [], ce_code = ''invalid_provider_endpoint'',
                          ce_message = ''cannot create request for configured endpoint: '' @ e\<rparr>), s)
           | None \<Rightarrow>
               (case hw_do W (json_request endpoint headers body) s of
                  (Inl err, s1) \<Rightarrow> (case normalizeRequestError W err s1 of (e, s2) \<Rightarrow> (Inl e, s2))
                | (Inr response, s1) \<Rightarrow> (read_response response, s1))))"

definition classify_answer ::
  "http_lib \<Rightarrow> string \<Rightarrow> string \<Rightarrow> bool \<Rightarrow> (string \<Rightarrow> 'r go_result) \<Rightarrow> ('r \<Rightarrow> string \<Rightarrow> completion_response go_result) \<Rightarrow>
   http_response \<Rightarrow> runtime_error + completion_response" where
  "classify_answer H providerName requestIDHeader useBodyRequestID unmarshal normal result =
     (let rid = requestID (hs_header result) [requestIDHeader]; status = hs_status result in
      if status < 200 \<or> status \<ge> 300 then
        (case hl_unmarshal_failure H (hs_body result) of (body_id, message) \<Rightarrow>
           Inl (providerHTTPError providerName status message
                  (if useBodyRequestID \<and> rid = [] then trim_space body_id else rid)))
      else case unmarshal (hs_body result) of
        Inl e \<Rightarrow> Inl (invalidResponse (providerName @ '' returned malformed JSON: '' @ e) status rid)
      | Inr response \<Rightarrow>
          (case normal response rid of
             Inl e \<Rightarrow> Inl (invalidResponse (providerName @ '' returned an invalid response: '' @ e) status rid)
           | Inr normal_response \<Rightarrow> Inr normal_response))"

definition completeJSON ::
  "http_lib \<Rightarrow> 's http_world \<Rightarrow> string \<Rightarrow> (string \<times> string) list \<Rightarrow> json \<Rightarrow> string \<Rightarrow> string \<Rightarrow> bool \<Rightarrow>
   (string \<Rightarrow> 'r go_result) \<Rightarrow> ('r \<Rightarrow> string \<Rightarrow> completion_response go_result) \<Rightarrow>
   's \<Rightarrow> (runtime_error + completion_response) \<times> 's" where
  "completeJSON H W endpoint headers payload providerName requestIDHeader useBodyRequestID unmarshal normal s =
     (case sendJSON H W endpoint headers payload s of
        (Inl err, s1) \<Rightarrow> (Inl err, s1)
      | (Inr result, s1) \<Rightarrow> (classify_answer H providerName requestIDHeader useBodyRequestID unmarshal normal result, s1))"

subsection \<open>Keys and endpoints\<close>

text \<open>Some rune is a control character: below U+0020 or from U+007F to U+009F.\<close>

fun has_control :: "string \<Rightarrow> bool" where
  "has_control [] = False"
| "has_control (c # cs) \<longleftrightarrow> byte_in 0 31 c \<or> c = CHR 0x7F \<or>
     c = CHR 0xC2 \<and> (case cs of d # _ \<Rightarrow> byte_in 128 159 d | [] \<Rightarrow> False) \<or> has_control cs"

definition validateAPIKey :: "golib \<Rightarrow> string \<Rightarrow> string \<Rightarrow> configuration_error option" where
  "validateAPIKey L providerName apiKey =
     (if apiKey = [] then
        Some \<lparr>ce_provider = providerName, ce_code = ''missing_provider_credentials'',
              ce_message = to_upper L providerName @ ''_API_KEY is required''\<rparr>
      else if trim_space apiKey \<noteq> apiKey \<or> has_control apiKey then
        Some \<lparr>ce_provider = providerName, ce_code = ''invalid_provider_credentials'',
              ce_message = to_upper L providerName @ ''_API_KEY must not contain surrounding whitespace or control characters''\<rparr>
      else None)"

definition validateHTTPURL :: "config_lib \<Rightarrow> string \<Rightarrow> string option" where
  "validateHTTPURL C v =
     (case cl_parse_url C v of
        Inl e \<Rightarrow> Some e
      | Inr u \<Rightarrow>
          if \<not> absolute_http u then Some ''must be an absolute HTTP(S) URL''
          else if url_has_user u then Some ''must not contain embedded credentials''
          else None)"

definition endpoint_error :: "string \<Rightarrow> string \<Rightarrow> configuration_error" where
  "endpoint_error providerName message =
     \<lparr>ce_provider = providerName, ce_code = ''invalid_provider_endpoint'', ce_message = message\<rparr>"

definition providerEndpoint :: "http_lib \<Rightarrow> string \<Rightarrow> string \<Rightarrow> string \<Rightarrow> string \<Rightarrow> string \<Rightarrow> configuration_error + string" where
  "providerEndpoint H providerName explicitEndpoint baseURL defaultEndpoint path =
     (if explicitEndpoint \<noteq> [] \<and> baseURL \<noteq> [] then
        Inl (endpoint_error providerName ''provider endpoint and base URL are mutually exclusive'')
      else if explicitEndpoint \<noteq> [] then
        (case validateHTTPURL (hl_config H) explicitEndpoint of
           Some e \<Rightarrow> Inl (endpoint_error providerName (''invalid provider endpoint: '' @ e))
         | None \<Rightarrow> Inr explicitEndpoint)
      else if baseURL = [] then Inr defaultEndpoint
      else (case validateHTTPURL (hl_config H) baseURL of
              Some e \<Rightarrow> Inl (endpoint_error providerName (''invalid provider base URL: '' @ e))
            | None \<Rightarrow>
                (case cl_parse_url (hl_config H) baseURL of
                   Inl e \<Rightarrow> Inl (endpoint_error providerName (''invalid provider base URL: '' @ e))
                 | Inr _ \<Rightarrow> Inr (hl_url_with_path H baseURL
                     (trim_right_char (CHR ''/'') (hl_url_path H baseURL) @ ''/'' @ dropWhile (\<lambda>c. c = CHR ''/'') path)))))"

subsection \<open>Checks of a request before it is encoded\<close>

fun validateToolDefinitions :: "(string \<Rightarrow> bool) \<Rightarrow> nat \<Rightarrow> tool_definition list \<Rightarrow> string option" where
  "validateToolDefinitions json_valid index [] = None"
| "validateToolDefinitions json_valid index (d # ds) =
     (if trim_space (td_name d) = [] \<or> trim_space (td_description d) = [] \<or> \<not> json_valid (td_input_schema d)
      then Some (''tool definition '' @ show_nat index @ '' is invalid'')
      else validateToolDefinitions json_valid (index + 1) ds)"

definition validateMessage :: "golib \<Rightarrow> nat \<Rightarrow> message \<Rightarrow> string option" where
  "validateMessage L index m =
     (if mg_role m \<noteq> RoleUser \<and> mg_role m \<noteq> RoleAssistant \<and> mg_role m \<noteq> RoleTool then
        Some (''message '' @ show_nat index @ '' has unsupported role '' @ quote L (mg_role m))
      else None)"

text \<open>The text of a tool result given to a model: a JSON object; the error of \<^verbatim>\<open>json.Marshal\<close> is ignored.\<close>

definition omit_empty :: "string \<Rightarrow> string \<Rightarrow> (string \<times> json) list" where
  "omit_empty name v = (if v = [] then [] else [(name, JStr v)])"

definition omit_false :: "string \<Rightarrow> bool \<Rightarrow> (string \<times> json) list" where
  "omit_false name b = (if b then [(name, JBool b)] else [])"

definition marshalled :: "json \<Rightarrow> string" where
  "marshalled j = (case print_json Inr j of Inl _ \<Rightarrow> [] | Inr t \<Rightarrow> t)"

definition providerToolResultContent :: "tool_result \<Rightarrow> string" where
  "providerToolResultContent r = marshalled (JObj ([(''content'', JStr (tlr_content r)), (''isError'', JBool (tlr_is_error r))] @
     omit_empty ''errorCode'' (tlr_error_code r) @ omit_false ''truncated'' (tlr_truncated r)))"

subsection \<open>What a request can come to\<close>

lemma mk_provider_error_simps [simp]:
  "er_provider (mk_provider_error code message retryable status rid) =
     Some \<lparr>pe_code = code, pe_message = message, pe_retryable = Some retryable, pe_http_status = status, pe_request_id = rid\<rparr>"
  "er_deadline_exceeded (mk_provider_error code message retryable status rid) = False"
  "er_canceled (mk_provider_error code message retryable status rid) = False"
  by (simp_all add: mk_provider_error_def provider_failure_def plain_error_def)

definition retry_status :: "int \<Rightarrow> bool" where
  "retry_status status \<longleftrightarrow> status = 408 \<or> status = 429 \<or> status \<ge> 500"

definition answer_judged :: "http_response \<Rightarrow> (string \<Rightarrow> 'r go_result) \<Rightarrow> ('r \<Rightarrow> string \<Rightarrow> completion_response go_result) \<Rightarrow>
    runtime_error + completion_response \<Rightarrow> bool" where
  "answer_judged response unmarshal normal res \<longleftrightarrow>
     (let status = hs_status response; body = hs_body response; ok = 200 \<le> status \<and> status < 300;
          small = int (length body) \<le> maxProviderResponseBytes in
      case res of
        Inr resp \<Rightarrow> ok \<and> small \<and> (\<exists>r rid. unmarshal body = Inr r \<and> normal r rid = Inr resp)
      | Inl err \<Rightarrow> \<not> er_deadline_exceeded err \<and> \<not> er_canceled err \<and>
          (\<exists>p. er_provider err = Some p \<and> pe_http_status p = Some status \<and>
             (pe_retryable p = Some True \<longleftrightarrow> small \<and> retry_status status) \<and>
             (pe_code p = ''invalid_provider_response'' \<longleftrightarrow> \<not> small \<or> ok) \<and>
             (pe_code p = ''authentication_failed'' \<longleftrightarrow> small \<and> (status = 401 \<or> status = 403)) \<and>
             (pe_code p = ''rate_limited'' \<longleftrightarrow> small \<and> status = 429)))"

lemma status_failure_kinds:
  "snd (status_failure status) \<longleftrightarrow> retry_status status"
  "fst (status_failure status) \<noteq> ''invalid_provider_response''"
  "fst (status_failure status) = ''authentication_failed'' \<longleftrightarrow> status = 401 \<or> status = 403"
  "fst (status_failure status) = ''rate_limited'' \<longleftrightarrow> status = 429"
  by (auto simp: status_failure_def retry_status_def)

lemma classify_answer_judged:
  assumes "int (length (hs_body response)) \<le> maxProviderResponseBytes"
  shows "answer_judged response unmarshal normal (classify_answer H name idh useBody unmarshal normal response)"
proof (cases "200 \<le> hs_status response \<and> hs_status response < 300")
  case True
  with assms show ?thesis
    by (auto simp: answer_judged_def classify_answer_def Let_def invalidResponse_def retry_status_def split: sum.splits)
next
  case False
  with assms show ?thesis
    by (auto simp: answer_judged_def classify_answer_def Let_def providerHTTPError_def status_failure_kinds split: prod.splits)
qed

lemma read_response_cases:
  assumes "hs_body_error response = None"
  shows "read_response response =
    (if int (length (hs_body response)) \<le> maxProviderResponseBytes then Inr response
     else Inl (mk_provider_error ''invalid_provider_response''
       (''provider response exceeded '' @ show_int maxProviderResponseBytes @ '' bytes'') False
       (Some (hs_status response)) (requestID (hs_header response) [])))"
proof (cases "int (length (hs_body response)) \<le> maxProviderResponseBytes")
  case True
  then show ?thesis using assms by (simp add: read_response_def read_limited_def)
next
  case False
  then have "length (take (nat (maxProviderResponseBytes + 1)) (hs_body response)) = nat (maxProviderResponseBytes + 1)" by simp
  with False show ?thesis by (simp add: read_response_def read_limited_def)
qed

text \<open>
  C39. Every answer of a model endpoint is judged exactly: a response is accepted only with a 2xx status, at most 4 MiB
  and a body that decodes and normalises; otherwise the failure carries the HTTP status, is never mistaken for a
  cancellation or a deadline, and suggests a retry exactly for 408, 429 and every status from 500, whatever the body says.
\<close>

theorem completeJSON_judges_answer:
  assumes "print_json (hl_compact H) payload = Inr body" "hl_new_request H url = None"
    and "hw_do W (json_request url headers body) s = (Inr response, s1)" "hs_body_error response = None"
    and "completeJSON H W url headers payload name idh useBody unmarshal normal s = (res, s')"
  shows "s' = s1 \<and> answer_judged response unmarshal normal res"
proof (cases "int (length (hs_body response)) \<le> maxProviderResponseBytes")
  case True
  with assms have "s' = s1" "res = classify_answer H name idh useBody unmarshal normal response"
    by (simp_all add: completeJSON_def sendJSON_def read_response_cases)
  with classify_answer_judged [OF True] show ?thesis by blast
next
  case False
  with assms show ?thesis
    by (auto simp: completeJSON_def sendJSON_def read_response_cases answer_judged_def Let_def)
qed

definition busy_answer :: http_response where
  "busy_answer = \<lparr>hs_status = 503, hs_header = [(''Request-Id'', [''r1''])], hs_body = ''busy'', hs_body_error = None\<rparr>"

definition plain_http_lib :: http_lib where
  "plain_http_lib = \<lparr>hl_config = plain_config_lib, hl_url_path = (\<lambda>_. []), hl_url_with_path = (\<lambda>u p. u @ p),
     hl_new_request = (\<lambda>_. None), hl_json_valid = (\<lambda>_. True), hl_compact = Inr, hl_unmarshal_failure = (\<lambda>b. ([], b))\<rparr>"

definition busy_world :: "nat http_world" where
  "busy_world = \<lparr>hw_ctx_err = (\<lambda>s. (CtxActive, s)), hw_do = (\<lambda>_ s. (Inr busy_answer, s + 1))\<rparr>"

theorem completeJSON_judges_answer_witness:
  "print_json (hl_compact plain_http_lib) JNull = Inr ''null'' \<and>
   (\<exists>res. completeJSON plain_http_lib busy_world ''https://model'' [] JNull ''model'' ''request-id'' True
       (\<lambda>_. Inl ''no'' :: unit go_result) (\<lambda>_ _. Inl ''no'') 0 = (res, 1) \<and>
     answer_judged busy_answer (\<lambda>_. Inl ''no'' :: unit go_result) (\<lambda>_ _. Inl ''no'') res)"
proof -
  have p: "print_json (hl_compact plain_http_lib) JNull = Inr ''null''" "hl_new_request plain_http_lib ''https://model'' = None"
    by (simp_all add: plain_http_lib_def)
  have d: "hw_do busy_world (json_request ''https://model'' [] ''null'') 0 = (Inr busy_answer, 1)" "hs_body_error busy_answer = None"
    by (simp_all add: busy_world_def busy_answer_def)
  obtain res s' where c: "completeJSON plain_http_lib busy_world ''https://model'' [] JNull ''model'' ''request-id'' True
      (\<lambda>_. Inl ''no'' :: unit go_result) (\<lambda>_ _. Inl ''no'') 0 = (res, s')" by fastforce
  from completeJSON_judges_answer [OF p d c] p c show ?thesis by blast
qed

end
