(* ===== verification/Provider_Wire.thy ===== *)
theory Provider_Wire
  imports Provider_Http
begin

text \<open>
  The two wire formats of the reference runtime, \<^verbatim>\<open>provider/anthropic.go\<close> and \<^verbatim>\<open>provider/openai.go\<close>: a conversation as
  request payload, and a decoded response as the runtime's vocabulary. The structures are those of the source, with
  their JSON tags in the functions into \<open>json\<close>; the decoders of \<^verbatim>\<open>encoding/json\<close> are parameters.

  The interface the engine relies on is the locale \<open>wire_format\<close>: encoding keeps every tool call and every tool result,
  in order, decoding keeps every tool call, and a well-formed conversation is always accepted.
\<close>

subsection \<open>Anthropic: requests\<close>

abbreviation DefaultAnthropicEndpoint :: string where
  "DefaultAnthropicEndpoint \<equiv> ''https://api.anthropic.com/v1/messages''"
abbreviation anthropicMessagesPath :: string where "anthropicMessagesPath \<equiv> ''v1/messages''"
abbreviation anthropicVersion :: string where "anthropicVersion \<equiv> ''2023-06-01''"
abbreviation anthropicDefaultMaxTokens :: int where "anthropicDefaultMaxTokens \<equiv> 4096"

record anthropic_content =
  ac_type :: string
  ac_text :: string
  ac_id :: string
  ac_name :: string
  ac_input :: string
  ac_tool_use_id :: string
  ac_content :: string
  ac_is_error :: bool

record anthropic_message =
  am_role :: string
  am_content :: "anthropic_content list"

record anthropic_tool =
  at_name :: string
  at_description :: string
  at_input_schema :: string

record anthropic_payload =
  ap_model :: string
  ap_max_tokens :: int
  ap_messages :: "anthropic_message list"
  ap_tools :: "anthropic_tool list"

definition no_content :: anthropic_content where
  "no_content = \<lparr>ac_type = [], ac_text = [], ac_id = [], ac_name = [], ac_input = [], ac_tool_use_id = [], ac_content = [],
     ac_is_error = False\<rparr>"

definition block_place :: "nat \<Rightarrow> nat \<Rightarrow> string" where
  "block_place messageIndex blockIndex = ''message '' @ show_nat messageIndex @ '' content block '' @ show_nat blockIndex"

definition anthropic_block :: "golib \<Rightarrow> nat \<Rightarrow> string \<Rightarrow> nat \<Rightarrow> content_block \<Rightarrow> anthropic_content go_result" where
  "anthropic_block L messageIndex role blockIndex block =
     (if cb_type block = ContentTypeText then
        (if role = RoleTool then Inl (''tool '' @ block_place messageIndex blockIndex @ '' must be a tool result'')
         else Inr (no_content\<lparr>ac_type := ''text'', ac_text := cb_text block\<rparr>))
      else if cb_type block = ContentTypeToolCall then
        (case cb_tool_call block of
           Some call \<Rightarrow>
             if role \<noteq> RoleAssistant then Inl (block_place messageIndex blockIndex @ '' has invalid tool call'')
             else Inr (no_content\<lparr>ac_type := ''tool_use'', ac_id := tc_id call, ac_name := tc_name call, ac_input := tc_arguments call\<rparr>)
         | None \<Rightarrow> Inl (block_place messageIndex blockIndex @ '' has invalid tool call''))
      else if cb_type block = ContentTypeToolResult then
        (case cb_tool_result block of
           Some result \<Rightarrow>
             if role \<noteq> RoleTool then Inl (block_place messageIndex blockIndex @ '' has invalid tool result'')
             else Inr (no_content\<lparr>ac_type := ''tool_result'', ac_tool_use_id := tlr_call_id result,
                         ac_content := providerToolResultContent result, ac_is_error := tlr_is_error result\<rparr>)
         | None \<Rightarrow> Inl (block_place messageIndex blockIndex @ '' has invalid tool result''))
      else Inl (block_place messageIndex blockIndex @ '' has unsupported type '' @ quote L (cb_type block)))"

fun anthropic_blocks :: "golib \<Rightarrow> nat \<Rightarrow> string \<Rightarrow> nat \<Rightarrow> content_block list \<Rightarrow> anthropic_content list go_result" where
  "anthropic_blocks L messageIndex role blockIndex [] = Inr []"
| "anthropic_blocks L messageIndex role blockIndex (block # blocks) =
     go_bind (anthropic_block L messageIndex role blockIndex block) (\<lambda>c.
     go_bind (anthropic_blocks L messageIndex role (blockIndex + 1) blocks) (\<lambda>cs. Inr (c # cs)))"

fun anthropic_messages :: "golib \<Rightarrow> nat \<Rightarrow> message list \<Rightarrow> anthropic_message list go_result" where
  "anthropic_messages L index [] = Inr []"
| "anthropic_messages L index (m # ms) =
     (case validateMessage L index m of
        Some e \<Rightarrow> Inl e
      | None \<Rightarrow>
          go_bind (anthropic_blocks L index (mg_role m) 0 (mg_content m)) (\<lambda>content.
          go_bind (anthropic_messages L (index + 1) ms) (\<lambda>rest.
            Inr (\<lparr>am_role = (if mg_role m = RoleTool then RoleUser else mg_role m), am_content = content\<rparr> # rest))))"

definition anthropicRequest :: "http_lib \<Rightarrow> completion_request \<Rightarrow> anthropic_payload go_result" where
  "anthropicRequest H q =
     (case validateToolDefinitions (hl_json_valid H) 0 (cq_tools q) of
        Some e \<Rightarrow> Inl e
      | None \<Rightarrow>
          go_bind (anthropic_messages (cl_go (hl_config H)) 0 (cq_messages q)) (\<lambda>messages.
            Inr \<lparr>ap_model = cq_model q,
                 ap_max_tokens = (case cq_max_tokens q of None \<Rightarrow> anthropicDefaultMaxTokens | Some n \<Rightarrow> n),
                 ap_messages = messages,
                 ap_tools = map (\<lambda>d. \<lparr>at_name = td_name d, at_description = td_description d,
                                     at_input_schema = td_input_schema d\<rparr>) (cq_tools q)\<rparr>))"

definition anthropic_content_json :: "anthropic_content \<Rightarrow> json" where
  "anthropic_content_json c = JObj ([(''type'', JStr (ac_type c))] @ omit_empty ''text'' (ac_text c) @ omit_empty ''id'' (ac_id c) @
     omit_empty ''name'' (ac_name c) @ (if ac_input c = [] then [] else [(''input'', JRaw (ac_input c))]) @
     omit_empty ''tool_use_id'' (ac_tool_use_id c) @ omit_empty ''content'' (ac_content c) @ omit_false ''is_error'' (ac_is_error c))"

definition anthropic_json :: "anthropic_payload \<Rightarrow> json" where
  "anthropic_json p = JObj ([(''model'', JStr (ap_model p)), (''max_tokens'', JInt (ap_max_tokens p)),
     (''messages'', JList (map (\<lambda>m. JObj [(''role'', JStr (am_role m)),
        (''content'', JList (map anthropic_content_json (am_content m)))]) (ap_messages p)))] @
     (if ap_tools p = [] then []
      else [(''tools'', JList (map (\<lambda>t. JObj [(''name'', JStr (at_name t)), (''description'', JStr (at_description t)),
              (''input_schema'', JRaw (at_input_schema t))]) (ap_tools p)))]))"

subsection \<open>Anthropic: responses\<close>

record anthropic_response_content =
  arc_type :: string
  arc_text :: string
  arc_id :: string
  arc_name :: string
  arc_input :: string

record anthropic_response =
  arp_role :: string
  arp_content :: "anthropic_response_content list"
  arp_stop_reason :: string
  arp_input_tokens :: "int option"
  arp_output_tokens :: "int option"

definition call_block :: "tool_call \<Rightarrow> content_block" where
  "call_block c = \<lparr>cb_type = ContentTypeToolCall, cb_text = [], cb_tool_call = Some c, cb_tool_result = None\<rparr>"

fun anthropic_response_blocks :: "golib \<Rightarrow> nat \<Rightarrow> anthropic_response_content list \<Rightarrow> content_block list go_result" where
  "anthropic_response_blocks L index [] = Inr []"
| "anthropic_response_blocks L index (b # bs) =
     go_bind
       (if arc_type b = ''text'' then Inr (text_block (arc_text b))
        else if arc_type b = ''tool_use'' then
          Inr (call_block \<lparr>tc_id = arc_id b, tc_name = arc_name b, tc_arguments = arc_input b\<rparr>)
        else Inl (''content block '' @ show_nat index @ '' has unsupported type '' @ quote L (arc_type b))) (\<lambda>block.
     go_bind (anthropic_response_blocks L (index + 1) bs) (\<lambda>blocks. Inr (block # blocks)))"

definition normalizeAnthropicStopReason :: "golib \<Rightarrow> string \<Rightarrow> string go_result" where
  "normalizeAnthropicStopReason L v =
     (if v \<in> set [''end_turn'', ''max_tokens'', ''stop_sequence'', ''tool_use'', ''pause_turn'', ''refusal'',
                  ''model_context_window_exceeded''] then Inr v
      else Inl (''unsupported stop reason '' @ quote L v))"

definition normalizeAnthropicResponse :: "golib \<Rightarrow> anthropic_response \<Rightarrow> string \<Rightarrow> completion_response go_result" where
  "normalizeAnthropicResponse L r rid =
     (if arp_role r \<noteq> RoleAssistant then Inl (''unexpected message role '' @ quote L (arp_role r))
      else go_bind (anthropic_response_blocks L 0 (arp_content r)) (\<lambda>content.
           go_bind (normalizeAnthropicStopReason L (arp_stop_reason r)) (\<lambda>stop.
             Inr \<lparr>cp_message = \<lparr>mg_role = RoleAssistant, mg_content = content\<rparr>,
                  cp_usage = \<lparr>pu_input_tokens = arp_input_tokens r, pu_output_tokens = arp_output_tokens r,
                              pu_total_tokens = None, pu_reasoning_tokens = None\<rparr>,
                  cp_stop_reason = stop, cp_request_id = rid\<rparr>)))"

record anthropic =
  an_api_key :: string
  an_endpoint :: string

definition NewAnthropic :: "http_lib \<Rightarrow> string \<Rightarrow> string \<Rightarrow> string \<Rightarrow> configuration_error + anthropic" where
  "NewAnthropic H apiKey endpoint baseURL =
     (case validateAPIKey (cl_go (hl_config H)) ''anthropic'' apiKey of
        Some e \<Rightarrow> Inl e
      | None \<Rightarrow>
          (case providerEndpoint H ''anthropic'' endpoint baseURL DefaultAnthropicEndpoint anthropicMessagesPath of
             Inl e \<Rightarrow> Inl e
           | Inr url \<Rightarrow> Inr \<lparr>an_api_key = apiKey, an_endpoint = url\<rparr>))"

definition anthropic_Complete ::
  "http_lib \<Rightarrow> 's http_world \<Rightarrow> (string \<Rightarrow> anthropic_response go_result) \<Rightarrow> anthropic \<Rightarrow> completion_request \<Rightarrow>
   's \<Rightarrow> (runtime_error + completion_response) \<times> 's" where
  "anthropic_Complete H W unmarshal A q s =
     (case anthropicRequest H q of
        Inl e \<Rightarrow> (Inl (plain_error e), s)
      | Inr payload \<Rightarrow>
          completeJSON H W (an_endpoint A) [(''x-api-key'', an_api_key A), (''anthropic-version'', anthropicVersion)]
            (anthropic_json payload) ''anthropic'' ''request-id'' True unmarshal
            (normalizeAnthropicResponse (cl_go (hl_config H))) s)"

subsection \<open>OpenAI: requests\<close>

abbreviation DefaultOpenAIEndpoint :: string where
  "DefaultOpenAIEndpoint \<equiv> ''https://api.openai.com/v1/chat/completions''"
abbreviation openAIChatPath :: string where "openAIChatPath \<equiv> ''chat/completions''"

record openai_call =
  oc_id :: string
  oc_type :: string
  oc_name :: string
  oc_arguments :: string

record openai_message =
  om_role :: string
  om_content :: "string option"
  om_tool_calls :: "openai_call list"
  om_tool_call_id :: string

record openai_tool =
  ot_type :: string
  ot_name :: string
  ot_description :: string
  ot_parameters :: string

record openai_payload =
  op_model :: string
  op_messages :: "openai_message list"
  op_max_completion_tokens :: "int option"
  op_tools :: "openai_tool list"

fun openai_tool_messages :: "nat \<Rightarrow> nat \<Rightarrow> content_block list \<Rightarrow> openai_message list go_result" where
  "openai_tool_messages index blockIndex [] = Inr []"
| "openai_tool_messages index blockIndex (block # blocks) =
     (case (if cb_type block \<noteq> ContentTypeToolResult then None else cb_tool_result block) of
        None \<Rightarrow> Inl (''tool '' @ block_place index blockIndex @ '' must be a tool result'')
      | Some result \<Rightarrow>
          go_bind (openai_tool_messages index (blockIndex + 1) blocks) (\<lambda>rest.
            Inr (\<lparr>om_role = RoleTool, om_content = Some (providerToolResultContent result), om_tool_calls = [],
                  om_tool_call_id = tlr_call_id result\<rparr> # rest)))"

fun openai_calls :: "golib \<Rightarrow> nat \<Rightarrow> string \<Rightarrow> nat \<Rightarrow> content_block list \<Rightarrow> openai_call list go_result" where
  "openai_calls L index role blockIndex [] = Inr []"
| "openai_calls L index role blockIndex (block # blocks) =
     (if cb_type block = ContentTypeText then openai_calls L index role (blockIndex + 1) blocks
      else if cb_type block = ContentTypeToolCall then
        (case cb_tool_call block of
           Some call \<Rightarrow>
             if role \<noteq> RoleAssistant then Inl (block_place index blockIndex @ '' has invalid tool call'')
             else go_bind (openai_calls L index role (blockIndex + 1) blocks) (\<lambda>rest.
               Inr (\<lparr>oc_id = tc_id call, oc_type = ''function'', oc_name = tc_name call, oc_arguments = tc_arguments call\<rparr> # rest))
         | None \<Rightarrow> Inl (block_place index blockIndex @ '' has invalid tool call''))
      else Inl (block_place index blockIndex @ '' has unsupported type '' @ quote L (cb_type block)))"

fun openai_messages :: "golib \<Rightarrow> nat \<Rightarrow> message list \<Rightarrow> openai_message list go_result" where
  "openai_messages L index [] = Inr []"
| "openai_messages L index (m # ms) =
     (case validateMessage L index m of
        Some e \<Rightarrow> Inl e
      | None \<Rightarrow>
          go_bind (if mg_role m = RoleTool then openai_tool_messages index 0 (mg_content m)
                   else go_bind (openai_calls L index (mg_role m) 0 (mg_content m)) (\<lambda>calls.
                     Inr [\<lparr>om_role = mg_role m, om_content = (if MessageText m = [] then None else Some (MessageText m)),
                           om_tool_calls = calls, om_tool_call_id = []\<rparr>])) (\<lambda>these.
          go_bind (openai_messages L (index + 1) ms) (\<lambda>rest. Inr (these @ rest))))"

definition openAIRequest :: "http_lib \<Rightarrow> completion_request \<Rightarrow> openai_payload go_result" where
  "openAIRequest H q =
     (case validateToolDefinitions (hl_json_valid H) 0 (cq_tools q) of
        Some e \<Rightarrow> Inl e
      | None \<Rightarrow>
          go_bind (openai_messages (cl_go (hl_config H)) 0 (cq_messages q)) (\<lambda>messages.
            Inr \<lparr>op_model = cq_model q, op_messages = messages, op_max_completion_tokens = cq_max_tokens q,
                 op_tools = map (\<lambda>d. \<lparr>ot_type = ''function'', ot_name = td_name d, ot_description = td_description d,
                                     ot_parameters = td_input_schema d\<rparr>) (cq_tools q)\<rparr>))"

definition openai_message_json :: "openai_message \<Rightarrow> json" where
  "openai_message_json m = JObj ([(''role'', JStr (om_role m)),
     (''content'', case om_content m of None \<Rightarrow> JNull | Some t \<Rightarrow> JStr t)] @
     (if om_tool_calls m = [] then []
      else [(''tool_calls'', JList (map (\<lambda>c. JObj [(''id'', JStr (oc_id c)), (''type'', JStr (oc_type c)),
              (''function'', JObj [(''name'', JStr (oc_name c)), (''arguments'', JStr (oc_arguments c))])]) (om_tool_calls m)))]) @
     omit_empty ''tool_call_id'' (om_tool_call_id m))"

definition openai_json :: "openai_payload \<Rightarrow> json" where
  "openai_json p = JObj ([(''model'', JStr (op_model p)), (''messages'', JList (map openai_message_json (op_messages p)))] @
     (case op_max_completion_tokens p of None \<Rightarrow> [] | Some n \<Rightarrow> [(''max_completion_tokens'', JInt n)]) @
     (if op_tools p = [] then []
      else [(''tools'', JList (map (\<lambda>t. JObj [(''type'', JStr (ot_type t)), (''function'',
              JObj [(''name'', JStr (ot_name t)), (''description'', JStr (ot_description t)), (''parameters'', JRaw (ot_parameters t))])])
              (op_tools p)))]))"

subsection \<open>OpenAI: responses\<close>

record openai_choice =
  och_role :: string
  och_content :: "string option"
  och_refusal :: "string option"
  och_tool_calls :: "openai_call list"
  och_finish_reason :: string

record openai_response =
  ors_choices :: "openai_choice list"
  ors_prompt_tokens :: "int option"
  ors_completion_tokens :: "int option"
  ors_total_tokens :: "int option"
  ors_reasoning_tokens :: "int option"

definition openai_text :: "openai_choice \<Rightarrow> content_block list" where
  "openai_text c =
     (case och_content c of
        Some t \<Rightarrow> if trim_space t \<noteq> [] then [text_block t]
                  else (case och_refusal c of Some r \<Rightarrow> if trim_space r \<noteq> [] then [text_block r] else [] | None \<Rightarrow> [])
      | None \<Rightarrow> (case och_refusal c of Some r \<Rightarrow> if trim_space r \<noteq> [] then [text_block r] else [] | None \<Rightarrow> []))"

fun openai_response_calls :: "http_lib \<Rightarrow> nat \<Rightarrow> openai_call list \<Rightarrow> content_block list go_result" where
  "openai_response_calls H index [] = Inr []"
| "openai_response_calls H index (c # cs) =
     (if oc_type c \<noteq> ''function'' then
        Inl (''tool call '' @ show_nat index @ '' has unsupported type '' @ quote (cl_go (hl_config H)) (oc_type c))
      else if \<not> hl_json_valid H (oc_arguments c) then Inl (''tool call '' @ show_nat index @ '' has malformed JSON arguments'')
      else go_bind (openai_response_calls H (index + 1) cs) (\<lambda>rest.
             Inr (call_block \<lparr>tc_id = oc_id c, tc_name = oc_name c, tc_arguments = oc_arguments c\<rparr> # rest)))"

definition normalizeOpenAIStopReason :: "golib \<Rightarrow> string \<Rightarrow> string go_result" where
  "normalizeOpenAIStopReason L v =
     (if v = ''stop'' then Inr StopReasonEndTurn
      else if v = ''length'' then Inr StopReasonMaxTokens
      else if v = ''tool_calls'' then Inr StopReasonToolUse
      else if v = ''content_filter'' then Inr StopReasonContentFilter
      else if v = ''refusal'' then Inr StopReasonRefusal
      else Inl (''unsupported finish reason '' @ quote L v))"

definition normalizeOpenAIResponse :: "http_lib \<Rightarrow> openai_response \<Rightarrow> string \<Rightarrow> completion_response go_result" where
  "normalizeOpenAIResponse H r rid =
     (case ors_choices r of
        [] \<Rightarrow> Inl ''response has no choices''
      | choice # _ \<Rightarrow>
          if och_role choice \<noteq> RoleAssistant then
            Inl (''unexpected message role '' @ quote (cl_go (hl_config H)) (och_role choice))
          else go_bind (openai_response_calls H 0 (och_tool_calls choice)) (\<lambda>calls.
               go_bind (normalizeOpenAIStopReason (cl_go (hl_config H)) (och_finish_reason choice)) (\<lambda>stop.
                 Inr \<lparr>cp_message = \<lparr>mg_role = RoleAssistant, mg_content = openai_text choice @ calls\<rparr>,
                      cp_usage = \<lparr>pu_input_tokens = ors_prompt_tokens r, pu_output_tokens = ors_completion_tokens r,
                                  pu_total_tokens = ors_total_tokens r, pu_reasoning_tokens = ors_reasoning_tokens r\<rparr>,
                      cp_stop_reason = stop, cp_request_id = rid\<rparr>)))"

record openai =
  oa_name :: string
  oa_api_key :: string
  oa_endpoint :: string

definition NewOpenAI :: "http_lib \<Rightarrow> string \<Rightarrow> string \<Rightarrow> string \<Rightarrow> string \<Rightarrow> configuration_error + openai" where
  "NewOpenAI H name apiKey endpoint baseURL =
     (case validateAPIKey (cl_go (hl_config H)) ''openai'' apiKey of
        Some e \<Rightarrow> Inl e
      | None \<Rightarrow>
          (case providerEndpoint H ''openai'' endpoint baseURL DefaultOpenAIEndpoint openAIChatPath of
             Inl e \<Rightarrow> Inl e
           | Inr url \<Rightarrow> Inr \<lparr>oa_name = (if trim_space name = [] then ''openai'' else trim_space name), oa_api_key = apiKey,
                            oa_endpoint = url\<rparr>))"

definition openai_Complete ::
  "http_lib \<Rightarrow> 's http_world \<Rightarrow> (string \<Rightarrow> openai_response go_result) \<Rightarrow> openai \<Rightarrow> completion_request \<Rightarrow>
   's \<Rightarrow> (runtime_error + completion_response) \<times> 's" where
  "openai_Complete H W unmarshal A q s =
     (case openAIRequest H q of
        Inl e \<Rightarrow> (Inl (plain_error e), s)
      | Inr payload \<Rightarrow>
          completeJSON H W (oa_endpoint A) [(''Authorization'', ''Bearer '' @ oa_api_key A)] (openai_json payload) (oa_name A)
            ''x-request-id'' False unmarshal (normalizeOpenAIResponse H) s)"

subsection \<open>The interface\<close>

definition block_fits :: "string \<Rightarrow> content_block \<Rightarrow> bool" where
  "block_fits role b \<longleftrightarrow>
     role = RoleUser \<and> cb_type b = ContentTypeText \<or>
     role = RoleAssistant \<and> (cb_type b = ContentTypeText \<or> cb_type b = ContentTypeToolCall \<and> cb_tool_call b \<noteq> None) \<or>
     role = RoleTool \<and> cb_type b = ContentTypeToolResult \<and> cb_tool_result b \<noteq> None"

definition message_fits :: "message \<Rightarrow> bool" where
  "message_fits m \<longleftrightarrow> mg_role m \<in> {RoleUser, RoleAssistant, RoleTool} \<and> list_all (block_fits (mg_role m)) (mg_content m)"

definition block_calls :: "content_block list \<Rightarrow> tool_call list" where
  "block_calls bs = List.map_filter (\<lambda>b. if cb_type b \<noteq> ContentTypeToolCall then None else cb_tool_call b) bs"

definition block_results :: "content_block list \<Rightarrow> tool_result list" where
  "block_results bs = List.map_filter (\<lambda>b. if cb_type b \<noteq> ContentTypeToolResult then None else cb_tool_result b) bs"

lemma message_blocks: "MessageToolCalls m = block_calls (mg_content m)" "MessageToolResults m = block_results (mg_content m)"
  by (simp_all add: MessageToolCalls_def MessageToolResults_def block_calls_def block_results_def)

lemma block_simps [simp]:
  "block_calls [] = []" "block_results [] = []"
  "block_calls (b # bs) = (if cb_type b = ContentTypeToolCall then (case cb_tool_call b of None \<Rightarrow> [] | Some c \<Rightarrow> [c]) else []) @ block_calls bs"
  "block_results (b # bs) =
     (if cb_type b = ContentTypeToolResult then (case cb_tool_result b of None \<Rightarrow> [] | Some r \<Rightarrow> [r]) else []) @ block_results bs"
  by (simp_all add: block_calls_def block_results_def map_filter_simps split: option.split)

definition shown_result :: "tool_result \<Rightarrow> string \<times> string" where
  "shown_result r = (tlr_call_id r, providerToolResultContent r)"

locale wire_format =
  fixes json_valid :: "string \<Rightarrow> bool"
    and encode :: "completion_request \<Rightarrow> 'p go_result"
    and sent_calls :: "'p \<Rightarrow> tool_call list"
    and sent_results :: "'p \<Rightarrow> (string \<times> string) list"
    and decode :: "'r \<Rightarrow> string \<Rightarrow> completion_response go_result"
    and got_calls :: "'r \<Rightarrow> tool_call list"
  assumes accepts: "validateToolDefinitions json_valid 0 (cq_tools q) = None \<Longrightarrow> list_all message_fits (cq_messages q) \<Longrightarrow>
      \<exists>p. encode q = Inr p"
    and keeps_calls: "encode q = Inr p \<Longrightarrow> sent_calls p = calls_of (cq_messages q)"
    and keeps_results: "encode q = Inr p \<Longrightarrow> sent_results p = map shown_result (results_of (cq_messages q))"
    and decodes_calls: "decode r rid = Inr resp \<Longrightarrow> MessageToolCalls (cp_message resp) = got_calls r"
    and decodes_message: "decode r rid = Inr resp \<Longrightarrow> message_fits (cp_message resp) \<and> MessageToolResults (cp_message resp) = []"
begin

lemma paired:
  assumes "encode q = Inr p" "map tlr_call_id (results_of (cq_messages q)) = map tc_id (calls_of (cq_messages q))"
  shows "map fst (sent_results p) = map tc_id (sent_calls p)"
  using assms keeps_calls [OF assms(1)] keeps_results [OF assms(1)] by (simp add: shown_result_def comp_def)

text \<open>After a turn that asked for tools, the next request carries what the model itself sent, and the answers.\<close>

lemma next_request:
  assumes "validateToolDefinitions json_valid 0 (cq_tools q) = None" "list_all message_fits (cq_messages q)"
    and "encode q = Inr p" "decode r rid = Inr resp"
    and "q' = q\<lparr>cq_messages := cq_messages q @ [cp_message resp, \<lparr>mg_role = RoleTool, mg_content = map tool_block answers\<rparr>]\<rparr>"
    and "\<And>a. cb_type (tool_block a) = ContentTypeToolResult \<and> cb_tool_result (tool_block a) = Some a"
  shows "\<exists>p'. encode q' = Inr p' \<and> sent_calls p' = sent_calls p @ got_calls r \<and>
    sent_results p' = sent_results p @ map shown_result answers"
proof -
  let ?m = "\<lparr>mg_role = RoleTool, mg_content = map tool_block answers\<rparr>"
  have m: "message_fits ?m" "MessageToolCalls ?m = []" "MessageToolResults ?m = answers"
    using assms(6)
    by (induction answers)
       (auto simp: message_fits_def block_fits_def message_blocks list_all_iff)
  note resp = decodes_message [OF assms(4)] decodes_calls [OF assms(4)]
  have "\<exists>p'. encode q' = Inr p'"
    by (rule accepts) (use assms(1,2,5) m resp in \<open>simp_all\<close>)
  then obtain p' where p': "encode q' = Inr p'" by blast
  from keeps_calls [OF p'] keeps_results [OF p'] keeps_calls [OF assms(3)] keeps_results [OF assms(3)] assms(5) m resp p'
  show ?thesis by (simp add: calls_of_def results_of_def)
qed

end

subsection \<open>Anthropic implements it\<close>

definition anthropic_call :: "anthropic_content \<Rightarrow> tool_call option" where
  "anthropic_call c = (if ac_type c = ''tool_use'' then Some \<lparr>tc_id = ac_id c, tc_name = ac_name c, tc_arguments = ac_input c\<rparr> else None)"

definition anthropic_result :: "anthropic_content \<Rightarrow> (string \<times> string) option" where
  "anthropic_result c = (if ac_type c = ''tool_result'' then Some (ac_tool_use_id c, ac_content c) else None)"

definition anthropic_sent_calls :: "anthropic_payload \<Rightarrow> tool_call list" where
  "anthropic_sent_calls p = concat (map (List.map_filter anthropic_call \<circ> am_content) (ap_messages p))"

definition anthropic_sent_results :: "anthropic_payload \<Rightarrow> (string \<times> string) list" where
  "anthropic_sent_results p = concat (map (List.map_filter anthropic_result \<circ> am_content) (ap_messages p))"

definition anthropic_got_calls :: "anthropic_response \<Rightarrow> tool_call list" where
  "anthropic_got_calls r = map (\<lambda>b. \<lparr>tc_id = arc_id b, tc_name = arc_name b, tc_arguments = arc_input b\<rparr>)
     (filter (\<lambda>b. arc_type b = ''tool_use'') (arp_content r))"

lemma anthropic_block_keeps:
  assumes "anthropic_block L i role k b = Inr c"
  shows "anthropic_call c = (if cb_type b \<noteq> ContentTypeToolCall then None else cb_tool_call b) \<and>
    anthropic_result c = (if cb_type b \<noteq> ContentTypeToolResult then None else map_option shown_result (cb_tool_result b))"
  using assms
  by (auto simp: anthropic_block_def anthropic_call_def anthropic_result_def no_content_def shown_result_def
      split: if_splits option.splits)

lemma anthropic_blocks_keep:
  "anthropic_blocks L i role k bs = Inr cs \<Longrightarrow>
     List.map_filter anthropic_call cs = block_calls (bs) \<and>
     List.map_filter anthropic_result cs = map shown_result (block_results (bs))"
  by (induction bs arbitrary: k cs)
     (auto simp: go_bind_Inr map_filter_simps dest!: anthropic_block_keeps split: option.splits)

lemma anthropic_messages_keep:
  "anthropic_messages L i ms = Inr r \<Longrightarrow>
     concat (map (List.map_filter anthropic_call \<circ> am_content) r) = calls_of ms \<and>
     concat (map (List.map_filter anthropic_result \<circ> am_content) r) = map shown_result (results_of ms)"
proof (induction ms arbitrary: i r)
  case (Cons m ms)
  from Cons.prems obtain content rest where c: "anthropic_blocks L i (mg_role m) 0 (mg_content m) = Inr content"
    and rest: "anthropic_messages L (i + 1) ms = Inr rest"
    and r: "r = \<lparr>am_role = (if mg_role m = RoleTool then RoleUser else mg_role m), am_content = content\<rparr> # rest"
    by (auto simp: go_bind_Inr split: option.splits)
  from anthropic_blocks_keep [OF c] Cons.IH [OF rest] r show ?case by (simp add: calls_of_def results_of_def message_blocks)
qed (simp add: calls_of_def results_of_def)

lemma anthropic_block_accepts: "block_fits role b \<Longrightarrow> \<exists>c. anthropic_block L i role k b = Inr c"
  by (auto simp: block_fits_def anthropic_block_def)

lemma anthropic_blocks_accept:
  "list_all (block_fits role) bs \<Longrightarrow> \<exists>cs. anthropic_blocks L i role k bs = Inr cs"
proof (induction bs arbitrary: k)
  case (Cons b bs)
  from Cons.prems obtain c where "anthropic_block L i role k b = Inr c" using anthropic_block_accepts by fastforce
  moreover from Cons obtain cs where "anthropic_blocks L i role (k + 1) bs = Inr cs" by fastforce
  ultimately show ?case by simp
qed simp

lemma message_fits_known: "message_fits m \<Longrightarrow> validateMessage L i m = None"
  by (auto simp: message_fits_def validateMessage_def)

lemma anthropic_messages_accept: "list_all message_fits ms \<Longrightarrow> \<exists>r. anthropic_messages L i ms = Inr r"
proof (induction ms arbitrary: i)
  case (Cons m ms)
  then have m: "message_fits m" and ms: "list_all message_fits ms" by simp_all
  from m obtain cs where "anthropic_blocks L i (mg_role m) 0 (mg_content m) = Inr cs"
    using anthropic_blocks_accept unfolding message_fits_def by blast
  moreover from Cons.IH [OF ms] obtain r where "anthropic_messages L (i + 1) ms = Inr r" by blast
  ultimately show ?case using message_fits_known [OF m] by simp
qed simp

lemma anthropic_response_blocks_calls:
  "anthropic_response_blocks L i bs = Inr r \<Longrightarrow>
     block_calls (r) = map (\<lambda>b. \<lparr>tc_id = arc_id b, tc_name = arc_name b, tc_arguments = arc_input b\<rparr>)
       (filter (\<lambda>b. arc_type b = ''tool_use'') bs) \<and>
     block_results (r) = [] \<and> list_all (block_fits RoleAssistant) r"
  by (induction bs arbitrary: i r)
     (auto simp: go_bind_Inr map_filter_simps text_block_def call_block_def block_fits_def
       split: if_splits)

interpretation anthropic_wire: wire_format "hl_json_valid H" "anthropicRequest H" anthropic_sent_calls anthropic_sent_results
  "normalizeAnthropicResponse L" anthropic_got_calls for H L
proof (unfold_locales, goal_cases)
  case (1 q)
  then show ?case
    using anthropic_messages_accept [of "cq_messages q" "cl_go (hl_config H)" 0] by (auto simp: anthropicRequest_def)
next
  case (2 q p)
  then show ?case using anthropic_messages_keep
    by (fastforce simp: anthropicRequest_def anthropic_sent_calls_def go_bind_Inr split: option.splits)
next
  case (3 q p)
  then show ?case using anthropic_messages_keep
    by (fastforce simp: anthropicRequest_def anthropic_sent_results_def go_bind_Inr split: option.splits)
next
  case (4 r rid resp)
  then show ?case using anthropic_response_blocks_calls
    by (fastforce simp: normalizeAnthropicResponse_def anthropic_got_calls_def go_bind_Inr message_blocks split: if_splits)
next
  case (5 r rid resp)
  then show ?case using anthropic_response_blocks_calls
    by (fastforce simp: normalizeAnthropicResponse_def message_fits_def go_bind_Inr message_blocks split: if_splits)
qed

subsection \<open>OpenAI implements it\<close>

definition openai_call_of :: "openai_call \<Rightarrow> tool_call" where
  "openai_call_of c = \<lparr>tc_id = oc_id c, tc_name = oc_name c, tc_arguments = oc_arguments c\<rparr>"

definition openai_sent_calls :: "openai_payload \<Rightarrow> tool_call list" where
  "openai_sent_calls p = concat (map (map openai_call_of \<circ> om_tool_calls) (op_messages p))"

definition openai_result :: "openai_message \<Rightarrow> (string \<times> string) option" where
  "openai_result m = (if om_role m = RoleTool then Some (om_tool_call_id m, case om_content m of None \<Rightarrow> [] | Some t \<Rightarrow> t) else None)"

definition openai_sent_results :: "openai_payload \<Rightarrow> (string \<times> string) list" where
  "openai_sent_results p = List.map_filter openai_result (op_messages p)"

definition openai_got_calls :: "openai_response \<Rightarrow> tool_call list" where
  "openai_got_calls r = (case ors_choices r of [] \<Rightarrow> [] | c # _ \<Rightarrow> map openai_call_of (och_tool_calls c))"

lemma map_filter_append: "List.map_filter f (xs @ ys) = List.map_filter f xs @ List.map_filter f ys"
  by (induction xs) (simp_all add: map_filter_simps split: option.split)

lemma openai_tool_messages_keep:
  "openai_tool_messages i k bs = Inr ms \<Longrightarrow>
     List.map_filter openai_result ms = map shown_result (block_results (bs)) \<and>
     concat (map (map openai_call_of \<circ> om_tool_calls) ms) = [] \<and> block_calls (bs) = []"
  by (induction bs arbitrary: k ms)
     (auto simp: go_bind_Inr map_filter_simps openai_result_def shown_result_def
       split: option.splits if_splits)

lemma openai_calls_keep:
  "openai_calls L i role k bs = Inr cs \<Longrightarrow>
     map openai_call_of cs = block_calls (bs) \<and>
     block_results (bs) = []"
  by (induction bs arbitrary: k cs)
     (auto simp: go_bind_Inr map_filter_simps openai_call_of_def split: option.splits if_splits)

lemma openai_messages_keep:
  "openai_messages L i ms = Inr r \<Longrightarrow>
     concat (map (map openai_call_of \<circ> om_tool_calls) r) = calls_of ms \<and>
     List.map_filter openai_result r = map shown_result (results_of ms)"
proof (induction ms arbitrary: i r)
  case (Cons m ms)
  from Cons.prems obtain these rest where rest: "openai_messages L (i + 1) ms = Inr rest" and r: "r = these @ rest"
    and these: "(if mg_role m = RoleTool then openai_tool_messages i 0 (mg_content m)
      else go_bind (openai_calls L i (mg_role m) 0 (mg_content m)) (\<lambda>calls.
        Inr [\<lparr>om_role = mg_role m, om_content = (if MessageText m = [] then None else Some (MessageText m)),
              om_tool_calls = calls, om_tool_call_id = []\<rparr>])) = Inr these"
    by (auto simp: go_bind_Inr simp del: go_bind_simps split: option.splits)
  have "concat (map (map openai_call_of \<circ> om_tool_calls) these) = MessageToolCalls m \<and>
      List.map_filter openai_result these = map shown_result (MessageToolResults m)"
  proof (cases "mg_role m = RoleTool")
    case True
    with these openai_tool_messages_keep [of i 0 "mg_content m" these] show ?thesis by (simp add: message_blocks)
  next
    case False
    with these obtain calls where "openai_calls L i (mg_role m) 0 (mg_content m) = Inr calls"
      and "these = [\<lparr>om_role = mg_role m, om_content = (if MessageText m = [] then None else Some (MessageText m)),
        om_tool_calls = calls, om_tool_call_id = []\<rparr>]" by (auto simp: go_bind_Inr)
    with False openai_calls_keep show ?thesis by (fastforce simp: openai_result_def map_filter_simps message_blocks)
  qed
  with Cons.IH [OF rest] r show ?case by (simp add: calls_of_def results_of_def map_filter_append comp_def)
qed (simp add: calls_of_def results_of_def map_filter_simps)

lemma openai_tool_messages_accept: "list_all (block_fits RoleTool) bs \<Longrightarrow> \<exists>ms. openai_tool_messages i k bs = Inr ms"
proof (induction bs arbitrary: k)
  case (Cons b bs)
  then obtain ms where "openai_tool_messages i (k + 1) bs = Inr ms" by fastforce
  with Cons.prems show ?case by (auto simp: block_fits_def)
qed simp

lemma openai_calls_accept: "role \<noteq> RoleTool \<Longrightarrow> list_all (block_fits role) bs \<Longrightarrow> \<exists>cs. openai_calls L i role k bs = Inr cs"
proof (induction bs arbitrary: k)
  case (Cons b bs)
  then obtain cs where "openai_calls L i role (k + 1) bs = Inr cs" by fastforce
  with Cons.prems show ?case by (auto simp: block_fits_def)
qed simp

lemma openai_messages_accept: "list_all message_fits ms \<Longrightarrow> \<exists>r. openai_messages L i ms = Inr r"
proof (induction ms arbitrary: i)
  case (Cons m ms)
  then have m: "message_fits m" and ms: "list_all message_fits ms" by simp_all
  note v = message_fits_known [OF m]
  from Cons.IH [OF ms] obtain r where r: "openai_messages L (i + 1) ms = Inr r" by blast
  show ?case
  proof (cases "mg_role m = RoleTool")
    case True
    with m obtain ts where "openai_tool_messages i 0 (mg_content m) = Inr ts"
      using openai_tool_messages_accept unfolding message_fits_def by metis
    with True v r show ?thesis by simp
  next
    case False
    with m obtain cs where "openai_calls L i (mg_role m) 0 (mg_content m) = Inr cs"
      using openai_calls_accept unfolding message_fits_def by metis
    with False v r show ?thesis by simp
  qed
qed simp

lemma openai_response_calls_keep:
  "openai_response_calls H i cs = Inr r \<Longrightarrow>
     block_calls (r) = map openai_call_of cs \<and>
     block_results (r) = [] \<and> list_all (block_fits RoleAssistant) r"
  by (induction cs arbitrary: i r)
     (auto simp: go_bind_Inr map_filter_simps call_block_def block_fits_def openai_call_of_def
       split: if_splits)

lemma openai_text_plain:
  "block_calls (openai_text c @ bs) = block_calls (bs)"
  "block_results (openai_text c @ bs) = block_results (bs)"
  "list_all (block_fits RoleAssistant) (openai_text c)"
  by (auto simp: openai_text_def text_block_def block_fits_def split: option.splits)

interpretation openai_wire: wire_format "hl_json_valid H" "openAIRequest H" openai_sent_calls openai_sent_results
  "normalizeOpenAIResponse H" openai_got_calls for H
proof (unfold_locales, goal_cases)
  case (1 q)
  then show ?case
    using openai_messages_accept [of "cq_messages q" "cl_go (hl_config H)" 0] by (auto simp: openAIRequest_def)
next
  case (2 q p)
  then show ?case using openai_messages_keep
    by (fastforce simp: openAIRequest_def openai_sent_calls_def go_bind_Inr split: option.splits)
next
  case (3 q p)
  then show ?case using openai_messages_keep
    by (fastforce simp: openAIRequest_def openai_sent_results_def go_bind_Inr split: option.splits)
next
  case (4 r rid resp)
  then show ?case using openai_response_calls_keep
    by (fastforce simp: normalizeOpenAIResponse_def openai_got_calls_def go_bind_Inr openai_text_plain message_blocks split: if_splits list.splits)
next
  case (5 r rid resp)
  then show ?case using openai_response_calls_keep
    by (fastforce simp: normalizeOpenAIResponse_def message_fits_def go_bind_Inr openai_text_plain message_blocks split: if_splits list.splits)
qed

end
