(* ===== verification/Go_Path.thy ===== *)
theory Go_Path
  imports Provider_Http
begin

text \<open>
  The lexical path functions of the Go library on a Unix system that the tools use: \<^verbatim>\<open>filepath.Clean\<close>, \<^verbatim>\<open>Join\<close> and \<^verbatim>\<open>Rel\<close>
  (\<^verbatim>\<open>path.Join\<close> is the same function there) and \<^verbatim>\<open>url.PathEscape\<close>, in terms of the components between slashes; and
  the decoding of tool arguments shared by the tools.
\<close>

subsection \<open>Cleaning and joining\<close>

definition is_abs :: "string \<Rightarrow> bool" where
  "is_abs p \<longleftrightarrow> has_prefix p ''/''"

definition path_parts :: "string \<Rightarrow> string list" where
  "path_parts p = filter (\<lambda>c. c \<noteq> []) (split_at_char (CHR ''/'') p)"

text \<open>The elements kept so far are a stack; \<^verbatim>\<open>..\<close> removes the last one, unless that is a \<^verbatim>\<open>..\<close> which could not be removed.\<close>

fun clean_parts :: "bool \<Rightarrow> string list \<Rightarrow> string list \<Rightarrow> string list" where
  "clean_parts rooted kept [] = rev kept"
| "clean_parts rooted kept (c # cs) =
     (if c = ''.'' then clean_parts rooted kept cs
      else if c = ''..'' then
        (if kept \<noteq> [] \<and> hd kept \<noteq> ''..'' then clean_parts rooted (tl kept) cs
         else if rooted then clean_parts rooted kept cs
         else clean_parts rooted (c # kept) cs)
      else clean_parts rooted (c # kept) cs)"

definition path_text :: "bool \<Rightarrow> string list \<Rightarrow> string" where
  "path_text rooted cs =
     (if rooted then ''/'' @ join_strings cs ''/'' else if cs = [] then ''.'' else join_strings cs ''/'')"

definition Clean :: "string \<Rightarrow> string" where
  "Clean p = path_text (is_abs p) (clean_parts (is_abs p) [] (path_parts p))"

definition path_Join :: "string list \<Rightarrow> string" where
  "path_Join elems =
     (case filter (\<lambda>e. e \<noteq> []) elems of [] \<Rightarrow> [] | es \<Rightarrow> Clean (join_strings es ''/''))"

subsection \<open>Relative paths\<close>

fun drop_common :: "string list \<Rightarrow> string list \<Rightarrow> string list \<times> string list" where
  "drop_common (b # bs) (t # ts) = (if b = t then drop_common bs ts else (b # bs, t # ts))"
| "drop_common bs ts = (bs, ts)"

definition Rel :: "string \<Rightarrow> string \<Rightarrow> string go_result" where
  "Rel basepath targpath =
     (let base = Clean basepath; targ = Clean targpath;
          err = ''Rel: can't make '' @ targpath @ '' relative to '' @ basepath in
      if targ = base then Inr ''.''
      else if is_abs base \<noteq> is_abs targ then Inl err
      else
        (case drop_common (if base = ''.'' then [] else path_parts base) (path_parts targ) of (up, down) \<Rightarrow>
           if up \<noteq> [] \<and> down \<noteq> [] \<and> hd up = ''..'' then Inl err
           else Inr (join_strings (map (\<lambda>_. ''..'') up @ down) ''/'')))"

subsection \<open>Escaping a path segment\<close>

definition unreserved :: "char \<Rightarrow> bool" where
  "unreserved c \<longleftrightarrow> byte_in 97 122 c \<or> byte_in 65 90 c \<or> is_digit c \<or> c \<in> set ''-_.~$&+:=@''"

definition upper_hex :: "nat \<Rightarrow> char" where
  "upper_hex n = (if n < 10 then digit_char n else char_of (n + 55))"

definition path_escape :: "string \<Rightarrow> string" where
  "path_escape s =
     concat (map (\<lambda>c. if unreserved c then [c] else [CHR ''%'', upper_hex (of_char c div 16), upper_hex (of_char c mod 16)]) s)"

subsection \<open>Tool arguments\<close>

text \<open>
  The decoder of the JSON library that refuses unknown fields is a parameter: the first value of the text, or the
  error, and what follows it.
\<close>

type_synonym 'a arguments_decoder = "string \<Rightarrow> ('a \<times> trailing) go_result"

definition decodeArguments :: "'a arguments_decoder \<Rightarrow> string \<Rightarrow> coded_error + 'a" where
  "decodeArguments decode raw =
     (case decode raw of
        Inl e \<Rightarrow> Inl (coded ''invalid_tool_arguments'' (''invalid tool arguments: '' @ e))
      | Inr (arguments, rest) \<Rightarrow>
          if rest = EOF then Inr arguments
          else Inl (coded ''invalid_tool_arguments'' ''tool arguments contain trailing data''))"

subsection \<open>Clean paths\<close>

text \<open>A part that can stand in a clean path: no slash, and neither empty nor a dot element.\<close>

definition plain_part :: "string \<Rightarrow> bool" where
  "plain_part c \<longleftrightarrow> CHR ''/'' \<notin> set c \<and> c \<noteq> [] \<and> c \<noteq> ''.'' \<and> c \<noteq> ''..''"

lemma clean_parts_plain: "list_all plain_part cs \<Longrightarrow> clean_parts rooted kept cs = rev kept @ cs"
  by (induction cs arbitrary: kept) (auto simp: plain_part_def)

lemma split_join:
  "cs \<noteq> [] \<Longrightarrow> \<forall>c \<in> set cs. CHR ''/'' \<notin> set c \<Longrightarrow> split_at_char (CHR ''/'') (join_strings cs ''/'') = cs"
proof (induction cs rule: induct_list012)
  case (3 a b cs)
  then show ?case
    by (simp add: split_at_char_append [of "CHR ''/''" a] split_at_char_none)
qed (simp_all add: split_at_char_none)

lemma path_parts_join:
  "\<forall>c \<in> set cs. CHR ''/'' \<notin> set c \<and> c \<noteq> [] \<Longrightarrow> path_parts (join_strings cs ''/'') = cs"
  by (cases "cs = []") (auto simp: path_parts_def split_join filter_id_conv)

lemma path_parts_slash: "path_parts (CHR ''/'' # p) = path_parts p"
  by (simp add: path_parts_def)

lemma split_at_char_parts: "x \<in> set (split_at_char c p) \<Longrightarrow> c \<notin> set x"
  by (induction p arbitrary: x) (fastforce split: list.splits if_splits)+

lemma path_parts_no_slash: "c \<in> set (path_parts p) \<Longrightarrow> CHR ''/'' \<notin> set c \<and> c \<noteq> []"
  by (auto simp: path_parts_def dest: split_at_char_parts)

lemma clean_parts_subset: "x \<in> set (clean_parts rooted kept cs) \<Longrightarrow> x \<in> set kept \<or> x \<in> set cs"
  by (induction rooted kept cs rule: clean_parts.induct) (auto split: if_splits dest: list.set_sel(2))

lemma not_abs_join:
  "cs \<noteq> [] \<Longrightarrow> \<forall>c \<in> set cs. CHR ''/'' \<notin> set c \<and> c \<noteq> [] \<Longrightarrow> \<not> is_abs (join_strings cs ''/'')"
  by (cases cs; cases "hd cs"; cases "tl cs") (auto simp: is_abs_def has_prefix_def)

lemma path_text_parts:
  assumes "\<forall>c \<in> set cs. CHR ''/'' \<notin> set c \<and> c \<noteq> []"
  shows "is_abs (path_text rooted cs) = rooted"
    "path_parts (path_text rooted cs) = (if \<not> rooted \<and> cs = [] then [''.''] else cs)"
proof -
  show "is_abs (path_text rooted cs) = rooted"
    using not_abs_join [OF _ assms] by (auto simp: path_text_def) (auto simp: is_abs_def has_prefix_def)
  show "path_parts (path_text rooted cs) = (if \<not> rooted \<and> cs = [] then [''.''] else cs)"
    using path_parts_join [OF assms] by (auto simp: path_text_def path_parts_slash) (auto simp: path_parts_def)
qed

lemma Clean_parts:
  "is_abs (Clean p) = is_abs p"
  "is_abs p \<Longrightarrow> path_parts (Clean p) = clean_parts True [] (path_parts p)"
proof -
  have "\<forall>c \<in> set (clean_parts (is_abs p) [] (path_parts p)). CHR ''/'' \<notin> set c \<and> c \<noteq> []"
    using clean_parts_subset path_parts_no_slash by fastforce
  note path_text_parts [OF this]
  then show "is_abs (Clean p) = is_abs p" "is_abs p \<Longrightarrow> path_parts (Clean p) = clean_parts True [] (path_parts p)"
    by (simp_all add: Clean_def)
qed

lemma clean_parts_no_dots:
  "''..'' \<notin> set kept \<Longrightarrow> ''..'' \<notin> set (clean_parts True kept cs)"
proof (induction True kept cs rule: clean_parts.induct)
  case (2 kept c cs)
  then have "''..'' \<notin> set (tl kept)" by (cases kept) auto
  with 2 show ?case by auto
qed simp

lemma path_Join_plain:
  assumes "list_all plain_part cs" "cs \<noteq> []"
  shows "Clean (''/'' @ join_strings cs ''/'') = ''/'' @ join_strings cs ''/''"
proof -
  have "\<forall>c \<in> set cs. CHR ''/'' \<notin> set c \<and> c \<noteq> []" using assms(1) by (auto simp: list_all_iff plain_part_def)
  with assms show ?thesis
    by (simp add: Clean_def path_parts_slash path_parts_join clean_parts_plain path_text_def is_abs_def has_prefix_def)
qed

subsection \<open>Staying below a directory\<close>

definition below :: "string \<Rightarrow> string \<Rightarrow> bool" where
  "below dir p \<longleftrightarrow> is_abs p = is_abs dir \<and> (\<exists>rest. path_parts (Clean p) = path_parts (Clean dir) @ rest)"

lemma drop_common_spec: "drop_common bs ts = (up, down) \<Longrightarrow> \<exists>pre. bs = pre @ up \<and> ts = pre @ down"
  by (induction bs ts rule: drop_common.induct) (auto split: if_splits intro: exI [of _ "_ # _"])

text \<open>A relative path that does not begin with \<^verbatim>\<open>..\<close> leads to a path below an absolute base.\<close>

lemma Rel_below:
  assumes "is_abs dir" "Rel dir p = Inr r" "r \<noteq> ''..''" "\<not> has_prefix r ''../''"
  shows "below dir p"
proof (cases "Clean p = Clean dir")
  case True
  then show ?thesis using Clean_parts(1) [of p] Clean_parts(1) [of dir] by (simp add: below_def)
next
  case False
  obtain up down where ud: "drop_common (path_parts (Clean dir)) (path_parts (Clean p)) = (up, down)"
    by (cases "drop_common (path_parts (Clean dir)) (path_parts (Clean p))")
  have dir: "is_abs (Clean dir)" "Clean dir \<noteq> ''.''" using assms(1) Clean_parts(1) [of dir] by (auto simp: is_abs_def has_prefix_def)
  from assms(2) False ud dir
  have r: "is_abs (Clean p)" "r = join_strings (map (\<lambda>_. ''..'') up @ down) ''/''"
    by (auto simp: Rel_def Let_def split: if_splits)
  have "up = []"
  proof (rule ccontr)
    assume "up \<noteq> []"
    then obtain u us where "up = u # us" by (cases up) auto
    with r(2) assms(3,4) show False by (cases "map (\<lambda>_. ''..'') us @ down") (auto simp: has_prefix_def)
  qed
  with drop_common_spec [OF ud] r(1) assms(1) Clean_parts(1) [of p] show ?thesis by (auto simp: below_def)
qed

end
