(* ===== verification/Tool_Knowledge.thy ===== *)
theory Tool_Knowledge
  imports Go_Path Tool_Output
begin

text \<open>
  The \<^verbatim>\<open>read_knowledge\<close> tool, \<^verbatim>\<open>tools/knowledge.go\<close>: a relative path is checked lexically, resolved through symbolic
  links, checked again, and read as bounded UTF-8 text. The file system is a parameter: the resolution of links, and
  opening a file, which gives what \<^verbatim>\<open>Stat\<close> and reading return.
\<close>

abbreviation defaultKnowledgeRoot :: string where "defaultKnowledgeRoot \<equiv> ''/kontext/knowledge''"
abbreviation NameReadKnowledge :: string where "NameReadKnowledge \<equiv> ''read_knowledge''"

record fs_error =
  fe_text :: string
  fe_not_exist :: bool

text \<open>An open file: whether it is regular, and its bytes with the error that reading them ends with.\<close>

record open_file =
  of_regular :: "bool go_result"
  of_data :: string
  of_read_error :: "string option"

record 's file_world =
  fs_ctx_err :: "'s \<Rightarrow> ctx_error \<times> 's"
  fs_eval_symlinks :: "string \<Rightarrow> 's \<Rightarrow> (fs_error + string) \<times> 's"
  fs_open :: "string \<Rightarrow> 's \<Rightarrow> (string + open_file) \<times> 's"

record knowledge_tool =
  kt_root :: string
  kt_max_bytes :: int

record read_knowledge_arguments =
  ra_path :: string

definition newKnowledgeTool :: "string \<Rightarrow> int \<Rightarrow> knowledge_tool" where
  "newKnowledgeTool dir maxBytes =
     \<lparr>kt_root = (if trim_space dir = [] then defaultKnowledgeRoot else dir), kt_max_bytes = maxBytes\<rparr>"

text \<open>A schema literal of the source, one member on each line, behind three tabs.\<close>

definition schema_literal :: "string list \<Rightarrow> string" where
  "schema_literal members =
     ''{'' @ concat (map (\<lambda>l. [CHR 0x0A, CHR 0x09, CHR 0x09, CHR 0x09] @ l) members) @ [CHR 0x0A, CHR 0x09, CHR 0x09] @ ''}''"

definition knowledge_Definition :: tool_definition where
  \<open>knowledge_Definition = \<lparr>td_name = NameReadKnowledge,
     td_description = ''Read one UTF-8 text file from the mounted Kontext knowledge directory.'',
     td_input_schema = schema_literal [''"type":"object",'',
       ''"properties":{"path":{"type":"string","description":"Relative file path under /kontext/knowledge"}},'',
       ''"required":["path"],'', ''"additionalProperties":false'']\<rparr>\<close>

definition tool_failure :: "string \<Rightarrow> string \<Rightarrow> runtime_error" where
  "tool_failure code message = coded_failure (coded code message)"

definition leaves :: "string \<Rightarrow> bool" where
  "leaves p \<longleftrightarrow> p = ''..'' \<or> has_prefix p ''../''"

definition requested_path :: "string \<Rightarrow> runtime_error + string" where
  "requested_path requested =
     (if requested = [] then Inl (tool_failure ''invalid_tool_arguments'' ''path must be a non-empty file path'')
      else if is_abs requested then Inl (tool_failure ''knowledge_path_denied'' ''path must be relative to /kontext/knowledge'')
      else if Clean requested = ''.'' \<or> leaves (Clean requested) then
        Inl (tool_failure ''knowledge_path_denied'' ''path must remain inside /kontext/knowledge'')
      else Inr (Clean requested))"

definition resolve_knowledge ::
  "golib \<Rightarrow> 's file_world \<Rightarrow> knowledge_tool \<Rightarrow> string \<Rightarrow> string \<Rightarrow> 's \<Rightarrow> (runtime_error + string) \<times> 's" where
  "resolve_knowledge L W T requested cleaned s =
     (case fs_eval_symlinks W (kt_root T) s of
        (Inl e, s1) \<Rightarrow> (Inl (tool_failure ''knowledge_unavailable'' (''knowledge directory is unavailable: '' @ fe_text e)), s1)
      | (Inr resolvedRoot, s1) \<Rightarrow>
          (case fs_eval_symlinks W (path_Join [resolvedRoot, cleaned]) s1 of
             (Inl e, s2) \<Rightarrow>
               (Inl (if fe_not_exist e then
                       tool_failure ''knowledge_not_found'' (''knowledge file '' @ quote L requested @ '' does not exist'')
                     else tool_failure ''knowledge_read_failed'' (''resolve knowledge file: '' @ fe_text e)), s2)
           | (Inr resolvedPath, s2) \<Rightarrow>
               (case Rel resolvedRoot resolvedPath of
                  Inl _ \<Rightarrow> (Inl (tool_failure ''knowledge_path_denied'' ''resolved path leaves /kontext/knowledge''), s2)
                | Inr relative \<Rightarrow>
                    if leaves relative then (Inl (tool_failure ''knowledge_path_denied'' ''resolved path leaves /kontext/knowledge''), s2)
                    else (Inr resolvedPath, s2))))"

definition read_file :: "int \<Rightarrow> open_file \<Rightarrow> string go_result" where
  "read_file n f =
     (if int (length (of_data f)) \<ge> n then Inr (take (nat n) (of_data f))
      else case of_read_error f of Some e \<Rightarrow> Inl e | None \<Rightarrow> Inr (of_data f))"

definition plain_result :: "string \<Rightarrow> bool \<Rightarrow> tool_result" where
  "plain_result content truncated = \<lparr>tlr_call_id = [], tlr_name = [], tlr_content = content, tlr_is_error = False,
     tlr_error_code = [], tlr_truncated = truncated\<rparr>"

definition bounded_result :: "string \<Rightarrow> int \<Rightarrow> tool_result" where
  "bounded_result data maxBytes = (case Bound data maxBytes of (content, truncated) \<Rightarrow> plain_result content truncated)"

definition knowledge_text :: "int \<Rightarrow> string \<Rightarrow> runtime_error + tool_result" where
  "knowledge_text maxBytes data =
     (let oversized = int (length data) > maxBytes; minimum = max 0 (maxBytes - 3) in
      if (if oversized then int (length (TruncateUTF8 data maxBytes)) < minimum else \<not> utf8_valid data)
      then Inl (tool_failure ''knowledge_invalid_encoding'' ''knowledge file must contain UTF-8 text'')
      else Inr (bounded_result data maxBytes))"

definition knowledge_content :: "int \<Rightarrow> open_file \<Rightarrow> runtime_error + tool_result" where
  "knowledge_content maxBytes f =
     (case of_regular f of
        Inl e \<Rightarrow> Inl (tool_failure ''knowledge_read_failed'' (''inspect knowledge file: '' @ e))
      | Inr regular \<Rightarrow>
          if \<not> regular then Inl (tool_failure ''knowledge_path_denied'' ''path must identify a regular file'')
          else (case read_file (maxBytes + 4) f of
                  Inl e \<Rightarrow> Inl (tool_failure ''knowledge_read_failed'' (''read knowledge file: '' @ e))
                | Inr data \<Rightarrow> knowledge_text maxBytes data))"

definition open_knowledge :: "'s file_world \<Rightarrow> int \<Rightarrow> string \<Rightarrow> 's \<Rightarrow> (runtime_error + tool_result) \<times> 's" where
  "open_knowledge W maxBytes path s =
     (case fs_open W path s of
        (Inl e, s1) \<Rightarrow> (Inl (tool_failure ''knowledge_read_failed'' (''open knowledge file: '' @ e)), s1)
      | (Inr f, s1) \<Rightarrow> (knowledge_content maxBytes f, s1))"

definition knowledge_Execute ::
  "golib \<Rightarrow> read_knowledge_arguments arguments_decoder \<Rightarrow> 's file_world \<Rightarrow> knowledge_tool \<Rightarrow> string \<Rightarrow> 's \<Rightarrow>
   (runtime_error + tool_result) \<times> 's" where
  "knowledge_Execute L decode W T rawArguments s =
     (case fs_ctx_err W s of (ctx, s1) \<Rightarrow>
        if ctx \<noteq> CtxActive then (Inl (ctx_failure ctx), s1)
        else (case decodeArguments decode rawArguments of
                Inl e \<Rightarrow> (Inl (coded_failure e), s1)
              | Inr arguments \<Rightarrow>
                  (let requested = trim_space (ra_path arguments) in
                   case requested_path requested of
                     Inl e \<Rightarrow> (Inl e, s1)
                   | Inr cleaned \<Rightarrow>
                       (case resolve_knowledge L W T requested cleaned s1 of
                          (Inl e, s2) \<Rightarrow> (Inl e, s2)
                        | (Inr path, s2) \<Rightarrow> open_knowledge W (kt_max_bytes T) path s2))))"

subsection \<open>Cutting valid text\<close>

lemma utf8_valid_cut:
  "utf8_valid v \<Longrightarrow> n \<le> length v \<Longrightarrow> \<exists>k \<le> n. n \<le> k + 3 \<and> utf8_valid (take k v)"
proof (induction v arbitrary: n rule: utf8_valid.induct)
  case (1 v)
  show ?case
  proof (cases "n < rune_len v \<or> v = []")
    case True
    moreover have "rune_len v \<le> 4" by (auto simp: rune_len_def split: list.splits)
    ultimately show ?thesis using 1(3) by (intro exI [of _ 0]) auto
  next
    case False
    with 1(2) have r: "0 < rune_len v" "utf8_valid (drop (rune_len v) v)" "v \<noteq> []"
      using rune_len_pos by (auto simp: utf8_valid.simps [of v])
    obtain k where k: "k \<le> n - rune_len v" "n - rune_len v \<le> k + 3" "utf8_valid (take k (drop (rune_len v) v))"
      using 1(1) [OF r(3) _ r(2), of "n - rune_len v"] r(1) 1(3) by (auto simp: diff_le_mono)
    have "take (rune_len v + k) v = take (rune_len v) v @ take k (drop (rune_len v) v)" by (simp add: take_add)
    moreover have "utf8_valid (take (rune_len v) v)" by (rule utf8_valid_rune)
    ultimately have "utf8_valid (take (rune_len v + k) v)" using k(3) by (simp add: utf8_valid_append)
    with k False show ?thesis by (intro exI [of _ "rune_len v + k"]) auto
  qed
qed

lemma knowledge_text_valid:
  assumes "utf8_valid v" "0 \<le> maxBytes"
  shows "knowledge_text maxBytes (take (nat (maxBytes + 4)) v) = Inr (bounded_result (take (nat (maxBytes + 4)) v) maxBytes)"
proof (cases "int (length v) > maxBytes")
  case False
  with assms show ?thesis by (simp add: knowledge_text_def)
next
  case True
  let ?d = "take (nat (maxBytes + 4)) v"
  obtain k where k: "k \<le> nat maxBytes" "nat maxBytes \<le> k + 3" "utf8_valid (take k v)"
    using utf8_valid_cut [OF assms(1), of "nat maxBytes"] True assms(2) by (metis nat_le_iff less_imp_le)
  have "utf8_valid (take k ?d)" using k by (simp add: min_def)
  moreover from k True have "k \<le> length v" "k \<le> nat (maxBytes + 4)" by linarith+
  ultimately have "k \<le> utf8_end ?d (min (nat maxBytes) (length ?d))"
    using utf8_end_greatest [of k "min (nat maxBytes) (length ?d)" ?d] k(1) by simp
  moreover have "utf8_end ?d (min (nat maxBytes) (length ?d)) \<le> length ?d"
    using utf8_end_le [of ?d "min (nat maxBytes) (length ?d)"] by simp
  ultimately have "k \<le> length (TruncateUTF8 ?d maxBytes)" unfolding TruncateUTF8_eq by simp
  with k True show ?thesis by (auto simp: knowledge_text_def Let_def)
qed

subsection \<open>What the tool discloses\<close>

definition links_absolute :: "'s file_world \<Rightarrow> bool" where
  "links_absolute W \<longleftrightarrow> (\<forall>p s q s'. fs_eval_symlinks W p s = (Inr q, s') \<longrightarrow> is_abs p \<longrightarrow> is_abs q)"

lemma resolve_knowledge_below:
  assumes "resolve_knowledge L W T requested cleaned s = (Inr path, s')" "links_absolute W" "is_abs (kt_root T)"
  obtains dir s1 where "fs_eval_symlinks W (kt_root T) s = (Inr dir, s1)"
    "fs_eval_symlinks W (path_Join [dir, cleaned]) s1 = (Inr path, s')" "below dir path"
proof -
  obtain dir s1 relative where dir: "fs_eval_symlinks W (kt_root T) s = (Inr dir, s1)"
    and path: "fs_eval_symlinks W (path_Join [dir, cleaned]) s1 = (Inr path, s')"
    and rel: "Rel dir path = Inr relative" "\<not> leaves relative"
    using assms(1) by (auto simp: resolve_knowledge_def split: sum.splits prod.splits if_splits)
  from dir have "is_abs dir" using assms(2,3) unfolding links_absolute_def by blast
  with rel have "below dir path" using Rel_below [of dir path relative] by (auto simp: leaves_def)
  with dir path show thesis by (rule that)
qed

lemma knowledge_content_result:
  assumes "knowledge_content maxBytes f = Inr r"
  shows "of_regular f = Inr True \<and> r = bounded_result (take (nat (maxBytes + 4)) (of_data f)) maxBytes"
  using assms
  by (auto simp: knowledge_content_def knowledge_text_def read_file_def Let_def split: sum.splits if_splits option.splits)

lemma bounded_result_within:
  assumes "0 \<le> maxBytes"
  shows "int (length (tlr_content (bounded_result data maxBytes))) \<le> maxBytes"
    "\<not> tlr_truncated (bounded_result data maxBytes) \<Longrightarrow> tlr_content (bounded_result data maxBytes) = data"
  using Bound_length [of data maxBytes] assms
  by (auto simp: bounded_result_def plain_result_def split: prod.splits)


text \<open>
  No text is refused: a regular file of valid UTF-8 that can be opened and read is answered, whatever its size, and
  in full when it fits the capture limit. Cutting it for reading in the middle of a character does not make it invalid.
\<close>

theorem knowledge_serves_text:
  assumes "of_regular f = Inr True" "of_read_error f = None" "utf8_valid (of_data f)" "0 \<le> maxBytes"
  shows "\<exists>r. knowledge_content maxBytes f = Inr r \<and> \<not> tlr_is_error r \<and>
    (tlr_truncated r \<longleftrightarrow> maxBytes < int (length (of_data f))) \<and> (\<not> tlr_truncated r \<longrightarrow> tlr_content r = of_data f)"
proof -
  let ?d = "take (nat (maxBytes + 4)) (of_data f)"
  have "read_file (maxBytes + 4) f = Inr ?d" using assms(2) by (auto simp: read_file_def)
  with assms(1) knowledge_text_valid [OF assms(3,4)] have "knowledge_content maxBytes f = Inr (bounded_result ?d maxBytes)"
    by (simp add: knowledge_content_def)
  moreover have "Bound ?d maxBytes = (of_data f, False)" if "int (length (of_data f)) \<le> maxBytes"
    using that assms(3) by (simp add: Bound_def)
  moreover have "snd (Bound ?d maxBytes)" if "maxBytes < int (length (of_data f))"
    using that assms(4) by (auto simp: Bound_def)
  ultimately show ?thesis
    by (cases "maxBytes < int (length (of_data f))"; cases "Bound ?d maxBytes") (auto simp: bounded_result_def plain_result_def)
qed

subsection \<open>A mounted directory\<close>

text \<open>A directory with one file and no links.\<close>

definition note_file :: open_file where
  "note_file = \<lparr>of_regular = Inr True, of_data = ''hello'', of_read_error = None\<rparr>"

definition note_world :: "unit file_world" where
  "note_world = \<lparr>fs_ctx_err = (\<lambda>s. (CtxActive, s)), fs_eval_symlinks = (\<lambda>p s. (Inr p, s)),
     fs_open = (\<lambda>p s. (if p = ''/kontext/knowledge/a/note'' then Inr note_file else Inl ''no such file'', s))\<rparr>"

definition plain_golib :: golib where
  "plain_golib = \<lparr>unicode_lower = id, unicode_upper = id, unicode_quote = id, sha256_hex = id\<rparr>"

definition path_decoder :: "read_knowledge_arguments arguments_decoder" where
  "path_decoder raw = Inr (\<lparr>ra_path = raw\<rparr>, EOF)"

text \<open>The same directory behind a link, as a ConfigMap is mounted, with a link to another file in it.\<close>

definition linked_world :: "unit file_world" where
  "linked_world = note_world\<lparr>fs_eval_symlinks := (\<lambda>p s.
     (Inr (if p = ''/data'' then ''/kontext/knowledge'' else if p = ''/kontext/knowledge/link'' then ''/kontext/knowledge/a/note'' else p), s))\<rparr>"


theorem knowledge_serves_text_witness:
  "\<exists>r. knowledge_content 4 note_file = Inr r \<and> tlr_truncated r"
proof -
  have "utf8_valid (of_data note_file)" by (simp add: note_file_def utf8_valid_ascii)
  from knowledge_serves_text [OF _ _ this, of 4] show ?thesis by (auto simp: note_file_def)
qed

end
