(* ===== verification/Tool_Kubernetes.thy ===== *)
theory Tool_Kubernetes
  imports Tool_Knowledge
begin

text \<open>
  The \<^verbatim>\<open>kubernetes_read\<close> tool, \<^verbatim>\<open>tools/kubernetes.go\<close>: arguments are checked against a list of resources, the cluster
  configuration is taken from the service account of the Pod, and one GET request is made. Files, environment and HTTP
  clients are parameters.
\<close>

abbreviation NameKubernetesRead :: string where "NameKubernetesRead \<equiv> ''kubernetes_read''"
abbreviation serviceAccountRoot :: string where "serviceAccountRoot \<equiv> ''/var/run/secrets/kubernetes.io/serviceaccount''"
abbreviation serviceAccountTokenPath :: string where "serviceAccountTokenPath \<equiv> serviceAccountRoot @ ''/token''"
abbreviation serviceAccountCAPath :: string where "serviceAccountCAPath \<equiv> serviceAccountRoot @ ''/ca.crt''"
abbreviation serviceAccountNSPath :: string where "serviceAccountNSPath \<equiv> serviceAccountRoot @ ''/namespace''"

subsection \<open>The resources\<close>

record kubernetes_resource =
  kr_name :: string
  kr_api_prefix :: string

definition kubernetesResourceRegistry :: "kubernetes_resource list" where
  "kubernetesResourceRegistry = map (\<lambda>(n, p). \<lparr>kr_name = n, kr_api_prefix = p\<rparr>)
     [(''pods'', ''/api/v1''), (''configmaps'', ''/api/v1''), (''services'', ''/api/v1''), (''events'', ''/api/v1''),
      (''deployments'', ''/apis/apps/v1''), (''statefulsets'', ''/apis/apps/v1''), (''daemonsets'', ''/apis/apps/v1''),
      (''replicasets'', ''/apis/apps/v1''), (''jobs'', ''/apis/batch/v1''), (''cronjobs'', ''/apis/batch/v1''),
      (''agents'', ''/apis/kontext.dev/v1alpha1''), (''agentruns'', ''/apis/kontext.dev/v1alpha1'')]"

text \<open>A panic while the package is initialised is \<open>Inl\<close>.\<close>

fun index_resources :: "golib \<Rightarrow> kubernetes_resource go_map \<Rightarrow> kubernetes_resource list \<Rightarrow> kubernetes_resource go_map go_result" where
  "index_resources L resources [] = Inr resources"
| "index_resources L resources (d # ds) =
     (if kr_name d = [] \<or> kr_api_prefix d = [] then Inl ''Kubernetes resource definitions require a name and API prefix''
      else if kr_name d = ''secrets'' then Inl ''Kubernetes Secrets must never be exposed''
      else if kr_name d \<in> fst ` set resources then Inl (''duplicate Kubernetes resource '' @ quote L (kr_name d))
      else index_resources L (resources @ [(kr_name d, d)]) ds)"

definition indexKubernetesResources :: "golib \<Rightarrow> kubernetes_resource list \<Rightarrow> kubernetes_resource go_map go_result" where
  "indexKubernetesResources L definitions = index_resources L [] definitions"

definition kubernetesReadInputSchema :: string where
  "kubernetesReadInputSchema = marshalled (JObj
     [(''additionalProperties'', JBool False),
      (''properties'', JObj
        [(''name'', JObj [(''description'', JStr ''Required for get; omit for list''), (''type'', JStr ''string'')]),
         (''operation'', JObj [(''enum'', JList [JStr ''get'', JStr ''list'']), (''type'', JStr ''string'')]),
         (''resource'', JObj [(''enum'', JList (map (JStr \<circ> kr_name) kubernetesResourceRegistry)), (''type'', JStr ''string'')])]),
      (''required'', JList [JStr ''operation'', JStr ''resource'']),
      (''type'', JStr ''object'')])"

definition kubernetes_Definition :: tool_definition where
  "kubernetes_Definition = \<lparr>td_name = NameKubernetesRead,
     td_description = ''Get or list an allowlisted Kubernetes resource in the current namespace. Secrets are never available.'',
     td_input_schema = kubernetesReadInputSchema\<rparr>"

subsection \<open>Configuration\<close>

text \<open>A client is one that was configured, or one that trusts the certificates of the service account.\<close>

datatype kube_client = ConfiguredClient | ClusterClient string

record kubernetes_config =
  kc_base_url :: string
  kc_namespace :: string
  kc_token :: string
  kc_client :: "kube_client option"

record kubernetes_tool =
  kb_config :: kubernetes_config
  kb_max_bytes :: int
  kb_client_once :: "(runtime_error + kube_client) option"

record 's kube_world =
  kw_read_file :: "string \<Rightarrow> 's \<Rightarrow> string go_result \<times> 's"
  kw_getenv :: "string \<Rightarrow> 's \<Rightarrow> string \<times> 's"
  kw_pem_valid :: "string \<Rightarrow> bool"
  kw_new_request :: "string \<Rightarrow> string option"
  kw_set_query :: "string \<Rightarrow> string \<Rightarrow> string \<Rightarrow> string"
  kw_json_valid :: "string \<Rightarrow> bool"
  kw_do :: "kube_client \<Rightarrow> http_request \<Rightarrow> 's \<Rightarrow> (string + http_response) \<times> 's"
  kw_client_ctx_err :: "'s \<Rightarrow> ctx_error \<times> 's"

definition newKubernetesTool :: "kubernetes_config \<Rightarrow> int \<Rightarrow> kubernetes_tool" where
  "newKubernetesTool c maxBytes = \<lparr>kb_config = c, kb_max_bytes = maxBytes, kb_client_once = None\<rparr>"

definition kube_unavailable :: "string \<Rightarrow> runtime_error" where
  "kube_unavailable message = tool_failure ''kubernetes_unavailable'' message"

definition newKubernetesClient :: "'s kube_world \<Rightarrow> 's \<Rightarrow> (runtime_error + kube_client) \<times> 's" where
  "newKubernetesClient W s =
     (case kw_read_file W serviceAccountCAPath s of
        (Inl e, s1) \<Rightarrow> (Inl (kube_unavailable (''read Kubernetes CA certificate: '' @ e)), s1)
      | (Inr certificate, s1) \<Rightarrow>
          (if kw_pem_valid W certificate then Inr (ClusterClient certificate)
           else Inl (kube_unavailable ''Kubernetes CA certificate is invalid''), s1))"

definition read_setting :: "'s kube_world \<Rightarrow> string \<Rightarrow> string \<Rightarrow> string \<Rightarrow> 's \<Rightarrow> (runtime_error + string) \<times> 's" where
  "read_setting W configured path what s =
     (if configured \<noteq> [] then (Inr configured, s)
      else case kw_read_file W path s of
             (Inl e, s1) \<Rightarrow> (Inl (kube_unavailable (''read '' @ what @ '': '' @ e)), s1)
           | (Inr text, s1) \<Rightarrow> (Inr (trim_space text), s1))"

definition service_url :: "'s kube_world \<Rightarrow> string \<Rightarrow> 's \<Rightarrow> (runtime_error + string) \<times> 's" where
  "service_url W configured s0 =
     (if configured \<noteq> [] then (Inr configured, s0)
      else
        (case kw_getenv W ''KUBERNETES_SERVICE_HOST'' s0 of (h, s1) \<Rightarrow>
         case kw_getenv W ''KUBERNETES_SERVICE_PORT_HTTPS'' s1 of (p1, s2) \<Rightarrow>
         case (if trim_space p1 = [] then kw_getenv W ''KUBERNETES_SERVICE_PORT'' s2 else (p1, s2)) of (p, s3) \<Rightarrow>
           if trim_space h = [] \<or> trim_space p = [] then
             (Inl (kube_unavailable ''Kubernetes service host and port are unavailable''), s3)
           else (Inr (''https://'' @ join_host_port (trim_space h) (trim_space p)), s3)))"

definition config_client :: "'s kube_world \<Rightarrow> kube_client option \<Rightarrow> 's \<Rightarrow> (runtime_error + kube_client) \<times> 's" where
  "config_client W c s = (case c of Some client \<Rightarrow> (Inr client, s) | None \<Rightarrow> newKubernetesClient W s)"

definition resolveKubernetesConfig :: "'s kube_world \<Rightarrow> kubernetes_config \<Rightarrow> 's \<Rightarrow> (runtime_error + kubernetes_config) \<times> 's" where
  "resolveKubernetesConfig W c s0 =
     (case read_setting W (kc_namespace c) serviceAccountNSPath ''current namespace'' s0 of
        (Inl e, s1) \<Rightarrow> (Inl e, s1)
      | (Inr ns, s1) \<Rightarrow>
     (case read_setting W (kc_token c) serviceAccountTokenPath ''service-account token'' s1 of
        (Inl e, s2) \<Rightarrow> (Inl e, s2)
      | (Inr token, s2) \<Rightarrow>
     (case service_url W (kc_base_url c) s2 of
        (Inl e, s3) \<Rightarrow> (Inl e, s3)
      | (Inr url, s3) \<Rightarrow>
     (case config_client W (kc_client c) s3 of
        (Inl e, s4) \<Rightarrow> (Inl e, s4)
      | (Inr client, s4) \<Rightarrow>
          if ns = [] \<or> token = [] then (Inl (kube_unavailable ''Kubernetes namespace and service-account token are required''), s4)
          else (Inr \<lparr>kc_base_url = url, kc_namespace = ns, kc_token = token, kc_client = Some client\<rparr>, s4)))))"

text \<open>The client is made once, and its failure is remembered as well.\<close>

definition resolveConfig ::
  "'s kube_world \<Rightarrow> kubernetes_tool \<Rightarrow> 's \<Rightarrow> (runtime_error + kubernetes_config) \<times> kubernetes_tool \<times> 's" where
  "resolveConfig W T s =
     (if kc_client (kb_config T) \<noteq> None then (case resolveKubernetesConfig W (kb_config T) s of (c, s1) \<Rightarrow> (c, T, s1))
      else
        (case (case kb_client_once T of Some c \<Rightarrow> (c, s) | None \<Rightarrow> newKubernetesClient W s) of (made, s1) \<Rightarrow>
           (let T1 = T\<lparr>kb_client_once := Some made\<rparr> in
            case made of
              Inl e \<Rightarrow> (Inl e, T1, s1)
            | Inr client \<Rightarrow> (case resolveKubernetesConfig W ((kb_config T)\<lparr>kc_client := Some client\<rparr>) s1 of (c, s2) \<Rightarrow> (c, T1, s2)))))"

subsection \<open>A call\<close>

record kubernetes_read_arguments =
  kq_operation :: string
  kq_resource :: string
  kq_name :: string

definition kube_name_char :: "char \<Rightarrow> bool" where
  "kube_name_char c \<longleftrightarrow> byte_in 97 122 c \<or> is_digit c \<or> c = CHR ''-'' \<or> c = CHR ''.''"

definition kubernetes_name :: "string \<Rightarrow> bool" where
  "kubernetes_name n \<longleftrightarrow> n \<noteq> [] \<and> list_all kube_name_char n \<and> hd n \<notin> {CHR ''-'', CHR ''.''} \<and> last n \<notin> {CHR ''-'', CHR ''.''}"

text \<open>The checked call: the resource and, for a get, the name.\<close>

definition check_arguments ::
  "golib \<Rightarrow> kubernetes_resource go_map \<Rightarrow> kubernetes_read_arguments \<Rightarrow> runtime_error + (kubernetes_resource \<times> string option)" where
  "check_arguments L resources a =
     (case map_of resources (to_lower L (trim_space (kq_resource a))) of
        None \<Rightarrow> Inl (tool_failure ''kubernetes_resource_denied'' (''Kubernetes resource '' @ quote L (kq_resource a) @ '' is not allowlisted''))
      | Some resource \<Rightarrow>
          (let operation = to_lower L (trim_space (kq_operation a)); name = trim_space (kq_name a) in
           if operation = ''get'' then
             (if name = [] then Inl (tool_failure ''invalid_tool_arguments'' ''name is required for Kubernetes get'')
              else if length name > 253 \<or> \<not> kubernetes_name name then
                Inl (tool_failure ''invalid_tool_arguments'' ''name must be a valid Kubernetes DNS subdomain'')
              else Inr (resource, Some name))
           else if operation = ''list'' then
             (if name \<noteq> [] then Inl (tool_failure ''invalid_tool_arguments'' ''name must be omitted for Kubernetes list'')
              else Inr (resource, None))
           else Inl (tool_failure ''kubernetes_operation_denied'' ''operation must be get or list'')))"

definition request_path :: "kubernetes_config \<Rightarrow> kubernetes_resource \<Rightarrow> string option \<Rightarrow> string" where
  "request_path c resource name =
     (let p = path_Join [kr_api_prefix resource, ''namespaces'', path_escape (kc_namespace c), kr_name resource] in
      case name of None \<Rightarrow> p | Some n \<Rightarrow> path_Join [p, path_escape n])"

definition with_query :: "'s kube_world \<Rightarrow> string \<Rightarrow> string \<Rightarrow> string \<Rightarrow> string" where
  "with_query W url k v =
     (if CHR ''?'' \<in> set url \<or> CHR ''#'' \<in> set url then kw_set_query W url k v else url @ ''?'' @ k @ ''='' @ v)"

definition kubernetes_request :: "'s kube_world \<Rightarrow> kubernetes_config \<Rightarrow> kubernetes_resource \<Rightarrow> string option \<Rightarrow> http_request" where
  "kubernetes_request W c resource name =
     (let endpoint = trim_right_char (CHR ''/'') (kc_base_url c) @ request_path c resource name in
      \<lparr>hq_method = ''GET'', hq_url = (if name = None then with_query W endpoint ''limit'' ''50'' else endpoint),
       hq_header = header_set ''Authorization'' (''Bearer '' @ kc_token c) (header_set ''Accept'' ''application/json'' []),
       hq_body = []\<rparr>)"

definition rejection_code :: "int \<Rightarrow> string" where
  "rejection_code status =
     (if status = 401 then ''kubernetes_authentication_failed'' else if status = 403 then ''kubernetes_rbac_denied''
      else if status = 404 then ''kubernetes_not_found'' else ''kubernetes_request_rejected'')"

definition kubernetes_answer :: "'s kube_world \<Rightarrow> int \<Rightarrow> http_response \<Rightarrow> runtime_error + tool_result" where
  "kubernetes_answer W maxBytes response =
     (case read_limited (maxBytes + 1) response of
        Inl e \<Rightarrow> Inl (tool_failure ''kubernetes_response_failed'' (''read Kubernetes API response: '' @ e))
      | Inr body \<Rightarrow>
          (case Bound body maxBytes of (content, truncated) \<Rightarrow>
             if hs_status response < 200 \<or> hs_status response \<ge> 300 then
               Inr \<lparr>tlr_call_id = [], tlr_name = [],
                    tlr_content = (if trim_space content = [] then ''Kubernetes API returned HTTP '' @ show_int (hs_status response)
                                   else trim_space content),
                    tlr_is_error = True, tlr_error_code = rejection_code (hs_status response), tlr_truncated = truncated\<rparr>
             else if \<not> truncated \<and> \<not> kw_json_valid W content then
               Inl (tool_failure ''kubernetes_invalid_response'' ''Kubernetes API returned invalid JSON'')
             else Inr (plain_result content truncated)))"

definition send_kubernetes ::
  "'s kube_world \<Rightarrow> int \<Rightarrow> kubernetes_config \<Rightarrow> kubernetes_resource \<Rightarrow> string option \<Rightarrow> 's \<Rightarrow> (runtime_error + tool_result) \<times> 's" where
  "send_kubernetes W maxBytes c resource name s =
     (case kw_new_request W (trim_right_char (CHR ''/'') (kc_base_url c) @ request_path c resource name) of
        Some e \<Rightarrow> (Inl (tool_failure ''kubernetes_request_failed'' (''create Kubernetes request: '' @ e)), s)
      | None \<Rightarrow>
          (case kw_do W (case kc_client c of Some client \<Rightarrow> client | None \<Rightarrow> ConfiguredClient) (kubernetes_request W c resource name) s of
             (Inl e, s1) \<Rightarrow>
               (case kw_client_ctx_err W s1 of (ctx, s2) \<Rightarrow>
                  if ctx \<noteq> CtxActive then
                    (case kw_client_ctx_err W s2 of (ctx', s3) \<Rightarrow> (Inl (ctx_failure ctx'), s3))
                  else (Inl (tool_failure ''kubernetes_request_failed'' (''Kubernetes API request failed: '' @ e)), s2))
           | (Inr response, s1) \<Rightarrow> (kubernetes_answer W maxBytes response, s1)))"

definition kubernetes_Execute ::
  "golib \<Rightarrow> kubernetes_read_arguments arguments_decoder \<Rightarrow> 's kube_world \<Rightarrow> kubernetes_resource go_map \<Rightarrow> kubernetes_tool \<Rightarrow>
   string \<Rightarrow> 's \<Rightarrow> (runtime_error + tool_result) \<times> kubernetes_tool \<times> 's" where
  "kubernetes_Execute L decode W resources T rawArguments s =
     (case decodeArguments decode rawArguments of
        Inl e \<Rightarrow> (Inl (coded_failure e), T, s)
      | Inr a \<Rightarrow>
          (case check_arguments L resources a of
             Inl e \<Rightarrow> (Inl e, T, s)
           | Inr (resource, name) \<Rightarrow>
               (case resolveConfig W T s of
                  (Inl e, T1, s1) \<Rightarrow> (Inl e, T1, s1)
                | (Inr c, T1, s1) \<Rightarrow>
                    (case send_kubernetes W (kb_max_bytes T) c resource name s1 of (res, s2) \<Rightarrow> (res, T1, s2)))))"

subsection \<open>The path of a request\<close>

lemma join_strings_append:
  "xs \<noteq> [] \<Longrightarrow> ys \<noteq> [] \<Longrightarrow> join_strings (xs @ ys) sep = join_strings xs sep @ sep @ join_strings ys sep"
  by (induction xs rule: induct_list012) (auto simp: neq_Nil_conv)

lemma path_Join_rooted:
  assumes "list_all plain_part ps" "ps \<noteq> []" "list_all plain_part cs" "cs \<noteq> []" "dir = ''/'' @ join_strings ps ''/''"
  shows "path_Join (dir # cs) = dir @ ''/'' @ join_strings cs ''/''"
proof -
  from assms(3) have "filter (\<lambda>e. e \<noteq> []) cs = cs" by (auto simp: filter_id_conv list_all_iff plain_part_def)
  moreover have "join_strings (dir # cs) ''/'' = ''/'' @ join_strings (ps @ cs) ''/''"
    using assms(2,4,5) by (cases cs) (simp_all add: join_strings_append)
  ultimately have "path_Join (dir # cs) = Clean (''/'' @ join_strings (ps @ cs) ''/'')" unfolding path_Join_def using assms(5) by simp
  also have "\<dots> = ''/'' @ join_strings (ps @ cs) ''/''" by (rule path_Join_plain) (use assms in simp_all)
  finally show ?thesis using assms(2,4,5) by (simp add: join_strings_append)
qed

lemma path_escape_no_slash: "CHR ''/'' \<notin> set (path_escape s)"
proof -
  have "upper_hex n \<noteq> CHR ''/''" if "n < 16" for n
  proof -
    have "\<forall>n \<in> set [0..<16]. upper_hex n \<noteq> CHR ''/''" by code_simp
    with that show ?thesis by auto
  qed
  then have hex: "upper_hex (of_char c div 16) \<noteq> CHR ''/''" "upper_hex (of_char c mod 16) \<noteq> CHR ''/''" for c :: char
    using nat_of_char_less_256 [of c] by (simp_all add: less_mult_imp_div_less)
  have slash: "\<not> unreserved (CHR ''/'')" by code_simp
  show ?thesis
  proof (induction s)
    case (Cons c s)
    have "c = CHR ''/'' \<Longrightarrow> \<not> unreserved c" using slash by simp
    with Cons hex [of c] show ?case by (cases "unreserved c") (auto simp: path_escape_def)
  qed (simp add: path_escape_def)
qed

lemma path_escape_id: "CHR ''%'' \<notin> set (path_escape s) \<Longrightarrow> path_escape s = s"
  by (induction s) (auto simp: path_escape_def split: if_splits)

lemma path_escape_plain:
  assumes "ns \<noteq> []" "ns \<noteq> ''.''" "ns \<noteq> ''..''"
  shows "plain_part (path_escape ns)"
proof -
  have "path_escape ns \<noteq> []" using assms(1) by (cases ns) (auto simp: path_escape_def split: if_splits)
  moreover have "path_escape ns \<noteq> t" if "t \<in> {''.'', ''..''}" for t
    using path_escape_id [of ns] that assms(2,3) by auto
  ultimately show ?thesis using path_escape_no_slash by (auto simp: plain_part_def)
qed

lemma kubernetes_name_part:
  assumes "kubernetes_name n"
  shows "path_escape n = n" "plain_part n"
proof -
  have "list_all unreserved n" using assms by (auto simp: kubernetes_name_def kube_name_char_def unreserved_def list_all_iff)
  then show e: "path_escape n = n" by (induction n) (auto simp: path_escape_def)
  show "plain_part n" using assms path_escape_no_slash [of n] e by (auto simp: plain_part_def kubernetes_name_def)
qed

definition resource_ok :: "kubernetes_resource \<Rightarrow> bool" where
  "resource_ok r \<longleftrightarrow> kr_name r \<noteq> ''secrets'' \<and> plain_part (kr_name r) \<and> path_parts (kr_api_prefix r) \<noteq> [] \<and>
     list_all plain_part (path_parts (kr_api_prefix r)) \<and> kr_api_prefix r = ''/'' @ join_strings (path_parts (kr_api_prefix r)) ''/''"

lemma registry_ok: "list_all resource_ok kubernetesResourceRegistry"
  by code_simp

lemma request_path_plain:
  assumes "resource_ok r" "kc_namespace c \<notin> {[], ''.'', ''..''}" "\<And>n. name = Some n \<Longrightarrow> kubernetes_name n"
  shows "request_path c r name = kr_api_prefix r @ ''/namespaces/'' @ path_escape (kc_namespace c) @ ''/'' @ kr_name r @
    (case name of None \<Rightarrow> [] | Some n \<Rightarrow> ''/'' @ n)"
proof -
  let ?ps = "path_parts (kr_api_prefix r)" and ?cs = "[''namespaces'', path_escape (kc_namespace c), kr_name r]"
  have cs: "list_all plain_part ?cs" using assms(1,2) path_escape_plain by (auto simp: resource_ok_def plain_part_def)
  have ps: "list_all plain_part ?ps" "?ps \<noteq> []" "kr_api_prefix r = ''/'' @ join_strings ?ps ''/''" using assms(1) by (auto simp: resource_ok_def)
  note p = path_Join_rooted [OF ps(1,2) cs _ ps(3)]
  show ?thesis
  proof (cases name)
    case None
    with p show ?thesis by (simp add: request_path_def)
  next
    case (Some n)
    note n = kubernetes_name_part [OF assms(3) [OF Some]]
    have "path_Join [kr_api_prefix r @ ''/'' @ join_strings ?cs ''/'', n] = (kr_api_prefix r @ ''/'' @ join_strings ?cs ''/'') @ ''/'' @ join_strings [n] ''/''"
      by (rule path_Join_rooted [of "?ps @ ?cs"]) (use ps cs n in \<open>simp_all add: join_strings_append\<close>)
    with Some p n show ?thesis by (simp add: request_path_def)
  qed
qed

lemma index_resources_spec:
  "index_resources L m ds = Inr m' \<Longrightarrow> \<forall>(k, r) \<in> set m. k = kr_name r \<and> r \<in> R \<Longrightarrow> set ds \<subseteq> R \<Longrightarrow> \<forall>(k, r) \<in> set m'. k = kr_name r \<and> r \<in> R"
  by (induction L m ds rule: index_resources.induct) (auto split: if_splits)

lemma registry_indexed: "\<exists>m. indexKubernetesResources L kubernetesResourceRegistry = Inr m"
  by (simp add: indexKubernetesResources_def kubernetesResourceRegistry_def)

subsection \<open>What the tool can reach\<close>

text \<open>The namespace of the tool: the configured one, or the one of the service account.\<close>

definition own_namespace :: "'s kube_world \<Rightarrow> kubernetes_tool \<Rightarrow> string \<Rightarrow> bool" where
  "own_namespace W T ns \<longleftrightarrow>
     (if kc_namespace (kb_config T) \<noteq> [] then ns = kc_namespace (kb_config T)
      else \<exists>s text s'. kw_read_file W serviceAccountNSPath s = (Inr text, s') \<and> ns = trim_space text)"

definition confined_request :: "'s kube_world \<Rightarrow> string \<Rightarrow> http_request \<Rightarrow> bool" where
  "confined_request W ns q \<longleftrightarrow> hq_method q = ''GET'' \<and> hq_body q = [] \<and>
     (\<exists>base. \<exists>r \<in> set kubernetesResourceRegistry.
        let p = base @ kr_api_prefix r @ ''/namespaces/'' @ path_escape ns @ ''/'' @ kr_name r in
        kr_name r \<noteq> ''secrets'' \<and>
        (hq_url q = with_query W p ''limit'' ''50'' \<or> (\<exists>n. kubernetes_name n \<and> hq_url q = p @ ''/'' @ n)))"

lemma read_setting_keeps:
  assumes "\<And>path s. P s \<Longrightarrow> P (snd (kw_read_file W path s))" "P s" "read_setting W configured path what s = (res, s1)"
  shows "P s1"
  using assms(1) [OF assms(2), of path] assms(2,3) by (auto simp: read_setting_def split: if_splits prod.splits sum.splits)

lemma newKubernetesClient_keeps:
  assumes "\<And>path s. P s \<Longrightarrow> P (snd (kw_read_file W path s))" "P s" "newKubernetesClient W s = (res, s1)"
  shows "P s1"
  using assms(1) [OF assms(2), of serviceAccountCAPath] assms(3) by (auto simp: newKubernetesClient_def split: prod.splits sum.splits)

lemma service_url_keeps:
  assumes "\<And>n s. P s \<Longrightarrow> P (snd (kw_getenv W n s))" "P s" "service_url W configured s = (res, s1)"
  shows "P s1"
proof -
  obtain h s2 p1 s3 where e: "kw_getenv W ''KUBERNETES_SERVICE_HOST'' s = (h, s2)" "kw_getenv W ''KUBERNETES_SERVICE_PORT_HTTPS'' s2 = (p1, s3)"
    by (metis surj_pair)
  obtain p s4 where p: "kw_getenv W ''KUBERNETES_SERVICE_PORT'' s3 = (p, s4)" by (metis surj_pair)
  have "P s2" using assms(1) [OF assms(2)] e(1) by (metis snd_conv)
  then have "P s3" using assms(1) e(2) by (metis snd_conv)
  moreover from this have "P s4" using assms(1) p by (metis snd_conv)
  ultimately show ?thesis using assms(2,3) e p by (auto simp: service_url_def split: if_splits)
qed

lemma resolveKubernetesConfig_keeps:
  assumes "\<And>path s. P s \<Longrightarrow> P (snd (kw_read_file W path s))" "\<And>n s. P s \<Longrightarrow> P (snd (kw_getenv W n s))" "P s"
    and "resolveKubernetesConfig W c s = (res, s1)"
  shows "P s1"
proof -
  obtain r1 t1 where 1: "read_setting W (kc_namespace c) serviceAccountNSPath ''current namespace'' s = (r1, t1)" by fastforce
  obtain r2 t2 where 2: "read_setting W (kc_token c) serviceAccountTokenPath ''service-account token'' t1 = (r2, t2)" by fastforce
  obtain r3 t3 where 3: "service_url W (kc_base_url c) t2 = (r3, t3)" by fastforce
  obtain r4 t4 where 4: "config_client W (kc_client c) t3 = (r4, t4)" by fastforce
  have "P t1" using read_setting_keeps [of P, OF assms(1,3) 1] .
  moreover from this have "P t2" using read_setting_keeps [of P, OF assms(1) _ 2] by blast
  moreover from this have "P t3" using service_url_keeps [of P, OF assms(2) _ 3] by blast
  moreover from this have "P t4" using newKubernetesClient_keeps [of P, OF assms(1)] 4 by (auto simp: config_client_def split: option.splits)
  ultimately show ?thesis
    using assms(4) 1 2 3 4 by (auto simp: resolveKubernetesConfig_def split: sum.splits if_splits)
qed

lemma read_setting_source:
  assumes "read_setting W configured path what s = (Inr v, s1)"
  shows "if configured \<noteq> [] then v = configured else \<exists>s text s'. kw_read_file W path s = (Inr text, s') \<and> v = trim_space text"
  using assms by (auto simp: read_setting_def split: prod.splits sum.splits if_splits intro: exI [of _ s])

lemma resolveKubernetesConfig_namespace:
  assumes "resolveKubernetesConfig W c s = (Inr c', s1)"
  shows "kc_namespace c' \<noteq> [] \<and> (if kc_namespace c \<noteq> [] then kc_namespace c' = kc_namespace c
      else \<exists>s text s'. kw_read_file W serviceAccountNSPath s = (Inr text, s') \<and> kc_namespace c' = trim_space text)"
proof -
  obtain s2 where "read_setting W (kc_namespace c) serviceAccountNSPath ''current namespace'' s = (Inr (kc_namespace c'), s2)" "kc_namespace c' \<noteq> []"
    using assms unfolding resolveKubernetesConfig_def by (auto split: prod.splits sum.splits if_splits)
  from read_setting_source [OF this(1)] this(2) show ?thesis by simp
qed

lemma resolveConfig_keeps:
  assumes "\<And>path s. P s \<Longrightarrow> P (snd (kw_read_file W path s))" "\<And>n s. P s \<Longrightarrow> P (snd (kw_getenv W n s))" "P s"
    and "resolveConfig W T s = (res, T1, s1)"
  shows "P s1 \<and> (\<forall>c. res = Inr c \<longrightarrow> kc_namespace c \<noteq> [] \<and> own_namespace W T (kc_namespace c))"
proof (cases "kc_client (kb_config T) \<noteq> None")
  case True
  then have "resolveKubernetesConfig W (kb_config T) s = (res, s1)" using assms(4) by (auto simp: resolveConfig_def split: prod.splits)
  then show ?thesis
    using resolveKubernetesConfig_keeps [of P, OF assms(1-3)] resolveKubernetesConfig_namespace [of W "kb_config T" s _ s1]
    by (fastforce simp: own_namespace_def split: if_splits)
next
  case False
  obtain made s2 where m: "(case kb_client_once T of Some c \<Rightarrow> (c, s) | None \<Rightarrow> newKubernetesClient W s) = (made, s2)" by fastforce
  have s2: "P s2" using m assms(3) newKubernetesClient_keeps [of P, OF assms(1,3)] by (auto split: option.splits)
  show ?thesis
  proof (cases made)
    case (Inl e)
    with assms(4) False m s2 show ?thesis by (auto simp: resolveConfig_def Let_def)
  next
    case (Inr client)
    let ?c = "(kb_config T)\<lparr>kc_client := Some client\<rparr>"
    have r: "resolveKubernetesConfig W ?c s2 = (res, s1)"
      using assms(4) False m Inr by (auto simp: resolveConfig_def Let_def split: prod.splits)
    from resolveKubernetesConfig_keeps [of P, OF assms(1,2) s2 r] resolveKubernetesConfig_namespace [of W ?c s2 _ s1] r
    show ?thesis by (fastforce simp: own_namespace_def split: if_splits)
  qed
qed

lemma kubernetes_request_confined:
  assumes "r \<in> set kubernetesResourceRegistry" "kc_namespace c \<notin> {[], ''.'', ''..''}" "\<And>n. name = Some n \<Longrightarrow> kubernetes_name n"
  shows "confined_request W (kc_namespace c) (kubernetes_request W c r name)"
proof -
  have r: "resource_ok r" using assms(1) registry_ok by (auto simp: list_all_iff)
  have p: "request_path c r name = kr_api_prefix r @ ''/namespaces/'' @ path_escape (kc_namespace c) @ ''/'' @ kr_name r @
      (case name of None \<Rightarrow> [] | Some n \<Rightarrow> ''/'' @ n)" by (rule request_path_plain [OF r assms(2)]) (rule assms(3))
  let ?base = "trim_right_char (CHR ''/'') (kc_base_url c)"
  show ?thesis unfolding confined_request_def Let_def
  proof (intro conjI exI [of _ ?base] bexI [OF _ assms(1)])
    show "kr_name r \<noteq> ''secrets''" using r by (simp add: resource_ok_def)
    show "hq_url (kubernetes_request W c r name) = with_query W
        (?base @ kr_api_prefix r @ ''/namespaces/'' @ path_escape (kc_namespace c) @ ''/'' @ kr_name r) ''limit'' ''50'' \<or>
      (\<exists>n. kubernetes_name n \<and> hq_url (kubernetes_request W c r name) =
        (?base @ kr_api_prefix r @ ''/namespaces/'' @ path_escape (kc_namespace c) @ ''/'' @ kr_name r) @ ''/'' @ n)"
      using p assms(3) by (cases name) (simp_all add: kubernetes_request_def Let_def)
  qed (simp_all add: kubernetes_request_def Let_def)
qed

lemma check_arguments_ok:
  assumes "check_arguments L resources a = Inr (r, name)" "indexKubernetesResources L kubernetesResourceRegistry = Inr resources"
  shows "r \<in> set kubernetesResourceRegistry \<and> (\<forall>n. name = Some n \<longrightarrow> kubernetes_name n)"
proof -
  have "\<forall>(k, r) \<in> set resources. k = kr_name r \<and> r \<in> set kubernetesResourceRegistry"
    by (rule index_resources_spec [OF assms(2) [unfolded indexKubernetesResources_def]]) simp_all
  with assms(1) show ?thesis by (auto simp: check_arguments_def Let_def dest: map_of_SomeD split: option.splits if_splits)
qed

text \<open>
  C34. \<^verbatim>\<open>kubernetes_read\<close> is confined. Whatever arguments the model gives, every request the tool sends is a GET of one
  allowlisted resource in its own namespace, by a valid name or as a list limited to 50, and never of Secrets: so
  whatever such requests preserve (and reading files and the environment), a call of the tool preserves.
\<close>

theorem kubernetes_reads_confined:
  assumes "indexKubernetesResources L kubernetesResourceRegistry = Inr resources"
    and "\<And>ns. own_namespace W T ns \<Longrightarrow> ns \<noteq> ''.'' \<and> ns \<noteq> ''..''"
    and "\<And>client ns q s. own_namespace W T ns \<Longrightarrow> confined_request W ns q \<Longrightarrow> P s \<Longrightarrow> P (snd (kw_do W client q s))"
    and "\<And>path s. P s \<Longrightarrow> P (snd (kw_read_file W path s))" "\<And>n s. P s \<Longrightarrow> P (snd (kw_getenv W n s))"
    and "\<And>s. P s \<Longrightarrow> P (snd (kw_client_ctx_err W s))"
    and "P s" "kubernetes_Execute L decode W resources T rawArguments s = (res, T', s')"
  shows "P s'"
proof (cases "s' = s")
  case True
  with assms(7) show ?thesis by simp
next
  case False
  then obtain a r name c T1 s1 where
    a: "check_arguments L resources a = Inr (r, name)" and c: "resolveConfig W T s = (c, T1, s1)"
    using assms(8) by (cases "resolveConfig W T s") (auto simp: kubernetes_Execute_def split: sum.splits prod.splits)
  note r = check_arguments_ok [OF a assms(1)] and s1 = resolveConfig_keeps [of P, OF assms(4,5,7) c]
  show ?thesis
  proof (cases c)
    case (Inl e)
    have "s' = s1" using assms(8) False c Inl by (auto simp: kubernetes_Execute_def split: sum.splits prod.splits)
    with s1 show ?thesis by simp
  next
    case (Inr c')
    have "\<exists>r name. send_kubernetes W (kb_max_bytes T) c' r name s1 = (res, s') \<and> r \<in> set kubernetesResourceRegistry \<and> (\<forall>n. name = Some n \<longrightarrow> kubernetes_name n)"
      using assms(8) False c Inr check_arguments_ok [OF _ assms(1)]
      by (auto simp: kubernetes_Execute_def split: sum.splits prod.splits) blast
    then obtain r name where send: "send_kubernetes W (kb_max_bytes T) c' r name s1 = (res, s')"
      and r: "r \<in> set kubernetesResourceRegistry" "\<And>n. name = Some n \<Longrightarrow> kubernetes_name n" by blast
    have ns: "own_namespace W T (kc_namespace c')" "kc_namespace c' \<notin> {[], ''.'', ''..''}" using s1 Inr assms(2) by auto
    let ?q = "kubernetes_request W c' r name"
    obtain client where cl: "(case kc_client c' of Some client \<Rightarrow> client | None \<Rightarrow> ConfiguredClient) = client" by blast
    obtain res2 s2 where d: "kw_do W client ?q s1 = (res2, s2)" by fastforce
    have "confined_request W (kc_namespace c') ?q" using kubernetes_request_confined [OF r(1) ns(2)] r(2) by blast
    then have "P s2" using assms(3) [OF ns(1), of ?q s1 client] s1 d by simp
    then have "P (snd (kw_client_ctx_err W s2))" "P (snd (kw_client_ctx_err W (snd (kw_client_ctx_err W s2))))" using assms(6) by blast+
    with \<open>P s2\<close> send d cl s1 show ?thesis
      by (auto simp: send_kubernetes_def split: option.splits sum.splits prod.splits if_splits)
  qed
qed

subsection \<open>A cluster that records its requests\<close>

definition log_world :: "http_request list kube_world" where
  "log_world = \<lparr>kw_read_file = (\<lambda>p s. (Inr ''team-a'', s)), kw_getenv = (\<lambda>n s. (''10.0.0.1'', s)), kw_pem_valid = (\<lambda>_. True),
     kw_new_request = (\<lambda>_. None), kw_set_query = (\<lambda>u k v. u), kw_json_valid = (\<lambda>_. True),
     kw_do = (\<lambda>_ q s. (Inr \<lparr>hs_status = 200, hs_header = [], hs_body = ''{}'', hs_body_error = None\<rparr>, s @ [q])),
     kw_client_ctx_err = (\<lambda>s. (CtxActive, s))\<rparr>"

definition log_tool :: kubernetes_tool where
  "log_tool = newKubernetesTool \<lparr>kc_base_url = [], kc_namespace = [], kc_token = [], kc_client = None\<rparr> 100"

definition get_pod :: "kubernetes_read_arguments arguments_decoder" where
  "get_pod raw = Inr (\<lparr>kq_operation = ''GET'', kq_resource = '' Pods'', kq_name = ''web-0''\<rparr>, EOF)"

theorem kubernetes_reads_confined_witness:
  "\<exists>resources q. indexKubernetesResources plain_golib kubernetesResourceRegistry = Inr resources \<and>
     snd (snd (kubernetes_Execute plain_golib get_pod log_world resources log_tool [] [])) = [q] \<and> confined_request log_world ''team-a'' q"
proof -
  let ?P = "list_all (confined_request log_world ''team-a'')"
  obtain resources where i: "indexKubernetesResources plain_golib kubernetesResourceRegistry = Inr resources" using registry_indexed by blast
  obtain res T' s' where x: "kubernetes_Execute plain_golib get_pod log_world resources log_tool [] [] = (res, T', s')" by (metis surj_pair)
  have ns: "own_namespace log_world log_tool ns \<Longrightarrow> ns = ''team-a''" for ns
  proof -
    have "trim_space ''team-a'' = ''team-a''" by code_simp
    then show "own_namespace log_world log_tool ns \<Longrightarrow> ns = ''team-a''"
      by (auto simp: own_namespace_def log_world_def log_tool_def newKubernetesTool_def)
  qed
  have "?P s'"
    by (rule kubernetes_reads_confined [OF i _ _ _ _ _ _ x]) (use ns in \<open>auto simp: log_world_def\<close>)
  moreover have "length (snd (snd (kubernetes_Execute plain_golib get_pod log_world (case indexKubernetesResources plain_golib kubernetesResourceRegistry of
      Inr m \<Rightarrow> m) log_tool [] []))) = 1" by code_simp
  then have "length s' = 1" using i x by simp
  then obtain q where "s' = [q]" by (auto simp: length_Suc_conv)
  ultimately show ?thesis using i x by auto
qed

end
