(* ===== verification/Proc_Group.thy ===== *)
theory Proc_Group
  imports Runtime_Api
begin

text \<open>
  Child processes: the environment they get, \<^verbatim>\<open>internal/environment\<close>, and the groups they run in,
  \<^verbatim>\<open>internal/procgroup\<close> on a Unix system. The system call and the channels are parameters; every call of \<^verbatim>\<open>kill\<close> is
  recorded.
\<close>

subsection \<open>Environment\<close>

definition Sorted :: "string go_map \<Rightarrow> string list" where
  "Sorted values = map (\<lambda>name. name @ ''='' @ (case map_of values name of None \<Rightarrow> [] | Some v \<Rightarrow> v)) (sort (map fst values))"

text \<open>The environment of a child process does not depend on the order in which the map is traversed.\<close>

lemma Sorted_perm:
  assumes "go_map_ok a" "set a = set b" "go_map_ok b"
  shows "Sorted a = Sorted b"
proof -
  have "map_of a = map_of b" using assms by (auto simp: go_map_ok_def intro!: map_of_eqI)
  moreover have "sort (map fst a) = sort (map fst b)"
    using assms sorted_list_of_set_sort_remdups [of "map fst a"] sorted_list_of_set_sort_remdups [of "map fst b"]
    by (simp add: go_map_ok_def distinct_remdups_id)
  ultimately show ?thesis by (simp add: Sorted_def)
qed

subsection \<open>Process groups\<close>

datatype signal = SIGTERM | SIGKILL | OtherSignal int

datatype errno = ESRCH | EPERM | OtherErrno string

fun errno_text :: "errno \<Rightarrow> string" where
  "errno_text ESRCH = ''no such process''"
| "errno_text EPERM = ''operation not permitted''"
| "errno_text (OtherErrno e) = e"

text \<open>A wait ends without error, with the exit error of the process, or with another error.\<close>

datatype wait_error = ExitError int | WaitError string

text \<open>What a select statement received: the channel \<^verbatim>\<open>done\<close>, open or closed, the timer, or the context.\<close>

datatype received = GotDone "wait_error option" | DoneClosed | GraceExpired | CtxDone ctx_error

record 's proc_world =
  pw_kill :: "int \<Rightarrow> signal \<Rightarrow> 's \<Rightarrow> errno option \<times> 's"
  pw_wait_grace :: "'s \<Rightarrow> received \<times> 's"
  pw_wait :: "'s \<Rightarrow> received \<times> 's"

type_synonym kills = "(int \<times> signal) list"

definition signalProcessGroup :: "'s proc_world \<Rightarrow> int \<Rightarrow> signal \<Rightarrow> 's \<Rightarrow> string option \<times> kills \<times> 's" where
  "signalProcessGroup W pgid sig s =
     (if pgid \<le> 0 then (Some (''process group ID must be positive: '' @ show_int pgid), [], s)
      else case pw_kill W (- pgid) sig s of (err, s1) \<Rightarrow>
        ((case err of None \<Rightarrow> None | Some e \<Rightarrow> if e = ESRCH then None else Some (errno_text e)), [(- pgid, sig)], s1))"

definition Kill :: "'s proc_world \<Rightarrow> int \<Rightarrow> 's \<Rightarrow> string option \<times> kills \<times> 's" where
  "Kill W pgid s = signalProcessGroup W pgid SIGKILL s"

definition cancelProcessGroup :: "'s proc_world \<Rightarrow> int \<Rightarrow> 's \<Rightarrow> string option \<times> kills \<times> 's" where
  "cancelProcessGroup W pgid s =
     (if pgid \<le> 0 then (Some (''process group ID must be positive: '' @ show_int pgid), [], s)
      else case pw_kill W (- pgid) SIGKILL s of (err, s1) \<Rightarrow>
        ((case err of None \<Rightarrow> None | Some e \<Rightarrow> Some (if e = ESRCH then ''os: process already finished'' else errno_text e)), [(- pgid, SIGKILL)], s1))"

definition Exists :: "'s proc_world \<Rightarrow> int \<Rightarrow> 's \<Rightarrow> bool \<times> kills \<times> 's" where
  "Exists W pgid s =
     (if pgid \<le> 0 then (False, [], s)
      else case pw_kill W (- pgid) (OtherSignal 0) s of (err, s1) \<Rightarrow> (err = None \<or> err = Some EPERM, [(- pgid, OtherSignal 0)], s1))"

definition join_errors :: "string option list \<Rightarrow> string option" where
  "join_errors errs = (case List.map_filter id errs of [] \<Rightarrow> None | es \<Rightarrow> Some (join_strings es [CHR 0x0A]))"

definition ctx_error_text :: "ctx_error \<Rightarrow> string option" where
  "ctx_error_text c = (if c = CtxActive then None else Some (er_text (ctx_failure c)))"

definition wait_error_text :: "wait_error option \<Rightarrow> string option" where
  "wait_error_text w = (case w of Some (WaitError e) \<Rightarrow> Some e | _ \<Rightarrow> None)"

text \<open>\<open>has_done\<close> says whether there is a channel to wait for; a receive from a nil channel never happens.\<close>

definition terminate_group :: "'s proc_world \<Rightarrow> int \<Rightarrow> bool \<Rightarrow> 's \<Rightarrow> string option \<times> kills \<times> 's" where
  "terminate_group W pgid has_done s0 =
     (case signalProcessGroup W pgid SIGTERM s0 of (_, k1, s1) \<Rightarrow>
      case pw_wait_grace W s1 of (one, s2) \<Rightarrow>
      case Kill W pgid s2 of (killErr, k2, s3) \<Rightarrow>
      case (case one of
              GotDone w \<Rightarrow> (None, wait_error_text w, s3)
            | DoneClosed \<Rightarrow> (None, None, s3)
            | CtxDone c \<Rightarrow> (ctx_error_text c, None, s3)
            | GraceExpired \<Rightarrow>
                if \<not> has_done then (None, None, s3)
                else (case pw_wait W s3 of (got, s4) \<Rightarrow>
                  (case got of
                     GotDone w \<Rightarrow> (None, wait_error_text w, s4)
                   | CtxDone c \<Rightarrow> (ctx_error_text c, None, s4)
                   | _ \<Rightarrow> (None, None, s4)))) of
        (contextErr, waitErr, s5) \<Rightarrow> (join_errors [contextErr, killErr, waitErr], k1 @ k2, s5))"

subsection \<open>Termination reaches the group, and only the group\<close>

lemma signalProcessGroup_kills:
  "signalProcessGroup W pgid sig s = (err, k, s') \<Longrightarrow> k = (if pgid \<le> 0 then [] else [(- pgid, sig)])"
  by (auto simp: signalProcessGroup_def split: if_splits prod.splits)

text \<open>
  Terminating a process group always escalates: the group is asked to terminate and then killed, however the wait
  for it went, and nothing else is signalled. An identifier that is not positive, which the system call would take for
  the caller's own group or for every process, signals nothing and is an error.
\<close>

theorem terminate_group_escalates:
  assumes "terminate_group W pgid has_done s = (err, k, s')"
  shows "k = (if 0 < pgid then [(- pgid, SIGTERM), (- pgid, SIGKILL)] else []) \<and> (pgid \<le> 0 \<longrightarrow> err \<noteq> None)"
proof -
  obtain e1 k1 s1 where t: "signalProcessGroup W pgid SIGTERM s = (e1, k1, s1)" by (metis surj_pair)
  obtain one s2 where w: "pw_wait_grace W s1 = (one, s2)" by (metis surj_pair)
  obtain killErr k2 s3 where kl: "Kill W pgid s2 = (killErr, k2, s3)" by (metis surj_pair)
  obtain contextErr waitErr where r: "k = k1 @ k2" "err = join_errors [contextErr, killErr, waitErr]"
    using assms t w kl by (auto simp: terminate_group_def split: prod.splits)
  have "killErr \<noteq> None" if "pgid \<le> 0" using kl that by (auto simp: Kill_def signalProcessGroup_def)
  then have "pgid \<le> 0 \<longrightarrow> err \<noteq> None"
    using r(2) by (cases contextErr; cases killErr) (auto simp: join_errors_def List.map_filter_def)
  with r(1) signalProcessGroup_kills [OF t] signalProcessGroup_kills [OF kl [unfolded Kill_def]] show ?thesis by simp
qed

definition idle_procs :: "nat proc_world" where
  "idle_procs = \<lparr>pw_kill = (\<lambda>p g n. (None, n + 1)), pw_wait_grace = (\<lambda>n. (GraceExpired, n)), pw_wait = (\<lambda>n. (GotDone (Some (ExitError 137)), n))\<rparr>"

theorem terminate_group_escalates_witness:
  "terminate_group idle_procs 42 True 0 = (None, [(- 42, SIGTERM), (- 42, SIGKILL)], 2)"
proof -
  obtain err k s' where t: "terminate_group idle_procs 42 True 0 = (err, k, s')" by (metis surj_pair)
  have "err = None" "s' = 2" using t by (auto simp: idle_procs_def terminate_group_def signalProcessGroup_def Kill_def join_errors_def
      wait_error_text_def List.map_filter_def)
  with terminate_group_escalates [OF t] t show ?thesis by simp
qed

end
