(* ===== verification/Tool_Shell.thy ===== *)
theory Tool_Shell
  imports Tool_Knowledge Proc_Group Run_Factory
begin

text \<open>
  The \<^verbatim>\<open>shell\<close> tool, \<^verbatim>\<open>tools/shell.go\<close>: one command in a new process group, with an environment of its own that carries
  no credentials, whose two output streams are copied to the log and captured under one byte budget. The file system
  and the process are parameters; what the process writes is a sequence of chunks in the order in which they arrive.
\<close>

abbreviation NameShell :: string where "NameShell \<equiv> ''shell''"

definition shell_Definition :: tool_definition where
  \<open>shell_Definition = \<lparr>td_name = NameShell,
     td_description = ''Run one non-privileged shell command in an explicit working directory. Provider and Kubernetes credentials are not inherited.'',
     td_input_schema = schema_literal [''"type":"object",'',
       ''"properties":{'',
       CHR 0x09 # ''"command":{"type":"string"},'',
       CHR 0x09 # ''"working_directory":{"type":"string","description":"Absolute directory inside the runtime container"},'',
       CHR 0x09 # ''"environment":{"type":"object","additionalProperties":{"type":"string"}}'',
       ''},'',
       ''"required":["command","working_directory"],'', ''"additionalProperties":false'']\<rparr>\<close>

subsection \<open>Environment\<close>

definition contains_text :: "string \<Rightarrow> string \<Rightarrow> bool" where
  "contains_text s part \<longleftrightarrow> list_ex (\<lambda>i. has_prefix (drop i s) part) [0..<length s + 1]"

definition sensitiveEnvironmentName :: "golib \<Rightarrow> string \<Rightarrow> bool" where
  "sensitiveEnvironmentName L name \<longleftrightarrow>
     (let upper = to_upper L name in
      list_ex (has_prefix upper) [''ANTHROPIC_'', ''AWS_'', ''AZURE_'', ''GOOGLE_'', ''KONTEXT_'', ''KUBERNETES_'', ''OPENAI_''] \<or>
      list_ex (contains_text upper) [''CREDENTIAL'', ''PASSWORD'', ''SECRET'', ''TOKEN''] \<or> has_suffix upper ''_KEY'')"

text \<open>\<^verbatim>\<open>environmentNamePattern\<close> is the pattern of a template parameter.\<close>

definition environment_denied :: "golib \<Rightarrow> string \<Rightarrow> string \<Rightarrow> coded_error option" where
  "environment_denied L name v =
     (if \<not> validParameterName name then
        Some (coded ''shell_environment_denied'' (''environment variable name '' @ quote L name @ '' is invalid''))
      else if sensitiveEnvironmentName L name then
        Some (coded ''shell_environment_denied'' (''environment variable '' @ quote L name @ '' is reserved or sensitive''))
      else if CHR 0x00 \<in> set v then
        Some (coded ''shell_environment_denied'' (''environment variable '' @ quote L name @ '' contains a NUL byte''))
      else None)"

definition default_environment :: "string go_map" where
  "default_environment = [(''HOME'', ''/tmp''), (''LANG'', ''C.UTF-8''), (''PATH'', ''/bin:/usr/bin''), (''TMPDIR'', ''/tmp'')]"

fun add_environment :: "golib \<Rightarrow> string go_map \<Rightarrow> string go_map \<Rightarrow> coded_error + string go_map" where
  "add_environment L values [] = Inr values"
| "add_environment L values ((name, v) # rest) =
     (case environment_denied L name v of
        Some e \<Rightarrow> Inl e
      | None \<Rightarrow> add_environment L (map_put name v values) rest)"

definition filteredEnvironment :: "golib \<Rightarrow> string go_map \<Rightarrow> coded_error + string list" where
  "filteredEnvironment L requested =
     (case add_environment L default_environment requested of Inl e \<Rightarrow> Inl e | Inr values \<Rightarrow> Inr (Sorted values))"

subsection \<open>Output streams\<close>

datatype stream = Stdout | Stderr

record limited_buffer =
  lb_buffer :: string
  lb_truncated :: bool

definition limited_Write :: "string \<Rightarrow> limited_buffer \<Rightarrow> int \<Rightarrow> limited_buffer \<times> int" where
  "limited_Write data buffer remaining =
     (if remaining \<le> 0 then (buffer\<lparr>lb_truncated := lb_truncated buffer \<or> data \<noteq> []\<rparr>, remaining)
      else
        (let over = int (length data) > remaining; toWrite = (if over then take (nat remaining) data else data) in
         (\<lparr>lb_buffer = lb_buffer buffer @ toWrite, lb_truncated = lb_truncated buffer \<or> over\<rparr>, remaining - int (length toWrite))))"

text \<open>The captures of both streams draw on one budget.\<close>

record captured =
  ca_remaining :: int
  ca_stdout :: limited_buffer
  ca_stderr :: limited_buffer

definition new_capture :: "int \<Rightarrow> captured" where
  "new_capture maxBytes = \<lparr>ca_remaining = maxBytes, ca_stdout = \<lparr>lb_buffer = [], lb_truncated = False\<rparr>,
     ca_stderr = \<lparr>lb_buffer = [], lb_truncated = False\<rparr>\<rparr>"

fun shared_Write :: "captured \<Rightarrow> stream \<times> string \<Rightarrow> captured" where
  "shared_Write c (Stdout, data) =
     (case limited_Write data (ca_stdout c) (ca_remaining c) of (b, r) \<Rightarrow> c\<lparr>ca_stdout := b, ca_remaining := r\<rparr>)"
| "shared_Write c (Stderr, data) =
     (case limited_Write data (ca_stderr c) (ca_remaining c) of (b, r) \<Rightarrow> c\<lparr>ca_stderr := b, ca_remaining := r\<rparr>)"

record line_terminating_writer =
  lt_sink :: string
  lt_wrote :: bool
  lt_ends_newline :: bool

definition terminating_Write :: "line_terminating_writer \<Rightarrow> string \<Rightarrow> line_terminating_writer" where
  "terminating_Write w data =
     (if data \<noteq> [] then \<lparr>lt_sink = lt_sink w @ data, lt_wrote = True, lt_ends_newline = last data = CHR 0x0A\<rparr> else w)"

definition terminating_Finish :: "line_terminating_writer \<Rightarrow> line_terminating_writer" where
  "terminating_Finish w =
     (if lt_wrote w \<and> \<not> lt_ends_newline w then w\<lparr>lt_sink := lt_sink w @ [CHR 0x0A], lt_ends_newline := True\<rparr> else w)"

definition stream_text :: "stream \<Rightarrow> (stream \<times> string) list \<Rightarrow> string" where
  "stream_text st chunks = concat (map snd (filter (\<lambda>(s, _). s = st) chunks))"

definition logged :: "stream \<Rightarrow> (stream \<times> string) list \<Rightarrow> string" where
  "logged st chunks = lt_sink (terminating_Finish (foldl terminating_Write \<lparr>lt_sink = [], lt_wrote = False, lt_ends_newline = False\<rparr>
     (map snd (filter (\<lambda>(s, _). s = st) chunks))))"

subsection \<open>A call\<close>

record shell_arguments =
  sa_command :: string
  sa_working_directory :: string
  sa_environment :: "string go_map"

record shell_command =
  sc_path :: string
  sc_args :: "string list"
  sc_dir :: string
  sc_env :: "string list"

datatype run_outcome = Waited "wait_error option" | RunCancelled

record 's shell_world =
  sw_stat :: "string \<Rightarrow> 's \<Rightarrow> bool go_result \<times> 's"
  sw_start :: "shell_command \<Rightarrow> 's \<Rightarrow> int go_result \<times> 's"
  sw_await :: "int \<Rightarrow> 's \<Rightarrow> (stream \<times> string) list \<times> run_outcome \<times> 's"
  sw_ctx_err :: "'s \<Rightarrow> ctx_error \<times> 's"
  sw_proc :: "'s proc_world"

definition check_shell :: "golib \<Rightarrow> 's shell_world \<Rightarrow> shell_arguments \<Rightarrow> 's \<Rightarrow> (runtime_error + shell_command) \<times> 's" where
  "check_shell L W a s =
     (if trim_space (sa_command a) = [] \<or> CHR 0x00 \<in> set (sa_command a) then
        (Inl (tool_failure ''invalid_tool_arguments'' ''command must be a non-empty string without NUL bytes''), s)
      else if \<not> is_abs (sa_working_directory a) then
        (Inl (tool_failure ''invalid_tool_arguments'' ''working_directory must be absolute''), s)
      else
        (case sw_stat W (sa_working_directory a) s of
           (Inl e, s1) \<Rightarrow> (Inl (tool_failure ''shell_working_directory_invalid'' (''inspect working directory: '' @ e)), s1)
         | (Inr isDir, s1) \<Rightarrow>
             if \<not> isDir then
               (Inl (tool_failure ''shell_working_directory_invalid'' ''working_directory must identify a directory''), s1)
             else (case filteredEnvironment L (sa_environment a) of
                     Inl e \<Rightarrow> (Inl (coded_failure e), s1)
                   | Inr env \<Rightarrow>
                       (Inr \<lparr>sc_path = ''/bin/sh'', sc_args = [''-c'', sa_command a], sc_dir = sa_working_directory a, sc_env = env\<rparr>, s1))))"

definition shell_result :: "int \<Rightarrow> captured \<Rightarrow> tool_result" where
  "shell_result exitCode c =
     \<lparr>tlr_call_id = [], tlr_name = [],
      tlr_content = marshalled (JObj [(''exitCode'', JInt exitCode), (''stdout'', JStr (lb_buffer (ca_stdout c))),
                                      (''stderr'', JStr (lb_buffer (ca_stderr c)))]),
      tlr_is_error = exitCode \<noteq> 0, tlr_error_code = (if exitCode \<noteq> 0 then ''shell_exit_nonzero'' else []),
      tlr_truncated = lb_truncated (ca_stdout c) \<or> lb_truncated (ca_stderr c)\<rparr>"

text \<open>The second component is what was copied to the log, for each stream.\<close>

definition run_shell ::
  "'s shell_world \<Rightarrow> int \<Rightarrow> shell_command \<Rightarrow> 's \<Rightarrow> (runtime_error + tool_result) \<times> (stream \<Rightarrow> string) \<times> kills \<times> 's" where
  "run_shell W maxBytes command s =
     (case sw_start W command s of
        (Inl e, s1) \<Rightarrow> (Inl (tool_failure ''shell_start_failed'' (''start shell command: '' @ e)), (\<lambda>_. []), [], s1)
      | (Inr pid, s1) \<Rightarrow>
          (case sw_await W pid s1 of (chunks, outcome, s2) \<Rightarrow>
             (let log = (\<lambda>st. logged st chunks); c = foldl shared_Write (new_capture maxBytes) chunks in
              case outcome of
                RunCancelled \<Rightarrow>
                  (case terminate_group (sw_proc W) pid True s2 of (_, k, s3) \<Rightarrow>
                     (case sw_ctx_err W s3 of (ctx, s4) \<Rightarrow> (Inl (ctx_failure ctx), log, k, s4)))
              | Waited w \<Rightarrow>
                  (case Kill (sw_proc W) pid s2 of (_, k, s3) \<Rightarrow>
                     (case w of
                        None \<Rightarrow> (Inr (shell_result 0 c), log, k, s3)
                      | Some (ExitError code) \<Rightarrow> (Inr (shell_result code c), log, k, s3)
                      | Some (WaitError e) \<Rightarrow> (Inl (tool_failure ''shell_wait_failed'' (''wait for shell command: '' @ e)), log, k, s3))))))"

definition shell_Execute ::
  "golib \<Rightarrow> shell_arguments arguments_decoder \<Rightarrow> 's shell_world \<Rightarrow> int \<Rightarrow> string \<Rightarrow> 's \<Rightarrow>
   (runtime_error + tool_result) \<times> (stream \<Rightarrow> string) \<times> kills \<times> 's" where
  "shell_Execute L decode W maxBytes rawArguments s =
     (case decodeArguments decode rawArguments of
        Inl e \<Rightarrow> (Inl (coded_failure e), (\<lambda>_. []), [], s)
      | Inr a \<Rightarrow>
          (case check_shell L W a s of
             (Inl e, s1) \<Rightarrow> (Inl e, (\<lambda>_. []), [], s1)
           | (Inr command, s1) \<Rightarrow> run_shell W maxBytes command s1))"

subsection \<open>Whole lines in the log\<close>

lemma terminating_writes:
  "w = foldl terminating_Write \<lparr>lt_sink = [], lt_wrote = False, lt_ends_newline = False\<rparr> ds \<Longrightarrow>
     lt_sink w = concat ds \<and> lt_wrote w = (concat ds \<noteq> []) \<and> lt_ends_newline w = (concat ds \<noteq> [] \<and> last (concat ds) = CHR 0x0A)"
  by (induction ds arbitrary: w rule: rev_induct) (auto simp: terminating_Write_def)

lemma logged_lines: "logged st chunks = [] \<or> last (logged st chunks) = CHR 0x0A"
  using terminating_writes [OF refl, of "map snd (filter (\<lambda>(s, _). s = st) chunks)"]
  by (auto simp: logged_def terminating_Finish_def)

lemma shell_Execute_log:
  "shell_Execute L decode W maxBytes rawArguments s = (res, copied, k, s') \<Longrightarrow> copied st = [] \<or> last (copied st) = CHR 0x0A"
  using logged_lines
  by (auto simp: shell_Execute_def run_shell_def Let_def split: sum.splits prod.splits run_outcome.splits option.splits wait_error.splits)

subsection \<open>No credentials in the environment\<close>

definition environment_ok :: "golib \<Rightarrow> string go_map \<Rightarrow> bool" where
  "environment_ok L values \<longleftrightarrow> distinct (map fst values) \<and> (\<forall>(n, v) \<in> set values. environment_denied L n v = None)"

lemma default_environment_ok: "environment_ok L default_environment"
proof -
  have "list_all (\<lambda>(n, v). validParameterName n \<and> CHR 0x00 \<notin> set v \<and> ascii n) default_environment" by code_simp
  moreover have "list_all (\<lambda>(n, v). \<not> sensitiveEnvironmentName plain_golib n) default_environment" by code_simp
  moreover have "sensitiveEnvironmentName L n = sensitiveEnvironmentName plain_golib n" if "ascii n" for n
    using that by (simp add: sensitiveEnvironmentName_def to_upper_def)
  ultimately have "\<forall>(n, v) \<in> set default_environment. environment_denied L n v = None"
    by (fastforce simp: environment_denied_def list_all_iff)
  then show ?thesis by (simp add: environment_ok_def default_environment_def)
qed

lemma add_environment_ok:
  assumes "add_environment L values requested = Inr values'" "environment_ok L values" "go_map_ok requested"
  shows "environment_ok L values' \<and> (\<forall>(n, v) \<in> set requested. map_of values' n = Some v) \<and>
    (\<forall>n. n \<notin> fst ` set requested \<longrightarrow> map_of values' n = map_of values n)"
  using assms
proof (induction L "values" requested rule: add_environment.induct)
  case (2 L "values" name v rest)
  from 2(2) have ok: "environment_denied L name v = None" and add: "add_environment L (map_put name v values) rest = Inr values'"
    by (auto split: option.splits)
  have d: "distinct (map fst values)" "distinct (map fst (map_put name v values))"
    using 2(3) by (simp_all add: environment_ok_def map_put_def distinct_update)
  have "environment_denied L n x = None" if "(n, x) \<in> set (map_put name v values)" for n x
  proof -
    from that d(2) have "((map_of values)(name \<mapsto> v)) n = Some x" using map_of_map_put by (metis map_of_eq_Some_iff)
    with ok d(1) 2(3) show ?thesis by (cases "n = name") (auto simp: environment_ok_def map_of_eq_Some_iff)
  qed
  with d(2) have "environment_ok L (map_put name v values)" by (auto simp: environment_ok_def)
  from 2(1) [OF ok add this] 2(4) have *: "environment_ok L values'" "\<forall>(n, v) \<in> set rest. map_of values' n = Some v"
    "\<forall>n. n \<notin> fst ` set rest \<longrightarrow> map_of values' n = map_of (map_put name v values) n" by (auto simp: go_map_ok_def)
  have "name \<notin> fst ` set rest" using 2(4) by (simp add: go_map_ok_def)
  with * show ?case by auto
qed simp

lemma Sorted_entries: "distinct (map fst values) \<Longrightarrow> set (Sorted values) = (\<lambda>(n, v). n @ ''='' @ v) ` set values"
proof -
  assume d: "distinct (map fst values)"
  have "set (Sorted values) = (\<lambda>n. n @ ''='' @ (case map_of values n of None \<Rightarrow> [] | Some v \<Rightarrow> v)) ` fst ` set values"
    by (simp add: Sorted_def)
  also have "\<dots> = (\<lambda>(n, v). n @ ''='' @ v) ` set values"
    unfolding image_image by (rule image_cong) (use d in \<open>auto simp: map_of_eq_Some_iff\<close>)
  finally show ?thesis .
qed

text \<open>What a command finds in its environment: what the model asked for, or else the default.\<close>

definition variable_value :: "string go_map \<Rightarrow> string \<Rightarrow> string" where
  "variable_value requested n =
     (case map_of requested n of Some v \<Rightarrow> v | None \<Rightarrow> (case map_of default_environment n of Some v \<Rightarrow> v | None \<Rightarrow> []))"

lemma filteredEnvironment_exact:
  assumes "filteredEnvironment L requested = Inr env" "go_map_ok requested"
  shows "env = map (\<lambda>n. n @ ''='' @ variable_value requested n)
    (sorted_list_of_set (fst ` set requested \<union> {''HOME'', ''LANG'', ''PATH'', ''TMPDIR''}))"
proof -
  obtain vals where v: "add_environment L default_environment requested = Inr vals" "env = Sorted vals"
    using assms(1) by (auto simp: filteredEnvironment_def split: sum.splits)
  note ok = add_environment_ok [OF v(1) default_environment_ok assms(2)]
  have names: "fst ` set default_environment = {''HOME'', ''LANG'', ''PATH'', ''TMPDIR''}" by (simp add: default_environment_def)
  have val: "map_of vals n = (case map_of requested n of Some v \<Rightarrow> Some v | None \<Rightarrow> map_of default_environment n)" for n
  proof (cases "map_of requested n")
    case None
    with ok have "map_of vals n = map_of default_environment n" by (simp add: map_of_eq_None_iff)
    with None show ?thesis by simp
  next
    case (Some v)
    from map_of_SomeD [OF this] ok have "map_of vals n = Some v" by blast
    with Some show ?thesis by simp
  qed
  have "n \<in> set (map fst vals) \<longleftrightarrow> n \<in> fst ` set requested \<union> fst ` set default_environment" for n
    using val [of n] map_of_eq_None_iff [of vals n] map_of_eq_None_iff [of requested n] map_of_eq_None_iff [of default_environment n]
    by (auto split: option.splits)
  then have dom: "set (map fst vals) = fst ` set requested \<union> {''HOME'', ''LANG'', ''PATH'', ''TMPDIR''}" unfolding names [symmetric] by blast
  from ok have "distinct (map fst vals)" by (simp add: environment_ok_def)
  then have "sort (map fst vals) = sorted_list_of_set (set (map fst vals))"
    by (simp only: sorted_list_of_set_sort_remdups distinct_remdups_id)
  then show ?thesis unfolding v(2) Sorted_def dom by (auto simp: variable_value_def val split: option.split)
qed

text \<open>
  C36. A command of the \<^verbatim>\<open>shell\<close> tool runs with an environment of its own: the command started is \<^verbatim>\<open>/bin/sh\<close> in an
  absolute directory, and its environment is exactly the four defaults and the variables the model asked for, which
  take precedence, sorted by name, each once. No name in it is reserved or looks like a credential, all are valid, and no
  value has a NUL byte.
\<close>

theorem shell_environment_without_credentials:
  assumes "check_shell L W a s = (Inr command, s')" "go_map_ok (sa_environment a)"
  shows "sc_path command = ''/bin/sh'' \<and> sc_args command = [''-c'', sa_command a] \<and> is_abs (sc_dir command) \<and>
    sc_env command = map (\<lambda>n. n @ ''='' @ variable_value (sa_environment a) n)
      (sorted_list_of_set (fst ` set (sa_environment a) \<union> {''HOME'', ''LANG'', ''PATH'', ''TMPDIR''})) \<and>
    (\<forall>e \<in> set (sc_env command). \<exists>n v. e = n @ ''='' @ v \<and> validParameterName n \<and> \<not> sensitiveEnvironmentName L n \<and> CHR 0x00 \<notin> set v) \<and>
    (\<forall>(n, v) \<in> set (sa_environment a). n @ ''='' @ v \<in> set (sc_env command))"
proof -
  obtain env where c: "command = \<lparr>sc_path = ''/bin/sh'', sc_args = [''-c'', sa_command a], sc_dir = sa_working_directory a, sc_env = env\<rparr>"
    and env: "filteredEnvironment L (sa_environment a) = Inr env" and dir: "is_abs (sa_working_directory a)"
    using assms(1) by (auto simp: check_shell_def split: if_splits prod.splits sum.splits)
  then obtain vals where v: "add_environment L default_environment (sa_environment a) = Inr vals" "env = Sorted vals"
    by (auto simp: filteredEnvironment_def split: sum.splits)
  note ok = add_environment_ok [OF v(1) default_environment_ok assms(2)]
  then have env_set: "set env = (\<lambda>(n, v). n @ ''='' @ v) ` set vals" using Sorted_entries v(2) by (simp add: environment_ok_def)
  have "validParameterName n \<and> \<not> sensitiveEnvironmentName L n \<and> CHR 0x00 \<notin> set x" if "(n, x) \<in> set vals" for n x
    using ok that by (fastforce simp: environment_ok_def environment_denied_def split: if_splits)
  then have "\<forall>e \<in> set env. \<exists>n x. e = n @ ''='' @ x \<and> validParameterName n \<and> \<not> sensitiveEnvironmentName L n \<and> CHR 0x00 \<notin> set x"
    unfolding env_set by fastforce
  moreover have "\<forall>(n, x) \<in> set (sa_environment a). n @ ''='' @ x \<in> set env"
    using ok unfolding env_set by (force dest: map_of_SomeD)
  ultimately show ?thesis using c dir filteredEnvironment_exact [OF env assms(2)] by simp
qed

subsection \<open>One budget for both streams\<close>

definition captures :: "int \<Rightarrow> (stream \<times> string) list \<Rightarrow> captured \<Rightarrow> bool" where
  "captures maxBytes chunks c \<longleftrightarrow>
     (let all = stream_text Stdout chunks @ stream_text Stderr chunks in
      int (length (lb_buffer (ca_stdout c)) + length (lb_buffer (ca_stderr c))) = min (int (length all)) maxBytes \<and>
      ca_remaining c = maxBytes - min (int (length all)) maxBytes \<and>
      (\<exists>lost. stream_text Stdout chunks = lb_buffer (ca_stdout c) @ lost \<and> (lb_truncated (ca_stdout c) \<longleftrightarrow> lost \<noteq> [])) \<and>
      (\<exists>lost. stream_text Stderr chunks = lb_buffer (ca_stderr c) @ lost \<and> (lb_truncated (ca_stderr c) \<longleftrightarrow> lost \<noteq> [])))"

lemma stream_text_snoc: "stream_text st (chunks @ [(st', data)]) = stream_text st chunks @ (if st' = st then data else [])"
  by (simp add: stream_text_def)

lemma capturesI:
  assumes "int (length (lb_buffer (ca_stdout c)) + length (lb_buffer (ca_stderr c))) =
      min (int (length (stream_text Stdout chunks @ stream_text Stderr chunks))) maxBytes"
    and "ca_remaining c = maxBytes - min (int (length (stream_text Stdout chunks @ stream_text Stderr chunks))) maxBytes"
    and "\<exists>lost. stream_text Stdout chunks = lb_buffer (ca_stdout c) @ lost \<and> (lb_truncated (ca_stdout c) \<longleftrightarrow> lost \<noteq> [])"
    and "\<exists>lost. stream_text Stderr chunks = lb_buffer (ca_stderr c) @ lost \<and> (lb_truncated (ca_stderr c) \<longleftrightarrow> lost \<noteq> [])"
  shows "captures maxBytes chunks c"
  unfolding captures_def Let_def by (intro conjI assms)

lemma limited_Write_step:
  assumes "limited_Write data b r = (b', r')" "0 \<le> r" "text = lb_buffer b @ lost" "lb_truncated b \<longleftrightarrow> lost \<noteq> []" "0 < r \<Longrightarrow> lost = []"
  shows "r' = r - min r (int (length data)) \<and> int (length (lb_buffer b')) = int (length (lb_buffer b)) + min r (int (length data)) \<and>
    (\<exists>lost'. text @ data = lb_buffer b' @ lost' \<and> (lb_truncated b' \<longleftrightarrow> lost' \<noteq> []))"
proof (cases "r = 0")
  case True
  with assms show ?thesis by (auto simp: limited_Write_def)
next
  case False
  let ?w = "if int (length data) > r then take (nat r) data else data"
  have "b' = \<lparr>lb_buffer = lb_buffer b @ ?w, lb_truncated = int (length data) > r\<rparr>" "r' = r - int (length ?w)"
    using assms False by (auto simp: limited_Write_def Let_def)
  moreover have "data = ?w @ drop (nat r) data" "int (length ?w) = min r (int (length data))" using assms(2) by auto
  ultimately show ?thesis using assms False by (auto intro!: exI [of _ "drop (nat r) data"])
qed

lemma capture_one:
  assumes "limited_Write data b r = (b', r')" "int (length (lb_buffer b)) + others = min total' maxBytes" "r = maxBytes - min total' maxBytes"
    and "0 < r \<Longrightarrow> lost = []" "text = lb_buffer b @ lost" "lb_truncated b \<longleftrightarrow> lost \<noteq> []"
  shows "int (length (lb_buffer b')) + others = min (total' + int (length data)) maxBytes"
    "r' = maxBytes - min (total' + int (length data)) maxBytes"
    "\<exists>lost'. text @ data = lb_buffer b' @ lost' \<and> (lb_truncated b' \<longleftrightarrow> lost' \<noteq> [])"
proof -
  have "0 \<le> r" using assms(3) by simp
  note w = limited_Write_step [OF assms(1) this assms(5,6,4)]
  show "int (length (lb_buffer b')) + others = min (total' + int (length data)) maxBytes"
    "r' = maxBytes - min (total' + int (length data)) maxBytes" using w assms(2,3) by linarith+
  show "\<exists>lost'. text @ data = lb_buffer b' @ lost' \<and> (lb_truncated b' \<longleftrightarrow> lost' \<noteq> [])" using w by blast
qed

text \<open>
  C37. Output is captured exactly up to the limit: in whatever order the chunks of both streams arrive, the two captures
  together hold as many bytes as were written, or as the limit allows; each is the beginning of its stream, and is
  marked truncated if and only if something of that stream is missing.
\<close>

theorem shell_capture_exact:
  assumes "0 \<le> maxBytes"
  shows "captures maxBytes chunks (foldl shared_Write (new_capture maxBytes) chunks)"
proof (induction chunks rule: rev_induct)
  case Nil
  with assms show ?case by (simp add: captures_def new_capture_def stream_text_def)
next
  case (snoc x chunks)
  let ?c = "foldl shared_Write (new_capture maxBytes) chunks"
  let ?o = "stream_text Stdout chunks" and ?e = "stream_text Stderr chunks"
  obtain st data where x: "x = (st, data)" by (cases x)
  from snoc obtain lo le where c: "int (length (lb_buffer (ca_stdout ?c)) + length (lb_buffer (ca_stderr ?c))) = min (int (length (?o @ ?e))) maxBytes"
      "ca_remaining ?c = maxBytes - min (int (length (?o @ ?e))) maxBytes"
      "?o = lb_buffer (ca_stdout ?c) @ lo" "lb_truncated (ca_stdout ?c) \<longleftrightarrow> lo \<noteq> []"
      "?e = lb_buffer (ca_stderr ?c) @ le" "lb_truncated (ca_stderr ?c) \<longleftrightarrow> le \<noteq> []"
    unfolding captures_def Let_def by blast
  have "length lo + length le = 0" if "0 < ca_remaining ?c"
    using that c(1,2) assms unfolding c(3,5) length_append by linarith
  then have none: "0 < ca_remaining ?c \<Longrightarrow> lo = []" "0 < ca_remaining ?c \<Longrightarrow> le = []" by simp_all
  show ?case
  proof (cases st)
    case Stdout
    obtain b' r' where w: "limited_Write data (ca_stdout ?c) (ca_remaining ?c) = (b', r')" by fastforce
    note one = capture_one [OF w c(1) [unfolded of_nat_add] c(2) none(1) c(3,4)]
    show ?thesis by (rule capturesI) (use one c(5,6) w x Stdout in \<open>simp_all add: stream_text_snoc add_ac\<close>)
  next
    case Stderr
    obtain b' r' where w: "limited_Write data (ca_stderr ?c) (ca_remaining ?c) = (b', r')" by fastforce
    note one = capture_one [OF w c(1) [unfolded of_nat_add add.commute [of "int (length (lb_buffer (ca_stdout ?c)))"]] c(2) none(2) c(5,6)]
    show ?thesis by (rule capturesI) (use one c(3,4) w x Stderr in \<open>simp_all add: stream_text_snoc add_ac\<close>)
  qed
qed

theorem shell_capture_exact_witness:
  "foldl shared_Write (new_capture 4) [(Stdout, ''ab''), (Stderr, ''cde''), (Stdout, ''f'')] =
     \<lparr>ca_remaining = 0, ca_stdout = \<lparr>lb_buffer = ''ab'', lb_truncated = True\<rparr>, ca_stderr = \<lparr>lb_buffer = ''cd'', lb_truncated = True\<rparr>\<rparr> \<and>
   captures 4 [(Stdout, ''ab''), (Stderr, ''cde''), (Stdout, ''f'')]
     \<lparr>ca_remaining = 0, ca_stdout = \<lparr>lb_buffer = ''ab'', lb_truncated = True\<rparr>, ca_stderr = \<lparr>lb_buffer = ''cd'', lb_truncated = True\<rparr>\<rparr>"
proof -
  let ?ch = "[(Stdout, ''ab''), (Stderr, ''cde''), (Stdout, ''f'')]"
  have "foldl shared_Write (new_capture 4) ?ch =
     \<lparr>ca_remaining = 0, ca_stdout = \<lparr>lb_buffer = ''ab'', lb_truncated = True\<rparr>, ca_stderr = \<lparr>lb_buffer = ''cd'', lb_truncated = True\<rparr>\<rparr>"
    by code_simp
  with shell_capture_exact [of 4 ?ch] show ?thesis by simp
qed

definition tmp_world :: "unit shell_world" where
  "tmp_world = \<lparr>sw_stat = (\<lambda>d s. (Inr True, s)), sw_start = (\<lambda>c s. (Inr 7, s)), sw_await = (\<lambda>p s. ([], Waited None, s)),
     sw_ctx_err = (\<lambda>s. (CtxActive, s)),
     sw_proc = \<lparr>pw_kill = (\<lambda>p g s. (None, s)), pw_wait_grace = (\<lambda>s. (DoneClosed, s)), pw_wait = (\<lambda>s. (DoneClosed, s))\<rparr>\<rparr>"

theorem shell_environment_without_credentials_witness:
  "\<exists>command. check_shell plain_golib tmp_world \<lparr>sa_command = ''ls'', sa_working_directory = ''/tmp'', sa_environment = [(''A'', ''b'')]\<rparr> () = (Inr command, ()) \<and>
     sc_env command = [''A=b'', ''HOME=/tmp'', ''LANG=C.UTF-8'', ''PATH=/bin:/usr/bin'', ''TMPDIR=/tmp'']"
proof -
  let ?a = "\<lparr>sa_command = ''ls'', sa_working_directory = ''/tmp'', sa_environment = [(''A'', ''b'')]\<rparr>"
  have "isl (fst (check_shell plain_golib tmp_world ?a ())) = False" by code_simp
  then obtain command where c: "check_shell plain_golib tmp_world ?a () = (Inr command, ())"
    by (cases "check_shell plain_golib tmp_world ?a ()"; cases "fst (check_shell plain_golib tmp_world ?a ())") auto
  have "sorted_list_of_set (fst ` set [(''A'', ''b'')] \<union> {''HOME'', ''LANG'', ''PATH'', ''TMPDIR''}) = [''A'', ''HOME'', ''LANG'', ''PATH'', ''TMPDIR'']"
    by (simp add: sorted_list_of_set_insert_remove)
  with shell_environment_without_credentials [OF c] c show ?thesis
    by (auto simp: go_map_ok_def variable_value_def default_environment_def)
qed

end
