(* ===== verification/Mcp_Redact.thy ===== *)
theory Mcp_Redact
  imports Runtime_Api Tool_Output Go_Sort
begin

text \<open>
  What an MCP server may show the model and the log, \<^verbatim>\<open>mcpclient/redact.go\<close> and \<^verbatim>\<open>mcpclient/result.go\<close>: resolved
  secrets are replaced in every text, tool results are normalised and bounded, and standard error is forwarded line by
  line. Decoding of structured content is a parameter; an object is the list of its members in the order
  \<^verbatim>\<open>json.Marshal\<close> writes a map.
\<close>

abbreviation maxExternalErrorBytes :: int where "maxExternalErrorBytes \<equiv> 4096"
abbreviation maxStderrLineBytes :: int where "maxStderrLineBytes \<equiv> 65536"
abbreviation maxCapturedBytes :: int where "maxCapturedBytes \<equiv> 8388608"

subsection \<open>Searching and replacing\<close>

text \<open>\<^verbatim>\<open>strings.Contains\<close>\<close>

fun contains :: "string \<Rightarrow> string \<Rightarrow> bool" where
  "contains [] sub \<longleftrightarrow> sub = []"
| "contains (c # cs) sub \<longleftrightarrow> has_prefix (c # cs) sub \<or> contains cs sub"

text \<open>\<^verbatim>\<open>strings.ReplaceAll\<close> for a search text that is not empty.\<close>

function replace_all :: "string \<Rightarrow> string \<Rightarrow> string \<Rightarrow> string" where
  "replace_all old new s =
     (if s = [] then []
      else if old \<noteq> [] \<and> has_prefix s old then new @ replace_all old new (drop (length old) s)
      else hd s # replace_all old new (tl s))"
  by pat_completeness auto
termination by (relation "measure (\<lambda>(_, _, s). length s)") auto

declare replace_all.simps [simp del]

subsection \<open>The redactor\<close>

abbreviation marker :: string where "marker \<equiv> ''[REDACTED]''"

type_synonym redactor = "string list"

definition sensitive_forms :: "string \<Rightarrow> string list" where
  "sensitive_forms v =
     (if v = [] then []
      else let escaped = trim_char (CHR 0x22) (json_string v) in if escaped \<noteq> v then [v, escaped] else [v])"

definition longer :: "string \<Rightarrow> string \<Rightarrow> bool" where
  "longer a b \<longleftrightarrow> length a > length b"

definition newRedactor :: "string list \<Rightarrow> redactor" where
  "newRedactor values = sort_Slice longer (concat (map sensitive_forms (sort_Slice longer values)))"

definition redactor_replace :: "redactor \<Rightarrow> string \<Rightarrow> string" where
  "redactor_replace R v = fold (\<lambda>sensitive v. replace_all sensitive marker v) R v"

definition redactor_clean :: "redactor \<Rightarrow> string \<Rightarrow> string" where
  "redactor_clean R v = TruncateUTF8 (redactor_replace R v) maxExternalErrorBytes"

definition containsSensitive :: "redactor \<Rightarrow> string \<Rightarrow> bool" where
  "containsSensitive R v \<longleftrightarrow> (\<exists>sensitive \<in> set R. contains v sensitive)"

fun redactStructuredValue :: "redactor \<Rightarrow> json \<Rightarrow> json" where
  "redactStructuredValue R (JStr s) = JStr (redactor_replace R s)"
| "redactStructuredValue R (JList xs) = JList (map (redactStructuredValue R) xs)"
| "redactStructuredValue R (JObj ms) = JObj (map (\<lambda>(k, v). (k, redactStructuredValue R v)) ms)"
| "redactStructuredValue R v = v"

definition safeError :: "redactor \<Rightarrow> string \<Rightarrow> string \<Rightarrow> string option \<Rightarrow> coded_error" where
  "safeError R code lead err =
     coded code (redactor_clean R (lead @ (case err of None \<Rightarrow> [] | Some e \<Rightarrow> '': '' @ e)))"

subsection \<open>Standard error\<close>

record line_writer =
  lw_sink :: string
  lw_redactor :: redactor
  lw_buffer :: string
  lw_discarding :: bool

definition newRedactingLineWriter :: "redactor \<Rightarrow> line_writer" where
  "newRedactingLineWriter R = \<lparr>lw_sink = [], lw_redactor = R, lw_buffer = [], lw_discarding = False\<rparr>"

definition omitted_line :: string where
  "omitted_line = ''MCP stderr line omitted: too long'' @ [CHR 0x0A]"

definition write_part :: "line_writer \<Rightarrow> string \<Rightarrow> bool \<Rightarrow> line_writer" where
  "write_part w part ended =
     (if lw_discarding w then (if ended then w\<lparr>lw_discarding := False\<rparr> else w)
      else if int (length (lw_buffer w)) + int (length part) > maxStderrLineBytes then
        w\<lparr>lw_buffer := [], lw_discarding := \<not> ended, lw_sink := lw_sink w @ omitted_line\<rparr>
      else
        (let w1 = w\<lparr>lw_buffer := lw_buffer w @ part\<rparr> in
         if ended then w1\<lparr>lw_sink := lw_sink w1 @ redactor_clean (lw_redactor w1) (lw_buffer w1), lw_buffer := []\<rparr>
         else w1))"

function line_writer_Write :: "line_writer \<Rightarrow> string \<Rightarrow> line_writer" where
  "line_writer_Write w data =
     (if data = [] then w
      else if CHR 0x0A \<notin> set data then write_part w data False
      else
        (let line = takeWhile (\<lambda>c. c \<noteq> CHR 0x0A) data
         in line_writer_Write (write_part w (line @ [CHR 0x0A]) True) (drop (length line + 1) data)))"
  by pat_completeness auto
termination by (relation "measure (\<lambda>(_, data). length data)") auto

declare line_writer_Write.simps [simp del]

subsection \<open>Tool results\<close>

record mcp_response =
  mr_structured :: "string go_result option"
  mr_content :: "string option list"
  mr_is_error :: bool

definition mcp_invalid :: "string \<Rightarrow> coded_error" where
  "mcp_invalid message = coded ''mcp_invalid_response'' message"

definition normalizeResult ::
  "(string \<Rightarrow> (string \<times> json) list option) \<Rightarrow> mcp_response option \<Rightarrow> redactor \<Rightarrow> coded_error + string \<times> bool" where
  "normalizeResult decode_object response R =
     (case response of
        None \<Rightarrow> Inl (mcp_invalid ''MCP server returned an empty tool response'')
      | Some r \<Rightarrow>
          (case mr_structured r of
             Some (Inl _) \<Rightarrow> Inl (mcp_invalid ''MCP structured content could not be encoded'')
           | Some (Inr encoded) \<Rightarrow>
               (case decode_object encoded of
                  None \<Rightarrow> Inl (mcp_invalid ''MCP structured content must be a JSON object'')
                | Some members \<Rightarrow>
                    (case print_json Inr (redactStructuredValue R (JObj members)) of
                       Inl _ \<Rightarrow> Inl (mcp_invalid ''MCP structured content could not be normalized'')
                     | Inr text \<Rightarrow> Inr (Bound text maxCapturedBytes)))
           | None \<Rightarrow>
               if None \<in> set (mr_content r) then
                 Inl (coded ''mcp_unsupported_content'' ''MCP tool returned unsupported non-text content'')
               else Inr (Bound (join_strings (map (redactor_replace R \<circ> the) (mr_content r)) [CHR 0x0A]) maxCapturedBytes)))"

subsection \<open>No secret survives\<close>

text \<open>
  A secret that cannot be part of the marker: it has no bracket and does not occur in the word between them. Then a
  replacement never creates a new occurrence.
\<close>

definition hideable :: "string \<Rightarrow> bool" where
  "hideable f \<longleftrightarrow> f \<noteq> [] \<and> CHR ''['' \<notin> set f \<and> CHR '']'' \<notin> set f \<and> \<not> contains ''REDACTED'' f"

lemma has_prefix_empty [simp]: "has_prefix [] f \<longleftrightarrow> f = []"
  by (auto simp: has_prefix_def)

lemma contains_Nil [simp]: "contains s []"
  by (cases s) (simp_all add: has_prefix_def)

lemma contains_prefix: "has_prefix s f \<Longrightarrow> contains s f"
  by (cases s) simp_all

lemma contains_drop: "contains (drop n s) f \<Longrightarrow> contains s f"
proof (induction n arbitrary: s)
  case (Suc n)
  then show ?case by (cases s) auto
qed simp

lemma prefix_stops: "x \<notin> set f \<Longrightarrow> has_prefix (w @ x # t) f \<Longrightarrow> has_prefix w f"
proof (induction f arbitrary: w)
  case (Cons c f)
  then show ?case by (cases w) auto
qed simp

text \<open>An occurrence without the character \<open>x\<close> lies before it or after it.\<close>

lemma contains_split: "x \<notin> set f \<Longrightarrow> contains (w @ x # t) f \<Longrightarrow> contains w f \<or> contains t f"
proof (induction w)
  case Nil
  then show ?case using prefix_stops [of x f "[]" t] by auto
next
  case (Cons c w)
  then show ?case using prefix_stops [of x f "c # w" t] by auto
qed

lemma marker_hides:
  assumes "hideable f" "contains (marker @ t) f"
  shows "contains t f"
proof -
  from assms have "contains (''REDACTED'' @ CHR '']'' # t) f"
    using contains_split [of "CHR ''[''" f "[]" "''REDACTED'' @ CHR '']'' # t"] by (simp add: hideable_def)
  with assms(1) show ?thesis using contains_split [of "CHR '']''" f "''REDACTED''" t] by (simp add: hideable_def)
qed

lemma replace_all_cases:
  "replace_all old new [] = []"
  "old \<noteq> [] \<Longrightarrow> has_prefix (c # s) old \<Longrightarrow> replace_all old new (c # s) = new @ replace_all old new (drop (length old) (c # s))"
  "\<not> (old \<noteq> [] \<and> has_prefix (c # s) old) \<Longrightarrow> replace_all old new (c # s) = c # replace_all old new s"
  using replace_all.simps [of old new "[]"] replace_all.simps [of old new "c # s"] by auto

lemma replace_all_prefix:
  "CHR ''['' \<notin> set f \<Longrightarrow> has_prefix (replace_all old marker s) f \<Longrightarrow> has_prefix s f"
proof (induction f arbitrary: s)
  case (Cons c f)
  then obtain d t where s: "s = d # t" by (cases s) (simp_all add: replace_all_cases)
  with Cons.prems have "\<not> (old \<noteq> [] \<and> has_prefix (d # t) old)" by (auto simp: replace_all_cases)
  with Cons s show ?case by (simp add: replace_all_cases)
qed simp

lemma replace_all_hides:
  "hideable f \<Longrightarrow> contains (replace_all old marker s) f \<Longrightarrow> contains s f \<and> f \<noteq> old"
proof (induction old marker s rule: replace_all.induct)
  case (1 old s)
  consider "s = []" | (found) "s \<noteq> []" "old \<noteq> []" "has_prefix s old" | (skip) "s \<noteq> []" "\<not> (old \<noteq> [] \<and> has_prefix s old)" by blast
  then show ?case
  proof cases
    case 1
    then have "replace_all old marker s = []" by (simp add: replace_all_cases)
    with \<open>hideable f\<close> \<open>contains (replace_all old marker s) f\<close> show ?thesis by (simp add: hideable_def)
  next
    case found
    with 1(4) have "contains (marker @ replace_all old marker (drop (length old) s)) f" by (simp add: replace_all.simps [of old marker s])
    with marker_hides [OF 1(3)] have "contains (replace_all old marker (drop (length old) s)) f" .
    with 1(1) found 1(3) show ?thesis using contains_drop by blast
  next
    case skip
    then have eq: "replace_all old marker s = hd s # replace_all old marker (tl s)" by (subst replace_all.simps) auto
    show ?thesis
    proof (cases "has_prefix (replace_all old marker s) f")
      case True
      then have "has_prefix s f" using 1(3) replace_all_prefix unfolding hideable_def by blast
      with skip 1(3) show ?thesis by (auto simp: contains_prefix hideable_def)
    next
      case False
      with 1(4) have "contains (replace_all old marker (tl s)) f" unfolding eq by simp
      with 1(2) skip 1(3) have "contains (tl s) f" "f \<noteq> old" by blast+
      then show ?thesis using contains_drop [of 1 s f] by (simp add: drop_Suc)
    qed
  qed
qed

lemma redactor_replace_hides:
  "hideable f \<Longrightarrow> contains (redactor_replace R v) f \<Longrightarrow> contains v f \<and> f \<notin> set R"
  unfolding redactor_replace_def
proof (induction R arbitrary: v)
  case (Cons g R)
  then have "contains (replace_all g marker v) f" "f \<notin> set R" by simp_all
  with replace_all_hides [OF Cons.prems(1)] show ?case by auto
qed simp

lemma contains_has_prefix: "has_prefix s p \<Longrightarrow> contains p f \<Longrightarrow> contains s f"
proof (induction p arbitrary: s)
  case Nil
  then show ?case by simp
next
  case (Cons c p)
  then obtain t where s: "s = c # t" "has_prefix t p" by (cases s) auto
  show ?case
  proof (cases "has_prefix (c # p) f")
    case True
    with Cons.prems(1) have "has_prefix s f" by (metis append.assoc has_prefix_conv)
    then show ?thesis by (rule contains_prefix)
  next
    case False
    with Cons s show ?thesis by simp
  qed
qed

lemma redactor_forms:
  "set (newRedactor values) = (\<Union>v \<in> set values. set (sensitive_forms v))"
  by (simp add: newRedactor_def)

lemma has_prefix_lengths: "has_prefix s f \<Longrightarrow> length f \<le> length s" "has_prefix s f \<Longrightarrow> length s \<le> length f \<Longrightarrow> s = f"
  by (auto simp: has_prefix_conv)

text \<open>
  Replacing does not reach over a character that the search text does not have, so a text can be cut there.
\<close>

lemma replace_all_cut:
  assumes "x \<notin> set old"
  shows "replace_all old new (w @ x # t) = replace_all old new w @ x # replace_all old new t"
proof (induction "length w" arbitrary: w rule: less_induct)
  case less
  show ?case
  proof (cases w)
    case Nil
    have "\<not> (old \<noteq> [] \<and> has_prefix (x # t) old)" using prefix_stops [OF assms, of "[]" t] by auto
    then show ?thesis using Nil by (simp add: replace_all_cases)
  next
    case (Cons c w')
    show ?thesis
    proof (cases "old \<noteq> [] \<and> has_prefix (c # w' @ x # t) old")
      case True
      with prefix_stops [OF assms, of "c # w'" t] have p: "old \<noteq> []" "has_prefix (c # w') old" by simp_all
      then have len: "length old \<le> length (c # w')" by (blast intro: has_prefix_lengths)
      then have "drop (length old) ((c # w') @ x # t) = drop (length old) (c # w') @ x # t" by (simp only: drop_append) simp
      with True p less [of "drop (length old) (c # w')"] Cons show ?thesis by (simp add: replace_all_cases)
    next
      case False
      then have "\<not> (old \<noteq> [] \<and> has_prefix (c # w') old)" unfolding has_prefix_conv by (metis append.assoc append_Cons)
      with False less [of w'] Cons show ?thesis by (simp add: replace_all_cases)
    qed
  qed
qed

lemma redactor_replace_cut:
  assumes "\<forall>f \<in> set R. x \<notin> set f"
  shows "redactor_replace R (w @ x # t) = redactor_replace R w @ x # redactor_replace R t"
  using assms unfolding redactor_replace_def by (induction R arbitrary: w t) (simp_all add: replace_all_cut)

lemma contains_length: "contains s f \<Longrightarrow> length f \<le> length s"
proof (induction s)
  case (Cons c s)
  then show ?case using has_prefix_lengths(1) [of "c # s" f] by auto
qed simp

lemma contains_same_length: "contains s f \<Longrightarrow> length s \<le> length f \<Longrightarrow> s = f"
proof (induction s)
  case (Cons c s)
  then show ?case using contains_length [of s f] has_prefix_lengths(2) [of "c # s" f] by auto
qed simp

lemma replace_all_absent: "\<not> contains s old \<Longrightarrow> replace_all old new s = s"
  by (induction s) (auto simp: replace_all_cases)

lemma replace_all_self: "f \<noteq> [] \<Longrightarrow> replace_all f new f = new"
  by (subst replace_all.simps) (simp add: has_prefix_conv replace_all_cases)

lemma hideable_not_marker: "hideable f \<Longrightarrow> \<not> contains marker f"
  using marker_hides [of f "[]"] by (auto simp: hideable_def)

lemma redactor_replace_marker: "\<forall>f \<in> set R. hideable f \<Longrightarrow> redactor_replace R marker = marker"
  unfolding redactor_replace_def using hideable_not_marker by (induction R) (simp_all add: replace_all_absent)

text \<open>Longer forms are replaced first, so a secret is replaced as a whole before any part of it is.\<close>

lemma redactor_replace_secret:
  assumes "f \<in> set R" "\<forall>g \<in> set R. hideable g" "sorted_wrt (\<lambda>a b. length b \<le> length a) R"
  shows "redactor_replace R f = marker"
  using assms
proof (induction R)
  case (Cons g R)
  show ?case
  proof (cases "g = f")
    case True
    then have "redactor_replace (g # R) f = redactor_replace R marker"
      using Cons.prems(2) by (simp add: redactor_replace_def replace_all_self hideable_def)
    then show ?thesis using redactor_replace_marker Cons.prems(2) by simp
  next
    case False
    then have "f \<in> set R" "length f \<le> length g" using Cons.prems by auto
    then have "\<not> contains f g" using contains_same_length [of f g] False by blast
    then have "redactor_replace (g # R) f = redactor_replace R f" by (simp add: redactor_replace_def replace_all_absent)
    then show ?thesis using Cons False by simp
  qed
qed simp

interpretation longest_first: slice_order longer
  by unfold_locales (auto simp: longer_def)

text \<open>
  C32. What redaction hides. A secret form (a configured value or its JSON escape) is hideable when it has no bracket and is
  not part of the word of the marker. A hideable form occurs neither in a redacted text nor in a cleaned one, whatever the
  text was and however the other secrets overlap with it. When all forms are hideable, a form that stands in a text
  between two characters that occur in no form is replaced by the marker as a whole, so that nothing of it remains, even if
  shorter secrets are part of it. A cleaned text is a prefix of the redacted text of at most 4096 bytes.
\<close>

theorem redaction_hides_secrets:
  assumes "v \<in> set values" "f \<in> set (sensitive_forms v)" "hideable f"
  shows "\<not> contains (redactor_replace (newRedactor values) text) f \<and>
    \<not> contains (redactor_clean (newRedactor values) text) f \<and> length (redactor_clean (newRedactor values) text) \<le> 4096 \<and>
    has_prefix (redactor_replace (newRedactor values) text) (redactor_clean (newRedactor values) text) \<and>
    ((\<forall>g \<in> set (newRedactor values). hideable g \<and> x \<notin> set g \<and> y \<notin> set g) \<longrightarrow>
       redactor_replace (newRedactor values) (w @ [x] @ f @ [y] @ t) =
         redactor_replace (newRedactor values) w @ [x] @ marker @ [y] @ redactor_replace (newRedactor values) t)"
proof -
  let ?R = "newRedactor values"
  have f: "f \<in> set ?R" using assms(1,2) by (auto simp: redactor_forms)
  with redactor_replace_hides [OF assms(3)] have "\<not> contains (redactor_replace ?R text) f" by blast
  moreover have "has_prefix (redactor_replace ?R text) (redactor_clean ?R text)"
    using TruncateUTF8_prefix [of "redactor_replace ?R text" maxExternalErrorBytes]
    unfolding redactor_clean_def has_prefix_conv prefix_def by blast
  moreover have "length (redactor_clean ?R text) \<le> 4096"
    using TruncateUTF8_length [of "redactor_replace ?R text" maxExternalErrorBytes] by (simp add: redactor_clean_def)
  moreover have "redactor_replace ?R (w @ [x] @ f @ [y] @ t) = redactor_replace ?R w @ [x] @ marker @ [y] @ redactor_replace ?R t"
    if "\<forall>g \<in> set ?R. hideable g \<and> x \<notin> set g \<and> y \<notin> set g"
  proof -
    have "sorted_wrt (\<lambda>a b. length b \<le> length a) ?R"
      using longest_first.sort_Slice_sorted by (simp add: newRedactor_def longer_def not_less)
    with f that have "redactor_replace ?R f = marker" by (intro redactor_replace_secret) auto
    then show ?thesis using that redactor_replace_cut [of ?R x w "f @ y # t"] redactor_replace_cut [of ?R y f t] by simp
  qed
  ultimately show ?thesis using contains_has_prefix by blast
qed

theorem redaction_hides_secrets_witness:
  "hideable ''s3cret'' \<and> \<not> contains (redactor_replace (newRedactor [''s3'', ''s3cret'']) ''token=s3cret s3'') ''s3cret'' \<and>
   redactor_replace (newRedactor [''s3'', ''s3cret'']) ''token=s3cret s3'' =
     redactor_replace (newRedactor [''s3'', ''s3cret'']) ''token'' @ [CHR ''=''] @ marker @ [CHR '' ''] @
       redactor_replace (newRedactor [''s3'', ''s3cret'']) ''s3''"
proof -
  let ?R = "newRedactor [''s3'', ''s3cret'']"
  have h: "hideable ''s3cret''" by code_simp
  have g: "\<forall>g \<in> set ?R. hideable g \<and> CHR ''='' \<notin> set g \<and> CHR '' '' \<notin> set g" by code_simp
  have v: "''s3cret'' \<in> set [''s3'', ''s3cret'']" "''s3cret'' \<in> set (sensitive_forms ''s3cret'')" by (simp_all add: sensitive_forms_def Let_def)
  have whole: "''token'' @ [CHR ''=''] @ ''s3cret'' @ [CHR '' ''] @ ''s3'' = ''token=s3cret s3''" by simp
  note hidden = redaction_hides_secrets [OF v h, of "''token=s3cret s3''" "CHR ''=''" "CHR '' ''" "''token''" "''s3''", unfolded whole]
  from hidden h g show ?thesis by blast
qed

subsection \<open>Standard error, line by line\<close>

definition rendered_line :: "redactor \<Rightarrow> string \<Rightarrow> string" where
  "rendered_line R line =
     (if int (length line) + 1 > maxStderrLineBytes then omitted_line else redactor_clean R (line @ [CHR 0x0A]))"

definition writer_at :: "redactor \<Rightarrow> line_writer \<Rightarrow> string list \<Rightarrow> string \<Rightarrow> bool" where
  "writer_at R w ls cur \<longleftrightarrow> lw_redactor w = R \<and>
     lw_sink w = concat (map (rendered_line R) ls) @ (if int (length cur) > maxStderrLineBytes then omitted_line else []) \<and>
     (if int (length cur) > maxStderrLineBytes then lw_discarding w \<and> lw_buffer w = []
      else \<not> lw_discarding w \<and> lw_buffer w = cur)"

lemma writer_part: "writer_at R w ls cur \<Longrightarrow> writer_at R (write_part w part False) ls (cur @ part)"
  by (auto simp: writer_at_def write_part_def Let_def split: if_splits)

lemma writer_line: "writer_at R w ls cur \<Longrightarrow> writer_at R (write_part w (line @ [CHR 0x0A]) True) (ls @ [cur @ line]) []"
  by (auto simp: writer_at_def write_part_def Let_def rendered_line_def split: if_splits)

lemma writer_write:
  "writer_at R w ls cur \<Longrightarrow>
     writer_at R (line_writer_Write w data)
       (ls @ butlast ((cur @ hd (split_at_char (CHR 0x0A) data)) # tl (split_at_char (CHR 0x0A) data)))
       (last ((cur @ hd (split_at_char (CHR 0x0A) data)) # tl (split_at_char (CHR 0x0A) data)))"
proof (induction w data arbitrary: ls cur rule: line_writer_Write.induct)
  case (1 w data)
  consider "data = []" | (part) "data \<noteq> []" "CHR 0x0A \<notin> set data" | (line) "CHR 0x0A \<in> set data" by blast
  then show ?case
  proof cases
    case part
    then show ?thesis using writer_part [OF 1(2), of data] by (simp add: line_writer_Write.simps split_at_char_none)
  next
    case line
    let ?w = "takeWhile (\<lambda>c. c \<noteq> CHR 0x0A) data"
    from line have "data \<noteq> []" "\<not> CHR 0x0A \<notin> set data" by auto
    from 1(1) [OF this refl writer_line [OF 1(2), of ?w]] line show ?thesis
      by (auto simp: line_writer_Write.simps [of w data] split_at_char_first [OF line] Let_def)
  qed (use 1(2) in \<open>simp add: line_writer_Write.simps\<close>)
qed

lemma writer_chunks:
  assumes "writer_at R w (butlast (split_at_char (CHR 0x0A) s)) (last (split_at_char (CHR 0x0A) s))"
  shows "writer_at R (fold (\<lambda>chunk w. line_writer_Write w chunk) chunks w)
    (butlast (split_at_char (CHR 0x0A) (s @ concat chunks))) (last (split_at_char (CHR 0x0A) (s @ concat chunks)))"
  using assms
proof (induction chunks arbitrary: w s)
  case (Cons chunk chunks)
  have "writer_at R (line_writer_Write w chunk) (butlast (split_at_char (CHR 0x0A) (s @ chunk))) (last (split_at_char (CHR 0x0A) (s @ chunk)))"
    using writer_write [OF Cons.prems, of chunk] by (simp add: split_at_char_append butlast_append)
  from Cons.IH [OF this] show ?case by simp
qed simp

text \<open>
  What reaches the log from the standard error of an MCP server does not depend on how the bytes arrived: each
  complete line appears redacted and cut to the error limit, a line of more than 64 KiB is replaced once by a notice,
  and an unfinished line is held back.
\<close>

theorem line_writer_by_lines:
  "lw_sink (fold (\<lambda>chunk w. line_writer_Write w chunk) chunks (newRedactingLineWriter R)) =
     (let ls = split_at_char (CHR 0x0A) (concat chunks) in
      concat (map (rendered_line R) (butlast ls)) @ (if int (length (last ls)) > maxStderrLineBytes then omitted_line else []))"
proof -
  have "writer_at R (newRedactingLineWriter R) (butlast (split_at_char (CHR 0x0A) [])) (last (split_at_char (CHR 0x0A) []))"
    by (simp add: writer_at_def newRedactingLineWriter_def)
  from writer_chunks [OF this, of chunks] show ?thesis by (simp add: writer_at_def Let_def)
qed

end
