(* ===== verification/Mcp_Transport.thy ===== *)
theory Mcp_Transport
  imports Go_Path
begin

text \<open>
  The transports of the MCP client, \<^verbatim>\<open>mcpclient/httptransport.go\<close> and \<^verbatim>\<open>mcpclient/command.go\<close>: configured headers
  go to the origin of the endpoint only, a response body is cut off at the wire limit, and the frames of a child
  process are complete lines of JSON. A URL is described by what its methods return; the base transport, a body and a
  pipe are parameters.
\<close>

abbreviation maxHTTPWireBytes :: int where "maxHTTPWireBytes \<equiv> 67108864"

subsection \<open>Origins and headers\<close>

record url_parts =
  up_scheme :: string
  up_hostname :: string
  up_port :: string

definition origin :: "golib \<Rightarrow> url_parts option \<Rightarrow> string" where
  "origin L u =
     (case u of
        None \<Rightarrow> []
      | Some v \<Rightarrow>
          (let scheme = to_lower L (up_scheme v); host = to_lower L (up_hostname v);
               port = (if up_port v \<noteq> [] then up_port v
                       else if scheme = ''http'' then ''80'' else if scheme = ''https'' then ''443'' else []) in
           if port = [] then scheme @ ''://'' @ host else scheme @ ''://'' @ join_host_port host port))"

definition sameOriginRedirectPolicy :: "golib \<Rightarrow> url_parts \<Rightarrow> url_parts \<Rightarrow> nat \<Rightarrow> string option" where
  "sameOriginRedirectPolicy L endpoint target via =
     (if origin L (Some target) \<noteq> origin L (Some endpoint) then Some ''MCP cross-origin redirect is not allowed''
      else if via \<ge> 10 then Some ''MCP redirect limit exceeded''
      else None)"

record bounded_transport =
  bt_endpoint_origin :: string
  bt_headers :: "string go_map"
  bt_max_wire_bytes :: int

definition header_del :: "string \<Rightarrow> http_header \<Rightarrow> http_header" where
  "header_del name h = filter (\<lambda>(k, _). k \<noteq> canonical_header name) h"

definition transport_headers :: "golib \<Rightarrow> bounded_transport \<Rightarrow> url_parts \<Rightarrow> http_header \<Rightarrow> http_header" where
  "transport_headers L T u h =
     (if origin L (Some u) = bt_endpoint_origin T then fold (\<lambda>(name, v) h. header_set name v h) (bt_headers T) h
      else fold (\<lambda>(name, _) h. header_del name h) (bt_headers T) h)"

text \<open>The wire: a base transport that answers with a declared length (negative when unknown) and a body.\<close>

record 'b wire_response =
  wr_content_length :: int
  wr_body :: 'b

definition wire_limit :: "bounded_transport \<Rightarrow> int" where
  "wire_limit T = (if bt_max_wire_bytes T \<le> 0 then maxHTTPWireBytes else bt_max_wire_bytes T)"

record 'b counting_reader =
  cr_body :: 'b
  cr_limit :: int
  cr_read :: int
  cr_exceeded :: bool

definition RoundTrip ::
  "golib \<Rightarrow> bounded_transport \<Rightarrow> (http_header \<Rightarrow> 's \<Rightarrow> (string + 'b wire_response) \<times> 's) \<Rightarrow> url_parts \<Rightarrow> http_header \<Rightarrow>
   's \<Rightarrow> (string + 'b counting_reader) \<times> 's" where
  "RoundTrip L T base u h s =
     (case base (transport_headers L T u h) s of
        (Inl e, s1) \<Rightarrow> (Inl e, s1)
      | (Inr response, s1) \<Rightarrow>
          if wr_content_length response > wire_limit T then
            (Inl (''mcp_http_wire_limit_exceeded: MCP HTTP response Content-Length exceeds '' @ show_int (wire_limit T) @ ''-byte wire limit''), s1)
          else (Inr \<lparr>cr_body = wr_body response, cr_limit = wire_limit T, cr_read = 0, cr_exceeded = False\<rparr>, s1))"

subsection \<open>Counting a body\<close>

text \<open>A read of at most \<open>n\<close> bytes from a body returns bytes, an error that may come with them, and the rest.\<close>

type_synonym 'b body_read = "nat \<Rightarrow> 'b \<Rightarrow> string \<times> string option \<times> 'b"

definition counting_Read :: "'b body_read \<Rightarrow> 'b counting_reader \<Rightarrow> nat \<Rightarrow> string \<times> string option \<times> 'b counting_reader" where
  "counting_Read body R n =
     (if cr_exceeded R then ([], Some ''mcp_http_wire_limit_exceeded'', R)
      else if n = 0 then ([], None, R)
      else
        (let remaining = cr_limit R - cr_read R;
             maximum0 = (if int n > remaining + 1 then remaining + 1 else int n);
             maximum = (if maximum0 < 1 then 1 else maximum0) in
         case body (nat maximum) (cr_body R) of (data, err, rest) \<Rightarrow>
           if int (length data) > remaining then
             (take (nat (max remaining 0)) data, Some ''mcp_http_wire_limit_exceeded'',
              R\<lparr>cr_body := rest, cr_read := cr_read R + max remaining 0, cr_exceeded := True\<rparr>)
           else (data, err, R\<lparr>cr_body := rest, cr_read := cr_read R + int (length data)\<rparr>)))"

fun read_counted :: "'b body_read \<Rightarrow> 'b counting_reader \<Rightarrow> nat list \<Rightarrow> string \<times> 'b counting_reader" where
  "read_counted body R [] = ([], R)"
| "read_counted body R (n # ns) =
     (case counting_Read body R n of (data, _, R1) \<Rightarrow> case read_counted body R1 ns of (rest, R2) \<Rightarrow> (data @ rest, R2))"

subsection \<open>Frames of a child process\<close>

text \<open>
  The pipe is the bytes still to come and the error they end with (\<open>None\<close> for the end of the stream). A line longer
  than the limit is an error as soon as the limit is passed, whether or not its end has been seen.
\<close>

datatype read_error = ReadEOF | FrameLimit | InvalidFrame | PipeError string

record line_reader =
  lr_source :: string
  lr_source_error :: "string option"
  lr_limit :: int
  lr_pending :: string
  lr_offset :: nat
  lr_after_pending :: "read_error option"
  lr_failed :: "read_error option"

definition newLineValidatingReadCloser :: "string \<Rightarrow> string option \<Rightarrow> int \<Rightarrow> line_reader" where
  "newLineValidatingReadCloser source err limit = \<lparr>lr_source = source, lr_source_error = err, lr_limit = limit, lr_pending = [],
     lr_offset = 0, lr_after_pending = None, lr_failed = None\<rparr>"

definition frame_ok :: "(string \<Rightarrow> bool) \<Rightarrow> string \<Rightarrow> bool" where
  "frame_ok json_valid content \<longleftrightarrow> trim_space content = [] \<or> json_valid content"

definition validatePendingLine :: "(string \<Rightarrow> bool) \<Rightarrow> line_reader \<Rightarrow> read_error option \<times> line_reader" where
  "validatePendingLine json_valid r =
     (let content = (if lr_pending r \<noteq> [] \<and> last (lr_pending r) = CHR 0x0A then butlast (lr_pending r) else lr_pending r) in
      if frame_ok json_valid content then (None, r)
      else (Some InvalidFrame, r\<lparr>lr_pending := [], lr_after_pending := None\<rparr>))"

definition loadLine :: "(string \<Rightarrow> bool) \<Rightarrow> line_reader \<Rightarrow> read_error option \<times> line_reader" where
  "loadLine json_valid r =
     (let line = takeWhile (\<lambda>c. c \<noteq> CHR 0x0A) (lr_source r); rest = drop (length line + 1) (lr_source r) in
      if int (length line) > lr_limit r then (Some FrameLimit, r\<lparr>lr_pending := [], lr_source := rest\<rparr>)
      else if CHR 0x0A \<in> set (lr_source r) then
        validatePendingLine json_valid (r\<lparr>lr_pending := line @ [CHR 0x0A], lr_source := rest\<rparr>)
      else
        (case lr_source_error r of
           Some e \<Rightarrow> (Some (PipeError e), r\<lparr>lr_pending := [], lr_source := []\<rparr>)
         | None \<Rightarrow>
             if line = [] then (Some ReadEOF, r\<lparr>lr_source := []\<rparr>)
             else validatePendingLine json_valid
                    (r\<lparr>lr_pending := line, lr_source := [], lr_after_pending := Some ReadEOF\<rparr>)))"

definition line_Read :: "(string \<Rightarrow> bool) \<Rightarrow> line_reader \<Rightarrow> nat \<Rightarrow> string \<times> read_error option \<times> line_reader" where
  "line_Read json_valid r0 n =
     (if n = 0 then ([], None, r0)
      else
        (let drained = lr_offset r0 = length (lr_pending r0);
             r = (if drained then r0\<lparr>lr_pending := [], lr_offset := 0\<rparr> else r0) in
         if drained \<and> lr_after_pending r \<noteq> None then ([], lr_after_pending r, r\<lparr>lr_after_pending := None\<rparr>)
         else if lr_failed r \<noteq> None then ([], lr_failed r, r)
         else
           (case (if lr_pending r = [] then loadLine json_valid r else (None, r)) of
              (Some e, r1) \<Rightarrow> ([], Some e, r1\<lparr>lr_failed := Some e\<rparr>)
            | (None, r1) \<Rightarrow>
                (let data = take n (drop (lr_offset r1) (lr_pending r1)) in
                 (data, None, r1\<lparr>lr_offset := lr_offset r1 + length data\<rparr>)))))"

fun read_lines :: "(string \<Rightarrow> bool) \<Rightarrow> line_reader \<Rightarrow> nat list \<Rightarrow> string \<times> line_reader" where
  "read_lines json_valid r [] = ([], r)"
| "read_lines json_valid r (n # ns) =
     (case line_Read json_valid r n of (data, _, r1) \<Rightarrow> case read_lines json_valid r1 ns of (rest, r2) \<Rightarrow> (data @ rest, r2))"

subsection \<open>The wire limit holds\<close>

definition counted_ok :: "'b counting_reader \<Rightarrow> bool" where
  "counted_ok R \<longleftrightarrow> 0 \<le> cr_read R \<and> cr_read R \<le> cr_limit R"

lemma counting_Read_step:
  assumes "counted_ok R" "counting_Read body R n = (data, err, R')"
  shows "counted_ok R' \<and> cr_limit R' = cr_limit R \<and> cr_read R' = cr_read R + int (length data)"
proof (cases "cr_exceeded R \<or> n = 0")
  case True
  then have "counting_Read body R n = ([], if cr_exceeded R then Some ''mcp_http_wire_limit_exceeded'' else None, R)"
    by (auto simp: counting_Read_def)
  with assms show ?thesis by auto
next
  case False
  let ?rem = "cr_limit R - cr_read R"
  obtain m where m: "counting_Read body R n =
      (case body m (cr_body R) of (data, err, rest) \<Rightarrow>
         if int (length data) > ?rem then
           (take (nat (max ?rem 0)) data, Some ''mcp_http_wire_limit_exceeded'',
            R\<lparr>cr_body := rest, cr_read := cr_read R + max ?rem 0, cr_exceeded := True\<rparr>)
         else (data, err, R\<lparr>cr_body := rest, cr_read := cr_read R + int (length data)\<rparr>))"
    using False by (simp add: counting_Read_def Let_def)
  obtain d e rest where b: "body m (cr_body R) = (d, e, rest)" by (cases "body m (cr_body R)")
  show ?thesis
  proof (cases "int (length d) > ?rem")
    case True
    with assms m b have "data = take (nat ?rem) d" "R' = R\<lparr>cr_body := rest, cr_read := cr_read R + ?rem, cr_exceeded := True\<rparr>"
      by (auto simp: counted_ok_def)
    with True assms(1) show ?thesis by (auto simp: counted_ok_def)
  next
    case False
    with assms m b show ?thesis by (auto simp: counted_ok_def)
  qed
qed

text \<open>
  However a response is read, and whatever its body returns, even more than it was asked for, the bytes delivered
  from an MCP endpoint never exceed the wire limit, and the count kept is the number of bytes delivered.
\<close>

theorem read_counted_within_limit:
  assumes "counted_ok R" "read_counted body R ns = (data, R')"
  shows "cr_limit R' = cr_limit R \<and> cr_read R' = cr_read R + int (length data) \<and> int (length data) \<le> cr_limit R - cr_read R"
proof -
  have "counted_ok R' \<and> cr_limit R' = cr_limit R \<and> cr_read R' = cr_read R + int (length data)"
    using assms
  proof (induction body R ns arbitrary: data rule: read_counted.induct)
    case (2 body R n ns)
    obtain d e R1 where c: "counting_Read body R n = (d, e, R1)" by (cases "counting_Read body R n")
    obtain rest where r: "read_counted body R1 ns = (rest, R')" and data: "data = d @ rest"
      using 2(3) c by (auto split: prod.splits)
    from counting_Read_step [OF 2(2) c] 2(1) [OF c [symmetric] refl _ r] data show ?case by simp
  qed simp
  then show ?thesis by (simp add: counted_ok_def)
qed

theorem read_counted_within_limit_witness:
  "counted_ok \<lparr>cr_body = ''abcdef'', cr_limit = 4, cr_read = 0, cr_exceeded = False\<rparr> \<and>
   fst (read_counted (\<lambda>n b. (b, None, [])) \<lparr>cr_body = ''abcdef'', cr_limit = 4, cr_read = 0, cr_exceeded = False\<rparr> [2, 2]) = ''abcd''"
proof -
  let ?R = "\<lparr>cr_body = ''abcdef'', cr_limit = 4, cr_read = 0, cr_exceeded = False\<rparr>"
  have ok: "counted_ok ?R" by (simp add: counted_ok_def)
  obtain data R' where r: "read_counted (\<lambda>n b. (b, None, [])) ?R [2, 2] = (data, R')"
    by (cases "read_counted (\<lambda>n b. (b, None, [])) ?R [2, 2]")
  have "fst (read_counted (\<lambda>n b. (b, None, [])) ?R [2, 2]) = ''abcd''" by code_simp
  with ok read_counted_within_limit [OF ok r] show ?thesis by simp
qed

subsection \<open>Only whole frames pass\<close>

text \<open>The frames a stream may contain: lines that are blank or JSON and not too long, and a last one that may lack its end.\<close>

definition frames_ok :: "(string \<Rightarrow> bool) \<Rightarrow> int \<Rightarrow> string \<Rightarrow> bool" where
  "frames_ok json_valid limit s \<longleftrightarrow>
     list_all (\<lambda>l. frame_ok json_valid l \<and> int (length l) \<le> limit) (split_at_char (CHR 0x0A) s)"

lemma frames_ok_line:
  assumes "CHR 0x0A \<notin> set l" "frame_ok json_valid l" "int (length l) \<le> limit"
  shows "frames_ok json_valid limit (l @ CHR 0x0A # s) \<longleftrightarrow> frames_ok json_valid limit s" "frames_ok json_valid limit l"
proof -
  have "split_at_char (CHR 0x0A) (l @ CHR 0x0A # s) = l # split_at_char (CHR 0x0A) s"
    using assms(1) by (simp add: split_at_char_append [of "CHR 0x0A" l "CHR 0x0A # s"] split_at_char_none)
  with assms show "frames_ok json_valid limit (l @ CHR 0x0A # s) \<longleftrightarrow> frames_ok json_valid limit s" by (simp add: frames_ok_def)
  from assms show "frames_ok json_valid limit l" by (simp add: frames_ok_def split_at_char_none)
qed

lemma frames_ok_append:
  assumes "before = [] \<or> last before = CHR 0x0A" "frames_ok json_valid limit before" "frames_ok json_valid limit t"
  shows "frames_ok json_valid limit (before @ t)"
proof -
  obtain w ws where t: "split_at_char (CHR 0x0A) t = w # ws" by (meson neq_Nil_conv split_at_char_nonempty)
  have "list_all P (butlast xs)" if "list_all P xs" for P and xs :: "string list" using that by (auto simp: list_all_iff dest: in_set_butlastD)
  with assms(2,3) t last_split_newline [OF assms(1)] show ?thesis
    by (simp add: frames_ok_def split_at_char_append [of "CHR 0x0A" before t])
qed

lemma frames_ok_Nil: "0 \<le> limit \<Longrightarrow> frames_ok json_valid limit []"
proof -
  have "trim_space [] = []" by code_simp
  then show "0 \<le> limit \<Longrightarrow> frames_ok json_valid limit []" by (simp add: frames_ok_def frame_ok_def)
qed

text \<open>
  What a pipe is worth, in terms of the lines of the source: the complete lines up to the first that is bad, and the
  unfinished last one when all are good, it is good itself and the stream ends without an error.
\<close>

definition good_line :: "(string \<Rightarrow> bool) \<Rightarrow> int \<Rightarrow> string \<Rightarrow> bool" where
  "good_line json_valid limit l \<longleftrightarrow> frame_ok json_valid l \<and> int (length l) \<le> limit"

definition good_frames :: "(string \<Rightarrow> bool) \<Rightarrow> int \<Rightarrow> string option \<Rightarrow> string \<Rightarrow> string" where
  "good_frames json_valid limit err source =
     (let ls = split_at_char (CHR 0x0A) source; whole = takeWhile (good_line json_valid limit) (butlast ls) in
      concat (map (\<lambda>l. l @ [CHR 0x0A]) whole) @
      (if length whole = length (butlast ls) \<and> err = None \<and> good_line json_valid limit (last ls) then last ls else []))"

lemma first_line:
  "c \<in> set s \<Longrightarrow> s = takeWhile (\<lambda>x. x \<noteq> c) s @ c # drop (length (takeWhile (\<lambda>x. x \<noteq> c) s) + 1) s"
  by (induction s) auto

lemma good_frames_line:
  assumes "CHR 0x0A \<in> set s"
  shows "good_frames json_valid limit err s =
    (let l = takeWhile (\<lambda>c. c \<noteq> CHR 0x0A) s in
     if good_line json_valid limit l then l @ CHR 0x0A # good_frames json_valid limit err (drop (length l + 1) s) else [])"
  by (auto simp: good_frames_def Let_def split_at_char_first [OF assms])

lemma good_frames_last:
  assumes "CHR 0x0A \<notin> set s"
  shows "good_frames json_valid limit err s = (if err = None \<and> good_line json_valid limit s then s else [])"
  using assms by (simp add: good_frames_def split_at_char_none)

lemma good_frames_Nil [simp]: "good_frames json_valid limit err [] = []"
  by (simp add: good_frames_last)

lemma good_frames_ok:
  assumes "0 \<le> limit"
  shows "frames_ok json_valid limit (good_frames json_valid limit err s) \<and> (\<exists>later. s = good_frames json_valid limit err s @ later)"
proof (induction "length s" arbitrary: s rule: less_induct)
  case less
  show ?case
  proof (cases "CHR 0x0A \<in> set s")
    case True
    let ?l = "takeWhile (\<lambda>c. c \<noteq> CHR 0x0A) s" and ?rest = "drop (length (takeWhile (\<lambda>c. c \<noteq> CHR 0x0A) s) + 1) s"
    have nl: "CHR 0x0A \<notin> set ?l" by (auto dest: set_takeWhileD)
    have s: "s = ?l @ CHR 0x0A # ?rest" by (rule first_line [OF True])
    from True have "length ?rest < length s" by (cases s) auto
    from less [OF this] obtain later where ih: "frames_ok json_valid limit (good_frames json_valid limit err ?rest)"
      "?rest = good_frames json_valid limit err ?rest @ later" by blast
    show ?thesis
    proof (cases "good_line json_valid limit ?l")
      case good: True
      then have g: "good_frames json_valid limit err s = ?l @ CHR 0x0A # good_frames json_valid limit err ?rest"
        by (simp add: good_frames_line [OF True] Let_def)
      from good have "frames_ok json_valid limit (good_frames json_valid limit err s)"
        unfolding g using frames_ok_line(1) [OF nl] ih(1) by (simp add: good_line_def)
      moreover from s ih(2) have "s = good_frames json_valid limit err s @ later" unfolding g by (metis append.assoc append_Cons)
      ultimately show ?thesis by blast
    next
      case False
      then show ?thesis by (simp add: good_frames_line [OF True] Let_def frames_ok_Nil [OF assms])
    qed
  next
    case False
    then show ?thesis
      by (auto simp: good_frames_last good_line_def frames_ok_Nil [OF assms] intro: frames_ok_line(2))
  qed
qed

text \<open>
  The invariant of the reader: what has been delivered, what is left of the pending line, and what the rest of the
  source is worth make up what the whole source is worth.
\<close>

definition reader_at :: "(string \<Rightarrow> bool) \<Rightarrow> int \<Rightarrow> string option \<Rightarrow> string \<Rightarrow> string \<Rightarrow> line_reader \<Rightarrow> bool" where
  "reader_at json_valid limit err whole passed r \<longleftrightarrow> lr_limit r = limit \<and> lr_source_error r = err \<and>
     lr_offset r \<le> length (lr_pending r) \<and> (lr_after_pending r \<noteq> None \<longrightarrow> lr_source r = []) \<and>
     (lr_failed r \<noteq> None \<longrightarrow> lr_pending r = []) \<and>
     whole = passed @ drop (lr_offset r) (lr_pending r) @
       (if lr_failed r = None then good_frames json_valid limit err (lr_source r) else [])"

lemma validated_line:
  assumes "CHR 0x0A \<notin> set l"
  shows "lr_pending r = l \<or> lr_pending r = l @ [CHR 0x0A] \<Longrightarrow>
    validatePendingLine json_valid r = (if frame_ok json_valid l then (None, r) else (Some InvalidFrame, r\<lparr>lr_pending := [], lr_after_pending := None\<rparr>))"
proof -
  assume p: "lr_pending r = l \<or> lr_pending r = l @ [CHR 0x0A]"
  then have "(if lr_pending r \<noteq> [] \<and> last (lr_pending r) = CHR 0x0A then butlast (lr_pending r) else lr_pending r) = l"
    using assms by (metis butlast_snoc last_in_set last_snoc snoc_eq_iff_butlast)
  then show ?thesis by (simp add: validatePendingLine_def)
qed

text \<open>Loading a line takes it off what the source is worth; when it fails, the source is worth nothing.\<close>

lemma loadLine_good:
  assumes "loadLine json_valid r = (res, r1)" "lr_pending r = []" "lr_after_pending r = None"
  shows "lr_limit r1 = lr_limit r \<and> lr_source_error r1 = lr_source_error r \<and> lr_offset r1 = lr_offset r \<and> lr_failed r1 = lr_failed r \<and>
    (lr_after_pending r1 \<noteq> None \<longrightarrow> lr_source r1 = []) \<and> (res = None \<longleftrightarrow> lr_pending r1 \<noteq> []) \<and>
    good_frames json_valid (lr_limit r) (lr_source_error r) (lr_source r) =
      (if res = None then lr_pending r1 @ good_frames json_valid (lr_limit r) (lr_source_error r) (lr_source r1) else [])"
proof -
  let ?line = "takeWhile (\<lambda>c. c \<noteq> CHR 0x0A) (lr_source r)"
  have nl: "CHR 0x0A \<notin> set ?line" by (auto dest: set_takeWhileD)
  show ?thesis
  proof (cases "CHR 0x0A \<in> set (lr_source r)")
    case True
    let ?r = "r\<lparr>lr_pending := ?line @ [CHR 0x0A], lr_source := drop (length ?line + 1) (lr_source r)\<rparr>"
    from validated_line [OF nl, of ?r] assms True show ?thesis
      by (auto simp: loadLine_def Let_def good_frames_line good_line_def split: if_splits)
  next
    case False
    then have line: "?line = lr_source r" by (auto simp: takeWhile_eq_all_conv)
    let ?r = "r\<lparr>lr_pending := lr_source r, lr_source := [], lr_after_pending := Some ReadEOF\<rparr>"
    from validated_line [of "lr_source r" ?r] assms False show ?thesis
      by (auto simp: loadLine_def Let_def line good_frames_last good_line_def split: if_splits option.splits)
  qed
qed

lemma line_Read_good:
  assumes "reader_at json_valid limit err whole passed r0" "line_Read json_valid r0 n = (data, e, r1)"
  shows "reader_at json_valid limit err whole (passed @ data) r1 \<and> (n = 0 \<or> data \<noteq> [] \<or> passed = whole)"
proof (cases "n = 0")
  case True
  with assms show ?thesis by (simp add: line_Read_def)
next
  case n: False
  define drained where "drained \<longleftrightarrow> lr_offset r0 = length (lr_pending r0)"
  define r where "r = (if drained then r0\<lparr>lr_pending := [], lr_offset := 0\<rparr> else r0)"
  have at: "reader_at json_valid limit err whole passed r" using assms(1) by (auto simp: reader_at_def r_def drained_def)
  have left: "lr_offset r < length (lr_pending r)" if "\<not> drained" using at that by (auto simp: reader_at_def r_def drained_def)
  have empty: "lr_pending r = []" "lr_offset r = 0" if drained using that by (simp_all add: r_def)
  let ?step = "if lr_pending r = [] then loadLine json_valid r else (None, r)"
  have read: "line_Read json_valid r0 n =
     (if drained \<and> lr_after_pending r \<noteq> None then ([], lr_after_pending r, r\<lparr>lr_after_pending := None\<rparr>)
      else if lr_failed r \<noteq> None then ([], lr_failed r, r)
      else (case ?step of
              (Some e, r1) \<Rightarrow> ([], Some e, r1\<lparr>lr_failed := Some e\<rparr>)
            | (None, r1) \<Rightarrow>
                (let data = take n (drop (lr_offset r1) (lr_pending r1)) in
                 (data, None, r1\<lparr>lr_offset := lr_offset r1 + length data\<rparr>))))"
    using n by (simp add: line_Read_def r_def drained_def Let_def)
  obtain stopped r2 where r2: "?step = (stopped, r2)" by (cases ?step)
  consider "drained \<and> lr_after_pending r \<noteq> None \<or> lr_failed r \<noteq> None"
    | (stop) e' where "\<not> (drained \<and> lr_after_pending r \<noteq> None)" "lr_failed r = None" "stopped = Some e'"
    | (go) "\<not> (drained \<and> lr_after_pending r \<noteq> None)" "lr_failed r = None" "stopped = None"
    by (cases stopped) blast+
  then show ?thesis
  proof cases
    case 1
    with assms(2) read at empty show ?thesis by (auto simp: reader_at_def split: if_splits)
  next
    case stop
    then have drained using left r2 by (auto split: if_splits)
    with stop r2 empty have "loadLine json_valid r = (Some e', r2)" "lr_after_pending r = None" by simp_all
    from loadLine_good [OF this(1) _ this(2)] empty [OF \<open>drained\<close>] at assms(2) read stop r2 show ?thesis
      by (auto simp: reader_at_def)
  next
    case go
    have at2: "reader_at json_valid limit err whole passed r2 \<and> lr_offset r2 < length (lr_pending r2)"
    proof (cases drained)
      case True
      with go r2 empty have "loadLine json_valid r = (None, r2)" "lr_after_pending r = None" by simp_all
      from loadLine_good [OF this(1) _ this(2)] empty [OF True] at go(2) show ?thesis by (auto simp: reader_at_def)
    next
      case False
      with left r2 at show ?thesis by (auto split: if_splits)
    qed
    have d: "data = take n (drop (lr_offset r2) (lr_pending r2))" "r1 = r2\<lparr>lr_offset := lr_offset r2 + length data\<rparr>"
      using go assms(2) read r2 by (auto simp: Let_def)
    let ?left = "drop (lr_offset r2) (lr_pending r2)"
    have "data @ drop (length data) ?left = ?left" using d(1) by (cases "n \<le> length ?left") (simp_all del: drop_drop add: min_def)
    then have left: "?left = data @ drop (lr_offset r1) (lr_pending r1)" using d(2) by (simp add: add.commute)
    have "whole = passed @ ?left @ (if lr_failed r2 = None then good_frames json_valid limit err (lr_source r2) else [])"
      using at2 by (simp only: reader_at_def)
    then have "whole = (passed @ data) @ drop (lr_offset r1) (lr_pending r1) @
        (if lr_failed r1 = None then good_frames json_valid limit err (lr_source r1) else [])"
      unfolding left using d(2) by simp
    moreover have "data \<noteq> []" "lr_offset r1 \<le> length (lr_pending r1)" using at2 d n by auto
    moreover have "lr_limit r1 = limit" "lr_source_error r1 = err" "lr_after_pending r1 \<noteq> None \<longrightarrow> lr_source r1 = []"
      "lr_failed r1 \<noteq> None \<longrightarrow> lr_pending r1 = []"
      using at2 d(2) by (simp_all add: reader_at_def)
    ultimately show ?thesis by (simp only: reader_at_def) simp
  qed
qed

lemma read_lines_good:
  assumes "reader_at json_valid limit err whole passed r" "read_lines json_valid r ns = (data, r')"
  shows "reader_at json_valid limit err whole (passed @ data) r' \<and>
    (length (filter (\<lambda>n. 0 < n) ns) \<le> length data \<or> passed @ data = whole)"
  using assms
proof (induction json_valid r ns arbitrary: passed data rule: read_lines.induct)
  case (2 json_valid r n ns)
  obtain d e r1 where c: "line_Read json_valid r n = (d, e, r1)" by (cases "line_Read json_valid r n")
  obtain rest where rest: "read_lines json_valid r1 ns = (rest, r')" and data: "data = d @ rest"
    using 2(3) c by (auto split: prod.splits)
  note here = line_Read_good [OF 2(2) c]
  note ih = 2(1) [OF c [symmetric] refl conjunct1 [OF here] rest]
  from ih have "\<exists>later. whole = passed @ d @ rest @ later" by (auto simp: reader_at_def)
  moreover have "Suc 0 \<le> length d" if "d \<noteq> []" using that by (cases d) auto
  ultimately show ?case using here ih by (auto simp: data)
qed simp

text \<open>
  C40. However it is read, in whatever portions, the pipe from a child process delivers its good frames and nothing else:
  the complete lines up to the first that is neither blank nor JSON, or longer than the limit, and the last line when it
  is good and the stream ends cleanly. What is delivered is at every time a beginning of that, and every read that asks
  for something delivers at least one byte more of it until it is complete. A bad frame is not delivered in part.
\<close>

theorem read_lines_frames:
  assumes "0 \<le> limit" "read_lines json_valid (newLineValidatingReadCloser source err limit) ns = (data, r)"
  shows "\<exists>frame_rest. good_frames json_valid limit err source = data @ frame_rest \<and>
    (length (filter (\<lambda>n. 0 < n) ns) \<le> length data \<or> frame_rest = []) \<and>
    frames_ok json_valid limit (data @ frame_rest) \<and> (\<exists>later. source = data @ frame_rest @ later)"
proof -
  let ?good = "good_frames json_valid limit err source"
  have "reader_at json_valid limit err ?good [] (newLineValidatingReadCloser source err limit)"
    by (simp add: reader_at_def newLineValidatingReadCloser_def)
  from read_lines_good [OF this assms(2)] obtain frame_rest where "?good = data @ frame_rest"
    "length (filter (\<lambda>n. 0 < n) ns) \<le> length data \<or> data = ?good" by (auto simp: reader_at_def)
  moreover from this(1) good_frames_ok [OF assms(1), of json_valid err source]
  have "frames_ok json_valid limit (data @ frame_rest) \<and> (\<exists>later. source = data @ frame_rest @ later)" by (metis append.assoc)
  ultimately show ?thesis by auto
qed

theorem read_lines_frames_witness:
  "\<exists>r. read_lines (\<lambda>s. s = ''{}'') (newLineValidatingReadCloser [CHR ''{'', CHR ''}'', CHR 0x0A, CHR ''x''] None 10) [2, 2, 5, 5]
     = ([CHR ''{'', CHR ''}'', CHR 0x0A], r) \<and>
   good_frames (\<lambda>s. s = ''{}'') 10 None [CHR ''{'', CHR ''}'', CHR 0x0A, CHR ''x''] = [CHR ''{'', CHR ''}'', CHR 0x0A]"
proof -
  let ?r = "newLineValidatingReadCloser [CHR ''{'', CHR ''}'', CHR 0x0A, CHR ''x''] None 10"
  have "fst (read_lines (\<lambda>s. s = ''{}'') ?r [2, 2, 5, 5]) = [CHR ''{'', CHR ''}'', CHR 0x0A]" by code_simp
  then obtain r where r: "read_lines (\<lambda>s. s = ''{}'') ?r [2, 2, 5, 5] = ([CHR ''{'', CHR ''}'', CHR 0x0A], r)" by (metis prod.collapse)
  note found = read_lines_frames [OF _ r]
  have "length (filter (\<lambda>n. 0 < n) [2, 2, 5, 5 :: nat]) = 4" by simp
  with found have "good_frames (\<lambda>s. s = ''{}'') 10 None [CHR ''{'', CHR ''}'', CHR 0x0A, CHR ''x''] = [CHR ''{'', CHR ''}'', CHR 0x0A]"
    by (simp del: filter.simps)
  with r show ?thesis by blast
qed

end
