(* ===== verification/Mcp_Client.thy ===== *)
theory Mcp_Client
  imports Mcp_Redact Mcp_Transport Proc_Group
begin

text \<open>
  The client of MCP servers, \<^verbatim>\<open>mcpclient/discovery.go\<close> and \<^verbatim>\<open>mcpclient/client.go\<close>: discovery of tools under limits,
  the manager of several servers, and calls that reconnect a stale server. The protocol library, the processes and the
  schema validator are parameters: operations on a world of arbitrary type, and a type of resolved schemas.
\<close>

subsection \<open>Discovery\<close>

abbreviation maxDiscoveredTools :: nat where "maxDiscoveredTools \<equiv> 256"
abbreviation maxToolDescriptionBytes :: int where "maxToolDescriptionBytes \<equiv> 16384"
abbreviation maxToolSchemaBytes :: int where "maxToolSchemaBytes \<equiv> 262144"
abbreviation maxToolDefinitionBytes :: int where "maxToolDefinitionBytes \<equiv> 286720"
abbreviation maxTotalToolDefinitionBytes :: int where "maxTotalToolDefinitionBytes \<equiv> 4194304"

text \<open>A tool a server lists: its schema is absent, or what \<^verbatim>\<open>json.Marshal\<close> makes of it.\<close>

record mcp_tool =
  mt_name :: string
  mt_description :: string
  mt_schema :: "string go_result option"

record 'c schema_lib =
  sl_go :: golib
  sl_json_object :: "string \<Rightarrow> bool"
  sl_resolve :: "string \<Rightarrow> 'c go_result"
  sl_compact :: "string \<Rightarrow> string go_result"
  sl_validate :: "'c \<Rightarrow> string \<Rightarrow> bool"
  sl_decode_object :: "string \<Rightarrow> (string \<times> json) list option"

record 'c frozen_tool =
  ft_name :: string
  ft_definition :: tool_definition
  ft_schema :: 'c

definition tool_name_char :: "char \<Rightarrow> bool" where
  "tool_name_char c \<longleftrightarrow> byte_in 65 90 c \<or> byte_in 97 122 c \<or> byte_in 48 57 c \<or> c = CHR ''_'' \<or> c = CHR ''.'' \<or> c = CHR ''-''"

definition valid_tool_name :: "string \<Rightarrow> bool" where
  "valid_tool_name n \<longleftrightarrow> 1 \<le> length n \<and> length n \<le> 128 \<and> list_all tool_name_char n"

definition discoveryLimitError :: "golib \<Rightarrow> string \<Rightarrow> string \<Rightarrow> string \<Rightarrow> int \<Rightarrow> int \<Rightarrow> coded_error" where
  "discoveryLimitError L serverName toolName part actual limit =
     coded ''mcp_discovery_limit_exceeded'' (''MCP server '' @ quote L serverName @ '' tool '' @ quote L toolName @ '' '' @ part @
       '' is '' @ show_int actual @ '' bytes; limit is '' @ show_int limit @ '' bytes'')"

definition normalizeSchema :: "'c schema_lib \<Rightarrow> string go_result option \<Rightarrow> (string \<times> 'c) go_result" where
  \<open>normalizeSchema S schema =
     (case (case schema of None \<Rightarrow> Inr ''{"type":"object"}'' | Some r \<Rightarrow> r) of
        Inl e \<Rightarrow> Inl (''input schema cannot be encoded: '' @ e)
      | Inr encoded \<Rightarrow>
          if \<not> sl_json_object S encoded then Inl ''input schema must be a top-level JSON object''
          else (case sl_resolve S encoded of
                  Inl e \<Rightarrow> Inl (''input schema is invalid: '' @ e)
                | Inr resolved \<Rightarrow>
                    (case sl_compact S encoded of
                       Inl e \<Rightarrow> Inl (''input schema is malformed: '' @ e)
                     | Inr text \<Rightarrow> Inr (text, resolved))))\<close>

definition tool_description :: "golib \<Rightarrow> string \<Rightarrow> redactor \<Rightarrow> mcp_tool \<Rightarrow> string" where
  "tool_description L serverName R tool =
     redactor_replace R
       (if trim_space (mt_description tool) = []
        then ''MCP tool '' @ quote L (mt_name tool) @ '' from server '' @ quote L serverName @ ''.''
        else trim_space (mt_description tool))"

definition invalid_definition :: "string \<Rightarrow> coded_error" where
  "invalid_definition message = coded ''mcp_invalid_tool_definition'' message"

definition definition_bytes :: "tool_definition \<Rightarrow> int" where
  "definition_bytes d = int (length (td_name d)) + int (length (td_description d)) + int (length (td_input_schema d))"

definition freeze_tool :: "'c schema_lib \<Rightarrow> string \<Rightarrow> redactor \<Rightarrow> mcp_tool \<Rightarrow> coded_error + 'c frozen_tool" where
  "freeze_tool S serverName R tool =
     (let L = sl_go S; name = mt_name tool; description = tool_description L serverName R tool;
          place = ''MCP server '' @ quote L serverName @ '' tool '' @ quote L name in
      if int (length description) > maxToolDescriptionBytes then
        Inl (discoveryLimitError L serverName name ''description'' (int (length description)) maxToolDescriptionBytes)
      else case (case mt_schema tool of None \<Rightarrow> Inr ''null'' | Some r \<Rightarrow> r) of
        Inl _ \<Rightarrow> Inl (invalid_definition (place @ '' schema cannot be encoded''))
      | Inr rawSchema \<Rightarrow>
          if containsSensitive R rawSchema then
            Inl (invalid_definition (place @ '' schema contains a resolved sensitive value''))
          else if mt_schema tool \<noteq> None \<and> int (length rawSchema) > maxToolSchemaBytes then
            Inl (discoveryLimitError L serverName name ''schema'' (int (length rawSchema)) maxToolSchemaBytes)
          else (case normalizeSchema S (mt_schema tool) of
                  Inl e \<Rightarrow> Inl (invalid_definition (place @ '': '' @ e))
                | Inr (schema, resolved) \<Rightarrow>
                    (let d = \<lparr>td_name = name, td_description = description, td_input_schema = schema\<rparr> in
                     if int (length schema) > maxToolSchemaBytes then
                       Inl (discoveryLimitError L serverName name ''schema'' (int (length schema)) maxToolSchemaBytes)
                     else if definition_bytes d > maxToolDefinitionBytes then
                       Inl (discoveryLimitError L serverName name ''definition'' (definition_bytes d) maxToolDefinitionBytes)
                     else Inr \<lparr>ft_name = name, ft_definition = d, ft_schema = resolved\<rparr>)))"

text \<open>The stream of a server: an error, or a tool, which may be nil. A plain error ends discovery too.\<close>

type_synonym tool_stream = "(string + mcp_tool option) list"

datatype discovery_error = DiscoverCoded coded_error | DiscoverFailed string

fun discover :: "'c schema_lib \<Rightarrow> string \<Rightarrow> redactor \<Rightarrow> 'c frozen_tool list \<Rightarrow> int \<Rightarrow> tool_stream \<Rightarrow> discovery_error + 'c frozen_tool list" where
  "discover S serverName R found bytes [] = Inr found"
| "discover S serverName R found bytes (Inl err # rest) = Inl (DiscoverFailed (''discover tools: '' @ err))"
| "discover S serverName R found bytes (Inr item # rest) =
     (let L = sl_go S; server = ''MCP server '' @ quote L serverName in
      if length found \<ge> maxDiscoveredTools then
        Inl (DiscoverCoded (coded ''mcp_discovery_limit_exceeded'' (server @ '' exposes more than 256 tools'')))
      else case item of
        None \<Rightarrow> Inl (DiscoverCoded (invalid_definition (server @ '' returned a tool name outside the 1..128 [A-Za-z0-9_.-]+ constraint'')))
      | Some tool \<Rightarrow>
          if \<not> valid_tool_name (mt_name tool) then
            Inl (DiscoverCoded (invalid_definition (server @ '' returned a tool name outside the 1..128 [A-Za-z0-9_.-]+ constraint'')))
          else if containsSensitive R (mt_name tool) then
            Inl (DiscoverCoded (invalid_definition (server @ '' returned a tool name containing a resolved sensitive value'')))
          else if mt_name tool \<in> ft_name ` set found then
            Inl (DiscoverCoded (invalid_definition (server @ '' returned duplicate tool '' @ quote L (mt_name tool))))
          else (case freeze_tool S serverName R tool of
                  Inl e \<Rightarrow> Inl (DiscoverCoded e)
                | Inr frozen \<Rightarrow>
                    (let bytes' = bytes + definition_bytes (ft_definition frozen) in
                     if bytes' > maxTotalToolDefinitionBytes then
                       Inl (DiscoverCoded (coded ''mcp_discovery_limit_exceeded''
                         (server @ '' tool definitions exceed the '' @ show_int maxTotalToolDefinitionBytes @ ''-byte total limit'')))
                     else discover S serverName R (found @ [frozen]) bytes' rest)))"

definition discoverTools :: "'c schema_lib \<Rightarrow> string \<Rightarrow> redactor \<Rightarrow> tool_stream \<Rightarrow> discovery_error + 'c frozen_tool list" where
  "discoverTools S serverName R stream = discover S serverName R [] 0 stream"

definition same_tool :: "'c frozen_tool \<Rightarrow> 'c frozen_tool \<Rightarrow> bool" where
  "same_tool a b \<longleftrightarrow> td_description (ft_definition a) = td_description (ft_definition b) \<and>
     td_input_schema (ft_definition a) = td_input_schema (ft_definition b)"

definition sameTools :: "'c frozen_tool list \<Rightarrow> 'c frozen_tool list \<Rightarrow> bool" where
  "sameTools left right \<longleftrightarrow> length left = length right \<and>
     (\<forall>a \<in> set left. case map_of (rev (map (\<lambda>t. (ft_name t, t)) right)) (ft_name a) of None \<Rightarrow> False | Some b \<Rightarrow> same_tool a b)"

subsection \<open>One server\<close>

record call_error =
  cx_text :: string
  cx_connection_closed :: bool
  cx_call_deadline :: bool

text \<open>
  The transport of a server: HTTP bounded in what may cross the wire, or a child process with a sorted environment,
  whose output is read in frames. The world starts processes and runs the protocol; a session that is closed answers,
  possibly with the exit of its process, or the context ends the wait.
\<close>

abbreviation maxStdioFrameBytes :: int where "maxStdioFrameBytes \<equiv> 67108864"

record stdio_command =
  cm_path :: string
  cm_args :: "string list"
  cm_env :: "string list"
  cm_frame_limit :: int

datatype transport = HttpTransport string bounded_transport int | IOTransport stdio_command

datatype session_closing = SessionClosed "wait_error option" | CloseInterrupted ctx_error

record ('c, 's) mcp_world =
  mw_schema :: "'c schema_lib"
  mw_url :: "string \<Rightarrow> url_parts"
  mw_stdout_pipe :: "'s \<Rightarrow> string option \<times> 's"
  mw_stdin_pipe :: "'s \<Rightarrow> string option \<times> 's"
  mw_start :: "stdio_command \<Rightarrow> 's \<Rightarrow> (string + int) \<times> 's"
  mw_connect :: "transport \<Rightarrow> 's \<Rightarrow> string option \<times> 's"
  mw_tools :: "mcp_server \<Rightarrow> 's \<Rightarrow> tool_stream \<times> 's"
  mw_session_close :: "mcp_server \<Rightarrow> 's \<Rightarrow> session_closing \<times> 's"
  mw_procs :: "'s proc_world"
  mw_call :: "mcp_server \<Rightarrow> string \<Rightarrow> string \<Rightarrow> 's \<Rightarrow> (call_error + mcp_response option) \<times> 's"
  mw_ctx_err :: "'s \<Rightarrow> ctx_error \<times> 's"

text \<open>A server is connected while it has a session; a command is the process group of its child.\<close>

record 'c server_state =
  sv_config :: mcp_server
  sv_connected :: bool
  sv_command :: "int option"
  sv_stale :: bool
  sv_frozen :: "'c frozen_tool list"
  sv_redactor :: redactor

definition new_server :: "mcp_server \<Rightarrow> 'c server_state" where
  "new_server c = \<lparr>sv_config = c, sv_connected = False, sv_command = None, sv_stale = False, sv_frozen = [],
     sv_redactor = newRedactor (ms_sensitive_values c)\<rparr>"

definition startCommandTransport :: "('c, 's) mcp_world \<Rightarrow> mcp_server \<Rightarrow> int \<Rightarrow> 's \<Rightarrow> (string + transport \<times> int option) \<times> 's" where
  "startCommandTransport W c frameLimit s0 =
     (let command = \<lparr>cm_path = ms_command c, cm_args = ms_args c, cm_env = Sorted (ms_env c), cm_frame_limit = frameLimit\<rparr> in
      case mw_stdout_pipe W s0 of
        (Some e, s1) \<Rightarrow> (Inl (''open MCP stdio stdout: '' @ e), s1)
      | (None, s1) \<Rightarrow>
          (case mw_stdin_pipe W s1 of
             (Some e, s2) \<Rightarrow> (Inl (''open MCP stdio stdin: '' @ e), s2)
           | (None, s2) \<Rightarrow>
               (case mw_start W command s2 of
                  (Inl e, s3) \<Rightarrow> (Inl (''start MCP stdio command: '' @ e), s3)
                | (Inr pid, s3) \<Rightarrow> (Inr (IOTransport command, Some pid), s3))))"

definition http_retries :: "int option \<Rightarrow> int" where
  "http_retries maxRetries = (case maxRetries of None \<Rightarrow> 0 | Some n \<Rightarrow> if n = 0 then -1 else n)"

definition server_transport :: "('c, 's) mcp_world \<Rightarrow> mcp_server \<Rightarrow> 's \<Rightarrow> (string + transport \<times> int option) \<times> 's" where
  "server_transport W c s =
     (if ms_transport c = ''http'' then
        (Inr (HttpTransport (ms_endpoint c)
                \<lparr>bt_endpoint_origin = origin (sl_go (mw_schema W)) (Some (mw_url W (ms_endpoint c))), bt_headers = ms_headers c,
                 bt_max_wire_bytes = maxHTTPWireBytes\<rparr>
                (http_retries (ms_max_retries c)), None), s)
      else startCommandTransport W c maxStdioFrameBytes s)"

definition terminateCommand :: "('c, 's) mcp_world \<Rightarrow> int option \<Rightarrow> 's \<Rightarrow> 's" where
  "terminateCommand W command s =
     (case command of None \<Rightarrow> s | Some pid \<Rightarrow> snd (snd (terminate_group (mw_procs W) pid True s)))"

text \<open>The exit of the child process is no error of closing its session: \<open>wait_error_text\<close> drops it.\<close>

definition closeSession :: "('c, 's) mcp_world \<Rightarrow> 'c server_state \<Rightarrow> 's \<Rightarrow> string option \<times> 'c server_state \<times> 's" where
  "closeSession W srv s =
     (let command = sv_command srv; srv' = srv\<lparr>sv_connected := False, sv_command := None\<rparr> in
      if \<not> sv_connected srv then (None, srv', terminateCommand W command s)
      else
        (case mw_session_close W (sv_config srv) s of
           (CloseInterrupted c, s1) \<Rightarrow> (ctx_error_text c, srv', terminateCommand W command s1)
         | (SessionClosed e, s1) \<Rightarrow>
             (case command of
                None \<Rightarrow> (wait_error_text e, srv', s1)
              | Some pid \<Rightarrow>
                  (case terminate_group (mw_procs W) pid True s1 of (terminationErr, _, s2) \<Rightarrow>
                     (join_errors [wait_error_text e, terminationErr], srv', s2)))))"

definition server_error :: "'c schema_lib \<Rightarrow> 'c server_state \<Rightarrow> string \<Rightarrow> string \<Rightarrow> string \<Rightarrow> string \<Rightarrow> coded_error" where
  "server_error S srv code before after err =
     safeError (sv_redactor srv) code (before @ quote (sl_go S) (ms_name (sv_config srv)) @ after) (Some err)"

definition discovery_failed :: "'c schema_lib \<Rightarrow> 'c server_state \<Rightarrow> discovery_error \<Rightarrow> coded_error" where
  "discovery_failed S srv e =
     (case e of
        DiscoverCoded c \<Rightarrow> c\<lparr>cd_message := redactor_clean (sv_redactor srv) (cd_message c)\<rparr>
      | DiscoverFailed err \<Rightarrow> server_error S srv ''mcp_discovery_failed'' ''discover MCP server '' '' tools'' err)"

text \<open>A list of no tools is nil in the source: a server that offered none has frozen nothing.\<close>

definition server_connect :: "('c, 's) mcp_world \<Rightarrow> 'c server_state \<Rightarrow> 's \<Rightarrow> coded_error option \<times> 'c server_state \<times> 's" where
  "server_connect W srv s0 =
     (let S = mw_schema W; c = sv_config srv in
      case server_transport W c s0 of
        (Inl err, s1) \<Rightarrow> (Some (server_error S srv ''mcp_connection_failed'' ''start MCP server '' [] err), srv, s1)
      | (Inr (t, command), s1) \<Rightarrow>
          (case mw_connect W t s1 of
             (Some err, s2) \<Rightarrow>
               (Some (server_error S srv ''mcp_connection_failed'' ''initialize MCP server '' [] err), srv\<lparr>sv_command := None\<rparr>,
                terminateCommand W command s2)
           | (None, s2) \<Rightarrow>
               (case mw_tools W c s2 of (stream, s3) \<Rightarrow>
                  (let srv1 = srv\<lparr>sv_connected := True, sv_command := command\<rparr> in
                   case discoverTools S (ms_name c) (sv_redactor srv) stream of
                     Inl e \<Rightarrow> (case closeSession W srv1 s3 of (_, srv2, s4) \<Rightarrow> (Some (discovery_failed S srv e), srv2, s4))
                   | Inr found \<Rightarrow>
                       if sv_frozen srv \<noteq> [] \<and> \<not> sameTools (sv_frozen srv) found then
                         (case closeSession W srv1 s3 of (_, srv2, s4) \<Rightarrow>
                            (Some (coded ''mcp_toolset_changed''
                               (''MCP server '' @ quote (sl_go S) (ms_name c) @ '' tool definitions changed after reconnect'')), srv2, s4))
                       else (None, srv1\<lparr>sv_frozen := (if sv_frozen srv = [] then found else sv_frozen srv), sv_stale := False\<rparr>, s3)))))"

definition error_result :: "string \<Rightarrow> string \<Rightarrow> tool_result" where
  "error_result code content = \<lparr>tlr_call_id = [], tlr_name = [], tlr_content = content, tlr_is_error = True,
     tlr_error_code = code, tlr_truncated = False\<rparr>"

definition call_result :: "'c schema_lib \<Rightarrow> 'c server_state \<Rightarrow> mcp_response option \<Rightarrow> tool_result" where
  "call_result S srv response =
     (case normalizeResult (sl_decode_object S) response (sv_redactor srv) of
        Inl e \<Rightarrow> error_result (cd_code e) (cd_message e)
      | Inr (content, truncated) \<Rightarrow>
          (let isError = (case response of None \<Rightarrow> False | Some r \<Rightarrow> mr_is_error r) in
           \<lparr>tlr_call_id = [], tlr_name = [], tlr_content = content, tlr_is_error = isError,
            tlr_error_code = (if isError then ''mcp_tool_error'' else []), tlr_truncated = truncated\<rparr>))"

definition call_failed ::
  "('c, 's) mcp_world \<Rightarrow> 'c server_state \<Rightarrow> string \<Rightarrow> call_error \<Rightarrow> 's \<Rightarrow> (runtime_error + tool_result) \<times> 's" where
  "call_failed W srv name err s =
     (case mw_ctx_err W s of (ctx, s1) \<Rightarrow>
        if ctx \<noteq> CtxActive then (Inl (ctx_failure ctx), s1)
        else if cx_call_deadline err then
          (Inr (error_result ''mcp_timeout'' (''MCP tool '' @ quote (sl_go (mw_schema W)) name @ '' timed out'')), s1)
        else (Inr (error_result (if cx_connection_closed err then ''mcp_transport_error'' else ''mcp_protocol_error'')
                (redactor_clean (sv_redactor srv)
                   (''MCP tool '' @ quote (sl_go (mw_schema W)) name @ '' failed: '' @ cx_text err))), s1))"

definition call_session ::
  "('c, 's) mcp_world \<Rightarrow> 'c server_state \<Rightarrow> string \<Rightarrow> string \<Rightarrow> 's \<Rightarrow> (runtime_error + tool_result) \<times> 'c server_state \<times> 's" where
  "call_session W srv name arguments s =
     (case mw_call W (sv_config srv) name arguments s of
        (Inl err, s1) \<Rightarrow> (case call_failed W srv name err s1 of (res, s2) \<Rightarrow> (res, srv\<lparr>sv_stale := True\<rparr>, s2))
      | (Inr response, s1) \<Rightarrow> (Inr (call_result (mw_schema W) srv response), srv, s1))"

definition server_call ::
  "('c, 's) mcp_world \<Rightarrow> 'c server_state \<Rightarrow> string \<Rightarrow> string \<Rightarrow> 's \<Rightarrow> (runtime_error + tool_result) \<times> 'c server_state \<times> 's" where
  "server_call W srv name arguments s =
     (if \<not> sv_stale srv then call_session W srv name arguments s
      else
        (let shown = quote (sl_go (mw_schema W)) (ms_name (sv_config srv)) in
         case closeSession W srv s of
           (Some _, srv1, s1) \<Rightarrow>
             (Inr (error_result ''mcp_reconnect_failed'' (''MCP server '' @ shown @ '' could not close its stale session'')), srv1, s1)
         | (None, srv1, s1) \<Rightarrow>
             (case server_connect W srv1 s1 of
                (Some e, srv2, s2) \<Rightarrow>
                  (Inr (error_result ''mcp_reconnect_failed'' (redactor_clean (sv_redactor srv2)
                     (''MCP server '' @ shown @ '' could not reconnect: '' @ coded_error_text e))), srv2\<lparr>sv_stale := True\<rparr>, s2)
              | (None, srv2, s2) \<Rightarrow> call_session W srv2 name arguments s2)))"

subsection \<open>The manager\<close>

record 'c manager =
  mn_servers :: "'c server_state list"
  mn_tools :: "(string \<times> nat \<times> 'c) list"
  mn_definitions :: "tool_definition list"
  mn_definition_bytes :: int

definition empty_manager :: "'c manager" where
  "empty_manager = \<lparr>mn_servers = [], mn_tools = [], mn_definitions = [], mn_definition_bytes = 0\<rparr>"

fun add_tools :: "golib \<Rightarrow> nat \<Rightarrow> 'c frozen_tool list \<Rightarrow> 'c manager \<Rightarrow> coded_error + 'c manager" where
  "add_tools L server [] M = Inr M"
| "add_tools L server (t # ts) M =
     (let bytes = mn_definition_bytes M + definition_bytes (ft_definition t) in
      if length (mn_definitions M) \<ge> maxDiscoveredTools then
        Inl (coded ''mcp_discovery_limit_exceeded'' ''configured MCP servers expose more than 256 tools in total'')
      else if ft_name t \<in> fst ` set (mn_tools M) then
        Inl (invalid_definition (''MCP tool name '' @ quote L (ft_name t) @ '' is provided more than once''))
      else if bytes > maxTotalToolDefinitionBytes then
        Inl (coded ''mcp_discovery_limit_exceeded''
               (''configured MCP tool definitions exceed the '' @ show_int maxTotalToolDefinitionBytes @ ''-byte total limit''))
      else add_tools L server ts (M\<lparr>mn_tools := mn_tools M @ [(ft_name t, server, ft_schema t)],
                                   mn_definitions := mn_definitions M @ [ft_definition t], mn_definition_bytes := bytes\<rparr>))"

text \<open>All servers are closed, at once in the source; here one after the other.\<close>

fun close_servers :: "('c, 's) mcp_world \<Rightarrow> 'c server_state list \<Rightarrow> 's \<Rightarrow> coded_error list \<times> 'c server_state list \<times> 's" where
  "close_servers W [] s = ([], [], s)"
| "close_servers W (srv # srvs) s =
     (case closeSession W srv s of (err, srv1, s1) \<Rightarrow>
        (case close_servers W srvs s1 of (errs, srvs1, s2) \<Rightarrow>
           ((case err of None \<Rightarrow> [] | Some e \<Rightarrow> [server_error (mw_schema W) srv ''mcp_cleanup_failed'' ''close MCP server '' [] e]) @ errs,
            srv1 # srvs1, s2)))"

definition manager_Close :: "('c, 's) mcp_world \<Rightarrow> 'c manager \<Rightarrow> 's \<Rightarrow> string option \<times> 'c manager \<times> 's" where
  "manager_Close W M s =
     (case close_servers W (mn_servers M) s of (errs, srvs, s1) \<Rightarrow>
        ((if errs = [] then None else Some (join_strings (map coded_error_text errs) [CHR 0x0A])), M\<lparr>mn_servers := srvs\<rparr>, s1))"

fun start_servers :: "('c, 's) mcp_world \<Rightarrow> mcp_server list \<Rightarrow> 'c manager \<Rightarrow> 's \<Rightarrow> (coded_error + 'c manager) \<times> 's" where
  "start_servers W [] M s = (Inr M, s)"
| "start_servers W (c # cs) M s =
     (case server_connect W (new_server c) s of
        (Some e, _, s1) \<Rightarrow> (case manager_Close W M s1 of (_, _, s2) \<Rightarrow> (Inl e, s2))
      | (None, srv, s1) \<Rightarrow>
          (let M1 = M\<lparr>mn_servers := mn_servers M @ [srv]\<rparr> in
           case add_tools (sl_go (mw_schema W)) (length (mn_servers M)) (sv_frozen srv) M1 of
             Inl e \<Rightarrow> (case manager_Close W M1 s1 of (_, _, s2) \<Rightarrow> (Inl e, s2))
           | Inr M2 \<Rightarrow> start_servers W cs M2 s1))"

definition mcp_New :: "('c, 's) mcp_world \<Rightarrow> mcp_config \<Rightarrow> 's \<Rightarrow> (coded_error + 'c manager) \<times> 's" where
  "mcp_New W config s = start_servers W config empty_manager s"

definition validateArguments :: "'c schema_lib \<Rightarrow> string \<Rightarrow> 'c \<Rightarrow> string \<Rightarrow> string option" where
  "validateArguments S name schema arguments =
     (if arguments = [] \<or> \<not> sl_json_object S arguments then
        Some (''arguments for MCP tool '' @ quote (sl_go S) name @ '' must be a JSON object'')
      else if \<not> sl_validate S schema arguments then
        Some (''arguments for MCP tool '' @ quote (sl_go S) name @ '' do not satisfy its frozen schema'')
      else None)"

definition manager_Execute ::
  "('c, 's) mcp_world \<Rightarrow> 'c manager \<Rightarrow> string \<Rightarrow> string \<Rightarrow> 's \<Rightarrow> (runtime_error + tool_result) \<times> 'c manager \<times> 's" where
  "manager_Execute W M name arguments s =
     (case map_of (mn_tools M) name of
        None \<Rightarrow> (Inr (error_result ''unknown_tool'' (''tool '' @ quote (sl_go (mw_schema W)) name @ '' is not available'')), M, s)
      | Some (server, schema) \<Rightarrow>
          (case validateArguments (mw_schema W) name schema arguments of
             Some e \<Rightarrow> (Inr (error_result ''mcp_invalid_arguments'' e), M, s)
           | None \<Rightarrow>
               (case server_call W (mn_servers M ! server) name arguments s of (res, srv, s1) \<Rightarrow>
                  (res, M\<lparr>mn_servers := (mn_servers M)[server := srv]\<rparr>, s1))))"

subsection \<open>What discovery establishes\<close>

definition frozen_ok :: "redactor \<Rightarrow> 'c frozen_tool \<Rightarrow> bool" where
  "frozen_ok R t \<longleftrightarrow> td_name (ft_definition t) = ft_name t \<and> valid_tool_name (ft_name t) \<and> \<not> containsSensitive R (ft_name t) \<and>
     int (length (td_description (ft_definition t))) \<le> maxToolDescriptionBytes \<and>
     int (length (td_input_schema (ft_definition t))) \<le> maxToolSchemaBytes"

lemma freeze_tool_ok:
  assumes "freeze_tool S serverName R tool = Inr t"
  shows "ft_name t = mt_name tool \<and> td_name (ft_definition t) = ft_name t \<and>
    int (length (td_description (ft_definition t))) \<le> maxToolDescriptionBytes \<and>
    int (length (td_input_schema (ft_definition t))) \<le> maxToolSchemaBytes"
proof -
  let ?d = "tool_description (sl_go S) serverName R tool"
  from assms have d: "int (length ?d) \<le> maxToolDescriptionBytes" by (simp add: freeze_tool_def Let_def split: if_splits)
  with assms obtain raw where "(case mt_schema tool of None \<Rightarrow> Inr ''null'' | Some r \<Rightarrow> r) = Inr raw"
    by (auto simp: freeze_tool_def Let_def split: sum.splits)
  with assms d obtain schema resolved where "int (length schema) \<le> maxToolSchemaBytes"
    and "t = \<lparr>ft_name = mt_name tool, ft_definition = \<lparr>td_name = mt_name tool, td_description = ?d, td_input_schema = schema\<rparr>,
      ft_schema = resolved\<rparr>"
    by (auto simp: freeze_tool_def Let_def not_less split: if_splits sum.splits prod.splits)
  with d show ?thesis by simp
qed

definition total_bytes :: "tool_definition list \<Rightarrow> int" where
  "total_bytes ds = sum_list (map definition_bytes ds)"

lemma total_bytes_simps [simp]: "total_bytes [] = 0" "total_bytes (ds @ [d]) = total_bytes ds + definition_bytes d"
  by (simp_all add: total_bytes_def)

definition toolset_ok :: "redactor \<Rightarrow> 'c frozen_tool list \<Rightarrow> bool" where
  "toolset_ok R ts \<longleftrightarrow> length ts \<le> maxDiscoveredTools \<and> distinct (map ft_name ts) \<and> list_all (frozen_ok R) ts \<and>
     total_bytes (map ft_definition ts) \<le> maxTotalToolDefinitionBytes"

lemma discover_ok:
  assumes "discover S serverName R found bytes stream = Inr ts" "toolset_ok R found" "bytes = total_bytes (map ft_definition found)"
  shows "toolset_ok R ts"
  using assms
proof (induction S serverName R found bytes stream rule: discover.induct)
  case (3 S serverName R found bytes item rest)
  from 3(2) obtain tool t where len: "length found < maxDiscoveredTools" and t: "freeze_tool S serverName R tool = Inr t"
    and names: "valid_tool_name (mt_name tool)" "\<not> containsSensitive R (mt_name tool)" "mt_name tool \<notin> ft_name ` set found"
    and fits: "\<not> bytes + definition_bytes (ft_definition t) > maxTotalToolDefinitionBytes"
    and item: "item = Some tool"
    and rest: "discover S serverName R (found @ [t]) (bytes + definition_bytes (ft_definition t)) rest = Inr ts"
    by (auto simp: Let_def split: if_splits option.splits sum.splits)
  have "toolset_ok R (found @ [t])"
    using 3(3,4) len names fits freeze_tool_ok [OF t] by (auto simp: toolset_ok_def frozen_ok_def)
  from 3(1) [OF refl refl _ item _ _ _ t refl fits rest this] len names 3(4) show ?case by simp
qed auto

lemma discoverTools_ok: "discoverTools S serverName R stream = Inr ts \<Longrightarrow> toolset_ok R ts"
  unfolding discoverTools_def by (erule discover_ok) (simp_all add: toolset_ok_def)

subsection \<open>What a connection keeps\<close>

lemma closeSession_keeps:
  "closeSession W srv s = (err, srv', s') \<Longrightarrow> srv' = srv\<lparr>sv_connected := False, sv_command := None\<rparr>"
  by (auto simp: closeSession_def Let_def split: if_splits prod.splits session_closing.splits option.splits)

definition same_server :: "'c server_state \<Rightarrow> 'c server_state \<Rightarrow> bool" where
  "same_server a b \<longleftrightarrow> sv_config b = sv_config a \<and> sv_redactor b = sv_redactor a \<and> sv_frozen b = sv_frozen a"

lemma server_connect_keeps:
  assumes "server_connect W srv s = (err, srv', s')"
  shows "(sv_frozen srv \<noteq> [] \<longrightarrow> same_server srv srv') \<and> sv_stale srv' = (err \<noteq> None \<and> sv_stale srv) \<and>
    (err = None \<longrightarrow> sv_connected srv' \<and> (sv_frozen srv = [] \<longrightarrow> toolset_ok (sv_redactor srv) (sv_frozen srv')))"
  using assms
  by (auto simp: server_connect_def Let_def same_server_def split: prod.splits option.splits sum.splits if_splits
      dest: closeSession_keeps discoverTools_ok)

text \<open>A session is used only while it is open, and under the tools that were frozen at the start.\<close>

definition server_ok :: "'c server_state \<Rightarrow> bool" where
  "server_ok srv \<longleftrightarrow> (\<not> sv_stale srv \<longrightarrow> sv_connected srv)"

lemma server_call_keeps:
  assumes "server_ok srv" "sv_frozen srv \<noteq> []" "server_call W srv name arguments s = (res, srv', s')"
  shows "server_ok srv' \<and> same_server srv srv'"
proof -
  have session: "server_ok b \<and> same_server a b"
    if "server_ok a" "call_session W a name arguments s = (r, b, s')" for a b :: "'a server_state" and r s s'
    using that by (auto simp: call_session_def server_ok_def same_server_def split: prod.splits sum.splits)
  show ?thesis
  proof (cases "sv_stale srv")
    case False
    with assms session show ?thesis by (auto simp: server_call_def)
  next
    case True
    obtain e srv1 s1 where c: "closeSession W srv s = (e, srv1, s1)" by (cases "closeSession W srv s")
    from closeSession_keeps [OF c] have srv1: "same_server srv srv1" "sv_stale srv1 = sv_stale srv" "sv_frozen srv1 = sv_frozen srv"
      by (simp_all add: same_server_def)
    show ?thesis
    proof (cases e)
      case (Some x)
      with True assms c srv1 show ?thesis by (auto simp: server_call_def Let_def server_ok_def)
    next
      case None
      obtain e2 srv2 s2 where k: "server_connect W srv1 s1 = (e2, srv2, s2)" by (cases "server_connect W srv1 s1")
      note keep = server_connect_keeps [OF k]
      have same: "same_server srv srv2" using keep srv1 assms(2) unfolding same_server_def by metis
      show ?thesis
      proof (cases e2)
        case (Some x)
        with True None assms c k same show ?thesis
          by (auto simp: server_call_def Let_def server_ok_def same_server_def)
      next
        case e2: None
        with keep have "server_ok srv2" by (auto simp: server_ok_def)
        moreover have "call_session W srv2 name arguments s2 = (res, srv', s')"
          using True None assms c k e2 by (simp add: server_call_def Let_def)
        ultimately have "server_ok srv' \<and> same_server srv2 srv'" by (rule session)
        with same show ?thesis unfolding same_server_def by metis
      qed
    qed
  qed
qed

subsection \<open>What the manager keeps\<close>

definition manager_ok :: "'c manager \<Rightarrow> bool" where
  "manager_ok M \<longleftrightarrow> list_all server_ok (mn_servers M) \<and> map fst (mn_tools M) = map td_name (mn_definitions M) \<and>
     distinct (map td_name (mn_definitions M)) \<and> (\<forall>(n, i, c) \<in> set (mn_tools M). i < length (mn_servers M) \<and> sv_frozen (mn_servers M ! i) \<noteq> []) \<and>
     length (mn_definitions M) \<le> maxDiscoveredTools \<and>
     total_bytes (mn_definitions M) = mn_definition_bytes M \<and> mn_definition_bytes M \<le> maxTotalToolDefinitionBytes \<and>
     list_all (\<lambda>d. valid_tool_name (td_name d) \<and> int (length (td_description d)) \<le> maxToolDescriptionBytes \<and>
       int (length (td_input_schema d)) \<le> maxToolSchemaBytes) (mn_definitions M)"

lemma add_tools_ok:
  assumes "add_tools L i ts M = Inr M'" "manager_ok M" "list_all (frozen_ok R) ts" "i < length (mn_servers M)"
    "ts \<noteq> [] \<longrightarrow> sv_frozen (mn_servers M ! i) \<noteq> []"
  shows "manager_ok M' \<and> mn_servers M' = mn_servers M \<and> mn_definitions M' = mn_definitions M @ map ft_definition ts"
  using assms
proof (induction L i ts M rule: add_tools.induct)
  case (2 L i t ts M)
  let ?M = "M\<lparr>mn_tools := mn_tools M @ [(ft_name t, i, ft_schema t)], mn_definitions := mn_definitions M @ [ft_definition t],
    mn_definition_bytes := mn_definition_bytes M + definition_bytes (ft_definition t)\<rparr>"
  from 2(2) have c: "\<not> length (mn_definitions M) \<ge> maxDiscoveredTools" "ft_name t \<notin> fst ` set (mn_tools M)"
    "\<not> mn_definition_bytes M + definition_bytes (ft_definition t) > maxTotalToolDefinitionBytes"
    and r: "add_tools L i ts ?M = Inr M'"
    by (auto simp: Let_def split: if_splits)
  have "fst ` set (mn_tools M) = td_name ` set (mn_definitions M)"
    using 2(3) unfolding manager_ok_def by (metis image_set)
  with c 2(3,4,5,6) have "manager_ok ?M" by (auto simp: manager_ok_def frozen_ok_def)
  from 2(1) [OF refl c r this] 2(4,5,6) show ?case by simp
qed simp

lemma start_servers_ok:
  assumes "start_servers W cs M s = (Inr M', s')" "manager_ok M"
  shows "manager_ok M'"
  using assms
proof (induction W cs M s rule: start_servers.induct)
  case (2 W c cs M s)
  obtain e srv s1 where k: "server_connect W (new_server c) s = (e, srv, s1)" by (cases "server_connect W (new_server c) s")
  with 2(2) have e: "e = None" by (auto split: option.splits prod.splits)
  note keep = server_connect_keeps [OF k]
  with e have ts: "toolset_ok (newRedactor (ms_sensitive_values c)) (sv_frozen srv)" "server_ok srv"
    by (simp_all add: new_server_def server_ok_def)
  let ?M1 = "M\<lparr>mn_servers := mn_servers M @ [srv]\<rparr>"
  have m1: "manager_ok ?M1" using 2(3) ts(2) by (fastforce simp: manager_ok_def nth_append)
  from 2(2) k e obtain M2 where a: "add_tools (sl_go (mw_schema W)) (length (mn_servers M)) (sv_frozen srv) ?M1 = Inr M2"
    and r: "start_servers W cs M2 s1 = (Inr M', s')" by (auto simp: Let_def split: sum.splits prod.splits)
  from ts(1) have fr: "list_all (frozen_ok (newRedactor (ms_sensitive_values c))) (sv_frozen srv)" by (simp add: toolset_ok_def)
  have "length (mn_servers M) < length (mn_servers ?M1)"
    "sv_frozen srv \<noteq> [] \<longrightarrow> sv_frozen (mn_servers ?M1 ! length (mn_servers M)) \<noteq> []" by simp_all
  note m2 = conjunct1 [OF add_tools_ok [OF a m1 fr this]]
  from 2(1) [OF k [unfolded e, symmetric] refl refl refl a r m2] show ?case .
qed simp

lemma empty_manager_ok: "manager_ok empty_manager"
  by (simp add: manager_ok_def empty_manager_def)

lemma manager_Execute_ok:
  assumes "manager_ok M" "manager_Execute W M name arguments s = (res, M', s')"
  shows "manager_ok M' \<and> mn_definitions M' = mn_definitions M \<and> mn_tools M' = mn_tools M \<and>
    list_all2 same_server (mn_servers M) (mn_servers M')"
proof -
  have refl: "list_all2 same_server srvs srvs" for srvs :: "'a server_state list" by (rule list.rel_refl) (simp add: same_server_def)
  show ?thesis
  proof (cases "mn_tools M' = mn_tools M \<and> M' = M")
    case True
    with assms(1) refl show ?thesis by simp
  next
    case False
    then obtain i schema where t: "map_of (mn_tools M) name = Some (i, schema)"
      using assms(2) by (auto simp: manager_Execute_def split: option.splits)
    with False assms(2) have v: "validateArguments (mw_schema W) name schema arguments = None"
      by (cases "validateArguments (mw_schema W) name schema arguments") (simp_all add: manager_Execute_def)
    obtain r srv s1 where c: "server_call W (mn_servers M ! i) name arguments s = (r, srv, s1)"
      by (cases "server_call W (mn_servers M ! i) name arguments s")
    with t v assms(2) have M': "M' = M\<lparr>mn_servers := (mn_servers M)[i := srv]\<rparr>" by (simp add: manager_Execute_def)
    from assms(1) have "\<forall>(n, i, c) \<in> set (mn_tools M). i < length (mn_servers M) \<and> sv_frozen (mn_servers M ! i) \<noteq> []"
      by (simp add: manager_ok_def)
    with map_of_SomeD [OF t] have i: "i < length (mn_servers M)" and fz: "sv_frozen (mn_servers M ! i) \<noteq> []" by blast+
    with assms(1) have "server_ok (mn_servers M ! i)" by (simp add: manager_ok_def list_all_length)
    from server_call_keeps [OF this fz c] have srv: "server_ok srv" "same_server (mn_servers M ! i) srv" by blast+
    have "list_all server_ok ((mn_servers M)[i := srv])"
      using assms(1) srv(1) set_update_subset_insert [of "mn_servers M" i srv] by (auto simp: manager_ok_def list_all_iff)
    moreover have "sv_frozen ((mn_servers M)[i := srv] ! k) = sv_frozen (mn_servers M ! k)" for k
      using srv(2) i by (cases "k = i") (simp_all add: same_server_def)
    ultimately have "manager_ok M'" using assms(1) unfolding M' by (simp add: manager_ok_def)
    moreover have "list_all2 same_server (mn_servers M) ((mn_servers M)[i := srv])"
      using srv(2) i by (simp add: list_all2_conv_all_nth nth_list_update same_server_def)
    ultimately show ?thesis unfolding M' by simp
  qed
qed

fun execute_all :: "('c, 's) mcp_world \<Rightarrow> 'c manager \<Rightarrow> (string \<times> string) list \<Rightarrow> 's \<Rightarrow> 'c manager \<times> 's" where
  "execute_all W M [] s = (M, s)"
| "execute_all W M ((name, arguments) # calls) s =
     (case manager_Execute W M name arguments s of (_, M1, s1) \<Rightarrow> execute_all W M1 calls s1)"

lemma execute_all_ok:
  assumes "manager_ok M" "execute_all W M calls s = (M', s')"
  shows "manager_ok M' \<and> mn_definitions M' = mn_definitions M \<and> list_all2 same_server (mn_servers M) (mn_servers M')"
  using assms
proof (induction W M calls s rule: execute_all.induct)
  case (1 W M s)
  then show ?case by (auto simp: same_server_def intro: list.rel_refl)
next
  case (2 W M name arguments calls s)
  obtain res M1 s1 where e: "manager_Execute W M name arguments s = (res, M1, s1)" by (cases "manager_Execute W M name arguments s")
  note k = manager_Execute_ok [OF 2(2) e]
  from 2(1) [OF e [symmetric] refl] k 2(3) e
  have r: "manager_ok M' \<and> mn_definitions M' = mn_definitions M1 \<and> list_all2 same_server (mn_servers M1) (mn_servers M')" by simp
  have "list_all2 same_server (mn_servers M) (mn_servers M')"
    by (rule list_all2_trans [OF _ conjunct2 [OF conjunct2 [OF conjunct2 [OF k]]] conjunct2 [OF conjunct2 [OF r]]])
       (auto simp: same_server_def)
  with k r show ?case by simp
qed

text \<open>
  C33. Whatever the servers answer, an MCP manager that starts offers at most 256 tools with distinct, well-formed names
  and bounded descriptions, schemas and total size; and no execution, with all its reconnects, ever changes what it
  offers: every server keeps the tools, configuration and secrets it started with, and is called only over an open
  session.
\<close>

theorem mcp_manager_bounded_and_frozen:
  assumes "mcp_New W config s = (Inr M, s1)" "execute_all W M calls s1 = (M', s')"
  shows "manager_ok M \<and> manager_ok M' \<and> mn_definitions M' = mn_definitions M \<and> list_all2 same_server (mn_servers M) (mn_servers M')"
  using start_servers_ok [OF assms(1) [unfolded mcp_New_def] empty_manager_ok] execute_all_ok [OF _ assms(2)] by blast

definition echo_lib :: "unit schema_lib" where
  "echo_lib = \<lparr>sl_go = demo_lib, sl_json_object = (\<lambda>_. True), sl_resolve = (\<lambda>_. Inr ()), sl_compact = Inr, sl_validate = (\<lambda>_ _. True),
     sl_decode_object = (\<lambda>_. None)\<rparr>"

definition echo_server :: mcp_server where
  "echo_server = \<lparr>ms_name = ''echo'', ms_transport = ''stdio'', ms_command = ''echo'', ms_args = [], ms_env = [], ms_env_from = [],
     ms_endpoint = [], ms_headers = [], ms_headers_from_env = [], ms_timeout = 0, ms_max_retries = None,
     ms_sensitive_values = [''pw''], ms_timeout_value = []\<rparr>"

text \<open>A server that offers one tool and loses its connection at the first call.\<close>

definition echo_world :: "(unit, nat) mcp_world" where
  "echo_world = \<lparr>mw_schema = echo_lib, mw_url = (\<lambda>_. \<lparr>up_scheme = [], up_hostname = [], up_port = []\<rparr>),
     mw_stdout_pipe = (\<lambda>s. (None, s)), mw_stdin_pipe = (\<lambda>s. (None, s)), mw_start = (\<lambda>_ s. (Inr 7, s)),
     mw_connect = (\<lambda>_ s. (None, s + 1)),
     mw_tools = (\<lambda>_ s. ([Inr (Some \<lparr>mt_name = ''echo'', mt_description = ''Say it again.'', mt_schema = None\<rparr>)], s)),
     mw_session_close = (\<lambda>_ s. (SessionClosed (Some (ExitError 0)), s)), mw_procs = idle_procs,
     mw_call = (\<lambda>_ _ arguments s. (if s < 2 then Inl \<lparr>cx_text = ''gone'', cx_connection_closed = True, cx_call_deadline = False\<rparr>
        else Inr (Some \<lparr>mr_structured = None, mr_content = [Some arguments], mr_is_error = False\<rparr>), s)),
     mw_ctx_err = (\<lambda>s. (CtxActive, s))\<rparr>"

lemma echo_start: "\<exists>M. mcp_New echo_world [echo_server] 0 = (Inr M, 1) \<and> map td_name (mn_definitions M) = [''echo'']"
proof -
  have "map_sum (\<lambda>_. ()) (map td_name \<circ> mn_definitions) (fst (mcp_New echo_world [echo_server] 0)) = Inr [''echo'']
      \<and> snd (mcp_New echo_world [echo_server] 0) = 1" by code_simp
  then show ?thesis by (cases "mcp_New echo_world [echo_server] 0"; cases "fst (mcp_New echo_world [echo_server] 0)") auto
qed

theorem mcp_manager_bounded_and_frozen_witness:
  "\<exists>M M' s'. mcp_New echo_world [echo_server] 0 = (Inr M, 1) \<and>
     execute_all echo_world M [(''echo'', ''{}''), (''echo'', ''{}'')] 1 = (M', s') \<and> manager_ok M' \<and>
     map td_name (mn_definitions M') = [''echo'']"
proof -
  obtain M where M: "mcp_New echo_world [echo_server] 0 = (Inr M, 1) \<and> map td_name (mn_definitions M) = [''echo'']"
    using echo_start by (rule exE)
  obtain M' s' where e: "execute_all echo_world M [(''echo'', ''{}''), (''echo'', ''{}'')] 1 = (M', s')"
    by (cases "execute_all echo_world M [(''echo'', ''{}''), (''echo'', ''{}'')] 1")
  note k = mcp_manager_bounded_and_frozen [OF conjunct1 [OF M] e]
  show ?thesis by (intro exI conjI) (rule conjunct1 [OF M], rule e, use k M in \<open>simp_all del: execute_all.simps\<close>)
qed

end
