(* ===== verification/Tool_Registry.thy ===== *)
theory Tool_Registry
  imports Tool_Kubernetes Tool_Shell Mcp_Client Runtime_Engine
begin

text \<open>
  The tools of a run, \<^verbatim>\<open>tools/tools.go\<close>: the built-in tools and those of the MCP servers in one table, of which the
  configuration allows some; and the execution of a call, which turns every failure but a cancelled context into a
  result for the model. The worlds of the tools share one state.
\<close>

abbreviation maxSafeCapturedBytes :: int where "maxSafeCapturedBytes \<equiv> 8388608"

record tools_config =
  tg_allowed :: "string list"
  tg_knowledge_root :: string
  tg_max_captured_bytes :: int
  tg_kubernetes :: kubernetes_config
  tg_mcp :: mcp_config

record ('c, 's) tool_world =
  tw_lib :: golib
  tw_knowledge_decoder :: "read_knowledge_arguments arguments_decoder"
  tw_kubernetes_decoder :: "kubernetes_read_arguments arguments_decoder"
  tw_shell_decoder :: "shell_arguments arguments_decoder"
  tw_resources :: "kubernetes_resource go_map"
  tw_files :: "'s file_world"
  tw_kube :: "'s kube_world"
  tw_shell :: "'s shell_world"
  tw_mcp :: "('c, 's) mcp_world"

datatype implementation = ReadKnowledge | KubernetesRead | Shell | McpTool tool_definition

fun impl_Definition :: "implementation \<Rightarrow> tool_definition" where
  "impl_Definition ReadKnowledge = knowledge_Definition"
| "impl_Definition KubernetesRead = kubernetes_Definition"
| "impl_Definition Shell = shell_Definition"
| "impl_Definition (McpTool d) = d"

text \<open>\<open>rg_stdout\<close> and \<open>rg_stderr\<close> are what commands have copied to the streams of the process.\<close>

record 'c registry =
  rg_allowed :: "implementation go_map"
  rg_known :: "string list"
  rg_definitions :: "tool_definition list"
  rg_mcp :: "'c manager"
  rg_knowledge :: knowledge_tool
  rg_kubernetes :: kubernetes_tool
  rg_max_bytes :: int
  rg_stdout :: "string list"
  rg_stderr :: "string list"

definition builtin_tools :: "implementation go_map" where
  "builtin_tools = [(NameReadKnowledge, ReadKnowledge), (NameKubernetesRead, KubernetesRead), (NameShell, Shell)]"

fun add_mcp_tools :: "golib \<Rightarrow> implementation go_map \<Rightarrow> tool_definition list \<Rightarrow> coded_error + implementation go_map" where
  "add_mcp_tools L impls [] = Inr impls"
| "add_mcp_tools L impls (d # ds) =
     (if td_name d \<in> fst ` set impls then
        Inl (coded ''tool_name_collision'' (''MCP tool '' @ quote L (td_name d) @ '' collides with another available tool''))
      else add_mcp_tools L (impls @ [(td_name d, McpTool d)]) ds)"

fun allow_tools :: "golib \<Rightarrow> implementation go_map \<Rightarrow> implementation go_map \<Rightarrow> tool_definition list \<Rightarrow> string list \<Rightarrow>
    coded_error + (implementation go_map \<times> tool_definition list)" where
  "allow_tools L impls allowed defs [] = Inr (allowed, defs)"
| "allow_tools L impls allowed defs (configuredName # rest) =
     (let name = trim_space configuredName in
      case map_of impls name of
        None \<Rightarrow> Inl (coded ''unknown_tool'' (''configured tool '' @ quote L name @ '' is not available in the reference runtime''))
      | Some selected \<Rightarrow>
          if name \<in> fst ` set allowed then allow_tools L impls allowed defs rest
          else allow_tools L impls (allowed @ [(name, selected)]) (defs @ [impl_Definition selected]) rest)"

definition startup_failure :: "coded_error \<Rightarrow> coded_error" where
  "startup_failure e = (if cd_code e \<noteq> [] then e else coded ''invalid_tool_configuration'' (coded_error_text e))"

definition close_after_failure :: "('c, 's) mcp_world \<Rightarrow> 'c manager \<Rightarrow> 's \<Rightarrow> 's" where
  "close_after_failure W M s = (case manager_Close W M s of (_, _, s1) \<Rightarrow> s1)"

definition NewWithContext :: "('c, 's) tool_world \<Rightarrow> tools_config \<Rightarrow> 's \<Rightarrow> (coded_error + 'c registry) \<times> 's" where
  "NewWithContext W c s =
     (let maxBytes = (if tg_max_captured_bytes c \<le> 0 then maxSafeCapturedBytes else tg_max_captured_bytes c); L = tw_lib W in
      if maxBytes > maxSafeCapturedBytes then
        (Inl (coded ''invalid_tool_configuration'' (''captured tool output cannot exceed '' @ show_int maxSafeCapturedBytes @ '' bytes'')), s)
      else
        (case mcp_New (tw_mcp W) (tg_mcp c) s of
           (Inl e, s1) \<Rightarrow> (Inl (startup_failure e), s1)
         | (Inr M, s1) \<Rightarrow>
             (case add_mcp_tools L builtin_tools (mn_definitions M) of
                Inl e \<Rightarrow> (Inl e, close_after_failure (tw_mcp W) M s1)
              | Inr impls \<Rightarrow>
                  (case allow_tools L impls [] [] (tg_allowed c) of
                     Inl e \<Rightarrow> (Inl e, close_after_failure (tw_mcp W) M s1)
                   | Inr (allowed, defs) \<Rightarrow>
                       (Inr \<lparr>rg_allowed = allowed, rg_known = map fst impls, rg_definitions = defs, rg_mcp = M,
                             rg_knowledge = newKnowledgeTool (tg_knowledge_root c) maxBytes,
                             rg_kubernetes = newKubernetesTool (tg_kubernetes c) maxBytes, rg_max_bytes = maxBytes,
                             rg_stdout = [], rg_stderr = []\<rparr>, s1)))))"

subsection \<open>A call\<close>

fun impl_Execute :: "('c, 's) tool_world \<Rightarrow> 'c registry \<Rightarrow> implementation \<Rightarrow> string \<Rightarrow> 's \<Rightarrow> (runtime_error + tool_result) \<times> 'c registry \<times> 's" where
  "impl_Execute W G ReadKnowledge arguments s =
     (case knowledge_Execute (tw_lib W) (tw_knowledge_decoder W) (tw_files W) (rg_knowledge G) arguments s of (res, s1) \<Rightarrow> (res, G, s1))"
| "impl_Execute W G KubernetesRead arguments s =
     (case kubernetes_Execute (tw_lib W) (tw_kubernetes_decoder W) (tw_kube W) (tw_resources W) (rg_kubernetes G) arguments s of
        (res, T, s1) \<Rightarrow> (res, G\<lparr>rg_kubernetes := T\<rparr>, s1))"
| "impl_Execute W G Shell arguments s =
     (case shell_Execute (tw_lib W) (tw_shell_decoder W) (tw_shell W) (rg_max_bytes G) arguments s of
        (res, copied, _, s1) \<Rightarrow> (res, G\<lparr>rg_stdout := rg_stdout G @ [copied Stdout], rg_stderr := rg_stderr G @ [copied Stderr]\<rparr>, s1))"
| "impl_Execute W G (McpTool d) arguments s =
     (case manager_Execute (tw_mcp W) (rg_mcp G) (td_name d) arguments s of (res, M, s1) \<Rightarrow> (res, G\<lparr>rg_mcp := M\<rparr>, s1))"

definition answer_to :: "tool_call \<Rightarrow> string \<Rightarrow> string \<Rightarrow> tool_result" where
  "answer_to call code content = \<lparr>tlr_call_id = tc_id call, tlr_name = tc_name call, tlr_content = content, tlr_is_error = True,
     tlr_error_code = code, tlr_truncated = False\<rparr>"

definition failure_answer :: "tool_call \<Rightarrow> runtime_error \<Rightarrow> runtime_error + tool_result" where
  "failure_answer call err =
     (if er_canceled err \<or> er_deadline_exceeded err then Inl err
      else case er_coded err of
             Some c \<Rightarrow> Inr (answer_to call (cd_code c) (cd_message c))
           | None \<Rightarrow> Inr (answer_to call ''tool_execution_failed'' (er_text err)))"

definition registry_Execute ::
  "('c, 's) tool_world \<Rightarrow> 'c registry \<Rightarrow> tool_call \<Rightarrow> 's \<Rightarrow> (runtime_error + tool_result) \<times> 'c registry \<times> 's" where
  "registry_Execute W G call s =
     (case map_of (rg_allowed G) (tc_name call) of
        None \<Rightarrow>
          (Inr (if tc_name call \<in> set (rg_known G)
                then answer_to call ''tool_denied'' (''tool '' @ quote (tw_lib W) (tc_name call) @ '' is not allowed for this run'')
                else answer_to call ''unknown_tool'' (''tool '' @ quote (tw_lib W) (tc_name call) @ '' is not available'')), G, s)
      | Some selected \<Rightarrow>
          (case impl_Execute W G selected (tc_arguments call) s of
             (Inl err, G1, s1) \<Rightarrow> (failure_answer call err, G1, s1)
           | (Inr r, G1, s1) \<Rightarrow> (Inr (r\<lparr>tlr_call_id := tc_id call, tlr_name := tc_name call\<rparr>), G1, s1)))"

definition registry_Close :: "('c, 's) tool_world \<Rightarrow> 'c registry \<Rightarrow> 's \<Rightarrow> string option \<times> 'c registry \<times> 's" where
  "registry_Close W G s = (case manager_Close (tw_mcp W) (rg_mcp G) s of (err, M, s1) \<Rightarrow> (err, G\<lparr>rg_mcp := M\<rparr>, s1))"

subsection \<open>Calls and answers\<close>

lemma registry_Execute_answers:
  "registry_Execute W G call s = (Inr r, G', s') \<Longrightarrow> tlr_call_id r = tc_id call \<and> tlr_name r = tc_name call"
  by (auto simp: registry_Execute_def answer_to_def failure_answer_def split: option.splits prod.splits sum.splits if_splits)

lemma registry_keeps:
  assumes "registry_Execute W G call s = (res, G', s')"
  shows "rg_allowed G' = rg_allowed G \<and> rg_known G' = rg_known G \<and> rg_definitions G' = rg_definitions G"
proof -
  have "rg_allowed G1 = rg_allowed G \<and> rg_known G1 = rg_known G \<and> rg_definitions G1 = rg_definitions G"
    if "impl_Execute W G i a s = (res, G1, s1)" for i a res G1 s1
    using that by (cases i) (auto split: prod.splits)
  with assms show ?thesis by (auto simp: registry_Execute_def split: option.splits prod.splits sum.splits)
qed

text \<open>
  C38. Every call of a tool is answered, and only allowed tools run. The answer to a call carries the call's identifier and
  name, whatever the tool returned; a tool that the configuration does not allow is refused, as denied or unknown,
  without any effect; and the only failure that ends the run instead of becoming an answer is a cancelled or expired
  context.
\<close>

theorem registry_answers_calls:
  assumes "registry_Execute W G call s = (res, G', s')"
  shows "(case res of Inr r \<Rightarrow> tlr_call_id r = tc_id call \<and> tlr_name r = tc_name call | Inl e \<Rightarrow> er_canceled e \<or> er_deadline_exceeded e) \<and>
    (tc_name call \<notin> fst ` set (rg_allowed G) \<longrightarrow> G' = G \<and> s' = s \<and>
       (\<exists>r. res = Inr r \<and> tlr_is_error r \<and> tlr_error_code r = (if tc_name call \<in> set (rg_known G) then ''tool_denied'' else ''unknown_tool''))) \<and>
    rg_definitions G' = rg_definitions G \<and> rg_allowed G' = rg_allowed G"
proof -
  have "case res of Inr r \<Rightarrow> tlr_call_id r = tc_id call \<and> tlr_name r = tc_name call | Inl e \<Rightarrow> er_canceled e \<or> er_deadline_exceeded e"
    using assms registry_Execute_answers [of W G call s _ G' s']
    by (cases res) (auto simp: registry_Execute_def failure_answer_def split: option.splits prod.splits sum.splits if_splits)
  moreover have "map_of (rg_allowed G) (tc_name call) = None" if "tc_name call \<notin> fst ` set (rg_allowed G)"
    using that by (simp add: map_of_eq_None_iff)
  ultimately show ?thesis using assms registry_keeps [OF assms] by (auto simp: registry_Execute_def answer_to_def)
qed

subsection \<open>The tools that are offered\<close>

definition registry_ok :: "'c registry \<Rightarrow> bool" where
  "registry_ok G \<longleftrightarrow> distinct (map fst (rg_allowed G)) \<and> fst ` set (rg_allowed G) \<subseteq> set (rg_known G) \<and>
     rg_definitions G = map (impl_Definition \<circ> snd) (rg_allowed G) \<and> map td_name (rg_definitions G) = map fst (rg_allowed G)"

definition impls_ok :: "implementation go_map \<Rightarrow> bool" where
  "impls_ok impls \<longleftrightarrow> distinct (map fst impls) \<and> (\<forall>(n, i) \<in> set impls. td_name (impl_Definition i) = n)"

lemma add_mcp_tools_ok:
  "add_mcp_tools L impls ds = Inr impls' \<Longrightarrow> impls_ok impls \<Longrightarrow>
     impls_ok impls' \<and> map fst impls' = map fst impls @ map td_name ds"
proof (induction L impls ds rule: add_mcp_tools.induct)
  case (2 L impls d ds)
  then have new: "td_name d \<notin> fst ` set impls" and rest: "add_mcp_tools L (impls @ [(td_name d, McpTool d)]) ds = Inr impls'"
    by (simp_all split: if_splits)
  from new 2(3) have "impls_ok (impls @ [(td_name d, McpTool d)])" by (auto simp: impls_ok_def)
  from 2(1) [OF new rest this] show ?case by simp
qed simp

lemma builtin_ok: "impls_ok builtin_tools"
  by (simp add: impls_ok_def builtin_tools_def knowledge_Definition_def kubernetes_Definition_def shell_Definition_def)

lemma allow_tools_ok:
  assumes "allow_tools L impls allowed defs names = Inr (allowed', defs')" "impls_ok impls"
    and "distinct (map fst allowed)" "set allowed \<subseteq> set impls" "defs = map (impl_Definition \<circ> snd) allowed"
  shows "distinct (map fst allowed') \<and> set allowed' \<subseteq> set impls \<and> defs' = map (impl_Definition \<circ> snd) allowed' \<and>
    fst ` set allowed' = fst ` set allowed \<union> trim_space ` set names"
  using assms
proof (induction L impls allowed defs names rule: allow_tools.induct)
  case (2 L impls allowed defs c rest)
  then obtain i where i: "map_of impls (trim_space c) = Some i" by (auto simp: Let_def split: option.splits)
  then have "(trim_space c, i) \<in> set impls" by (rule map_of_SomeD)
  with 2 i show ?case by (cases "trim_space c \<in> fst ` set allowed") (auto simp: Let_def)
qed simp

text \<open>
  The run offers the model exactly the tools that the configuration allows: a registry that starts knows the built-in
  tools and those of the MCP servers, under distinct names; the allowed ones are the configured names, each known; and
  the definitions given to the provider are theirs, one for each name. Nothing more than the safe limit is captured.
\<close>

theorem NewWithContext_offers_allowed:
  assumes "NewWithContext W c s = (Inr G, s')"
  shows "distinct (rg_known G) \<and> {NameReadKnowledge, NameKubernetesRead, NameShell} \<subseteq> set (rg_known G) \<and>
    fst ` set (rg_allowed G) = trim_space ` set (tg_allowed c) \<and> set (map fst (rg_allowed G)) \<subseteq> set (rg_known G) \<and>
    map td_name (rg_definitions G) = map fst (rg_allowed G) \<and> distinct (map td_name (rg_definitions G)) \<and>
    0 < rg_max_bytes G \<and> rg_max_bytes G \<le> maxSafeCapturedBytes"
proof -
  obtain ds impls allowed defs where m: "add_mcp_tools (tw_lib W) builtin_tools ds = Inr impls"
    and a: "allow_tools (tw_lib W) impls [] [] (tg_allowed c) = Inr (allowed, defs)"
    and G: "rg_allowed G = allowed" "rg_known G = map fst impls" "rg_definitions G = defs"
      "0 < rg_max_bytes G" "rg_max_bytes G \<le> maxSafeCapturedBytes"
    using assms by (auto simp: NewWithContext_def Let_def split: if_splits prod.splits sum.splits)
  note impls = add_mcp_tools_ok [OF m builtin_ok]
  have al: "distinct (map fst allowed)" "set allowed \<subseteq> set impls" "defs = map (impl_Definition \<circ> snd) allowed"
    "fst ` set allowed = trim_space ` set (tg_allowed c)" using allow_tools_ok [OF a] impls by auto
  have names: "map td_name defs = map fst allowed" using al(2,3) impls by (fastforce simp: impls_ok_def)
  have "map fst impls = [NameReadKnowledge, NameKubernetesRead, NameShell] @ map td_name ds"
    using impls by (simp add: builtin_tools_def)
  then have "{NameReadKnowledge, NameKubernetesRead, NameShell} \<subseteq> set (map fst impls)" by simp
  moreover have "set (map fst allowed) \<subseteq> set (map fst impls)" using al(2) by auto
  moreover have "distinct (map fst impls)" using impls unfolding impls_ok_def by blast
  ultimately show ?thesis unfolding G(1-3) names using G(4,5) al(1,4) by blast
qed

subsection \<open>A run with one MCP server\<close>

definition echo_tools :: "(unit, nat) tool_world" where
  "echo_tools = \<lparr>tw_lib = plain_golib, tw_knowledge_decoder = path_decoder, tw_kubernetes_decoder = get_pod,
     tw_shell_decoder = (\<lambda>_. Inl ''EOF''), tw_resources = [],
     tw_files = \<lparr>fs_ctx_err = (\<lambda>s. (CtxActive, s)), fs_eval_symlinks = (\<lambda>p s. (Inr p, s)), fs_open = (\<lambda>p s. (Inr note_file, s))\<rparr>,
     tw_kube = \<lparr>kw_read_file = (\<lambda>p s. (Inl ''no such file'', s)), kw_getenv = (\<lambda>n s. ([], s)), kw_pem_valid = (\<lambda>_. True),
       kw_new_request = (\<lambda>_. None), kw_set_query = (\<lambda>u k v. u), kw_json_valid = (\<lambda>_. True), kw_do = (\<lambda>_ q s. (Inl ''refused'', s)),
       kw_client_ctx_err = (\<lambda>s. (CtxActive, s))\<rparr>,
     tw_shell = \<lparr>sw_stat = (\<lambda>d s. (Inr True, s)), sw_start = (\<lambda>c s. (Inr 7, s)), sw_await = (\<lambda>p s. ([], Waited None, s)),
       sw_ctx_err = (\<lambda>s. (CtxActive, s)), sw_proc = idle_procs\<rparr>,
     tw_mcp = echo_world\<rparr>"

definition echo_config :: tools_config where
  "echo_config = \<lparr>tg_allowed = [''echo'', '' shell'', ''echo''], tg_knowledge_root = [], tg_max_captured_bytes = 0,
     tg_kubernetes = \<lparr>kc_base_url = [], kc_namespace = [], kc_token = [], kc_client = None\<rparr>, tg_mcp = [echo_server]\<rparr>"

lemma echo_registry:
  "\<exists>G. NewWithContext echo_tools echo_config 0 = (Inr G, 1) \<and> map fst (rg_allowed G) = [''echo'', ''shell''] \<and> NameReadKnowledge \<in> set (rg_known G)"
proof -
  have "map_sum (\<lambda>_. ()) (\<lambda>G. (map fst (rg_allowed G), List.member (rg_known G) NameReadKnowledge)) (fst (NewWithContext echo_tools echo_config 0)) = Inr ([''echo'', ''shell''], True)
      \<and> snd (NewWithContext echo_tools echo_config 0) = 1" by code_simp
  then show ?thesis by (cases "NewWithContext echo_tools echo_config 0"; cases "fst (NewWithContext echo_tools echo_config 0)") auto
qed

theorem NewWithContext_offers_allowed_witness:
  "\<exists>G. NewWithContext echo_tools echo_config 0 = (Inr G, 1) \<and> map td_name (rg_definitions G) = [''echo'', ''shell'']"
proof -
  obtain G where G: "NewWithContext echo_tools echo_config 0 = (Inr G, 1) \<and> map fst (rg_allowed G) = [''echo'', ''shell''] \<and> NameReadKnowledge \<in> set (rg_known G)"
    using echo_registry by (rule exE)
  note o = NewWithContext_offers_allowed [OF conjunct1 [OF G]]
  show ?thesis by (rule exI [of _ G]) (use G o in simp)
qed

theorem registry_answers_calls_witness:
  "\<exists>G res. fst (NewWithContext echo_tools echo_config 0) = Inr G \<and>
     registry_Execute echo_tools G \<lparr>tc_id = ''c1'', tc_name = NameReadKnowledge, tc_arguments = ''a''\<rparr> 1 = (res, G, 1) \<and>
     (\<exists>r. res = Inr r \<and> tlr_call_id r = ''c1'' \<and> tlr_error_code r = ''tool_denied'')"
proof -
  obtain G where G: "NewWithContext echo_tools echo_config 0 = (Inr G, 1) \<and> map fst (rg_allowed G) = [''echo'', ''shell''] \<and> NameReadKnowledge \<in> set (rg_known G)"
    using echo_registry by (rule exE)
  then have "set (map fst (rg_allowed G)) = {''echo'', ''shell''}" by simp
  then have no: "NameReadKnowledge \<notin> fst ` set (rg_allowed G)" by simp
  let ?call = "\<lparr>tc_id = ''c1'', tc_name = NameReadKnowledge, tc_arguments = ''a''\<rparr>"
  obtain res G' s' where x: "registry_Execute echo_tools G ?call 1 = (res, G', s')" by (metis surj_pair)
  note a = registry_answers_calls [OF x]
  then have "G' = G \<and> s' = 1 \<and> (\<exists>r. res = Inr r \<and> tlr_call_id r = ''c1'' \<and> tlr_error_code r = ''tool_denied'')"
    using no G by auto
  with x G show ?thesis by (intro exI [of _ G] exI [of _ res]) simp
qed

end
