(* ===== verification/Engine_Tools.thy ===== *)
theory Engine_Tools
  imports Engine_Run Provider_Wire Tool_Registry
begin

text \<open>
  The engine with the tools of \<^verbatim>\<open>tools.go\<close>. The locale \<open>answering_engine\<close> is what the engine relies on: a tool that
  answers, answers the call it was given. Then in every request of a run the tool results answer the tool calls, one by
  one and in order, and every message has the form the wire formats of the providers can express.
\<close>

subsection \<open>Conversations that can be sent\<close>

text \<open>The calls that were executed and answered in a trace, with what the tools returned.\<close>

definition executed :: "rt_event list \<Rightarrow> (tool_call \<times> tool_result) list" where
  "executed t = List.map_filter (\<lambda>e. case e of Executed call (Inr r) \<Rightarrow> Some (call, r) | _ \<Rightarrow> None) t"

lemma executed_simps [simp]:
  "executed [] = []" "executed (t @ t') = executed t @ executed t'" "executed (Completed q a # t) = executed t"
  "executed (Executed call (Inr r) # t) = (call, r) # executed t" "executed (Executed call (Inl err) # t) = executed t"
  "executed (ClosedTools e # t) = executed t" "executed (Emitted m # t) = executed t"
  by (simp_all add: executed_def map_filter_def)

lemma executed_quiet [simp]: "quiet t \<Longrightarrow> executed t = []"
  by (induction t) (auto simp: quiet_def)

text \<open>What the model gets of a result: all of it, or the part of the content that the limits leave, marked as truncated.\<close>

definition shortened :: "tool_result \<Rightarrow> tool_result \<Rightarrow> bool" where
  "shortened r b \<longleftrightarrow> b = r \<or> (\<exists>k. b = r\<lparr>tlr_content := fst (Bound (tlr_content r) k), tlr_truncated := True\<rparr>)"

lemma applyToolOutput_shortened: "applyToolOutput lm r n = (b, n') \<Longrightarrow> shortened r b"
  by (auto simp: applyToolOutput_def shortened_def Let_def split: prod.splits if_splits) (metis fst_conv)

text \<open>A conversation that holds exactly the calls that were executed, each answered by what its tool returned.\<close>

definition answered_calls :: "(tool_call \<times> tool_result) list \<Rightarrow> conversation \<Rightarrow> bool" where
  "answered_calls xs c \<longleftrightarrow> list_all message_fits c \<and> calls_of c = map fst xs \<and> list_all2 shortened (map snd xs) (results_of c) \<and>
     map tlr_call_id (results_of c) = map tc_id (calls_of c)"

definition request_answered :: "tool_definition list \<Rightarrow> (tool_call \<times> tool_result) list \<Rightarrow> completion_request \<Rightarrow> bool" where
  "request_answered defs xs q \<longleftrightarrow> answered_calls xs (cq_messages q) \<and> cq_tools q = defs"

lemma validated_blocks:
  "blocks_error L jv i bs = None \<Longrightarrow> list_all (block_fits RoleAssistant) bs \<and> block_results bs = []"
proof (induction bs arbitrary: i)
  case (Cons b bs)
  then have b: "block_error L jv i b = None" and bs: "blocks_error L jv (i + 1) bs = None" by (simp_all split: option.splits)
  from b have "cb_type b = ContentTypeText \<or> cb_type b = ContentTypeToolCall \<and> cb_tool_call b \<noteq> None"
    by (auto simp: block_error_def split: if_splits option.splits)
  with Cons.IH [OF bs] show ?case by (auto simp: block_fits_def block_results_def map_filter_simps)
qed (simp add: block_results_def map_filter_simps)

lemma validated_message:
  assumes "ValidateResponse L jv response = None"
  shows "message_fits (cp_message response)" "MessageToolResults (cp_message response) = []"
proof -
  from assms have "blocks_error L jv 0 (mg_content (cp_message response)) = None" "mg_role (cp_message response) = RoleAssistant"
    by (auto simp: ValidateResponse_def split: if_splits option.splits)
  with validated_blocks show "message_fits (cp_message response)" "MessageToolResults (cp_message response) = []"
    by (auto simp: message_fits_def message_blocks)
qed

lemma tool_message:
  "message_fits \<lparr>mg_role = RoleTool, mg_content = map result_block rs\<rparr>"
  "MessageToolCalls \<lparr>mg_role = RoleTool, mg_content = map result_block rs\<rparr> = []"
  "MessageToolResults \<lparr>mg_role = RoleTool, mg_content = map result_block rs\<rparr> = rs"
  by (induction rs) (auto simp: message_fits_def block_fits_def result_block_def MessageToolCalls_def MessageToolResults_def map_filter_simps list_all_iff)

lemma answered_start: "answered_calls [] (ls_conversation (newLoopState goal t0))"
  by (simp add: answered_calls_def newLoopState_def conversation_New_def text_block_def message_fits_def block_fits_def
      results_of_def calls_of_def MessageToolCalls_def MessageToolResults_def map_filter_simps)

lemma answered_paused:
  assumes "answered_calls xs c" "ValidateResponse L jv response = None" "MessageToolCalls (cp_message response) = []"
  shows "answered_calls xs (c @ [cp_message response])"
  using assms(1,3) validated_message [OF assms(2)] by (simp add: answered_calls_def results_of_def calls_of_def)

definition batch_answered :: "tool_call list \<Rightarrow> (tool_call \<times> tool_result) list \<Rightarrow> tool_result list \<Rightarrow> bool" where
  "batch_answered calls ys rs \<longleftrightarrow> map fst ys = calls \<and> list_all2 shortened (map snd ys) rs \<and> map tlr_call_id rs = map tc_id calls"

lemma answered_batch:
  assumes "answered_calls xs c" "ValidateResponse L jv response = None" "batch_answered (MessageToolCalls (cp_message response)) ys rs"
  shows "answered_calls (xs @ ys) ((c @ [cp_message response]) @ [\<lparr>mg_role = RoleTool, mg_content = map result_block rs\<rparr>])"
  using assms(1,3) validated_message [OF assms(2)] tool_message [of rs]
  by (simp add: answered_calls_def batch_answered_def results_of_def calls_of_def list_all2_appendI)

text \<open>Every request of a trace carries the calls executed before it, \<open>xs\<close> being those before the trace.\<close>

fun requests_answered :: "tool_definition list \<Rightarrow> (tool_call \<times> tool_result) list \<Rightarrow> rt_event list \<Rightarrow> bool" where
  "requests_answered defs xs [] \<longleftrightarrow> True"
| "requests_answered defs xs (e # t) \<longleftrightarrow>
     (\<forall>q a. e = Completed q a \<longrightarrow> request_answered defs xs q) \<and> requests_answered defs (xs @ executed [e]) t"

lemma requests_answered_append [simp]:
  "requests_answered defs xs (t @ t') \<longleftrightarrow> requests_answered defs xs t \<and> requests_answered defs (xs @ executed t) t'"
proof (induction t arbitrary: xs)
  case (Cons e t)
  have "executed (e # t) = executed [e] @ executed t" using executed_simps(2) [of "[e]" t] by simp
  with Cons show ?case by simp
qed simp

lemma requests_answered_none: "(\<And>q a. Completed q a \<notin> set t) \<Longrightarrow> requests_answered defs xs t"
proof (induction t arbitrary: xs)
  case (Cons e t)
  then have "requests_answered defs (xs @ executed [e]) t" by simp
  moreover have "e \<noteq> Completed q a" for q a using Cons.prems [of q a] by auto
  ultimately show ?case by simp
qed simp

lemma requests_answered_quiet [simp]: "quiet t \<Longrightarrow> requests_answered defs xs t"
  by (rule requests_answered_none) (rule quiet_no_request)

lemma requests_answered_tools: "tool_events t \<Longrightarrow> requests_answered defs xs t"
  by (rule requests_answered_none) (force simp: tool_events_def completions_def filter_empty_conv)

lemma requests_answered_at:
  "requests_answered defs [] (before @ Completed q a # after) \<Longrightarrow> request_answered defs (executed before) q"
  by simp

subsection \<open>What the engine relies on\<close>

locale answering_engine =
  fixes X :: "'s engine"
  assumes answers: "eg_execute X call s = (Inr r, s') \<Longrightarrow> tlr_call_id r = tc_id call"
begin

lemma call_tool_answers:
  assumes "call_tool X lm rid st call s = ((Inr b, st1), t, s')"
  shows "\<exists>r. executed t = [(call, r)] \<and> shortened r b \<and> tlr_call_id b = tc_id call"
proof -
  obtain t0 st0 answer s1 s2 t2 where e: "eg_execute X call s1 = (answer, s2)" "t = Executed call answer # t2"
    and rest: "tool_answer X lm rid st0 t0 answer s2 = ((Inr b, st1), t2, s')"
    using assms by (auto simp: call_tool_def Let_def rt_eqs)
  from tool_answer_does [OF rest] have q: "quiet t2" by simp
  from rest obtain r where r: "answer = Inr r" "\<exists>n n'. applyToolOutput lm r n = (b, n')"
    by (cases answer) (auto simp: tool_answer_def rt_eqs split: prod.splits)
  then have "shortened r b" using applyToolOutput_shortened by blast
  with e q r answers [of call s1 r s2] show ?thesis by (auto simp: shortened_def)
qed

lemma tool_loop_answers:
  "tool_loop X lm rid st blocks calls s = ((Inr bs, st1), t, s') \<Longrightarrow>
     \<exists>rs. bs = blocks @ map result_block rs \<and> batch_answered calls (executed t) rs"
proof (induction calls arbitrary: st blocks s t)
  case (Cons call calls)
  then obtain out st2 t1 s2 t2 where call: "call_tool X lm rid st call s = ((out, st2), t1, s2)"
    and after: "(case out of Inl r \<Rightarrow> rt_return (Inl r, st2)
            | Inr b \<Rightarrow> tool_loop X lm rid st2 (blocks @ [result_block b]) calls) s2 = ((Inr bs, st1), t2, s')" and t: "t = t1 @ t2"
    by (auto simp: rt_bind_eq rt_return_eq split: option.split_asm)
  then obtain b where "out = Inr b" by (cases out) (auto simp: rt_eqs)
  with call after have one: "call_tool X lm rid st call s = ((Inr b, st2), t1, s2)"
    and rest: "tool_loop X lm rid st2 (blocks @ [result_block b]) calls s2 = ((Inr bs, st1), t2, s')" by simp_all
  from Cons.IH [OF rest] obtain rs where "bs = blocks @ map result_block (b # rs)" "batch_answered calls (executed t2) rs" by auto
  with call_tool_answers [OF one] t show ?case by (intro exI [of _ "b # rs"]) (auto simp: batch_answered_def)
qed (simp add: rt_eqs batch_answered_def)

lemma batch_answers:
  assumes "executeToolBatch X lm st response calls s = ((None, st1), t, s')"
  shows "\<exists>rs. ls_conversation st1 = ls_conversation st @ [\<lparr>mg_role = RoleTool, mg_content = map result_block rs\<rparr>] \<and> batch_answered calls (executed t) rs"
proof -
  obtain out st2 t2 s2 t3 where all: "tool_loop X lm (cp_request_id response) st [] calls s = ((out, st2), t2, s2)"
    and after: "(case out of Inl r \<Rightarrow> rt_return (Some r, st2)
       | Inr bs \<Rightarrow> rt_return (None, st2\<lparr>ls_conversation := conversation_Append (ls_conversation st2) \<lparr>mg_role = RoleTool, mg_content = bs\<rparr>\<rparr>)) s2
         = ((None, st1), t3, s')" and t: "t = t2 @ t3"
    using assms by (auto simp: executeToolBatch_def rt_bind_eq rt_return_eq split: option.split_asm)
  then obtain bs where "out = Inr bs" by (cases out) (auto simp: rt_eqs)
  with all after have loop: "tool_loop X lm (cp_request_id response) st [] calls s = ((Inr bs, st2), t2, s2)"
    and st1: "st1 = st2\<lparr>ls_conversation := conversation_Append (ls_conversation st2) \<lparr>mg_role = RoleTool, mg_content = bs\<rparr>\<rparr>" "t3 = []"
    by (simp_all add: rt_return_eq)
  from tool_loop_does [OF loop] have "ls_conversation st2 = ls_conversation st" by (simp add: batch_ok_def)
  with tool_loop_answers [OF loop] st1 t show ?thesis by (auto simp: conversation_Append_def)
qed

lemma turn_answers:
  assumes "answered_calls xs (ls_conversation st)" "turn_ok X lm defs st o' st1 t"
  shows "requests_answered defs xs t \<and> executed t = []"
proof -
  have "request_answered defs xs (turn_request X lm defs st)" using assms(1) by (simp add: request_answered_def turn_request_def)
  with assms(2) show ?thesis unfolding turn_ok_def by auto
qed

lemma cleanup_answers: "cleanupToolExecutor X st r s = (r', t, s') \<Longrightarrow> requests_answered defs xs t"
  using cleanup_does [of X st r s r' t s'] by auto

lemma finish_answers: "finish_final X st response r s = (r', t, s') \<Longrightarrow> requests_answered defs xs t"
  by (auto simp: finish_final_def rt_eqs split: if_splits dest!: cleanup_answers)

lemma iterate_answers:
  assumes conv: "answered_calls xs (ls_conversation st)" and it: "iterate X lm defs st s = (res, t, s')"
  shows "requests_answered defs xs t \<and> (case res of Inl _ \<Rightarrow> True | Inr st' \<Rightarrow> answered_calls (xs @ executed t) (ls_conversation st'))"
proof -
  from it obtain o' st1 t1 s1 t2 where turn: "providerTurn X lm defs st s = ((o', st1), t1, s1)" and t: "t = t1 @ t2"
    and rest: "(case o' of
         TurnPaused \<Rightarrow> rt_return (Inr st1)
       | TurnFinal response result \<Rightarrow> rt_bind (finish_final X st1 response result) (\<lambda>r. rt_return (Inl r))
       | TurnFailed result \<Rightarrow> rt_bind (cleanupToolExecutor X st1 result) (\<lambda>r. rt_return (Inl r))
       | TurnToolBatch response calls \<Rightarrow>
           rt_bind (executeToolBatch X lm st1 response calls) (\<lambda>(res, st2).
             case res of
               Some result \<Rightarrow> rt_bind (cleanupToolExecutor X st2 result) (\<lambda>r. rt_return (Inl r))
             | None \<Rightarrow> rt_return (Inr st2))) s1 = (res, t2, s')"
    by (auto simp: iterate_def rt_bind_eq)
  note ok = providerTurn_does [OF turn]
  note t1 = turn_answers [OF conv ok]
  have valid: "\<exists>response. ValidateResponse (eg_lib X) (eg_json_valid X) response = None \<and> outcome_ok response o' \<and>
      ls_conversation st1 = ls_conversation st @ [cp_message response]" if "\<forall>r. o' \<noteq> TurnFailed r"
    using ok that by (auto simp: turn_ok_def turn_done_def)
  show ?thesis
  proof (cases o')
    case TurnPaused
    with valid rest t t1 conv show ?thesis by (auto simp: rt_eqs outcome_ok_def intro: answered_paused)
  next
    case (TurnFailed r)
    with rest t t1 show ?thesis by (auto simp: rt_eqs dest: cleanup_answers)
  next
    case (TurnFinal response r)
    with rest t t1 show ?thesis by (auto simp: rt_eqs dest: finish_answers)
  next
    case (TurnToolBatch response calls)
    with valid have v: "ValidateResponse (eg_lib X) (eg_json_valid X) response = None" "calls = MessageToolCalls (cp_message response)"
      "ls_conversation st1 = ls_conversation st @ [cp_message response]" by (auto simp: outcome_ok_def)
    from rest TurnToolBatch obtain out st2 t3 s3 t4 where batch: "executeToolBatch X lm st1 response calls s1 = ((out, st2), t3, s3)"
      and t2: "t2 = t3 @ t4" and after: "(case out of Some result \<Rightarrow> rt_bind (cleanupToolExecutor X st2 result) (\<lambda>r. rt_return (Inl r))
             | None \<Rightarrow> rt_return (Inr st2)) s3 = (res, t4, s')" by (auto simp: rt_bind_eq)
    have t3: "requests_answered defs xs' t3" for xs' using executeToolBatch_does [OF batch] requests_answered_tools by blast
    show ?thesis
    proof (cases out)
      case None
      with after have "res = Inr st2" "t4 = []" by (simp_all add: rt_eqs)
      moreover from None batch batch_answers obtain rs where "batch_answered calls (executed t3) rs"
        "ls_conversation st2 = ls_conversation st1 @ [\<lparr>mg_role = RoleTool, mg_content = map result_block rs\<rparr>]" by blast
      ultimately show ?thesis using t t1 t2 t3 v answered_batch [OF conv v(1), of "executed t3" rs] by simp
    next
      case (Some r)
      with after t t1 t2 t3 show ?thesis by (auto simp: rt_eqs dest: cleanup_answers)
    qed
  qed
qed

lemma run_loop_answers:
  assumes "run_loop X lm defs st t s = Some (r, t', s')" "answered_calls (executed t) (ls_conversation st)" "requests_answered defs [] t"
  shows "requests_answered defs [] t'"
proof -
  let ?good = "\<lambda>(st, t, _). answered_calls (executed t) (ls_conversation st) \<and> requests_answered defs [] t"
  let ?post = "\<lambda>(_, t, _). requests_answered defs [] t"
  have step: "case loop_step X lm defs x of Inl y \<Rightarrow> ?post y | Inr x' \<Rightarrow> ?good x'" if good: "?good x" for x
  proof -
    obtain st t s where x: "x = (st, t, s)" by (cases x)
    obtain res t1 s1 where it: "iterate X lm defs st s = (res, t1, s1)" by (cases "iterate X lm defs st s")
    from iterate_answers [OF _ it] good show ?thesis by (cases res) (simp_all add: x loop_step_def it)
  qed
  have "?good x'" if "?good x" "loop_step X lm defs x = Inr x'" for x x' using step [OF that(1)] that(2) by simp
  moreover have "?post y" if "?good x" "loop_step X lm defs x = Inl y" for x y using step [OF that(1)] that(2) by simp
  moreover have "case (st, t, s) of (st, t, s) \<Rightarrow> run_loop X lm defs st t s = Some (r, t', s')" using assms(1) by simp
  ultimately have "?post (r, t', s')"
    using engine_loop.partial_correctness [where good = ?good and post = ?post and x = "(st, t, s)" and r = "(r, t', s')" and X = X and lm = lm and defs = defs]
      assms(2,3) by auto
  then show ?thesis by simp
qed

lemma run_answers:
  assumes "run X lm (newLoopState goal t0) s = Some (r, t, s')"
  shows "\<exists>defs s1. eg_definitions X s = (defs, s1) \<and> requests_answered defs [] t"
proof -
  obtain defs t1 s1 where a: "announce_tools X s = (defs, t1, s1)" by (cases "announce_tools X s")
  then obtain s2 where d: "eg_definitions X s = (defs, s2)" by (auto simp: announce_tools_def rt_eqs)
  from a assms have "run_loop X lm defs (newLoopState goal t0) t1 s1 = Some (r, t, s')" by (simp add: run_def)
  from run_loop_answers [OF this] announce_quiet [OF a] answered_start d show ?thesis by auto
qed

lemma Run_answers:
  assumes "Run R s = Some (r, t, s')" "rn_engine R = X"
  shows "\<exists>defs. requests_answered defs [] t"
  using assms(1)
proof (cases rule: Run_split)
  case failed
  then show ?thesis by auto
next
  case (ready t0 t1 t' s3)
  from run_answers [OF ready(3) [unfolded assms(2)]] ready(1,2) show ?thesis by auto
qed

end

subsection \<open>The tools of a run\<close>

text \<open>The registry is a pointer, which is nil before the tools were resolved.\<close>

fun execute_tool :: "('c, 's) tool_world \<Rightarrow> tool_call \<Rightarrow> 's \<times> 'c registry option \<Rightarrow> (runtime_error + tool_result) \<times> 's \<times> 'c registry option" where
  "execute_tool W call (s, None) = (Inr (answer_to call ''tool_unavailable'' ''tool execution is unavailable''), s, None)"
| "execute_tool W call (s, Some G) = (case registry_Execute W G call s of (res, G1, s1) \<Rightarrow> (res, s1, Some G1))"

fun close_tools :: "('c, 's) tool_world \<Rightarrow> 's \<times> 'c registry option \<Rightarrow> string option \<times> 's \<times> 'c registry option" where
  "close_tools W (s, None) = (None, s, None)"
| "close_tools W (s, Some G) = (case registry_Close W G s of (err, G1, s1) \<Rightarrow> (err, s1, Some G1))"

fun tool_definitions :: "'s \<times> 'c registry option \<Rightarrow> tool_definition list \<times> 's \<times> 'c registry option" where
  "tool_definitions (s, G) = ((case G of None \<Rightarrow> [] | Some G \<Rightarrow> rg_definitions G), s, G)"

definition on_world :: "('s \<Rightarrow> 'a \<times> 's) \<Rightarrow> 's \<times> 'g \<Rightarrow> 'a \<times> 's \<times> 'g" where
  "on_world op x = (case op (fst x) of (v, s) \<Rightarrow> (v, s, snd x))"

definition tools_engine :: "('c, 's) tool_world \<Rightarrow> 's engine \<Rightarrow> ('s \<times> 'c registry option) engine" where
  "tools_engine W E = \<lparr>eg_lib = eg_lib E, eg_json_valid = eg_json_valid E, eg_emitter = eg_emitter E, eg_config = eg_config E,
     eg_now = on_world (eg_now E), eg_ctx_err = on_world (eg_ctx_err E), eg_complete = (\<lambda>q. on_world (eg_complete E q)),
     eg_definitions = tool_definitions, eg_execute = execute_tool W, eg_close = close_tools W\<rparr>"

interpretation tools_run: answering_engine "tools_engine W E" for W E
proof (unfold_locales, goal_cases)
  case (1 call x r x')
  obtain s G where x: "x = (s, G)" by (cases x)
  show ?case
    using 1 by (cases G) (auto simp: tools_engine_def x answer_to_def split: prod.splits dest: registry_Execute_answers)
qed

text \<open>
  C31. Whatever the provider answers and whatever the tools do, every request of a run carries exactly the tool calls that
  were executed before it, in their order, each answered by one result with its identifier: the one its tool returned,
  or the part of it that the limits leave, marked as truncated. When the tool definitions of the request pass the check
  of the providers, both accept it, and the bodies of both wire formats carry exactly these calls and, under their
  identifiers, the contents of exactly these results.
\<close>

theorem run_requests_fit_providers:
  assumes "Run R s = Some (r, t, s')" "rn_engine R = tools_engine W E" "t = before @ Completed q a # after"
    and "validateToolDefinitions (hl_json_valid H) 0 (cq_tools q) = None"
  shows "map tlr_call_id (results_of (cq_messages q)) = map tc_id (calls_of (cq_messages q)) \<and>
    calls_of (cq_messages q) = map fst (executed before) \<and>
    list_all2 shortened (map snd (executed before)) (results_of (cq_messages q)) \<and>
    (\<exists>p. anthropicRequest H q = Inr p \<and> anthropic_sent_calls p = calls_of (cq_messages q) \<and>
       anthropic_sent_results p = map shown_result (results_of (cq_messages q)) \<and>
       map fst (anthropic_sent_results p) = map tc_id (anthropic_sent_calls p)) \<and>
    (\<exists>p. openAIRequest H q = Inr p \<and> openai_sent_calls p = calls_of (cq_messages q) \<and>
       openai_sent_results p = map shown_result (results_of (cq_messages q)) \<and>
       map fst (openai_sent_results p) = map tc_id (openai_sent_calls p))"
proof -
  from tools_run.Run_answers [OF assms(1,2)] obtain defs where "request_answered defs (executed before) q"
    unfolding assms(3) using requests_answered_at by blast
  then have fits: "list_all message_fits (cq_messages q)"
    and ids: "map tlr_call_id (results_of (cq_messages q)) = map tc_id (calls_of (cq_messages q))"
    and sent: "calls_of (cq_messages q) = map fst (executed before)" "list_all2 shortened (map snd (executed before)) (results_of (cq_messages q))"
    by (simp_all add: request_answered_def answered_calls_def)
  obtain p p' where p: "anthropicRequest H q = Inr p" "openAIRequest H q = Inr p'"
    using anthropic_wire.accepts [OF assms(4) fits] openai_wire.accepts [OF assms(4) fits] by blast
  show ?thesis
    using ids sent p anthropic_wire.keeps_calls [OF p(1)] anthropic_wire.paired [OF p(1) ids] anthropic_wire.keeps_results [OF p(1)]
      openai_wire.keeps_calls [OF p(2)] openai_wire.paired [OF p(2) ids] openai_wire.keeps_results [OF p(2)] by blast
qed

definition echo_runner :: "(nat \<times> unit registry option) runner" where
  "echo_runner = \<lparr>rn_engine = tools_engine echo_tools script_engine, rn_resolve = (\<lambda>_ s. (None, s)),
     rn_resolve_tools = Some (\<lambda>_ s. (ToolsReady, s))\<rparr>"

theorem run_requests_fit_providers_witness:
  "\<exists>r t s' before q a after. Run echo_runner (0, None) = Some (r, t, s') \<and> t = before @ Completed q a # after \<and>
     map tc_id (calls_of (cq_messages q)) = [''c''] \<and> map tlr_call_id (results_of (cq_messages q)) = [''c''] \<and>
     map (tc_id \<circ> fst) (executed before) = [''c'']"
proof -
  let ?ids = "\<lambda>e. case e of Completed q a \<Rightarrow> map tc_id (calls_of (cq_messages q)) = [''c''] \<and> cq_tools q = [] | _ \<Rightarrow> False"
  have "case Run echo_runner (0, None) of None \<Rightarrow> False | Some (r, t, s') \<Rightarrow> list_ex ?ids t" by code_simp
  then obtain r t s' e where run: "Run echo_runner (0, None) = Some (r, t, s')" and e: "e \<in> set t" "?ids e"
    by (auto simp: list_ex_iff split: option.splits prod.splits)
  from e obtain q a where q: "Completed q a \<in> set t" "map tc_id (calls_of (cq_messages q)) = [''c'']" "cq_tools q = []"
    by (auto split: rt_event.splits)
  from q(1) obtain before after where t: "t = before @ Completed q a # after" by (meson split_list)
  have "rn_engine echo_runner = tools_engine echo_tools script_engine" by (simp add: echo_runner_def)
  from run_requests_fit_providers [OF run this t, of plain_http_lib] q(2,3) run t show ?thesis by (metis (no_types) map_map validateToolDefinitions.simps(1))
qed

end
