(* ===== verification/Providers.thy ===== *)
theory Providers
  imports Provider_Wire
begin

text \<open>
  The scripted provider of the test suites, \<^verbatim>\<open>provider/fake.go\<close> and \<^verbatim>\<open>provider/fake_sequence.go\<close>, and the choice of
  a provider from the configuration, \<^verbatim>\<open>provider/provider.go\<close>. The strict decoder of a tool sequence and the test that
  arguments are a JSON object are parameters; waiting for a delay is an operation on the world.
\<close>

subsection \<open>Counting words\<close>

text \<open>\<^verbatim>\<open>len(strings.Fields(s))\<close>: the number of maximal runs without white space.\<close>

function count_fields :: "bool \<Rightarrow> string \<Rightarrow> nat" where
  "count_fields inside s =
     (if s = [] then 0
      else if leading_space s > 0 then count_fields False (drop (leading_space s) s)
      else (if inside then 0 else 1) + count_fields True (drop (max 1 (rune_len s)) s))"
  by pat_completeness auto
termination by (relation "measure (\<lambda>(_, s). length s)") auto

declare count_fields.simps [simp del]

definition token_count :: "string \<Rightarrow> int" where
  "token_count s = int (count_fields False s)"

subsection \<open>The scripted provider\<close>

abbreviation FakeScenarioSuccess :: string where "FakeScenarioSuccess \<equiv> ''success''"
abbreviation FakeScenarioFailure :: string where "FakeScenarioFailure \<equiv> ''failure''"
abbreviation FakeScenarioMalformed :: string where "FakeScenarioMalformed \<equiv> ''malformed''"
abbreviation FakeScenarioDelay :: string where "FakeScenarioDelay \<equiv> ''delay''"
abbreviation FakeScenarioTool :: string where "FakeScenarioTool \<equiv> ''tool''"
abbreviation FakeScenarioToolSequence :: string where "FakeScenarioToolSequence \<equiv> ''tool_sequence''"

record sequence_entry =
  se_name :: string
  se_arguments :: string

record fake =
  fk_scenario :: string
  fk_delay :: duration
  fk_tool_name :: string
  fk_tool_arguments :: string
  fk_tool_sequence :: "sequence_entry list"

record fake_lib =
  fl_http :: http_lib
  fl_decode_sequence :: "string \<Rightarrow> (sequence_entry list \<times> trailing) go_result"
  fl_json_object :: "string \<Rightarrow> bool"

fun check_entries :: "fake_lib \<Rightarrow> nat \<Rightarrow> sequence_entry list \<Rightarrow> sequence_entry list go_result" where
  "check_entries F index [] = Inr []"
| "check_entries F index (e # es) =
     (let entry = e\<lparr>se_name := trim_space (se_name e)\<rparr>; place = ''KONTEXT_FAKE_TOOL_SEQUENCE entry '' @ show_nat index in
      if se_name entry = [] then Inl (place @ '' requires name'')
      else if se_arguments entry = [] then Inl (place @ '' requires arguments'')
      else if \<not> fl_json_object F (se_arguments entry) then Inl (place @ '' arguments must be a JSON object'')
      else go_bind (check_entries F (index + 1) es) (\<lambda>rest. Inr (entry # rest)))"

definition parseFakeToolSequence :: "fake_lib \<Rightarrow> string \<Rightarrow> sequence_entry list go_result" where
  "parseFakeToolSequence F v =
     (if trim_space v = [] then Inl ''KONTEXT_FAKE_TOOL_SEQUENCE is required for tool_sequence scenario''
      else case fl_decode_sequence F v of
        Inl e \<Rightarrow> Inl (''KONTEXT_FAKE_TOOL_SEQUENCE must contain a JSON array of tool calls: '' @ e)
      | Inr (sequence, rest) \<Rightarrow>
          if rest \<noteq> EOF then Inl ''KONTEXT_FAKE_TOOL_SEQUENCE must contain exactly one JSON value''
          else if sequence = [] then Inl ''KONTEXT_FAKE_TOOL_SEQUENCE must contain at least one tool call''
          else check_entries F 0 sequence)"

definition fake_error :: "string \<Rightarrow> string \<Rightarrow> configuration_error" where
  "fake_error code message = \<lparr>ce_provider = ''fake'', ce_code = code, ce_message = message\<rparr>"

definition resolveFake :: "fake_lib \<Rightarrow> config \<Rightarrow> configuration_error + fake" where
  "resolveFake F c =
     (let scenario = (if cf_fake_scenario c = [] then FakeScenarioSuccess else cf_fake_scenario c);
          plain = (\<lambda>arguments. Inr \<lparr>fk_scenario = scenario, fk_delay = cf_fake_delay c, fk_tool_name = cf_fake_tool_name c,
                                   fk_tool_arguments = arguments, fk_tool_sequence = []\<rparr>) in
      if scenario = FakeScenarioSuccess \<or> scenario = FakeScenarioFailure \<or> scenario = FakeScenarioMalformed then
        plain (cf_fake_tool_arguments c)
      else if scenario = FakeScenarioDelay then
        (if cf_fake_delay c \<le> 0 then Inl (fake_error [] ''KONTEXT_FAKE_DELAY is required for delay scenario'')
         else plain (cf_fake_tool_arguments c))
      else if scenario = FakeScenarioTool then
        (let arguments = (if cf_fake_tool_arguments c = [] then ''{}'' else cf_fake_tool_arguments c) in
         if trim_space (cf_fake_tool_name c) = [] then Inl (fake_error [] ''KONTEXT_FAKE_TOOL_NAME is required for tool scenario'')
         else if \<not> hl_json_valid (fl_http F) arguments then
           Inl (fake_error [] ''KONTEXT_FAKE_TOOL_ARGUMENTS must contain valid JSON'')
         else plain arguments)
      else if scenario = FakeScenarioToolSequence then
        (case parseFakeToolSequence F (cf_fake_tool_sequence c) of
           Inl e \<Rightarrow> Inl (fake_error ''invalid_fake_tool_sequence'' e)
         | Inr sequence \<Rightarrow> Inr \<lparr>fk_scenario = scenario, fk_delay = 0, fk_tool_name = [], fk_tool_arguments = [],
                                fk_tool_sequence = sequence\<rparr>)
      else Inl (fake_error [] (''unsupported KONTEXT_FAKE_SCENARIO '' @ quote (cl_go (hl_config (fl_http F))) scenario)))"

definition counted_usage :: "int \<Rightarrow> int \<Rightarrow> usage" where
  "counted_usage inputTokens outputTokens =
     \<lparr>pu_input_tokens = Some inputTokens, pu_output_tokens = Some outputTokens, pu_total_tokens = Some (inputTokens + outputTokens),
      pu_reasoning_tokens = None\<rparr>"

definition fake_request_id :: "golib \<Rightarrow> string \<Rightarrow> string" where
  "fake_request_id L text = ''fake-'' @ take 12 (sha256_hex L text)"

definition fakeTextResponse :: "golib \<Rightarrow> string \<Rightarrow> string \<Rightarrow> int \<Rightarrow> completion_response" where
  "fakeTextResponse L model output inputTokens =
     \<lparr>cp_message = \<lparr>mg_role = RoleAssistant, mg_content = [text_block output]\<rparr>,
      cp_usage = counted_usage inputTokens (token_count output), cp_stop_reason = StopReasonEndTurn,
      cp_request_id = fake_request_id L (model @ [CHR 0x00] @ output)\<rparr>"

definition fake_call_response :: "golib \<Rightarrow> string \<Rightarrow> int \<Rightarrow> tool_call \<Rightarrow> completion_response" where
  "fake_call_response L hashed inputTokens call =
     \<lparr>cp_message = \<lparr>mg_role = RoleAssistant, mg_content = [call_block call]\<rparr>,
      cp_usage = counted_usage inputTokens (token_count (tc_name call @ '' '' @ tc_arguments call)),
      cp_stop_reason = StopReasonToolUse, cp_request_id = fake_request_id L hashed\<rparr>"

definition fakeInputText :: "message list \<Rightarrow> string" where
  "fakeInputText ms = join_strings
     (concat (map (\<lambda>m. (if MessageText m = [] then [] else [MessageText m]) @ map tlr_content (MessageToolResults m)) ms)) [CHR 0x0A]"

definition fakeSuccess :: "golib \<Rightarrow> completion_request \<Rightarrow> completion_response" where
  "fakeSuccess L q =
     (let goal = (if cq_messages q = [] then [] else MessageText (last (cq_messages q)));
          output = ''Fake provider completed goal: '' @ goal
      in \<lparr>cp_message = \<lparr>mg_role = RoleAssistant, mg_content = [text_block output]\<rparr>,
          cp_usage = counted_usage (token_count goal) (token_count output), cp_stop_reason = StopReasonEndTurn,
          cp_request_id = fake_request_id L (cq_model q @ [CHR 0x00] @ goal)\<rparr>)"

definition toolIsExposed :: "tool_definition list \<Rightarrow> string \<Rightarrow> bool" where
  "toolIsExposed ds name \<longleftrightarrow> (\<exists>d \<in> set ds. td_name d = name)"

definition fakeSequenceError :: "string \<Rightarrow> string \<Rightarrow> runtime_error" where
  "fakeSequenceError code message = mk_provider_error code message False None []"

definition fakeToolCompletion :: "golib \<Rightarrow> completion_request \<Rightarrow> string \<Rightarrow> string \<Rightarrow> runtime_error + completion_response" where
  "fakeToolCompletion L q toolName arguments =
     (case results_of (cq_messages q) of
        result # _ \<Rightarrow>
          Inr (fakeTextResponse L (cq_model q) (''Fake provider received '' @ tlr_name result @ '' result: '' @ tlr_content result)
                 (token_count (fakeInputText (cq_messages q))))
      | [] \<Rightarrow>
          if \<not> toolIsExposed (cq_tools q) toolName then
            Inl (mk_provider_error ''fake_tool_unavailable'' (''fake tool '' @ quote L toolName @ '' was not exposed'') False None [])
          else Inr (fake_call_response L (cq_model q @ [CHR 0x00] @ toolName) (token_count (fakeInputText (cq_messages q)))
                      \<lparr>tc_id = ''fake-tool-call'', tc_name = toolName, tc_arguments = arguments\<rparr>))"

subsection \<open>A scripted sequence of tool calls\<close>

abbreviation mismatch :: "string \<Rightarrow> runtime_error" where
  "mismatch \<equiv> fakeSequenceError ''fake_tool_sequence_mismatch''"

definition sequence_call_id :: "nat \<Rightarrow> string" where
  "sequence_call_id n = ''fake-tool-call-'' @ pad_int (int n) 3"

text \<open>Calls that wait for their result, by id; a result takes its call out.\<close>

fun take_results ::
  "tool_call go_map \<Rightarrow> (tool_call \<times> tool_result) list \<Rightarrow> tool_result list \<Rightarrow>
   runtime_error + tool_call go_map \<times> (tool_call \<times> tool_result) list" where
  "take_results pending pairs [] = Inr (pending, pairs)"
| "take_results pending pairs (r # rs) =
     (case map_of pending (tlr_call_id r) of
        None \<Rightarrow> Inl (mismatch ''fake tool sequence result has no preceding corresponding assistant call'')
      | Some call \<Rightarrow> take_results (filter (\<lambda>(k, _). k \<noteq> tlr_call_id r) pending) (pairs @ [(call, r)]) rs)"

fun pair_messages ::
  "tool_call go_map \<Rightarrow> (tool_call \<times> tool_result) list \<Rightarrow> message list \<Rightarrow>
   runtime_error + tool_call go_map \<times> (tool_call \<times> tool_result) list" where
  "pair_messages pending pairs [] = Inr (pending, pairs)"
| "pair_messages pending pairs (m # ms) =
     (case take_results (fold (\<lambda>c p. map_put (tc_id c) c p) (MessageToolCalls m) pending) pairs (MessageToolResults m) of
        Inl e \<Rightarrow> Inl e
      | Inr (pending', pairs') \<Rightarrow> pair_messages pending' pairs' ms)"

fun check_pairs :: "golib \<Rightarrow> nat \<Rightarrow> (tool_call \<times> tool_result) list \<Rightarrow> sequence_entry list \<Rightarrow> runtime_error option" where
  "check_pairs L index [] es = None"
| "check_pairs L index ((c, r) # ps) (e # es) =
     (let expected = sequence_call_id (index + 1) in
      if tlr_call_id r \<noteq> expected \<or> tc_id c \<noteq> expected \<or> tlr_call_id r \<noteq> tc_id c then
        Some (mismatch (''fake tool sequence result '' @ show_nat index @ '' did not match deterministic call '' @ quote L expected))
      else if tlr_name r \<noteq> se_name e \<or> tc_name c \<noteq> se_name e \<or> tc_arguments c \<noteq> se_arguments e then
        Some (mismatch (''fake tool sequence call '' @ show_nat index @ '' did not match configured tool '' @ quote L (se_name e)))
      else check_pairs L (index + 1) ps es)"
| "check_pairs L index (p # ps) [] = None"

definition result_summary :: "tool_result \<Rightarrow> json" where
  "result_summary r = JObj ([(''name'', JStr (tlr_name r)), (''content'', JStr (tlr_content r)), (''isError'', JBool (tlr_is_error r))] @
     omit_empty ''errorCode'' (tlr_error_code r) @ omit_false ''truncated'' (tlr_truncated r))"

definition fakeToolSequenceCompletion :: "golib \<Rightarrow> completion_request \<Rightarrow> sequence_entry list \<Rightarrow> runtime_error + completion_response" where
  "fakeToolSequenceCompletion L q sequence =
     (case pair_messages [] [] (cq_messages q) of
        Inl e \<Rightarrow> Inl e
      | Inr (pending, pairs) \<Rightarrow>
          if length pairs > length sequence then
            Inl (mismatch ''fake tool sequence received more results than configured calls'')
          else if pending \<noteq> [] then
            Inl (mismatch ''fake tool sequence results do not have corresponding assistant calls'')
          else case check_pairs L 0 pairs sequence of
            Some e \<Rightarrow> Inl e
          | None \<Rightarrow>
              (let inputTokens = token_count (fakeInputText (cq_messages q)) in
               if length pairs = length sequence then
                 Inr (fakeTextResponse L (cq_model q)
                   (''Fake provider completed tool sequence: '' @ marshalled (JList (map (result_summary \<circ> snd) pairs))) inputTokens)
               else
                 (let next = sequence ! length pairs; index = length pairs + 1 in
                  if \<not> toolIsExposed (cq_tools q) (se_name next) then
                    Inl (fakeSequenceError ''fake_tool_unavailable''
                           (''fake tool sequence tool '' @ quote L (se_name next) @ '' was not exposed''))
                  else Inr (fake_call_response L
                    (cq_model q @ [CHR 0x00] @ show_nat index @ [CHR 0x00] @ se_name next @ [CHR 0x00] @ se_arguments next) inputTokens
                    \<lparr>tc_id = sequence_call_id index, tc_name = se_name next, tc_arguments = se_arguments next\<rparr>))))"

record 's fake_world =
  fw_ctx_err :: "'s \<Rightarrow> ctx_error \<times> 's"
  fw_wait :: "duration \<Rightarrow> 's \<Rightarrow> ctx_error \<times> 's"

definition fake_Complete ::
  "golib \<Rightarrow> 's fake_world \<Rightarrow> fake \<Rightarrow> completion_request \<Rightarrow> 's \<Rightarrow> (runtime_error + completion_response) \<times> 's" where
  "fake_Complete L W fake q s =
     (case fw_ctx_err W s of (ctx, s1) \<Rightarrow>
        if ctx \<noteq> CtxActive then (Inl (ctx_failure ctx), s1)
        else if fk_scenario fake = FakeScenarioFailure then
          (Inl (mk_provider_error ''fake_provider_failure'' ''fake provider failed as configured'' False None []), s1)
        else if fk_scenario fake = FakeScenarioMalformed then
          (Inr \<lparr>cp_message = \<lparr>mg_role = ''malformed'', mg_content = [text_block ''invalid response'']\<rparr>,
                cp_usage = \<lparr>pu_input_tokens = None, pu_output_tokens = None, pu_total_tokens = None, pu_reasoning_tokens = None\<rparr>,
                cp_stop_reason = StopReasonEndTurn, cp_request_id = []\<rparr>, s1)
        else if fk_scenario fake = FakeScenarioDelay then
          (case fw_wait W (fk_delay fake) s1 of (ctx', s2) \<Rightarrow>
             if ctx' \<noteq> CtxActive then (Inl (ctx_failure ctx'), s2) else (Inr (fakeSuccess L q), s2))
        else if fk_scenario fake = FakeScenarioSuccess then (Inr (fakeSuccess L q), s1)
        else if fk_scenario fake = FakeScenarioTool then (fakeToolCompletion L q (fk_tool_name fake) (fk_tool_arguments fake), s1)
        else if fk_scenario fake = FakeScenarioToolSequence then (fakeToolSequenceCompletion L q (fk_tool_sequence fake), s1)
        else (Inl (plain_error (''unsupported fake scenario '' @ quote L (fk_scenario fake))), s1))"

subsection \<open>Choosing a provider\<close>

datatype provider = FakeProvider fake | AnthropicProvider anthropic | OpenAIProvider openai

datatype resolve_error = UnsupportedProvider string | InvalidProvider configuration_error

definition provider_Resolve :: "fake_lib \<Rightarrow> config \<Rightarrow> resolve_error + provider" where
  "provider_Resolve F c =
     (let H = fl_http F; name = cf_provider c in
      if name = ''fake'' then
        (case resolveFake F c of Inl e \<Rightarrow> Inl (InvalidProvider e) | Inr f \<Rightarrow> Inr (FakeProvider f))
      else if name = ''anthropic'' then
        (case NewAnthropic H (cf_anthropic_api_key c) (cf_provider_endpoint c) (cf_provider_base_url c) of
           Inl e \<Rightarrow> Inl (InvalidProvider e) | Inr a \<Rightarrow> Inr (AnthropicProvider a))
      else if name = ''openai'' \<or> name = ''openai-compatible'' then
        (case NewOpenAI H name (cf_openai_api_key c) (cf_provider_endpoint c) (cf_provider_base_url c) of
           Inl e \<Rightarrow> Inl (InvalidProvider e) | Inr a \<Rightarrow> Inr (OpenAIProvider a))
      else Inl (UnsupportedProvider name))"

definition resolve_error_text :: "golib \<Rightarrow> resolve_error \<Rightarrow> string" where
  "resolve_error_text L e =
     (case e of UnsupportedProvider name \<Rightarrow> ''unsupported provider '' @ quote L name
      | InvalidProvider c \<Rightarrow> configuration_error_text c)"

definition provider_Name :: "provider \<Rightarrow> string" where
  "provider_Name p = (case p of FakeProvider _ \<Rightarrow> ''fake'' | AnthropicProvider _ \<Rightarrow> ''anthropic'' | OpenAIProvider a \<Rightarrow> oa_name a)"

subsection \<open>A provider that is chosen is safe to call\<close>

definition checked_url :: "config_lib \<Rightarrow> string \<Rightarrow> bool" where
  "checked_url C v \<longleftrightarrow> (\<exists>u. cl_parse_url C v = Inr u \<and> absolute_http u \<and> \<not> url_has_user u)"

definition endpoint_ok :: "http_lib \<Rightarrow> config \<Rightarrow> string \<Rightarrow> string \<Rightarrow> string \<Rightarrow> bool" where
  "endpoint_ok H c standard path e \<longleftrightarrow>
     cf_provider_endpoint c \<noteq> [] \<and> cf_provider_base_url c = [] \<and> e = cf_provider_endpoint c \<and> checked_url (hl_config H) e \<or>
     cf_provider_endpoint c = [] \<and> cf_provider_base_url c = [] \<and> e = standard \<or>
     cf_provider_endpoint c = [] \<and> checked_url (hl_config H) (cf_provider_base_url c) \<and>
       e = hl_url_with_path H (cf_provider_base_url c)
             (trim_right_char (CHR ''/'') (hl_url_path H (cf_provider_base_url c)) @ ''/'' @ path)"

definition key_ok :: "string \<Rightarrow> bool" where
  "key_ok k \<longleftrightarrow> k \<noteq> [] \<and> trim_space k = k \<and> \<not> has_control k"

lemma validateHTTPURL_None: "validateHTTPURL C v = None \<longleftrightarrow> checked_url C v"
  by (auto simp: validateHTTPURL_def checked_url_def split: sum.splits)

lemma providerEndpoint_ok:
  assumes "providerEndpoint H name (cf_provider_endpoint c) (cf_provider_base_url c) standard path = Inr e"
    and "dropWhile (\<lambda>x. x = CHR ''/'') path = path"
  shows "endpoint_ok H c standard path e"
  using assms by (auto simp: providerEndpoint_def endpoint_ok_def validateHTTPURL_None [symmetric] split: if_splits option.splits sum.splits)

lemma validateAPIKey_None: "validateAPIKey L name k = None \<longleftrightarrow> key_ok k"
  by (auto simp: validateAPIKey_def key_ok_def)

text \<open>
  A provider resolved from the configuration is the one configured. Its key is present, has no surrounding white
  space and no control character, so that it cannot break out of its header; its endpoint is the default one, or a
  configured absolute HTTP(S) URL without credentials, or derived from such a base URL; and never both are configured.
\<close>

theorem provider_Resolve_safe:
  assumes "provider_Resolve F c = Inr p"
  shows "provider_Name p = cf_provider c \<and>
    (case p of
       FakeProvider f \<Rightarrow> fk_scenario f = (if cf_fake_scenario c = [] then FakeScenarioSuccess else cf_fake_scenario c)
     | AnthropicProvider a \<Rightarrow> an_api_key a = cf_anthropic_api_key c \<and> key_ok (an_api_key a) \<and>
         endpoint_ok (fl_http F) c DefaultAnthropicEndpoint anthropicMessagesPath (an_endpoint a)
     | OpenAIProvider a \<Rightarrow> oa_api_key a = cf_openai_api_key c \<and> key_ok (oa_api_key a) \<and>
         endpoint_ok (fl_http F) c DefaultOpenAIEndpoint openAIChatPath (oa_endpoint a))"
proof -
  have name: "trim_space ''openai'' = ''openai''" "trim_space ''openai-compatible'' = ''openai-compatible''" by code_simp+
  consider "cf_provider c = ''fake''" | "cf_provider c = ''anthropic''"
    | (openai) "cf_provider c = ''openai'' \<or> cf_provider c = ''openai-compatible''"
    using assms by (auto simp: provider_Resolve_def Let_def split: if_splits)
  then show ?thesis
  proof cases
    case 1
    then show ?thesis using assms
      by (auto simp: provider_Resolve_def resolveFake_def Let_def provider_Name_def split: if_splits sum.splits)
  next
    case 2
    then obtain a where a: "NewAnthropic (fl_http F) (cf_anthropic_api_key c) (cf_provider_endpoint c) (cf_provider_base_url c) = Inr a"
      and p: "p = AnthropicProvider a" using assms by (auto simp: provider_Resolve_def Let_def split: sum.splits)
    from a have "endpoint_ok (fl_http F) c DefaultAnthropicEndpoint anthropicMessagesPath (an_endpoint a)"
      by (intro providerEndpoint_ok [where name = "''anthropic''"]) (auto simp: NewAnthropic_def split: option.splits sum.splits)
    with a p 2 show ?thesis by (auto simp: NewAnthropic_def provider_Name_def validateAPIKey_None split: option.splits sum.splits)
  next
    case openai
    then obtain a where a: "NewOpenAI (fl_http F) (cf_provider c) (cf_openai_api_key c) (cf_provider_endpoint c) (cf_provider_base_url c) = Inr a"
      and p: "p = OpenAIProvider a" using assms by (auto simp: provider_Resolve_def Let_def split: sum.splits)
    from a have "endpoint_ok (fl_http F) c DefaultOpenAIEndpoint openAIChatPath (oa_endpoint a)"
      by (intro providerEndpoint_ok [where name = "''openai''"]) (auto simp: NewOpenAI_def split: option.splits sum.splits)
    with a p openai name show ?thesis
      by (auto simp: NewOpenAI_def provider_Name_def validateAPIKey_None split: option.splits sum.splits if_splits)
  qed
qed

subsection \<open>The scripted sequence\<close>

definition scripted_call :: "nat \<Rightarrow> sequence_entry \<Rightarrow> tool_call" where
  "scripted_call index e = \<lparr>tc_id = sequence_call_id (index + 1), tc_name = se_name e, tc_arguments = se_arguments e\<rparr>"

definition follows_script :: "nat \<Rightarrow> (tool_call \<times> tool_result) list \<Rightarrow> sequence_entry list \<Rightarrow> bool" where
  "follows_script index ps es \<longleftrightarrow> length ps \<le> length es \<and>
     (\<forall>k < length ps. fst (ps ! k) = scripted_call (index + k) (es ! k) \<and>
        tlr_call_id (snd (ps ! k)) = sequence_call_id (index + k + 1) \<and> tlr_name (snd (ps ! k)) = se_name (es ! k))"

lemma follows_script_Cons:
  "follows_script index ((c, r) # ps) (e # es) \<longleftrightarrow> c = scripted_call index e \<and> tlr_call_id r = sequence_call_id (index + 1) \<and>
     tlr_name r = se_name e \<and> follows_script (index + 1) ps es"
  by (auto simp: follows_script_def nth_Cons' less_Suc_eq_0_disj)

lemma check_pairs_None:
  "length ps \<le> length es \<Longrightarrow> check_pairs L index ps es = None \<longleftrightarrow> follows_script index ps es"
  by (induction L index ps es rule: check_pairs.induct)
     (auto simp: follows_script_Cons Let_def scripted_call_def, auto simp: follows_script_def)

lemma take_results_pairs:
  "take_results pending pairs rs = Inr (pending', pairs') \<Longrightarrow> map snd pairs' = map snd pairs @ rs"
  by (induction rs arbitrary: pending pairs) (auto split: option.splits)

lemma pair_messages_results:
  "pair_messages pending pairs ms = Inr (pending', pairs') \<Longrightarrow> map snd pairs' = map snd pairs @ results_of ms"
  by (induction ms arbitrary: pending pairs)
     (auto simp: results_of_def split: sum.splits dest!: take_results_pairs)

text \<open>
  The scripted provider accepts a conversation only if its tool results answer, in order, the calls of the script
  so far: each under the id, tool name and arguments of its position. Then it asks for exactly the next call of the
  script, if that tool is exposed, and ends the conversation when the script is complete.
\<close>

theorem fakeToolSequenceCompletion_follows:
  assumes "fakeToolSequenceCompletion L q es = Inr resp"
  shows "\<exists>ps. map snd ps = results_of (cq_messages q) \<and> follows_script 0 ps es \<and>
    (if length ps = length es then MessageToolCalls (cp_message resp) = [] \<and> cp_stop_reason resp = StopReasonEndTurn
     else MessageToolCalls (cp_message resp) = [scripted_call (length ps) (es ! length ps)] \<and>
       cp_stop_reason resp = StopReasonToolUse \<and> toolIsExposed (cq_tools q) (se_name (es ! length ps)))"
proof -
  from assms obtain pending ps where p: "pair_messages [] [] (cq_messages q) = Inr (pending, ps)"
    by (auto simp: fakeToolSequenceCompletion_def split: sum.splits)
  with assms have len: "length ps \<le> length es" and "check_pairs L 0 ps es = None"
    by (auto simp: fakeToolSequenceCompletion_def split: if_splits option.splits)
  then have follows: "follows_script 0 ps es" using check_pairs_None by blast
  have shape: "if length ps = length es then MessageToolCalls (cp_message resp) = [] \<and> cp_stop_reason resp = StopReasonEndTurn
     else MessageToolCalls (cp_message resp) = [scripted_call (length ps) (es ! length ps)] \<and>
       cp_stop_reason resp = StopReasonToolUse \<and> toolIsExposed (cq_tools q) (se_name (es ! length ps))"
    using assms p
    by (auto simp: fakeToolSequenceCompletion_def Let_def fakeTextResponse_def fake_call_response_def message_blocks
        text_block_def call_block_def scripted_call_def split: if_splits option.splits)
  from pair_messages_results [OF p] follows shape show ?thesis by auto
qed

definition script :: "sequence_entry list" where
  "script = [\<lparr>se_name = ''first'', se_arguments = ''{}''\<rparr>, \<lparr>se_name = ''second'', se_arguments = ''{}''\<rparr>]"

definition first_answer :: tool_result where
  "first_answer = \<lparr>tlr_call_id = ''fake-tool-call-001'', tlr_name = ''first'', tlr_content = ''one'', tlr_is_error = False,
     tlr_error_code = [], tlr_truncated = False\<rparr>"

definition script_request :: completion_request where
  "script_request = \<lparr>cq_model = ''m'', cq_messages = conversation_New ''go'' @
     [\<lparr>mg_role = RoleAssistant, mg_content = [call_block (scripted_call 0 (script ! 0))]\<rparr>,
      \<lparr>mg_role = RoleTool, mg_content = [\<lparr>cb_type = ContentTypeToolResult, cb_text = [], cb_tool_call = None,
         cb_tool_result = Some first_answer\<rparr>]\<rparr>],
     cq_max_tokens = None, cq_tools = map (\<lambda>e. \<lparr>td_name = se_name e, td_description = ''tool'', td_input_schema = ''{}''\<rparr>) script\<rparr>"

theorem fakeToolSequenceCompletion_follows_witness:
  "\<exists>resp. fakeToolSequenceCompletion demo_lib script_request script = Inr resp \<and>
     MessageToolCalls (cp_message resp) = [scripted_call 1 (script ! 1)] \<and> cp_stop_reason resp = StopReasonToolUse"
proof -
  have p: "pair_messages [] [] (cq_messages script_request) = Inr ([], [(scripted_call 0 (script ! 0), first_answer)])" by code_simp
  have c: "check_pairs demo_lib 0 [(scripted_call 0 (script ! 0), first_answer)] script = None" by code_simp
  have e: "toolIsExposed (cq_tools script_request) (se_name (script ! 1))" by code_simp
  have n: "length script = 2" by (simp add: script_def)
  from p c e n obtain resp where r: "fakeToolSequenceCompletion demo_lib script_request script = Inr resp"
    by (simp add: fakeToolSequenceCompletion_def Let_def)
  from fakeToolSequenceCompletion_follows [OF r] obtain ps :: "(tool_call \<times> tool_result) list"
    where ps: "map snd ps = results_of (cq_messages script_request)"
    "if length ps = length script then MessageToolCalls (cp_message resp) = [] \<and> cp_stop_reason resp = StopReasonEndTurn
     else MessageToolCalls (cp_message resp) = [scripted_call (length ps) (script ! length ps)] \<and>
       cp_stop_reason resp = StopReasonToolUse \<and> toolIsExposed (cq_tools script_request) (se_name (script ! length ps))" by blast
  have "results_of (cq_messages script_request) = [first_answer]" by code_simp
  with ps(1) have "length ps = 1" by (metis length_map length_Cons list.size(3) One_nat_def)
  with ps(2) r n show ?thesis by auto
qed

definition plain_fake_lib :: fake_lib where
  "plain_fake_lib = \<lparr>fl_http = plain_http_lib, fl_decode_sequence = (\<lambda>_. Inl ''none''), fl_json_object = (\<lambda>_. True)\<rparr>"

definition anthropic_config :: config where
  "anthropic_config = \<lparr>cf_run_name = ''r'', cf_agent_name = ''a'', cf_goal = ''g'', cf_provider = ''anthropic'', cf_model = ''m'',
     cf_tools = [], cf_mcp = [], cf_token_budget = None, cf_wallclock_budget = None, cf_dollar_budget = None, cf_max_turns = None,
     cf_max_tool_calls = None, cf_max_tool_result_bytes = None, cf_max_total_tool_output_bytes = None, cf_emit_tool_output = False,
     cf_provider_endpoint = [], cf_provider_base_url = [], cf_anthropic_api_key = ''key'', cf_openai_api_key = [],
     cf_fake_scenario = [], cf_fake_delay = 0, cf_fake_tool_name = [], cf_fake_tool_arguments = [], cf_fake_tool_sequence = []\<rparr>"

theorem provider_Resolve_safe_witness:
  "provider_Resolve plain_fake_lib anthropic_config =
     Inr (AnthropicProvider \<lparr>an_api_key = ''key'', an_endpoint = DefaultAnthropicEndpoint\<rparr>) \<and> key_ok ''key''"
proof -
  have k: "validateAPIKey (cl_go (hl_config plain_http_lib)) ''anthropic'' ''key'' = None" by code_simp
  have r: "provider_Resolve plain_fake_lib anthropic_config =
      Inr (AnthropicProvider \<lparr>an_api_key = ''key'', an_endpoint = DefaultAnthropicEndpoint\<rparr>)"
    using k by (simp add: provider_Resolve_def plain_fake_lib_def anthropic_config_def NewAnthropic_def providerEndpoint_def Let_def)
  from provider_Resolve_safe [OF r] r show ?thesis by (simp add: anthropic_config_def)
qed

end
