(* ===== verification/Runtime_Events.thy ===== *)
theory Runtime_Events
  imports Runtime_Engine Provider_Http
begin

text \<open>
  The event log of a run: the contract of \<^verbatim>\<open>pkg/event/v1alpha1\<close> and the emitter of \<^verbatim>\<open>events/emitter.go\<close>, which writes
  each emission of the engine as one line of JSON. An event that cannot be encoded is reported on standard error.
\<close>

abbreviation EventAPIVersion :: string where "EventAPIVersion \<equiv> ''kontext.dev/event/v1alpha1''"

abbreviation TypeLifecycle :: string where "TypeLifecycle \<equiv> ''lifecycle''"
abbreviation TypeOutput :: string where "TypeOutput \<equiv> ''output''"
abbreviation TypeUsage :: string where "TypeUsage \<equiv> ''usage''"
abbreviation TypeTool :: string where "TypeTool \<equiv> ''tool''"
abbreviation TypeError :: string where "TypeError \<equiv> ''error''"

record log_event =
  ev_api_version :: string
  ev_timestamp :: time
  ev_type :: string
  ev_data :: string

text \<open>The zero time of Go is the origin of \<open>time\<close>.\<close>

definition event_Validate :: "golib \<Rightarrow> (string \<Rightarrow> bool) \<Rightarrow> log_event \<Rightarrow> string option" where
  "event_Validate L json_valid e =
     (if ev_api_version e \<noteq> EventAPIVersion then Some (''unsupported event apiVersion '' @ quote L (ev_api_version e))
      else if ev_type e \<notin> {TypeLifecycle, TypeOutput, TypeUsage, TypeTool, TypeError} then
        Some (''unsupported event type '' @ quote L (ev_type e))
      else if ev_timestamp e = 0 then Some ''event timestamp is required''
      else if trim_space (ev_data e) = [] \<or> \<not> json_valid (ev_data e) then Some ''event data must be valid JSON''
      else None)"

definition event_Parse :: "golib \<Rightarrow> (string \<Rightarrow> bool) \<Rightarrow> (string \<Rightarrow> (log_event \<times> trailing) go_result) \<Rightarrow> string \<Rightarrow> log_event go_result" where
  "event_Parse L json_valid decode line =
     (case decode line of
        Inl e \<Rightarrow> Inl (''decode event: '' @ e)
      | Inr (event, TrailingValue) \<Rightarrow> Inl ''decode event: trailing JSON value''
      | Inr (event, TrailingError e) \<Rightarrow> Inl (''decode event trailing data: '' @ e)
      | Inr (event, EOF) \<Rightarrow> (case event_Validate L json_valid event of Some e \<Rightarrow> Inl e | None \<Rightarrow> Inr event))"

subsection \<open>The data of an emission\<close>

definition optional_int :: "string \<Rightarrow> int option \<Rightarrow> (string \<times> json) list" where
  "optional_int name v = (case v of None \<Rightarrow> [] | Some n \<Rightarrow> [(name, JInt n)])"

text \<open>The members of a Go map are printed in the order of their keys. The engine sets no dollars.\<close>

fun emission_data :: "emission \<Rightarrow> string \<times> json" where
  "emission_data (EmStarted runName agent provider model) =
     (TypeLifecycle, JObj [(''agentName'', JStr agent), (''model'', JStr model), (''phase'', JStr ''started''),
        (''provider'', JStr provider), (''runName'', JStr runName)])"
| "emission_data (EmToolsAvailable names) =
     (TypeLifecycle, JObj [(''count'', JInt (int (length names))), (''names'', JList (map JStr names)), (''phase'', JStr ''tools_available'')])"
| "emission_data (EmProviderCompleted turn stopReason millis) =
     (TypeLifecycle, JObj [(''durationMillis'', JInt millis), (''phase'', JStr ''provider_completed''),
        (''stopReason'', JStr stopReason), (''turn'', JInt turn)])"
| "emission_data (EmUsage turn u) =
     (TypeUsage, JObj [(''turn'', JInt turn),
        (''usage'', JObj (optional_int ''inputTokens'' (ru_input_tokens u) @ optional_int ''outputTokens'' (ru_output_tokens u) @
           optional_int ''totalTokens'' (ru_total_tokens u) @ optional_int ''reasoningTokens'' (ru_reasoning_tokens u)))])"
| "emission_data (EmTool r count millis output) =
     (TypeTool, JObj ([(''callId'', JStr (tlr_call_id r)), (''count'', JInt count), (''durationMillis'', JInt millis),
        (''errorCode'', JStr (tlr_error_code r)), (''isError'', JBool (tlr_is_error r)), (''name'', JStr (tlr_name r))] @
        (case output of None \<Rightarrow> [] | Some o' \<Rightarrow> [(''output'', JStr o')]) @
        [(''outputBytes'', JInt (int (length (tlr_content r)))), (''truncated'', JBool (tlr_truncated r))]))"
| "emission_data (EmOutput text) = (TypeOutput, JObj [(''mediaType'', JStr DefaultMediaType), (''value'', JStr text)])"
| "emission_data (EmError code message retryable) =
     (TypeError, JObj [(''code'', JStr code), (''message'', JStr message),
        (''retryable'', case retryable of None \<Rightarrow> JNull | Some b \<Rightarrow> JBool b)])"

subsection \<open>Writing an event\<close>

definition fraction_text :: "time \<Rightarrow> string" where
  "fraction_text t = (if t mod second = 0 then [] else ''.'' @ trim_right_char (CHR ''0'') (pad_int (t mod second) 9))"

text \<open>\<^verbatim>\<open>Time.MarshalJSON\<close>: RFC 3339 with nanoseconds, for a year of four digits.\<close>

definition json_time :: "time \<Rightarrow> string go_result" where
  "json_time t =
     (case date_of_days (t div second div 86400) of (y, _, _) \<Rightarrow>
        if y < 0 \<or> y > 9999 then Inl ''Time.MarshalJSON: year outside of range [0,9999]''
        else Inr (json_string (butlast (format_rfc3339 t) @ fraction_text t @ ''Z'')))"

definition event_of :: "time \<Rightarrow> emission \<Rightarrow> log_event" where
  "event_of t m = \<lparr>ev_api_version = EventAPIVersion, ev_timestamp = t, ev_type = fst (emission_data m), ev_data = marshalled (snd (emission_data m))\<rparr>"

definition event_line :: "log_event \<Rightarrow> string go_result" where
  "event_line e =
     go_bind (json_time (ev_timestamp e)) (\<lambda>t.
     go_bind (print_json Inr (JObj [(''apiVersion'', JStr (ev_api_version e)), (''timestamp'', JRaw t),
        (''type'', JStr (ev_type e)), (''data'', JRaw (ev_data e))])) (\<lambda>text. Inr (text @ [CHR 0x0A])))"

text \<open>What \<^verbatim>\<open>Emit\<close> writes on standard output and on standard error.\<close>

definition Emit :: "time \<Rightarrow> emission \<Rightarrow> string \<times> string" where
  "Emit t m =
     (case event_line (event_of t m) of
        Inr line \<Rightarrow> (line, [])
      | Inl err \<Rightarrow> ([], ''kontext reference runtime: emit '' @ fst (emission_data m) @ '' event: '' @ err @ [CHR 0x0A]))"

lemma event_of_type: "ev_type (event_of t m) \<in> {TypeLifecycle, TypeOutput, TypeUsage, TypeTool, TypeError}"
  by (cases m) (simp_all add: event_of_def)

lemma Emit_lines: "fst (Emit t m) = [] \<or> last (fst (Emit t m)) = CHR 0x0A"
  by (auto simp: Emit_def event_line_def go_bind_def split: sum.splits)

lemma json_string_not_empty: "json_string s \<noteq> []"
  by (simp add: json_string_def)

lemma print_strings [simp]: "print_elements Inr (map JStr xs) = Inr (map json_string xs)"
  by (induction xs) (simp_all add: go_bind_def)

lemma emission_printed:
  "\<exists>doc. print_json Inr (snd (emission_data m)) = Inr doc \<and> doc \<noteq> [] \<and> hd doc = CHR ''{'' \<and> last doc = CHR ''}''"
  by (cases m) (auto simp: go_bind_def optional_int_def split: option.splits sum.splits)

lemma trim_space_braces:
  assumes "hd doc = CHR ''{''" "last doc = CHR ''}''" "doc \<noteq> []"
  shows "trim_space doc = doc"
proof -
  obtain s where s: "doc = CHR ''{'' # s" using assms(1,3) by (cases doc) auto
  obtain p where p: "doc = p @ [CHR ''}'']" using assms(2,3) by (metis append_butlast_last_id)
  have "leading_space doc = 0" unfolding s by (simp add: leading_space_def space_encodings_def has_prefix_def)
  then have "trim_left doc = doc" by (subst trim_left.simps) simp
  have "\<not> has_suffix doc e" if "e \<in> set space_encodings" for e
  proof
    assume "has_suffix doc e"
    then have "e = [] \<or> last e = CHR ''}''" using p unfolding has_suffix_def by (metis last_appendR last_snoc append_take_drop_id)
    with that show False by (auto simp: space_encodings_def)
  qed
  then have "find (has_suffix doc) space_encodings = None" by (simp add: find_None_iff)
  then have "trailing_space doc = 0" by (simp add: trailing_space_def)
  then have "trim_right doc = doc" by (subst trim_right.simps) simp
  with \<open>trim_left doc = doc\<close> show ?thesis by (simp add: trim_space_def)
qed

text \<open>Every event that is emitted satisfies the contract, when the clock is set and the library accepts what it printed.\<close>

lemma event_of_valid:
  assumes "t \<noteq> 0" "\<And>j doc. print_json Inr j = Inr doc \<Longrightarrow> json_valid doc"
  shows "event_Validate L json_valid (event_of t m) = None"
proof -
  obtain doc where doc: "print_json Inr (snd (emission_data m)) = Inr doc" "doc \<noteq> []" "hd doc = CHR ''{''" "last doc = CHR ''}''"
    using emission_printed by blast
  then have "trim_space doc = doc" by (intro trim_space_braces) auto
  with doc assms event_of_type [of t m] show ?thesis by (auto simp: event_Validate_def event_of_def marshalled_def)
qed

end
