(* ===== verification/Reference_Main.thy ===== *)
theory Reference_Main
  imports Engine_State Engine_Tools Providers Runtime_Events
begin

text \<open>
  \<^verbatim>\<open>runtimes/reference/main.go\<close>: the process that puts the runtime together. The configuration is loaded from the
  environment, the engine runs with the provider and the tools it names, and the result goes to standard output, after
  the lines of the event log and what the commands of the shell tool copied there.
\<close>

subsection \<open>The process\<close>

text \<open>
  What the process is given: the JSON library, the libraries of configuration and providers, HTTP, the tools, the clock
  and the context that its signals cancel.
\<close>

record ('c, 's) process_world =
  pr_codec :: json_codec
  pr_fake_lib :: fake_lib
  pr_http :: "'s http_world"
  pr_anthropic_unmarshal :: "string \<Rightarrow> anthropic_response go_result"
  pr_openai_unmarshal :: "string \<Rightarrow> openai_response go_result"
  pr_fake :: "'s fake_world"
  pr_tools :: "('c, 's) tool_world"
  pr_now :: "'s \<Rightarrow> time \<times> 's"
  pr_ctx_err :: "'s \<Rightarrow> ctx_error \<times> 's"

abbreviation pr_config :: "('c, 's) process_world \<Rightarrow> config_lib" where "pr_config W \<equiv> hl_config (fl_http (pr_fake_lib W))"
abbreviation pr_lib :: "('c, 's) process_world \<Rightarrow> golib" where "pr_lib W \<equiv> cl_go (pr_config W)"

fun provider_Complete :: "('c, 's) process_world \<Rightarrow> provider \<Rightarrow> completion_request \<Rightarrow> 's \<Rightarrow> (runtime_error + completion_response) \<times> 's" where
  "provider_Complete W (FakeProvider f) q s = fake_Complete (pr_lib W) (pr_fake W) f q s"
| "provider_Complete W (AnthropicProvider a) q s = anthropic_Complete (fl_http (pr_fake_lib W)) (pr_http W) (pr_anthropic_unmarshal W) a q s"
| "provider_Complete W (OpenAIProvider a) q s = openai_Complete (fl_http (pr_fake_lib W)) (pr_http W) (pr_openai_unmarshal W) a q s"

definition resolve_failure :: "golib \<Rightarrow> resolve_error \<Rightarrow> runtime_error" where
  "resolve_failure L e =
     (case e of UnsupportedProvider _ \<Rightarrow> plain_error (resolve_error_text L e) | InvalidProvider c \<Rightarrow> configuration_failure c)"

text \<open>The engine asks a provider only after it was resolved; the other case of \<open>eg_complete\<close> is never reached.\<close>

definition reference_engine :: "('c, 's) process_world \<Rightarrow> config \<Rightarrow> ('s \<times> 'c registry option) engine" where
  "reference_engine W c =
     tools_engine (pr_tools W)
       \<lparr>eg_lib = pr_lib W, eg_json_valid = jc_valid (pr_codec W), eg_emitter = True, eg_config = c, eg_now = pr_now W,
        eg_ctx_err = pr_ctx_err W,
        eg_complete = (\<lambda>q s. case provider_Resolve (pr_fake_lib W) c of
           Inl e \<Rightarrow> (Inl (resolve_failure (pr_lib W) e), s) | Inr p \<Rightarrow> provider_Complete W p q s),
        eg_definitions = (\<lambda>s. ([], s)), eg_execute = (\<lambda>call s. (Inl (plain_error []), s)), eg_close = (\<lambda>s. (None, s))\<rparr>"

definition reference_tools :: "config \<Rightarrow> tools_config" where
  "reference_tools c = \<lparr>tg_allowed = cf_tools c, tg_knowledge_root = [], tg_max_captured_bytes = 0,
     tg_kubernetes = \<lparr>kc_base_url = [], kc_namespace = [], kc_token = [], kc_client = None\<rparr>, tg_mcp = cf_mcp c\<rparr>"

text \<open>A nil registry in an interface is not a nil executor: the engine closes it too, which does nothing.\<close>

definition resolve_tools :: "('c, 's) process_world \<Rightarrow> config \<Rightarrow> 's \<times> 'c registry option \<Rightarrow> tools_answer \<times> 's \<times> 'c registry option" where
  "resolve_tools W c x =
     (case NewWithContext (pr_tools W) (reference_tools c) (fst x) of
        (Inl e, s1) \<Rightarrow> (ToolsFailed (coded_failure e) True, s1, None)
      | (Inr G, s1) \<Rightarrow> (ToolsReady, s1, Some G))"

definition resolve_provider :: "('c, 's) process_world \<Rightarrow> config \<Rightarrow> 'x \<Rightarrow> runtime_error option \<times> 'x" where
  "resolve_provider W c x =
     ((case provider_Resolve (pr_fake_lib W) c of Inl e \<Rightarrow> Some (resolve_failure (pr_lib W) e) | Inr _ \<Rightarrow> None), x)"

definition reference_runner :: "('c, 's) process_world \<Rightarrow> config \<Rightarrow> ('s \<times> 'c registry option) runner" where
  "reference_runner W c = \<lparr>rn_engine = reference_engine W c, rn_resolve = resolve_provider W, rn_resolve_tools = Some (resolve_tools W)\<rparr>"

subsection \<open>What it prints\<close>

text \<open>
  The emissions, what commands copied to standard output, piece by piece, and the line of the result, which is empty
  when the result could not be written.
\<close>

record main_output =
  mo_exit :: int
  mo_events :: "emission list"
  mo_copied :: "string list"
  mo_line :: string

definition emissions :: "rt_event list \<Rightarrow> emission list" where
  "emissions t = List.map_filter (\<lambda>e. case e of Emitted m \<Rightarrow> Some m | _ \<Rightarrow> None) t"

definition copied_output :: "'c registry option \<Rightarrow> string list" where
  "copied_output G = (case G of None \<Rightarrow> [] | Some G \<Rightarrow> rg_stdout G)"

definition EmitFailure :: "('c, 's) process_world \<Rightarrow> string \<Rightarrow> string \<Rightarrow> bool option \<Rightarrow> metadata \<Rightarrow> emission list \<times> string go_result" where
  "EmitFailure W code message retryable md =
     ([EmError code message retryable], WriteEnvelopeLine (pr_lib W) (pr_codec W) (failureEnvelope code message retryable md))"

definition reference_main :: "('c, 's) process_world \<Rightarrow> getenv \<Rightarrow> 's \<Rightarrow> main_output option" where
  "reference_main W getenv s0 =
     (case Load (pr_config W) getenv of
        Inl err \<Rightarrow>
          (case pr_now W s0 of (startedAt, s1) \<Rightarrow> case pr_now W s1 of (completedAt, _) \<Rightarrow>
             (case EmitFailure W ''invalid_configuration'' err None
                \<lparr>md_provider = trim_space (getenv ''KONTEXT_PROVIDER''), md_model = getenv ''KONTEXT_MODEL'', md_request_id = [],
                 md_started_at = startedAt, md_completed_at = completedAt, md_turns = 0, md_tool_calls = 0\<rparr> of (ms, written) \<Rightarrow>
                Some \<lparr>mo_exit = 2, mo_events = ms, mo_copied = [], mo_line = (case written of Inl _ \<Rightarrow> [] | Inr line \<Rightarrow> line)\<rparr>))
      | Inr c \<Rightarrow>
          (case Run (reference_runner W c) (s0, None) of
             None \<Rightarrow> None
           | Some (execution, t, _, G) \<Rightarrow>
               (case WriteEnvelopeLine (pr_lib W) (pr_codec W) (xr_envelope execution) of
                  Inl _ \<Rightarrow> Some \<lparr>mo_exit = 1, mo_events = emissions t, mo_copied = copied_output G, mo_line = []\<rparr>
                | Inr line \<Rightarrow>
                    Some \<lparr>mo_exit = xr_exit_code execution, mo_events = emissions t, mo_copied = copied_output G, mo_line = line\<rparr>)))"

text \<open>
  Standard output: the event lines, stamped by the clock as it happened to stand, interleaved with what was copied, and
  the line of the result last.
\<close>

definition event_lines :: "(nat \<Rightarrow> time) \<Rightarrow> emission list \<Rightarrow> string list" where
  "event_lines stamp ms = map (\<lambda>(i, m). fst (Emit (stamp i) m)) (enumerate 0 ms)"

definition prints :: "main_output \<Rightarrow> (nat \<Rightarrow> time) \<Rightarrow> string \<Rightarrow> bool" where
  "prints out stamp text \<longleftrightarrow> text \<in> (\<lambda>pieces. concat pieces @ mo_line out) ` shuffles (event_lines stamp (mo_events out)) (mo_copied out)"

subsection \<open>Standard output is made of lines\<close>

abbreviation line_ended :: "string \<Rightarrow> bool" where
  "line_ended s \<equiv> s = [] \<or> last s = CHR 0x0A"

lemma line_ended_concat: "list_all line_ended pieces \<Longrightarrow> line_ended (concat pieces)"
  by (induction pieces) (auto simp: last_append)

definition copies_lines :: "'s \<times> 'c registry option \<Rightarrow> bool" where
  "copies_lines x \<longleftrightarrow> list_all line_ended (copied_output (snd x))"

lemma registry_copies:
  assumes "registry_Execute W G call s = (res, G', s')" "list_all line_ended (rg_stdout G)"
  shows "list_all line_ended (rg_stdout G')"
proof -
  have "list_all line_ended (rg_stdout G1)" if "impl_Execute W G selected arguments s = (r, G1, s1)" for selected arguments r G1 s1
    using that assms(2) by (cases selected) (auto split: prod.splits dest!: shell_Execute_log [of _ _ _ _ _ _ _ _ _ _ Stdout])
  with assms show ?thesis
    by (auto simp: registry_Execute_def split: option.splits prod.splits sum.splits)
qed

lemma on_world_copies: "op_keeps copies_lines (on_world op)"
  by (auto simp: op_keeps_def copies_lines_def on_world_def split: prod.splits)

interpretation copying: engine_keeps "tools_engine W E" copies_lines for W E
proof (unfold_locales, unfold tools_engine_def engine.simps)
  show "op_keeps copies_lines (on_world (eg_now E))" "op_keeps copies_lines (on_world (eg_ctx_err E))"
    "op_keeps copies_lines (on_world (eg_complete E q))" for q by (rule on_world_copies)+
  show "op_keeps copies_lines tool_definitions" by (auto simp: op_keeps_def)
  show "op_keeps copies_lines (execute_tool W call)" for call
    unfolding op_keeps_def
  proof (intro allI impI)
    fix x a x' assume e: "execute_tool W call x = (a, x')" and c: "copies_lines x"
    obtain s G where x: "x = (s, G)" by (cases x)
    show "copies_lines x'" using e c by (cases G) (auto simp: x copies_lines_def copied_output_def split: prod.splits dest: registry_copies)
  qed
  show "op_keeps copies_lines (close_tools W)"
    unfolding op_keeps_def
  proof (intro allI impI)
    fix x a x' assume e: "close_tools W x = (a, x')" and c: "copies_lines x"
    obtain s G where x: "x = (s, G)" by (cases x)
    show "copies_lines x'" using e c by (cases G) (auto simp: x copies_lines_def copied_output_def registry_Close_def split: prod.splits)
  qed
qed

lemma tools_copy_lines: "op_keeps copies_lines (resolve_tools W c)"
  by (auto simp: op_keeps_def copies_lines_def copied_output_def resolve_tools_def NewWithContext_def Let_def
      split: prod.splits sum.splits if_splits)

lemma reference_run_copies:
  assumes "Run (reference_runner W c) (s0, None) = Some (r, t, s', G)"
  shows "list_all line_ended (copied_output G)"
proof -
  have "op_keeps copies_lines (rn_resolve (reference_runner W c) c)"
    by (simp add: reference_runner_def resolve_provider_def op_keeps_def)
  moreover have "op_keeps copies_lines (rt c)" if "rn_resolve_tools (reference_runner W c) = Some rt" for rt
    using that tools_copy_lines [of W c] by (auto simp: reference_runner_def)
  moreover have "copies_lines (s0, None)" by (simp add: copies_lines_def copied_output_def)
  moreover obtain E where E: "rn_engine (reference_runner W c) = tools_engine (pr_tools W) E" "eg_config E = c"
    by (rule that, (simp add: reference_runner_def reference_engine_def) [1], simp)
  moreover have "eg_config (tools_engine (pr_tools W) E) = c" using E(2) by (simp add: tools_engine_def)
  ultimately have "copies_lines (s', G)" using copying.Run_keeps [OF assms E(1)] by simp
  then show ?thesis by (simp add: copies_lines_def)
qed

lemma event_lines_ended: "list_all line_ended (event_lines stamp ms)"
  using Emit_lines by (auto simp: event_lines_def list_all_iff)

lemma Run_outcome:
  "Run R s = Some (r, t, s') \<Longrightarrow>
     xr_exit_code r = 0 \<and> en_outcome (xr_envelope r) = OutcomeSucceeded \<or> xr_exit_code r = 1 \<and> en_outcome (xr_envelope r) = OutcomeFailed"
  using Run_cases [of R s r t s'] by (auto simp: finished_def failed_def answered_def final_answer_def)

text \<open>
  What a process that ended has printed: lines, and then the result, whose outcome agrees with the exit code; a result
  that could not be written goes with a failing exit code.
\<close>

lemma reference_main_prints:
  assumes "reference_main W getenv s = Some out" "prints out stamp text"
  shows "\<exists>before. text = before @ mo_line out \<and> line_ended before \<and> mo_exit out \<in> {0, 1, 2} \<and>
    (mo_line out = [] \<and> mo_exit out \<noteq> 0 \<or>
     (\<exists>e. WriteEnvelopeLine (pr_lib W) (pr_codec W) e = Inr (mo_line out) \<and> (mo_exit out = 0 \<longleftrightarrow> en_outcome e = OutcomeSucceeded)))"
proof -
  from assms(2) obtain pieces where p: "pieces \<in> shuffles (event_lines stamp (mo_events out)) (mo_copied out)" "text = concat pieces @ mo_line out"
    by (auto simp: prints_def)
  have out: "list_all line_ended (mo_copied out) \<and> mo_exit out \<in> {0, 1, 2} \<and>
    (mo_line out = [] \<and> mo_exit out \<noteq> 0 \<or>
     (\<exists>e. WriteEnvelopeLine (pr_lib W) (pr_codec W) e = Inr (mo_line out) \<and> (mo_exit out = 0 \<longleftrightarrow> en_outcome e = OutcomeSucceeded)))"
  proof (cases "Load (pr_config W) getenv")
    case (Inl err)
    with assms(1) show ?thesis
      by (auto simp: reference_main_def EmitFailure_def failureEnvelope_def split: prod.splits sum.splits)
  next
    case (Inr c)
    with assms(1) obtain r t s' G where run: "Run (reference_runner W c) (s, None) = Some (r, t, s', G)"
      by (auto simp: reference_main_def split: option.splits prod.splits)
    note copies = reference_run_copies [OF run] and verdict = Run_outcome [OF run]
    show ?thesis
    proof (cases "WriteEnvelopeLine (pr_lib W) (pr_codec W) (xr_envelope r)")
      case (Inl e)
      with assms(1) Inr run copies show ?thesis by (auto simp: reference_main_def)
    next
      case line: (Inr line)
      with assms(1) Inr run have "out = \<lparr>mo_exit = xr_exit_code r, mo_events = emissions t, mo_copied = copied_output G, mo_line = line\<rparr>"
        by (auto simp: reference_main_def)
      with line copies verdict show ?thesis by auto
    qed
  qed
  have "set pieces = set (event_lines stamp (mo_events out)) \<union> set (mo_copied out)" using p(1) by (rule set_shuffles)
  with out event_lines_ended have "list_all line_ended pieces" by (auto simp: list_all_iff)
  from line_ended_concat [OF this] p(2) out show ?thesis by auto
qed

end
