(* ===== verification/Webhook_Certificates.thy ===== *)
theory Webhook_Certificates
  imports Kube_Io "HOL-Library.Sublist"
begin

text \<open>
  \<^verbatim>\<open>internal/webhooktls/certificates.go\<close> and \<^verbatim>\<open>store.go\<close>: the certificates of the admission webhook, a
  private authority with one serving certificate, and the store the server reads them from. The cryptographic library
  is a parameter: keys are of any type \<open>'k\<close>, certificates are bytes that it creates, parses and verifies.
\<close>

subsection \<open>The library\<close>

text \<open>What the code reads of a parsed certificate; the public key is its encoding, if it has one.\<close>

record x509_cert =
  xc_der :: string
  xc_is_ca :: bool
  xc_not_after :: time
  xc_public_key :: "string option"

text \<open>
  The templates of the code differ in these fields; an authority may sign certificates and revocation lists, the other
  certificates are for digital signatures of a server.
\<close>

record cert_template =
  ct_serial :: int
  ct_common_name :: string
  ct_dns_names :: "string list"
  ct_not_before :: time
  ct_not_after :: time
  ct_is_ca :: bool

record ('k, 's) crypto_lib =
  cy_generate_key :: "'s \<Rightarrow> 'k go_result \<times> 's"
  cy_serial :: "'s \<Rightarrow> int \<times> 's"
  cy_create :: "cert_template \<Rightarrow> x509_cert option \<Rightarrow> 'k \<Rightarrow> 'k \<Rightarrow> 's \<Rightarrow> string go_result \<times> 's"
  cy_parse_certificate :: "string \<Rightarrow> x509_cert go_result"
  cy_public :: "'k \<Rightarrow> string option"
  cy_marshal_key :: "'k \<Rightarrow> string go_result"
  cy_parse_key :: "string \<Rightarrow> 'k option go_result"
  cy_pem_encode :: "string \<Rightarrow> string \<Rightarrow> string"
  cy_pem_decode :: "string \<Rightarrow> (string \<times> string) option"
  cy_key_pair :: "string \<Rightarrow> string \<Rightarrow> string list go_result"
  cy_pool :: "string \<Rightarrow> bool"
  cy_verify :: "x509_cert \<Rightarrow> string \<Rightarrow> string \<Rightarrow> time \<Rightarrow> string option"

text \<open>A call of the library that may fail, with the text its error is wrapped in.\<close>

definition crypto_call :: "string \<Rightarrow> ('s \<Rightarrow> 'a go_result \<times> 's) \<Rightarrow> ('e, 's, 'a) calls" where
  "crypto_call what op s =
     (case op s of (Inl e, s1) \<Rightarrow> (Inl (PlainError (what @ '': '' @ e)), [], s1) | (Inr x, s1) \<Rightarrow> (Inr x, [], s1))"

definition crypto_result :: "string \<Rightarrow> 'a go_result \<Rightarrow> ('e, 's, 'a) calls" where
  "crypto_result what r = crypto_call what (\<lambda>s. (r, s))"

lemma holds_crypto [io_rules]:
  "(\<And>e. Q (Inl (PlainError (what @ '': '' @ e))) []) \<Longrightarrow> (\<And>x. Q (Inr x) []) \<Longrightarrow> holds (crypto_call what op) Q"
  by (auto simp: holds_def crypto_call_def split: prod.splits sum.splits)

lemma holds_crypto_result [io_rules]:
  "(\<And>e. r = Inl e \<Longrightarrow> Q (Inl (PlainError (what @ '': '' @ e))) []) \<Longrightarrow> (\<And>x. r = Inr x \<Longrightarrow> Q (Inr x) []) \<Longrightarrow> holds (crypto_result what r) Q"
  by (auto simp: holds_def crypto_result_def crypto_call_def split: prod.splits sum.splits)

subsection \<open>Bundles\<close>

record tls_bundle =
  bu_ca_key :: string
  bu_ca_cert :: string
  bu_tls_key :: string
  bu_tls_cert :: string

record 'k parsed_bundle =
  pb_bundle :: tls_bundle
  pb_ca :: x509_cert
  pb_ca_key :: 'k
  pb_leaf :: x509_cert
  pb_chain :: "string list"

record certificate_options =
  co_dns_names :: "string list"
  co_now :: time
  co_ca_validity :: duration
  co_serving_validity :: duration
  co_backdate :: duration
  co_previous_ca_bundle :: string

definition invalid_data :: "string \<Rightarrow> string" where
  "invalid_data what = ''invalid webhook certificate data: '' @ what"

definition publicKeysEqual :: "string option \<Rightarrow> string option \<Rightarrow> bool" where
  "publicKeysEqual left right \<longleftrightarrow> left \<noteq> None \<and> left = right"

definition parse_authority :: "('k, 's) crypto_lib \<Rightarrow> tls_bundle \<Rightarrow> (x509_cert \<times> 'k) go_result" where
  "parse_authority C b =
     (case cy_pem_decode C (bu_ca_cert b) of
        None \<Rightarrow> Inl (invalid_data ''CA certificate'')
      | Some (kind, bytes) \<Rightarrow>
          if kind \<noteq> ''CERTIFICATE'' then Inl (invalid_data ''CA certificate'')
          else (case cy_parse_certificate C bytes of
                  Inl _ \<Rightarrow> Inl (invalid_data ''CA certificate'')
                | Inr ca \<Rightarrow>
                    if \<not> xc_is_ca ca then Inl (invalid_data ''CA certificate'')
                    else (case cy_pem_decode C (bu_ca_key b) of
                            None \<Rightarrow> Inl (invalid_data ''CA private key'')
                          | Some (_, keyBytes) \<Rightarrow>
                              (case cy_parse_key C keyBytes of
                                 Inl _ \<Rightarrow> Inl (invalid_data ''CA private key'')
                               | Inr None \<Rightarrow> Inl (invalid_data ''CA key does not match certificate'')
                               | Inr (Some caKey) \<Rightarrow>
                                   if \<not> publicKeysEqual (xc_public_key ca) (cy_public C caKey)
                                   then Inl (invalid_data ''CA key does not match certificate'')
                                   else Inr (ca, caKey)))))"

definition parse_bundle :: "('k, 's) crypto_lib \<Rightarrow> tls_bundle \<Rightarrow> string list \<Rightarrow> time \<Rightarrow> 'k parsed_bundle go_result" where
  "parse_bundle C b dnsNames t =
     go_bind (parse_authority C b) (\<lambda>(ca, caKey).
     case cy_key_pair C (bu_tls_cert b) (bu_tls_key b) of
       Inl _ \<Rightarrow> Inl (invalid_data ''serving key pair'')
     | Inr [] \<Rightarrow> Inl (invalid_data ''serving key pair'')
     | Inr (der # rest) \<Rightarrow>
         (case cy_parse_certificate C der of
            Inl _ \<Rightarrow> Inl (invalid_data ''serving certificate'')
          | Inr leaf \<Rightarrow>
              if \<not> cy_pool C (bu_ca_cert b) then Inl (invalid_data ''CA bundle'')
              else if list_ex (\<lambda>d. cy_verify C leaf d (bu_ca_cert b) t \<noteq> None) dnsNames then
                Inl (invalid_data ''serving certificate verification'')
              else Inr \<lparr>pb_bundle = b, pb_ca = ca, pb_ca_key = caKey, pb_leaf = leaf, pb_chain = der # rest\<rparr>))"

definition leaf_template :: "certificate_options \<Rightarrow> int \<Rightarrow> cert_template" where
  "leaf_template o' serial = \<lparr>ct_serial = serial, ct_common_name = hd (co_dns_names o'), ct_dns_names = co_dns_names o',
     ct_not_before = time_add (co_now o') (- co_backdate o'), ct_not_after = time_add (co_now o') (co_serving_validity o'),
     ct_is_ca = False\<rparr>"

definition Generate :: "('k, 's) crypto_lib \<Rightarrow> certificate_options \<Rightarrow> ('e, 's, tls_bundle) calls" where
  "Generate C o' =
     (if co_dns_names o' = [] then io_fail (PlainError ''generate webhook certificates: at least one DNS name is required'')
      else if co_ca_validity o' \<le> 0 \<or> co_serving_validity o' \<le> 0 then
        io_fail (PlainError ''generate webhook certificates: validity must be positive'')
      else
        io_bind (crypto_call ''generate webhook CA key'' (cy_generate_key C)) (\<lambda>caKey.
        io_bind (io_read (cy_serial C)) (\<lambda>caSerial.
        let caTemplate = \<lparr>ct_serial = caSerial, ct_common_name = ''kontext-webhook-ca'', ct_dns_names = [],
              ct_not_before = time_add (co_now o') (- co_backdate o'), ct_not_after = time_add (co_now o') (co_ca_validity o'),
              ct_is_ca = True\<rparr> in
        io_bind (crypto_call ''create webhook CA certificate'' (cy_create C caTemplate None caKey caKey)) (\<lambda>caDER.
        io_bind (crypto_result ''parse generated webhook CA certificate'' (cy_parse_certificate C caDER)) (\<lambda>ca.
        io_bind (crypto_call ''generate webhook serving key'' (cy_generate_key C)) (\<lambda>leafKey.
        io_bind (io_read (cy_serial C)) (\<lambda>leafSerial.
        io_bind (crypto_call ''create webhook serving certificate'' (cy_create C (leaf_template o' leafSerial) (Some ca) leafKey caKey)) (\<lambda>leafDER.
        io_bind (crypto_result ''marshal webhook CA key'' (cy_marshal_key C caKey)) (\<lambda>caKeyDER.
        io_bind (crypto_result ''marshal webhook serving key'' (cy_marshal_key C leafKey)) (\<lambda>leafKeyDER.
        io_return \<lparr>bu_ca_key = cy_pem_encode C ''PRIVATE KEY'' caKeyDER,
                   bu_ca_cert = cy_pem_encode C ''CERTIFICATE'' caDER @ co_previous_ca_bundle o',
                   bu_tls_key = cy_pem_encode C ''PRIVATE KEY'' leafKeyDER,
                   bu_tls_cert = cy_pem_encode C ''CERTIFICATE'' leafDER\<rparr>))))))))))"

definition RenewServing :: "('k, 's) crypto_lib \<Rightarrow> tls_bundle \<Rightarrow> certificate_options \<Rightarrow> ('e, 's, tls_bundle) calls" where
  "RenewServing C current o' =
     (case parse_bundle C current (co_dns_names o') (co_now o') of
        Inl e \<Rightarrow> io_fail (PlainError e)
      | Inr parsed \<Rightarrow>
          io_bind (crypto_call ''generate webhook serving key'' (cy_generate_key C)) (\<lambda>leafKey.
          io_bind (io_read (cy_serial C)) (\<lambda>serial.
          io_bind (crypto_call ''renew webhook serving certificate''
                     (cy_create C (leaf_template o' serial) (Some (pb_ca parsed)) leafKey (pb_ca_key parsed))) (\<lambda>der.
          io_bind (crypto_result ''marshal webhook serving key'' (cy_marshal_key C leafKey)) (\<lambda>keyDER.
          io_return (current\<lparr>bu_tls_key := cy_pem_encode C ''PRIVATE KEY'' keyDER, bu_tls_cert := cy_pem_encode C ''CERTIFICATE'' der\<rparr>))))))"

subsection \<open>The store\<close>

record tls_store =
  to_cert :: "(x509_cert \<times> string list) option"
  to_ca_bundle :: string

definition store_GetCertificate :: "tls_store \<Rightarrow> (x509_cert \<times> string list) go_result" where
  "store_GetCertificate st = (case to_cert st of None \<Rightarrow> Inl ''webhook serving certificate is not initialized'' | Some c \<Rightarrow> Inr c)"

definition store_load :: "'k parsed_bundle \<Rightarrow> tls_store" where
  "store_load p = \<lparr>to_cert = Some (pb_leaf p, pb_chain p), to_ca_bundle = bu_ca_cert (pb_bundle p)\<rparr>"

subsection \<open>What parsing and generating establish\<close>

lemma parse_bundle_verified:
  assumes "parse_bundle C b dnsNames t = Inr p"
  shows "pb_bundle p = b \<and> xc_is_ca (pb_ca p) \<and> publicKeysEqual (xc_public_key (pb_ca p)) (cy_public C (pb_ca_key p)) \<and>
    (\<forall>d \<in> set dnsNames. cy_verify C (pb_leaf p) d (bu_ca_cert b) t = None)"
  using assms
  by (auto simp: parse_bundle_def parse_authority_def go_bind_def list_ex_iff split: sum.splits list.splits option.splits if_splits prod.splits)

text \<open>A new authority goes in front of the bundle it replaces; renewing the serving certificate keeps the authority.\<close>

lemma Generate_keeps_previous:
  "holds (Generate C o') (\<lambda>r t. t = [] \<and> (\<forall>b. r = Inr b \<longrightarrow> suffix (co_previous_ca_bundle o') (bu_ca_cert b)))"
  unfolding Generate_def Let_def by (intro io_rules) (auto intro!: io_rules simp: suffix_def)

lemma RenewServing_keeps_authority:
  "holds (RenewServing C current o') (\<lambda>r t. t = [] \<and> (\<forall>b. r = Inr b \<longrightarrow> bu_ca_cert b = bu_ca_cert current \<and> bu_ca_key b = bu_ca_key current))"
  unfolding RenewServing_def by (intro io_rules) (auto intro!: io_rules)

end
