(* ===== verification/Webhook_Lifecycle.thy ===== *)
theory Webhook_Lifecycle
  imports Webhook_Certificates
begin

text \<open>
  \<^verbatim>\<open>internal/webhooktls/lifecycle.go\<close>: the Secret that holds the certificates of the admission webhook, the
  registration that tells the API server which authority to trust, and their rotation. Every replica of the operator
  runs it, so the order of the writes matters: trust in a new authority is published before a certificate of it can be
  served, and what was trusted stays trusted until the Secret has changed.
\<close>

subsection \<open>Options and objects\<close>

abbreviation hours :: "int \<Rightarrow> duration" where "hours n \<equiv> n * 3600 * second"
abbreviation DefaultNamespace :: string where "DefaultNamespace \<equiv> ''kontext-system''"
abbreviation DefaultSecretName :: string where "DefaultSecretName \<equiv> ''webhook-server-cert''"
abbreviation DefaultWebhookName :: string where "DefaultWebhookName \<equiv> ''kontext-task-agentrun-mutator.kontext.dev''"
abbreviation DefaultServiceName :: string where "DefaultServiceName \<equiv> ''kontext-webhook-service''"
abbreviation DefaultWebhookPath :: string where "DefaultWebhookPath \<equiv> ''/mutate-kontext-dev-v1alpha1-agentrun''"

record tls_options =
  op_namespace :: string
  op_secret_name :: string
  op_webhook_name :: string
  op_service_name :: string
  op_webhook_path :: string
  op_ca_validity :: duration
  op_serving_validity :: duration
  op_ca_renew_before :: duration
  op_serving_renew_before :: duration
  op_backdate :: duration

definition DefaultOptions :: tls_options where
  "DefaultOptions = \<lparr>op_namespace = DefaultNamespace, op_secret_name = DefaultSecretName, op_webhook_name = DefaultWebhookName,
     op_service_name = DefaultServiceName, op_webhook_path = DefaultWebhookPath, op_ca_validity = hours (10 * 365 * 24),
     op_serving_validity = hours (365 * 24), op_ca_renew_before = hours (365 * 24), op_serving_renew_before = hours (30 * 24),
     op_backdate = 5 * 60 * second\<rparr>"

definition dnsNames :: "tls_options \<Rightarrow> string list" where
  "dnsNames o' =
     (let name = op_service_name o'; ns = op_namespace o' in
      [name, name @ ''.'' @ ns, name @ ''.'' @ ns @ ''.svc'', name @ ''.'' @ ns @ ''.svc.cluster.local''])"

definition managedLabels :: "string go_map" where
  "managedLabels = [(''app.kubernetes.io/name'', ''kontext''), (''app.kubernetes.io/managed-by'', ''kontext'')]"

abbreviation CACertKey :: string where "CACertKey \<equiv> ''ca.crt''"
abbreviation CAKeyKey :: string where "CAKeyKey \<equiv> ''ca.key''"
abbreviation TLSCertKey :: string where "TLSCertKey \<equiv> ''tls.crt''"
abbreviation TLSKeyKey :: string where "TLSKeyKey \<equiv> ''tls.key''"

definition secretData :: "tls_bundle \<Rightarrow> string go_map" where
  "secretData b = [(CACertKey, bu_ca_cert b), (CAKeyKey, bu_ca_key b), (TLSCertKey, bu_tls_cert b), (TLSKeyKey, bu_tls_key b)]"

definition secret_value :: "secret \<Rightarrow> string \<Rightarrow> string" where
  "secret_value x key = (case map_of (sec_data x) key of None \<Rightarrow> [] | Some v \<Rightarrow> v)"

definition bundleFromSecret :: "secret \<Rightarrow> tls_bundle" where
  "bundleFromSecret x = \<lparr>bu_ca_key = secret_value x CAKeyKey, bu_ca_cert = secret_value x CACertKey,
     bu_tls_key = secret_value x TLSKeyKey, bu_tls_cert = secret_value x TLSCertKey\<rparr>"

record webhook_rule =
  wr_operations :: "string list"
  wr_api_groups :: "string list"
  wr_api_versions :: "string list"
  wr_resources :: "string list"
  wr_scope :: string

record mutating_webhook =
  wh_name :: string
  wh_service_namespace :: string
  wh_service_name :: string
  wh_path :: string
  wh_port :: int
  wh_ca_bundle :: string
  wh_rules :: "webhook_rule list"
  wh_failure_policy :: string
  wh_match_policy :: string
  wh_side_effects :: string
  wh_timeout_seconds :: int
  wh_review_versions :: "string list"
  wh_reinvocation_policy :: string
  wh_match_conditions :: "(string \<times> string) list"

record registration =
  rn_name :: string
  rn_labels :: "string go_map"
  rn_webhooks :: "mutating_webhook list"

definition desiredRegistration :: "tls_options \<Rightarrow> string \<Rightarrow> registration" where
  "desiredRegistration o' caBundle = \<lparr>rn_name = op_webhook_name o', rn_labels = managedLabels, rn_webhooks =
     [\<lparr>wh_name = op_webhook_name o', wh_service_namespace = op_namespace o', wh_service_name = op_service_name o',
       wh_path = op_webhook_path o', wh_port = 443, wh_ca_bundle = caBundle,
       wh_rules = [\<lparr>wr_operations = [''CREATE''], wr_api_groups = [''kontext.dev''], wr_api_versions = [''v1alpha1''],
                    wr_resources = [''agentruns''], wr_scope = ''Namespaced''\<rparr>],
       wh_failure_policy = ''Fail'', wh_match_policy = ''Equivalent'', wh_side_effects = ''None'', wh_timeout_seconds = 5,
       wh_review_versions = [''v1''], wh_reinvocation_policy = ''Never'',
       wh_match_conditions = [(''sparse-referenced-agent-run'',
         ''has(object.spec.agentRef) && '' @
         ''(!has(object.spec.goal) || object.spec.goal == '' @ [CHR 0x27, CHR 0x27] @ '' || '' @
         ''!has(object.spec.model) || object.spec.model == '' @ [CHR 0x27, CHR 0x27] @ '' || '' @
         ''!has(object.spec.runtime) || !has(object.spec.runtime.image) || object.spec.runtime.image == '' @ [CHR 0x27, CHR 0x27] @ '')'')]\<rparr>]\<rparr>"

subsection \<open>Calls\<close>

text \<open>
  A Secret is created or updated (\<open>SecretPut\<close>) and comes back as the server has it. A registration is read, patched
  under a lock on its version, or applied.
\<close>

datatype tls_event =
  SecretRead "api_error + secret"
| SecretPut secret "api_error + secret"
| RegistrationRead "api_error + registration"
| RegistrationPatched registration "api_error option"
| RegistrationApplied registration "api_error option"

record ('k, 's) tls_world =
  tl_crypto :: "('k, 's) crypto_lib"
  tl_kube :: kube_lib
  tl_clock :: "'s \<Rightarrow> time \<times> 's"
  tl_get_secret :: "string \<Rightarrow> string \<Rightarrow> 's \<Rightarrow> (api_error + secret) \<times> 's"
  tl_create_secret :: "secret \<Rightarrow> 's \<Rightarrow> (api_error + secret) \<times> 's"
  tl_update_secret :: "secret \<Rightarrow> 's \<Rightarrow> (api_error + secret) \<times> 's"
  tl_get_registration :: "string \<Rightarrow> 's \<Rightarrow> (api_error + registration) \<times> 's"
  tl_patch_registration :: "registration \<Rightarrow> 's \<Rightarrow> api_error option \<times> 's"
  tl_apply_registration :: "registration \<Rightarrow> 's \<Rightarrow> api_error option \<times> 's"
  tl_retries :: nat

type_synonym ('s, 'a) tls_io = "(tls_event, 's, 'a) calls"

definition api_done :: "api_error option \<Rightarrow> ('e, 's, unit) calls" where
  "api_done e = (case e of None \<Rightarrow> io_return () | Some err \<Rightarrow> io_fail (ApiErr err))"

text \<open>\<^verbatim>\<open>retry.RetryOnConflict\<close> repeats on a conflict, as often as its backoff has further steps.\<close>

fun RetryOnConflict :: "nat \<Rightarrow> ('e, 's, 'a) calls \<Rightarrow> ('e, 's, 'a) calls" where
  "RetryOnConflict 0 m = m"
| "RetryOnConflict (Suc n) m =
     io_bind (io_try m) (\<lambda>r. case r of
       Inl e \<Rightarrow> if e = ApiErr Conflict then RetryOnConflict n m else io_fail e
     | Inr x \<Rightarrow> io_return x)"

abbreviation clock_now :: "('k, 's) tls_world \<Rightarrow> ('s, time) tls_io" where
  "clock_now W \<equiv> io_read (tl_clock W)"

definition reconcileRegistration :: "('k, 's) tls_world \<Rightarrow> tls_options \<Rightarrow> string \<Rightarrow> ('s, unit) tls_io" where
  "reconcileRegistration W o' caBundle =
     (let desired = desiredRegistration o' caBundle in
      io_bind (io_call (tl_apply_registration W desired) (RegistrationApplied desired)) api_done)"

definition registeredCABundle :: "('k, 's) tls_world \<Rightarrow> tls_options \<Rightarrow> ('s, string) tls_io" where
  "registeredCABundle W o' =
     io_bind (io_call (tl_get_registration W (op_webhook_name o')) RegistrationRead) (\<lambda>r. case r of
       Inl e \<Rightarrow> if e = NotFound then io_return []
                else io_fail (PlainError (''read existing webhook CA trust: '' @ api_error_text (tl_kube W) e))
     | Inr g \<Rightarrow> io_return (case rn_webhooks g of [w] \<Rightarrow> wh_ca_bundle w | _ \<Rightarrow> []))"

definition publish_attempt :: "('k, 's) tls_world \<Rightarrow> tls_options \<Rightarrow> string \<Rightarrow> ('s, unit) tls_io" where
  "publish_attempt W o' nextCABundle =
     io_bind (io_call (tl_get_registration W (op_webhook_name o')) RegistrationRead) (\<lambda>r. case r of
       Inl e \<Rightarrow> io_fail (ApiErr e)
     | Inr g \<Rightarrow>
         (case rn_webhooks g of
            [w] \<Rightarrow>
              (let current = wh_ca_bundle w;
                   combined = nextCABundle @ (if current \<noteq> [] \<and> \<not> sublist current nextCABundle then current else []) in
               if current = combined then io_return ()
               else (let patched = g\<lparr>rn_webhooks := [w\<lparr>wh_ca_bundle := combined\<rparr>]\<rparr> in
                     io_bind (io_call (tl_patch_registration W patched) (RegistrationPatched patched)) api_done))
          | ws \<Rightarrow> io_fail (PlainError (''publish webhook CA rotation trust: registration '' @ op_webhook_name o' @ '' has '' @
                     show_int (int (length ws)) @ '' webhooks''))))"

definition publishRotationTrust :: "('k, 's) tls_world \<Rightarrow> tls_options \<Rightarrow> string \<Rightarrow> ('s, unit) tls_io" where
  "publishRotationTrust W o' nextCABundle = RetryOnConflict (tl_retries W) (publish_attempt W o' nextCABundle)"

definition certificate_options_of :: "tls_options \<Rightarrow> time \<Rightarrow> string \<Rightarrow> certificate_options" where
  "certificate_options_of o' t previousCA = \<lparr>co_dns_names = dnsNames o', co_now = t, co_ca_validity = op_ca_validity o',
     co_serving_validity = op_serving_validity o', co_backdate = op_backdate o', co_previous_ca_bundle = previousCA\<rparr>"

definition generate :: "('k, 's) tls_world \<Rightarrow> tls_options \<Rightarrow> string \<Rightarrow> ('s, tls_bundle) tls_io" where
  "generate W o' previousCA = io_bind (clock_now W) (\<lambda>t. Generate (tl_crypto W) (certificate_options_of o' t previousCA))"

text \<open>New certificates whose authority the registration already trusts, together with what it trusted before.\<close>

definition generate_trusted :: "('k, 's) tls_world \<Rightarrow> tls_options \<Rightarrow> ('s, tls_bundle) tls_io" where
  "generate_trusted W o' =
     io_bind (registeredCABundle W o') (\<lambda>previousCA.
     io_bind (generate W o' previousCA) (\<lambda>generated.
     io_bind (reconcileRegistration W o' (bu_ca_cert generated)) (\<lambda>_. io_return generated)))"

definition create_secret :: "('k, 's) tls_world \<Rightarrow> tls_options \<Rightarrow> ('s, secret) tls_io" where
  "create_secret W o' =
     io_bind (generate_trusted W o') (\<lambda>generated.
     let created = \<lparr>sec_meta = empty_meta\<lparr>m_namespace := op_namespace o', m_name := op_secret_name o', m_labels := managedLabels\<rparr>,
                    sec_immutable = False, sec_type = ''kubernetes.io/tls'', sec_data = secretData generated\<rparr> in
     io_bind (io_call (tl_create_secret W created) (SecretPut created)) (\<lambda>r. case r of
       Inl e \<Rightarrow> io_fail (ApiErr (if e = AlreadyExists then Conflict else e))
     | Inr x \<Rightarrow> io_return x))"

definition replace_secret :: "('k, 's) tls_world \<Rightarrow> tls_options \<Rightarrow> secret \<Rightarrow> ('s, secret) tls_io" where
  "replace_secret W o' x =
     io_bind (generate_trusted W o') (\<lambda>generated.
     let replaced = x\<lparr>sec_type := ''kubernetes.io/tls'', sec_meta := (sec_meta x)\<lparr>m_labels := managedLabels\<rparr>,
                      sec_data := secretData generated\<rparr> in
     io_bind (io_call (tl_update_secret W replaced) (SecretPut replaced)) api_result)"

definition renew_secret :: "('k, 's) tls_world \<Rightarrow> tls_options \<Rightarrow> secret \<Rightarrow> ('s, secret) tls_io" where
  "renew_secret W o' x =
     io_bind (clock_now W) (\<lambda>t.
     io_bind (RenewServing (tl_crypto W) (bundleFromSecret x) (certificate_options_of o' t [])) (\<lambda>renewed.
     let updated = x\<lparr>sec_data := put_all (secretData renewed) (sec_data x)\<rparr> in
     io_bind (io_call (tl_update_secret W updated) (SecretPut updated)) api_result))"

definition ensure_attempt :: "('k, 's) tls_world \<Rightarrow> tls_options \<Rightarrow> ('s, secret) tls_io" where
  "ensure_attempt W o' =
     io_bind (io_call (tl_get_secret W (op_namespace o') (op_secret_name o')) SecretRead) (\<lambda>r. case r of
       Inl e \<Rightarrow> if e = NotFound then create_secret W o' else io_fail (ApiErr e)
     | Inr x \<Rightarrow>
         io_bind (clock_now W) (\<lambda>t.
         case parse_bundle (tl_crypto W) (bundleFromSecret x) (dnsNames o') t of
           Inl _ \<Rightarrow> replace_secret W o' x
         | Inr parsed \<Rightarrow>
             io_bind (clock_now W) (\<lambda>t'.
             if time_sub (xc_not_after (pb_leaf parsed)) t' \<le> op_serving_renew_before o' then renew_secret W o' x
             else io_return x)))"

definition ensureSecret :: "('k, 's) tls_world \<Rightarrow> tls_options \<Rightarrow> ('s, secret) tls_io" where
  "ensureSecret W o' =
     io_bind (io_try (RetryOnConflict (tl_retries W) (ensure_attempt W o'))) (\<lambda>r. case r of
       Inl e \<Rightarrow> io_fail (PlainError (''reconcile webhook TLS Secret: '' @ cerror_text (tl_kube W) e))
     | Inr x \<Rightarrow> io_return x)"

text \<open>One round of \<^verbatim>\<open>Ensure\<close>: the certificate to serve, or nothing when the Secret changed meanwhile.\<close>

definition rotate_authority :: "('k, 's) tls_world \<Rightarrow> tls_options \<Rightarrow> secret \<Rightarrow> ('s, 'k parsed_bundle option) tls_io" where
  "rotate_authority W o' x =
     io_bind (generate W o' (bu_ca_cert (bundleFromSecret x))) (\<lambda>renewal.
     io_bind (clock_now W) (\<lambda>t.
     case parse_bundle (tl_crypto W) renewal (dnsNames o') t of
       Inl e \<Rightarrow> io_fail (PlainError (''validate rotated webhook certificates: '' @ e))
     | Inr parsed \<Rightarrow>
         io_bind (publishRotationTrust W o' (bu_ca_cert renewal)) (\<lambda>_.
         let updated = x\<lparr>sec_data := secretData renewal\<rparr> in
         io_bind (io_call (tl_update_secret W updated) (SecretPut updated)) (\<lambda>r. case r of
           Inl e \<Rightarrow> if e = Conflict then io_return None else io_fail (ApiErr e)
         | Inr _ \<Rightarrow> io_bind (reconcileRegistration W o' (bu_ca_cert renewal)) (\<lambda>_. io_return (Some parsed))))))"

definition ensure_round :: "('k, 's) tls_world \<Rightarrow> tls_options \<Rightarrow> ('s, 'k parsed_bundle option) tls_io" where
  "ensure_round W o' =
     io_bind (ensureSecret W o') (\<lambda>x.
     let current = bundleFromSecret x in
     io_bind (clock_now W) (\<lambda>t.
     case parse_bundle (tl_crypto W) current (dnsNames o') t of
       Inl e \<Rightarrow> io_fail (PlainError (''validate reconciled webhook Secret: '' @ e))
     | Inr parsed \<Rightarrow>
         io_bind (clock_now W) (\<lambda>t'.
         if time_sub (xc_not_after (pb_ca parsed)) t' \<le> op_ca_renew_before o' then rotate_authority W o' x
         else io_bind (reconcileRegistration W o' (bu_ca_cert current)) (\<lambda>_. io_return (Some parsed)))))"

fun ensure_rounds :: "nat \<Rightarrow> ('k, 's) tls_world \<Rightarrow> tls_options \<Rightarrow> ('s, tls_store) tls_io" where
  "ensure_rounds 0 W o' = io_fail (PlainError ''webhook TLS reconciliation did not converge after conflicts'')"
| "ensure_rounds (Suc n) W o' =
     io_bind (ensure_round W o') (\<lambda>r. case r of None \<Rightarrow> ensure_rounds n W o' | Some parsed \<Rightarrow> io_return (store_load parsed))"

definition Ensure :: "('k, 's) tls_world \<Rightarrow> tls_options \<Rightarrow> ('s, tls_store) tls_io" where
  "Ensure W o' = ensure_rounds 5 W o'"

definition ReadinessCheck :: "('k, 's) tls_world \<Rightarrow> tls_options \<Rightarrow> tls_store \<Rightarrow> ('s, unit) tls_io" where
  "ReadinessCheck W o' st =
     (if to_ca_bundle st = [] then io_fail (PlainError ''webhook serving certificate is not initialized'')
      else case store_GetCertificate st of
        Inl e \<Rightarrow> io_fail (PlainError e)
      | Inr (leaf, _) \<Rightarrow>
          if \<not> cy_pool (tl_crypto W) (to_ca_bundle st) then io_fail (PlainError ''webhook serving certificate is invalid'')
          else
            io_bind (clock_now W) (\<lambda>t.
            case cy_verify (tl_crypto W) leaf (op_service_name o' @ ''.'' @ op_namespace o' @ ''.svc'') (to_ca_bundle st) t of
              Some e \<Rightarrow> io_fail (PlainError (''webhook serving certificate is not trusted: '' @ e))
            | None \<Rightarrow>
              io_bind (io_call (tl_get_registration W (op_webhook_name o')) RegistrationRead) (\<lambda>r. case r of
                Inl e \<Rightarrow> io_fail (PlainError (''read webhook registration: '' @ api_error_text (tl_kube W) e))
              | Inr g \<Rightarrow>
                  if map wh_ca_bundle (rn_webhooks g) \<noteq> [to_ca_bundle st] then
                    io_fail (PlainError ''webhook serving certificate and API server trust do not agree'')
                  else io_return ())))"

subsection \<open>What a history knows\<close>

text \<open>
  \<open>trust_of\<close> is the trust a call showed or set; \<open>known\<close> the last of it, \<open>last_seen\<close> what the registration held when it
  was last read, and \<open>last_secret\<close> the Secret that was last read.
\<close>

fun trust_of :: "tls_event \<Rightarrow> string list" where
  "trust_of (RegistrationApplied g None) = map wh_ca_bundle (rn_webhooks g)"
| "trust_of (RegistrationPatched g None) = map wh_ca_bundle (rn_webhooks g)"
| "trust_of (RegistrationRead (Inr g)) = map wh_ca_bundle (rn_webhooks g)"
| "trust_of _ = []"

definition known :: "tls_event list \<Rightarrow> string" where
  "known h = fold (\<lambda>e acc. case trust_of e of [ca] \<Rightarrow> ca | _ \<Rightarrow> acc) h []"

definition last_seen :: "tls_event list \<Rightarrow> string" where
  "last_seen h = fold (\<lambda>e acc. case e of RegistrationRead _ \<Rightarrow> (case trust_of e of [ca] \<Rightarrow> ca | _ \<Rightarrow> []) | _ \<Rightarrow> acc) h []"

definition last_secret :: "tls_event list \<Rightarrow> secret option" where
  "last_secret h = fold (\<lambda>e acc. case e of SecretRead (Inr x) \<Rightarrow> Some x | SecretRead _ \<Rightarrow> None | _ \<Rightarrow> acc) h None"

text \<open>
  A Secret may be written when the registration is known to trust its authority and everything the registration held
  before, or when it keeps the authority of the Secret it replaces.
\<close>

definition event_ok :: "tls_event list \<Rightarrow> tls_event \<Rightarrow> bool" where
  "event_ok h e =
     (case e of
        SecretPut x _ \<Rightarrow>
          sublist (secret_value x CACertKey) (known h) \<and> sublist (last_seen h) (known h) \<or>
          (\<exists>x0. last_secret h = Some x0 \<and> secret_value x CACertKey = secret_value x0 CACertKey \<and>
                secret_value x CAKeyKey = secret_value x0 CAKeyKey)
      | _ \<Rightarrow> True)"

fun safe_from :: "tls_event list \<Rightarrow> tls_event list \<Rightarrow> bool" where
  "safe_from h [] = True"
| "safe_from h (e # t) = (event_ok h e \<and> safe_from (h @ [e]) t)"

lemma safe_from_append [simp]: "safe_from h (t @ t') \<longleftrightarrow> safe_from h t \<and> safe_from (h @ t) t'"
  by (induction t arbitrary: h) auto

lemmas history_simps = known_def last_seen_def last_secret_def event_ok_def

lemma secret_values [simp]:
  "map_of (secretData b) CACertKey = Some (bu_ca_cert b)" "map_of (secretData b) CAKeyKey = Some (bu_ca_key b)"
  by (simp_all add: secretData_def)

lemma retried:
  assumes "holds m Q" "\<And>r t t'. Q (Inl (ApiErr Conflict)) t \<Longrightarrow> Q r t' \<Longrightarrow> Q r (t @ t')"
  shows "holds (RetryOnConflict n m) Q"
proof (induction n)
  case (Suc n)
  have "holds (case r of Inl e \<Rightarrow> if e = ApiErr Conflict then RetryOnConflict n m else io_fail e | Inr x \<Rightarrow> io_return x) (\<lambda>r' t'. Q r' (t @ t'))"
    if q: "Q r t" for r t
  proof (cases r)
    case (Inl e)
    show ?thesis
    proof (cases "e = ApiErr Conflict")
      case True
      with Inl q assms(2) have "holds (RetryOnConflict n m) (\<lambda>r' t'. Q r' (t @ t'))" by (intro holds_mono [OF Suc]) blast
      with Inl True show ?thesis by simp
    next
      case False
      with Inl q show ?thesis by (auto intro!: io_rules)
    qed
  next
    case (Inr x)
    with q show ?thesis by (auto intro!: io_rules)
  qed
  then show ?case by (auto intro!: io_rules holds_mono [OF assms(1)])
qed (simp add: assms(1))

lemma registration_applied:
  "holds (reconcileRegistration W o' ca)
     (\<lambda>r t. \<exists>res. t = [RegistrationApplied (desiredRegistration o' ca) res] \<and> (r = Inr () \<longrightarrow> res = None))"
  unfolding reconcileRegistration_def api_done_def Let_def by (intro io_rules) (auto intro!: io_rules split: option.splits)

lemma registered_read:
  "holds (registeredCABundle W o') (\<lambda>r t. \<exists>res. t = [RegistrationRead res] \<and> (\<forall>ca. r = Inr ca \<longrightarrow> last_seen t = ca))"
  unfolding registeredCABundle_def
  by (intro io_rules) (auto intro!: io_rules simp: last_seen_def split: list.splits)

lemma holds_seq:
  assumes "holds m P" "\<And>e t. P (Inl e) t \<Longrightarrow> Q (Inl e) t" "\<And>x t. P (Inr x) t \<Longrightarrow> holds (f x) (\<lambda>r t'. Q r (t @ t'))"
  shows "holds (io_bind m f) Q"
  by (rule holds_bind, rule holds_mono [OF assms(1)]) (auto split: sum.splits intro: assms(2,3))

lemma generated:
  "holds (generate W o' previousCA) (\<lambda>r t. t = [] \<and> (\<forall>b. r = Inr b \<longrightarrow> sublist previousCA (bu_ca_cert b)))"
  unfolding generate_def
  by (intro holds_bind holds_read)
     (auto intro!: holds_mono [OF Generate_keeps_previous] simp: certificate_options_of_def suffix_imp_sublist)

definition trusts :: "tls_event list \<Rightarrow> string \<Rightarrow> bool" where
  "trusts t ca \<longleftrightarrow> (\<forall>h. sublist ca (known (h @ t)) \<and> sublist (last_seen (h @ t)) (known (h @ t)))"

lemma generate_trusted_safe:
  "holds (generate_trusted W o') (\<lambda>r t. (\<forall>h. safe_from h t) \<and> (\<forall>b. r = Inr b \<longrightarrow> trusts t (bu_ca_cert b)))"
  unfolding generate_trusted_def
proof (rule holds_seq [OF registered_read], goal_cases)
  case (1 e t)
  then show ?case by (auto simp: history_simps)
next
  case (2 previousCA t)
  then obtain res where t: "t = [RegistrationRead res]" "last_seen t = previousCA" by auto
  show ?case
  proof (rule holds_seq [OF generated], goal_cases)
    case (1 e t1)
    then show ?case by (auto simp: history_simps t)
  next
    case (2 b t1)
    show ?case
    proof (rule holds_seq [OF registration_applied], goal_cases)
      case (1 e t2)
      with 2 show ?case by (auto simp: history_simps t)
    next
      case (2 u t2)
      with \<open>t1 = [] \<and> _\<close> have "trusts (t @ t2) (bu_ca_cert b)"
        using t(2) by (auto simp: trusts_def history_simps t(1) desiredRegistration_def)
      with 2 \<open>t1 = [] \<and> _\<close> show ?case by (auto intro!: io_rules simp: history_simps t(1))
    qed
  qed
qed

text \<open>Writing a Secret right after its authority was trusted, or with the authority it had.\<close>

lemma put_trusted:
  "trusts t (secret_value x CACertKey) \<Longrightarrow> event_ok (h @ t) (SecretPut x res)"
  by (simp add: trusts_def event_ok_def)

lemma create_safe: "holds (create_secret W o') (\<lambda>r t. \<forall>h. safe_from h t)"
  unfolding create_secret_def Let_def
  by (rule holds_seq [OF generate_trusted_safe])
     (auto intro!: io_rules put_trusted simp: secret_value_def)

lemma replace_safe: "holds (replace_secret W o' x) (\<lambda>r t. \<forall>h. safe_from h t)"
  unfolding replace_secret_def Let_def
  by (rule holds_seq [OF generate_trusted_safe])
     (auto intro!: io_rules put_trusted simp: secret_value_def)

lemma renew_safe: "holds (renew_secret W o' x) (\<lambda>r t. \<forall>h. last_secret h = Some x \<longrightarrow> safe_from h t)"
proof -
  have put: "secret_value (x\<lparr>sec_data := put_all (secretData b) (sec_data x)\<rparr>) CACertKey = bu_ca_cert b"
    "secret_value (x\<lparr>sec_data := put_all (secretData b) (sec_data x)\<rparr>) CAKeyKey = bu_ca_key b" for b
    by (simp_all add: secret_value_def secretData_def)
  show ?thesis
    unfolding renew_secret_def Let_def
    by (intro holds_bind holds_read, simp, rule holds_seq [OF RenewServing_keeps_authority])
       (auto intro!: io_rules simp: put bundleFromSecret_def event_ok_def)
qed

lemma attempt_safe: "holds (ensure_attempt W o') (\<lambda>r t. \<forall>h. safe_from h t)"
proof -
  have read: "event_ok h (SecretRead r)" "last_secret (h @ [SecretRead (Inr x)]) = Some x" for h r x
    by (simp_all add: history_simps)
  show ?thesis
    unfolding ensure_attempt_def
    by (intro io_rules)
       (auto simp: read intro!: io_rules holds_mono [OF create_safe] holds_mono [OF replace_safe] holds_mono [OF renew_safe])
qed

lemma ensureSecret_safe: "holds (ensureSecret W o') (\<lambda>r t. \<forall>h. safe_from h t)"
  unfolding ensureSecret_def
  by (intro holds_bind holds_try, rule holds_mono [OF retried [OF attempt_safe]])
     (auto intro!: io_rules)

lemma trusts_later: "trusts t' ca \<Longrightarrow> trusts (t @ t') ca"
  unfolding trusts_def by (metis append.assoc)

lemma publish_safe:
  "holds (publishRotationTrust W o' ca) (\<lambda>r t. (\<forall>h. safe_from h t) \<and> (r = Inr () \<longrightarrow> trusts t ca))"
  unfolding publishRotationTrust_def
proof (rule retried)
  show "holds (publish_attempt W o' ca) (\<lambda>r t. (\<forall>h. safe_from h t) \<and> (r = Inr () \<longrightarrow> trusts t ca))"
    unfolding publish_attempt_def api_done_def Let_def
    by (intro io_rules)
       (auto intro!: io_rules simp: trusts_def history_simps split: list.splits option.splits if_splits)
qed (auto intro: trusts_later)

text \<open>What may be served: a bundle that verified, right after its authority was registered.\<close>

definition serves :: "('k, 's) tls_world \<Rightarrow> tls_options \<Rightarrow> 'k parsed_bundle \<Rightarrow> tls_event list \<Rightarrow> bool" where
  "serves W o' p t \<longleftrightarrow> (\<exists>t0. parse_bundle (tl_crypto W) (pb_bundle p) (dnsNames o') t0 = Inr p) \<and>
     t \<noteq> [] \<and> last t = RegistrationApplied (desiredRegistration o' (bu_ca_cert (pb_bundle p))) None"

lemma serves_later: "serves W o' p t' \<Longrightarrow> serves W o' p (t @ t')"
  by (auto simp: serves_def)

lemma registered_serves:
  assumes "parse_bundle (tl_crypto W) b (dnsNames o') t0 = Inr p"
  shows "holds (io_bind (reconcileRegistration W o' (bu_ca_cert b)) (\<lambda>_. io_return (Some p)))
    (\<lambda>r t. (\<forall>h. safe_from h t) \<and> (\<forall>q. r = Inr (Some q) \<longrightarrow> serves W o' q t))"
proof -
  from parse_bundle_verified [OF assms] assms have "pb_bundle p = b" "\<exists>t0. parse_bundle (tl_crypto W) b (dnsNames o') t0 = Inr p" by auto
  then show ?thesis
    by (intro holds_seq [OF registration_applied]) (auto intro!: io_rules simp: serves_def event_ok_def)
qed

lemma rotate_safe:
  "holds (rotate_authority W o' x) (\<lambda>r t. (\<forall>h. safe_from h t) \<and> (\<forall>p. r = Inr (Some p) \<longrightarrow> serves W o' p t))"
  unfolding rotate_authority_def
proof (rule holds_seq [OF generated], goal_cases)
  case (2 b t)
  let ?x = "x\<lparr>sec_data := secretData b\<rparr>"
  have put: "safe_from h (t' @ [SecretPut ?x res])" if "trusts t' (bu_ca_cert b)" "\<forall>h. safe_from h t'" for h t' res
    using that put_trusted [of t' ?x h res] by (simp add: secret_value_def)
  have "holds (case r of Inl e \<Rightarrow> if e = Conflict then io_return None else io_fail (ApiErr e)
        | Inr _ \<Rightarrow> io_bind (reconcileRegistration W o' (bu_ca_cert b)) (\<lambda>_. io_return (Some parsed)))
      (\<lambda>r' t'. (\<forall>h. safe_from h ((t1 @ [SecretPut ?x r]) @ t')) \<and> (\<forall>p. r' = Inr (Some p) \<longrightarrow> serves W o' p ((t1 @ [SecretPut ?x r]) @ t')))"
    if "parse_bundle (tl_crypto W) b (dnsNames o') t0 = Inr parsed" "trusts t1 (bu_ca_cert b)" "\<forall>h. safe_from h t1" for t0 t1 parsed r
    using put [OF that(2,3)]
    by (intro holds_sum holds_if holds_return holds_fail holds_mono [OF registered_serves [OF that(1)]])
       (auto simp del: append_assoc simp: serves_later)
  then show ?case
    using 2 by (intro holds_bind holds_read, simp, intro holds_sum holds_fail holds_seq [OF publish_safe] holds_let holds_bind holds_call) auto
qed simp

lemma round_safe:
  "holds (ensure_round W o') (\<lambda>r t. (\<forall>h. safe_from h t) \<and> (\<forall>p. r = Inr (Some p) \<longrightarrow> serves W o' p t))"
  unfolding ensure_round_def Let_def
proof (rule holds_seq [OF ensureSecret_safe], goal_cases)
  case (2 x t)
  let ?Q = "\<lambda>r t'. (\<forall>h. safe_from h (t @ t')) \<and> (\<forall>p. r = Inr (Some p) \<longrightarrow> serves W o' p (t @ t'))"
  have later: "?Q r t'" if "(\<forall>h. safe_from h t') \<and> (\<forall>p. r = Inr (Some p) \<longrightarrow> serves W o' p t')" for r t'
    using that 2 by (auto intro: serves_later)
  have "holds (if late then rotate_authority W o' x
        else io_bind (reconcileRegistration W o' (bu_ca_cert (bundleFromSecret x))) (\<lambda>_. io_return (Some parsed))) ?Q"
    if "parse_bundle (tl_crypto W) (bundleFromSecret x) (dnsNames o') t0 = Inr parsed" for t0 parsed late
    by (intro holds_if holds_mono [OF rotate_safe] holds_mono [OF registered_serves [OF that]] later)
  then show ?case using 2 by (intro holds_bind holds_read) (auto intro!: holds_sum holds_fail holds_bind holds_read)
qed simp

lemma rounds_safe:
  "holds (ensure_rounds n W o') (\<lambda>r t. (\<forall>h. safe_from h t) \<and> (\<forall>st. r = Inr st \<longrightarrow> (\<exists>p. st = store_load p \<and> serves W o' p t)))"
proof (induction n)
  case (Suc n)
  show ?case
    unfolding ensure_rounds.simps
    by (rule holds_seq [OF round_safe], simp, intro holds_option holds_mono [OF Suc] holds_return)
       (auto, blast intro: serves_later)
qed (auto intro: io_rules)

text \<open>
  C22. The webhook never serves what the API server does not trust, in any interleaving with other replicas and with any
  failures: a Secret with a new authority is written only after the registration was seen or made to trust that authority
  together with everything it held before, every other write keeps the authority; and a certificate reaches the store
  only if it verified for every name of the service, directly after its authority was registered.
\<close>

theorem Ensure_trust_before_use:
  assumes "Ensure W o' s = (r, t, s')"
  shows "safe_from [] t \<and>
    (\<forall>st. r = Inr st \<longrightarrow>
       (\<exists>leaf chain t0. to_cert st = Some (leaf, chain) \<and> (\<forall>d \<in> set (dnsNames o'). cy_verify (tl_crypto W) leaf d (to_ca_bundle st) t0 = None)) \<and>
       t \<noteq> [] \<and> last t = RegistrationApplied (desiredRegistration o' (to_ca_bundle st)) None)"
proof -
  from holdsD [OF rounds_safe assms [unfolded Ensure_def]] have safe: "safe_from [] t"
    and st: "\<And>st. r = Inr st \<Longrightarrow> \<exists>p. st = store_load p \<and> serves W o' p t" by simp_all
  have "\<exists>leaf chain t0. to_cert st = Some (leaf, chain) \<and> (\<forall>d \<in> set (dnsNames o'). cy_verify (tl_crypto W) leaf d (to_ca_bundle st) t0 = None)"
    "t \<noteq> []" "last t = RegistrationApplied (desiredRegistration o' (to_ca_bundle st)) None" if "r = Inr st" for st
  proof -
    from st [OF that] obtain p t0 where p: "st = store_load p" "serves W o' p t"
      and parsed: "parse_bundle (tl_crypto W) (pb_bundle p) (dnsNames o') t0 = Inr p" by (auto simp: serves_def)
    from parse_bundle_verified [OF parsed] p(1)
    show "\<exists>leaf chain t0. to_cert st = Some (leaf, chain) \<and> (\<forall>d \<in> set (dnsNames o'). cy_verify (tl_crypto W) leaf d (to_ca_bundle st) t0 = None)"
      by (auto simp: store_load_def)
    from p show "t \<noteq> []" "last t = RegistrationApplied (desiredRegistration o' (to_ca_bundle st)) None"
      by (simp_all add: serves_def store_load_def)
  qed
  with safe show ?thesis by blast
qed

text \<open>The operator is ready only while what it serves verifies and is what the API server trusts.\<close>

lemma ReadinessCheck_agrees:
  "holds (ReadinessCheck W o' st) (\<lambda>r t. r = Inr () \<longrightarrow>
     (\<exists>leaf chain t0 g. to_cert st = Some (leaf, chain) \<and> t = [RegistrationRead (Inr g)] \<and> map wh_ca_bundle (rn_webhooks g) = [to_ca_bundle st] \<and>
        cy_verify (tl_crypto W) leaf (op_service_name o' @ ''.'' @ op_namespace o' @ ''.svc'') (to_ca_bundle st) t0 = None))"
  unfolding ReadinessCheck_def store_GetCertificate_def
  by (intro io_rules) (auto intro!: io_rules split: option.splits, metis option.distinct(1))

definition demo_crypto :: "(unit, 's) crypto_lib" where
  "demo_crypto = \<lparr>cy_generate_key = (\<lambda>s. (Inr (), s)), cy_serial = (\<lambda>s. (1, s)),
     cy_create = (\<lambda>tpl parent k signer s. (Inr (if ct_is_ca tpl then ''CA'' else ''leaf''), s)),
     cy_parse_certificate = (\<lambda>b. Inr \<lparr>xc_der = b, xc_is_ca = (b = ''CA''), xc_not_after = hours 87600, xc_public_key = Some ''k''\<rparr>),
     cy_public = (\<lambda>_. Some ''k''), cy_marshal_key = (\<lambda>_. Inr ''key''), cy_parse_key = (\<lambda>_. Inr (Some ())), cy_pem_encode = (\<lambda>_ b. b),
     cy_pem_decode = (\<lambda>b. if b = [] then None else Some (''CERTIFICATE'', b)), cy_key_pair = (\<lambda>cert key. Inr [cert]), cy_pool = (\<lambda>_. True),
     cy_verify = (\<lambda>leaf d roots t. if roots = ''CA'' then None else Some ''unknown authority'')\<rparr>"

text \<open>A cluster that keeps the Secret, and a registration that accepts every write.\<close>

definition demo_tls :: "(unit, secret option) tls_world" where
  "demo_tls = \<lparr>tl_crypto = demo_crypto, tl_kube = doc_kube, tl_clock = (\<lambda>s. (0, s)),
     tl_get_secret = (\<lambda>ns n s. (case s of None \<Rightarrow> Inl NotFound | Some x \<Rightarrow> Inr x, s)), tl_create_secret = (\<lambda>x s. (Inr x, Some x)),
     tl_update_secret = (\<lambda>x s. (Inr x, Some x)), tl_get_registration = (\<lambda>n s. (Inl NotFound, s)),
     tl_patch_registration = (\<lambda>g s. (None, s)), tl_apply_registration = (\<lambda>g s. (None, s)), tl_retries = 3\<rparr>"

theorem Ensure_trust_before_use_witness:
  "\<exists>st t s'. Ensure demo_tls DefaultOptions None = (Inr st, t, s') \<and> safe_from [] t \<and> to_ca_bundle st = ''CA'' \<and>
     last t = RegistrationApplied (desiredRegistration DefaultOptions ''CA'') None"
proof -
  have "case Ensure demo_tls DefaultOptions None of (Inr st, t, s') \<Rightarrow> to_ca_bundle st = ''CA'' | _ \<Rightarrow> False" by code_simp
  then obtain st t s' where run: "Ensure demo_tls DefaultOptions None = (Inr st, t, s')" and ca: "to_ca_bundle st = ''CA''"
    by (auto split: prod.splits sum.splits)
  from Ensure_trust_before_use [OF run] run ca show ?thesis by auto
qed

end
