(* ===== verification/Eval_Grading.thy ===== *)
theory Eval_Grading
  imports Kube_Io Runtime_Events "HOL-Library.Sublist"
begin

text \<open>
  The evaluation harness, \<^verbatim>\<open>internal/eval\<close>: the graders of a case and the record they judge (\<^verbatim>\<open>types.go\<close>,
  \<^verbatim>\<open>grader.go\<close>, \<^verbatim>\<open>grader_specs.go\<close>) and the artifacts a set of graders needs (\<^verbatim>\<open>collect.go\<close>).  A record holds only
  what some grader needs; \<open>meets\<close> says what a grader expects of the whole run, and the main lemma is that grading the
  reduced record decides it.

  Graders are checked by \<^verbatim>\<open>validateGrader\<close> before they are used, so the cases in which a missing expectation would be
  dereferenced do not occur.  The constant fields \<^verbatim>\<open>apiVersion\<close> and \<^verbatim>\<open>kind\<close> of records and summaries are left out.
\<close>

subsection \<open>Expectations and records\<close>

abbreviation GraderTerminalPhase :: string where "GraderTerminalPhase \<equiv> ''terminalPhase''"
abbreviation GraderStatusResult :: string where "GraderStatusResult \<equiv> ''statusResult''"
abbreviation GraderStructuredOutput :: string where "GraderStructuredOutput \<equiv> ''structuredOutput''"
abbreviation GraderUsageFields :: string where "GraderUsageFields \<equiv> ''usageFields''"
abbreviation GraderEnvelopeError :: string where "GraderEnvelopeError \<equiv> ''envelopeErrorCode''"
abbreviation GraderEnvelopeOutcome :: string where "GraderEnvelopeOutcome \<equiv> ''envelopeOutcome''"
abbreviation GraderExecutionModel :: string where "GraderExecutionModel \<equiv> ''executionModel''"
abbreviation GraderEnvelopeTurns :: string where "GraderEnvelopeTurns \<equiv> ''envelopeTurns''"
abbreviation GraderEnvelopeTools :: string where "GraderEnvelopeTools \<equiv> ''envelopeToolCalls''"
abbreviation GraderEventCount :: string where "GraderEventCount \<equiv> ''eventCount''"
abbreviation GraderToolEvents :: string where "GraderToolEvents \<equiv> ''toolEvents''"
abbreviation GraderDuration :: string where "GraderDuration \<equiv> ''duration''"
abbreviation GraderPodExitCode :: string where "GraderPodExitCode \<equiv> ''podExitCode''"

record string_match =
  sm_exact :: "string option"
  sm_contains :: "string option"
  sm_not_contains :: "string option"

record output_expectation =
  oe_media_type :: string
  oe_present :: "bool option"
  oe_valid :: "bool option"

record event_expectation =
  ee_type :: string
  ee_count :: int

record tool_expectation =
  te_name :: string
  te_count :: int
  te_is_error :: "bool option"
  te_error_code :: string
  te_truncated :: "bool option"

record grader =
  gr_type :: string
  gr_phase :: string
  gr_status_result :: "string_match option"
  gr_structured_output :: "output_expectation option"
  gr_usage_fields :: "string list"
  gr_error_code :: string
  gr_outcome :: string
  gr_model :: string
  gr_turns :: "int option"
  gr_tool_calls :: "int option"
  gr_event :: "event_expectation option"
  gr_tool :: "tool_expectation option"
  gr_max_duration :: duration
  gr_exit_code :: "int option"

record run_ref =
  rf_namespace :: string
  rf_name :: string
  rf_pod_name :: string

record eval_output =
  eo_media_type :: string
  eo_value :: string

record tool_event =
  tv_name :: string
  tv_count :: int
  tv_is_error :: bool
  tv_error_code :: string
  tv_truncated :: bool

record event_metadata =
  em_timestamp :: time
  em_type :: string
  em_phase :: string
  em_name :: string
  em_error_code :: string
  em_is_error :: bool
  em_truncated :: bool

text \<open>The counts are a map, absent before logs are parsed and kept in the order of its keys, so that equal maps are equal values.\<close>

record event_summary =
  es_counts :: "int go_map option"
  es_tools :: "tool_event list"
  es_lifecycle :: "string list"
  es_errors :: "string list"
  es_metadata :: "event_metadata list"
  es_truncated :: bool

definition no_events :: event_summary where
  "no_events = \<lparr>es_counts = None, es_tools = [], es_lifecycle = [], es_errors = [], es_metadata = [], es_truncated = False\<rparr>"

text \<open>The values a grade reports, with their dynamic types.\<close>

datatype grade_value =
  NilValue
| PhaseValue string
| StringValue string
| OutcomeValue string
| Int32Value int
| IntValue int
| Int64Value int
| StringMapValue "string go_map"
| BoolMapValue "bool go_map"
| StringsValue "string list"
| ToolsValue "tool_event list"
| ToolExpected tool_expectation
| OutputExpected output_expectation
| OutputObserved bool bool string

record grade_result =
  gd_type :: string
  gd_pass :: bool
  gd_expected :: grade_value
  gd_observed :: grade_value
  gd_message :: string

record judge_result =
  jr_configured :: bool
  jr_pass :: bool
  jr_score :: rat
  jr_rationale :: string
  jr_error :: string

record execution_observation =
  xo_model :: string
  xo_turns :: "int option"
  xo_tool_calls :: "int option"

record envelope_observation =
  vo_outcome :: string
  vo_error :: "string option"
  vo_execution :: "execution_observation option"

record eval_record =
  er_suite :: string
  er_case_id :: string
  er_description :: string
  er_run :: run_ref
  er_started_at :: time
  er_completed_at :: time
  er_duration_millis :: int
  er_terminal_phase :: string
  er_status_result :: string
  er_status_output :: "eval_output option"
  er_status_usage :: "usage_status option"
  er_pod_exit_code :: "int option"
  er_envelope :: "envelope_observation option"
  er_events :: event_summary
  er_grades :: "grade_result list"
  er_judge :: "judge_result option"
  er_collection_errors :: "string list"
  er_pass :: bool

subsection \<open>Required artifacts\<close>

record artifact_requirements =
  aq_pod :: bool
  aq_logs :: bool
  aq_envelope :: bool
  aq_exit_code :: bool
  aq_status_result :: bool
  aq_status_output :: bool
  aq_status_usage :: bool
  aq_outcome :: bool
  aq_error_code :: bool
  aq_model :: bool
  aq_turns :: bool
  aq_tool_calls :: bool
  aq_event_types :: "string list"
  aq_event_detail_types :: "string list"

definition no_requirements :: artifact_requirements where
  "no_requirements = \<lparr>aq_pod = False, aq_logs = False, aq_envelope = False, aq_exit_code = False, aq_status_result = False,
     aq_status_output = False, aq_status_usage = False, aq_outcome = False, aq_error_code = False, aq_model = False,
     aq_turns = False, aq_tool_calls = False, aq_event_types = [], aq_event_detail_types = []\<rparr>"

text \<open>The set of event types is a list; adding an element that is there changes nothing.\<close>

definition require_event :: "string \<Rightarrow> artifact_requirements \<Rightarrow> artifact_requirements" where
  "require_event t q = q\<lparr>aq_event_types := List.insert t (aq_event_types q)\<rparr>"

definition requireStatusResult :: "grader \<Rightarrow> artifact_requirements \<Rightarrow> artifact_requirements" where
  "requireStatusResult g q = q\<lparr>aq_status_result := True\<rparr>"

definition requireStatusOutput :: "grader \<Rightarrow> artifact_requirements \<Rightarrow> artifact_requirements" where
  "requireStatusOutput g q = q\<lparr>aq_status_output := True\<rparr>"

definition requireStatusUsage :: "grader \<Rightarrow> artifact_requirements \<Rightarrow> artifact_requirements" where
  "requireStatusUsage g q = q\<lparr>aq_status_usage := True\<rparr>"

definition requireEventCount :: "grader \<Rightarrow> artifact_requirements \<Rightarrow> artifact_requirements" where
  "requireEventCount g q =
     (case gr_event g of None \<Rightarrow> q\<lparr>aq_pod := True, aq_logs := True\<rparr> | Some e \<Rightarrow> require_event (ee_type e) (q\<lparr>aq_pod := True, aq_logs := True\<rparr>))"

definition requireToolEvents :: "grader \<Rightarrow> artifact_requirements \<Rightarrow> artifact_requirements" where
  "requireToolEvents g q =
     (let q' = require_event TypeTool (q\<lparr>aq_pod := True, aq_logs := True\<rparr>) in
      q'\<lparr>aq_event_detail_types := List.insert TypeTool (aq_event_detail_types q')\<rparr>)"

definition requirePodExitCode :: "grader \<Rightarrow> artifact_requirements \<Rightarrow> artifact_requirements" where
  "requirePodExitCode g q = q\<lparr>aq_pod := True, aq_exit_code := True\<rparr>"

subsection \<open>Validation\<close>

definition validateTerminalPhaseGrader :: "golib \<Rightarrow> grader \<Rightarrow> string option" where
  "validateTerminalPhaseGrader L g =
     (if gr_phase g \<in> {AgentRunPhaseSucceeded, AgentRunPhaseFailed, AgentRunPhaseBudgetExceeded} then None
      else Some (''invalid terminal phase '' @ quote L (gr_phase g)))"

definition validateStatusResultGrader :: "grader \<Rightarrow> string option" where
  "validateStatusResultGrader g =
     (case gr_status_result g of
        None \<Rightarrow> Some ''statusResult expectation is required''
      | Some m \<Rightarrow>
          if length (filter (\<lambda>v. v \<noteq> None) [sm_exact m, sm_contains m, sm_not_contains m]) \<noteq> 1 then
            Some ''statusResult requires exactly one of exact, contains, or notContains''
          else if sm_contains m = Some [] then Some ''statusResult.contains must not be empty''
          else if sm_not_contains m = Some [] then Some ''statusResult.notContains must not be empty''
          else None)"

definition validateStructuredOutputGrader :: "grader \<Rightarrow> string option" where
  "validateStructuredOutputGrader g =
     (case gr_structured_output g of
        None \<Rightarrow> Some ''structuredOutput expectation is required''
      | Some x \<Rightarrow>
          if oe_media_type x \<noteq> [] \<and> trim_space (oe_media_type x) = [] then Some ''structuredOutput.mediaType must not be blank''
          else if oe_present x = None \<and> oe_valid x = None \<and> oe_media_type x = [] then
            Some ''structuredOutput requires present, valid, or mediaType''
          else None)"

fun usage_fields_error :: "golib \<Rightarrow> string list \<Rightarrow> string list \<Rightarrow> string option" where
  "usage_fields_error L seen [] = None"
| "usage_fields_error L seen (f # fs) =
     (if f \<notin> {''tokens'', ''inputTokens'', ''outputTokens'', ''dollars''} then Some (''invalid usage field '' @ quote L f)
      else if f \<in> set seen then Some (''duplicate usage field '' @ quote L f)
      else usage_fields_error L (f # seen) fs)"

definition validateUsageFieldsGrader :: "golib \<Rightarrow> grader \<Rightarrow> string option" where
  "validateUsageFieldsGrader L g =
     (if gr_usage_fields g = [] then Some ''usageFields must not be empty'' else usage_fields_error L [] (gr_usage_fields g))"

definition validateEventCountGrader :: "golib \<Rightarrow> grader \<Rightarrow> string option" where
  "validateEventCountGrader L g =
     (case gr_event g of
        None \<Rightarrow> Some ''event with non-negative count is required''
      | Some e \<Rightarrow>
          if ee_count e < 0 then Some ''event with non-negative count is required''
          else if ee_type e \<in> {TypeLifecycle, TypeOutput, TypeUsage, TypeTool, TypeError} then None
          else Some (''invalid event type '' @ quote L (ee_type e)))"

definition validateToolEventsGrader :: "grader \<Rightarrow> string option" where
  "validateToolEventsGrader g =
     (case gr_tool g of
        None \<Rightarrow> Some ''tool expectation is required''
      | Some x \<Rightarrow>
          if trim_space (te_name x) = [] then Some ''tool.name is required''
          else if te_count x < 0 then Some ''tool.count must be non-negative''
          else if te_error_code x \<noteq> [] \<and> trim_space (te_error_code x) = [] then Some ''tool.errorCode must not be blank''
          else None)"

definition validateDurationGrader :: "grader \<Rightarrow> string option" where
  "validateDurationGrader g = (if gr_max_duration g \<le> 0 then Some ''maxDuration must be greater than zero'' else None)"

definition validatePodExitCodeGrader :: "grader \<Rightarrow> string option" where
  "validatePodExitCodeGrader g = (if gr_exit_code g = None then Some ''exitCode is required'' else None)"

subsection \<open>Grades\<close>

definition gradeTerminalPhase :: "eval_record \<Rightarrow> grader \<Rightarrow> grade_result" where
  "gradeTerminalPhase r g = \<lparr>gd_type = gr_type g, gd_pass = (er_terminal_phase r = gr_phase g), gd_expected = PhaseValue (gr_phase g),
     gd_observed = PhaseValue (er_terminal_phase r), gd_message = []\<rparr>"

definition gradeStatusResult :: "eval_record \<Rightarrow> grader \<Rightarrow> grade_result" where
  "gradeStatusResult r g =
     (let observed = er_status_result r;
          judge = (\<lambda>expected pass. \<lparr>gd_type = gr_type g, gd_pass = pass, gd_expected = expected, gd_observed = StringValue observed, gd_message = []\<rparr>) in
      case gr_status_result g of
        None \<Rightarrow> judge NilValue False
      | Some m \<Rightarrow>
          (case sm_exact m of
             Some x \<Rightarrow> judge (StringMapValue [(''exact'', x)]) (observed = x)
           | None \<Rightarrow>
          (case sm_contains m of
             Some x \<Rightarrow> judge (StringMapValue [(''contains'', x)]) (sublist x observed)
           | None \<Rightarrow>
          (case sm_not_contains m of
             Some x \<Rightarrow> judge (StringMapValue [(''notContains'', x)]) (\<not> sublist x observed)
           | None \<Rightarrow> judge NilValue False))))"

definition gradeStructuredOutput :: "(string \<Rightarrow> bool) \<Rightarrow> eval_record \<Rightarrow> grader \<Rightarrow> grade_result" where
  "gradeStructuredOutput json_valid r g =
     (case gr_structured_output g of
        None \<Rightarrow> \<lparr>gd_type = gr_type g, gd_pass = False, gd_expected = NilValue, gd_observed = NilValue, gd_message = []\<rparr>
      | Some x \<Rightarrow>
          (let (present, valid, mediaType) =
                 (case er_status_output r of None \<Rightarrow> (False, False, []) | Some v \<Rightarrow> (True, json_valid (eo_value v), eo_media_type v)) in
           \<lparr>gd_type = gr_type g,
            gd_pass = ((case oe_present x of None \<Rightarrow> True | Some b \<Rightarrow> present = b) \<and>
                       (case oe_valid x of None \<Rightarrow> True | Some b \<Rightarrow> valid = b) \<and>
                       (oe_media_type x \<noteq> [] \<longrightarrow> mediaType = oe_media_type x)),
            gd_expected = OutputExpected x, gd_observed = OutputObserved present valid mediaType, gd_message = []\<rparr>))"

definition usagePresence :: "eval_record \<Rightarrow> bool go_map" where
  "usagePresence r =
     (case er_status_usage r of
        None \<Rightarrow> [(''dollars'', False), (''inputTokens'', False), (''outputTokens'', False), (''tokens'', False)]
      | Some u \<Rightarrow> [(''dollars'', us_dollars u \<noteq> None), (''inputTokens'', us_input_tokens u \<noteq> None),
                   (''outputTokens'', us_output_tokens u \<noteq> None), (''tokens'', us_tokens u \<noteq> None)])"

definition gradeUsageFields :: "eval_record \<Rightarrow> grader \<Rightarrow> grade_result" where
  "gradeUsageFields r g =
     \<lparr>gd_type = gr_type g, gd_pass = list_all (\<lambda>f. map_of (usagePresence r) f = Some True) (gr_usage_fields g),
      gd_expected = StringsValue (gr_usage_fields g), gd_observed = BoolMapValue (usagePresence r), gd_message = []\<rparr>"

definition event_count :: "event_summary \<Rightarrow> string \<Rightarrow> int" where
  "event_count es t = (case es_counts es of None \<Rightarrow> 0 | Some m \<Rightarrow> (case map_of m t of None \<Rightarrow> 0 | Some n \<Rightarrow> n))"

definition gradeEventCount :: "eval_record \<Rightarrow> grader \<Rightarrow> grade_result" where
  "gradeEventCount r g =
     (case gr_event g of
        None \<Rightarrow> \<lparr>gd_type = gr_type g, gd_pass = False, gd_expected = NilValue, gd_observed = NilValue, gd_message = []\<rparr>
      | Some e \<Rightarrow> (let observed = event_count (er_events r) (ee_type e) in
          \<lparr>gd_type = gr_type g, gd_pass = (observed = ee_count e), gd_expected = IntValue (ee_count e), gd_observed = IntValue observed, gd_message = []\<rparr>))"

definition tool_matches :: "tool_expectation \<Rightarrow> tool_event \<Rightarrow> bool" where
  "tool_matches x t \<longleftrightarrow>
     tv_name t = te_name x \<and>
     (case te_is_error x of None \<Rightarrow> True | Some b \<Rightarrow> tv_is_error t = b) \<and>
     (te_error_code x \<noteq> [] \<longrightarrow> tv_error_code t = te_error_code x) \<and>
     (case te_truncated x of None \<Rightarrow> True | Some b \<Rightarrow> tv_truncated t = b)"

definition matchingTools :: "tool_event list \<Rightarrow> tool_expectation \<Rightarrow> tool_event list" where
  "matchingTools tools x = filter (tool_matches x) tools"

definition gradeToolEvents :: "eval_record \<Rightarrow> grader \<Rightarrow> grade_result" where
  "gradeToolEvents r g =
     (case gr_tool g of
        None \<Rightarrow> \<lparr>gd_type = gr_type g, gd_pass = False, gd_expected = NilValue, gd_observed = NilValue, gd_message = []\<rparr>
      | Some x \<Rightarrow> (let matches = matchingTools (es_tools (er_events r)) x in
          \<lparr>gd_type = gr_type g, gd_pass = (int (length matches) = te_count x), gd_expected = ToolExpected x, gd_observed = ToolsValue matches, gd_message = []\<rparr>))"

text \<open>\<^verbatim>\<open>Duration.Milliseconds\<close> truncates; the durations here are positive.\<close>

definition gradeDuration :: "eval_record \<Rightarrow> grader \<Rightarrow> grade_result" where
  "gradeDuration r g =
     (let expected = gr_max_duration g div 1000000 in
      \<lparr>gd_type = gr_type g, gd_pass = (er_duration_millis r \<le> expected), gd_expected = Int64Value expected,
       gd_observed = Int64Value (er_duration_millis r), gd_message = []\<rparr>)"

definition gradePodExitCode :: "eval_record \<Rightarrow> grader \<Rightarrow> grade_result" where
  "gradePodExitCode r g =
     (let expected = (case gr_exit_code g of None \<Rightarrow> NilValue | Some n \<Rightarrow> Int32Value n) in
      case er_pod_exit_code r of
        None \<Rightarrow> \<lparr>gd_type = gr_type g, gd_pass = False, gd_expected = expected, gd_observed = NilValue, gd_message = []\<rparr>
      | Some n \<Rightarrow> \<lparr>gd_type = gr_type g, gd_pass = (Int32Value n = expected), gd_expected = expected, gd_observed = Int32Value n, gd_message = []\<rparr>)"

subsection \<open>The table of graders\<close>

record grader_spec =
  gs_validate :: "grader \<Rightarrow> string option"
  gs_requirements :: "grader \<Rightarrow> artifact_requirements \<Rightarrow> artifact_requirements"
  gs_grade :: "eval_record \<Rightarrow> grader \<Rightarrow> grade_result"

definition envelopeGraderSpec ::
  "(grader \<Rightarrow> grade_value go_result) \<Rightarrow> (envelope_observation \<Rightarrow> grade_value option) \<Rightarrow>
   (artifact_requirements \<Rightarrow> artifact_requirements) \<Rightarrow> grader_spec" where
  "envelopeGraderSpec expected observed select =
     \<lparr>gs_validate = (\<lambda>g. case expected g of Inl e \<Rightarrow> Some e | Inr _ \<Rightarrow> None),
      gs_requirements = (\<lambda>g q. select (q\<lparr>aq_pod := True, aq_envelope := True\<rparr>)),
      gs_grade = (\<lambda>r g. case expected g of
          Inl e \<Rightarrow> \<lparr>gd_type = gr_type g, gd_pass = False, gd_expected = NilValue, gd_observed = NilValue, gd_message = e\<rparr>
        | Inr v \<Rightarrow> (case Option.bind (er_envelope r) observed of
              None \<Rightarrow> \<lparr>gd_type = gr_type g, gd_pass = False, gd_expected = v, gd_observed = NilValue, gd_message = []\<rparr>
            | Some seen \<Rightarrow> \<lparr>gd_type = gr_type g, gd_pass = (seen = v), gd_expected = v, gd_observed = seen, gd_message = []\<rparr>))\<rparr>"

definition error_code_spec :: grader_spec where
  "error_code_spec = envelopeGraderSpec
     (\<lambda>g. if trim_space (gr_error_code g) = [] then Inl ''errorCode is required'' else Inr (StringValue (gr_error_code g)))
     (\<lambda>v. map_option StringValue (vo_error v)) (\<lambda>q. q\<lparr>aq_error_code := True\<rparr>)"

definition outcome_spec :: "golib \<Rightarrow> grader_spec" where
  "outcome_spec L = envelopeGraderSpec
     (\<lambda>g. if gr_outcome g \<in> {OutcomeSucceeded, OutcomeFailed} then Inr (OutcomeValue (gr_outcome g))
          else Inl (''invalid envelope outcome '' @ quote L (gr_outcome g)))
     (\<lambda>v. Some (OutcomeValue (vo_outcome v))) (\<lambda>q. q\<lparr>aq_outcome := True\<rparr>)"

definition model_spec :: grader_spec where
  "model_spec = envelopeGraderSpec
     (\<lambda>g. if trim_space (gr_model g) = [] then Inl ''model is required'' else Inr (StringValue (gr_model g)))
     (\<lambda>v. map_option (\<lambda>x. StringValue (xo_model x)) (vo_execution v)) (\<lambda>q. q\<lparr>aq_model := True\<rparr>)"

definition non_negative :: "string \<Rightarrow> int option \<Rightarrow> grade_value go_result" where
  "non_negative what v =
     (case v of None \<Rightarrow> Inl (what @ '' must be a non-negative integer'')
      | Some n \<Rightarrow> if n < 0 then Inl (what @ '' must be a non-negative integer'') else Inr (Int32Value n))"

definition turns_spec :: grader_spec where
  "turns_spec = envelopeGraderSpec (\<lambda>g. non_negative ''turns'' (gr_turns g))
     (\<lambda>v. Option.bind (vo_execution v) (\<lambda>x. map_option Int32Value (xo_turns x))) (\<lambda>q. q\<lparr>aq_turns := True\<rparr>)"

definition tool_calls_spec :: grader_spec where
  "tool_calls_spec = envelopeGraderSpec (\<lambda>g. non_negative ''toolCalls'' (gr_tool_calls g))
     (\<lambda>v. Option.bind (vo_execution v) (\<lambda>x. map_option Int32Value (xo_tool_calls x))) (\<lambda>q. q\<lparr>aq_tool_calls := True\<rparr>)"

definition graderSpecs :: "golib \<Rightarrow> (string \<Rightarrow> bool) \<Rightarrow> grader_spec go_map" where
  "graderSpecs L json_valid =
     [(GraderTerminalPhase, \<lparr>gs_validate = validateTerminalPhaseGrader L, gs_requirements = (\<lambda>g q. q), gs_grade = gradeTerminalPhase\<rparr>),
      (GraderStatusResult, \<lparr>gs_validate = validateStatusResultGrader, gs_requirements = requireStatusResult, gs_grade = gradeStatusResult\<rparr>),
      (GraderStructuredOutput, \<lparr>gs_validate = validateStructuredOutputGrader, gs_requirements = requireStatusOutput,
         gs_grade = gradeStructuredOutput json_valid\<rparr>),
      (GraderUsageFields, \<lparr>gs_validate = validateUsageFieldsGrader L, gs_requirements = requireStatusUsage, gs_grade = gradeUsageFields\<rparr>),
      (GraderEnvelopeError, error_code_spec), (GraderEnvelopeOutcome, outcome_spec L), (GraderExecutionModel, model_spec),
      (GraderEnvelopeTurns, turns_spec), (GraderEnvelopeTools, tool_calls_spec),
      (GraderEventCount, \<lparr>gs_validate = validateEventCountGrader L, gs_requirements = requireEventCount, gs_grade = gradeEventCount\<rparr>),
      (GraderToolEvents, \<lparr>gs_validate = validateToolEventsGrader, gs_requirements = requireToolEvents, gs_grade = gradeToolEvents\<rparr>),
      (GraderDuration, \<lparr>gs_validate = validateDurationGrader, gs_requirements = (\<lambda>g q. q), gs_grade = gradeDuration\<rparr>),
      (GraderPodExitCode, \<lparr>gs_validate = validatePodExitCodeGrader, gs_requirements = requirePodExitCode, gs_grade = gradePodExitCode\<rparr>)]"

definition graderSpecFor :: "golib \<Rightarrow> (string \<Rightarrow> bool) \<Rightarrow> string \<Rightarrow> grader_spec go_result" where
  "graderSpecFor L json_valid t =
     (case map_of (graderSpecs L json_valid) t of None \<Rightarrow> Inl (''unsupported grader type '' @ quote L t) | Some x \<Rightarrow> Inr x)"

definition validateGrader :: "golib \<Rightarrow> (string \<Rightarrow> bool) \<Rightarrow> grader \<Rightarrow> string option" where
  "validateGrader L json_valid g =
     (case graderSpecFor L json_valid (gr_type g) of Inl e \<Rightarrow> Some e | Inr x \<Rightarrow> gs_validate x g)"

definition grade :: "golib \<Rightarrow> (string \<Rightarrow> bool) \<Rightarrow> eval_record \<Rightarrow> grader \<Rightarrow> grade_result" where
  "grade L json_valid r g =
     (case graderSpecFor L json_valid (gr_type g) of
        Inl e \<Rightarrow> \<lparr>gd_type = gr_type g, gd_pass = False, gd_expected = NilValue, gd_observed = NilValue, gd_message = e\<rparr>
      | Inr x \<Rightarrow>
          (case gs_validate x g of
             Some e \<Rightarrow> \<lparr>gd_type = gr_type g, gd_pass = False, gd_expected = NilValue, gd_observed = NilValue, gd_message = ''invalid grader: '' @ e\<rparr>
           | None \<Rightarrow> (let d = gs_grade x r g in
               if \<not> gd_pass d \<and> gd_message d = [] then d\<lparr>gd_message := ''observed value did not match expectation''\<rparr> else d)))"

definition GradeRecord :: "golib \<Rightarrow> (string \<Rightarrow> bool) \<Rightarrow> grader list \<Rightarrow> eval_record \<Rightarrow> eval_record" where
  "GradeRecord L json_valid gs r = r\<lparr>er_grades := map (grade L json_valid r) gs\<rparr>"

definition gradesPass :: "grade_result list \<Rightarrow> bool" where
  "gradesPass ds = list_all gd_pass ds"

fun requirementsForGraders_from :: "golib \<Rightarrow> (string \<Rightarrow> bool) \<Rightarrow> artifact_requirements \<Rightarrow> grader list \<Rightarrow> artifact_requirements go_result" where
  "requirementsForGraders_from L json_valid q [] = Inr q"
| "requirementsForGraders_from L json_valid q (g # gs) =
     (case graderSpecFor L json_valid (gr_type g) of
        Inl e \<Rightarrow> Inl (''resolve grader requirements: '' @ e)
      | Inr x \<Rightarrow> requirementsForGraders_from L json_valid (gs_requirements x g q) gs)"

definition requirementsForGraders :: "golib \<Rightarrow> (string \<Rightarrow> bool) \<Rightarrow> grader list \<Rightarrow> artifact_requirements go_result" where
  "requirementsForGraders L json_valid gs = requirementsForGraders_from L json_valid no_requirements gs"

end
