(* ===== verification/Eval_Logs.thy ===== *)
theory Eval_Logs
  imports Eval_Grading Tool_Output
begin

text \<open>
  What the evaluation harness reads of a Pod: its log (\<^verbatim>\<open>logs.go\<close>), the events in it (\<^verbatim>\<open>observe.go\<close>) and the part of
  the result envelope that the graders need (\<^verbatim>\<open>collect.go\<close>).  The decoders of the event data are parameters.  The
  lemmas: the bounded tail keeps the last bytes of the stream whatever its chunks, and a summary without errors counts
  exactly the events of the log.
\<close>

abbreviation MaxLogBytes :: nat where "MaxLogBytes \<equiv> 2097152"
abbreviation MaxEventCount :: nat where "MaxEventCount \<equiv> 1000"
abbreviation MaxEventLineBytes :: nat where "MaxEventLineBytes \<equiv> 65536"
abbreviation MaxLogTailLines :: int where "MaxLogTailLines \<equiv> 1001"

subsection \<open>The bounded tail\<close>

record bounded_tail =
  bt_data :: string
  bt_limit :: nat
  bt_truncated :: bool

definition newBoundedTail :: "nat \<Rightarrow> bounded_tail" where
  "newBoundedTail limit = \<lparr>bt_data = [], bt_limit = limit, bt_truncated = False\<rparr>"

text \<open>The copy to the front of the buffer and the shortening together drop the bytes that overflow.\<close>

definition tail_Write :: "string \<Rightarrow> bounded_tail \<Rightarrow> bounded_tail" where
  "tail_Write chunk b =
     (if bt_limit b = 0 then b\<lparr>bt_truncated := bt_truncated b \<or> chunk \<noteq> []\<rparr>
      else if bt_limit b \<le> length chunk then b\<lparr>bt_data := drop (length chunk - bt_limit b) chunk, bt_truncated := True\<rparr>
      else
        let overflow = length (bt_data b) + length chunk - bt_limit b in
        if 0 < overflow then b\<lparr>bt_data := drop overflow (bt_data b) @ chunk, bt_truncated := True\<rparr>
        else b\<lparr>bt_data := bt_data b @ chunk\<rparr>)"

definition logLineCount :: "string \<Rightarrow> int" where
  "logLineCount s =
     (if s = [] then 0
      else 1 + int (count_list s (CHR 0x0A)) - (if last s = CHR 0x0A then 1 else 0))"

record log_collection =
  lc_data :: string
  lc_truncated :: bool

text \<open>The stream of a container log: the chunks it yields and the error it ends with, if any.\<close>

definition Fetch :: "(string \<Rightarrow> string \<Rightarrow> string \<Rightarrow> int \<Rightarrow> int \<Rightarrow> 's \<Rightarrow> (string list \<times> string option) go_result \<times> 's) \<Rightarrow>
    string \<Rightarrow> string \<Rightarrow> string \<Rightarrow> 's \<Rightarrow> log_collection go_result \<times> 's" where
  "Fetch stream ns podName containerName s =
     (case stream ns podName containerName MaxLogTailLines (int MaxLogBytes + 1) s of
        (Inl e, s') \<Rightarrow> (Inl e, s')
      | (Inr (chunks, Some e), s') \<Rightarrow> (Inl e, s')
      | (Inr (chunks, None), s') \<Rightarrow>
          (let b = fold tail_Write chunks (newBoundedTail MaxLogBytes) in
           (Inr \<lparr>lc_data = bt_data b, lc_truncated = (bt_truncated b \<or> logLineCount (bt_data b) \<ge> MaxLogTailLines)\<rparr>, s')))"

subsection \<open>Lines\<close>

text \<open>
  \<^verbatim>\<open>bufio.Scanner\<close> with \<^verbatim>\<open>ScanLines\<close>: a line ends at a newline or at the end of the input, a carriage return
  before it is dropped, and a line that does not fit in the buffer together with what ends it stops the scan.
\<close>

definition drop_return :: "string \<Rightarrow> string" where
  "drop_return l = (if l \<noteq> [] \<and> last l = CHR 0x0D then butlast l else l)"

function scan_lines :: "string \<Rightarrow> string list \<times> string option" where
  "scan_lines s =
     (if s = [] then ([], None)
      else let l = takeWhile (\<lambda>c. c \<noteq> CHR 0x0A) s in
        if MaxEventLineBytes \<le> length l then ([], Some ''bufio.Scanner: token too long'')
        else let (ls, e) = scan_lines (drop (Suc (length l)) s) in (drop_return l # ls, e))"
  by pat_completeness auto
termination by (relation "measure length") auto

declare scan_lines.simps [simp del]

subsection \<open>Events\<close>

record tool_event_data =
  td_name :: string
  td_count :: "int option"
  td_is_error :: "bool option"
  td_error_code :: string
  td_truncated :: "bool option"

datatype event_data =
  LifecycleData string
| ToolData tool_event_data
| ErrorData string string
| OutputData string "string option"
| UsageData "int option" "string go_map option"

record event_codec =
  ec_valid :: "string \<Rightarrow> bool"
  ec_event :: "string \<Rightarrow> (log_event \<times> trailing) go_result"
  ec_lifecycle :: "string \<Rightarrow> string go_result"
  ec_tool :: "string \<Rightarrow> tool_event_data go_result"
  ec_error :: "string \<Rightarrow> (string \<times> string) go_result"
  ec_output :: "string \<Rightarrow> (string \<times> string option) go_result"
  ec_usage :: "string \<Rightarrow> (int option \<times> string go_map option) go_result"

definition check_tool_data :: "tool_event_data \<Rightarrow> event_data go_result" where
  "check_tool_data d =
     (if trim_space (td_name d) = [] then Inl ''name is required and must not be empty''
      else case td_count d of
        None \<Rightarrow> Inl ''count is required''
      | Some n \<Rightarrow>
          if n < 1 then Inl ''count must be at least 1''
          else if td_is_error d = None then Inl ''isError is required''
          else if td_truncated d = None then Inl ''truncated is required''
          else Inr (ToolData d))"

definition parseEventData :: "golib \<Rightarrow> event_codec \<Rightarrow> log_event \<Rightarrow> event_data go_result" where
  "parseEventData L C e =
     (let trimmed = trim_space (ev_data e) in
      if trimmed = [] \<or> hd trimmed \<noteq> CHR ''{'' then Inl ''data must be an object''
      else if ev_type e = TypeLifecycle then
        (case ec_lifecycle C (ev_data e) of
           Inl err \<Rightarrow> Inl (''decode lifecycle data: '' @ err)
         | Inr phase \<Rightarrow> if trim_space phase = [] then Inl ''phase is required and must not be empty'' else Inr (LifecycleData phase))
      else if ev_type e = TypeTool then
        (case ec_tool C (ev_data e) of
           Inl err \<Rightarrow> Inl (''decode tool data: '' @ err)
         | Inr d \<Rightarrow> check_tool_data d)
      else if ev_type e = TypeError then
        (case ec_error C (ev_data e) of
           Inl err \<Rightarrow> Inl (''decode error data: '' @ err)
         | Inr (code, message) \<Rightarrow>
             if trim_space code = [] then Inl ''code is required and must not be empty''
             else if trim_space message = [] then Inl ''message is required and must not be empty''
             else Inr (ErrorData code message))
      else if ev_type e = TypeOutput then
        (case ec_output C (ev_data e) of
           Inl err \<Rightarrow> Inl (''decode output data: '' @ err)
         | Inr (mediaType, v) \<Rightarrow>
             if trim_space mediaType = [] then Inl ''mediaType is required and must not be empty''
             else if v = None then Inl ''value is required''
             else Inr (OutputData mediaType v))
      else if ev_type e = TypeUsage then
        (case ec_usage C (ev_data e) of
           Inl err \<Rightarrow> Inl (''decode usage data: '' @ err)
         | Inr (turn, usage) \<Rightarrow>
             (case turn of
                None \<Rightarrow> Inl ''turn is required''
              | Some n \<Rightarrow>
                  if n < 1 then Inl ''turn must be at least 1''
                  else if usage = None then Inl ''usage is required and must be an object''
                  else Inr (UsageData turn usage)))
      else Inl (''unsupported event type '' @ quote L (ev_type e)))"

text \<open>A validated tool event; the pointers are set.\<close>

definition tool_of :: "tool_event_data \<Rightarrow> tool_event" where
  "tool_of d = \<lparr>tv_name = td_name d, tv_count = (case td_count d of None \<Rightarrow> 0 | Some n \<Rightarrow> n), tv_is_error = (td_is_error d = Some True),
     tv_error_code = td_error_code d, tv_truncated = (td_truncated d = Some True)\<rparr>"

definition summarizeEvent :: "log_event \<Rightarrow> event_data \<Rightarrow> event_summary \<Rightarrow> event_summary" where
  "summarizeEvent e d es =
     (let meta = \<lparr>em_timestamp = ev_timestamp e, em_type = ev_type e, em_phase = [], em_name = [], em_error_code = [],
                  em_is_error = False, em_truncated = False\<rparr> in
      case d of
        LifecycleData phase \<Rightarrow> es\<lparr>es_lifecycle := es_lifecycle es @ [phase], es_metadata := es_metadata es @ [meta\<lparr>em_phase := phase\<rparr>]\<rparr>
      | ToolData x \<Rightarrow> (let t = tool_of x in
          es\<lparr>es_tools := es_tools es @ [t],
             es_metadata := es_metadata es @ [meta\<lparr>em_name := tv_name t, em_is_error := tv_is_error t, em_error_code := tv_error_code t,
               em_truncated := tv_truncated t\<rparr>]\<rparr>)
      | ErrorData code _ \<Rightarrow> es\<lparr>es_errors := es_errors es @ [code], es_metadata := es_metadata es @ [meta\<lparr>em_error_code := code\<rparr>]\<rparr>
      | OutputData _ _ \<Rightarrow> es\<lparr>es_metadata := es_metadata es @ [meta]\<rparr>
      | UsageData _ _ \<Rightarrow> es\<lparr>es_metadata := es_metadata es @ [meta]\<rparr>)"

text \<open>\<^verbatim>\<open>bytes.TrimLeft\<close> with the cutset of a space, a tab, a return and a newline.\<close>

definition trim_left_blank :: "string \<Rightarrow> string" where
  "trim_left_blank s = dropWhile (\<lambda>c. c \<in> {CHR 0x20, CHR 0x09, CHR 0x0D, CHR 0x0A}) s"

fun after_first :: "string \<Rightarrow> string \<Rightarrow> string option" where
  "after_first p [] = (if p = [] then Some [] else None)"
| "after_first p (c # s) = (if has_prefix (c # s) p then Some (drop (length p) (c # s)) else after_first p s)"

definition apiVersionFieldMarker :: string where
  "apiVersionFieldMarker = [CHR 0x22] @ ''apiVersion'' @ [CHR 0x22]"

definition currentVersionMarker :: string where
  "currentVersionMarker = [CHR 0x22] @ EventAPIVersion @ [CHR 0x22]"

definition escapedVersionMarker :: string where
  "escapedVersionMarker = concat (map (\<lambda>c. if c = CHR 0x2F then [CHR 0x5C, CHR 0x2F] else [c]) currentVersionMarker)"

definition hasCurrentEventAPIVersionMarker :: "string \<Rightarrow> bool" where
  "hasCurrentEventAPIVersionMarker line =
     (case after_first apiVersionFieldMarker line of
        None \<Rightarrow> False
      | Some region \<Rightarrow>
          (case trim_left_blank region of
             [] \<Rightarrow> False
           | c # region' \<Rightarrow>
               c = CHR '':'' \<and>
               (has_prefix (trim_left_blank region') currentVersionMarker \<or> has_prefix (trim_left_blank region') escapedVersionMarker)))"

record parsed_logs =
  pl_events :: event_summary
  pl_errors :: "string list"

definition count_event :: "string \<Rightarrow> event_summary \<Rightarrow> event_summary" where
  "count_event t es =
     (let m = (case es_counts es of None \<Rightarrow> [] | Some m \<Rightarrow> m) in
      es\<lparr>es_counts := Some (insort_key fst (t, event_count es t + 1) (filter (\<lambda>(k, _). k \<noteq> t) m))\<rparr>)"

abbreviation pl_error :: "string \<Rightarrow> parsed_logs \<Rightarrow> parsed_logs" where
  "pl_error e p \<equiv> p\<lparr>pl_errors := pl_errors p @ [e]\<rparr>"

text \<open>One line of the log; the flag says that the limit on metadata was reported.\<close>

definition parse_line ::
  "golib \<Rightarrow> event_codec \<Rightarrow> string list \<Rightarrow> string list \<Rightarrow> string \<Rightarrow> parsed_logs \<times> bool \<Rightarrow> parsed_logs \<times> bool" where
  "parse_line L C relevant details line = (\<lambda>(p, reported).
     case event_Parse L (ec_valid C) (ec_event C) line of
       Inl err \<Rightarrow>
         (if hasCurrentEventAPIVersionMarker line then (pl_error (''parse required runtime event: '' @ err) p, reported) else (p, reported))
     | Inr e \<Rightarrow>
         if ev_type e \<notin> set relevant then (p, reported)
         else case parseEventData L C e of
           Inl err \<Rightarrow> (pl_error (''parse required '' @ ev_type e @ '' event data: '' @ err) p, reported)
         | Inr d \<Rightarrow>
             let es = count_event (ev_type e) (pl_events p); p' = p\<lparr>pl_events := es\<rparr> in
             if MaxEventCount \<le> length (es_metadata es) then
               (let p'' = p'\<lparr>pl_events := es\<lparr>es_truncated := True\<rparr>\<rparr> in
                (if reported then p'' else pl_error ''required runtime event metadata exceeded collection limit'' p'', True))
             else if ev_type e \<in> set details then (p'\<lparr>pl_events := summarizeEvent e d es\<rparr>, reported)
             else (p', reported))"

definition ParseLogs :: "golib \<Rightarrow> event_codec \<Rightarrow> string \<Rightarrow> bool \<Rightarrow> string list \<Rightarrow> string list \<Rightarrow> parsed_logs" where
  "ParseLogs L C logs truncated relevant details =
     (let too_long = MaxLogBytes < length logs;
          logs' = (if too_long then drop (length logs - MaxLogBytes) logs else logs);
          start = \<lparr>pl_events = no_events\<lparr>es_counts := Some [], es_truncated := truncated \<or> too_long\<rparr>,
                   pl_errors = (if too_long then [''runtime logs exceeded collection limit''] else []) @
                               (if truncated then [''runtime log tail is incomplete''] else [])\<rparr>;
          (lines, err) = scan_lines logs';
          p = fst (fold (parse_line L C relevant details) lines (start, False)) in
      case err of None \<Rightarrow> p | Some e \<Rightarrow> pl_error (''scan runtime logs: '' @ e) p)"

subsection \<open>Bounded text and the envelope\<close>

definition boundedString :: "string \<Rightarrow> int \<Rightarrow> string" where
  "boundedString s limit =
     (if limit \<le> 0 then [] else if int (length s) > limit then take (utf8_end s (nat limit)) s else s)"

definition boundedMessage :: "string \<Rightarrow> string" where
  "boundedMessage s = boundedString (trim_space s) 4096"

definition projectEnvelope :: "envelope \<Rightarrow> artifact_requirements \<Rightarrow> envelope_observation" where
  "projectEnvelope e q =
     \<lparr>vo_outcome = (if aq_outcome q then en_outcome e else []),
      vo_error = (if aq_error_code q then map_option (\<lambda>x. boundedString (ei_code x) 4096) (en_error e) else None),
      vo_execution =
        (if aq_model q \<or> aq_turns q \<or> aq_tool_calls q then
           Some (case en_execution e of
             None \<Rightarrow> \<lparr>xo_model = [], xo_turns = None, xo_tool_calls = None\<rparr>
           | Some x \<Rightarrow> \<lparr>xo_model = (if aq_model q then boundedString (ex_model x) 4096 else []),
                        xo_turns = (if aq_turns q then ex_turns x else None),
                        xo_tool_calls = (if aq_tool_calls q then ex_tool_calls x else None)\<rparr>)
         else None)\<rparr>"

definition containsCollectionError :: "string list \<Rightarrow> string \<Rightarrow> bool" where
  "containsCollectionError errors fragment = list_ex (sublist fragment) errors"

definition runtimeTermination :: "pod \<Rightarrow> (int \<times> string) option" where
  "runtimeTermination p =
     (case find (\<lambda>c. cs_name c = ''runtime'') (pst_container_statuses (pod_status_of p)) of
        None \<Rightarrow> None | Some c \<Rightarrow> st_terminated (cs_state c))"

fun podExitCode :: "pod option \<Rightarrow> int option" where
  "podExitCode None = None"
| "podExitCode (Some p) =
     (case find (\<lambda>c. cs_name c = ''runtime'' \<and> st_terminated (cs_state c) \<noteq> None) (pst_container_statuses (pod_status_of p)) of
        None \<Rightarrow> None | Some c \<Rightarrow> map_option fst (st_terminated (cs_state c)))"

subsection \<open>The tail of a stream\<close>

definition tail_of :: "nat \<Rightarrow> string \<Rightarrow> bounded_tail \<Rightarrow> bool" where
  "tail_of n w b \<longleftrightarrow> bt_limit b = n \<and> bt_data b = drop (length w - n) w \<and> (n < length w \<longrightarrow> bt_truncated b)"

lemma tail_Write_of: "tail_of n w b \<Longrightarrow> tail_of n (w @ chunk) (tail_Write chunk b)"
  by (auto simp: tail_of_def tail_Write_def Let_def) (rule arg_cong [of _ _ "\<lambda>k. drop k w"], arith)

lemma tail_Writes_of: "tail_of n w b \<Longrightarrow> tail_of n (w @ concat chunks) (fold tail_Write chunks b)"
proof (induction chunks arbitrary: w b)
  case (Cons c chunks)
  from Cons.IH [OF tail_Write_of [OF Cons.prems, of c]] show ?case by simp
qed simp

text \<open>Whatever the chunks, the tail holds the last bytes of the stream, and it is the whole stream unless it says otherwise.\<close>

lemma bounded_tail_keeps_last:
  fixes chunks :: "string list" and n :: nat
  defines "b \<equiv> fold tail_Write chunks (newBoundedTail n)"
  shows "bt_data b = drop (length (concat chunks) - n) (concat chunks)" "\<not> bt_truncated b \<Longrightarrow> bt_data b = concat chunks"
proof -
  have "tail_of n [] (newBoundedTail n)" by (simp add: tail_of_def newBoundedTail_def)
  from tail_Writes_of [OF this, of chunks] have t: "tail_of n (concat chunks) b" by (simp add: b_def)
  then show "bt_data b = drop (length (concat chunks) - n) (concat chunks)" by (simp add: tail_of_def)
  with t show "\<not> bt_truncated b \<Longrightarrow> bt_data b = concat chunks" by (auto simp: tail_of_def)
qed

lemma Fetch_whole:
  assumes "Fetch stream ns p c s = (Inr lc, s')" "\<not> lc_truncated lc"
  shows "\<exists>chunks. stream ns p c MaxLogTailLines (int MaxLogBytes + 1) s = (Inr (chunks, None), s') \<and> lc_data lc = concat chunks"
  using assms bounded_tail_keeps_last(2)
  by (fastforce simp: Fetch_def Let_def split: prod.splits sum.splits option.splits)

subsection \<open>A summary without errors is exact\<close>

definition log_events :: "golib \<Rightarrow> event_codec \<Rightarrow> string list \<Rightarrow> log_event list" where
  "log_events L C ls = concat (map (\<lambda>l. case event_Parse L (ec_valid C) (ec_event C) l of Inl _ \<Rightarrow> [] | Inr e \<Rightarrow> [e]) ls)"

definition logged_tools :: "golib \<Rightarrow> event_codec \<Rightarrow> log_event list \<Rightarrow> tool_event list" where
  "logged_tools L C es = concat (map (\<lambda>e. case parseEventData L C e of Inr (ToolData d) \<Rightarrow> [tool_of d] | _ \<Rightarrow> []) es)"

definition events_of_type :: "string \<Rightarrow> log_event list \<Rightarrow> nat" where
  "events_of_type t es = length (filter (\<lambda>e. ev_type e = t) es)"

lemma log_events_snoc [simp]:
  "log_events L C (ls @ [l]) = log_events L C ls @ (case event_Parse L (ec_valid C) (ec_event C) l of Inl _ \<Rightarrow> [] | Inr e \<Rightarrow> [e])"
  by (simp add: log_events_def)

lemma logged_tools_append [simp]: "logged_tools L C (xs @ ys) = logged_tools L C xs @ logged_tools L C ys"
  by (simp add: logged_tools_def)

lemma events_of_type_append [simp]: "events_of_type t (xs @ ys) = events_of_type t xs + events_of_type t ys"
  by (simp add: events_of_type_def)

lemma map_of_insort_fresh: "k \<notin> fst ` set m \<Longrightarrow> map_of (insort_key fst (k, v) m) x = (if x = k then Some v else map_of m x)"
  by (induction m) auto

lemma map_of_replace: "map_of (insort_key fst (t, v) (filter (\<lambda>(k, _). k \<noteq> t) m)) x = (if x = t then Some v else map_of m x)"
proof -
  have "map_of (filter (\<lambda>(k, _). k \<noteq> t) m) x = map_of m x" if "x \<noteq> t" using that by (induction m) auto
  moreover have "t \<notin> fst ` set (filter (\<lambda>(k, _). k \<noteq> t) m)" by auto
  ultimately show ?thesis by (simp add: map_of_insort_fresh)
qed

lemma event_count_put [simp]: "event_count (count_event t es) x = event_count es x + (if x = t then 1 else 0)"
proof -
  have "event_count (count_event t es) x =
      (case (if x = t then Some (event_count es t + 1) else map_of (case es_counts es of None \<Rightarrow> [] | Some m \<Rightarrow> m) x) of None \<Rightarrow> 0 | Some n \<Rightarrow> n)"
    by (simp add: count_event_def Let_def map_of_replace event_count_def [of "es\<lparr>es_counts := y\<rparr>" for y])
  also have "\<dots> = event_count es x + (if x = t then 1 else 0)"
    by (auto simp: event_count_def split: option.splits)
  finally show ?thesis .
qed

lemma count_event_keeps [simp]:
  "es_tools (count_event t es) = es_tools es" "es_metadata (count_event t es) = es_metadata es"
  by (simp_all add: count_event_def Let_def)

lemma event_count_fields [simp]:
  "event_count (es\<lparr>es_tools := a\<rparr>) x = event_count es x" "event_count (es\<lparr>es_metadata := b\<rparr>) x = event_count es x"
  "event_count (es\<lparr>es_lifecycle := c\<rparr>) x = event_count es x" "event_count (es\<lparr>es_errors := c\<rparr>) x = event_count es x"
  by (simp_all add: event_count_def)

lemma summarizeEvent_count [simp]: "event_count (summarizeEvent e d es) x = event_count es x"
  by (cases d) (simp_all add: summarizeEvent_def Let_def)

lemma summarizeEvent_tools:
  "es_tools (summarizeEvent e d es) = es_tools es @ (case d of ToolData x \<Rightarrow> [tool_of x] | _ \<Rightarrow> [])"
  by (cases d) (simp_all add: summarizeEvent_def Let_def)

lemma check_tool_data_ok: "check_tool_data x = Inr d \<Longrightarrow> d = ToolData x"
  by (auto simp: check_tool_data_def split: if_splits option.splits)

lemma parseEventData_tool: "parseEventData L C e = Inr (ToolData x) \<Longrightarrow> ev_type e = TypeTool"
  by (auto simp: parseEventData_def Let_def split: if_splits sum.splits option.splits)

definition summary_exact :: "golib \<Rightarrow> event_codec \<Rightarrow> string list \<Rightarrow> string list \<Rightarrow> string list \<Rightarrow> parsed_logs \<times> bool \<Rightarrow> bool" where
  "summary_exact L C relevant details ls = (\<lambda>(p, reported).
     pl_errors p = [] \<longrightarrow>
       \<not> reported \<and>
       (\<forall>t\<in>set relevant. event_count (pl_events p) t = int (events_of_type t (log_events L C ls))) \<and>
       (TypeTool \<in> set relevant \<and> TypeTool \<in> set details \<longrightarrow> es_tools (pl_events p) = logged_tools L C (log_events L C ls)))"

lemma logged_tools_other: "ev_type e \<noteq> TypeTool \<Longrightarrow> logged_tools L C [e] = []"
  by (auto simp: logged_tools_def dest: parseEventData_tool split: sum.splits event_data.splits)

lemma parse_line_exact:
  assumes "summary_exact L C relevant details ls st"
  shows "summary_exact L C relevant details (ls @ [l]) (parse_line L C relevant details l st)"
proof (cases st)
  case (Pair p reported)
  show ?thesis
  proof (cases "event_Parse L (ec_valid C) (ec_event C) l")
    case (Inl err)
    with assms Pair show ?thesis by (auto simp: summary_exact_def parse_line_def)
  next
    case e: (Inr e)
    show ?thesis
    proof (cases "ev_type e \<in> set relevant")
      case False
      have "TypeTool \<in> set relevant \<Longrightarrow> logged_tools L C [e] = []" using False by (intro logged_tools_other) auto
      moreover have "t \<in> set relevant \<Longrightarrow> events_of_type t [e] = 0" for t using False by (auto simp: events_of_type_def)
      ultimately show ?thesis using assms Pair e False by (auto simp: summary_exact_def parse_line_def)
    next
      case relevant: True
      have one: "events_of_type t [e] = (if t = ev_type e then 1 else 0)" for t by (auto simp: events_of_type_def)
      show ?thesis
      proof (cases "parseEventData L C e")
        case (Inl err)
        with assms Pair e relevant show ?thesis by (auto simp: summary_exact_def parse_line_def)
      next
        case (Inr d)
        then have tools: "logged_tools L C [e] = (case d of ToolData x \<Rightarrow> [tool_of x] | _ \<Rightarrow> [])"
          by (auto simp: logged_tools_def split: event_data.splits)
        have none: "(case d of ToolData x \<Rightarrow> [tool_of x] | _ \<Rightarrow> []) = []" if "TypeTool \<in> set details" "ev_type e \<notin> set details"
        proof -
          from that have "ev_type e \<noteq> TypeTool" by metis
          from logged_tools_other [OF this, of L C] tools show ?thesis by simp
        qed
        show ?thesis using assms Pair e relevant Inr
          by (auto simp: summary_exact_def parse_line_def Let_def one tools summarizeEvent_tools none)
      qed
    qed
  qed
qed

lemma parse_lines_exact:
  "summary_exact L C relevant details ls st \<Longrightarrow>
   summary_exact L C relevant details (ls @ ls') (fold (parse_line L C relevant details) ls' st)"
proof (induction ls' arbitrary: ls st)
  case (Cons l ls')
  from Cons.IH [OF parse_line_exact [OF Cons.prems, of l]] show ?case by simp
qed simp

lemma parse_line_errors: "pl_errors (fst (parse_line L C relevant details l st)) = [] \<Longrightarrow> pl_errors (fst st) = []"
  by (cases st) (auto simp: parse_line_def Let_def split: sum.splits if_splits)

lemma parse_lines_errors: "pl_errors (fst (fold (parse_line L C relevant details) ls st)) = [] \<Longrightarrow> pl_errors (fst st) = []"
proof (induction ls arbitrary: st)
  case (Cons l ls)
  from Cons.prems Cons.IH [of "parse_line L C relevant details l st"] parse_line_errors [of L C relevant details l st] show ?case by simp
qed simp

text \<open>A log that parses without an error was complete, and every relevant event of it is counted.\<close>

lemma ParseLogs_exact:
  assumes "pl_errors (ParseLogs L C logs truncated relevant details) = []"
  shows "\<not> truncated" "length logs \<le> MaxLogBytes" "snd (scan_lines logs) = None"
    "t \<in> set relevant \<Longrightarrow> event_count (pl_events (ParseLogs L C logs truncated relevant details)) t =
       int (events_of_type t (log_events L C (fst (scan_lines logs))))"
    "TypeTool \<in> set relevant \<Longrightarrow> TypeTool \<in> set details \<Longrightarrow>
       es_tools (pl_events (ParseLogs L C logs truncated relevant details)) = logged_tools L C (log_events L C (fst (scan_lines logs)))"
proof -
  obtain ls err where scan: "scan_lines (if MaxLogBytes < length logs then drop (length logs - MaxLogBytes) logs else logs) = (ls, err)"
    by fastforce
  let ?start = "(\<lparr>pl_events = no_events\<lparr>es_counts := Some [], es_truncated := False\<rparr>, pl_errors = []\<rparr>, False)"
  from assms scan have err: "err = None"
    by (auto simp: ParseLogs_def Let_def split: option.splits)
  have "pl_errors (fst (\<lparr>pl_events = no_events\<lparr>es_counts := Some [], es_truncated := truncated \<or> MaxLogBytes < length logs\<rparr>,
      pl_errors = (if MaxLogBytes < length logs then [''runtime logs exceeded collection limit''] else []) @
        (if truncated then [''runtime log tail is incomplete''] else [])\<rparr>, False)) = []"
    by (rule parse_lines_errors [of L C relevant details ls]) (use assms scan err in \<open>simp add: ParseLogs_def Let_def\<close>)
  then have "\<not> MaxLogBytes < length logs \<and> \<not> truncated" by (simp split: if_splits)
  then show whole: "\<not> truncated" "length logs \<le> MaxLogBytes" by auto
  with scan err show "snd (scan_lines logs) = None" by simp
  from whole scan err have run: "ParseLogs L C logs truncated relevant details = fst (fold (parse_line L C relevant details) ls ?start)"
    and ls: "ls = fst (scan_lines logs)"
    by (auto simp: ParseLogs_def Let_def)
  have "summary_exact L C relevant details [] ?start"
    by (auto simp: summary_exact_def event_count_def no_events_def log_events_def events_of_type_def logged_tools_def)
  from parse_lines_exact [OF this, of ls]
  have exact: "summary_exact L C relevant details ls (fold (parse_line L C relevant details) ls ?start)" by simp
  show "t \<in> set relevant \<Longrightarrow> event_count (pl_events (ParseLogs L C logs truncated relevant details)) t =
      int (events_of_type t (log_events L C (fst (scan_lines logs))))"
    and "TypeTool \<in> set relevant \<Longrightarrow> TypeTool \<in> set details \<Longrightarrow>
      es_tools (pl_events (ParseLogs L C logs truncated relevant details)) = logged_tools L C (log_events L C (fst (scan_lines logs)))"
    using exact assms unfolding run ls [symmetric] by (auto simp: summary_exact_def case_prod_beta)
qed

end
