(* ===== verification/Eval_Expect.thy ===== *)
theory Eval_Expect
  imports Eval_Logs
begin

text \<open>
  What the graders of a case mean.  An observation is a whole run: its status, its Pod, the envelope in the termination
  message, the lines of the log and the duration.  \<open>meets\<close> is the expectation of a grader on an observation,
  \<open>collected\<close> says that a record holds what a set of requirements asks of it, and \<open>grade_decides\<close> is the contract
  between the two: with the requirements of its graders, grading the record decides their expectations.
\<close>

record case_observation =
  ob_status :: agent_run_status
  ob_pod :: "pod option"
  ob_envelope :: "envelope option"
  ob_lines :: "string list"
  ob_millis :: int

definition meets_text :: "string_match \<Rightarrow> string \<Rightarrow> bool" where
  "meets_text m s \<longleftrightarrow>
     (\<forall>x. sm_exact m = Some x \<longrightarrow> s = x) \<and> (\<forall>x. sm_contains m = Some x \<longrightarrow> sublist x s) \<and> (\<forall>x. sm_not_contains m = Some x \<longrightarrow> \<not> sublist x s)"

definition meets_output :: "(string \<Rightarrow> bool) \<Rightarrow> output_expectation \<Rightarrow> output_status option \<Rightarrow> bool" where
  "meets_output json_valid x v \<longleftrightarrow>
     (\<forall>b. oe_present x = Some b \<longrightarrow> (v \<noteq> None) = b) \<and>
     (\<forall>b. oe_valid x = Some b \<longrightarrow> (\<exists>y. v = Some y \<and> json_valid (os_value y)) = b) \<and>
     (oe_media_type x \<noteq> [] \<longrightarrow> (\<exists>y. v = Some y \<and> os_media_type y = oe_media_type x))"

definition usage_field :: "usage_status \<Rightarrow> string \<Rightarrow> bool" where
  "usage_field u f \<longleftrightarrow>
     f = ''tokens'' \<and> us_tokens u \<noteq> None \<or> f = ''inputTokens'' \<and> us_input_tokens u \<noteq> None \<or>
     f = ''outputTokens'' \<and> us_output_tokens u \<noteq> None \<or> f = ''dollars'' \<and> us_dollars u \<noteq> None"

definition meets :: "golib \<Rightarrow> event_codec \<Rightarrow> (string \<Rightarrow> bool) \<Rightarrow> grader \<Rightarrow> case_observation \<Rightarrow> bool" where
  "meets L C json_valid g ob \<longleftrightarrow>
     (gr_type g = GraderTerminalPhase \<longrightarrow> rs_phase (ob_status ob) = gr_phase g) \<and>
     (gr_type g = GraderStatusResult \<longrightarrow> (\<forall>m. gr_status_result g = Some m \<longrightarrow> meets_text m (rs_result (ob_status ob)))) \<and>
     (gr_type g = GraderStructuredOutput \<longrightarrow>
        (\<forall>x. gr_structured_output g = Some x \<longrightarrow> meets_output json_valid x (rs_output (ob_status ob)))) \<and>
     (gr_type g = GraderUsageFields \<longrightarrow>
        (\<exists>u. rs_usage (ob_status ob) = Some u \<and> (\<forall>f\<in>set (gr_usage_fields g). usage_field u f))) \<and>
     (gr_type g = GraderEnvelopeError \<longrightarrow>
        (\<exists>v e. ob_envelope ob = Some v \<and> en_error v = Some e \<and> boundedString (ei_code e) 4096 = gr_error_code g)) \<and>
     (gr_type g = GraderEnvelopeOutcome \<longrightarrow> (\<exists>v. ob_envelope ob = Some v \<and> en_outcome v = gr_outcome g)) \<and>
     (gr_type g = GraderExecutionModel \<longrightarrow>
        (\<exists>v x. ob_envelope ob = Some v \<and> en_execution v = Some x \<and> boundedString (ex_model x) 4096 = gr_model g)) \<and>
     (gr_type g = GraderEnvelopeTurns \<longrightarrow>
        (\<exists>v x n. ob_envelope ob = Some v \<and> en_execution v = Some x \<and> ex_turns x = Some n \<and> gr_turns g = Some n)) \<and>
     (gr_type g = GraderEnvelopeTools \<longrightarrow>
        (\<exists>v x n. ob_envelope ob = Some v \<and> en_execution v = Some x \<and> ex_tool_calls x = Some n \<and> gr_tool_calls g = Some n)) \<and>
     (gr_type g = GraderEventCount \<longrightarrow>
        (\<forall>e. gr_event g = Some e \<longrightarrow> int (events_of_type (ee_type e) (log_events L C (ob_lines ob))) = ee_count e)) \<and>
     (gr_type g = GraderToolEvents \<longrightarrow>
        (\<forall>x. gr_tool g = Some x \<longrightarrow> int (length (filter (tool_matches x) (logged_tools L C (log_events L C (ob_lines ob))))) = te_count x)) \<and>
     (gr_type g = GraderDuration \<longrightarrow> ob_millis ob \<le> gr_max_duration g div 1000000) \<and>
     (gr_type g = GraderPodExitCode \<longrightarrow> podExitCode (ob_pod ob) \<noteq> None \<and> podExitCode (ob_pod ob) = gr_exit_code g)"

definition collected :: "golib \<Rightarrow> event_codec \<Rightarrow> artifact_requirements \<Rightarrow> case_observation \<Rightarrow> eval_record \<Rightarrow> bool" where
  "collected L C q ob r \<longleftrightarrow>
     er_terminal_phase r = rs_phase (ob_status ob) \<and> er_duration_millis r = ob_millis ob \<and>
     (aq_status_result q \<longrightarrow> er_status_result r = rs_result (ob_status ob)) \<and>
     (aq_status_usage q \<longrightarrow> er_status_usage r = rs_usage (ob_status ob)) \<and>
     (aq_status_output q \<longrightarrow>
        er_status_output r = map_option (\<lambda>v. \<lparr>eo_media_type = os_media_type v, eo_value = os_value v\<rparr>) (rs_output (ob_status ob))) \<and>
     (aq_exit_code q \<longrightarrow> er_pod_exit_code r = podExitCode (ob_pod ob)) \<and>
     (aq_envelope q \<longrightarrow> er_envelope r = map_option (\<lambda>v. projectEnvelope v q) (ob_envelope ob)) \<and>
     (aq_logs q \<longrightarrow>
        (\<forall>t\<in>set (aq_event_types q). event_count (er_events r) t = int (events_of_type t (log_events L C (ob_lines ob)))) \<and>
        (TypeTool \<in> set (aq_event_types q) \<and> TypeTool \<in> set (aq_event_detail_types q) \<longrightarrow>
           es_tools (er_events r) = logged_tools L C (log_events L C (ob_lines ob))))"

subsection \<open>Requirements grow\<close>

definition q_flags :: "artifact_requirements \<Rightarrow> bool list" where
  "q_flags q = [aq_pod q, aq_logs q, aq_envelope q, aq_exit_code q, aq_status_result q, aq_status_output q, aq_status_usage q,
     aq_outcome q, aq_error_code q, aq_model q, aq_turns q, aq_tool_calls q]"

definition q_le :: "artifact_requirements \<Rightarrow> artifact_requirements \<Rightarrow> bool" where
  "q_le p q \<longleftrightarrow> list_all2 (\<longrightarrow>) (q_flags p) (q_flags q) \<and> set (aq_event_types p) \<subseteq> set (aq_event_types q) \<and>
     set (aq_event_detail_types p) \<subseteq> set (aq_event_detail_types q)"

lemmas q_le_fields = q_le_def q_flags_def

lemma q_le_refl [simp]: "q_le q q"
  by (simp add: q_le_fields)

lemma q_le_trans: "q_le p q \<Longrightarrow> q_le q r \<Longrightarrow> q_le p r"
  unfolding q_le_def using list_all2_trans [of "(\<longrightarrow>)" "(\<longrightarrow>)" "(\<longrightarrow>)" "q_flags p" "q_flags q" "q_flags r"] by blast

lemmas spec_defs = envelopeGraderSpec_def error_code_spec_def outcome_spec_def model_spec_def turns_spec_def tool_calls_spec_def

lemmas require_defs = requireStatusResult_def requireStatusOutput_def requireStatusUsage_def requireEventCount_def
  requireToolEvents_def requirePodExitCode_def require_event_def

lemma graderSpecFor_in: "graderSpecFor L v t = Inr x \<Longrightarrow> (t, x) \<in> set (graderSpecs L v)"
  by (auto simp: graderSpecFor_def dest: map_of_SomeD split: option.splits)

definition grader_needs :: "grader_spec \<Rightarrow> grader \<Rightarrow> artifact_requirements \<Rightarrow> bool" where
  "grader_needs x g q \<longleftrightarrow> q_le (gs_requirements x g no_requirements) q"

lemma requirements_grow:
  assumes "(t, x) \<in> set (graderSpecs L v)"
  shows "q_le q (gs_requirements x g q) \<and> grader_needs x g (gs_requirements x g q)"
  using assms unfolding graderSpecs_def
  apply simp
  apply (elim disjE conjE)
  apply (simp_all add: spec_defs require_defs q_le_fields grader_needs_def no_requirements_def Let_def split: option.split)
  apply (simp_all add: subset_iff)
  done

lemma requirementsForGraders_from_cover:
  assumes "requirementsForGraders_from L v q gs = Inr q'"
  shows "q_le q q' \<and> (\<forall>g\<in>set gs. \<exists>x. graderSpecFor L v (gr_type g) = Inr x \<and> grader_needs x g q')"
  using assms
proof (induction gs arbitrary: q)
  case (Cons g gs)
  then obtain x where x: "graderSpecFor L v (gr_type g) = Inr x" "requirementsForGraders_from L v (gs_requirements x g q) gs = Inr q'"
    by (auto split: sum.splits)
  from Cons.IH [OF x(2)] requirements_grow [OF graderSpecFor_in [OF x(1)], of q g] x(1) show ?case
    by (auto simp: grader_needs_def intro: q_le_trans)
qed simp

subsection \<open>Grading decides the expectations\<close>

lemma trim_space_Nil [simp]: "trim_space [] = []"
  by (simp add: trim_space_def trim_left.simps [of "[]"] trim_right.simps [of "[]"] leading_space_def trailing_space_def
      has_suffix_def space_encodings_def)

lemma usage_presence:
  "f \<in> {''tokens'', ''inputTokens'', ''outputTokens'', ''dollars''} \<Longrightarrow>
   map_of (usagePresence r) f = Some True \<longleftrightarrow> (\<exists>u. er_status_usage r = Some u \<and> usage_field u f)"
  by (auto simp: usagePresence_def usage_field_def split: option.splits)

lemma usage_fields_known:
  "usage_fields_error L seen fs = None \<Longrightarrow> set fs \<subseteq> {''tokens'', ''inputTokens'', ''outputTokens'', ''dollars''}"
  by (induction L seen fs rule: usage_fields_error.induct) (auto split: if_splits)

lemma gd_pass_grade:
  assumes "graderSpecFor L v (gr_type g) = Inr x" "gs_validate x g = None"
  shows "gd_pass (grade L v r g) \<longleftrightarrow> gd_pass (gs_grade x r g)"
  using assms by (simp add: grade_def Let_def)

lemma meets_by_type:
  "gr_type g = GraderTerminalPhase \<Longrightarrow> meets L C v g ob \<longleftrightarrow> rs_phase (ob_status ob) = gr_phase g"
  "gr_type g = GraderStatusResult \<Longrightarrow> meets L C v g ob \<longleftrightarrow> (\<forall>m. gr_status_result g = Some m \<longrightarrow> meets_text m (rs_result (ob_status ob)))"
  "gr_type g = GraderStructuredOutput \<Longrightarrow> meets L C v g ob \<longleftrightarrow>
     (\<forall>x. gr_structured_output g = Some x \<longrightarrow> meets_output v x (rs_output (ob_status ob)))"
  "gr_type g = GraderUsageFields \<Longrightarrow> meets L C v g ob \<longleftrightarrow>
     (\<exists>u. rs_usage (ob_status ob) = Some u \<and> (\<forall>f\<in>set (gr_usage_fields g). usage_field u f))"
  "gr_type g = GraderEnvelopeError \<Longrightarrow> meets L C v g ob \<longleftrightarrow>
     (\<exists>w e. ob_envelope ob = Some w \<and> en_error w = Some e \<and> boundedString (ei_code e) 4096 = gr_error_code g)"
  "gr_type g = GraderEnvelopeOutcome \<Longrightarrow> meets L C v g ob \<longleftrightarrow> (\<exists>w. ob_envelope ob = Some w \<and> en_outcome w = gr_outcome g)"
  "gr_type g = GraderExecutionModel \<Longrightarrow> meets L C v g ob \<longleftrightarrow>
     (\<exists>w x. ob_envelope ob = Some w \<and> en_execution w = Some x \<and> boundedString (ex_model x) 4096 = gr_model g)"
  "gr_type g = GraderEnvelopeTurns \<Longrightarrow> meets L C v g ob \<longleftrightarrow>
     (\<exists>w x n. ob_envelope ob = Some w \<and> en_execution w = Some x \<and> ex_turns x = Some n \<and> gr_turns g = Some n)"
  "gr_type g = GraderEnvelopeTools \<Longrightarrow> meets L C v g ob \<longleftrightarrow>
     (\<exists>w x n. ob_envelope ob = Some w \<and> en_execution w = Some x \<and> ex_tool_calls x = Some n \<and> gr_tool_calls g = Some n)"
  "gr_type g = GraderEventCount \<Longrightarrow> meets L C v g ob \<longleftrightarrow>
     (\<forall>e. gr_event g = Some e \<longrightarrow> int (events_of_type (ee_type e) (log_events L C (ob_lines ob))) = ee_count e)"
  "gr_type g = GraderToolEvents \<Longrightarrow> meets L C v g ob \<longleftrightarrow>
     (\<forall>x. gr_tool g = Some x \<longrightarrow> int (length (filter (tool_matches x) (logged_tools L C (log_events L C (ob_lines ob))))) = te_count x)"
  "gr_type g = GraderDuration \<Longrightarrow> meets L C v g ob \<longleftrightarrow> ob_millis ob \<le> gr_max_duration g div 1000000"
  "gr_type g = GraderPodExitCode \<Longrightarrow> meets L C v g ob \<longleftrightarrow> podExitCode (ob_pod ob) \<noteq> None \<and> podExitCode (ob_pod ob) = gr_exit_code g"
  by (simp_all add: meets_def)

lemma text_decides:
  assumes "gr_type g = GraderStatusResult" "validateStatusResultGrader g = None" "er_status_result r = rs_result (ob_status ob)"
  shows "gd_pass (gradeStatusResult r g) \<longleftrightarrow> meets L C v g ob"
proof -
  from assms(2) obtain m where m: "gr_status_result g = Some m" and
    one: "length (filter (\<lambda>x. x \<noteq> None) [sm_exact m, sm_contains m, sm_not_contains m]) = 1"
    by (auto simp: validateStatusResultGrader_def split: option.splits if_splits)
  show ?thesis unfolding meets_by_type(2) [OF assms(1)] gradeStatusResult_def meets_text_def Let_def assms(3) m
    using one by (cases "sm_exact m"; cases "sm_contains m"; cases "sm_not_contains m") simp_all
qed

lemma output_decides:
  assumes "gr_type g = GraderStructuredOutput" "validateStructuredOutputGrader g = None"
    "er_status_output r = map_option (\<lambda>w. \<lparr>eo_media_type = os_media_type w, eo_value = os_value w\<rparr>) (rs_output (ob_status ob))"
  shows "gd_pass (gradeStructuredOutput v r g) \<longleftrightarrow> meets L C v g ob"
proof -
  from assms(2) obtain x where x: "gr_structured_output g = Some x"
    by (auto simp: validateStructuredOutputGrader_def split: option.splits)
  show ?thesis unfolding meets_by_type(3) [OF assms(1)] gradeStructuredOutput_def meets_output_def assms(3) x
    by (cases "rs_output (ob_status ob)"; cases "oe_present x"; cases "oe_valid x") auto
qed

lemma envelope_decides:
  assumes "x = envelopeGraderSpec expected observed select" "expected g = Inr w" "er_envelope r = map_option project (ob_envelope ob)"
  shows "gd_pass (gs_grade x r g) \<longleftrightarrow> (\<exists>e. ob_envelope ob = Some e \<and> observed (project e) = Some w)"
  using assms by (cases "ob_envelope ob") (simp_all add: envelopeGraderSpec_def split: option.splits)

lemma turns_projected:
  assumes "aq_turns q"
  shows "Option.bind (vo_execution (projectEnvelope e q)) (\<lambda>x. map_option Int32Value (xo_turns x)) = Some (Int32Value n) \<longleftrightarrow>
    (\<exists>x. en_execution e = Some x \<and> ex_turns x = Some n)"
  using assms by (auto simp: projectEnvelope_def split: option.splits)

lemma tool_calls_projected:
  assumes "aq_tool_calls q"
  shows "Option.bind (vo_execution (projectEnvelope e q)) (\<lambda>x. map_option Int32Value (xo_tool_calls x)) = Some (Int32Value n) \<longleftrightarrow>
    (\<exists>x. en_execution e = Some x \<and> ex_tool_calls x = Some n)"
  using assms by (auto simp: projectEnvelope_def split: option.splits)

lemma usage_decides:
  assumes "gr_type g = GraderUsageFields" "validateUsageFieldsGrader L g = None" "er_status_usage r = rs_usage (ob_status ob)"
  shows "gd_pass (gradeUsageFields r g) \<longleftrightarrow> meets L C v g ob"
proof -
  from assms(2) have "gr_usage_fields g \<noteq> []" "set (gr_usage_fields g) \<subseteq> {''tokens'', ''inputTokens'', ''outputTokens'', ''dollars''}"
    by (auto simp: validateUsageFieldsGrader_def dest: usage_fields_known split: if_splits)
  moreover from this(2) have "gd_pass (gradeUsageFields r g) \<longleftrightarrow>
      (\<forall>f\<in>set (gr_usage_fields g). \<exists>u. er_status_usage r = Some u \<and> usage_field u f)"
    unfolding gradeUsageFields_def list_all_iff by simp (intro ball_cong refl usage_presence, blast)
  ultimately have "gd_pass (gradeUsageFields r g) \<longleftrightarrow>
      (\<exists>u. er_status_usage r = Some u \<and> (\<forall>f\<in>set (gr_usage_fields g). usage_field u f))"
    by (cases "er_status_usage r") (simp_all add: ex_in_conv [symmetric] neq_Nil_conv)
  with assms(1,3) show ?thesis by (simp add: meets_def)
qed

lemma envelope_specs_decide:
  assumes "collected L C q ob r" "grader_needs x g q" "gs_validate x g = None"
  shows "gr_type g = GraderEnvelopeError \<Longrightarrow> x = error_code_spec \<Longrightarrow> gd_pass (gs_grade x r g) \<longleftrightarrow> meets L C v g ob"
    and "gr_type g = GraderEnvelopeOutcome \<Longrightarrow> x = outcome_spec L \<Longrightarrow> gd_pass (gs_grade x r g) \<longleftrightarrow> meets L C v g ob"
    and "gr_type g = GraderExecutionModel \<Longrightarrow> x = model_spec \<Longrightarrow> gd_pass (gs_grade x r g) \<longleftrightarrow> meets L C v g ob"
    and "gr_type g = GraderEnvelopeTurns \<Longrightarrow> x = turns_spec \<Longrightarrow> gd_pass (gs_grade x r g) \<longleftrightarrow> meets L C v g ob"
    and "gr_type g = GraderEnvelopeTools \<Longrightarrow> x = tool_calls_spec \<Longrightarrow> gd_pass (gs_grade x r g) \<longleftrightarrow> meets L C v g ob"
proof -
  have env: "aq_envelope q \<Longrightarrow> er_envelope r = map_option (\<lambda>w. projectEnvelope w q) (ob_envelope ob)"
    using assms(1) by (simp add: collected_def)
  show "gd_pass (gs_grade x r g) \<longleftrightarrow> meets L C v g ob" if t: "gr_type g = GraderEnvelopeError" and x: "x = error_code_spec"
  proof -
    from assms(2) x have q: "aq_envelope q" "aq_error_code q" by (auto simp: grader_needs_def spec_defs q_le_fields)
    from assms(3) x have "trim_space (gr_error_code g) \<noteq> []" by (auto simp: spec_defs split: if_splits)
    then show ?thesis unfolding meets_by_type(5) [OF t]
      by (subst envelope_decides [OF x [unfolded error_code_spec_def] _ env [OF q(1)]]) (use q(2) in \<open>auto simp: projectEnvelope_def\<close>)
  qed
  show "gd_pass (gs_grade x r g) \<longleftrightarrow> meets L C v g ob" if t: "gr_type g = GraderEnvelopeOutcome" and x: "x = outcome_spec L"
  proof -
    from assms(2) x have q: "aq_envelope q" "aq_outcome q" by (auto simp: grader_needs_def spec_defs q_le_fields)
    from assms(3) x have "gr_outcome g \<in> {OutcomeSucceeded, OutcomeFailed}" by (auto simp: spec_defs split: if_splits)
    then show ?thesis unfolding meets_by_type(6) [OF t]
      by (subst envelope_decides [OF x [unfolded outcome_spec_def] _ env [OF q(1)]]) (use q(2) in \<open>auto simp: projectEnvelope_def\<close>)
  qed
  show "gd_pass (gs_grade x r g) \<longleftrightarrow> meets L C v g ob" if t: "gr_type g = GraderExecutionModel" and x: "x = model_spec"
  proof -
    from assms(2) x have q: "aq_envelope q" "aq_model q" by (auto simp: grader_needs_def spec_defs q_le_fields)
    from assms(3) x have m: "trim_space (gr_model g) \<noteq> []" by (auto simp: spec_defs split: if_splits)
    then show ?thesis unfolding meets_by_type(7) [OF t]
      by (subst envelope_decides [OF x [unfolded model_spec_def] _ env [OF q(1)]]) (use q(2) m in \<open>auto simp: projectEnvelope_def split: option.splits\<close>)
  qed
  show "gd_pass (gs_grade x r g) \<longleftrightarrow> meets L C v g ob" if t: "gr_type g = GraderEnvelopeTurns" and x: "x = turns_spec"
  proof -
    from assms(2) x have q: "aq_envelope q" "aq_turns q" by (auto simp: grader_needs_def spec_defs q_le_fields)
    from assms(3) x obtain n where n: "gr_turns g = Some n" "\<not> n < 0"
      by (auto simp: spec_defs non_negative_def split: if_splits option.splits)
    then show ?thesis unfolding meets_by_type(8) [OF t]
      by (subst envelope_decides [OF x [unfolded turns_spec_def] _ env [OF q(1)]]) (auto simp: non_negative_def turns_projected [OF q(2)])
  qed
  show "gd_pass (gs_grade x r g) \<longleftrightarrow> meets L C v g ob" if t: "gr_type g = GraderEnvelopeTools" and x: "x = tool_calls_spec"
  proof -
    from assms(2) x have q: "aq_envelope q" "aq_tool_calls q" by (auto simp: grader_needs_def spec_defs q_le_fields)
    from assms(3) x obtain n where n: "gr_tool_calls g = Some n" "\<not> n < 0"
      by (auto simp: spec_defs non_negative_def split: if_splits option.splits)
    then show ?thesis unfolding meets_by_type(9) [OF t]
      by (subst envelope_decides [OF x [unfolded tool_calls_spec_def] _ env [OF q(1)]]) (auto simp: non_negative_def tool_calls_projected [OF q(2)])
  qed
qed

lemma event_count_decides:
  assumes "gr_type g = GraderEventCount" "validateEventCountGrader L g = None" "collected L C q ob r"
    "q_le (requireEventCount g no_requirements) q"
  shows "gd_pass (gradeEventCount r g) \<longleftrightarrow> meets L C v g ob"
proof -
  from assms(2) obtain e where e: "gr_event g = Some e"
    by (auto simp: validateEventCountGrader_def split: option.splits)
  with assms(4) have "aq_logs q" "ee_type e \<in> set (aq_event_types q)"
    by (auto simp: requireEventCount_def require_event_def q_le_fields)
  with assms(3) have "event_count (er_events r) (ee_type e) = int (events_of_type (ee_type e) (log_events L C (ob_lines ob)))"
    by (simp add: collected_def)
  with e show ?thesis by (simp add: meets_by_type(10) [OF assms(1)] gradeEventCount_def Let_def)
qed

lemma tool_events_decides:
  assumes "gr_type g = GraderToolEvents" "validateToolEventsGrader g = None" "collected L C q ob r"
    "q_le (requireToolEvents g no_requirements) q"
  shows "gd_pass (gradeToolEvents r g) \<longleftrightarrow> meets L C v g ob"
proof -
  from assms(2) obtain x where x: "gr_tool g = Some x"
    by (auto simp: validateToolEventsGrader_def split: option.splits)
  from assms(4) have "aq_logs q" "TypeTool \<in> set (aq_event_types q)" "TypeTool \<in> set (aq_event_detail_types q)"
    by (auto simp: requireToolEvents_def require_event_def q_le_fields Let_def)
  with assms(3) have "es_tools (er_events r) = logged_tools L C (log_events L C (ob_lines ob))"
    by (simp add: collected_def)
  with x show ?thesis by (simp add: meets_by_type(11) [OF assms(1)] gradeToolEvents_def matchingTools_def Let_def)
qed

lemma exit_code_decides:
  assumes "gr_type g = GraderPodExitCode" "validatePodExitCodeGrader g = None" "collected L C q ob r"
    "q_le (requirePodExitCode g no_requirements) q"
  shows "gd_pass (gradePodExitCode r g) \<longleftrightarrow> meets L C v g ob"
proof -
  from assms(2) obtain n where n: "gr_exit_code g = Some n" by (auto simp: validatePodExitCodeGrader_def split: if_splits)
  from assms(3,4) have "er_pod_exit_code r = podExitCode (ob_pod ob)"
    by (simp add: collected_def requirePodExitCode_def q_le_fields)
  with n show ?thesis
    by (cases "podExitCode (ob_pod ob)") (auto simp: meets_by_type(13) [OF assms(1)] gradePodExitCode_def Let_def)
qed

lemma grade_decides:
  assumes "validateGrader L v g = None" "graderSpecFor L v (gr_type g) = Inr x" "grader_needs x g q" "collected L C q ob r"
  shows "gd_pass (grade L v r g) \<longleftrightarrow> meets L C v g ob"
proof -
  from assms(1,2) have valid: "gs_validate x g = None" by (simp add: validateGrader_def)
  note status = assms(4) [unfolded collected_def, THEN conjunct1] assms(4) [unfolded collected_def, THEN conjunct2, THEN conjunct1]
  from assms(3) have needs: "q_le (gs_requirements x g no_requirements) q" by (simp add: grader_needs_def)
  have "gd_pass (gs_grade x r g) \<longleftrightarrow> meets L C v g ob"
    using graderSpecFor_in [OF assms(2)] unfolding graderSpecs_def
    apply simp
    apply (elim disjE conjE)
    subgoal using status by (simp add: meets_by_type(1) gradeTerminalPhase_def)
    subgoal using valid needs assms(4) by (simp add: text_decides collected_def q_le_fields requireStatusResult_def)
    subgoal using valid needs assms(4) by (simp add: output_decides collected_def q_le_fields requireStatusOutput_def)
    subgoal using valid needs assms(4) by (simp add: usage_decides collected_def q_le_fields requireStatusUsage_def)
    subgoal by (rule envelope_specs_decide(1) [OF assms(4,3) valid])
    subgoal by (rule envelope_specs_decide(2) [OF assms(4,3) valid])
    subgoal by (rule envelope_specs_decide(3) [OF assms(4,3) valid])
    subgoal by (rule envelope_specs_decide(4) [OF assms(4,3) valid])
    subgoal by (rule envelope_specs_decide(5) [OF assms(4,3) valid])
    subgoal using valid needs assms(4) by (simp add: event_count_decides)
    subgoal using valid needs assms(4) by (simp add: tool_events_decides)
    subgoal using status by (simp add: meets_by_type(12) gradeDuration_def Let_def)
    subgoal using valid needs assms(4) by (simp add: exit_code_decides)
    done
  with gd_pass_grade [OF assms(2) valid] show ?thesis by simp
qed

end
