(* ===== verification/Eval_Suite.thy ===== *)
theory Eval_Suite
  imports Eval_Logs Pod_Builder
begin

text \<open>
  Evaluation suites: their preparation and the names of their runs (\<^verbatim>\<open>suite.go\<close>), the assertions over the records of a
  suite (\<^verbatim>\<open>suite_assertions.go\<close>) and the summary (\<^verbatim>\<open>output.go\<close>).  The YAML decoder and the JSON encoder are
  parameters.  The lemmas: what an accepted suite satisfies, that a run name is a DNS label, when an assertion passes,
  and when a suite passes.
\<close>

abbreviation EvalAPIVersion :: string where "EvalAPIVersion \<equiv> ''kontext.dev/eval/v1alpha1''"
abbreviation EvalKind :: string where "EvalKind \<equiv> ''EvalSuite''"
abbreviation defaultTimeout :: duration where "defaultTimeout \<equiv> 5 * minute"
abbreviation SuiteAssertionFieldsEqual :: string where "SuiteAssertionFieldsEqual \<equiv> ''fieldsEqual''"
abbreviation SuiteAssertionForbiddenMarkers :: string where "SuiteAssertionForbiddenMarkers \<equiv> ''forbiddenMarkers''"

record suite_assertion =
  sa_type :: string
  sa_records :: "string list"
  sa_fields :: "string list"
  sa_markers :: "string list"

record assertion_result =
  sr_type :: string
  sr_records :: "string list"
  sr_fields :: "string list"
  sr_pass :: bool
  sr_message :: string

record eval_case =
  ca_id :: string
  ca_description :: string
  ca_agent_run :: agent_run_spec
  ca_timeout :: "duration option"
  ca_graders :: "grader list"

record suite_defaults =
  sd_namespace :: string
  sd_timeout :: "duration option"
  sd_runtime_image :: string

record eval_suite =
  su_api_version :: string
  su_kind :: string
  su_name :: string
  su_defaults :: suite_defaults
  su_assertions :: "suite_assertion list"
  su_cases :: "eval_case list"

subsection \<open>Record fields\<close>

text \<open>The fields an assertion can name, with their types; \<^verbatim>\<open>reflect.DeepEqual\<close> compares them as values.\<close>

datatype field_value =
  NilField
| PhaseField string
| ResultField string
| OutputField "eval_output option"
| UsageField "usage_status option"
| ExitCodeField "int option"
| EnvelopeField "envelope_observation option"
| EventsField event_summary
| GradesField "grade_result list"
| JudgeField "judge_result option"
| ErrorsField "string list"
| MillisField int

definition suiteRecordFieldSpecs :: "((eval_record \<Rightarrow> field_value) \<times> (artifact_requirements \<Rightarrow> artifact_requirements)) go_map" where
  "suiteRecordFieldSpecs =
     [(''terminalPhase'', \<lambda>r. PhaseField (er_terminal_phase r), id),
      (''statusResult'', \<lambda>r. ResultField (er_status_result r), \<lambda>q. q\<lparr>aq_status_result := True\<rparr>),
      (''statusOutput'', \<lambda>r. OutputField (er_status_output r), \<lambda>q. q\<lparr>aq_status_output := True\<rparr>),
      (''statusUsage'', \<lambda>r. UsageField (er_status_usage r), \<lambda>q. q\<lparr>aq_status_usage := True\<rparr>),
      (''podExitCode'', \<lambda>r. ExitCodeField (er_pod_exit_code r), \<lambda>q. q\<lparr>aq_pod := True, aq_exit_code := True\<rparr>),
      (''envelope'', \<lambda>r. EnvelopeField (er_envelope r), id),
      (''events'', \<lambda>r. EventsField (er_events r), id),
      (''grades'', \<lambda>r. GradesField (er_grades r), id),
      (''judge'', \<lambda>r. JudgeField (er_judge r), id),
      (''collectionErrors'', \<lambda>r. ErrorsField (er_collection_errors r), id),
      (''durationMillis'', \<lambda>r. MillisField (er_duration_millis r), id)]"

text \<open>Accepted assertions name only these fields.\<close>

definition field_of :: "string \<Rightarrow> eval_record \<Rightarrow> field_value" where
  "field_of f r = (case map_of suiteRecordFieldSpecs f of None \<Rightarrow> NilField | Some (get, _) \<Rightarrow> get r)"

subsection \<open>Validation of assertions\<close>

fun validateAssertionRecords_from :: "golib \<Rightarrow> string list \<Rightarrow> nat \<Rightarrow> string list \<Rightarrow> string list \<Rightarrow> string option" where
  "validateAssertionRecords_from L caseIDs i seen [] = None"
| "validateAssertionRecords_from L caseIDs i seen (c # cs) =
     (if trim_space c = [] then Some (''records['' @ show_nat i @ ''] must not be blank'')
      else if c \<notin> set caseIDs then Some (''record case '' @ quote L c @ '' does not exist in spec.cases'')
      else if c \<in> set seen then Some (''duplicate record case '' @ quote L c)
      else validateAssertionRecords_from L caseIDs (Suc i) (c # seen) cs)"

definition validateAssertionRecords :: "golib \<Rightarrow> string list \<Rightarrow> string list \<Rightarrow> string option" where
  "validateAssertionRecords L records caseIDs = validateAssertionRecords_from L caseIDs 0 [] records"

fun validateAssertionFields_from :: "golib \<Rightarrow> nat \<Rightarrow> string list \<Rightarrow> string list \<Rightarrow> string option" where
  "validateAssertionFields_from L i seen [] = None"
| "validateAssertionFields_from L i seen (f # fs) =
     (if trim_space f = [] then Some (''fields['' @ show_nat i @ ''] must not be blank'')
      else if map_of suiteRecordFieldSpecs f = None then Some (''unsupported record field '' @ quote L f)
      else if f \<in> set seen then Some (''duplicate record field '' @ quote L f)
      else validateAssertionFields_from L (Suc i) (f # seen) fs)"

definition validateAssertionFields :: "golib \<Rightarrow> string list \<Rightarrow> string option" where
  "validateAssertionFields L fs =
     (if fs = [] then Some ''fields must not be empty'' else validateAssertionFields_from L 0 [] fs)"

fun validate_markers :: "golib \<Rightarrow> nat \<Rightarrow> string list \<Rightarrow> string list \<Rightarrow> string option" where
  "validate_markers L i seen [] = None"
| "validate_markers L i seen (m # ms) =
     (if trim_space m = [] then Some (''markers['' @ show_nat i @ ''] must not be blank'')
      else if m \<in> set seen then Some (''duplicate marker '' @ quote L m)
      else validate_markers L (Suc i) (m # seen) ms)"

definition validateFieldsEqualAssertion :: "golib \<Rightarrow> suite_assertion \<Rightarrow> string list \<Rightarrow> string option" where
  "validateFieldsEqualAssertion L a caseIDs =
     (if length (sa_records a) < 2 then Some ''records must contain at least two case IDs''
      else if sa_markers a \<noteq> [] then Some ''markers are not valid for fieldsEqual''
      else case validateAssertionRecords L (sa_records a) caseIDs of
        Some e \<Rightarrow> Some e
      | None \<Rightarrow> validateAssertionFields L (sa_fields a))"

definition validateForbiddenMarkersAssertion :: "golib \<Rightarrow> suite_assertion \<Rightarrow> string list \<Rightarrow> string option" where
  "validateForbiddenMarkersAssertion L a caseIDs =
     (case (if sa_records a = [] then None else validateAssertionRecords L (sa_records a) caseIDs) of
        Some e \<Rightarrow> Some e
      | None \<Rightarrow>
          (case validateAssertionFields L (sa_fields a) of
             Some e \<Rightarrow> Some e
           | None \<Rightarrow> if sa_markers a = [] then Some ''markers must not be empty'' else validate_markers L 0 [] (sa_markers a)))"

definition unsupported_assertion :: "golib \<Rightarrow> string \<Rightarrow> string" where
  "unsupported_assertion L t = ''unsupported suite assertion type '' @ quote L t"

definition validateSuiteAssertion :: "golib \<Rightarrow> suite_assertion \<Rightarrow> string list \<Rightarrow> string option" where
  "validateSuiteAssertion L a caseIDs =
     (if sa_type a = SuiteAssertionFieldsEqual then validateFieldsEqualAssertion L a caseIDs
      else if sa_type a = SuiteAssertionForbiddenMarkers then validateForbiddenMarkersAssertion L a caseIDs
      else Some (unsupported_assertion L (sa_type a)))"

subsection \<open>Requirements of assertions\<close>

definition assertionTargetsCase :: "suite_assertion \<Rightarrow> string \<Rightarrow> bool" where
  "assertionTargetsCase a caseID \<longleftrightarrow> sa_records a = [] \<or> caseID \<in> set (sa_records a)"

definition requireAssertionFields :: "suite_assertion \<Rightarrow> string \<Rightarrow> artifact_requirements \<Rightarrow> artifact_requirements" where
  "requireAssertionFields a caseID q =
     (if assertionTargetsCase a caseID then
        fold (\<lambda>f q. case map_of suiteRecordFieldSpecs f of None \<Rightarrow> q | Some (_, need) \<Rightarrow> need q) (sa_fields a) q
      else q)"

fun requirementsForSuiteAssertions :: "golib \<Rightarrow> suite_assertion list \<Rightarrow> string \<Rightarrow> artifact_requirements \<Rightarrow> artifact_requirements go_result" where
  "requirementsForSuiteAssertions L [] caseID q = Inr q"
| "requirementsForSuiteAssertions L (a # as) caseID q =
     (if sa_type a \<in> {SuiteAssertionFieldsEqual, SuiteAssertionForbiddenMarkers} then
        requirementsForSuiteAssertions L as caseID (requireAssertionFields a caseID q)
      else Inl (unsupported_assertion L (sa_type a)))"

subsection \<open>Evaluation of assertions\<close>

fun select_each :: "golib \<Rightarrow> (string \<Rightarrow> eval_record option) \<Rightarrow> string list \<Rightarrow> eval_record list go_result" where
  "select_each L byCaseID [] = Inr []"
| "select_each L byCaseID (c # cs) =
     (case byCaseID c of
        None \<Rightarrow> Inl (''evaluation record '' @ quote L c @ '' was absent'')
      | Some r \<Rightarrow> go_bind (select_each L byCaseID cs) (\<lambda>rs. Inr (r # rs)))"

text \<open>A later record of the same case replaces an earlier one in the map.\<close>

definition selectAssertionRecords :: "golib \<Rightarrow> string list \<Rightarrow> eval_record list \<Rightarrow> eval_record list go_result" where
  "selectAssertionRecords L caseIDs records =
     (if caseIDs = [] then (if records = [] then Inl ''no evaluation records were available'' else Inr records)
      else select_each L (map_of (rev (map (\<lambda>r. (er_case_id r, r)) records))) caseIDs)"

definition assertion_answer :: "suite_assertion \<Rightarrow> bool \<Rightarrow> string \<Rightarrow> assertion_result" where
  "assertion_answer a pass message =
     \<lparr>sr_type = sa_type a, sr_records = sa_records a, sr_fields = sa_fields a, sr_pass = pass, sr_message = message\<rparr>"

definition evaluateFieldsEqual :: "golib \<Rightarrow> suite_assertion \<Rightarrow> eval_record list \<Rightarrow> assertion_result" where
  "evaluateFieldsEqual L a records =
     (case selectAssertionRecords L (sa_records a) records of
        Inl e \<Rightarrow> assertion_answer a False e
      | Inr selected \<Rightarrow>
          (let first = hd selected in
           case find (\<lambda>(f, r). field_of f first \<noteq> field_of f r) (concat (map (\<lambda>f. map (Pair f) (tl selected)) (sa_fields a))) of
             Some (f, r) \<Rightarrow> assertion_answer a False
               (''field '' @ quote L f @ '' differs between records '' @ quote L (er_case_id first) @ '' and '' @ quote L (er_case_id r))
           | None \<Rightarrow> assertion_answer a True
               (show_nat (length (sa_fields a)) @ '' field(s) matched across '' @ show_nat (length selected) @ '' records'')))"

fun marker_index :: "nat \<Rightarrow> string list \<Rightarrow> string \<Rightarrow> nat option" where
  "marker_index i [] encoded = None"
| "marker_index i (m # ms) encoded = (if sublist m encoded then Some i else marker_index (Suc i) ms encoded)"

definition field_problem :: "golib \<Rightarrow> (field_value \<Rightarrow> string go_result) \<Rightarrow> string list \<Rightarrow> eval_record \<times> string \<Rightarrow> string option" where
  "field_problem L encode markers = (\<lambda>(r, f).
     case encode (field_of f r) of
       Inl e \<Rightarrow> Some (''encode record '' @ quote L (er_case_id r) @ '' field '' @ quote L f @ '': '' @ e)
     | Inr encoded \<Rightarrow>
         map_option (\<lambda>i. ''record '' @ quote L (er_case_id r) @ '' field '' @ quote L f @ '' contains forbidden marker at index '' @ show_nat i)
           (marker_index 0 markers encoded))"

fun first_problem :: "('a \<Rightarrow> string option) \<Rightarrow> 'a list \<Rightarrow> string option" where
  "first_problem p [] = None"
| "first_problem p (x # xs) = (case p x of None \<Rightarrow> first_problem p xs | Some e \<Rightarrow> Some e)"

definition evaluateForbiddenMarkers :: "golib \<Rightarrow> (field_value \<Rightarrow> string go_result) \<Rightarrow> suite_assertion \<Rightarrow> eval_record list \<Rightarrow> assertion_result" where
  "evaluateForbiddenMarkers L encode a records =
     (case selectAssertionRecords L (sa_records a) records of
        Inl e \<Rightarrow> assertion_answer a False e
      | Inr selected \<Rightarrow>
          (case first_problem (field_problem L encode (sa_markers a)) (concat (map (\<lambda>r. map (Pair r) (sa_fields a)) selected)) of
             Some e \<Rightarrow> assertion_answer a False e
           | None \<Rightarrow> assertion_answer a True
               (show_nat (length (sa_fields a)) @ '' field(s) across '' @ show_nat (length selected) @
                '' record(s) contained no forbidden markers'')))"

definition evaluate_assertion :: "golib \<Rightarrow> (field_value \<Rightarrow> string go_result) \<Rightarrow> eval_record list \<Rightarrow> suite_assertion \<Rightarrow> assertion_result" where
  "evaluate_assertion L encode records a =
     (if sa_type a = SuiteAssertionFieldsEqual then evaluateFieldsEqual L a records
      else if sa_type a = SuiteAssertionForbiddenMarkers then evaluateForbiddenMarkers L encode a records
      else assertion_answer a False (unsupported_assertion L (sa_type a)))"

definition EvaluateSuiteAssertions ::
  "golib \<Rightarrow> (field_value \<Rightarrow> string go_result) \<Rightarrow> suite_assertion list \<Rightarrow> eval_record list \<Rightarrow> assertion_result list" where
  "EvaluateSuiteAssertions L encode assertions records = map (evaluate_assertion L encode records) assertions"

subsection \<open>Preparation of a suite\<close>

fun first_invalid :: "(grader \<Rightarrow> string option) \<Rightarrow> nat \<Rightarrow> grader list \<Rightarrow> (nat \<times> string) option" where
  "first_invalid p i [] = None"
| "first_invalid p i (x # xs) = (case p x of None \<Rightarrow> first_invalid p (Suc i) xs | Some e \<Rightarrow> Some (i, e))"

definition runtime_image_of :: "string \<Rightarrow> suite_defaults \<Rightarrow> string \<Rightarrow> string" where
  "runtime_image_of override d img =
     (if override \<noteq> [] then override else if img = [] then sd_runtime_image d else img)"

definition prepare_case ::
  "golib \<Rightarrow> (string \<Rightarrow> bool) \<Rightarrow> string \<Rightarrow> suite_defaults \<Rightarrow> string list \<Rightarrow> nat \<Rightarrow> eval_case \<Rightarrow> eval_case go_result" where
  "prepare_case L v override d seen i c =
     (let ID = trim_space (ca_id c);
          timeout = (case ca_timeout c of None \<Rightarrow> sd_timeout d | Some x \<Rightarrow> Some x);
          run = (ca_agent_run c)\<lparr>rp_runtime := (rp_runtime (ca_agent_run c))\<lparr>rt_image :=
                   runtime_image_of override d (rt_image (rp_runtime (ca_agent_run c)))\<rparr>\<rparr>;
          case_text = ''case '' @ quote L ID in
      if ID = [] then Inl (''spec.cases['' @ show_nat i @ ''].id is required'')
      else if ID \<in> set seen then Inl (''duplicate case id '' @ quote L ID)
      else if (case timeout of None \<Rightarrow> True | Some x \<Rightarrow> x \<le> 0) then Inl (case_text @ '' timeout must be greater than zero'')
      else if trim_space (rt_image (rp_runtime run)) = [] then Inl (case_text @ '' requires agentRun.runtime.image'')
      else if trim_space (rp_model run) = [] then Inl (case_text @ '' requires agentRun.model'')
      else if trim_space (rp_goal run) = [] then Inl (case_text @ '' requires agentRun.goal'')
      else if ca_graders c = [] then Inl (case_text @ '' requires at least one deterministic grader'')
      else case first_invalid (validateGrader L v) 0 (ca_graders c) of
        Some (j, e) \<Rightarrow> Inl (case_text @ '' grader '' @ show_nat j @ '': '' @ e)
      | None \<Rightarrow> Inr (c\<lparr>ca_id := ID, ca_timeout := timeout, ca_agent_run := run\<rparr>))"

fun prepare_cases ::
  "golib \<Rightarrow> (string \<Rightarrow> bool) \<Rightarrow> string \<Rightarrow> suite_defaults \<Rightarrow> string list \<Rightarrow> nat \<Rightarrow> eval_case list \<Rightarrow> eval_case list go_result" where
  "prepare_cases L v override d seen i [] = Inr []"
| "prepare_cases L v override d seen i (c # cs) =
     go_bind (prepare_case L v override d seen i c) (\<lambda>c'.
     go_bind (prepare_cases L v override d (ca_id c' # seen) (Suc i) cs) (\<lambda>cs'. Inr (c' # cs')))"

fun invalid_assertion :: "golib \<Rightarrow> string list \<Rightarrow> nat \<Rightarrow> suite_assertion list \<Rightarrow> string option" where
  "invalid_assertion L caseIDs i [] = None"
| "invalid_assertion L caseIDs i (a # as) =
     (case validateSuiteAssertion L a caseIDs of
        None \<Rightarrow> invalid_assertion L caseIDs (Suc i) as
      | Some e \<Rightarrow> Some (''spec.assertions['' @ show_nat i @ '']: '' @ e))"

definition prepareSuite :: "golib \<Rightarrow> (string \<Rightarrow> bool) \<Rightarrow> string \<Rightarrow> eval_suite \<Rightarrow> eval_suite go_result" where
  "prepareSuite L v override su =
     (let timeout = (case sd_timeout (su_defaults su) of None \<Rightarrow> defaultTimeout | Some x \<Rightarrow> x);
          ns = (if sd_namespace (su_defaults su) = [] then ''default'' else sd_namespace (su_defaults su));
          d = (su_defaults su)\<lparr>sd_timeout := Some timeout, sd_namespace := ns\<rparr> in
      if su_api_version su \<noteq> EvalAPIVersion then Inl (''unsupported suite apiVersion '' @ quote L (su_api_version su))
      else if su_kind su \<noteq> EvalKind then Inl (''unsupported suite kind '' @ quote L (su_kind su))
      else if trim_space (su_name su) = [] then Inl ''metadata.name is required''
      else if su_cases su = [] then Inl ''spec.cases must not be empty''
      else if timeout \<le> 0 then Inl ''spec.defaults.timeout must be greater than zero''
      else go_bind (prepare_cases L v override d [] 0 (su_cases su)) (\<lambda>cases.
        case invalid_assertion L (map ca_id cases) 0 (su_assertions su) of
          Some e \<Rightarrow> Inl e
        | None \<Rightarrow> Inr (su\<lparr>su_defaults := d, su_cases := cases\<rparr>)))"

definition ParseSuite :: "golib \<Rightarrow> (string \<Rightarrow> bool) \<Rightarrow> (string \<Rightarrow> string go_result) \<Rightarrow> (string \<Rightarrow> (eval_suite \<times> trailing) go_result) \<Rightarrow>
    string \<Rightarrow> string \<Rightarrow> eval_suite go_result" where
  "ParseSuite L v yaml_to_json decode doc override =
     (case yaml_to_json doc of
        Inl e \<Rightarrow> Inl (''decode suite YAML: '' @ e)
      | Inr json \<Rightarrow>
          (case decode json of
             Inl e \<Rightarrow> Inl (''decode suite: '' @ e)
           | Inr (su, TrailingValue) \<Rightarrow> Inl ''decode suite: trailing JSON value''
           | Inr (su, TrailingError e) \<Rightarrow> Inl (''decode suite trailing data: '' @ e)
           | Inr (su, EOF) \<Rightarrow> prepareSuite L v (trim_space override) su))"

subsection \<open>Names\<close>

definition NameForCase :: "golib \<Rightarrow> string \<Rightarrow> string \<Rightarrow> string \<Rightarrow> string" where
  "NameForCase L suiteName caseID invocation =
     (let raw = suiteName @ [CHR 0x00] @ caseID @ [CHR 0x00] @ invocation;
          digest = take 10 (sha256_hex L raw);
          readable = trim_char (CHR ''-'') (replace_invalid False (to_lower L (join_strings [suiteName, caseID, invocation] ''-'')));
          readable = (if readable = [] then ''eval'' else readable);
          maxReadable = 63 - length digest - 1;
          readable = (if maxReadable < length readable then trim_char (CHR ''-'') (take maxReadable readable) else readable);
          readable = (if readable = [] then ''eval'' else readable) in
      readable @ ''-'' @ digest)"

subsection \<open>The summary\<close>

record suite_summary =
  sy_suite :: string
  sy_started_at :: time
  sy_completed_at :: time
  sy_expected_total :: int
  sy_total :: int
  sy_passed :: int
  sy_failed :: int
  sy_collection_error_count :: int
  sy_collection_error_cases :: "string list"
  sy_assertions :: "assertion_result list"
  sy_assertion_failures :: int
  sy_pass :: bool
  sy_record_path :: string

definition add_record :: "nat \<times> eval_record \<Rightarrow> suite_summary \<Rightarrow> suite_summary" where
  "add_record = (\<lambda>(i, r) sy.
     let sy = (if er_pass r then sy\<lparr>sy_passed := sy_passed sy + 1\<rparr> else sy\<lparr>sy_failed := sy_failed sy + 1\<rparr>) in
     if er_collection_errors r \<noteq> [] then
       sy\<lparr>sy_collection_error_count := sy_collection_error_count sy + int (length (er_collection_errors r)),
          sy_collection_error_cases := sy_collection_error_cases sy @
            [if er_case_id r = [] then ''record['' @ show_nat i @ '']'' else er_case_id r]\<rparr>
     else sy)"

definition BuildSummary ::
  "string \<Rightarrow> int \<Rightarrow> time \<Rightarrow> time \<Rightarrow> eval_record list \<Rightarrow> assertion_result list \<Rightarrow> string \<Rightarrow> suite_summary" where
  "BuildSummary suite expectedTotal startedAt completedAt records assertions recordPath =
     (let start = \<lparr>sy_suite = suite, sy_started_at = startedAt, sy_completed_at = completedAt, sy_expected_total = expectedTotal,
            sy_total = int (length records), sy_passed = 0, sy_failed = 0, sy_collection_error_count = 0, sy_collection_error_cases = [],
            sy_assertions = assertions, sy_assertion_failures = 0, sy_pass = False, sy_record_path = recordPath\<rparr>;
          sy = fold add_record (enumerate 0 records) start;
          sy = sy\<lparr>sy_assertion_failures := int (length (filter (\<lambda>a. \<not> sr_pass a) assertions))\<rparr> in
      sy\<lparr>sy_pass := (sy_total sy = sy_expected_total sy \<and> sy_failed sy = 0 \<and> sy_passed sy = sy_total sy \<and>
         sy_collection_error_count sy = 0 \<and> sy_assertion_failures sy = 0)\<rparr>)"

subsection \<open>An accepted suite\<close>

definition case_ok :: "golib \<Rightarrow> (string \<Rightarrow> bool) \<Rightarrow> eval_case \<Rightarrow> bool" where
  "case_ok L v c \<longleftrightarrow>
     ca_id c \<noteq> [] \<and> (\<exists>x. ca_timeout c = Some x \<and> 0 < x) \<and> trim_space (rt_image (rp_runtime (ca_agent_run c))) \<noteq> [] \<and>
     trim_space (rp_model (ca_agent_run c)) \<noteq> [] \<and> trim_space (rp_goal (ca_agent_run c)) \<noteq> [] \<and>
     ca_graders c \<noteq> [] \<and> (\<forall>g\<in>set (ca_graders c). validateGrader L v g = None)"

lemma first_invalid_None: "first_invalid p i gs = None \<longleftrightarrow> (\<forall>g\<in>set gs. p g = None)"
  by (induction p i gs rule: first_invalid.induct) (auto split: option.splits)

lemma prepare_case_ok:
  assumes "prepare_case L v override d seen i c = Inr c'"
  shows "case_ok L v c' \<and> ca_id c' \<notin> set seen"
  using assms unfolding prepare_case_def Let_def
  by (auto simp: case_ok_def first_invalid_None split: if_splits option.splits prod.splits)

lemma prepare_cases_ok:
  "prepare_cases L v override d seen i cs = Inr cs' \<Longrightarrow>
   length cs' = length cs \<and> distinct (map ca_id cs') \<and> set (map ca_id cs') \<inter> set seen = {} \<and> (\<forall>c\<in>set cs'. case_ok L v c)"
proof (induction cs arbitrary: seen i cs')
  case (Cons c cs)
  from Cons.prems obtain c' cs1 where c': "prepare_case L v override d seen i c = Inr c'"
    and cs1: "prepare_cases L v override d (ca_id c' # seen) (Suc i) cs = Inr cs1" and cs': "cs' = c' # cs1"
    by (auto simp: go_bind_def split: sum.splits)
  from Cons.IH [OF cs1] prepare_case_ok [OF c'] cs' show ?case by auto
qed simp

lemma invalid_assertion_None: "invalid_assertion L ids i as = None \<longleftrightarrow> (\<forall>a\<in>set as. validateSuiteAssertion L a ids = None)"
  by (induction L ids i as rule: invalid_assertion.induct) (auto split: option.splits)

lemma prepareSuite_ok:
  assumes "prepareSuite L v override su = Inr su'"
  shows "su_cases su' \<noteq> []" "distinct (map ca_id (su_cases su'))" "\<forall>c\<in>set (su_cases su'). case_ok L v c"
    "\<forall>a\<in>set (su_assertions su'). validateSuiteAssertion L a (map ca_id (su_cases su')) = None"
proof -
  from assms obtain d cs where cs: "prepare_cases L v override d [] 0 (su_cases su) = Inr cs" and "su_cases su \<noteq> []"
    and "invalid_assertion L (map ca_id cs) 0 (su_assertions su) = None" and "su' = su\<lparr>su_defaults := d, su_cases := cs\<rparr>"
    unfolding prepareSuite_def Let_def by (auto simp: go_bind_def split: if_splits sum.splits option.splits)
  with prepare_cases_ok [OF cs] show "su_cases su' \<noteq> []" "distinct (map ca_id (su_cases su'))" "\<forall>c\<in>set (su_cases su'). case_ok L v c"
    "\<forall>a\<in>set (su_assertions su'). validateSuiteAssertion L a (map ca_id (su_cases su')) = None"
    by (auto simp: invalid_assertion_None)
qed

subsection \<open>Run names are DNS labels\<close>

lemma hd_trim_char: "trim_char c s \<noteq> [] \<Longrightarrow> hd (trim_char c s) \<noteq> c"
proof -
  assume ne: "trim_char c s \<noteq> []"
  let ?t = "dropWhile (\<lambda>x. x = c) s"
  obtain p where p: "?t = trim_char c s @ p"
    unfolding trim_char_def trim_right_char_def by (metis rev_append rev_rev_ident takeWhile_dropWhile_id)
  with ne have "hd (trim_char c s) = hd ?t" "?t \<noteq> []" by auto
  then show ?thesis using hd_dropWhile [of "\<lambda>x. x = c" s] by auto
qed

lemma length_trim_char: "length (trim_char c s) \<le> length s"
  by (metis length_dropWhile_le length_trim_right_char le_trans trim_char_def)

definition readable_ok :: "string \<Rightarrow> bool" where
  "readable_ok s \<longleftrightarrow> s \<noteq> [] \<and> list_all valid_name_char s \<and> hd s \<noteq> CHR ''-'' \<and> last s \<noteq> CHR ''-''"

lemma readable_trim:
  "list_all valid_name_char s \<Longrightarrow> readable_ok (if trim_char (CHR ''-'') s = [] then ''eval'' else trim_char (CHR ''-'') s)"
  using hd_trim_char [of "CHR ''-''" s] last_trim_char [of "CHR ''-''" s]
  by (auto simp: readable_ok_def list_all_trim_char valid_name_char_def)

lemma NameForCase_dns_label:
  assumes "hex_digest_ok L"
  shows "dns_label (NameForCase L suiteName caseID invocation)"
proof -
  define h where "h = take 10 (sha256_hex L (suiteName @ [CHR 0x00] @ caseID @ [CHR 0x00] @ invocation))"
  from assms have h: "length h = 10" "list_all hex_char h"
    by (auto simp: h_def hex_digest_ok_def list_all_iff dest: in_set_takeD)
  then have ne: "h \<noteq> []" by auto
  then have "last h \<in> set h" by (rule last_in_set)
  with h(2) have hash: "list_all valid_name_char h" "last h \<noteq> CHR ''-''"
    by (auto simp: list_all_iff dest: hex_char_valid)
  let ?s = "replace_invalid False (to_lower L (join_strings [suiteName, caseID, invocation] ''-''))"
  let ?r = "if trim_char (CHR ''-'') ?s = [] then ''eval'' else trim_char (CHR ''-'') ?s"
  have r: "readable_ok ?r" by (rule readable_trim [OF replace_invalid_valid])
  let ?q = "if 52 < length ?r then (if trim_char (CHR ''-'') (take 52 ?r) = [] then ''eval'' else trim_char (CHR ''-'') (take 52 ?r)) else ?r"
  have "list_all valid_name_char (take 52 ?r)" using r by (auto simp: readable_ok_def list_all_iff dest: in_set_takeD)
  with r readable_trim [of "take 52 ?r"] have q: "readable_ok ?q" by auto
  have "length ?q \<le> 52" using length_trim_char [of "CHR ''-''" "take 52 ?r"] by auto
  moreover have "NameForCase L suiteName caseID invocation = ?q @ ''-'' @ h"
    using h(1) r unfolding NameForCase_def Let_def h_def [symmetric] by (auto simp: readable_ok_def)
  ultimately show ?thesis using q hash ne h(1) by (auto simp: dns_label_def readable_ok_def)
qed

subsection \<open>When assertions and suites pass\<close>

lemma assertion_answer_pass [simp]: "sr_pass (assertion_answer a p m) = p"
  by (simp add: assertion_answer_def)

lemma marker_index_None: "marker_index i ms s = None \<longleftrightarrow> (\<forall>m\<in>set ms. \<not> sublist m s)"
  by (induction i ms s rule: marker_index.induct) auto

lemma first_problem_None: "first_problem p xs = None \<longleftrightarrow> (\<forall>x\<in>set xs. p x = None)"
  by (induction p xs rule: first_problem.induct) (auto split: option.splits)

lemma evaluateForbiddenMarkers_pass:
  "sr_pass (evaluateForbiddenMarkers L encode a records) \<longleftrightarrow>
     (\<exists>selected. selectAssertionRecords L (sa_records a) records = Inr selected \<and>
        (\<forall>r\<in>set selected. \<forall>f\<in>set (sa_fields a). \<exists>s. encode (field_of f r) = Inr s \<and> (\<forall>m\<in>set (sa_markers a). \<not> sublist m s)))"
proof (cases "selectAssertionRecords L (sa_records a) records")
  case (Inr selected)
  have ok: "field_problem L encode (sa_markers a) (r, f) = None \<longleftrightarrow>
      (\<exists>s. encode (field_of f r) = Inr s \<and> (\<forall>m\<in>set (sa_markers a). \<not> sublist m s))" for r f
    by (auto simp: field_problem_def marker_index_None split: sum.splits)
  let ?pairs = "concat (map (\<lambda>r. map (Pair r) (sa_fields a)) selected)"
  have "sr_pass (evaluateForbiddenMarkers L encode a records) \<longleftrightarrow> (\<forall>x\<in>set ?pairs. field_problem L encode (sa_markers a) x = None)"
    unfolding first_problem_None [symmetric] by (simp add: evaluateForbiddenMarkers_def Inr split: option.split)
  also have "set ?pairs = set selected \<times> set (sa_fields a)" by auto
  finally have "sr_pass (evaluateForbiddenMarkers L encode a records) \<longleftrightarrow>
      (\<forall>r\<in>set selected. \<forall>f\<in>set (sa_fields a). field_problem L encode (sa_markers a) (r, f) = None)"
    by (simp add: split_paired_Ball_Sigma)
  with Inr ok show ?thesis by simp
qed (simp add: evaluateForbiddenMarkers_def)

lemma evaluateFieldsEqual_pass:
  "sr_pass (evaluateFieldsEqual L a records) \<longleftrightarrow>
     (\<exists>selected. selectAssertionRecords L (sa_records a) records = Inr selected \<and>
        (\<forall>f\<in>set (sa_fields a). \<forall>r\<in>set (tl selected). field_of f r = field_of f (hd selected)))"
proof (cases "selectAssertionRecords L (sa_records a) records")
  case (Inr selected)
  let ?pairs = "concat (map (\<lambda>f. map (Pair f) (tl selected)) (sa_fields a))"
  have "sr_pass (evaluateFieldsEqual L a records) \<longleftrightarrow> find (\<lambda>(f, r). field_of f (hd selected) \<noteq> field_of f r) ?pairs = None"
    by (auto simp: evaluateFieldsEqual_def Inr Let_def split: option.splits)
  also have "\<dots> \<longleftrightarrow> (\<forall>(f, r)\<in>set ?pairs. field_of f (hd selected) = field_of f r)" by (auto simp: find_None_iff)
  also have "set ?pairs = set (sa_fields a) \<times> set (tl selected)" by auto
  finally show ?thesis using Inr by auto
qed (simp add: evaluateFieldsEqual_def)

lemma add_record_fields [simp]:
  "sy_total (add_record x sy) = sy_total sy" "sy_expected_total (add_record x sy) = sy_expected_total sy"
  "sy_passed (add_record x sy) = sy_passed sy + (if er_pass (snd x) then 1 else 0)"
  "sy_failed (add_record x sy) = sy_failed sy + (if er_pass (snd x) then 0 else 1)"
  "sy_collection_error_count (add_record x sy) = sy_collection_error_count sy + int (length (er_collection_errors (snd x)))"
  by (cases x; simp add: add_record_def Let_def)+

lemma add_records:
  "sy_total (fold add_record xs sy) = sy_total sy" "sy_expected_total (fold add_record xs sy) = sy_expected_total sy"
  "sy_passed (fold add_record xs sy) = sy_passed sy + int (length (filter (\<lambda>(i, r). er_pass r) xs))"
  "sy_failed (fold add_record xs sy) = sy_failed sy + int (length (filter (\<lambda>(i, r). \<not> er_pass r) xs))"
  "sy_collection_error_count (fold add_record xs sy) = sy_collection_error_count sy + (\<Sum>(i, r)\<leftarrow>xs. int (length (er_collection_errors r)))"
  by (induction xs arbitrary: sy) (simp_all add: case_prod_beta)

lemma BuildSummary_pass:
  "sy_pass (BuildSummary suite expectedTotal t0 t1 records assertions path) \<longleftrightarrow>
     int (length records) = expectedTotal \<and> (\<forall>r\<in>set records. er_pass r \<and> er_collection_errors r = []) \<and> (\<forall>a\<in>set assertions. sr_pass a)"
proof -
  let ?xs = "enumerate 0 records"
  have snd: "snd ` set ?xs = set records" by (metis map_snd_enumerate set_map)
  have failed: "filter (\<lambda>(i, r). \<not> er_pass r) ?xs = [] \<longleftrightarrow> (\<forall>r\<in>set records. er_pass r)"
    using snd by (force simp: filter_empty_conv)
  have errors: "(\<Sum>(i, r)\<leftarrow>?xs. int (length (er_collection_errors r))) = 0 \<longleftrightarrow> (\<forall>r\<in>set records. er_collection_errors r = [])"
    using snd by (subst sum_list_nonneg_eq_0_iff) (force simp: case_prod_beta)+
  have all: "(\<forall>r\<in>set records. er_pass r) \<Longrightarrow> filter (\<lambda>(i, r). er_pass r) ?xs = ?xs"
    using snd by (force simp: filter_id_conv)
  show ?thesis unfolding BuildSummary_def Let_def
    by (simp add: add_records failed errors) (auto simp: all filter_empty_conv)
qed

end
