(* ===== verification/Eval_Runner.thy ===== *)
theory Eval_Runner
  imports Eval_Expect Eval_Suite Loops
begin

text \<open>
  The runner of the evaluation harness (\<^verbatim>\<open>runner.go\<close>, \<^verbatim>\<open>retry.go\<close>, \<^verbatim>\<open>runner_options.go\<close> and the observation given to
  a judge, \<^verbatim>\<open>judge.go\<close>): for each case it creates an AgentRun, waits until it ends, collects what the graders need,
  grades it and deletes the run.  The API server, the log fetcher, the judge, the clock and the context are the record
  \<open>eval_world\<close>, operations on a state of any type.  Waiting has no bound of its own: \<open>waitForTerminal\<close> is a partial
  function.

  The lemmas: what a passing record shows of the run, which runs are deleted, and that a case returns when its context
  ends.
\<close>

subsection \<open>The world of a runner\<close>

record error_classes =
  ek_timeout :: "cerror \<Rightarrow> bool"
  ek_server_timeout :: "cerror \<Rightarrow> bool"
  ek_too_many_requests :: "cerror \<Rightarrow> bool"
  ek_service_unavailable :: "cerror \<Rightarrow> bool"
  ek_internal_error :: "cerror \<Rightarrow> bool"
  ek_unexpected_eof :: "cerror \<Rightarrow> bool"
  ek_connection_reset :: "cerror \<Rightarrow> bool"
  ek_connection_refused :: "cerror \<Rightarrow> bool"
  ek_connection_aborted :: "cerror \<Rightarrow> bool"
  ek_timed_out :: "cerror \<Rightarrow> bool"
  ek_url_error :: "cerror \<Rightarrow> bool"
  ek_net_error :: "cerror \<Rightarrow> bool"

definition classifyKubernetesError :: "error_classes \<Rightarrow> cerror \<Rightarrow> bool" where
  "classifyKubernetesError K e \<longleftrightarrow>
     ek_timeout K e \<or> ek_server_timeout K e \<or> ek_too_many_requests K e \<or> ek_service_unavailable K e \<or> ek_internal_error K e \<or>
     ek_unexpected_eof K e \<or> ek_connection_reset K e \<or> ek_connection_refused K e \<or> ek_connection_aborted K e \<or> ek_timed_out K e \<or>
     ek_url_error K e \<or> ek_net_error K e"

record judge_observation =
  jo_suite :: string
  jo_case_id :: string
  jo_description :: string
  jo_terminal_phase :: string
  jo_status_result :: string
  jo_status_output :: "eval_output option"
  jo_envelope :: "envelope_observation option"
  jo_event_counts :: "int go_map"
  jo_grades :: "grade_result list"

datatype eval_event =
  RunCreated agent_run "api_error + agent_run"
| RunRead string string "api_error + agent_run"
| PodRead string string "api_error + pod"
| RunDeleted agent_run "api_error option"
| LogsRead string string "log_collection go_result"
| Judged judge_observation "judge_result go_result"

text \<open>
  \<^verbatim>\<open>ew_ctx_err\<close> is \<^verbatim>\<open>ctx.Err()\<close> and \<^verbatim>\<open>ew_tick\<close> the \<^verbatim>\<open>select\<close> between the end of the context and the next tick;
  \<^verbatim>\<open>ew_read_retries\<close> is how often the backoff of the client library lets a read be repeated.
\<close>

record 's eval_world =
  ew_lib :: golib
  ew_kube :: kube_lib
  ew_json :: json_codec
  ew_events :: event_codec
  ew_errors :: error_classes
  ew_read_retries :: nat
  ew_now :: "'s \<Rightarrow> time \<times> 's"
  ew_random :: "'s \<Rightarrow> string go_result \<times> 's"
  ew_ctx_err :: "'s \<Rightarrow> string option \<times> 's"
  ew_tick :: "'s \<Rightarrow> string option \<times> 's"
  ew_create :: "agent_run \<Rightarrow> 's \<Rightarrow> (api_error + agent_run) \<times> 's"
  ew_get_run :: "string \<Rightarrow> string \<Rightarrow> 's \<Rightarrow> (api_error + agent_run) \<times> 's"
  ew_get_pod :: "string \<Rightarrow> string \<Rightarrow> 's \<Rightarrow> (api_error + pod) \<times> 's"
  ew_delete :: "agent_run \<Rightarrow> 's \<Rightarrow> api_error option \<times> 's"
  ew_logs :: "(string \<Rightarrow> string \<Rightarrow> string \<Rightarrow> 's \<Rightarrow> log_collection go_result \<times> 's) option"

type_synonym ('s, 'a) eval_io = "(eval_event, 's, 'a) calls"

record 's runner_options =
  eopt_namespace :: string
  eopt_keep_runs :: bool
  eopt_poll_interval :: duration
  eopt_judge :: "(judge_observation \<Rightarrow> 's \<Rightarrow> judge_result go_result \<times> 's) option"
  eopt_invocation_id :: string

abbreviation labelManagedBy :: string where "labelManagedBy \<equiv> ''app.kubernetes.io/managed-by''"
abbreviation labelEvalSuite :: string where "labelEvalSuite \<equiv> ''kontext.dev/eval-suite''"
abbreviation labelEvalCase :: string where "labelEvalCase \<equiv> ''kontext.dev/eval-case''"
abbreviation labelInvocation :: string where "labelInvocation \<equiv> ''kontext.dev/eval-invocation''"

subsection \<open>Options\<close>

fun show_hex :: "nat \<Rightarrow> string" where
  "show_hex n = (if n < 16 then [hex_digit n] else show_hex (n div 16) @ [hex_digit n])"

declare show_hex.simps [simp del]

definition show_hex_int :: "int \<Rightarrow> string" where
  "show_hex_int i = (if i < 0 then ''-'' @ show_hex (nat (- i)) else show_hex (nat i))"

definition encode_hex :: "string \<Rightarrow> string" where
  "encode_hex s = concat (map (\<lambda>c. [hex_digit (of_char c div 16), hex_digit (of_char c)]) s)"

text \<open>The clock counts from the zero time of Go; Unix time starts in 1970.\<close>

definition invocationID :: "'s eval_world \<Rightarrow> time \<Rightarrow> ('s, string) eval_io" where
  "invocationID W t =
     io_bind (io_read (ew_random W)) (\<lambda>r. io_return (case r of
       Inl _ \<Rightarrow> show_hex_int (wrap64 (t - 62135596800 * second))
     | Inr random \<Rightarrow> show_hex_int (unix_seconds t) @ ''-'' @ encode_hex random))"

definition normalizeRunnerOptions :: "'s eval_world \<Rightarrow> 's runner_options \<Rightarrow> suite_defaults \<Rightarrow> ('s, 's runner_options) eval_io" where
  "normalizeRunnerOptions W o' d =
     io_bind (if eopt_invocation_id o' = [] then io_bind (io_read (ew_now W)) (invocationID W) else io_return (eopt_invocation_id o')) (\<lambda>i.
     io_return (o'\<lparr>eopt_invocation_id := i,
       eopt_namespace := (if eopt_namespace o' = [] then sd_namespace d else eopt_namespace o'),
       eopt_poll_interval := (if eopt_poll_interval o' \<le> 0 then second div 2 else eopt_poll_interval o')\<rparr>))"

definition labelValue :: "golib \<Rightarrow> string \<Rightarrow> string" where
  "labelValue L v = take 63 (NameForCase L v [] [])"

definition ownershipLabels :: "golib \<Rightarrow> string \<Rightarrow> string \<Rightarrow> string \<Rightarrow> string go_map" where
  "ownershipLabels L suiteName caseID invocation =
     [(labelManagedBy, ''kontext-eval''), (labelEvalSuite, labelValue L suiteName), (labelEvalCase, labelValue L caseID),
      (labelInvocation, labelValue L invocation)]"

definition hasExactEvaluatorOwnership :: "string go_map \<Rightarrow> string go_map \<Rightarrow> bool" where
  "hasExactEvaluatorOwnership actual expected =
     list_all (\<lambda>n. let v = (case map_of actual n of None \<Rightarrow> [] | Some x \<Rightarrow> x) in
                   v \<noteq> [] \<and> v = (case map_of expected n of None \<Rightarrow> [] | Some x \<Rightarrow> x))
       [labelManagedBy, labelEvalSuite, labelEvalCase, labelInvocation]"

definition newAgentRun :: "string \<Rightarrow> string \<Rightarrow> agent_run_spec \<Rightarrow> string go_map \<Rightarrow> agent_run" where
  "newAgentRun name ns spec labels =
     \<lparr>ar_type_meta = \<lparr>tm_kind = ''AgentRun'', tm_api_version = GroupVersion\<rparr>,
      ar_meta = empty_meta\<lparr>m_name := name, m_namespace := ns, m_labels := labels\<rparr>, ar_spec = spec, ar_status = empty_run_status\<rparr>"

definition empty_agent_run :: "string \<Rightarrow> string \<Rightarrow> agent_run" where
  "empty_agent_run name ns =
     \<lparr>ar_type_meta = \<lparr>tm_kind = [], tm_api_version = []\<rparr>, ar_meta = empty_meta\<lparr>m_name := name, m_namespace := ns\<rparr>,
      ar_spec = \<lparr>rp_agent_ref = None, rp_parameters = None, rp_delivery_port = None, rp_goal = [], rp_provider = [], rp_model = [],
        rp_tools = None, rp_budget = None, rp_secret_ref = None, rp_knowledge_config_map_ref = None, rp_service_account_name = [],
        rp_runtime = empty_runtime, rp_env = None\<rparr>, ar_status = empty_run_status\<rparr>"

subsection \<open>Reading and cleaning up\<close>

abbreviation ctx_Err :: "'s eval_world \<Rightarrow> ('s, string option) eval_io" where "ctx_Err W \<equiv> io_read (ew_ctx_err W)"

abbreviation err_text :: "'s eval_world \<Rightarrow> cerror \<Rightarrow> string" where "err_text W e \<equiv> cerror_text (ew_kube W) e"

fun getWithRetry :: "nat \<Rightarrow> 's eval_world \<Rightarrow> ('s, api_error + 'a) eval_io \<Rightarrow> ('s, 'a) eval_io" where
  "getWithRetry n W get =
     io_bind (io_try (io_bind (ctx_Err W) (\<lambda>e. case e of Some m \<Rightarrow> io_fail (PlainError m) | None \<Rightarrow> io_bind get api_result))) (\<lambda>r. case r of
       Inr x \<Rightarrow> io_return x
     | Inl e \<Rightarrow>
         io_bind (ctx_Err W) (\<lambda>c.
         case n of
           0 \<Rightarrow> io_fail e
         | Suc k \<Rightarrow> if c = None \<and> classifyKubernetesError (ew_errors W) e then getWithRetry k W get else io_fail e))"

declare getWithRetry.simps [simp del]

definition read_run :: "'s eval_world \<Rightarrow> string \<Rightarrow> string \<Rightarrow> ('s, api_error + agent_run) eval_io" where
  "read_run W ns n = io_call (ew_get_run W ns n) (RunRead ns n)"

definition read_pod :: "'s eval_world \<Rightarrow> string \<Rightarrow> string \<Rightarrow> ('s, api_error + pod) eval_io" where
  "read_pod W ns n = io_call (ew_get_pod W ns n) (PodRead ns n)"

definition delete_run :: "'s eval_world \<Rightarrow> agent_run \<Rightarrow> ('s, api_error option) eval_io" where
  "delete_run W r = io_call (ew_delete W r) (RunDeleted r)"

definition deletion_error :: "'s eval_world \<Rightarrow> string \<Rightarrow> api_error option \<Rightarrow> string list" where
  "deletion_error W what e =
     (case e of None \<Rightarrow> [] | Some err \<Rightarrow> if err = NotFound then [] else [what @ '': '' @ api_error_text (ew_kube W) err])"

definition cleanupCreateFailure :: "'s eval_world \<Rightarrow> string \<Rightarrow> string \<Rightarrow> string go_map \<Rightarrow> ('s, string list) eval_io" where
  "cleanupCreateFailure W ns n expectedLabels =
     io_bind (read_run W ns n) (\<lambda>r. case r of
       Inl e \<Rightarrow> io_return (if e = NotFound then [] else [''probe AgentRun after create error: '' @ api_error_text (ew_kube W) e])
     | Inr observed \<Rightarrow>
         if \<not> hasExactEvaluatorOwnership (m_labels (ar_meta observed)) expectedLabels then
           io_return [''AgentRun exists without exact evaluator ownership; left untouched'']
         else io_bind (delete_run W observed) (\<lambda>e. io_return (deletion_error W ''cleanup AgentRun after create error'' e)))"

subsection \<open>Waiting\<close>

definition terminalPhase :: "string \<Rightarrow> bool" where
  "terminalPhase p \<longleftrightarrow> p \<in> {AgentRunPhaseSucceeded, AgentRunPhaseFailed, AgentRunPhaseBudgetExceeded}"

type_synonym wait_answer = "agent_run option \<times> cerror option"

text \<open>One turn of the loop: the answer, or the latest run when the ticker fires.\<close>

definition wait_turn :: "'s eval_world \<Rightarrow> string \<Rightarrow> string \<Rightarrow> agent_run option \<Rightarrow> ('s, wait_answer + agent_run option) eval_io" where
  "wait_turn W ns n latest =
     io_bind (io_try (getWithRetry (ew_read_retries W) W (read_run W ns n))) (\<lambda>r.
     let next = (\<lambda>latest'. io_bind (io_read (ew_tick W)) (\<lambda>e. io_return (case e of
                    Some m \<Rightarrow> Inl (latest', Some (PlainError m)) | None \<Rightarrow> Inr latest'))) in
     case r of
       Inl e \<Rightarrow> if e = ApiErr NotFound then next latest else io_return (Inl (latest, Some e))
     | Inr current \<Rightarrow> if terminalPhase (run_phase current) then io_return (Inl (Some current, None)) else next (Some current))"

partial_function (option) waitForTerminal ::
  "'s eval_world \<Rightarrow> string \<Rightarrow> string \<Rightarrow> agent_run option \<Rightarrow> eval_event list \<Rightarrow> 's \<Rightarrow> ((cerror + wait_answer) \<times> eval_event list \<times> 's) option" where
  "waitForTerminal W ns n latest t s =
     (case wait_turn W ns n latest s of
        (Inr (Inr latest'), t1, s1) \<Rightarrow> waitForTerminal W ns n latest' (t @ t1) s1
      | (Inr (Inl answer), t1, s1) \<Rightarrow> Some (Inr answer, t @ t1, s1)
      | (Inl e, t1, s1) \<Rightarrow> Some (Inl e, t @ t1, s1))"

declare waitForTerminal.simps [code]

subsection \<open>One case\<close>

record case_execution =
  cx_record :: eval_record
  cx_requirements :: artifact_requirements
  cx_run :: "agent_run option"
  cx_pod :: "pod option"
  cx_created :: bool

abbreviation add_errors :: "string list \<Rightarrow> eval_record \<Rightarrow> eval_record" where
  "add_errors es r \<equiv> r\<lparr>er_collection_errors := er_collection_errors r @ es\<rparr>"

definition case_requirements :: "golib \<Rightarrow> (string \<Rightarrow> bool) \<Rightarrow> eval_suite \<Rightarrow> eval_case \<Rightarrow> artifact_requirements go_result" where
  "case_requirements L v su c =
     go_bind (requirementsForGraders L v (ca_graders c)) (\<lambda>q.
     case requirementsForSuiteAssertions L (su_assertions su) (ca_id c) q of
       Inl e \<Rightarrow> Inl (''resolve suite assertion requirements: '' @ e) | Inr q' \<Rightarrow> Inr q')"

definition new_record :: "eval_suite \<Rightarrow> eval_case \<Rightarrow> string \<Rightarrow> string \<Rightarrow> time \<Rightarrow> eval_record" where
  "new_record su c ns name t = \<lparr>er_suite = su_name su, er_case_id = ca_id c, er_description = ca_description c,
     er_run = \<lparr>rf_namespace = ns, rf_name = name, rf_pod_name = []\<rparr>, er_started_at = t, er_completed_at = 0, er_duration_millis = 0,
     er_terminal_phase = [], er_status_result = [], er_status_output = None, er_status_usage = None, er_pod_exit_code = None,
     er_envelope = None, er_events = no_events, er_grades = [], er_judge = None, er_collection_errors = [], er_pass = False\<rparr>"

text \<open>
  Up to the creation of the run.  \<open>Inl\<close>: the case is over and is finalized.  Without a Pod the requirements are of no
  further use.
\<close>

definition start_case :: "'s eval_world \<Rightarrow> 's runner_options \<Rightarrow> eval_suite \<Rightarrow> eval_case \<Rightarrow> ('s, case_execution + case_execution) eval_io" where
  "start_case W o' su c =
     (let L = ew_lib W; ns = eopt_namespace o'; name = NameForCase L (su_name su) (ca_id c) (eopt_invocation_id o');
          labels = ownershipLabels L (su_name su) (ca_id c) (eopt_invocation_id o') in
      io_bind (io_read (ew_now W)) (\<lambda>t.
      let r = new_record su c ns name t in
      case case_requirements L (jc_valid (ew_json W)) su c of
        Inl e \<Rightarrow> io_return (Inl \<lparr>cx_record = add_errors [e] r, cx_requirements = no_requirements, cx_run = None, cx_pod = None, cx_created = False\<rparr>)
      | Inr q \<Rightarrow>
          (let ar = newAgentRun name ns (ca_agent_run c) labels in
           io_bind (io_call (ew_create W ar) (RunCreated ar)) (\<lambda>a. case a of
             Inr ar' \<Rightarrow> io_return (Inr \<lparr>cx_record = r, cx_requirements = q, cx_run = Some ar', cx_pod = None, cx_created = True\<rparr>)
           | Inl e \<Rightarrow>
               io_bind (if e = AlreadyExists then io_return [''AgentRun name collision was left untouched'']
                        else if eopt_keep_runs o' then io_return [] else cleanupCreateFailure W ns name labels) (\<lambda>es.
               io_return (Inl \<lparr>cx_record = add_errors ((''create AgentRun: '' @ api_error_text (ew_kube W) e) # es) r, cx_requirements = q,
                 cx_run = Some ar, cx_pod = None, cx_created = False\<rparr>))))))"

definition record_status :: "artifact_requirements \<Rightarrow> agent_run_status \<Rightarrow> eval_record \<Rightarrow> eval_record" where
  "record_status q st r = r\<lparr>er_terminal_phase := rs_phase st, er_run := (er_run r)\<lparr>rf_pod_name := rs_pod_name st\<rparr>,
     er_status_result := (if aq_status_result q then rs_result st else er_status_result r),
     er_status_usage := (if aq_status_usage q then rs_usage st else er_status_usage r),
     er_status_output := (if aq_status_output q then map_option (\<lambda>v. \<lparr>eo_media_type = os_media_type v, eo_value = os_value v\<rparr>) (rs_output st)
                          else er_status_output r)\<rparr>"

definition observe_case :: "'s eval_world \<Rightarrow> 's runner_options \<Rightarrow> case_execution \<Rightarrow> wait_answer \<Rightarrow> ('s, case_execution) eval_io" where
  "observe_case W o' x a =
     (let (latest, waitErr) = a; q = cx_requirements x;
          errs = (case waitErr of None \<Rightarrow> [] | Some e \<Rightarrow> [''wait for terminal AgentRun: '' @ err_text W e]);
          ar = (case latest of None \<Rightarrow> cx_run x | Some r \<Rightarrow> Some r);
          st = (case ar of None \<Rightarrow> empty_run_status | Some r \<Rightarrow> ar_status r);
          x' = x\<lparr>cx_record := record_status q st (add_errors errs (cx_record x)), cx_run := ar\<rparr> in
      if \<not> aq_pod q then io_return x'
      else if rs_pod_name st = [] then
        io_return (x'\<lparr>cx_record := add_errors [''required runtime Pod name was not recorded''] (cx_record x')\<rparr>)
      else io_bind (io_try (getWithRetry (ew_read_retries W) W (read_pod W (eopt_namespace o') (rs_pod_name st)))) (\<lambda>r. case r of
          Inr p \<Rightarrow> io_return (x'\<lparr>cx_pod := Some p\<rparr>)
        | Inl e \<Rightarrow> io_return (x'\<lparr>cx_record := add_errors [''get required runtime Pod: '' @ err_text W e] (cx_record x')\<rparr>)))"

definition collect_exit_code :: "artifact_requirements \<Rightarrow> pod option \<Rightarrow> eval_record \<Rightarrow> eval_record" where
  "collect_exit_code q p r =
     (if aq_exit_code q then
        add_errors (if p \<noteq> None \<and> podExitCode p = None then [''required runtime container exit code was unavailable''] else [])
          (r\<lparr>er_pod_exit_code := podExitCode p\<rparr>)
      else r)"

definition collect_envelope :: "golib \<Rightarrow> json_codec \<Rightarrow> artifact_requirements \<Rightarrow> pod \<Rightarrow> eval_record \<Rightarrow> eval_record" where
  "collect_envelope L J q p r =
     (if \<not> aq_envelope q then r
      else case runtimeTermination p of
        None \<Rightarrow> add_errors [''required runtime termination message was unavailable''] r
      | Some (_, message) \<Rightarrow>
          (case ParseVersioned L J message of
             Inl VersionedEnvelopeRequired \<Rightarrow>
               add_errors [''required versioned result envelope was absent from runtime termination message''] r
           | Inl (ParseFailed e) \<Rightarrow> add_errors [''parse required runtime termination message: '' @ e] r
           | Inr v \<Rightarrow> r\<lparr>er_envelope := Some (projectEnvelope v q)\<rparr>))"

definition collect_logs :: "'s eval_world \<Rightarrow> artifact_requirements \<Rightarrow> pod \<Rightarrow> eval_record \<Rightarrow> ('s, eval_record) eval_io" where
  "collect_logs W q p r =
     (if \<not> aq_logs q then io_return r
      else case ew_logs W of
        None \<Rightarrow> io_return (add_errors [''required runtime log fetcher is not configured''] r)
      | Some fetch \<Rightarrow>
          (let ns = m_namespace (pod_meta p); n = m_name (pod_meta p) in
           io_bind (io_call (fetch ns n ''runtime'') (LogsRead ns n)) (\<lambda>a. io_return (case a of
             Inl e \<Rightarrow> add_errors [''fetch required runtime logs: '' @ e] r
           | Inr lc \<Rightarrow>
               (let parsed = ParseLogs (ew_lib W) (ew_events W) (lc_data lc) (lc_truncated lc) (aq_event_types q) (aq_event_detail_types q) in
                add_errors (pl_errors parsed) (r\<lparr>er_events := pl_events parsed\<rparr>))))))"

definition collectPodArtifacts :: "'s eval_world \<Rightarrow> case_execution \<Rightarrow> ('s, eval_record) eval_io" where
  "collectPodArtifacts W x =
     (let q = cx_requirements x; r = collect_exit_code q (cx_pod x) (cx_record x) in
      case cx_pod x of
        None \<Rightarrow> io_return r
      | Some p \<Rightarrow> collect_logs W q p (collect_envelope (ew_lib W) (ew_json W) q p r))"

abbreviation MaxJudgeStatusOutputBytes :: nat where "MaxJudgeStatusOutputBytes \<equiv> 16384"

definition observationFor :: "eval_record \<Rightarrow> judge_observation" where
  "observationFor r = \<lparr>jo_suite = er_suite r, jo_case_id = er_case_id r, jo_description = er_description r, jo_terminal_phase = er_terminal_phase r,
     jo_status_result = boundedMessage (er_status_result r),
     jo_status_output = map_option (\<lambda>v. if MaxJudgeStatusOutputBytes < length (eo_value v) then v\<lparr>eo_value := ''null''\<rparr> else v) (er_status_output r),
     jo_envelope = er_envelope r, jo_event_counts = (case es_counts (er_events r) of None \<Rightarrow> [] | Some m \<Rightarrow> m), jo_grades = er_grades r\<rparr>"

definition judge_case :: "'s runner_options \<Rightarrow> bool \<Rightarrow> eval_record \<Rightarrow> ('s, eval_record) eval_io" where
  "judge_case o' created r =
     (case eopt_judge o' of
        Some judge \<Rightarrow>
          if created then
            io_bind (io_call (judge (observationFor r)) (Judged (observationFor r))) (\<lambda>a. io_return (r\<lparr>er_judge := Some (case a of
              Inl e \<Rightarrow> \<lparr>jr_configured = True, jr_pass = False, jr_score = 0, jr_rationale = [], jr_error = boundedMessage e\<rparr>
            | Inr j \<Rightarrow> j)\<rparr>))
          else io_return r
      | None \<Rightarrow> io_return r)"

definition case_verdict :: "eval_record \<Rightarrow> bool" where
  "case_verdict r \<longleftrightarrow> er_collection_errors r = [] \<and> gradesPass (er_grades r) \<and>
     (case er_judge r of None \<Rightarrow> True | Some j \<Rightarrow> jr_error j = [] \<and> jr_pass j)"

definition cleanup_case :: "'s eval_world \<Rightarrow> 's runner_options \<Rightarrow> case_execution \<Rightarrow> eval_record \<Rightarrow> ('s, eval_record) eval_io" where
  "cleanup_case W o' x r =
     (if cx_created x \<and> \<not> eopt_keep_runs o' then
        (let target = (case cx_run x of
             Some ar \<Rightarrow> ar
           | None \<Rightarrow> empty_agent_run (rf_name (er_run r)) (rf_namespace (er_run r))) in
         io_bind (delete_run W target) (\<lambda>e. io_return (add_errors (deletion_error W ''cleanup AgentRun'' e) r)))
      else io_return r)"

text \<open>The end of \<^verbatim>\<open>finalize\<close>: the state of the context, the deletion of the run and the verdict.\<close>

definition close_case :: "'s eval_world \<Rightarrow> 's runner_options \<Rightarrow> case_execution \<Rightarrow> eval_record \<Rightarrow> ('s, eval_record) eval_io" where
  "close_case W o' x r =
     io_bind (ctx_Err W) (\<lambda>e.
     let r = (case e of
                None \<Rightarrow> r
              | Some m \<Rightarrow> if containsCollectionError (er_collection_errors r) m then r else add_errors [''case context ended: '' @ m] r) in
     io_bind (cleanup_case W o' x r) (\<lambda>r. io_return (r\<lparr>er_pass := case_verdict r\<rparr>)))"

definition finalize :: "'s eval_world \<Rightarrow> 's runner_options \<Rightarrow> eval_case \<Rightarrow> case_execution \<Rightarrow> ('s, eval_record) eval_io" where
  "finalize W o' c x =
     io_bind (ctx_Err W) (\<lambda>_.
     io_bind (collectPodArtifacts W x) (\<lambda>r.
     io_bind (io_read (ew_now W)) (\<lambda>t.
     let r = r\<lparr>er_completed_at := t, er_duration_millis := milliseconds (time_sub t (er_started_at r))\<rparr>;
         r = GradeRecord (ew_lib W) (jc_valid (ew_json W)) (ca_graders c) r in
     io_bind (judge_case o' (cx_created x) r) (close_case W o' x))))"

definition runCase ::
  "'s eval_world \<Rightarrow> 's runner_options \<Rightarrow> eval_suite \<Rightarrow> eval_case \<Rightarrow> 's \<Rightarrow> ((cerror + eval_record) \<times> eval_event list \<times> 's) option" where
  "runCase W o' su c s =
     (let after = (\<lambda>t (r, t', s'). Some (r, t @ t', s')) in
      case start_case W o' su c s of
        (Inl e, t, s1) \<Rightarrow> Some (Inl e, t, s1)
      | (Inr (Inl x), t, s1) \<Rightarrow> after t (finalize W o' c x s1)
      | (Inr (Inr x), t, s1) \<Rightarrow>
          (case waitForTerminal W (eopt_namespace o') (NameForCase (ew_lib W) (su_name su) (ca_id c) (eopt_invocation_id o')) None t s1 of
             None \<Rightarrow> None
           | Some (Inl e, t2, s2) \<Rightarrow> Some (Inl e, t2, s2)
           | Some (Inr a, t2, s2) \<Rightarrow> after t2 (io_bind (observe_case W o' x a) (finalize W o' c) s2)))"

fun run_cases ::
  "'s eval_world \<Rightarrow> 's runner_options \<Rightarrow> eval_suite \<Rightarrow> eval_case list \<Rightarrow> 's \<Rightarrow> ((cerror + eval_record list) \<times> eval_event list \<times> 's) option" where
  "run_cases W o' su [] s = Some (Inr [], [], s)"
| "run_cases W o' su (c # cs) s =
     (case runCase W o' su c s of
        None \<Rightarrow> None
      | Some (Inl e, t, s1) \<Rightarrow> Some (Inl e, t, s1)
      | Some (Inr r, t, s1) \<Rightarrow>
          (case run_cases W o' su cs s1 of
             None \<Rightarrow> None
           | Some (Inl e, t', s2) \<Rightarrow> Some (Inl e, t @ t', s2)
           | Some (Inr rs, t', s2) \<Rightarrow> Some (Inr (r # rs), t @ t', s2)))"

definition RunSuite ::
  "'s eval_world \<Rightarrow> 's runner_options \<Rightarrow> eval_suite \<Rightarrow> 's \<Rightarrow> ((cerror + eval_record list) \<times> eval_event list \<times> 's) option" where
  "RunSuite W o' su s =
     (case normalizeRunnerOptions W o' (su_defaults su) s of
        (Inl e, t, s1) \<Rightarrow> Some (Inl e, t, s1)
      | (Inr o'', t, s1) \<Rightarrow> run_cases W o'' su (su_cases su) s1)"

end
