(* ===== verification/Eval_Verdict.thy ===== *)
theory Eval_Verdict
  imports Eval_Runner
begin

text \<open>
  What the runner guarantees.  Its parts are described for every world by \<open>holds\<close>, the waiting loop through the
  interpretation \<open>wait_loop\<close> of \<open>step_loop\<close>; the theorems put them together: a case that passes was observed to the end
  and meets every grader, only the run of the case is deleted, and a suite passes only when all of that holds of every
  case.
\<close>

subsection \<open>Reading\<close>

lemma getWithRetry_reads:
  "holds (getWithRetry k W (io_call f ev)) (\<lambda>r t. set t \<subseteq> range ev \<and> (\<forall>x. r = Inr x \<longrightarrow> ev (Inr x) \<in> set t))"
proof (induction k)
  case 0
  show ?case by (subst getWithRetry.simps) (auto intro!: io_rules split: option.split sum.split)
next
  case (Suc k)
  show ?case
    by (subst getWithRetry.simps) (auto intro!: io_rules Suc [THEN holds_mono] split: option.split sum.split)
qed

definition reads_of :: "string \<Rightarrow> string \<Rightarrow> eval_event list \<Rightarrow> bool" where
  "reads_of ns n t \<longleftrightarrow> set t \<subseteq> range (RunRead ns n)"

definition seen_run :: "string \<Rightarrow> string \<Rightarrow> eval_event list \<Rightarrow> agent_run option \<Rightarrow> bool" where
  "seen_run ns n t l \<longleftrightarrow> (\<forall>c. l = Some c \<longrightarrow> RunRead ns n (Inr c) \<in> set t)"

definition answer_ok :: "string \<Rightarrow> string \<Rightarrow> eval_event list \<Rightarrow> wait_answer \<Rightarrow> bool" where
  "answer_ok ns n t a \<longleftrightarrow> seen_run ns n t (fst a) \<and> (snd a = None \<longrightarrow> (\<exists>c. fst a = Some c \<and> terminalPhase (run_phase c)))"

lemma reads_of_simps [simp]: "reads_of ns n []" "reads_of ns n (t @ u) \<longleftrightarrow> reads_of ns n t \<and> reads_of ns n u"
  by (auto simp: reads_of_def)

lemma wait_turn_does:
  assumes "seen_run ns n t0 latest"
  shows "holds (wait_turn W ns n latest) (\<lambda>r t. reads_of ns n t \<and>
    (case r of Inl _ \<Rightarrow> False | Inr (Inl a) \<Rightarrow> answer_ok ns n (t0 @ t) a | Inr (Inr l) \<Rightarrow> seen_run ns n (t0 @ t) l))"
  unfolding wait_turn_def read_run_def Let_def
  by (intro holds_bind holds_try getWithRetry_reads [THEN holds_mono])
     (auto intro!: io_rules simp: reads_of_def answer_ok_def seen_run_def assms [unfolded seen_run_def] split: sum.split option.split)

subsection \<open>The waiting loop\<close>

type_synonym 's wait_config = "agent_run option \<times> eval_event list \<times> 's"

definition wait_step ::
  "'s eval_world \<Rightarrow> string \<Rightarrow> string \<Rightarrow> 's wait_config \<Rightarrow> ((cerror + wait_answer) \<times> eval_event list \<times> 's) + 's wait_config" where
  "wait_step W ns n = (\<lambda>(latest, t, s).
     case wait_turn W ns n latest s of
       (Inr (Inr latest'), t1, s1) \<Rightarrow> Inr (latest', t @ t1, s1)
     | (Inr (Inl answer), t1, s1) \<Rightarrow> Inl (Inr answer, t @ t1, s1)
     | (Inl e, t1, s1) \<Rightarrow> Inl (Inl e, t @ t1, s1))"

interpretation wait_loop: step_loop "wait_step W ns n" "\<lambda>(latest, t, s). waitForTerminal W ns n latest t s" for W ns n
proof (unfold_locales, goal_cases)
  case (1 x)
  obtain l t s where x: "x = (l, t, s)" by (cases x)
  show ?case unfolding x case_prod_conv wait_step_def
    by (subst waitForTerminal.simps) (auto split: prod.splits sum.splits)
next
  case (2 P x r)
  obtain l t s where x: "x = (l, t, s)" by (cases x)
  have "P (l, t, s) r" if "waitForTerminal W ns n l t s = Some r"
    using that 2(1,2)
  proof (induction W ns n l t s r rule: waitForTerminal.raw_induct [rotated, consumes 1])
    case (1 loop W ns n l t s r)
    obtain res t1 s1 where turn: "wait_turn W ns n l s = (res, t1, s1)" by (cases "wait_turn W ns n l s")
    show ?case
    proof (cases "\<exists>l'. res = Inr (Inr l')")
      case True
      then obtain l' where l': "res = Inr (Inr l')" by blast
      with turn 1(2) have "loop W ns n l' (t @ t1) s1 = Some r" by simp
      from 1(1) [OF this 1(3,4)] have "P (l', t @ t1, s1) r" .
      then show ?thesis by (rule 1(4) [rotated]) (simp add: wait_step_def turn l')
    next
      case False
      with turn 1(2) show ?thesis by (intro 1(3)) (auto simp: wait_step_def split: sum.splits)
    qed
  qed
  with 2 x show ?case by simp
qed

lemma waitForTerminal_answers:
  assumes "waitForTerminal W ns n None t s = Some (r, t', s')"
  shows "\<exists>a u. r = Inr a \<and> t' = t @ u \<and> reads_of ns n u \<and> answer_ok ns n u a"
proof -
  let ?good = "\<lambda>(l, t1, s1 :: 'a). \<exists>u. t1 = t @ u \<and> reads_of ns n u \<and> seen_run ns n u l"
  let ?post = "\<lambda>(r, t1, s1 :: 'a). \<exists>a u. r = Inr a \<and> t1 = t @ u \<and> reads_of ns n u \<and> answer_ok ns n u a"
  have "?post (r, t', s')"
  proof (rule wait_loop.partial_correctness [of W ns n "(None, t, s)" _ ?good])
    show "(case (None, t, s) of (l, t, s) \<Rightarrow> waitForTerminal W ns n l t s) = Some (r, t', s')" using assms by simp
    show "?good (None, t, s)" by (auto simp: seen_run_def intro: exI [of _ "[]"])
  next
    fix x x' assume good: "?good x" and step: "wait_step W ns n x = Inr x'"
    obtain l u s1 where x: "x = (l, t @ u, s1)" "reads_of ns n u" "seen_run ns n u l" using good by auto
    from step x(1) obtain l' t1 s2 where turn: "wait_turn W ns n l s1 = (Inr (Inr l'), t1, s2)" "x' = (l', (t @ u) @ t1, s2)"
      by (auto simp: wait_step_def split: prod.splits sum.splits)
    from holdsD [OF wait_turn_does [OF x(3)] turn(1)] x(2) turn(2) show "?good x'" by auto
  next
    fix x y assume good: "?good x" and step: "wait_step W ns n x = Inl y"
    obtain l u s1 where x: "x = (l, t @ u, s1)" "reads_of ns n u" "seen_run ns n u l" using good by auto
    obtain res t1 s2 where turn: "wait_turn W ns n l s1 = (res, t1, s2)" by (cases "wait_turn W ns n l s1")
    from holdsD [OF wait_turn_does [OF x(3)] turn] x(2) step x(1) turn show "?post y"
      by (auto simp: wait_step_def split: sum.splits)
  qed
  then show ?thesis by simp
qed

text \<open>Waiting ends when the context does: some measure of the world decreases with every tick and no read increases it.\<close>

lemma waitForTerminal_returns:
  assumes tick: "\<And>s s'. ew_tick W s = (None, s') \<Longrightarrow> m s' < (m s :: nat)"
    and err: "\<And>s e s'. ew_ctx_err W s = (e, s') \<Longrightarrow> m s' \<le> m s"
    and get: "\<And>s a s'. ew_get_run W ns n s = (a, s') \<Longrightarrow> m s' \<le> m s"
  shows "\<exists>a. waitForTerminal W ns n l t s = Some a"
proof -
  have reads: "getWithRetry k W (read_run W ns n) s0 = (r, u, s1) \<Longrightarrow> m s1 \<le> m s0" for k s0 r u s1
  proof (induction k arbitrary: s0 r u s1)
    case 0
    then show ?case
      by (subst (asm) getWithRetry.simps)
         (auto simp: io_bind_def io_try_def io_read_def io_fail_def io_return_def read_run_def io_call_def api_result_def
           dest!: err get split: prod.splits option.splits sum.splits)
  next
    case (Suc k)
    from Suc.prems show ?case
      by (subst (asm) getWithRetry.simps)
         (auto simp: io_bind_def io_try_def io_read_def io_fail_def io_return_def read_run_def io_call_def api_result_def
           dest!: err get Suc.IH [unfolded read_run_def] split: prod.splits option.splits sum.splits if_splits)
  qed
  have "\<exists>a. (case (l, t, s) of (l, t, s) \<Rightarrow> waitForTerminal W ns n l t s) = Some a"
  proof (rule wait_loop.returns [where good = "\<lambda>_. True" and m = "\<lambda>(l, t, s). m s"])
    fix x x' assume "wait_step W ns n x = Inr x'"
    then show "True \<and> (case x' of (l, t, s) \<Rightarrow> m s) < (case x of (l, t, s) \<Rightarrow> m s)"
      by (cases x) (auto simp: wait_step_def wait_turn_def io_bind_def io_try_def io_read_def io_return_def Let_def
          dest!: tick reads split: prod.splits sum.splits if_splits option.splits)
  qed simp
  then show ?thesis by simp
qed

subsection \<open>The phases of a case\<close>

text \<open>The run a case creates, and which deletions are legitimate after a history.\<close>

definition case_run :: "'s eval_world \<Rightarrow> 's runner_options \<Rightarrow> eval_suite \<Rightarrow> eval_case \<Rightarrow> agent_run" where
  "case_run W o' su c = newAgentRun (NameForCase (ew_lib W) (su_name su) (ca_id c) (eopt_invocation_id o')) (eopt_namespace o') (ca_agent_run c)
     (ownershipLabels (ew_lib W) (su_name su) (ca_id c) (eopt_invocation_id o'))"

abbreviation case_name :: "'s eval_world \<Rightarrow> 's runner_options \<Rightarrow> eval_suite \<Rightarrow> eval_case \<Rightarrow> string" where
  "case_name W o' su c \<equiv> NameForCase (ew_lib W) (su_name su) (ca_id c) (eopt_invocation_id o')"

definition probe_owned :: "'s eval_world \<Rightarrow> 's runner_options \<Rightarrow> eval_suite \<Rightarrow> eval_case \<Rightarrow> eval_event list \<Rightarrow> agent_run \<Rightarrow> bool" where
  "probe_owned W o' su c t y \<longleftrightarrow>
     RunRead (eopt_namespace o') (case_name W o' su c) (Inr y) \<in> set t \<and>
     hasExactEvaluatorOwnership (m_labels (ar_meta y)) (ownershipLabels (ew_lib W) (su_name su) (ca_id c) (eopt_invocation_id o'))"

fun deletes_run :: "eval_event \<Rightarrow> bool" where
  "deletes_run (RunDeleted _ _) = True" | "deletes_run _ = False"

fun creates_run :: "eval_event \<Rightarrow> bool" where
  "creates_run (RunCreated _ _) = True" | "creates_run _ = False"

definition started :: "'s eval_world \<Rightarrow> 's runner_options \<Rightarrow> eval_suite \<Rightarrow> eval_case \<Rightarrow> case_execution \<Rightarrow> eval_event list \<Rightarrow> bool" where
  "started W o' su c x t \<longleftrightarrow> (\<exists>ar t0 q. t = [RunCreated (case_run W o' su c) (Inr ar)] \<and>
     case_requirements (ew_lib W) (jc_valid (ew_json W)) su c = Inr q \<and>
     x = \<lparr>cx_record = new_record su c (eopt_namespace o') (case_name W o' su c) t0, cx_requirements = q,
          cx_run = Some ar, cx_pod = None, cx_created = True\<rparr>)"

definition refused :: "'s eval_world \<Rightarrow> 's runner_options \<Rightarrow> eval_suite \<Rightarrow> eval_case \<Rightarrow> case_execution \<Rightarrow> eval_event list \<Rightarrow> bool" where
  "refused W o' su c x t \<longleftrightarrow> \<not> cx_created x \<and> er_collection_errors (cx_record x) \<noteq> [] \<and>
     (\<forall>y a. RunDeleted y a \<in> set t \<longrightarrow> \<not> eopt_keep_runs o' \<and> probe_owned W o' su c t y) \<and>
     (filter creates_run t = [] \<or> (\<exists>e. filter creates_run t = [RunCreated (case_run W o' su c) (Inl e)]))"

lemma cleanupCreateFailure_does:
  "holds (cleanupCreateFailure W ns n labels) (\<lambda>r t. (\<exists>es. r = Inr es) \<and> filter creates_run t = [] \<and>
     (\<forall>y a. RunDeleted y a \<in> set t \<longrightarrow> RunRead ns n (Inr y) \<in> set t \<and> hasExactEvaluatorOwnership (m_labels (ar_meta y)) labels))"
  unfolding cleanupCreateFailure_def read_run_def delete_run_def
  by (auto intro!: io_rules split: sum.split)

lemma start_case_does:
  "holds (start_case W o' su c) (\<lambda>r t. case r of Inl _ \<Rightarrow> False | Inr (Inl x) \<Rightarrow> refused W o' su c x t | Inr (Inr x) \<Rightarrow> started W o' su c x t)"
proof -
  let ?Q = "\<lambda>r t. case r of Inl _ \<Rightarrow> False | Inr (Inl x) \<Rightarrow> refused W o' su c x t | Inr (Inr x) \<Rightarrow> started W o' su c x t"
  let ?ns = "eopt_namespace o'" and ?n = "case_name W o' su c"
    and ?labels = "ownershipLabels (ew_lib W) (su_name su) (ca_id c) (eopt_invocation_id o')"
  have cleanup: "holds (if e = AlreadyExists then io_return [''AgentRun name collision was left untouched'']
      else if eopt_keep_runs o' then io_return [] else cleanupCreateFailure W ?ns ?n ?labels)
    (\<lambda>r t. (\<exists>es. r = Inr es) \<and> filter creates_run t = [] \<and>
      (\<forall>y a. RunDeleted y a \<in> set t \<longrightarrow> \<not> eopt_keep_runs o' \<and> probe_owned W o' su c t y))" for e
    by (auto intro!: io_rules cleanupCreateFailure_does [THEN holds_mono] simp: probe_owned_def)
  show ?thesis unfolding start_case_def Let_def
    apply (intro holds_bind holds_read)
    apply (simp only: sum.case append_Nil)
    apply (rule holds_sum)
    subgoal by (auto intro!: io_rules simp: refused_def new_record_def)
    subgoal for t0 q
      apply (intro holds_bind holds_call)
      apply (simp only: sum.case append_Nil)
      apply (rule holds_sum)
      subgoal for a e
        by (intro holds_bind cleanup [THEN holds_mono])
           (auto intro!: io_rules simp: refused_def probe_owned_def case_run_def new_record_def)
      subgoal for a ar by (auto intro!: io_rules simp: started_def case_run_def)
      done
    done
qed

definition quiet_case :: "eval_event list \<Rightarrow> bool" where
  "quiet_case t \<longleftrightarrow> filter creates_run t = [] \<and> filter deletes_run t = []"

lemma quiet_case_simps [simp]:
  "quiet_case []" "quiet_case (t @ u) \<longleftrightarrow> quiet_case t \<and> quiet_case u" "quiet_case (e # t) \<longleftrightarrow> \<not> creates_run e \<and> \<not> deletes_run e \<and> quiet_case t"
  by (auto simp: quiet_case_def)

lemma reads_quiet: "reads_of ns n t \<Longrightarrow> quiet_case t" "set t \<subseteq> range (PodRead ns n) \<Longrightarrow> quiet_case t"
  by (auto simp: reads_of_def quiet_case_def filter_empty_conv)

text \<open>The record after the run was observed, when no error was collected.\<close>

definition observed :: "'s runner_options \<Rightarrow> case_execution \<Rightarrow> wait_answer \<Rightarrow> case_execution \<Rightarrow> eval_event list \<Rightarrow> bool" where
  "observed o' x a x' t \<longleftrightarrow> (\<exists>ar. a = (Some ar, None) \<and> cx_requirements x' = cx_requirements x \<and> cx_run x' = Some ar \<and>
     cx_record x' = record_status (cx_requirements x) (ar_status ar) (cx_record x) \<and> er_collection_errors (cx_record x) = [] \<and>
     (aq_pod (cx_requirements x) \<longrightarrow> (\<exists>p. cx_pod x' = Some p \<and> PodRead (eopt_namespace o') (rs_pod_name (ar_status ar)) (Inr p) \<in> set t)) \<and>
     (\<not> aq_pod (cx_requirements x) \<longrightarrow> cx_pod x' = cx_pod x))"

lemma observe_case_does:
  assumes "snd a = None \<Longrightarrow> fst a \<noteq> None"
  shows "holds (observe_case W o' x a) (\<lambda>r t. quiet_case t \<and> (\<exists>x'. r = Inr x' \<and> cx_created x' = cx_created x \<and>
    (cx_run x' = cx_run x \<or> (fst a \<noteq> None \<and> cx_run x' = fst a)) \<and> (er_collection_errors (cx_record x') = [] \<longrightarrow> observed o' x a x' t)))"
proof (cases a)
  case (Pair l e)
  with assms show ?thesis unfolding observe_case_def Let_def read_pod_def Pair
    by (auto intro!: io_rules getWithRetry_reads [THEN holds_mono] dest: reads_quiet(2)
        simp: observed_def record_status_def split: option.split sum.split)
qed

subsection \<open>Collection and grading\<close>

lemma collect_exit_code_fields [simp]:
  "er_terminal_phase (collect_exit_code q p r) = er_terminal_phase r" "er_status_result (collect_exit_code q p r) = er_status_result r"
  "er_status_usage (collect_exit_code q p r) = er_status_usage r" "er_status_output (collect_exit_code q p r) = er_status_output r"
  "er_started_at (collect_exit_code q p r) = er_started_at r" "aq_exit_code q \<Longrightarrow> er_pod_exit_code (collect_exit_code q p r) = podExitCode p"
  by (simp_all add: collect_exit_code_def)

lemma collect_exit_code_errors: "er_collection_errors (collect_exit_code q p r) = [] \<Longrightarrow> er_collection_errors r = []"
  by (simp add: collect_exit_code_def split: if_splits)

text \<open>What the artifacts of a Pod add to a record, when no error was collected.\<close>

definition artifacts_ok :: "'s eval_world \<Rightarrow> artifact_requirements \<Rightarrow> pod \<Rightarrow> eval_record \<Rightarrow> eval_event list \<Rightarrow> bool" where
  "artifacts_ok W q p r t \<longleftrightarrow>
     (aq_envelope q \<longrightarrow> (\<exists>code message v. runtimeTermination p = Some (code, message) \<and>
        ParseVersioned (ew_lib W) (ew_json W) message = Inr v \<and> er_envelope r = Some (projectEnvelope v q))) \<and>
     (aq_logs q \<longrightarrow> (\<exists>lc. LogsRead (m_namespace (pod_meta p)) (m_name (pod_meta p)) (Inr lc) \<in> set t \<and>
        (let parsed = ParseLogs (ew_lib W) (ew_events W) (lc_data lc) (lc_truncated lc) (aq_event_types q) (aq_event_detail_types q) in
         pl_errors parsed = [] \<and> er_events r = pl_events parsed)))"

definition same_status :: "eval_record \<Rightarrow> eval_record \<Rightarrow> bool" where
  "same_status r r' \<longleftrightarrow> er_terminal_phase r' = er_terminal_phase r \<and> er_status_result r' = er_status_result r \<and>
     er_status_usage r' = er_status_usage r \<and> er_status_output r' = er_status_output r \<and> er_started_at r' = er_started_at r"

lemma collect_envelope_does:
  assumes "r' = collect_envelope L J q p r"
  shows "same_status r r'" "er_pod_exit_code r' = er_pod_exit_code r"
    "er_collection_errors r' = [] \<Longrightarrow> er_collection_errors r = [] \<and>
       (aq_envelope q \<longrightarrow> (\<exists>code message v. runtimeTermination p = Some (code, message) \<and> ParseVersioned L J message = Inr v \<and>
          er_envelope r' = Some (projectEnvelope v q)))"
  unfolding assms collect_envelope_def same_status_def
  by (auto split: if_splits option.splits prod.splits sum.splits parse_error.splits)

lemma collect_logs_does:
  "holds (collect_logs W q p r) (\<lambda>a t. quiet_case t \<and> (\<exists>r'. a = Inr r' \<and> same_status r r' \<and> er_pod_exit_code r' = er_pod_exit_code r \<and>
     er_envelope r' = er_envelope r \<and>
     (er_collection_errors r' = [] \<longrightarrow> er_collection_errors r = [] \<and>
       (aq_logs q \<longrightarrow> (\<exists>lc. LogsRead (m_namespace (pod_meta p)) (m_name (pod_meta p)) (Inr lc) \<in> set t \<and>
         (let parsed = ParseLogs (ew_lib W) (ew_events W) (lc_data lc) (lc_truncated lc) (aq_event_types q) (aq_event_detail_types q) in
          pl_errors parsed = [] \<and> er_events r' = pl_events parsed))))))"
  unfolding collect_logs_def Let_def
  by (auto intro!: io_rules simp: same_status_def split: option.split sum.split)

lemma same_status_trans: "same_status r r' \<Longrightarrow> same_status r' r'' \<Longrightarrow> same_status r r''"
  by (simp add: same_status_def)

lemma collectPodArtifacts_does:
  "holds (collectPodArtifacts W x) (\<lambda>a t. quiet_case t \<and> (\<exists>r. a = Inr r \<and>
     (er_collection_errors r = [] \<longrightarrow> er_collection_errors (cx_record x) = [] \<and> same_status (cx_record x) r \<and>
        (aq_exit_code (cx_requirements x) \<longrightarrow> er_pod_exit_code r = podExitCode (cx_pod x)) \<and>
        (\<forall>p. cx_pod x = Some p \<longrightarrow> artifacts_ok W (cx_requirements x) p r t))))"
proof (cases "cx_pod x")
  case None
  then show ?thesis unfolding collectPodArtifacts_def Let_def
    by (auto intro!: io_rules dest: collect_exit_code_errors simp: same_status_def)
next
  case (Some p)
  let ?q = "cx_requirements x"
  let ?r = "collect_exit_code ?q (Some p) (cx_record x)"
  let ?e = "collect_envelope (ew_lib W) (ew_json W) ?q p ?r"
  note env = collect_envelope_does [where L = "ew_lib W" and J = "ew_json W" and q = ?q and p = p and r = ?r, OF refl]
  show ?thesis unfolding collectPodArtifacts_def Let_def Some option.case
  proof (rule collect_logs_does [THEN holds_mono], elim conjE exE)
    fix a t r'
    assume q: "quiet_case t" and a: "a = Inr r'" and st: "same_status ?e r'" and ex: "er_pod_exit_code r' = er_pod_exit_code ?e"
      and en: "er_envelope r' = er_envelope ?e"
      and ok: "er_collection_errors r' = [] \<longrightarrow> er_collection_errors ?e = [] \<and>
       (aq_logs ?q \<longrightarrow> (\<exists>lc. LogsRead (m_namespace (pod_meta p)) (m_name (pod_meta p)) (Inr lc) \<in> set t \<and>
         (let parsed = ParseLogs (ew_lib W) (ew_events W) (lc_data lc) (lc_truncated lc) (aq_event_types ?q) (aq_event_detail_types ?q) in
          pl_errors parsed = [] \<and> er_events r' = pl_events parsed)))"
    have "same_status (cx_record x) ?r" by (simp add: same_status_def)
    from same_status_trans [OF same_status_trans [OF this env(1)] st] have "same_status (cx_record x) r'" .
    with q a ex en ok env(2,3)
    show "quiet_case t \<and> (\<exists>r. a = Inr r \<and> (er_collection_errors r = [] \<longrightarrow> er_collection_errors (cx_record x) = [] \<and> same_status (cx_record x) r \<and>
        (aq_exit_code ?q \<longrightarrow> er_pod_exit_code r = podExitCode (Some p)) \<and> (\<forall>p'. Some p = Some p' \<longrightarrow> artifacts_ok W ?q p' r t)))"
      by (auto simp: artifacts_ok_def simp del: podExitCode.simps dest!: collect_exit_code_errors)
  qed
qed

text \<open>What a passing record shows of the execution it finalizes.\<close>

definition case_graded :: "'s eval_world \<Rightarrow> eval_case \<Rightarrow> case_execution \<Rightarrow> eval_record \<Rightarrow> eval_event list \<Rightarrow> bool" where
  "case_graded W c x r t \<longleftrightarrow> (\<exists>r1. er_collection_errors (cx_record x) = [] \<and> same_status (cx_record x) r1 \<and>
     (aq_exit_code (cx_requirements x) \<longrightarrow> er_pod_exit_code r1 = podExitCode (cx_pod x)) \<and>
     (\<forall>p. cx_pod x = Some p \<longrightarrow> artifacts_ok W (cx_requirements x) p r1 t) \<and> er_duration_millis r1 = er_duration_millis r \<and>
     (\<forall>g\<in>set (ca_graders c). gd_pass (grade (ew_lib W) (jc_valid (ew_json W)) r1 g)))"

definition judge_ok :: "'s runner_options \<Rightarrow> bool \<Rightarrow> eval_record \<Rightarrow> bool" where
  "judge_ok o' created r \<longleftrightarrow> (created \<and> eopt_judge o' \<noteq> None \<longrightarrow> (\<exists>j. er_judge r = Some j \<and> jr_pass j \<and> jr_error j = []))"

lemma artifacts_ok_more: "artifacts_ok W q p r t \<Longrightarrow> artifacts_ok W q p r (t @ u)"
  by (auto simp: artifacts_ok_def)

lemma artifacts_ok_fields [simp]:
  "artifacts_ok W q p (r\<lparr>er_completed_at := a\<rparr>) t = artifacts_ok W q p r t" "artifacts_ok W q p (r\<lparr>er_duration_millis := b\<rparr>) t = artifacts_ok W q p r t"
  by (simp_all add: artifacts_ok_def)

lemma judge_case_does:
  "holds (judge_case o' created r) (\<lambda>a t. quiet_case t \<and>
     (\<exists>j. a = Inr (r\<lparr>er_judge := j\<rparr>) \<and> (created \<and> eopt_judge o' \<noteq> None \<longrightarrow> j \<noteq> None)))"
proof (cases "created \<and> eopt_judge o' \<noteq> None")
  case False
  then have "judge_case o' created r = io_return r" by (auto simp: judge_case_def split: option.split)
  with False show ?thesis by (simp only:) (rule holds_return, simp, rule exI [of _ "er_judge r"], simp)
next
  case True
  then obtain judge where "eopt_judge o' = Some judge" by auto
  with True show ?thesis unfolding judge_case_def
    by (simp, intro holds_bind holds_call) (simp, intro holds_return, simp, rule exI, rule conjI, rule refl, simp)
qed

lemma cleanup_case_does:
  "holds (cleanup_case W o' x r) (\<lambda>a t. filter creates_run t = [] \<and> (\<exists>es. a = Inr (add_errors es r)) \<and>
     (\<forall>y e. RunDeleted y e \<in> set t \<longrightarrow> cx_created x \<and> \<not> eopt_keep_runs o' \<and> (\<forall>z. cx_run x = Some z \<longrightarrow> y = z)))"
proof (cases "cx_created x \<and> \<not> eopt_keep_runs o'")
  case False
  then have "cleanup_case W o' x r = io_return r" by (auto simp: cleanup_case_def)
  then show ?thesis by (simp only:) (rule holds_return, simp, rule exI [of _ "[]"], simp)
next
  case True
  then show ?thesis unfolding cleanup_case_def Let_def delete_run_def
    by (simp, intro holds_bind holds_call) (simp, intro holds_return, auto)
qed

lemma close_case_does:
  "holds (close_case W o' x r) (\<lambda>a t. filter creates_run t = [] \<and>
     (\<exists>es. a = Inr ((add_errors es r)\<lparr>er_pass := case_verdict (add_errors es r)\<rparr>)) \<and>
     (\<forall>y e. RunDeleted y e \<in> set t \<longrightarrow> cx_created x \<and> \<not> eopt_keep_runs o' \<and> (\<forall>z. cx_run x = Some z \<longrightarrow> y = z)))"
  unfolding close_case_def Let_def
proof (rule holds_bind, rule holds_read, unfold sum.case append_Nil)
  fix e
  obtain es where es: "(case e of None \<Rightarrow> r | Some m \<Rightarrow> if containsCollectionError (er_collection_errors r) m then r
      else add_errors [''case context ended: '' @ m] r) = add_errors es r"
  proof (cases e)
    case None
    then show ?thesis by (intro that [of "[]"]) simp
  next
    case (Some m)
    then show ?thesis
      by (intro that [of "if containsCollectionError (er_collection_errors r) m then [] else [''case context ended: '' @ m]"]) simp
  qed
  show "holds (io_bind (cleanup_case W o' x (case e of None \<Rightarrow> r | Some m \<Rightarrow> if containsCollectionError (er_collection_errors r) m then r
        else add_errors [''case context ended: '' @ m] r)) (\<lambda>r. io_return (r\<lparr>er_pass := case_verdict r\<rparr>)))
     (\<lambda>a t. filter creates_run t = [] \<and> (\<exists>es. a = Inr ((add_errors es r)\<lparr>er_pass := case_verdict (add_errors es r)\<rparr>)) \<and>
     (\<forall>y e. RunDeleted y e \<in> set t \<longrightarrow> cx_created x \<and> \<not> eopt_keep_runs o' \<and> (\<forall>z. cx_run x = Some z \<longrightarrow> y = z)))"
    unfolding es
  proof (rule holds_bind, rule cleanup_case_does [THEN holds_mono], elim conjE exE, hypsubst, unfold sum.case, rule holds_return, intro conjI)
    fix t es'
    show "\<exists>ks. Inr ((add_errors es' (add_errors es r))\<lparr>er_pass := case_verdict (add_errors es' (add_errors es r))\<rparr>) =
      Inr ((add_errors ks r)\<lparr>er_pass := case_verdict (add_errors ks r)\<rparr>)"
      by (rule exI [of _ "es @ es'"]) simp
  qed simp_all
qed

definition finalized :: "'s eval_world \<Rightarrow> 's runner_options \<Rightarrow> eval_case \<Rightarrow> case_execution \<Rightarrow> cerror + eval_record \<Rightarrow> eval_event list \<Rightarrow> bool" where
  "finalized W o' c x a t \<longleftrightarrow> filter creates_run t = [] \<and>
     (\<forall>y e. RunDeleted y e \<in> set t \<longrightarrow> cx_created x \<and> \<not> eopt_keep_runs o' \<and> (\<forall>z. cx_run x = Some z \<longrightarrow> y = z)) \<and>
     (\<exists>r. a = Inr r \<and> (er_pass r \<longrightarrow> er_collection_errors r = [] \<and> judge_ok o' (cx_created x) r \<and> case_graded W c x r t))"

lemma quiet_creates: "quiet_case t \<Longrightarrow> filter creates_run t = []" "quiet_case t \<Longrightarrow> RunDeleted y e \<notin> set t"
  by (auto simp: quiet_case_def filter_empty_conv)

text \<open>The verdict is taken on the graded record, whatever errors the end of the case adds.\<close>

lemma verdict_graded:
  assumes r1: "r1 = r\<lparr>er_completed_at := t0, er_duration_millis := d\<rparr>"
    and r2: "r2 = (GradeRecord (ew_lib W) (jc_valid (ew_json W)) (ca_graders c) r1)\<lparr>er_judge := j\<rparr>"
    and r3: "r3 = (add_errors es r2)\<lparr>er_pass := case_verdict (add_errors es r2)\<rparr>"
    and got: "er_collection_errors r = [] \<longrightarrow> er_collection_errors (cx_record x) = [] \<and> same_status (cx_record x) r \<and>
        (aq_exit_code (cx_requirements x) \<longrightarrow> er_pod_exit_code r = podExitCode (cx_pod x)) \<and>
        (\<forall>p. cx_pod x = Some p \<longrightarrow> artifacts_ok W (cx_requirements x) p r t)"
    and judged: "cx_created x \<and> eopt_judge o' \<noteq> None \<longrightarrow> j \<noteq> None" and pass: "er_pass r3"
  shows "er_collection_errors r3 = [] \<and> judge_ok o' (cx_created x) r3 \<and> case_graded W c x r3 (t @ u)"
proof -
  from pass have v: "er_collection_errors r = []" "es = []" "gradesPass (er_grades r2)"
    "case j of None \<Rightarrow> True | Some k \<Rightarrow> jr_error k = [] \<and> jr_pass k"
    by (simp_all add: r3 r2 r1 case_verdict_def GradeRecord_def)
  have "\<forall>g\<in>set (ca_graders c). gd_pass (grade (ew_lib W) (jc_valid (ew_json W)) r1 g)"
    using v(3) by (simp add: r2 GradeRecord_def gradesPass_def list_all_iff)
  moreover have "same_status (cx_record x) r1" using got v(1) by (simp add: r1 same_status_def)
  moreover have "er_duration_millis r1 = er_duration_millis r3" by (simp add: r3 r2 r1 GradeRecord_def)
  moreover have "\<forall>p. cx_pod x = Some p \<longrightarrow> artifacts_ok W (cx_requirements x) p r1 (t @ u)"
    using got v(1) by (auto simp: r1 intro: artifacts_ok_more)
  moreover have "aq_exit_code (cx_requirements x) \<longrightarrow> er_pod_exit_code r1 = podExitCode (cx_pod x)"
    using got v(1) by (simp add: r1)
  ultimately have "case_graded W c x r3 (t @ u)" using got v(1) unfolding case_graded_def by blast
  moreover have "er_judge r3 = j" "er_collection_errors r3 = []" using v by (simp_all add: r3 r2 r1 GradeRecord_def)
  ultimately show ?thesis using v(4) judged by (auto simp: judge_ok_def split: option.splits)
qed

lemma finalize_does: "holds (finalize W o' c x) (finalized W o' c x)"
  unfolding finalize_def Let_def
proof (rule holds_bind, rule holds_read, unfold sum.case append_Nil,
    rule holds_bind, rule collectPodArtifacts_does [THEN holds_mono], elim conjE exE, hypsubst, unfold sum.case,
    rule holds_bind, rule holds_read, unfold sum.case append_Nil2,
    rule holds_bind, rule judge_case_does [THEN holds_mono], elim conjE exE, hypsubst, unfold sum.case,
    rule close_case_does [THEN holds_mono], elim conjE exE, hypsubst, goal_cases)
  case (1 e a t r t0 b u j k w es)
  from 1 show ?case unfolding finalized_def append_assoc append_Nil
    apply (intro conjI)
    subgoal by (simp add: quiet_creates)
    subgoal by (auto dest: quiet_creates(2))
    subgoal by (rule exI, rule conjI, rule refl, rule impI, rule verdict_graded [OF refl refl refl]) assumption+
    done
qed

subsection \<open>Requirements of a case\<close>

text \<open>Whatever needs something of the Pod needs the Pod.\<close>

definition q_closed :: "artifact_requirements \<Rightarrow> bool" where
  "q_closed q \<longleftrightarrow> (aq_envelope q \<or> aq_logs q \<or> aq_exit_code q \<longrightarrow> aq_pod q)"

lemma grader_requirements_closed:
  assumes "(t, x) \<in> set (graderSpecs L v)" "q_closed q"
  shows "q_closed (gs_requirements x g q)"
  using assms unfolding graderSpecs_def
  apply simp
  apply (elim disjE conjE)
  apply (simp_all add: q_closed_def spec_defs require_defs Let_def split: option.split)
  done

lemma graders_closed: "requirementsForGraders_from L v q gs = Inr q' \<Longrightarrow> q_closed q \<Longrightarrow> q_closed q'"
  by (induction gs arbitrary: q) (auto split: sum.splits intro: grader_requirements_closed [OF graderSpecFor_in])

definition field_need :: "string \<Rightarrow> artifact_requirements \<Rightarrow> artifact_requirements" where
  "field_need f q = (case map_of suiteRecordFieldSpecs f of None \<Rightarrow> q | Some (_, need) \<Rightarrow> need q)"

lemma field_need_grows: "q_le q (field_need f q) \<and> (q_closed q \<longrightarrow> q_closed (field_need f q))"
proof (cases "map_of suiteRecordFieldSpecs f")
  case (Some s)
  then have "(f, s) \<in> set suiteRecordFieldSpecs" by (rule map_of_SomeD)
  then show ?thesis unfolding field_need_def Some suiteRecordFieldSpecs_def
    apply simp
    apply (elim disjE conjE)
    apply (simp_all add: q_le_fields q_closed_def)
    done
qed (simp add: field_need_def)

lemma fields_need_grow: "q_le q (fold field_need fs q) \<and> (q_closed q \<longrightarrow> q_closed (fold field_need fs q))"
proof (induction fs arbitrary: q)
  case (Cons f fs)
  from Cons [of "field_need f q"] field_need_grows [of q f] show ?case by (auto intro: q_le_trans)
qed simp

lemma assertions_grow:
  "requirementsForSuiteAssertions L as cid q = Inr q' \<Longrightarrow> q_le q q' \<and> (q_closed q \<longrightarrow> q_closed q')"
proof (induction as arbitrary: q)
  case (Cons a as)
  have "requireAssertionFields a cid q = (if assertionTargetsCase a cid then fold field_need (sa_fields a) q else q)"
    by (simp add: requireAssertionFields_def field_need_def [abs_def])
  then have "q_le q (requireAssertionFields a cid q) \<and> (q_closed q \<longrightarrow> q_closed (requireAssertionFields a cid q))"
    using fields_need_grow by simp
  with Cons.IH [of "requireAssertionFields a cid q"] Cons.prems show ?case by (auto split: if_splits intro: q_le_trans)
qed simp

lemma case_requirements_cover:
  assumes "case_requirements L v su c = Inr q"
  shows "q_closed q" "g \<in> set (ca_graders c) \<Longrightarrow> \<exists>x. graderSpecFor L v (gr_type g) = Inr x \<and> grader_needs x g q"
proof -
  from assms obtain q0 where q0: "requirementsForGraders_from L v no_requirements (ca_graders c) = Inr q0"
    "requirementsForSuiteAssertions L (su_assertions su) (ca_id c) q0 = Inr q"
    by (auto simp: case_requirements_def requirementsForGraders_def go_bind_def split: sum.splits)
  have "q_closed no_requirements" by (simp add: q_closed_def no_requirements_def)
  with graders_closed [OF q0(1)] assertions_grow [OF q0(2)] show "q_closed q" by simp
  from requirementsForGraders_from_cover [OF q0(1)] assertions_grow [OF q0(2)]
  show "g \<in> set (ca_graders c) \<Longrightarrow> \<exists>x. graderSpecFor L v (gr_type g) = Inr x \<and> grader_needs x g q"
    by (metis grader_needs_def q_le_trans)
qed

subsection \<open>A passing case\<close>

text \<open>What the calls of a case show of its run.\<close>

definition case_shows :: "'s eval_world \<Rightarrow> string \<Rightarrow> string \<Rightarrow> artifact_requirements \<Rightarrow> eval_event list \<Rightarrow> case_observation \<Rightarrow> bool" where
  "case_shows W ns n q t ob \<longleftrightarrow>
     (\<exists>ar. RunRead ns n (Inr ar) \<in> set t \<and> terminalPhase (run_phase ar) \<and> ob_status ob = ar_status ar) \<and>
     (aq_pod q \<longrightarrow> (\<exists>p. ob_pod ob = Some p \<and> PodRead ns (rs_pod_name (ob_status ob)) (Inr p) \<in> set t)) \<and>
     (aq_envelope q \<longrightarrow> (\<exists>p code message v. ob_pod ob = Some p \<and> runtimeTermination p = Some (code, message) \<and>
        ParseVersioned (ew_lib W) (ew_json W) message = Inr v \<and> ob_envelope ob = Some v)) \<and>
     (aq_logs q \<longrightarrow> (\<exists>p lc. ob_pod ob = Some p \<and> LogsRead (m_namespace (pod_meta p)) (m_name (pod_meta p)) (Inr lc) \<in> set t \<and>
        \<not> lc_truncated lc \<and> length (lc_data lc) \<le> MaxLogBytes \<and> scan_lines (lc_data lc) = (ob_lines ob, None)))"

text \<open>From a graded execution to an observation that the record was collected from.\<close>

lemma artifacts_observed:
  assumes q: "q_closed q" and pod: "aq_pod q \<longrightarrow> pd \<noteq> None"
    and art: "\<forall>p. pd = Some p \<longrightarrow> artifacts_ok W q p r t" and exit: "aq_exit_code q \<longrightarrow> er_pod_exit_code r = podExitCode pd"
    and st: "same_status (record_status q st r0) r"
  obtains ob where "ob_status ob = st" "ob_pod ob = pd" "ob_millis ob = er_duration_millis r" "collected (ew_lib W) (ew_events W) q ob r"
    "aq_envelope q \<longrightarrow> (\<exists>p code message v. pd = Some p \<and> runtimeTermination p = Some (code, message) \<and>
        ParseVersioned (ew_lib W) (ew_json W) message = Inr v \<and> ob_envelope ob = Some v)"
    "aq_logs q \<longrightarrow> (\<exists>p lc. pd = Some p \<and> LogsRead (m_namespace (pod_meta p)) (m_name (pod_meta p)) (Inr lc) \<in> set t \<and>
        \<not> lc_truncated lc \<and> length (lc_data lc) \<le> MaxLogBytes \<and> scan_lines (lc_data lc) = (ob_lines ob, None))"
proof -
  obtain env where env: "aq_envelope q \<longrightarrow> (\<exists>p code message v. pd = Some p \<and> runtimeTermination p = Some (code, message) \<and>
        ParseVersioned (ew_lib W) (ew_json W) message = Inr v \<and> env = Some v \<and> er_envelope r = Some (projectEnvelope v q))"
  proof (cases "aq_envelope q")
    case True
    with q pod art obtain p where "pd = Some p" "artifacts_ok W q p r t" by (auto simp: q_closed_def)
    with True that show ?thesis unfolding artifacts_ok_def by blast
  qed (use that in blast)
  obtain ls where ls: "aq_logs q \<longrightarrow> (\<exists>p lc. pd = Some p \<and> LogsRead (m_namespace (pod_meta p)) (m_name (pod_meta p)) (Inr lc) \<in> set t \<and>
        \<not> lc_truncated lc \<and> length (lc_data lc) \<le> MaxLogBytes \<and> scan_lines (lc_data lc) = (ls, None)) \<and>
      (\<forall>k\<in>set (aq_event_types q). event_count (er_events r) k = int (events_of_type k (log_events (ew_lib W) (ew_events W) ls))) \<and>
      (TypeTool \<in> set (aq_event_types q) \<and> TypeTool \<in> set (aq_event_detail_types q) \<longrightarrow>
         es_tools (er_events r) = logged_tools (ew_lib W) (ew_events W) (log_events (ew_lib W) (ew_events W) ls))"
  proof (cases "aq_logs q")
    case True
    with q pod art obtain p lc where p: "pd = Some p" and lc: "LogsRead (m_namespace (pod_meta p)) (m_name (pod_meta p)) (Inr lc) \<in> set t"
      and ok: "pl_errors (ParseLogs (ew_lib W) (ew_events W) (lc_data lc) (lc_truncated lc) (aq_event_types q) (aq_event_detail_types q)) = []"
      and ev: "er_events r = pl_events (ParseLogs (ew_lib W) (ew_events W) (lc_data lc) (lc_truncated lc) (aq_event_types q) (aq_event_detail_types q))"
      by (auto simp: q_closed_def artifacts_ok_def Let_def)
    have sc: "scan_lines (lc_data lc) = (fst (scan_lines (lc_data lc)), None)" using ParseLogs_exact(3) [OF ok] by (metis prod.collapse)
    from ParseLogs_exact [OF ok] p lc sc show ?thesis
      by (intro that [of "fst (scan_lines (lc_data lc))"]) (auto simp: ev intro!: exI [of _ lc])
  qed (use that in blast)
  let ?ob = "\<lparr>ob_status = st, ob_pod = pd, ob_envelope = env, ob_lines = ls, ob_millis = er_duration_millis r\<rparr>"
  have "collected (ew_lib W) (ew_events W) q ?ob r"
    using st exit env ls by (auto simp: collected_def same_status_def record_status_def)
  then show ?thesis using env ls by (intro that [of ?ob]) auto
qed

lemma runCase_phases:
  fixes W :: "'s eval_world"
  defines "name \<equiv> case_name W"
  assumes "runCase W o' su c s = Some (r, t, s')"
  obtains (refused) x t1 t2 where "refused W o' su c x t1" "finalized W o' c x r t2" "t = t1 @ t2"
  | (waited) x a x' t1 u t2 t3 where "started W o' su c x t1" "reads_of (eopt_namespace o') (name o' su c) u"
      "answer_ok (eopt_namespace o') (name o' su c) u a" "quiet_case t2" "cx_created x'" "cx_run x' = cx_run x \<or> (fst a \<noteq> None \<and> cx_run x' = fst a)"
      "er_collection_errors (cx_record x') = [] \<longrightarrow> observed o' x a x' t2" "finalized W o' c x' r t3" "t = t1 @ u @ t2 @ t3"
proof -
  obtain a1 t1 s1 where start: "start_case W o' su c s = (a1, t1, s1)" by (cases "start_case W o' su c s")
  note st = holdsD [OF start_case_does start]
  then consider (l) x where "a1 = Inr (Inl x)" "refused W o' su c x t1" | (r) x where "a1 = Inr (Inr x)" "started W o' su c x t1"
    by (auto split: sum.splits)
  then show ?thesis
  proof cases
    case l
    obtain a2 t2 s2 where fin: "finalize W o' c x s1 = (a2, t2, s2)" by (cases "finalize W o' c x s1")
    from assms(2) start l(1) fin have "r = a2" "t = t1 @ t2" by (simp_all add: runCase_def Let_def)
    with l(2) holdsD [OF finalize_does fin] show ?thesis by (intro refused) auto
  next
    case r
    from assms(2) start r(1) obtain w t2 s2 where wait:
      "waitForTerminal W (eopt_namespace o') (case_name W o' su c) None t1 s1 = Some (w, t2, s2)"
      by (auto simp: runCase_def Let_def split: option.splits)
    from waitForTerminal_answers [OF wait] obtain a u where a: "w = Inr a" "t2 = t1 @ u" "reads_of (eopt_namespace o') (case_name W o' su c) u"
      "answer_ok (eopt_namespace o') (case_name W o' su c) u a" by blast
    obtain b t3 s3 where obs: "observe_case W o' x a s2 = (b, t3, s3)" by (cases "observe_case W o' x a s2")
    have "snd a = None \<Longrightarrow> fst a \<noteq> None" using a(4) by (auto simp: answer_ok_def)
    from holdsD [OF observe_case_does [OF this] obs] obtain x' where x': "b = Inr x'" "quiet_case t3" "cx_created x' = cx_created x"
      "cx_run x' = cx_run x \<or> (fst a \<noteq> None \<and> cx_run x' = fst a)" "er_collection_errors (cx_record x') = [] \<longrightarrow> observed o' x a x' t3" by blast
    obtain a4 t4 s4 where fin: "finalize W o' c x' s3 = (a4, t4, s4)" by (cases "finalize W o' c x' s3")
    from assms(2) start r(1) wait a(1,2) obs x'(1) fin have "r = a4" "t = t1 @ u @ t3 @ t4"
      by (simp_all add: runCase_def Let_def io_bind_def)
    moreover have "cx_created x'" using x'(3) r(2) by (auto simp: started_def)
    ultimately show ?thesis using r(2) a x' holdsD [OF finalize_does fin] by (intro waited [unfolded name_def]) auto
  qed
qed

text \<open>A case passes only if its run was seen to end, everything its graders need was read of it, and every grader is met.\<close>

lemma runCase_pass:
  assumes "runCase W o' su c s = Some (Inr r, t, s')" "er_pass r"
    and valid: "\<forall>g\<in>set (ca_graders c). validateGrader (ew_lib W) (jc_valid (ew_json W)) g = None"
  shows "er_collection_errors r = [] \<and> judge_ok o' True r \<and>
    (\<exists>q ob. case_requirements (ew_lib W) (jc_valid (ew_json W)) su c = Inr q \<and>
       case_shows W (eopt_namespace o') (case_name W o' su c) q t ob \<and> ob_millis ob = er_duration_millis r \<and>
       (\<forall>g\<in>set (ca_graders c). meets (ew_lib W) (ew_events W) (jc_valid (ew_json W)) g ob))"
  using assms(1)
proof (cases rule: runCase_phases)
  case (refused x t1 t2)
  with assms(2) have False by (auto simp: refused_def finalized_def case_graded_def)
  then show ?thesis ..
next
  case (waited x a x' t1 u t2 t3)
  from waited(8) assms(2) waited(5) have fin: "er_collection_errors r = []" "judge_ok o' True r" "case_graded W c x' r t3"
    by (auto simp: finalized_def)
  from fin(3) waited(7) have "observed o' x a x' t2" by (auto simp: case_graded_def)
  then obtain ar where ar: "a = (Some ar, None)" "cx_requirements x' = cx_requirements x"
    "cx_record x' = record_status (cx_requirements x) (ar_status ar) (cx_record x)"
    "aq_pod (cx_requirements x) \<longrightarrow> (\<exists>p. cx_pod x' = Some p \<and> PodRead (eopt_namespace o') (rs_pod_name (ar_status ar)) (Inr p) \<in> set t2)"
    unfolding observed_def by blast
  let ?q = "cx_requirements x"
  from waited(1) have q: "case_requirements (ew_lib W) (jc_valid (ew_json W)) su c = Inr ?q" by (auto simp: started_def)
  from fin(3) obtain r1 where r1: "same_status (cx_record x') r1" "aq_exit_code ?q \<longrightarrow> er_pod_exit_code r1 = podExitCode (cx_pod x')"
    "\<forall>p. cx_pod x' = Some p \<longrightarrow> artifacts_ok W ?q p r1 t3" "er_duration_millis r1 = er_duration_millis r"
    "\<forall>g\<in>set (ca_graders c). gd_pass (grade (ew_lib W) (jc_valid (ew_json W)) r1 g)"
    unfolding case_graded_def ar(2) by blast
  have pod: "aq_pod ?q \<longrightarrow> cx_pod x' \<noteq> None" using ar(4) by auto
  from artifacts_observed [OF case_requirements_cover(1) [OF q] pod r1(3) r1(2) r1(1) [unfolded ar(3)]]
  obtain ob where ob: "ob_status ob = ar_status ar" "ob_pod ob = cx_pod x'" "ob_millis ob = er_duration_millis r1"
    "collected (ew_lib W) (ew_events W) ?q ob r1"
    "aq_envelope ?q \<longrightarrow> (\<exists>p code message v. cx_pod x' = Some p \<and> runtimeTermination p = Some (code, message) \<and>
        ParseVersioned (ew_lib W) (ew_json W) message = Inr v \<and> ob_envelope ob = Some v)"
    "aq_logs ?q \<longrightarrow> (\<exists>p lc. cx_pod x' = Some p \<and> LogsRead (m_namespace (pod_meta p)) (m_name (pod_meta p)) (Inr lc) \<in> set t3 \<and>
        \<not> lc_truncated lc \<and> length (lc_data lc) \<le> MaxLogBytes \<and> scan_lines (lc_data lc) = (ob_lines ob, None))" .
  have "meets (ew_lib W) (ew_events W) (jc_valid (ew_json W)) g ob" if "g \<in> set (ca_graders c)" for g
    using case_requirements_cover(2) [OF q that] grade_decides [OF bspec [OF valid that] _ _ ob(4)] r1(5) that by blast
  moreover have "RunRead (eopt_namespace o') (case_name W o' su c) (Inr ar) \<in> set u \<and> terminalPhase (run_phase ar)"
    using waited(3) ar(1) by (auto simp: answer_ok_def seen_run_def)
  then have "case_shows W (eopt_namespace o') (case_name W o' su c) ?q t ob"
    using ob(1,2,5,6) ar(4) waited(9) unfolding case_shows_def by (intro conjI) (fastforce | blast)+
  ultimately show ?thesis using fin q ob(3) r1(4) by (intro conjI exI [of _ ?q] exI [of _ ob]) auto
qed

text \<open>A case creates at most one run and deletes only that run, or one that carries exactly its labels.\<close>

lemma runCase_own:
  assumes "runCase W o' su c s = Some (r, t, s')"
  shows "(\<exists>a. filter creates_run t = [] \<or> filter creates_run t = [RunCreated (case_run W o' su c) a]) \<and>
    (\<forall>y e. RunDeleted y e \<in> set t \<longrightarrow> \<not> eopt_keep_runs o' \<and>
      (probe_owned W o' su c t y \<or>
       (\<exists>ar. RunCreated (case_run W o' su c) (Inr ar) \<in> set t \<and>
          (y = ar \<or> RunRead (eopt_namespace o') (case_name W o' su c) (Inr y) \<in> set t))))"
  using assms
proof (cases rule: runCase_phases)
  case (refused x t1 t2)
  then show ?thesis by (auto simp: refused_def finalized_def probe_owned_def)
next
  case (waited x a x' t1 u t2 t3)
  then obtain ar where ar: "t1 = [RunCreated (case_run W o' su c) (Inr ar)]" "cx_run x = Some ar" by (auto simp: started_def)
  have q: "quiet_case u" "quiet_case t2" by (rule reads_quiet(1) [OF waited(2)]) (rule waited(4))
  have del: "\<not> eopt_keep_runs o' \<and> (y = ar \<or> RunRead (eopt_namespace o') (case_name W o' su c) (Inr y) \<in> set u)"
    if "RunDeleted y e \<in> set t" for y e
  proof -
    have "RunDeleted y e \<in> set t3" using that ar(1) q waited(9) by (auto dest: quiet_creates(2))
    with waited(8) have "\<not> eopt_keep_runs o' \<and> (\<forall>z. cx_run x' = Some z \<longrightarrow> y = z)" by (auto simp: finalized_def)
    with waited(3,6) ar(2) show ?thesis by (auto simp: answer_ok_def seen_run_def)
  qed
  have "filter creates_run t = [RunCreated (case_run W o' su c) (Inr ar)]"
    using ar(1) q waited(8,9) by (simp add: quiet_creates finalized_def)
  moreover have "RunCreated (case_run W o' su c) (Inr ar) \<in> set t" "set u \<subseteq> set t" using ar(1) waited(9) by auto
  ultimately show ?thesis using del by blast
qed

subsection \<open>A suite\<close>

lemma case_shows_more: "case_shows W ns n q t ob \<Longrightarrow> set t \<subseteq> set t' \<Longrightarrow> case_shows W ns n q t' ob"
  unfolding case_shows_def by blast

lemma run_cases_each:
  assumes "run_cases W o' su cs s = Some (Inr rs, t, s')"
  shows "list_all2 (\<lambda>c r. \<exists>s0 t0 s1. runCase W o' su c s0 = Some (Inr r, t0, s1) \<and> set t0 \<subseteq> set t) cs rs"
  using assms
proof (induction cs arbitrary: s rs t)
  case (Cons c cs)
  then obtain r t1 s1 where c: "runCase W o' su c s = Some (Inr r, t1, s1)"
    by (auto split: option.splits sum.splits)
  with Cons.prems obtain rs1 t2 where cs: "run_cases W o' su cs s1 = Some (Inr rs1, t2, s')" "rs = r # rs1" "t = t1 @ t2"
    by (auto split: option.splits sum.splits)
  have "list_all2 (\<lambda>c r. \<exists>s0 t0 s1. runCase W o' su c s0 = Some (Inr r, t0, s1) \<and> set t0 \<subseteq> set t) cs rs1"
    by (rule list_all2_mono [OF Cons.IH [OF cs(1)]]) (use cs(3) in fastforce)
  then show ?case using c cs(2,3) by auto
qed simp

lemma run_cases_event:
  assumes "run_cases W o' su cs s = Some (r, t, s')" "e \<in> set t"
  shows "\<exists>c\<in>set cs. \<exists>s0 r0 t0 s1. runCase W o' su c s0 = Some (r0, t0, s1) \<and> e \<in> set t0 \<and> set t0 \<subseteq> set t"
  using assms
proof (induction cs arbitrary: s r t)
  case (Cons c cs)
  then obtain r1 t1 s1 where c: "runCase W o' su c s = Some (r1, t1, s1)" by (auto split: option.splits)
  show ?case
  proof (cases "e \<in> set t1")
    case True
    moreover have "set t1 \<subseteq> set t" using c Cons.prems(1) by (auto split: option.splits sum.splits)
    ultimately show ?thesis using c by auto
  next
    case False
    with c Cons.prems obtain r2 t2 where "run_cases W o' su cs s1 = Some (r2, t2, s')" "t = t1 @ t2" "e \<in> set t2"
      by (auto split: option.splits sum.splits)
    with Cons.IH [of s1 r2 t2] show ?thesis by fastforce
  qed
qed simp

definition effective_namespace :: "'s runner_options \<Rightarrow> eval_suite \<Rightarrow> string" where
  "effective_namespace o' su = (if eopt_namespace o' = [] then sd_namespace (su_defaults su) else eopt_namespace o')"

text \<open>The options a suite runs with, for the invocation it was given or drew.\<close>

definition effective_options :: "'s runner_options \<Rightarrow> eval_suite \<Rightarrow> string \<Rightarrow> 's runner_options" where
  "effective_options o' su i = o'\<lparr>eopt_invocation_id := i, eopt_namespace := effective_namespace o' su,
     eopt_poll_interval := (if eopt_poll_interval o' \<le> 0 then second div 2 else eopt_poll_interval o')\<rparr>"

lemma effective_options_simps [simp]:
  "eopt_namespace (effective_options o' su i) = effective_namespace o' su" "eopt_invocation_id (effective_options o' su i) = i"
  "eopt_keep_runs (effective_options o' su i) = eopt_keep_runs o'" "eopt_judge (effective_options o' su i) = eopt_judge o'"
  by (simp_all add: effective_options_def)

lemma RunSuite_cases:
  assumes "RunSuite W o' su s = Some (r, t, s')"
  obtains i s1 where "run_cases W (effective_options o' su i) su (su_cases su) s1 = Some (r, t, s')"
proof -
  obtain a u s1 where n: "normalizeRunnerOptions W o' (su_defaults su) s = (a, u, s1)" by (cases "normalizeRunnerOptions W o' (su_defaults su) s")
  have eq: "normalizeRunnerOptions W o' (su_defaults su) =
      io_bind (if eopt_invocation_id o' = [] then io_bind (io_read (ew_now W)) (invocationID W) else io_return (eopt_invocation_id o'))
        (\<lambda>i. io_return (effective_options o' su i))"
    by (simp add: normalizeRunnerOptions_def effective_options_def effective_namespace_def)
  have "holds (if eopt_invocation_id o' = [] then io_bind (io_read (ew_now W)) (invocationID W) else io_return (eopt_invocation_id o'))
      (\<lambda>a t. \<exists>i. a = Inr i)"
    unfolding invocationID_def by (auto intro!: io_rules)
  then have "holds (io_bind (if eopt_invocation_id o' = [] then io_bind (io_read (ew_now W)) (invocationID W) else io_return (eopt_invocation_id o'))
        (\<lambda>i. io_return (effective_options o' su i))) (\<lambda>a t. \<exists>i. a = Inr (effective_options o' su i))"
    by (intro holds_bind) (erule holds_mono, auto intro!: holds_return)
  from holdsD [OF this n [unfolded eq]] have "\<exists>i. a = Inr (effective_options o' su i)" .
  with assms n that show ?thesis by (auto simp: RunSuite_def)
qed

text \<open>What an assertion demands of the records of a suite.\<close>

definition assertion_holds :: "golib \<Rightarrow> (field_value \<Rightarrow> string go_result) \<Rightarrow> eval_record list \<Rightarrow> suite_assertion \<Rightarrow> bool" where
  "assertion_holds L encode rs a \<longleftrightarrow> (\<exists>selected. selectAssertionRecords L (sa_records a) rs = Inr selected \<and>
     (sa_type a = SuiteAssertionFieldsEqual \<and> (\<forall>f\<in>set (sa_fields a). \<forall>x\<in>set selected. \<forall>y\<in>set selected. field_of f x = field_of f y) \<or>
      sa_type a = SuiteAssertionForbiddenMarkers \<and>
        (\<forall>x\<in>set selected. \<forall>f\<in>set (sa_fields a). \<exists>doc. encode (field_of f x) = Inr doc \<and> (\<forall>m\<in>set (sa_markers a). \<not> sublist m doc))))"

lemma evaluate_assertion_holds:
  assumes "sr_pass (evaluate_assertion L encode rs a)"
  shows "assertion_holds L encode rs a"
proof -
  consider (eq) "sa_type a = SuiteAssertionFieldsEqual" "sr_pass (evaluateFieldsEqual L a rs)"
    | (no) "sa_type a = SuiteAssertionForbiddenMarkers" "sr_pass (evaluateForbiddenMarkers L encode a rs)"
    using assms by (auto simp: evaluate_assertion_def split: if_splits)
  then show ?thesis
  proof cases
    case eq
    then obtain selected where sel: "selectAssertionRecords L (sa_records a) rs = Inr selected"
      "\<forall>f\<in>set (sa_fields a). \<forall>r\<in>set (tl selected). field_of f r = field_of f (hd selected)"
      unfolding evaluateFieldsEqual_pass by blast
    have "field_of f x = field_of f (hd selected)" if "f \<in> set (sa_fields a)" "x \<in> set selected" for f x
      using sel(2) that by (cases selected) auto
    with sel(1) eq(1) show ?thesis by (auto simp: assertion_holds_def)
  next
    case no
    then show ?thesis unfolding evaluateForbiddenMarkers_pass assertion_holds_def by blast
  qed
qed

text \<open>
  C20. When the summary of a suite passes, every case has one record in order, its run was seen to end, everything its
  graders need was read of that run and its Pod without loss, every grader is met, the judge (if there is one) agreed,
  and every assertion over the records holds. This is so for every API server, log source, judge, clock and context.
\<close>

theorem evaluation_pass_sound:
  assumes "prepareSuite (ew_lib W) (jc_valid (ew_json W)) override su0 = Inr su" "RunSuite W o' su s = Some (Inr rs, t, s')"
    "sy_pass (BuildSummary (su_name su) (int (length (su_cases su))) t0 t1 rs (EvaluateSuiteAssertions (ew_lib W) encode (su_assertions su) rs) path)"
  shows "(\<exists>i. list_all2 (\<lambda>c r. er_pass r \<and> er_collection_errors r = [] \<and> judge_ok o' True r \<and>
      (\<exists>q ob. case_requirements (ew_lib W) (jc_valid (ew_json W)) su c = Inr q \<and>
         case_shows W (effective_namespace o' su) (NameForCase (ew_lib W) (su_name su) (ca_id c) i) q t ob \<and> ob_millis ob = er_duration_millis r \<and>
         (\<forall>g\<in>set (ca_graders c). meets (ew_lib W) (ew_events W) (jc_valid (ew_json W)) g ob))) (su_cases su) rs) \<and>
    (\<forall>a\<in>set (su_assertions su). assertion_holds (ew_lib W) encode rs a)"
proof -
  from RunSuite_cases [OF assms(2)] obtain i s1 where "run_cases W (effective_options o' su i) su (su_cases su) s1 = Some (Inr rs, t, s')"
    (is "run_cases W ?o su _ _ = _") .
  from run_cases_each [OF this] have each: "list_all2 (\<lambda>c r. \<exists>s0 t0 s1. runCase W ?o su c s0 = Some (Inr r, t0, s1) \<and> set t0 \<subseteq> set t) (su_cases su) rs" .
  from assms(3) have pass: "\<forall>r\<in>set rs. er_pass r" and asr: "\<forall>a\<in>set (su_assertions su). assertion_holds (ew_lib W) encode rs a"
    by (auto simp: BuildSummary_pass EvaluateSuiteAssertions_def intro: evaluate_assertion_holds)
  have valid: "\<forall>c\<in>set (su_cases su). \<forall>g\<in>set (ca_graders c). validateGrader (ew_lib W) (jc_valid (ew_json W)) g = None"
    using prepareSuite_ok(3) [OF assms(1)] by (auto simp: case_ok_def)
  have "list_all2 (\<lambda>c r. er_pass r \<and> er_collection_errors r = [] \<and> judge_ok o' True r \<and>
      (\<exists>q ob. case_requirements (ew_lib W) (jc_valid (ew_json W)) su c = Inr q \<and>
         case_shows W (effective_namespace o' su) (NameForCase (ew_lib W) (su_name su) (ca_id c) i) q t ob \<and> ob_millis ob = er_duration_millis r \<and>
         (\<forall>g\<in>set (ca_graders c). meets (ew_lib W) (ew_events W) (jc_valid (ew_json W)) g ob))) (su_cases su) rs"
    unfolding list_all2_conv_all_nth
  proof (intro conjI allI impI)
    show "length (su_cases su) = length rs" using each by (rule list_all2_lengthD)
    fix k assume k: "k < length (su_cases su)"
    with each obtain s0 u s2 where run: "runCase W ?o su (su_cases su ! k) s0 = Some (Inr (rs ! k), u, s2)" "set u \<subseteq> set t"
      unfolding list_all2_conv_all_nth by blast
    have "er_pass (rs ! k)" using pass k list_all2_lengthD [OF each] by auto
    moreover have "\<forall>g\<in>set (ca_graders (su_cases su ! k)). validateGrader (ew_lib W) (jc_valid (ew_json W)) g = None"
      using valid k by auto
    ultimately show "er_pass (rs ! k)" "er_collection_errors (rs ! k) = []" "judge_ok o' True (rs ! k)"
      "\<exists>q ob. case_requirements (ew_lib W) (jc_valid (ew_json W)) su (su_cases su ! k) = Inr q \<and>
         case_shows W (effective_namespace o' su) (NameForCase (ew_lib W) (su_name su) (ca_id (su_cases su ! k)) i) q t ob \<and>
         ob_millis ob = er_duration_millis (rs ! k) \<and>
         (\<forall>g\<in>set (ca_graders (su_cases su ! k)). meets (ew_lib W) (ew_events W) (jc_valid (ew_json W)) g ob)"
      using runCase_pass [OF run(1)] case_shows_more [OF _ run(2)] by (auto simp: judge_ok_def) blast+
  qed
  with asr show ?thesis by blast
qed

text \<open>
  C21. Running a suite creates runs only under the names and labels of its cases, and deletes a run only when it is the
  one that was created for the case (as the server answered the creation, or as it was read under the same name), or
  when it was found under that name after a failed creation and carries exactly the labels of this invocation. With
  the option to keep runs nothing is deleted.
\<close>

theorem evaluation_touches_own_runs:
  assumes "RunSuite W o' su s = Some (r, t, s')"
  shows "\<exists>i. (\<forall>x a. RunCreated x a \<in> set t \<longrightarrow> (\<exists>c\<in>set (su_cases su). x = case_run W (effective_options o' su i) su c)) \<and>
    (\<forall>y e. RunDeleted y e \<in> set t \<longrightarrow> \<not> eopt_keep_runs o' \<and> (\<exists>c\<in>set (su_cases su).
       probe_owned W (effective_options o' su i) su c t y \<or>
       (\<exists>ar. RunCreated (case_run W (effective_options o' su i) su c) (Inr ar) \<in> set t \<and>
          (y = ar \<or> RunRead (effective_namespace o' su) (case_name W (effective_options o' su i) su c) (Inr y) \<in> set t))))"
proof -
  from RunSuite_cases [OF assms] obtain i s1 where
    run: "run_cases W (effective_options o' su i) su (su_cases su) s1 = Some (r, t, s')" .
  let ?o = "effective_options o' su i"
  have "\<exists>c\<in>set (su_cases su). x = case_run W ?o su c" if "RunCreated x a \<in> set t" for x a
  proof -
    from run_cases_event [OF run that] obtain c s0 r0 t0 s2 where c: "c \<in> set (su_cases su)" "runCase W ?o su c s0 = Some (r0, t0, s2)"
      "RunCreated x a \<in> set t0" by blast
    from c(3) have "RunCreated x a \<in> set (filter creates_run t0)" by simp
    with runCase_own [OF c(2)] have "x = case_run W ?o su c" by fastforce
    with c(1) show ?thesis by blast
  qed
  moreover have "\<not> eopt_keep_runs o' \<and> (\<exists>c\<in>set (su_cases su). probe_owned W ?o su c t y \<or>
       (\<exists>ar. RunCreated (case_run W ?o su c) (Inr ar) \<in> set t \<and>
          (y = ar \<or> RunRead (effective_namespace o' su) (case_name W ?o su c) (Inr y) \<in> set t)))" if "RunDeleted y e \<in> set t" for y e
  proof -
    from run_cases_event [OF run that] obtain c s0 r0 t0 s2 where c: "c \<in> set (su_cases su)" "runCase W ?o su c s0 = Some (r0, t0, s2)"
      "RunDeleted y e \<in> set t0" "set t0 \<subseteq> set t" by blast
    from conjunct2 [OF runCase_own [OF c(2)], rule_format, OF c(3)] c(1,4) show ?thesis
      by (auto simp: probe_owned_def)
  qed
  ultimately show ?thesis by blast
qed

subsection \<open>A run of the harness\<close>

text \<open>A cluster in which every run has ended well when it is first read.\<close>

definition calm_errors :: error_classes where
  "calm_errors = \<lparr>ek_timeout = (\<lambda>_. False), ek_server_timeout = (\<lambda>_. False), ek_too_many_requests = (\<lambda>_. False), ek_service_unavailable = (\<lambda>_. False),
     ek_internal_error = (\<lambda>_. False), ek_unexpected_eof = (\<lambda>_. False), ek_connection_reset = (\<lambda>_. False), ek_connection_refused = (\<lambda>_. False),
     ek_connection_aborted = (\<lambda>_. False), ek_timed_out = (\<lambda>_. False), ek_url_error = (\<lambda>_. False), ek_net_error = (\<lambda>_. False)\<rparr>"

definition no_event_codec :: event_codec where
  "no_event_codec = \<lparr>ec_valid = (\<lambda>_. True), ec_event = (\<lambda>_. Inl []), ec_lifecycle = (\<lambda>_. Inl []), ec_tool = (\<lambda>_. Inl []), ec_error = (\<lambda>_. Inl []),
     ec_output = (\<lambda>_. Inl []), ec_usage = (\<lambda>_. Inl [])\<rparr>"

definition calm_world :: "unit eval_world" where
  "calm_world = \<lparr>ew_lib = demo_lib, ew_kube = doc_kube, ew_json = demo_codec, ew_events = no_event_codec, ew_errors = calm_errors,
     ew_read_retries = 1, ew_now = (\<lambda>s. (0, s)), ew_random = (\<lambda>s. (Inr ''abc'', s)), ew_ctx_err = (\<lambda>s. (None, s)), ew_tick = (\<lambda>s. (Some ''done'', s)),
     ew_create = (\<lambda>x s. (Inr x, s)),
     ew_get_run = (\<lambda>ns n s. (Inr ((empty_agent_run n ns)\<lparr>ar_status := empty_run_status\<lparr>rs_phase := AgentRunPhaseSucceeded\<rparr>\<rparr>), s)),
     ew_get_pod = (\<lambda>ns n s. (Inl NotFound, s)), ew_delete = (\<lambda>x s. (None, s)), ew_logs = None\<rparr>"

definition phase_grader :: grader where
  "phase_grader = \<lparr>gr_type = GraderTerminalPhase, gr_phase = AgentRunPhaseSucceeded, gr_status_result = None, gr_structured_output = None,
     gr_usage_fields = [], gr_error_code = [], gr_outcome = [], gr_model = [], gr_turns = None, gr_tool_calls = None, gr_event = None, gr_tool = None,
     gr_max_duration = 0, gr_exit_code = None\<rparr>"

definition small_suite :: eval_suite where
  "small_suite = \<lparr>su_api_version = EvalAPIVersion, su_kind = EvalKind, su_name = ''s'',
     su_defaults = \<lparr>sd_namespace = ''d'', sd_timeout = Some 1, sd_runtime_image = ''i''\<rparr>, su_assertions = [],
     su_cases = [\<lparr>ca_id = ''c'', ca_description = [], ca_agent_run = sample_run_spec, ca_timeout = Some 1, ca_graders = [phase_grader]\<rparr>]\<rparr>"

definition plain_options :: "unit runner_options" where
  "plain_options = \<lparr>eopt_namespace = ''d'', eopt_keep_runs = False, eopt_poll_interval = 1, eopt_judge = None, eopt_invocation_id = ''v''\<rparr>"

lemma small_suite_prepared: "prepareSuite demo_lib (jc_valid demo_codec) [] small_suite = Inr small_suite"
  by code_simp

lemma small_suite_run:
  "\<exists>rs t. RunSuite calm_world plain_options small_suite () = Some (Inr rs, t, ()) \<and>
     sy_pass (BuildSummary ''s'' 1 0 0 rs (EvaluateSuiteAssertions demo_lib (\<lambda>_. Inr []) [] rs) []) \<and>
     (\<exists>y e. RunDeleted y e \<in> set t)"
proof -
  have "case RunSuite calm_world plain_options small_suite () of
      Some (Inr rs, t, s) \<Rightarrow> sy_pass (BuildSummary ''s'' 1 0 0 rs (EvaluateSuiteAssertions demo_lib (\<lambda>_. Inr []) [] rs) []) \<and> list_ex deletes_run t
    | _ \<Rightarrow> False"
    by code_simp
  then obtain rs t where run: "RunSuite calm_world plain_options small_suite () = Some (Inr rs, t, ())"
    "sy_pass (BuildSummary ''s'' 1 0 0 rs (EvaluateSuiteAssertions demo_lib (\<lambda>_. Inr []) [] rs) [])" "list_ex deletes_run t"
    by (auto split: option.splits prod.splits sum.splits)
  from run(3) obtain x where "x \<in> set t" "deletes_run x" by (auto simp: list_ex_iff)
  then have "\<exists>y e. RunDeleted y e \<in> set t" by (elim deletes_run.elims) blast+
  with run(1,2) show ?thesis by blast
qed

theorem evaluation_pass_sound_witness:
  "\<exists>rs t. RunSuite calm_world plain_options small_suite () = Some (Inr rs, t, ()) \<and>
     (\<exists>i ob. case_shows calm_world ''d'' (NameForCase demo_lib ''s'' ''c'' i) no_requirements t ob \<and>
        meets demo_lib no_event_codec (jc_valid demo_codec) phase_grader ob)"
proof -
  obtain rs t where run: "RunSuite calm_world plain_options small_suite () = Some (Inr rs, t, ())"
    and pass: "sy_pass (BuildSummary ''s'' 1 0 0 rs (EvaluateSuiteAssertions demo_lib (\<lambda>_. Inr []) [] rs) [])"
    using small_suite_run by blast
  have q: "case_requirements demo_lib (jc_valid demo_codec) small_suite (hd (su_cases small_suite)) = Inr no_requirements" by code_simp
  have "effective_namespace plain_options small_suite = ''d''" by code_simp
  with evaluation_pass_sound [of calm_world "[]" small_suite small_suite plain_options "()" rs t "()" 0 0 "\<lambda>_. Inr []" "[]"] small_suite_prepared run pass q
  have "\<exists>i ob. case_shows calm_world ''d'' (NameForCase demo_lib ''s'' ''c'' i) no_requirements t ob \<and>
        meets demo_lib no_event_codec (jc_valid demo_codec) phase_grader ob"
    by (auto simp: calm_world_def small_suite_def list_all2_Cons1)
  with run show ?thesis by blast
qed

theorem evaluation_touches_own_runs_witness:
  "\<exists>rs t y e ar i. RunSuite calm_world plain_options small_suite () = Some (Inr rs, t, ()) \<and> RunDeleted y e \<in> set t \<and>
     (probe_owned calm_world (effective_options plain_options small_suite i) small_suite (hd (su_cases small_suite)) t y \<or>
      RunCreated (case_run calm_world (effective_options plain_options small_suite i) small_suite (hd (su_cases small_suite))) (Inr ar) \<in> set t)"
proof -
  obtain rs t y e where run: "RunSuite calm_world plain_options small_suite () = Some (Inr rs, t, ())" and del: "RunDeleted y e \<in> set t"
    using small_suite_run by blast
  from evaluation_touches_own_runs [OF run] del run show ?thesis by (auto simp: small_suite_def) blast+
qed

end
