(* ===== verification/Eval_Judge.thy ===== *)
theory Eval_Judge
  imports Eval_Verdict
begin

text \<open>
  The judge of the evaluation harness that runs a command (\<^verbatim>\<open>judge.go\<close>).  The command gets the observation on standard
  input and answers on standard output, within limits on both; JSON and the process are parameters.  The lemmas: a
  limited writer keeps exactly the bytes that fit, and every answer that is accepted is within its bounds.
\<close>

abbreviation MaxJudgeInputBytes :: nat where "MaxJudgeInputBytes \<equiv> 65536"
abbreviation MaxJudgeOutputBytes :: nat where "MaxJudgeOutputBytes \<equiv> 16384"
abbreviation MaxJudgeRationale :: nat where "MaxJudgeRationale \<equiv> 4096"

definition errJudgeOutputLimit :: string where
  "errJudgeOutputLimit = ''judge output exceeded configured limit''"

subsection \<open>The limited writer\<close>

text \<open>It writes into a buffer, which takes everything it is given.\<close>

record limited_writer =
  lw_written :: string
  lw_remaining :: nat

definition judge_Write :: "string \<Rightarrow> limited_writer \<Rightarrow> string option \<times> limited_writer" where
  "judge_Write chunk w =
     (if lw_remaining w = 0 then (Some errJudgeOutputLimit, w)
      else
        let part = take (lw_remaining w) chunk;
            w' = \<lparr>lw_written = lw_written w @ part, lw_remaining = lw_remaining w - length part\<rparr> in
        (if length part \<noteq> length chunk then Some errJudgeOutputLimit else None, w'))"

text \<open>\<^verbatim>\<open>io.Copy\<close> from the pipe of the command: it stops at the first error.\<close>

fun copy_output :: "string list \<Rightarrow> limited_writer \<Rightarrow> string option \<times> limited_writer" where
  "copy_output [] w = (None, w)"
| "copy_output (chunk # chunks) w =
     (case judge_Write chunk w of
        (Some e, w') \<Rightarrow> (Some e, w')
      | (None, w') \<Rightarrow> copy_output chunks w')"

definition new_writer :: limited_writer where
  "new_writer = \<lparr>lw_written = [], lw_remaining = MaxJudgeOutputBytes\<rparr>"

subsection \<open>The command\<close>

record judge_reply =
  jp_pass :: "bool option"
  jp_score :: "rat option"
  jp_rationale :: "string option"

record command_result =
  cm_error :: "string option"
  cm_stdout :: "string list"
  cm_stderr :: "string list"

text \<open>
  \<open>jw_run\<close> runs a shell command in a process group of its own, with its standard input, environment and time limit, and
  kills what is left of the group afterwards (\<open>Proc_Group\<close> models \<^verbatim>\<open>procgroup.Kill\<close>).
\<close>

record 's judge_world =
  jw_marshal :: "judge_observation \<Rightarrow> string go_result"
  jw_decode :: "string \<Rightarrow> (judge_reply \<times> trailing) go_result"
  jw_getenv :: "string \<Rightarrow> string"
  jw_run :: "string \<Rightarrow> string \<Rightarrow> string list \<Rightarrow> duration \<Rightarrow> 's \<Rightarrow> command_result \<times> 's"

record command_judge =
  cj_command :: string
  cj_timeout :: duration

definition safeCommandEnvironment :: "(string \<Rightarrow> string) \<Rightarrow> string list" where
  "safeCommandEnvironment getenv =
     map (\<lambda>k. k @ ''='' @ getenv k) (filter (\<lambda>k. getenv k \<noteq> []) [''PATH'', ''LANG'', ''LC_ALL''])"

text \<open>An error of the process comes before an error of copying its output.\<close>

definition run_error :: "command_result \<Rightarrow> string option" where
  "run_error r =
     (case cm_error r of
        Some e \<Rightarrow> Some e
      | None \<Rightarrow> (case fst (copy_output (cm_stdout r) new_writer) of
           Some e \<Rightarrow> Some e
         | None \<Rightarrow> fst (copy_output (cm_stderr r) new_writer)))"

definition judge_answer :: "(string \<Rightarrow> (judge_reply \<times> trailing) go_result) \<Rightarrow> string \<Rightarrow> judge_result go_result" where
  "judge_answer decode out =
     (case decode out of
        Inl e \<Rightarrow> Inl (''decode judge response: '' @ e)
      | Inr (a, EOF) \<Rightarrow>
          (case (jp_pass a, jp_score a, jp_rationale a) of
             (Some pass, Some score, Some rationale) \<Rightarrow>
               if score < 0 \<or> score > 1 then Inl ''judge score must be between 0 and 1''
               else Inr \<lparr>jr_configured = True, jr_pass = pass, jr_score = score, jr_rationale = take MaxJudgeRationale rationale, jr_error = []\<rparr>
           | _ \<Rightarrow> Inl ''judge response requires pass, score, and rationale'')
      | Inr (a, _) \<Rightarrow> Inl ''decode judge response: trailing data'')"

definition judge_Evaluate :: "'s judge_world \<Rightarrow> command_judge \<Rightarrow> judge_observation \<Rightarrow> 's \<Rightarrow> judge_result go_result \<times> 's" where
  "judge_Evaluate W j ob s =
     (if trim_space (cj_command j) = [] then (Inl ''judge command is empty'', s)
      else case jw_marshal W ob of
        Inl e \<Rightarrow> (Inl e, s)
      | Inr input \<Rightarrow>
          if MaxJudgeInputBytes < length input then
            (Inl (''judge observation exceeds '' @ show_nat MaxJudgeInputBytes @ '' bytes''), s)
          else
            let timeout = (if cj_timeout j \<le> 0 then 30 * second else cj_timeout j) in
            (case jw_run W (cj_command j) input (safeCommandEnvironment (jw_getenv W)) timeout s of
               (r, s') \<Rightarrow>
                 (case run_error r of
                    Some e \<Rightarrow> (Inl (''judge command: '' @ e @ '': '' @ boundedMessage (lw_written (snd (copy_output (cm_stderr r) new_writer)))), s')
                  | None \<Rightarrow> (judge_answer (jw_decode W) (lw_written (snd (copy_output (cm_stdout r) new_writer))), s'))))"

subsection \<open>Bounds\<close>

lemma copy_output_exact:
  assumes "copy_output chunks w = (e, w')"
  shows "lw_written w' = lw_written w @ take (lw_remaining w) (concat chunks)"
    "e = None \<Longrightarrow> length (concat chunks) \<le> lw_remaining w"
  using assms
proof (induction chunks arbitrary: w)
  case (Cons c cs)
  {
    case 1
    show ?case
    proof (cases "lw_remaining w = 0 \<or> lw_remaining w < length c")
      case True
      with 1 show ?thesis by (auto simp: judge_Write_def Let_def split: if_splits)
    next
      case False
      with 1 have "copy_output cs \<lparr>lw_written = lw_written w @ c, lw_remaining = lw_remaining w - length c\<rparr> = (e, w')"
        by (simp add: judge_Write_def Let_def)
      from Cons.IH(1) [OF this] False show ?thesis by simp
    qed
  next
    case 2
    from 2 have "\<not> (lw_remaining w = 0 \<or> lw_remaining w < length c)"
      by (auto simp: judge_Write_def Let_def split: if_splits)
    moreover from this 2 have "copy_output cs \<lparr>lw_written = lw_written w @ c, lw_remaining = lw_remaining w - length c\<rparr> = (e, w')"
      by (simp add: judge_Write_def Let_def)
    from Cons.IH(2) [OF 2(1) this] have "length (concat cs) \<le> lw_remaining w - length c" by simp
    ultimately show ?case by auto
  }
qed auto

text \<open>
  An accepted answer: the observation fitted, the command succeeded within its output limits, its whole output decodes
  to a complete response, the score is between 0 and 1, and the rationale is cut to its limit.
\<close>

lemma judge_Evaluate_bounded:
  assumes "judge_Evaluate W j ob s = (Inr a, s')"
  shows "jr_configured a \<and> jr_error a = [] \<and> 0 \<le> jr_score a \<and> jr_score a \<le> 1 \<and> length (jr_rationale a) \<le> MaxJudgeRationale \<and>
    (\<exists>input r timeout. jw_marshal W ob = Inr input \<and> length input \<le> MaxJudgeInputBytes \<and> 0 < timeout \<and>
       jw_run W (cj_command j) input (safeCommandEnvironment (jw_getenv W)) timeout s = (r, s') \<and> cm_error r = None \<and>
       length (concat (cm_stdout r)) \<le> MaxJudgeOutputBytes \<and> length (concat (cm_stderr r)) \<le> MaxJudgeOutputBytes \<and>
       (\<exists>x. jw_decode W (concat (cm_stdout r)) = Inr (x, EOF) \<and> jp_pass x = Some (jr_pass a)))"
proof -
  define timeout where "timeout = (if cj_timeout j \<le> 0 then 30 * second else cj_timeout j)"
  then have pos: "0 < timeout" by simp
  from assms obtain input r where i: "jw_marshal W ob = Inr input" "length input \<le> MaxJudgeInputBytes" "0 < timeout"
    "jw_run W (cj_command j) input (safeCommandEnvironment (jw_getenv W)) timeout s = (r, s')" "run_error r = None"
    "judge_answer (jw_decode W) (lw_written (snd (copy_output (cm_stdout r) new_writer))) = Inr a"
    unfolding judge_Evaluate_def Let_def timeout_def [symmetric] using pos
    by (auto split: if_splits sum.splits prod.splits option.splits)
  from i(5) have err: "cm_error r = None" "fst (copy_output (cm_stdout r) new_writer) = None" "fst (copy_output (cm_stderr r) new_writer) = None"
    by (auto simp: run_error_def split: option.splits)
  have out: "length (concat (cm_stdout r)) \<le> MaxJudgeOutputBytes" "length (concat (cm_stderr r)) \<le> MaxJudgeOutputBytes"
    using copy_output_exact(2) [of "cm_stdout r" new_writer _ _] copy_output_exact(2) [of "cm_stderr r" new_writer _ _] err(2,3)
    by (metis limited_writer.select_convs(2) new_writer_def prod.collapse)+
  have "lw_written (snd (copy_output (cm_stdout r) new_writer)) = concat (cm_stdout r)"
    using copy_output_exact(1) [of "cm_stdout r" new_writer "fst (copy_output (cm_stdout r) new_writer)"] out(1)
    by (simp add: new_writer_def)
  with i(6) have "judge_answer (jw_decode W) (concat (cm_stdout r)) = Inr a" by simp
  then have "jr_configured a \<and> jr_error a = [] \<and> 0 \<le> jr_score a \<and> jr_score a \<le> 1 \<and> length (jr_rationale a) \<le> MaxJudgeRationale \<and>
      (\<exists>x. jw_decode W (concat (cm_stdout r)) = Inr (x, EOF) \<and> jp_pass x = Some (jr_pass a))"
    by (auto simp: judge_answer_def not_less split: sum.splits prod.splits trailing.splits option.splits if_splits)
  with i err out show ?thesis by blast
qed

end
