(* ===== verification/Spec2Isabelle.thy ===== *)
theory Spec2Isabelle
  imports Pod_Status Admission Run_Delivery Agent_Scheduled Reporter Reference_Main Webhook_Lifecycle Eval_Judge
begin

text \<open>
  \<^bold>\<open>Kontext: an operator that runs AI agents as Kubernetes objects.\<close>

  A user declares an Agent (a runtime image, a goal, a provider, budgets and a mode); every execution is
  an AgentRun owned by it. The parts of the program and how they interact:

  \<^item> the admission webhook completes an AgentRun that names an Agent into a self-contained snapshot;
  \<^item> the Agent controller creates runs: never for a Task Agent, one at a time with a backoff for a
    Service Agent, one per schedule slot for a Scheduled Agent;
  \<^item> the AgentRun controller executes a run, either in a Pod of its own, whose termination message is the
    result envelope, or by one signed HTTP delivery to the standing Pod of a Service Agent;
  \<^item> inside the Pod, the reference runtime reads its configuration from the environment, alternates turns of a
    model provider with batches of tool calls (shell, knowledge, Kubernetes, MCP servers) under its limits, and
    prints the result as its last line; a foreign runtime is wrapped by the reporter, which captures its output and
    leaves the termination message;
  \<^item> the operator generates and rotates the certificates of its webhook itself;
  \<^item> the evaluation harness runs suites of AgentRuns against a cluster and grades what it observed;
  \<^item> the status of both kinds of object is the only memory: every reconcile starts from what the API server
    says, and the deterministic names of runs, Pods and secrets make the creations idempotent.

  \<^bold>\<open>Theories and sources.\<close>

  \<^descr> \<open>Kontext_Prelude\<close> Go strings (byte lists), 32- and 64-bit wrap-around, decimal printing and
    parsing, string functions of the Go library, association lists with the semantics of Go maps, the
    record \<open>golib\<close> of library functions that stay parameters (SHA-256, quoting).
  \<^descr> \<open>Go_Time\<close> \<open>time.Time\<close> as nanoseconds since year 1, saturating and wrapping arithmetic, the calendar,
    RFC 3339 printing and parsing and their round trip.
  \<^descr> \<open>Go_Sort\<close>, \<open>Go_Path\<close>, \<open>Loops\<close> \<open>sort.Slice\<close> with the locale \<open>slice_order\<close>, lexical paths, and the locale
    \<open>step_loop\<close> of loops that repeat a step until it yields a result.
  \<^descr> \<open>Go_Json\<close> UTF-8 validity and JSON string encoding of \<open>encoding/json\<close>.
  \<^descr> \<open>Kube_Lib\<close> the Kubernetes objects the code reads and writes, and the locale \<open>kube_contract\<close> with the
    documented laws of controller references and status conditions, interpreted on a concrete library.
  \<^descr> \<open>Kube_Io\<close> the API server as a record of operations on an arbitrary state type. A reconcile is a
    function from that state to a result, a trace of events and a new state; \<open>holds\<close>, \<open>emits\<close> and \<open>returns\<close>
    state what is true for every server, so every answer, error and interleaved change by another client
    is covered.
  \<^descr> \<open>Api_Types\<close> \<open>api/v1alpha1\<close>: Agent and AgentRun, with \<open>internal/conditions\<close> and \<open>controller/status.go\<close>.
  \<^descr> \<open>Runtime_Policy\<close>, \<open>Proc_Group\<close> \<open>internal/runtimepolicy\<close>; \<open>internal/environment\<close> and \<open>internal/procgroup\<close>.
  \<^descr> \<open>Pod_Builder\<close> \<open>internal/podbuilder\<close>: the Pod executes the snapshot, its managed variables cannot be
    overridden, its name is a DNS label.
  \<^descr> \<open>Result_Envelope\<close> \<open>pkg/result\<close>: validation, parsing, compaction below a byte limit, line framing.
  \<^descr> \<open>Pod_Status\<close> \<open>internal/status\<close>: the verdict on a Pod.
  \<^descr> \<open>Run_Factory\<close> \<open>internal/runfactory\<close>: the template scanner is equal to a grammar of segments, and a
    resolved invocation is a snapshot of its Agent.
  \<^descr> \<open>Admission\<close> \<open>internal/admission\<close>.
  \<^descr> \<open>Scheduler\<close> \<open>internal/scheduler\<close> and \<open>internal/scheduledrun\<close>.
  \<^descr> \<open>Agent_Controller\<close> \<open>controller/agent_controller.go\<close>: Task and Service modes.
  \<^descr> \<open>Agent_Scheduled\<close> \<open>controller/agent_scheduled.go\<close> and the dispatch of Reconcile.
  \<^descr> \<open>Run_Controller\<close> \<open>controller/agentrun_controller.go\<close>.
  \<^descr> \<open>Delivery_Contract\<close> \<open>pkg/delivery\<close> and \<open>controller/agentrun_delivery_credential.go\<close>.
  \<^descr> \<open>Run_Delivery\<close> \<open>controller/agentrun_delivery.go\<close> and the dispatch of the run Reconcile.
  \<^descr> \<open>Webhook_Certificates\<close>, \<open>Webhook_Lifecycle\<close> \<open>internal/webhooktls\<close>: the bundle of authority and serving
    certificate, the Secret and the registration, and the order of the writes of a rotation.
  \<^descr> \<open>Runtime_Config\<close>, \<open>Runtime_Api\<close>, \<open>Runtime_Events\<close> \<open>runtimes/reference/internal/config\<close>, \<open>runtimeapi\<close> with
    \<open>conversation\<close>, and \<open>events\<close> with \<open>pkg/event\<close>.
  \<^descr> \<open>Runtime_Engine\<close>, \<open>Engine_Run\<close>, \<open>Engine_State\<close>, \<open>Engine_Tools\<close> \<open>runtimes/reference/internal/engine\<close>: the
    definitions, then limits, verdict and return of a run, what every operation keeps of the world, and the
    conversations with the tools of a registry.
  \<^descr> \<open>Provider_Http\<close>, \<open>Provider_Wire\<close>, \<open>Providers\<close> \<open>runtimes/reference/internal/provider\<close>: one JSON request and its
    failures, the two wire formats under the locale \<open>wire_format\<close>, the scripted provider and the choice of one.
  \<^descr> \<open>Tool_Output\<close>, \<open>Tool_Knowledge\<close>, \<open>Tool_Kubernetes\<close>, \<open>Tool_Shell\<close>, \<open>Tool_Registry\<close> \<open>internal/tooloutput\<close> and
    \<open>runtimes/reference/internal/tools\<close>.
  \<^descr> \<open>Mcp_Redact\<close>, \<open>Mcp_Transport\<close>, \<open>Mcp_Client\<close> \<open>runtimes/reference/internal/mcpclient\<close>.
  \<^descr> \<open>Reference_Main\<close> \<open>runtimes/reference/main.go\<close>, the process that puts the runtime together.
  \<^descr> \<open>Reporter\<close> \<open>runtimes/reporter\<close>.
  \<^descr> \<open>Eval_Grading\<close>, \<open>Eval_Logs\<close>, \<open>Eval_Expect\<close>, \<open>Eval_Suite\<close>, \<open>Eval_Runner\<close>, \<open>Eval_Verdict\<close>, \<open>Eval_Judge\<close>
    \<open>internal/eval\<close>: graders, logs, the meaning of a grader on a whole run, suites and their assertions, the
    runner, its guarantees, and the judge that runs a command.

  \<^bold>\<open>How the code is rendered.\<close> A struct is a record with the fields in source order, a pointer an option, a map
  an association list, a slice a list (a nil slice is kept apart where the code distinguishes it), an error a
  value of a sum type carrying its text. A Go method with early returns is one definition, or a chain of
  definitions cut where the method continues after a call. Integers that can wrap carry the wrap-around
  explicitly. Code outside the repository is a parameter with named laws: the API server, SHA-256 and HMAC,
  \<open>encoding/json\<close>, \<open>mime\<close>, \<open>time.ParseDuration\<close>, cron expressions and the time-zone database, random bytes.

  \<^bold>\<open>Loops.\<close> Recursive definitions carry a termination proof, except three loops that have no bound of their own;
  they are partial functions into an option, \<open>None\<close> meaning that the loop does not return. \<open>LatestDue\<close> returns
  whenever the schedule advances, and does not return on an unsatisfiable one. \<open>run_loop\<close> of the engine returns
  under a turn limit, which the configuration may leave out. \<open>waitForTerminal\<close> of the harness returns when its
  context ends. The last two are interpretations of \<open>step_loop\<close>. The retries of the source are bounded: the five
  rounds of \<open>Ensure\<close> are a number of the code, those of \<open>RetryOnConflict\<close> and \<open>getWithRetry\<close>, which the client
  library counts, are a parameter that the properties hold for at every value.

  \<^bold>\<open>Main results.\<close>

  \<^item> Control plane. A delivered run succeeds only on a response authenticated under the standing run's
    credential, and a reconcile sends at most one request. A scheduled Agent creates a run only for the latest
    due slot, inside the deadline, and its counters and schedule times never move back. A Service Agent starts
    its next run only when the previous one ended and its backoff elapsed. A run gets at most one Pod, which is
    built from its snapshot, and only its own Pods are deleted. Every status written by the run controller keeps
    phase, start, completion and conditions consistent, and a terminal run is never changed again. Templates are
    rendered as their grammar says and rejected exactly when malformed. A certificate is served only when the
    registration trusts its authority.
  \<^item> Runtime. For every provider and every tool a run keeps its limits, returns under a turn limit, and reports
    its result truthfully; every request of it carries exactly the calls executed so far with what the tools
    returned, and both wire formats keep them. Tool output is cut at the longest prefix that fits. The tools stay
    inside their bounds: files under their resolved name below the root of the knowledge, GET requests in the own
    namespace, an exactly known environment without credentials for a command, no secret of an MCP server in a
    redacted text (for secrets that cannot be part of the marker), whole good frames only from a child process.
  \<^item> The chain between them. A result envelope always fits the termination message and still parses, the capture
    of the reporter depends on the lines of the output only (but for one mark, see \<open>capture_by_lines\<close>), and the operator observes a run Succeeded exactly
    when the runtime exited 0.
  \<^item> Evaluation. A suite passes only when every case was observed to its end and meets every grader, and the
    harness deletes only runs it created.

  \<^bold>\<open>Not modelled.\<close> Manager wiring, flags, scheme registration and generated copies (no decisions of their own); the
  ticker of the certificate manager and its TLS option; supervision and signals of the reporter's child and the
  installation of its binary; the variants of the process functions for other systems; the command line of the
  harness and the writing of its output files; the test doubles; concurrency of two workers of one controller on
  one object, which controller-runtime excludes.
\<close>

subsection \<open>From the runtime's last line to the status of the run\<close>

lemma reported_outcome:
  assumes "codec_ok L J" "WriteEnvelopeLine L J e = Inr line"
    and "rc_format C = CaptureFormatKontextEnvelope" "4112 < rc_max_capture_bytes C"
    and "concat chunks = before @ line @ after" "before = [] \<or> last before = newline"
    and "\<forall>l \<in> set (split_at_char newline after). kept (rc_format C) (rc_max_capture_bytes C) l = None"
  shows "en_outcome (envelopeFromCapture L J (rc_format C) (capture_Result (child_capture C chunks)) code) = OutcomeSucceeded
    \<longleftrightarrow> code = 0 \<and> en_outcome e = OutcomeSucceeded"
proof -
  from reporter_forwards [OF assms] obtain c where "en_outcome c = en_outcome e"
    and "envelopeFromPrefixedCandidate L J (capture_Result (child_capture C chunks)) = c" by blast
  with assms(3) show ?thesis by (auto simp: envelopeFromCapture_def Let_def)
qed

text \<open>
  The result crosses the whole chain unchanged: an envelope a runtime prints as a line of its output, whatever it
  printed before and however the output was cut into chunks, is captured by the reporter, written as a termination
  message that fits, and read back by the operator. The reporter exits with the code of the runtime, and the run is
  observed Succeeded exactly when the runtime exited 0 and its last envelope says succeeded.
\<close>

lemma result_reaches_status:
  assumes "codec_ok L J" "WriteEnvelopeLine L J e = Inr line"
    and "rc_format C = CaptureFormatKontextEnvelope" "4112 < rc_max_capture_bytes C"
    and "concat chunks = before @ line @ after" "before = [] \<or> last before = newline"
    and "\<forall>l \<in> set (split_at_char newline after). kept (rc_format C) (rc_max_capture_bytes C) l = None"
    and "runReporter L J write_file C (Inr (chunks, code)) = (exit, Some file)"
  shows "exit = code \<and> length file \<le> 4096 \<and>
    po_phase (observationFromTermination L J (exit, file)) =
      (if code = 0 \<and> en_outcome e = OutcomeSucceeded then AgentRunPhaseSucceeded else AgentRunPhaseFailed)"
proof -
  let ?e = "envelopeFromCapture L J (rc_format C) (capture_Result (child_capture C chunks)) code"
  note written = runReporter_file [OF assms(1,8)]
  then obtain c where c: "ParseVersioned L J file = Inr c" "en_outcome c = en_outcome ?e" by blast
  with written have "Parse L J (trim_space file) = Inr (c, False)" by (simp add: ParseVersioned_Parse)
  with written c reported_outcome [OF assms(1-7), of code] show ?thesis
    by (auto simp: observationFromTermination_phase)
qed

text \<open>
  C12. From the environment of the reference runtime to the status of the run: however the lines of its event log and the
  output of its tools are interleaved, whatever a tool printed, and however the reporter receives it, the reporter ends
  with the exit code of the runtime and a termination message that fits, and the operator observes the run Succeeded
  exactly when the runtime exited 0.
\<close>

theorem runtime_exit_reaches_status:
  assumes "codec_ok (pr_lib W) (pr_codec W)" "reference_main W getenv s = Some out" "prints out stamp (concat chunks)"
    and "rc_format C = CaptureFormatKontextEnvelope" "4112 < rc_max_capture_bytes C"
    and "runReporter (pr_lib W) (pr_codec W) write_file C (Inr (chunks, mo_exit out)) = (exit, Some file)"
  shows "exit = mo_exit out \<and> mo_exit out \<in> {0, 1, 2} \<and> length file \<le> 4096 \<and>
    po_phase (observationFromTermination (pr_lib W) (pr_codec W) (exit, file)) =
      (if mo_exit out = 0 then AgentRunPhaseSucceeded else AgentRunPhaseFailed)"
proof -
  from reference_main_prints [OF assms(2,3)] obtain before where out: "concat chunks = before @ mo_line out @ []"
    "before = [] \<or> last before = newline" "mo_exit out \<in> {0, 1, 2}"
    and line: "mo_line out = [] \<and> mo_exit out \<noteq> 0 \<or>
      (\<exists>e. WriteEnvelopeLine (pr_lib W) (pr_codec W) e = Inr (mo_line out) \<and> (mo_exit out = 0 \<longleftrightarrow> en_outcome e = OutcomeSucceeded))"
    by auto
  have later: "\<forall>l \<in> set (split_at_char newline []). kept (rc_format C) (rc_max_capture_bytes C) l = None"
  proof -
    have "trim_space [] = []" "trim_suffix [] [CHR 0x0D] = []" by code_simp+
    then show ?thesis by (simp add: kept_def)
  qed
  note written = runReporter_file [OF assms(1,6)]
  from line show ?thesis
  proof (elim disjE exE)
    assume "mo_line out = [] \<and> mo_exit out \<noteq> 0"
    with written out(3) show ?thesis by (simp add: observationFromTermination_phase)
  next
    fix e assume e: "WriteEnvelopeLine (pr_lib W) (pr_codec W) e = Inr (mo_line out) \<and> (mo_exit out = 0 \<longleftrightarrow> en_outcome e = OutcomeSucceeded)"
    from result_reaches_status [OF assms(1) conjunct1 [OF e] assms(4,5) out(1,2) later assms(6)] e out(3) show ?thesis by auto
  qed
qed

definition envelope_reporter :: reporter_config where
  "envelope_reporter = \<lparr>rc_format = CaptureFormatKontextEnvelope, rc_termination_path = defaultTerminationPath,
     rc_max_capture_bytes = defaultCaptureBytes, rc_command = [''agent'']\<rparr>"

text \<open>
  A process that is started without any configuration, with a clock before the year 0, so that its one event cannot be
  encoded and goes to standard error.
\<close>

definition bare_failure :: envelope where
  "bare_failure = failureEnvelope ''invalid_configuration'' ''KONTEXT_GOAL is required'' None
     \<lparr>md_provider = [], md_model = [], md_request_id = [], md_started_at = 0, md_completed_at = 0, md_turns = 0, md_tool_calls = 0\<rparr>"

definition bare_codec :: json_codec where
  "bare_codec = \<lparr>jc_valid = (\<lambda>_. True), jc_compact = Inr, jc_unmarshal_string = Inr, jc_unmarshal_fields = (\<lambda>_. Inr [''apiVersion'']),
     jc_unmarshal_legacy = (\<lambda>_. Inl ''legacy''),
     jc_unmarshal_envelope = (\<lambda>b. if b = ''{failed}'' then Inr bare_failure else Inl ''unknown''),
     jc_marshal_envelope = (\<lambda>e. if e = bare_failure then Inr ''{failed}'' else Inl ''unknown'')\<rparr>"

definition bare_process :: "(unit, nat) process_world" where
  "bare_process = \<lparr>pr_codec = bare_codec, pr_fake_lib = plain_fake_lib, pr_http = busy_world, pr_anthropic_unmarshal = Inl,
     pr_openai_unmarshal = Inl, pr_fake = \<lparr>fw_ctx_err = (\<lambda>s. (CtxActive, s)), fw_wait = (\<lambda>_ s. (CtxActive, s))\<rparr>,
     pr_tools = echo_tools, pr_now = (\<lambda>s. (0, s)), pr_ctx_err = (\<lambda>s. (CtxActive, s))\<rparr>"

lemma bare_codec_ok: "codec_ok (pr_lib bare_process) (pr_codec bare_process)"
proof -
  have "Validate (pr_lib bare_process) bare_codec bare_failure = None" "trim_space ''{failed}'' = ''{failed}''" by code_simp+
  then show ?thesis by (auto simp: bare_process_def codec_ok_def bare_codec_def same_shape_def split: if_splits)
qed

theorem runtime_exit_reaches_status_witness:
  "\<exists>out file. reference_main bare_process (\<lambda>_. []) 0 = Some out \<and> mo_exit out = 2 \<and> file = ''{failed}'' \<and>
     po_phase (observationFromTermination (pr_lib bare_process) (pr_codec bare_process) (2, file)) = AgentRunPhaseFailed"
proof -
  let ?out = "\<lparr>mo_exit = 2, mo_events = [EmError ''invalid_configuration'' ''KONTEXT_GOAL is required'' None], mo_copied = [],
    mo_line = ''KONTEXT_RESULT: {failed}'' @ [newline]\<rparr>"
  let ?chunks = "[''KONTEXT_RESULT: {fai'', ''led}'' @ [newline]]"
  have "fst (date_of_days (-463)) < 0" by code_simp
  then have e: "fst (Emit (- 40000000000000000) m) = []" for m
    by (auto simp: Emit_def event_line_def event_of_def json_time_def go_bind_def split: prod.splits)
  have "trim_space [] = []" "WriteEnvelopeLine (pr_lib bare_process) bare_codec bare_failure = Inr (mo_line ?out)" by code_simp+
  then have m: "reference_main bare_process (\<lambda>_. []) 0 = Some ?out"
    by (simp add: reference_main_def Load_def required_def go_bind_def EmitFailure_def bare_process_def bare_failure_def)
  have p: "prints ?out (\<lambda>_. - 40000000000000000) (concat ?chunks)" using e by (simp add: prints_def event_lines_def)
  have r: "runReporter (pr_lib bare_process) (pr_codec bare_process) (\<lambda>_. None) envelope_reporter (Inr (?chunks, mo_exit ?out)) = (2, Some ''{failed}'')"
    by code_simp
  have C: "rc_format envelope_reporter = CaptureFormatKontextEnvelope" "4112 < rc_max_capture_bytes envelope_reporter"
    by (simp_all add: envelope_reporter_def)
  from runtime_exit_reaches_status [OF bare_codec_ok m p C r] m show ?thesis by simp
qed

end
